(* ===== verification/Prelude.thy ===== *)
theory Prelude
  imports Complex_Main "HOL-Library.AList"
begin

text \<open>
  Shared vocabulary of the development.

  \<^item> \<open>named_theorems\<close> collections: \<open>jsmap_simps\<close> (lookups in insertion-ordered maps),
    \<open>jsstr_simps\<close> (string normalisation), \<open>jsnum_simps\<close> (JavaScript numbers).
  \<^item> JavaScript strings as \<open>string\<close>: a list of code points below 128. \<open>js_trim\<close>,
    \<open>js_lower\<close>, \<open>js_upper\<close>, \<open>js_includes\<close> are the methods \<open>trim\<close>, \<open>toLowerCase\<close>,
    \<open>toUpperCase\<close>, \<open>includes\<close> on such strings.
  \<^item> JavaScript numbers that come from text (\<open>Number(raw)\<close>): \<open>js_num\<close>, with the grammar of
    \<open>StringToNumber\<close>. Finite values are exact rationals; values that a double rounds to
    infinity or to zero are read as the double is. Times and counters are \<open>int\<close> and \<open>nat\<close>.
  \<^item> JavaScript \<open>Map\<close>: an association list in insertion order. \<open>AList.update\<close> keeps the
    place of a key that exists and appends a new one, as \<open>Map.prototype.set\<close> does;
    \<open>AList.delete\<close> is \<open>Map.prototype.delete\<close>, \<open>map_of\<close> is \<open>get\<close>.
\<close>

named_theorems jsmap_simps
named_theorems jsstr_simps
named_theorems jsnum_simps

section \<open>Strings\<close>

definition js_ws :: "char \<Rightarrow> bool" where
  "js_ws c = (let n = (of_char c :: nat) in (9 \<le> n \<and> n \<le> 13) \<or> n = 32)"

definition js_trim :: "string \<Rightarrow> string" where
  "js_trim s = rev (dropWhile js_ws (rev (dropWhile js_ws s)))"

definition lower_char :: "char \<Rightarrow> char" where
  "lower_char c = (let n = (of_char c :: nat) in if 65 \<le> n \<and> n \<le> 90 then char_of (n + 32) else c)"

definition upper_char :: "char \<Rightarrow> char" where
  "upper_char c = (let n = (of_char c :: nat) in if 97 \<le> n \<and> n \<le> 122 then char_of (n - 32) else c)"

definition js_lower :: "string \<Rightarrow> string" where
  "js_lower s = map lower_char s"

definition js_upper :: "string \<Rightarrow> string" where
  "js_upper s = map upper_char s"

fun js_includes :: "string \<Rightarrow> string \<Rightarrow> bool" where
  "js_includes [] t = (t = [])"
| "js_includes (c # s) t = (take (length t) (c # s) = t \<or> js_includes s t)"

text \<open>\<open>s.split(c)\<close> for a separator of one character.\<close>

fun js_split :: "char \<Rightarrow> string \<Rightarrow> string list" where
  "js_split c [] = [[]]"
| "js_split c (x # xs) = (if x = c then [] # js_split c xs
     else (case js_split c xs of [] \<Rightarrow> [[x]] | w # ws \<Rightarrow> (x # w) # ws))"

lemma js_includes_iff: "js_includes s t \<longleftrightarrow> (\<exists>u v. s = u @ t @ v)"
proof (induction s)
  case Nil
  then show ?case by auto
next
  case (Cons c s)
  have "take (length t) (c # s) = t \<longleftrightarrow> (\<exists>v. c # s = t @ v)"
    by (metis append_take_drop_id append_eq_conv_conj)
  moreover have "(\<exists>u v. c # s = u @ t @ v) \<longleftrightarrow>
      (\<exists>v. c # s = t @ v) \<or> (\<exists>u v. s = u @ t @ v)"
    by (metis append_Cons append_Nil list.inject list.exhaust)
  ultimately show ?case using Cons.IH by simp
qed

lemma lower_char_idem [simp]: "lower_char (lower_char c) = lower_char c"
proof -
  have "(of_char c :: nat) < 256" by simp
  then show ?thesis by (auto simp: lower_char_def Let_def)
qed

lemma js_lower_idem [jsstr_simps, simp]: "js_lower (js_lower s) = js_lower s"
  by (induction s) (simp_all add: js_lower_def)

lemma js_lower_Nil [jsstr_simps, simp]: "js_lower s = [] \<longleftrightarrow> s = []"
  by (simp add: js_lower_def)

lemma js_trim_Nil [jsstr_simps]: "js_trim s = [] \<longleftrightarrow> (\<forall>c \<in> set s. js_ws c)"
proof -
  have "js_trim s = [] \<longleftrightarrow> (\<forall>c \<in> set (dropWhile js_ws s). js_ws c)"
    by (simp add: js_trim_def)
  also have "\<dots> \<longleftrightarrow> (\<forall>c \<in> set s. js_ws c)"
    by (induction s) auto
  finally show ?thesis .
qed

lemma dropWhile_hd_idem: "dropWhile P (dropWhile P s) = dropWhile P s"
  by (induction s) auto

lemma js_trim_idem [jsstr_simps, simp]: "js_trim (js_trim s) = js_trim s"
proof -
  define u where "u = dropWhile js_ws s"
  have "dropWhile js_ws (rev (dropWhile js_ws (rev u))) = rev (dropWhile js_ws (rev u))"
  proof (cases "rev (dropWhile js_ws (rev u))")
    case (Cons c v)
    obtain w where w: "u = rev (dropWhile js_ws (rev u)) @ w"
      by (metis rev_append rev_rev_ident takeWhile_dropWhile_id)
    with Cons have "u = c # (v @ w)" by simp
    then have "\<not> js_ws c"
      unfolding u_def by (metis dropWhile_eq_Cons_conv)
    with Cons show ?thesis by simp
  next
    case Nil
    then show ?thesis by (simp only: dropWhile.simps)
  qed
  then show ?thesis
    by (simp add: js_trim_def u_def[symmetric] dropWhile_hd_idem)
qed

section \<open>Numbers read from text\<close>

datatype js_num = NaN | PInf | NInf | Fin rat

definition js_finite :: "js_num \<Rightarrow> bool" where
  "js_finite x = (case x of Fin _ \<Rightarrow> True | _ \<Rightarrow> False)"

definition js_integer :: "js_num \<Rightarrow> bool" where
  "js_integer x = (case x of Fin r \<Rightarrow> r \<in> \<int> | _ \<Rightarrow> False)"

lemma js_num_tests [jsnum_simps, simp]:
  "js_finite NaN = False" "js_finite PInf = False" "js_finite NInf = False"
  "js_finite (Fin r) = True"
  "js_integer NaN = False" "js_integer PInf = False" "js_integer NInf = False"
  "js_integer (Fin r) = (r \<in> \<int>)"
  by (simp_all add: js_finite_def js_integer_def)

definition digit_val :: "nat \<Rightarrow> char \<Rightarrow> nat option" where
  "digit_val base c = (let n = (of_char c :: nat);
      d = (if 48 \<le> n \<and> n \<le> 57 then n - 48
           else if 97 \<le> n \<and> n \<le> 122 then n - 87
           else if 65 \<le> n \<and> n \<le> 90 then n - 55 else 99)
    in if d < base then Some d else None)"

text \<open>Value, number of digits and rest of a run of digits.\<close>

fun read_digits :: "nat \<Rightarrow> nat \<Rightarrow> nat \<Rightarrow> string \<Rightarrow> nat \<times> nat \<times> string" where
  "read_digits base v k [] = (v, k, [])"
| "read_digits base v k (c # s) = (case digit_val base c of
     None \<Rightarrow> (v, k, c # s)
   | Some d \<Rightarrow> read_digits base (v * base + d) (Suc k) s)"

text \<open>The double nearest to a rational is infinite, or zero, beyond these bounds.\<close>

definition js_round :: "rat \<Rightarrow> js_num" where
  "js_round r = (if 2 ^ 1024 - 2 ^ 970 \<le> r then PInf
     else if r \<le> - (2 ^ 1024 - 2 ^ 970) then NInf
     else if \<bar>r\<bar> * 2 ^ 1075 \<le> 1 then Fin 0 else Fin r)"

definition read_exponent :: "string \<Rightarrow> int option" where
  "read_exponent s = (case s of
      [] \<Rightarrow> Some 0
    | e # t \<Rightarrow>
       if e = CHR ''e'' \<or> e = CHR ''E'' then
         (let (sg, u) = (case t of
              c # u \<Rightarrow> if c = CHR ''-'' then (-1, u) else if c = CHR ''+'' then (1, u) else (1, t)
            | [] \<Rightarrow> (1, t));
            (v, k, r) = read_digits 10 0 0 u
          in if k = 0 \<or> r \<noteq> [] then None else Some (sg * int v))
       else None)"

definition js_decimal :: "rat \<Rightarrow> string \<Rightarrow> js_num" where
  "js_decimal sg s = (if s = ''Infinity'' then (if sg < 0 then NInf else PInf) else
     (let (iv, ik, r) = read_digits 10 0 0 s;
          (fv, fk, r') = (case r of c # u \<Rightarrow> if c = CHR ''.'' then read_digits 10 0 0 u else (0, 0, r)
                                 | [] \<Rightarrow> (0, 0, r))
      in if ik = 0 \<and> fk = 0 then NaN
         else case read_exponent r' of
            None \<Rightarrow> NaN
          | Some e \<Rightarrow> js_round (sg * (of_nat iv + of_nat fv / 10 ^ fk) *
                               (if 0 \<le> e then 10 ^ nat e else 1 / 10 ^ nat (- e)))))"

definition js_radix :: "nat \<Rightarrow> string \<Rightarrow> js_num" where
  "js_radix base s = (let (v, k, r) = read_digits base 0 0 s
     in if k = 0 \<or> r \<noteq> [] then NaN else js_round (of_nat v))"

text \<open>\<open>Number(raw)\<close> for a string argument.\<close>

definition js_Number :: "string \<Rightarrow> js_num" where
  "js_Number raw = (case js_trim raw of
      [] \<Rightarrow> Fin 0
    | c # s \<Rightarrow>
       if c = CHR ''0'' \<and> take 1 s \<in> {''x'', ''X''} then js_radix 16 (drop 1 s)
       else if c = CHR ''0'' \<and> take 1 s \<in> {''o'', ''O''} then js_radix 8 (drop 1 s)
       else if c = CHR ''0'' \<and> take 1 s \<in> {''b'', ''B''} then js_radix 2 (drop 1 s)
       else if c = CHR ''-'' then js_decimal (-1) s
       else if c = CHR ''+'' then js_decimal 1 s
       else js_decimal 1 (c # s))"

text \<open>\<open>Number.parseInt(s, 10)\<close>: an optional sign, then as many digits as there are.\<close>

definition js_parseInt :: "string \<Rightarrow> int option" where
  "js_parseInt s = (let u = dropWhile js_ws s;
      (sg, w) = (case u of c # r \<Rightarrow> if c = CHR ''-'' then (-1, r) else if c = CHR ''+'' then (1, r) else (1, u)
                         | [] \<Rightarrow> (1, u));
      (v, k, rest) = read_digits 10 0 0 w
    in if k = 0 then None else Some (sg * int v))"

text \<open>The decimal text of an integer.\<close>

fun nat_text :: "nat \<Rightarrow> string" where
  "nat_text n = (if n < 10 then [char_of (48 + n)] else nat_text (n div 10) @ [char_of (48 + n mod 10)])"

declare nat_text.simps [simp del]

definition int_text :: "int \<Rightarrow> string" where
  "int_text i = (if i < 0 then ''-'' @ nat_text (nat (- i)) else nat_text (nat i))"

text \<open>The value of a run of decimal digits.\<close>

definition text_value :: "string \<Rightarrow> nat" where
  "text_value s = foldl (\<lambda>v c. v * 10 + (of_char c - 48)) 0 s"

lemma of_char_digit: "n < 10 \<Longrightarrow> of_char (char_of (48 + n) :: char) = (48 + n :: nat)"
  by simp

lemma nat_text_value: "text_value (nat_text n) = n"
proof (induction n rule: nat_text.induct)
  case (1 n)
  show ?case
  proof (cases "n < 10")
    case True
    then show ?thesis using of_char_digit[OF True] by (subst nat_text.simps) (simp add: text_value_def)
  next
    case False
    have "of_char (char_of (48 + n mod 10) :: char) = (48 + n mod 10 :: nat)"
      by (rule of_char_digit) simp
    then have "text_value (nat_text n) = text_value (nat_text (n div 10)) * 10 + n mod 10"
      using False by (subst nat_text.simps) (simp add: text_value_def)
    then show ?thesis using 1 False by simp
  qed
qed

section \<open>Values of unknown type\<close>

text \<open>A field of a parsed JSON payload, as far as the code looks at it.\<close>

datatype js_val = JUndef | JNull | JNum js_num | JStr string | JOther

section \<open>Insertion-ordered maps\<close>

type_synonym ('k, 'v) jsmap = "('k \<times> 'v) list"

abbreviation jm_keys :: "('k, 'v) jsmap \<Rightarrow> 'k list" where
  "jm_keys m \<equiv> map fst m"

abbreviation jm_values :: "('k, 'v) jsmap \<Rightarrow> 'v list" where
  "jm_values m \<equiv> map snd m"

definition jm_ok :: "('k, 'v) jsmap \<Rightarrow> bool" where
  "jm_ok m = distinct (jm_keys m)"

lemma jm_ok_Nil [simp, intro]: "jm_ok []"
  by (simp add: jm_ok_def)

lemma jm_ok_update [simp, intro]: "jm_ok m \<Longrightarrow> jm_ok (AList.update k v m)"
  by (simp add: jm_ok_def distinct_update)

lemma jm_ok_delete [simp, intro]: "jm_ok m \<Longrightarrow> jm_ok (AList.delete k m)"
  by (simp add: jm_ok_def distinct_delete)

lemma jm_get_update [jsmap_simps]:
  "map_of (AList.update k v m) k' = (if k' = k then Some v else map_of m k')"
  by (simp add: update_conv')

lemma jm_get_delete [jsmap_simps]:
  "map_of (AList.delete k m) k' = (if k' = k then None else map_of m k')"
  by (simp add: delete_conv')

lemma jm_get_values: "map_of m k = Some v \<Longrightarrow> v \<in> set (jm_values m)"
  by (metis image_eqI map_of_SomeD set_map snd_conv)

lemma jm_get_iff: "jm_ok m \<Longrightarrow> map_of m k = Some v \<longleftrightarrow> (k, v) \<in> set m"
  by (simp add: jm_ok_def)

lemma jm_size_update_new: "map_of m k = None \<Longrightarrow> AList.update k v m = m @ [(k, v)]"
  by (induction m) (auto split: if_splits)

lemma jm_size_update_le: "length (AList.update k v m) \<le> Suc (length m)"
  by (induction m) auto

lemma jm_size_delete: "jm_ok m \<Longrightarrow> map_of m k \<noteq> None \<Longrightarrow> Suc (length (AList.delete k m)) = length m"
proof (induction m)
  case (Cons p m)
  then show ?case
    by (cases p) (force simp: jm_ok_def AList.delete_eq filter_id_conv intro!: arg_cong[of _ _ length]
        split: if_splits)
qed simp

section \<open>The first answer of a sequence\<close>

text \<open>Some answer of the interval \<open>[a, a + n)\<close> is good, and every one before it asks to go on.\<close>

definition first_good :: "(nat \<Rightarrow> bool) \<Rightarrow> (nat \<Rightarrow> bool) \<Rightarrow> nat \<Rightarrow> nat \<Rightarrow> bool" where
  "first_good good again a n \<longleftrightarrow> (\<exists>k. a \<le> k \<and> k < a + n \<and> good k \<and> (\<forall>j. a \<le> j \<and> j < k \<longrightarrow> again j))"

lemma first_good_0 [simp]: "\<not> first_good good again a 0"
  by (simp add: first_good_def)

lemma first_good_Suc:
  "first_good good again a (Suc n) \<longleftrightarrow> good a \<or> (again a \<and> first_good good again (Suc a) n)"
proof
  assume "first_good good again a (Suc n)"
  then obtain k where k: "a \<le> k" "k < a + Suc n" "good k" "\<forall>j. a \<le> j \<and> j < k \<longrightarrow> again j"
    by (auto simp: first_good_def)
  show "good a \<or> (again a \<and> first_good good again (Suc a) n)"
  proof (cases "k = a")
    case False
    with k show ?thesis by (auto simp: first_good_def intro!: exI[of _ k])
  qed (use k in simp)
next
  assume "good a \<or> (again a \<and> first_good good again (Suc a) n)"
  then show "first_good good again a (Suc n)"
  proof
    assume "again a \<and> first_good good again (Suc a) n"
    then obtain k where k: "again a" "Suc a \<le> k" "k < Suc a + n" "good k" "\<forall>j. Suc a \<le> j \<and> j < k \<longrightarrow> again j"
      by (auto simp: first_good_def)
    then have "again j" if "a \<le> j" "j < k" for j using that by (cases "j = a") auto
    with k show ?thesis by (auto simp: first_good_def intro!: exI[of _ k])
  qed (auto simp: first_good_def intro!: exI[of _ a])
qed

section \<open>Last elements of a list\<close>

text \<open>\<open>xs.slice(-n)\<close> for a positive \<open>n\<close>.\<close>

definition take_last :: "nat \<Rightarrow> 'a list \<Rightarrow> 'a list" where
  "take_last n xs = drop (length xs - n) xs"

lemma length_take_last [simp]: "length (take_last n xs) = min n (length xs)"
  by (auto simp: take_last_def)

lemma take_last_all: "length xs \<le> n \<Longrightarrow> take_last n xs = xs"
  by (simp add: take_last_def)

lemma set_take_last: "set (take_last n xs) \<subseteq> set xs"
  by (simp add: take_last_def set_drop_subset)

lemma take_last_snoc: "0 < n \<Longrightarrow> take_last n (xs @ [x]) = take_last (n - 1) xs @ [x]"
  by (cases n) (auto simp: take_last_def)

lemma take_last_append_long: "n \<le> length ys \<Longrightarrow> take_last n (xs @ ys) = take_last n ys"
  by (simp add: take_last_def)

lemma take_last_split: "xs = take (length xs - n) xs @ take_last n xs"
  by (simp add: take_last_def)

end
