(* ===== verification/SqliteRetry.thy ===== *)
theory SqliteRetry
  imports Prelude
begin

text \<open>
  \<open>src/apps/backend/src/store/sqlite-queue-store.ts\<close>: the retry wrapper every SQLite
  call of the backend goes through (\<open>withRetry\<close>, \<open>isRetryableSqliteError\<close>,
  \<open>readPositiveInt\<close> and the two limits read from the environment). The database call
  itself is a parameter: the outcome of the \<open>n\<close>-th call of the operation.
\<close>

record sqlite_error =
  sqlite_code :: "string option"
  sqlite_message :: string

definition RETRYABLE_SQLITE_CODES :: "string list" where
  "RETRYABLE_SQLITE_CODES = [''SQLITE_BUSY'', ''SQLITE_LOCKED'']"

definition DEFAULT_MAX_RETRIES :: nat where "DEFAULT_MAX_RETRIES = 5"
definition DEFAULT_BASE_DELAY_MS :: nat where "DEFAULT_BASE_DELAY_MS = 50"

definition isRetryableSqliteError :: "sqlite_error \<Rightarrow> bool" where
  "isRetryableSqliteError err = (case sqlite_code err of
     Some c \<Rightarrow> c \<in> set RETRYABLE_SQLITE_CODES | None \<Rightarrow> False)"

definition readPositiveInt :: "string option \<Rightarrow> nat \<Rightarrow> nat" where
  "readPositiveInt value fallback =
    (case js_parseInt (case value of None \<Rightarrow> [] | Some s \<Rightarrow> s) of
       None \<Rightarrow> fallback
     | Some n \<Rightarrow> if \<bar>n\<bar> \<le> 2 ^ 53 - 1 \<and> 0 < n then nat n else fallback)"

definition getMaxRetries :: "(string \<Rightarrow> string option) \<Rightarrow> nat" where
  "getMaxRetries env = readPositiveInt (env ''SQLITE_MAX_RETRIES'') DEFAULT_MAX_RETRIES"

definition getRetryBaseDelayMs :: "(string \<Rightarrow> string option) \<Rightarrow> nat" where
  "getRetryBaseDelayMs env = readPositiveInt (env ''SQLITE_RETRY_BASE_DELAY_MS'') DEFAULT_BASE_DELAY_MS"

text \<open>
  The loop of \<open>withRetry\<close>. \<open>run n\<close> is the outcome of the call number \<open>n\<close>; the result
  is the final outcome, the number of retries made and the delays slept, in order.
\<close>

function withRetry_loop ::
  "(nat \<Rightarrow> sqlite_error + 'a) \<Rightarrow> nat \<Rightarrow> nat \<Rightarrow> nat \<Rightarrow> nat list \<Rightarrow> (sqlite_error + 'a) \<times> nat \<times> nat list" where
  "withRetry_loop run maxRetries baseDelayMs attempt slept =
    (case run attempt of
       Inr x \<Rightarrow> (Inr x, attempt, slept)
     | Inl err \<Rightarrow>
        if \<not> isRetryableSqliteError err \<or> attempt \<ge> maxRetries then (Inl err, attempt, slept)
        else withRetry_loop run maxRetries baseDelayMs (attempt + 1)
               (slept @ [baseDelayMs * 2 ^ ((attempt + 1) - 1)]))"
  by pat_completeness auto
termination
  by (relation "measure (\<lambda>(run, maxRetries, baseDelayMs, attempt, slept). maxRetries - attempt)") auto

declare withRetry_loop.simps [simp del]

definition withRetry ::
  "(string \<Rightarrow> string option) \<Rightarrow> (nat \<Rightarrow> sqlite_error + 'a) \<Rightarrow> (sqlite_error + 'a) \<times> nat \<times> nat list" where
  "withRetry env run = withRetry_loop run (getMaxRetries env) (getRetryBaseDelayMs env) 0 []"

lemma withRetry_loop_first_good:
  assumes "\<And>k. attempt \<le> k \<Longrightarrow> k < n \<Longrightarrow> \<exists>e. run k = Inl e \<and> isRetryableSqliteError e"
    and "run n = Inr x" and "attempt \<le> n" and "n \<le> mx"
  shows "withRetry_loop run mx base attempt slept =
    (Inr x, n, slept @ map (\<lambda>k. base * 2 ^ k) [attempt..<n])"
  using assms
proof (induction run mx base attempt slept rule: withRetry_loop.induct)
  case (1 run mx base attempt slept)
  show ?case
  proof (cases "attempt = n")
    case True
    with "1.prems" show ?thesis by (subst withRetry_loop.simps) simp
  next
    case False
    with "1.prems" have lt: "attempt < n" by simp
    with "1.prems"(1) obtain e where e: "run attempt = Inl e" "isRetryableSqliteError e" by blast
    from lt "1.prems"(4) have mx: "\<not> attempt \<ge> mx" by simp
    have "withRetry_loop run mx base (attempt + 1) (slept @ [base * 2 ^ attempt]) =
        (Inr x, n, (slept @ [base * 2 ^ attempt]) @ map (\<lambda>k. base * 2 ^ k) [attempt + 1..<n])"
      using "1.IH"[OF e(1)] e(2) mx "1.prems" lt by simp
    moreover have "[attempt..<n] = attempt # [attempt + 1..<n]"
      using lt by (simp add: upt_conv_Cons)
    ultimately show ?thesis
      using e mx by (subst withRetry_loop.simps) simp
  qed
qed

lemma withRetry_loop_bound:
  "fst (snd (withRetry_loop run mx base attempt slept)) \<le> max attempt mx"
proof (induction run mx base attempt slept rule: withRetry_loop.induct)
  case (1 run mx base attempt slept)
  then show ?case
    by (subst withRetry_loop.simps) (auto split: sum.splits)
qed

lemma withRetry_loop_error:
  assumes "fst (withRetry_loop run mx base attempt slept) = Inl e"
  shows "\<exists>n. run n = Inl e \<and> (isRetryableSqliteError e \<longrightarrow> mx \<le> n)"
  using assms
proof (induction run mx base attempt slept rule: withRetry_loop.induct)
  case (1 run mx base attempt slept)
  show ?case
  proof (cases "run attempt")
    case (Inr x)
    with "1.prems" show ?thesis by (subst (asm) withRetry_loop.simps) simp
  next
    case (Inl err)
    show ?thesis
    proof (cases "\<not> isRetryableSqliteError err \<or> attempt \<ge> mx")
      case True
      with Inl "1.prems" have "e = err" by (subst (asm) withRetry_loop.simps) auto
      with Inl True show ?thesis by auto
    next
      case False
      with Inl "1.prems" "1.IH"[OF Inl False] show ?thesis
        by (subst (asm) withRetry_loop.simps) simp
    qed
  qed
qed

end
