(* ===== verification/CircuitBreaker.thy ===== *)
theory CircuitBreaker
  imports SqliteRetry
begin

text \<open>
  \<open>src/apps/backend/src/services/circuit-breaker.ts\<close> and its SQLite row
  (\<open>store/sqlite-circuit-breaker-store.ts\<close>). The breaker object is the record
  \<open>breaker\<close>; the calls of \<open>onPersist\<close> and \<open>onStateChange\<close> are kept as the lists
  \<open>cb_persisted\<close> and \<open>cb_changes\<close>, oldest first. \<open>Date.now()\<close> is an argument, one per
  reading. Counters are \<open>nat\<close>, times are milliseconds as \<open>int\<close>, the cooldown is an
  exact rational.
\<close>

section \<open>State and configuration\<close>

datatype circuit_state = CLOSED | OPEN | HALF_OPEN

record cb_config =
  failureThreshold :: nat
  cooldownMs :: rat
  backoffMultiplier :: rat
  maxCooldownMs :: rat
  successThreshold :: nat
  has_onPersist :: bool

definition DEFAULT_CONFIG :: cb_config where
  "DEFAULT_CONFIG = \<lparr>failureThreshold = 5, cooldownMs = 30000, backoffMultiplier = 2,
     maxCooldownMs = 600000, successThreshold = 2, has_onPersist = False\<rparr>"

record cb_snapshot =
  sn_state :: circuit_state
  sn_failureCount :: nat
  sn_successCount :: nat
  sn_lastFailureTime :: "int option"
  sn_openedAt :: "int option"
  sn_attemptCount :: nat

record breaker =
  cb_state :: circuit_state
  cb_failureCount :: nat
  cb_successCount :: nat
  cb_lastFailureTime :: "int option"
  cb_openedAt :: "int option"
  cb_attemptCount :: nat
  cb_persisted :: "cb_snapshot list"
  cb_changes :: "(circuit_state \<times> circuit_state) list"

definition new_breaker :: breaker where
  "new_breaker = \<lparr>cb_state = CLOSED, cb_failureCount = 0, cb_successCount = 0,
     cb_lastFailureTime = None, cb_openedAt = None, cb_attemptCount = 0,
     cb_persisted = [], cb_changes = []\<rparr>"

section \<open>Operations\<close>

definition calculateCooldown :: "cb_config \<Rightarrow> breaker \<Rightarrow> rat" where
  "calculateCooldown cfg b =
    min (cooldownMs cfg * backoffMultiplier cfg ^ cb_attemptCount b) (maxCooldownMs cfg)"

definition getRemainingCooldown :: "cb_config \<Rightarrow> int \<Rightarrow> breaker \<Rightarrow> rat" where
  "getRemainingCooldown cfg now b = (if cb_state b \<noteq> OPEN then 0 else
     (case cb_openedAt b of
        None \<Rightarrow> 0
      | Some t \<Rightarrow> max 0 (calculateCooldown cfg b - of_int (now - t))))"

definition getSnapshot :: "breaker \<Rightarrow> cb_snapshot" where
  "getSnapshot b = \<lparr>sn_state = cb_state b, sn_failureCount = cb_failureCount b,
     sn_successCount = cb_successCount b, sn_lastFailureTime = cb_lastFailureTime b,
     sn_openedAt = cb_openedAt b, sn_attemptCount = cb_attemptCount b\<rparr>"

record cb_status =
  stt_state :: circuit_state
  stt_failureCount :: nat
  stt_successCount :: nat
  stt_remainingCooldown :: rat
  stt_attemptCount :: nat

definition getStatus :: "cb_config \<Rightarrow> int \<Rightarrow> breaker \<Rightarrow> cb_status" where
  "getStatus cfg now b = \<lparr>stt_state = cb_state b, stt_failureCount = cb_failureCount b,
     stt_successCount = cb_successCount b,
     stt_remainingCooldown = getRemainingCooldown cfg now b,
     stt_attemptCount = cb_attemptCount b\<rparr>"

definition persist :: "cb_config \<Rightarrow> breaker \<Rightarrow> breaker" where
  "persist cfg b = (if has_onPersist cfg
     then b\<lparr>cb_persisted := cb_persisted b @ [getSnapshot b]\<rparr> else b)"

definition transitionState :: "circuit_state \<Rightarrow> breaker \<Rightarrow> breaker" where
  "transitionState newState b = (if cb_state b \<noteq> newState
     then b\<lparr>cb_state := newState, cb_changes := cb_changes b @ [(cb_state b, newState)]\<rparr>
     else b)"

definition restoreState :: "cb_config \<Rightarrow> int \<Rightarrow> cb_snapshot \<Rightarrow> breaker \<Rightarrow> breaker" where
  "restoreState cfg now p b0 =
    (let b = b0\<lparr>cb_state := sn_state p, cb_failureCount := sn_failureCount p,
               cb_successCount := sn_successCount p, cb_lastFailureTime := sn_lastFailureTime p,
               cb_openedAt := sn_openedAt p, cb_attemptCount := sn_attemptCount p\<rparr>;
         b1 = (if cb_state b = OPEN \<or> cb_state b = HALF_OPEN then
                 (let referenceTime = (case cb_openedAt b of Some t \<Rightarrow> Some t | None \<Rightarrow> cb_lastFailureTime b);
                      expired = (case referenceTime of
                          None \<Rightarrow> True
                        | Some t \<Rightarrow> calculateCooldown cfg b \<le> of_int (now - t))
                  in if expired
                     then b\<lparr>cb_state := CLOSED, cb_failureCount := 0, cb_successCount := 0,
                            cb_lastFailureTime := None, cb_openedAt := None, cb_attemptCount := 0\<rparr>
                     else b)
               else b)
     in persist cfg b1)"

definition recordSuccess :: "cb_config \<Rightarrow> breaker \<Rightarrow> breaker" where
  "recordSuccess cfg b = persist cfg
    (if cb_state b = HALF_OPEN then
       (let b1 = b\<lparr>cb_successCount := cb_successCount b + 1\<rparr>
        in if successThreshold cfg \<le> cb_successCount b1
           then (transitionState CLOSED b1)
                  \<lparr>cb_failureCount := 0, cb_successCount := 0, cb_attemptCount := 0\<rparr>
           else b1)
     else if cb_state b = CLOSED then b\<lparr>cb_failureCount := 0\<rparr>
     else b)"

text \<open>\<open>t1\<close> and \<open>t2\<close> are the two readings of the clock in \<open>recordFailure\<close>.\<close>

definition recordFailure :: "cb_config \<Rightarrow> int \<Rightarrow> int \<Rightarrow> breaker \<Rightarrow> bool \<times> breaker" where
  "recordFailure cfg t1 t2 b0 =
    (let b = b0\<lparr>cb_lastFailureTime := Some t1\<rparr> in
     if cb_state b = HALF_OPEN then
       (True, persist cfg ((transitionState OPEN b)
          \<lparr>cb_successCount := 0, cb_attemptCount := cb_attemptCount b + 1, cb_openedAt := Some t2\<rparr>))
     else if cb_state b = CLOSED then
       (let b1 = b\<lparr>cb_failureCount := cb_failureCount b + 1\<rparr>
        in if failureThreshold cfg \<le> cb_failureCount b1
           then (True, persist cfg ((transitionState OPEN b1)
                   \<lparr>cb_openedAt := Some t2, cb_attemptCount := 0\<rparr>))
           else (False, persist cfg b1))
     else (False, persist cfg b))"

definition allowRequest :: "cb_config \<Rightarrow> int \<Rightarrow> breaker \<Rightarrow> bool \<times> breaker" where
  "allowRequest cfg now b =
    (if cb_state b = CLOSED then (True, b)
     else if cb_state b = HALF_OPEN then (True, b)
     else case cb_openedAt b of
        None \<Rightarrow> (False, b)
      | Some t \<Rightarrow>
          if calculateCooldown cfg b \<le> of_int (now - t)
          then (True, persist cfg ((transitionState HALF_OPEN b)
                  \<lparr>cb_successCount := 0, cb_failureCount := 0\<rparr>))
          else (False, b))"

definition cb_reset :: "cb_config \<Rightarrow> breaker \<Rightarrow> breaker" where
  "cb_reset cfg b = persist cfg ((transitionState CLOSED b)
     \<lparr>cb_failureCount := 0, cb_successCount := 0, cb_lastFailureTime := None,
      cb_openedAt := None, cb_attemptCount := 0\<rparr>)"

text \<open>The module's global instance: \<open>None\<close> is \<open>null\<close>.\<close>

definition getCircuitBreaker :: "breaker option \<Rightarrow> breaker" where
  "getCircuitBreaker g = (case g of None \<Rightarrow> new_breaker | Some b \<Rightarrow> b)"

definition resetCircuitBreaker :: "cb_config \<Rightarrow> breaker option \<Rightarrow> breaker option \<times> breaker option" where
  "resetCircuitBreaker cfg g = (map_option (cb_reset cfg) g, None)"

section \<open>The SQLite row\<close>

record cb_row =
  row_snapshot :: cb_snapshot
  row_updatedAt :: int

text \<open>The table holds at most one row, keyed by the constant row id; \<open>None\<close> is no row.\<close>

definition cb_store_save :: "cb_snapshot \<Rightarrow> int \<Rightarrow> cb_row option \<Rightarrow> cb_row option" where
  "cb_store_save s now row = Some \<lparr>row_snapshot = s, row_updatedAt = now\<rparr>"

definition cb_store_load :: "cb_row option \<Rightarrow> cb_snapshot option" where
  "cb_store_load row = map_option row_snapshot row"

text \<open>
  \<open>initializeCircuitBreaker\<close>: load, restore if something was persisted. The breaker it
  builds persists through the store.
\<close>

definition initializeCircuitBreaker :: "cb_config \<Rightarrow> int \<Rightarrow> cb_row option \<Rightarrow> breaker" where
  "initializeCircuitBreaker cfg now row =
    (case cb_store_load row of
       Some p \<Rightarrow> restoreState (cfg\<lparr>has_onPersist := True\<rparr>) now p new_breaker
     | None \<Rightarrow> new_breaker)"

section \<open>Rewriting\<close>

lemma persist_sel [simp]:
  "cb_state (persist cfg b) = cb_state b"
  "cb_failureCount (persist cfg b) = cb_failureCount b"
  "cb_successCount (persist cfg b) = cb_successCount b"
  "cb_lastFailureTime (persist cfg b) = cb_lastFailureTime b"
  "cb_openedAt (persist cfg b) = cb_openedAt b"
  "cb_attemptCount (persist cfg b) = cb_attemptCount b"
  "cb_changes (persist cfg b) = cb_changes b"
  by (simp_all add: persist_def)

lemma transitionState_sel [simp]:
  "cb_state (transitionState s b) = s"
  "cb_failureCount (transitionState s b) = cb_failureCount b"
  "cb_successCount (transitionState s b) = cb_successCount b"
  "cb_lastFailureTime (transitionState s b) = cb_lastFailureTime b"
  "cb_openedAt (transitionState s b) = cb_openedAt b"
  "cb_attemptCount (transitionState s b) = cb_attemptCount b"
  "cb_persisted (transitionState s b) = cb_persisted b"
  by (simp_all add: transitionState_def)

lemma getSnapshot_sel [simp]:
  "sn_state (getSnapshot b) = cb_state b"
  "sn_failureCount (getSnapshot b) = cb_failureCount b"
  "sn_successCount (getSnapshot b) = cb_successCount b"
  "sn_lastFailureTime (getSnapshot b) = cb_lastFailureTime b"
  "sn_openedAt (getSnapshot b) = cb_openedAt b"
  "sn_attemptCount (getSnapshot b) = cb_attemptCount b"
  by (simp_all add: getSnapshot_def)

lemma calculateCooldown_cong:
  "cb_attemptCount b = cb_attemptCount b' \<Longrightarrow> calculateCooldown cfg b = calculateCooldown cfg b'"
  by (simp add: calculateCooldown_def)

lemma calculateCooldown_persist [simp]:
  "calculateCooldown cfg (persist cfg' b) = calculateCooldown cfg b"
  by (rule calculateCooldown_cong) simp

lemma calculateCooldown_le_max: "calculateCooldown cfg b \<le> maxCooldownMs cfg"
  by (simp add: calculateCooldown_def)

lemma circuit_state_not_closed: "s \<noteq> CLOSED \<Longrightarrow> s \<noteq> HALF_OPEN \<Longrightarrow> s = OPEN"
  by (cases s) auto

section \<open>Invariant over runs of the process\<close>

text \<open>
  A run: any sequence of calls, the clock never going back, and restarts of the process,
  which restore the snapshot the breaker last handed to \<open>onPersist\<close>.
\<close>

inductive cb_run :: "cb_config \<Rightarrow> int \<Rightarrow> breaker \<Rightarrow> bool" for cfg where
  cb_init: "cb_run cfg t new_breaker"
| cb_tick: "cb_run cfg t b \<Longrightarrow> t \<le> t' \<Longrightarrow> cb_run cfg t' b"
| cb_success: "cb_run cfg t b \<Longrightarrow> cb_run cfg t (recordSuccess cfg b)"
| cb_failure: "cb_run cfg t b \<Longrightarrow> t \<le> t1 \<Longrightarrow> t1 \<le> t2 \<Longrightarrow> cb_run cfg t2 (snd (recordFailure cfg t1 t2 b))"
| cb_allow: "cb_run cfg t b \<Longrightarrow> cb_run cfg t (snd (allowRequest cfg t b))"
| cb_resets: "cb_run cfg t b \<Longrightarrow> cb_run cfg t (cb_reset cfg b)"
| cb_restart: "cb_run cfg t b \<Longrightarrow> cb_persisted b \<noteq> [] \<Longrightarrow>
    cb_run cfg t (restoreState cfg t (last (cb_persisted b)) new_breaker)"

definition cb_inv :: "cb_config \<Rightarrow> int \<Rightarrow> breaker \<Rightarrow> bool" where
  "cb_inv cfg t b \<longleftrightarrow> (case cb_state b of
      CLOSED \<Rightarrow> cb_failureCount b < failureThreshold cfg \<and> cb_attemptCount b = 0 \<and> cb_successCount b = 0
    | OPEN \<Rightarrow> cb_successCount b = 0 \<and> (\<exists>t0. cb_openedAt b = Some t0 \<and> t0 \<le> t)
    | HALF_OPEN \<Rightarrow> cb_successCount b < successThreshold cfg \<and>
        (\<exists>t0. cb_openedAt b = Some t0 \<and> calculateCooldown cfg b \<le> of_int (t - t0)))"

text \<open>What was handed to \<open>onPersist\<close> last is the current state, unless nothing was.\<close>

definition cb_synced :: "breaker \<Rightarrow> bool" where
  "cb_synced b \<longleftrightarrow> (if cb_persisted b = [] then getSnapshot b = getSnapshot new_breaker
                     else last (cb_persisted b) = getSnapshot b)"

lemma cb_inv_persist [simp]: "cb_inv cfg t (persist cfg' b) = cb_inv cfg t b"
  by (simp add: cb_inv_def split: circuit_state.split)

lemma cb_inv_new: "0 < failureThreshold cfg \<Longrightarrow> cb_inv cfg t new_breaker"
  by (simp add: cb_inv_def new_breaker_def)

lemma cb_inv_tick: "cb_inv cfg t b \<Longrightarrow> t \<le> t' \<Longrightarrow> cb_inv cfg t' b"
  by (auto simp: cb_inv_def split: circuit_state.splits)

lemma cb_inv_recordSuccess:
  "cb_inv cfg t b \<Longrightarrow> 0 < failureThreshold cfg \<Longrightarrow> cb_inv cfg t (recordSuccess cfg b)"
  by (cases "cb_state b") (auto simp: cb_inv_def recordSuccess_def Let_def calculateCooldown_def)

lemma cb_inv_recordFailure:
  "cb_inv cfg t b \<Longrightarrow> t \<le> t1 \<Longrightarrow> t1 \<le> t2 \<Longrightarrow> cb_inv cfg t2 (snd (recordFailure cfg t1 t2 b))"
  by (cases "cb_state b") (force simp: cb_inv_def recordFailure_def Let_def)+

lemma cb_inv_allowRequest:
  "cb_inv cfg t b \<Longrightarrow> 0 < successThreshold cfg \<Longrightarrow> cb_inv cfg t (snd (allowRequest cfg t b))"
  by (cases "cb_state b") (auto simp: cb_inv_def allowRequest_def calculateCooldown_def)

lemma cb_inv_reset: "0 < failureThreshold cfg \<Longrightarrow> cb_inv cfg t (cb_reset cfg b)"
  by (simp add: cb_inv_def cb_reset_def)

lemma cb_inv_restoreState:
  "cb_inv cfg t b \<Longrightarrow> 0 < failureThreshold cfg \<Longrightarrow> cb_inv cfg t (restoreState cfg t (getSnapshot b) b0)"
  by (cases "cb_state b") (auto simp: cb_inv_def restoreState_def Let_def calculateCooldown_def)

lemma cb_synced_persist:
  "has_onPersist cfg \<Longrightarrow> cb_synced (persist cfg b)"
  by (simp add: cb_synced_def persist_def getSnapshot_def)

lemma cb_synced_ops:
  assumes "has_onPersist cfg"
  shows "cb_synced (recordSuccess cfg b)" "cb_synced (snd (recordFailure cfg t1 t2 b))"
    "cb_synced (cb_reset cfg b)" "cb_synced (restoreState cfg t p b)"
    "cb_synced b \<Longrightarrow> cb_synced (snd (allowRequest cfg t b))"
  using assms
  by (simp_all add: recordSuccess_def recordFailure_def cb_reset_def restoreState_def Let_def
      allowRequest_def cb_synced_persist split: option.splits)

lemma cb_run_inv:
  assumes "cb_run cfg t b" "0 < failureThreshold cfg" "0 < successThreshold cfg" "has_onPersist cfg"
  shows "cb_inv cfg t b \<and> cb_synced b"
  using assms
proof (induction rule: cb_run.induct)
  case (cb_init t)
  then show ?case by (simp add: cb_inv_new cb_synced_def) (simp add: new_breaker_def)
next
  case (cb_restart t b)
  then have "last (cb_persisted b) = getSnapshot b" by (simp add: cb_synced_def)
  with cb_restart show ?case by (simp add: cb_inv_restoreState cb_synced_ops)
qed (auto intro: cb_inv_tick cb_inv_recordSuccess cb_inv_recordFailure cb_inv_allowRequest
      cb_inv_reset cb_synced_ops)

inductive_cases cb_run_E: "cb_run cfg t b"

section \<open>Runs of one kind of call\<close>

definition record_failures :: "cb_config \<Rightarrow> int list \<Rightarrow> breaker \<Rightarrow> breaker" where
  "record_failures cfg ts b = fold (\<lambda>t b. snd (recordFailure cfg t t b)) ts b"

lemma record_failures_closed:
  assumes "cb_state b = CLOSED" and "cb_failureCount b + length ts < failureThreshold cfg"
  shows "cb_state (record_failures cfg ts b) = CLOSED \<and>
    cb_failureCount (record_failures cfg ts b) = cb_failureCount b + length ts"
  using assms
  by (induction ts arbitrary: b) (auto simp: record_failures_def recordFailure_def Let_def)

lemma record_failures_snoc:
  "record_failures cfg (ts @ [t]) b = snd (recordFailure cfg t t (record_failures cfg ts b))"
  by (simp add: record_failures_def)

lemma successes_half_open:
  assumes "cb_state b = HALF_OPEN" and "cb_successCount b + n < successThreshold cfg"
  shows "cb_state ((recordSuccess cfg ^^ n) b) = HALF_OPEN \<and>
    cb_successCount ((recordSuccess cfg ^^ n) b) = cb_successCount b + n"
  using assms
  by (induction n) (auto simp: recordSuccess_def Let_def)

lemma cb_run_failures:
  assumes "cb_run cfg t b" and "sorted (t # ts)"
  shows "cb_run cfg (last (t # ts)) (record_failures cfg ts b)"
  using assms
proof (induction ts arbitrary: t b)
  case Nil
  then show ?case by (simp add: record_failures_def)
next
  case (Cons u ts)
  then have "cb_run cfg u (snd (recordFailure cfg u u b))" by (auto intro: cb_failure)
  from Cons.IH[OF this] Cons.prems(2) show ?case by (simp add: record_failures_def)
qed

text \<open>The default configuration with persistence, and a breaker it has just opened.\<close>

definition cb_persisting :: cb_config where
  "cb_persisting = DEFAULT_CONFIG\<lparr>has_onPersist := True\<rparr>"

definition cb_opened :: breaker where
  "cb_opened = record_failures cb_persisting [0, 0, 0, 0, 0] new_breaker"

lemma cb_opened_run: "0 \<le> t \<Longrightarrow> cb_run cb_persisting t cb_opened"
  using cb_run_failures[OF cb_init, of 0 "[0, 0, 0, 0, 0]" cb_persisting]
  by (auto simp: cb_opened_def intro: cb_tick)

lemmas cb_eval = cb_opened_def cb_persisting_def DEFAULT_CONFIG_def record_failures_def
  recordFailure_def new_breaker_def persist_def transitionState_def getSnapshot_def
  calculateCooldown_def

lemma cb_opened_sel [simp]:
  "cb_state cb_opened = OPEN" "cb_openedAt cb_opened = Some 0" "cb_attemptCount cb_opened = 0"
  "cb_persisted cb_opened \<noteq> []"
  by (simp_all add: cb_eval)

lemma cb_persisting_sel [simp]:
  "failureThreshold cb_persisting = 5" "successThreshold cb_persisting = 2"
  "has_onPersist cb_persisting" "cooldownMs cb_persisting = 30000"
  "maxCooldownMs cb_persisting = 600000" "backoffMultiplier cb_persisting = 2"
  by (simp_all add: cb_persisting_def DEFAULT_CONFIG_def)

section \<open>Properties\<close>

text \<open>C3. The breaker opens on exactly the configured number of consecutive failures: fewer
  leave it closed, the last one opens it, stamps the time and resets the attempt count.\<close>

theorem breaker_opens_at_threshold:
  assumes "cb_state b = CLOSED" and "cb_failureCount b = 0" and "0 < failureThreshold cfg"
  shows "(length ts < failureThreshold cfg \<longrightarrow> cb_state (record_failures cfg ts b) = CLOSED) \<and>
    (length ts = failureThreshold cfg \<longrightarrow>
      cb_state (record_failures cfg ts b) = OPEN \<and>
      cb_openedAt (record_failures cfg ts b) = Some (last ts) \<and>
      cb_attemptCount (record_failures cfg ts b) = 0)"
proof (intro conjI impI)
  assume "length ts < failureThreshold cfg"
  with assms show "cb_state (record_failures cfg ts b) = CLOSED"
    using record_failures_closed[of b ts cfg] by simp
next
  assume len: "length ts = failureThreshold cfg"
  with assms(3) have "ts \<noteq> []" by auto
  then obtain us u where ts: "ts = us @ [u]" by (meson rev_exhaust)
  with len assms have "cb_state (record_failures cfg us b) = CLOSED \<and>
      cb_failureCount (record_failures cfg us b) = length us"
    using record_failures_closed[of b us cfg] by simp
  with ts len show "cb_state (record_failures cfg ts b) = OPEN"
    "cb_openedAt (record_failures cfg ts b) = Some (last ts)"
    "cb_attemptCount (record_failures cfg ts b) = 0"
    by (simp_all add: record_failures_snoc recordFailure_def Let_def)
qed

theorem breaker_opens_at_threshold_witness:
  "cb_state (record_failures DEFAULT_CONFIG [1, 2, 3, 4] new_breaker) = CLOSED \<and>
   cb_openedAt (record_failures DEFAULT_CONFIG [1, 2, 3, 4, 5] new_breaker) = Some 5"
  using breaker_opens_at_threshold[of new_breaker DEFAULT_CONFIG "[1, 2, 3, 4]"]
    breaker_opens_at_threshold[of new_breaker DEFAULT_CONFIG "[1, 2, 3, 4, 5]"]
  by (simp add: new_breaker_def DEFAULT_CONFIG_def)

text \<open>In every run, an open breaker lets a request through exactly when its cooldown has
  run out, that is when the reported remaining cooldown is zero; a refused request changes
  nothing, an admitted one moves the breaker to HALF_OPEN.\<close>

lemma breaker_open_gate:
  assumes "cb_run cfg t b" and "0 < failureThreshold cfg" and "0 < successThreshold cfg"
    and "has_onPersist cfg" and "cb_state b = OPEN"
  shows "(fst (allowRequest cfg t b) \<longleftrightarrow> getRemainingCooldown cfg t b = 0) \<and>
    (\<not> fst (allowRequest cfg t b) \<longrightarrow> snd (allowRequest cfg t b) = b) \<and>
    (fst (allowRequest cfg t b) \<longrightarrow> cb_state (snd (allowRequest cfg t b)) = HALF_OPEN)"
proof -
  obtain t0 where "cb_openedAt b = Some t0"
    using cb_run_inv[OF assms(1-4)] assms(5) by (auto simp: cb_inv_def)
  with assms(5) show ?thesis
    by (auto simp: allowRequest_def getRemainingCooldown_def max_def)
qed

lemma breaker_open_gate_example:
  "\<not> fst (allowRequest cb_persisting 29999 cb_opened) \<and> fst (allowRequest cb_persisting 30000 cb_opened)"
  using breaker_open_gate[OF cb_opened_run, of 29999] breaker_open_gate[OF cb_opened_run, of 30000]
  by (simp add: getRemainingCooldown_def calculateCooldown_def)



text \<open>A failed probe reopens the breaker and doubles down on the wait: the attempt count
  grows by one, and the new cooldown is the next power of the backoff, never shorter than
  the last one (for a multiplier of at least one) and never above the configured cap.\<close>

lemma breaker_failed_probe_backoff:
  assumes "cb_state b = HALF_OPEN" and "1 \<le> backoffMultiplier cfg" and "0 \<le> cooldownMs cfg"
  shows "fst (recordFailure cfg t1 t2 b) \<and>
    cb_state (snd (recordFailure cfg t1 t2 b)) = OPEN \<and>
    calculateCooldown cfg (snd (recordFailure cfg t1 t2 b)) =
      min (cooldownMs cfg * backoffMultiplier cfg ^ (cb_attemptCount b + 1)) (maxCooldownMs cfg) \<and>
    calculateCooldown cfg b \<le> calculateCooldown cfg (snd (recordFailure cfg t1 t2 b)) \<and>
    calculateCooldown cfg (snd (recordFailure cfg t1 t2 b)) \<le> maxCooldownMs cfg"
proof -
  have "backoffMultiplier cfg ^ cb_attemptCount b \<le> backoffMultiplier cfg ^ (cb_attemptCount b + 1)"
    using assms(2) by (intro power_increasing) auto
  then have "cooldownMs cfg * backoffMultiplier cfg ^ cb_attemptCount b
      \<le> cooldownMs cfg * backoffMultiplier cfg ^ (cb_attemptCount b + 1)"
    using assms(3) by (rule mult_left_mono)
  then show ?thesis
    using assms(1) by (auto simp: recordFailure_def Let_def calculateCooldown_def min_def)
qed

lemma breaker_failed_probe_backoff_example:
  "fst (recordFailure cb_persisting 30001 30001 (snd (allowRequest cb_persisting 30000 cb_opened))) \<and>
   calculateCooldown cb_persisting
     (snd (recordFailure cb_persisting 30001 30001 (snd (allowRequest cb_persisting 30000 cb_opened)))) = 60000"
proof -
  have "cb_state (snd (allowRequest cb_persisting 30000 cb_opened)) = HALF_OPEN"
    "cb_attemptCount (snd (allowRequest cb_persisting 30000 cb_opened)) = 0"
    by (simp_all add: allowRequest_def calculateCooldown_def)
  then show ?thesis
    using breaker_failed_probe_backoff[of "snd (allowRequest cb_persisting 30000 cb_opened)" cb_persisting 30001 30001]
    by simp
qed

text \<open>Restart: whatever run led here, a process that starts from the row saved last comes
  up OPEN exactly when the breaker was open and still cooling down, and CLOSED otherwise; in
  particular a half-open breaker never survives a restart.\<close>

lemma breaker_restart_state:
  assumes "cb_run cfg t b" and "0 < failureThreshold cfg" and "0 < successThreshold cfg"
    and "has_onPersist cfg" and "cb_persisted b \<noteq> []"
  shows "cb_state (initializeCircuitBreaker cfg t (cb_store_save (last (cb_persisted b)) saved row)) =
    (if cb_state b = OPEN \<and> 0 < getRemainingCooldown cfg t b then OPEN else CLOSED)"
proof -
  have "last (cb_persisted b) = getSnapshot b" and "cb_inv cfg t b"
    using cb_run_inv[OF assms(1-4)] assms(5) by (auto simp: cb_synced_def)
  then show ?thesis
    by (cases "cb_state b")
      (auto simp: initializeCircuitBreaker_def cb_store_save_def cb_store_load_def restoreState_def
        Let_def cb_inv_def calculateCooldown_def getRemainingCooldown_def)
qed

lemma breaker_restart_state_example:
  "cb_state (initializeCircuitBreaker cb_persisting 100 (cb_store_save (last (cb_persisted cb_opened)) 0 None)) = OPEN \<and>
   cb_state (initializeCircuitBreaker cb_persisting 30000 (cb_store_save (last (cb_persisted cb_opened)) 0 None)) = CLOSED"
  using breaker_restart_state[OF cb_opened_run, of 100 0 None]
    breaker_restart_state[OF cb_opened_run, of 30000 0 None]
  by (simp add: getRemainingCooldown_def calculateCooldown_def)

text \<open>Where the comment on \<open>restoreState\<close> says that it mirrors the check of
  \<open>allowRequest\<close>, the two differ: after the cooldown the breaker that kept running probes in
  HALF_OPEN, and one failure reopens it, while the restarted one is CLOSED and takes the full
  threshold of failures to open again.\<close>

lemma breaker_restart_skips_probing:
  assumes "cb_state b = OPEN" and "cb_openedAt b = Some t0"
    and "calculateCooldown cfg b \<le> of_int (now - t0)" and "1 < failureThreshold cfg"
  shows "fst (recordFailure cfg now now (snd (allowRequest cfg now b))) \<and>
    cb_state (snd (allowRequest cfg now b)) = HALF_OPEN \<and>
    cb_state (restoreState cfg now (getSnapshot b) new_breaker) = CLOSED \<and>
    \<not> fst (recordFailure cfg now now (restoreState cfg now (getSnapshot b) new_breaker))"
  using assms
  by (simp add: allowRequest_def restoreState_def recordFailure_def Let_def calculateCooldown_def)

lemma breaker_restart_skips_probing_example:
  "cb_state (snd (allowRequest cb_persisting 30000 cb_opened)) = HALF_OPEN \<and>
   cb_state (restoreState cb_persisting 30000 (getSnapshot cb_opened) new_breaker) = CLOSED"
  using breaker_restart_skips_probing[of cb_opened 0 cb_persisting 30000]
  by (simp add: calculateCooldown_def)

end
