(* ===== verification/QueueStore.thy ===== *)
theory QueueStore
  imports SqliteRetry
begin

text \<open>
  The oracle queue's stores: the interface \<open>store/persistent-queue-store.ts\<close> (the record
  \<open>queue_ops\<close> of its operations and the locale \<open>queue_store\<close> of what its clients rely on)
  and its two implementations, \<open>store/in-memory-queue-store.ts\<close> (a JavaScript \<open>Map\<close>) and
  \<open>store/sqlite-queue-store.ts\<close> (the rows of the table \<open>oracle_dlq\<close>, in insertion order).
  Each operation takes the reading of \<open>Date.now()\<close> it uses. Payloads are of any type
  \<open>'p\<close>; the JSON text of the SQLite column is kept as the value it encodes.
\<close>

section \<open>Entries\<close>

record 'p dlq_entry =
  dlq_id :: string
  dlq_payload :: 'p
  dlq_failureReason :: string
  dlq_attempts :: nat
  dlq_createdAt :: int
  dlq_lastAttemptAt :: "int option"
  dlq_traceContext :: "string option"

text \<open>\<open>Partial<DlqEntry>\<close>: \<open>None\<close> is a field the caller leaves out.\<close>

record 'p dlq_updates =
  up_id :: "string option"
  up_payload :: "'p option"
  up_failureReason :: "string option"
  up_attempts :: "nat option"
  up_createdAt :: "int option"
  up_lastAttemptAt :: "int option option"
  up_traceContext :: "string option option"

definition no_updates :: "'p dlq_updates" where
  "no_updates = \<lparr>up_id = None, up_payload = None, up_failureReason = None, up_attempts = None,
     up_createdAt = None, up_lastAttemptAt = None, up_traceContext = None\<rparr>"

definition retry_updates :: "nat \<Rightarrow> int \<Rightarrow> 'p dlq_updates" where
  "retry_updates n t = no_updates\<lparr>up_attempts := Some n, up_lastAttemptAt := Some (Some t)\<rparr>"

abbreviation override :: "'a option \<Rightarrow> 'a \<Rightarrow> 'a" where
  "override u x \<equiv> (case u of None \<Rightarrow> x | Some y \<Rightarrow> y)"

datatype store_error = UniqueConstraint | CheckConstraint

record ('s, 'p) queue_ops =
  q_add :: "int \<Rightarrow> 'p dlq_entry \<Rightarrow> 's \<Rightarrow> store_error + 's"
  q_getAll :: "int \<Rightarrow> 's \<Rightarrow> 'p dlq_entry list \<times> 's"
  q_remove :: "string \<Rightarrow> 's \<Rightarrow> 's"
  q_update :: "string \<Rightarrow> 'p dlq_updates \<Rightarrow> 's \<Rightarrow> 's"
  q_count :: "int \<Rightarrow> 's \<Rightarrow> nat"
  q_clear :: "'s \<Rightarrow> 's"

section \<open>What a client of the store relies on\<close>

text \<open>
  \<open>live t s\<close> is the map of the entries visible at time \<open>t\<close>, \<open>ids s\<close> the identifiers in
  use, \<open>norm\<close> what the store keeps of an entry.
\<close>

locale queue_store =
  fixes ops :: "('s, 'p) queue_ops"
    and inv :: "'s \<Rightarrow> bool"
    and ids :: "'s \<Rightarrow> string set"
    and live :: "int \<Rightarrow> 's \<Rightarrow> string \<Rightarrow> 'p dlq_entry option"
    and norm :: "'p dlq_entry \<Rightarrow> 'p dlq_entry"
  assumes add_law: "inv s \<Longrightarrow> 0 \<le> t \<Longrightarrow> dlq_id e \<notin> ids s \<Longrightarrow>
      \<exists>s'. q_add ops t e s = Inr s' \<and> inv s' \<and> live t s' = (live t s)(dlq_id e \<mapsto> norm e)"
    and live_ids: "inv s \<Longrightarrow> live t s k \<noteq> None \<Longrightarrow> k \<in> ids s"
    and live_id: "inv s \<Longrightarrow> live t s k = Some e \<Longrightarrow> dlq_id e = k"
    and live_mono: "inv s \<Longrightarrow> t \<le> t' \<Longrightarrow> live t' s \<subseteq>\<^sub>m live t s"
    and getAll_law: "inv s \<Longrightarrow> q_getAll ops t s = (es, s') \<Longrightarrow>
      inv s' \<and> set es = ran (live t s) \<and> distinct (map dlq_id es) \<and>
      (\<forall>t' \<ge> t. live t' s' = live t' s)"
    and remove_law: "inv s \<Longrightarrow> inv (q_remove ops k s) \<and> live t (q_remove ops k s) = (live t s)(k := None)"
    and update_law: "inv s \<Longrightarrow> 0 < u \<Longrightarrow>
      inv (q_update ops k (retry_updates n u) s) \<and>
      live t (q_update ops k (retry_updates n u) s) =
        (case live t s k of
           None \<Rightarrow> live t s
         | Some e \<Rightarrow> (live t s)(k \<mapsto> e\<lparr>dlq_attempts := n, dlq_lastAttemptAt := Some u\<rparr>))"
    and count_law: "inv s \<Longrightarrow> q_count ops t s \<le> card (dom (live t s))"
    and clear_law: "inv (q_clear ops s) \<and> live t (q_clear ops s) = Map.empty"
begin

lemma ran_live: "inv s \<Longrightarrow> e \<in> ran (live t s) \<longleftrightarrow> live t s (dlq_id e) = Some e"
  by (auto simp: ran_def dest: live_id)

lemma getAll_mem:
  "inv s \<Longrightarrow> q_getAll ops t s = (es, s') \<Longrightarrow> e \<in> set es \<longleftrightarrow> live t s (dlq_id e) = Some e"
  using getAll_law[of s t es s'] ran_live[of s e t] by simp

text \<open>Removing a list of identifiers, one call after the other.\<close>

lemma remove_list:
  "inv s \<Longrightarrow> inv (fold (q_remove ops) ks s) \<and>
     live t (fold (q_remove ops) ks s) = (\<lambda>k. if k \<in> set ks then None else live t s k)"
proof (induction ks arbitrary: s)
  case (Cons k ks)
  have r: "inv (q_remove ops k s)" "live t (q_remove ops k s) = (live t s)(k := None)"
    using remove_law[OF Cons.prems] by blast+
  show ?case using Cons.IH[OF r(1)] r(2) by (auto simp: fun_eq_iff)
qed simp

lemma getAll_empty: "inv s \<Longrightarrow> q_getAll ops t s = ([], s') \<Longrightarrow> live t s = Map.empty"
  using getAll_law[of s t "[]" s'] by (auto simp: ran_def fun_eq_iff) (metis option.exhaust)

end

section \<open>The in-memory store\<close>

type_synonym 'p mem_store = "(string, 'p dlq_entry) jsmap"

definition mem_add :: "int \<Rightarrow> 'p dlq_entry \<Rightarrow> 'p mem_store \<Rightarrow> store_error + 'p mem_store" where
  "mem_add now e m = Inr (AList.update (dlq_id e) e m)"

definition mem_getAll :: "int \<Rightarrow> 'p mem_store \<Rightarrow> 'p dlq_entry list \<times> 'p mem_store" where
  "mem_getAll now m = (jm_values m, m)"

definition mem_remove :: "string \<Rightarrow> 'p mem_store \<Rightarrow> 'p mem_store" where
  "mem_remove k m = AList.delete k m"

definition mem_update :: "string \<Rightarrow> 'p dlq_updates \<Rightarrow> 'p mem_store \<Rightarrow> 'p mem_store" where
  "mem_update k u m = (case map_of m k of
      None \<Rightarrow> m
    | Some e \<Rightarrow> AList.update k
        \<lparr>dlq_id = override (up_id u) (dlq_id e),
         dlq_payload = override (up_payload u) (dlq_payload e),
         dlq_failureReason = override (up_failureReason u) (dlq_failureReason e),
         dlq_attempts = override (up_attempts u) (dlq_attempts e),
         dlq_createdAt = override (up_createdAt u) (dlq_createdAt e),
         dlq_lastAttemptAt = override (up_lastAttemptAt u) (dlq_lastAttemptAt e),
         dlq_traceContext = override (up_traceContext u) (dlq_traceContext e)\<rparr> m)"

definition mem_count :: "int \<Rightarrow> 'p mem_store \<Rightarrow> nat" where
  "mem_count now m = length m"

definition mem_clear :: "'p mem_store \<Rightarrow> 'p mem_store" where
  "mem_clear m = []"

definition mem_ops :: "('p mem_store, 'p) queue_ops" where
  "mem_ops = \<lparr>q_add = mem_add, q_getAll = mem_getAll, q_remove = mem_remove,
     q_update = mem_update, q_count = mem_count, q_clear = mem_clear\<rparr>"

definition mem_inv :: "'p mem_store \<Rightarrow> bool" where
  "mem_inv m \<longleftrightarrow> jm_ok m \<and> (\<forall>(k, e) \<in> set m. dlq_id e = k)"

definition mem_live :: "int \<Rightarrow> 'p mem_store \<Rightarrow> string \<Rightarrow> 'p dlq_entry option" where
  "mem_live t m = map_of m"

lemma mem_ops_sel [simp]:
  "q_add mem_ops = mem_add" "q_getAll mem_ops = mem_getAll" "q_remove mem_ops = mem_remove"
  "q_update mem_ops = mem_update" "q_count mem_ops = mem_count" "q_clear mem_ops = mem_clear"
  by (simp_all add: mem_ops_def)

lemma mem_inv_get: "mem_inv m \<Longrightarrow> map_of m k = Some e \<Longrightarrow> dlq_id e = k"
  by (auto simp: mem_inv_def dest: map_of_SomeD)

lemma mem_inv_update: "mem_inv m \<Longrightarrow> dlq_id e = k \<Longrightarrow> mem_inv (AList.update k e m)"
proof -
  assume m: "mem_inv m" "dlq_id e = k"
  then have ok: "jm_ok (AList.update k e m)" by (simp add: mem_inv_def)
  have "dlq_id e' = k'" if "(k', e') \<in> set (AList.update k e m)" for k' e'
  proof -
    from that ok have "map_of (AList.update k e m) k' = Some e'" by (simp add: jm_get_iff)
    with m show ?thesis by (auto simp: jsmap_simps dest: mem_inv_get split: if_splits)
  qed
  with ok show ?thesis by (auto simp: mem_inv_def)
qed

lemma mem_inv_delete: "mem_inv m \<Longrightarrow> mem_inv (AList.delete k m)"
  by (auto simp: mem_inv_def AList.delete_eq jm_ok_def distinct_map_filter
      intro: distinct_delete[unfolded AList.delete_eq])

lemma mem_values_ran: "mem_inv m \<Longrightarrow> set (jm_values m) = ran (map_of m)"
  by (simp add: ran_distinct mem_inv_def jm_ok_def)

lemma mem_ids: "mem_inv m \<Longrightarrow> map dlq_id (jm_values m) = jm_keys m"
  by (auto simp: mem_inv_def)

interpretation memq: queue_store mem_ops mem_inv "\<lambda>m. set (jm_keys m)" mem_live "\<lambda>e. e"
proof unfold_locales
  fix s :: "'p mem_store" and t :: int and e :: "'p dlq_entry"
  assume "mem_inv s" "0 \<le> t" "dlq_id e \<notin> set (jm_keys s)"
  then show "\<exists>s'. q_add mem_ops t e s = Inr s' \<and> mem_inv s' \<and>
      mem_live t s' = (mem_live t s)(dlq_id e \<mapsto> e)"
    by (auto simp: mem_add_def mem_live_def mem_inv_update update_conv)
next
  fix s :: "'p mem_store" and t k
  assume "mem_inv s" "mem_live t s k \<noteq> None"
  then show "k \<in> set (jm_keys s)" by (auto simp: mem_live_def map_of_eq_None_iff)
next
  fix s :: "'p mem_store" and t k e
  assume "mem_inv s" "mem_live t s k = Some e"
  then show "dlq_id e = k" by (simp add: mem_live_def mem_inv_get)
next
  fix s :: "'p mem_store" and t t' :: int
  show "mem_live t' s \<subseteq>\<^sub>m mem_live t s" by (simp add: mem_live_def)
next
  fix s :: "'p mem_store" and t es s'
  assume m: "mem_inv s" "q_getAll mem_ops t s = (es, s')"
  from m(2) have "es = jm_values s" "s' = s" by (auto simp: mem_getAll_def)
  with m mem_values_ran[OF m(1)] mem_ids[OF m(1)] show
    "mem_inv s' \<and> set es = ran (mem_live t s) \<and> distinct (map dlq_id es) \<and>
      (\<forall>t'\<ge>t. mem_live t' s' = mem_live t' s)"
    unfolding mem_live_def mem_inv_def jm_ok_def by (simp only:) blast
next
  fix s :: "'p mem_store" and k t
  assume "mem_inv s"
  then show "mem_inv (q_remove mem_ops k s) \<and> mem_live t (q_remove mem_ops k s) = (mem_live t s)(k := None)"
    by (auto simp: mem_remove_def mem_live_def mem_inv_delete jsmap_simps fun_eq_iff)
next
  fix s :: "'p mem_store" and u t :: int and k n
  assume "mem_inv s" "0 < u"
  then show "mem_inv (q_update mem_ops k (retry_updates n u) s) \<and>
      mem_live t (q_update mem_ops k (retry_updates n u) s) =
        (case mem_live t s k of None \<Rightarrow> mem_live t s
         | Some e \<Rightarrow> (mem_live t s)(k \<mapsto> e\<lparr>dlq_attempts := n, dlq_lastAttemptAt := Some u\<rparr>))"
    by (auto simp: mem_update_def mem_live_def retry_updates_def no_updates_def update_conv mem_inv_get
        intro!: mem_inv_update split: option.splits)
next
  fix s :: "'p mem_store" and t
  assume "mem_inv s"
  then show "q_count mem_ops t s \<le> card (dom (mem_live t s))"
    by (simp add: mem_count_def mem_live_def dom_map_of_conv_image_fst mem_inv_def jm_ok_def)
      (metis card_image_le distinct_card distinct_map length_map list.set_map set_map order_refl)
next
  fix s :: "'p mem_store" and t
  show "mem_inv (q_clear mem_ops s) \<and> mem_live t (q_clear mem_ops s) = Map.empty"
    by (simp add: mem_clear_def mem_inv_def mem_live_def)
qed

section \<open>The SQLite store\<close>

record 'p dlq_row =
  r_id :: string
  r_payload :: 'p
  r_failureReason :: string
  r_attempts :: nat
  r_createdAt :: int
  r_lastAttemptAt :: "int option"
  r_expireAt :: int

type_synonym 'p sql_store = "'p dlq_row list"

definition DLQ_EXPIRY_MS :: int where "DLQ_EXPIRY_MS = 30 * 24 * 60 * 60 * 1000"

text \<open>The table's constraints: a primary key on \<open>id\<close>, and \<open>CHECK (expireAt > 0)\<close>.\<close>

definition sql_add :: "int \<Rightarrow> 'p dlq_entry \<Rightarrow> 'p sql_store \<Rightarrow> store_error + 'p sql_store" where
  "sql_add now e rows = (let expireAt = now + DLQ_EXPIRY_MS in
     if dlq_id e \<in> set (map r_id rows) then Inl UniqueConstraint
     else if expireAt \<le> 0 then Inl CheckConstraint
     else Inr (rows @ [\<lparr>r_id = dlq_id e, r_payload = dlq_payload e,
        r_failureReason = dlq_failureReason e, r_attempts = dlq_attempts e,
        r_createdAt = dlq_createdAt e, r_lastAttemptAt = dlq_lastAttemptAt e,
        r_expireAt = expireAt\<rparr>]))"

definition row_entry :: "'p dlq_row \<Rightarrow> 'p dlq_entry" where
  "row_entry r = \<lparr>dlq_id = r_id r, dlq_payload = r_payload r,
     dlq_failureReason = r_failureReason r, dlq_attempts = r_attempts r,
     dlq_createdAt = r_createdAt r,
     dlq_lastAttemptAt = (case r_lastAttemptAt r of
        None \<Rightarrow> None | Some t \<Rightarrow> if t = 0 then None else Some t),
     dlq_traceContext = None\<rparr>"

definition sql_getAll :: "int \<Rightarrow> 'p sql_store \<Rightarrow> 'p dlq_entry list \<times> 'p sql_store" where
  "sql_getAll now rows = (let rows' = filter (\<lambda>r. \<not> r_expireAt r < now) rows
     in (map row_entry (sort_key r_createdAt rows'), rows'))"

definition sql_remove :: "string \<Rightarrow> 'p sql_store \<Rightarrow> 'p sql_store" where
  "sql_remove k rows = filter (\<lambda>r. r_id r \<noteq> k) rows"

text \<open>Only \<open>attempts\<close> and \<open>lastAttemptAt\<close> reach the \<open>UPDATE\<close> statement.\<close>

definition sql_update :: "string \<Rightarrow> 'p dlq_updates \<Rightarrow> 'p sql_store \<Rightarrow> 'p sql_store" where
  "sql_update k u rows =
    (if up_attempts u = None \<and> up_lastAttemptAt u = None then rows
     else map (\<lambda>r. if r_id r = k
       then r\<lparr>r_attempts := override (up_attempts u) (r_attempts r),
              r_lastAttemptAt := override (up_lastAttemptAt u) (r_lastAttemptAt r)\<rparr>
       else r) rows)"

definition sql_count :: "int \<Rightarrow> 'p sql_store \<Rightarrow> nat" where
  "sql_count now rows = length (filter (\<lambda>r. r_expireAt r > now) rows)"

definition sql_clear :: "'p sql_store \<Rightarrow> 'p sql_store" where
  "sql_clear rows = []"

definition sql_ops :: "('p sql_store, 'p) queue_ops" where
  "sql_ops = \<lparr>q_add = sql_add, q_getAll = sql_getAll, q_remove = sql_remove,
     q_update = sql_update, q_count = sql_count, q_clear = sql_clear\<rparr>"

definition sql_inv :: "'p sql_store \<Rightarrow> bool" where
  "sql_inv rows = distinct (map r_id rows)"

definition sql_live :: "int \<Rightarrow> 'p sql_store \<Rightarrow> string \<Rightarrow> 'p dlq_entry option" where
  "sql_live t rows = map_of (map (\<lambda>r. (r_id r, row_entry r)) (filter (\<lambda>r. \<not> r_expireAt r < t) rows))"

definition sql_norm :: "'p dlq_entry \<Rightarrow> 'p dlq_entry" where
  "sql_norm e = e\<lparr>dlq_traceContext := None,
     dlq_lastAttemptAt := (case dlq_lastAttemptAt e of
        None \<Rightarrow> None | Some t \<Rightarrow> if t = 0 then None else Some t)\<rparr>"

lemma sql_ops_sel [simp]:
  "q_add sql_ops = sql_add" "q_getAll sql_ops = sql_getAll" "q_remove sql_ops = sql_remove"
  "q_update sql_ops = sql_update" "q_count sql_ops = sql_count" "q_clear sql_ops = sql_clear"
  by (simp_all add: sql_ops_def)

lemma row_entry_id [simp]: "dlq_id (row_entry r) = r_id r"
  by (simp add: row_entry_def)

lemma sql_live_Some:
  "sql_inv rows \<Longrightarrow> sql_live t rows k = Some e \<longleftrightarrow>
     (\<exists>r \<in> set rows. \<not> r_expireAt r < t \<and> r_id r = k \<and> row_entry r = e)"
proof -
  assume inv: "sql_inv rows"
  have "distinct (map fst (map (\<lambda>r. (r_id r, row_entry r)) (filter (\<lambda>r. \<not> r_expireAt r < t) rows)))"
    using inv by (simp add: sql_inv_def o_def distinct_map_filter)
  then show ?thesis unfolding sql_live_def by (auto simp: map_of_eq_Some_iff)
qed

lemma sql_live_append:
  "sql_live t (rows @ [r]) =
    (if r_expireAt r < t then sql_live t rows
     else (\<lambda>k. case sql_live t rows k of Some e \<Rightarrow> Some e | None \<Rightarrow> if k = r_id r then Some (row_entry r) else None))"
  by (auto simp: sql_live_def map_add_def fun_eq_iff split: option.splits)

lemma sql_live_notin: "k \<notin> set (map r_id rows) \<Longrightarrow> sql_live t rows k = None"
  by (auto simp: sql_live_def map_of_eq_None_iff)

lemma sql_live_remove: "sql_live t (sql_remove k rows) = (sql_live t rows)(k := None)"
  by (induction rows) (auto simp: sql_live_def sql_remove_def)

lemma sql_live_update:
  assumes "u \<noteq> 0"
  shows "sql_live t (sql_update k (retry_updates n u) rows) =
    (case sql_live t rows k of None \<Rightarrow> sql_live t rows
     | Some e \<Rightarrow> (sql_live t rows)(k \<mapsto> e\<lparr>dlq_attempts := n, dlq_lastAttemptAt := Some u\<rparr>))"
  using assms
  by (induction rows)
    (auto simp: sql_live_def sql_update_def retry_updates_def no_updates_def row_entry_def fun_eq_iff
      split: option.splits)

lemma sql_dom: "dom (sql_live t rows) = r_id ` {r \<in> set rows. \<not> r_expireAt r < t}"
  by (simp add: sql_live_def dom_map_of_conv_image_fst image_image)

interpretation sqlq: queue_store sql_ops sql_inv "\<lambda>rows. set (map r_id rows)" sql_live sql_norm
proof unfold_locales
  fix s :: "'p sql_store" and t :: int and e :: "'p dlq_entry"
  assume a: "sql_inv s" "0 \<le> t" "dlq_id e \<notin> set (map r_id s)"
  define r where "r = \<lparr>r_id = dlq_id e, r_payload = dlq_payload e,
        r_failureReason = dlq_failureReason e, r_attempts = dlq_attempts e,
        r_createdAt = dlq_createdAt e, r_lastAttemptAt = dlq_lastAttemptAt e,
        r_expireAt = t + DLQ_EXPIRY_MS\<rparr>"
  have "q_add sql_ops t e s = Inr (s @ [r])"
    using a by (auto simp: sql_add_def r_def DLQ_EXPIRY_MS_def Let_def)
  moreover have "sql_inv (s @ [r])" using a by (simp add: sql_inv_def r_def)
  moreover have "sql_live t (s @ [r]) = (sql_live t s)(dlq_id e \<mapsto> sql_norm e)"
  proof -
    have "row_entry r = sql_norm e" by (simp add: row_entry_def sql_norm_def r_def)
    moreover have "\<not> r_expireAt r < t" "r_id r = dlq_id e" by (simp_all add: r_def DLQ_EXPIRY_MS_def)
    ultimately show ?thesis
      using sql_live_notin[OF a(3)] by (auto simp: sql_live_append fun_eq_iff split: option.splits)
  qed
  ultimately show "\<exists>s'. q_add sql_ops t e s = Inr s' \<and> sql_inv s' \<and>
      sql_live t s' = (sql_live t s)(dlq_id e \<mapsto> sql_norm e)" by blast
next
  fix s :: "'p sql_store" and t k
  assume "sql_inv s" "sql_live t s k \<noteq> None"
  then show "k \<in> set (map r_id s)" using sql_live_notin by metis
next
  fix s :: "'p sql_store" and t k e
  assume "sql_inv s" "sql_live t s k = Some e"
  then show "dlq_id e = k" by (auto simp: sql_live_Some)
next
  fix s :: "'p sql_store" and t t' :: int
  assume a: "sql_inv s" "t \<le> t'"
  have "sql_live t s k = Some e" if "sql_live t' s k = Some e" for k e
    using that a(2) unfolding sql_live_Some[OF a(1)] by force
  then show "sql_live t' s \<subseteq>\<^sub>m sql_live t s"
    by (auto simp: map_le_def)
next
  fix s :: "'p sql_store" and t es s'
  assume inv: "sql_inv s" and g: "q_getAll sql_ops t s = (es, s')"
  define rs where "rs = filter (\<lambda>r. \<not> r_expireAt r < t) s"
  have es: "es = map row_entry (sort_key r_createdAt rs)" "s' = rs"
    using g by (auto simp: sql_getAll_def rs_def Let_def)
  have d: "distinct (map r_id rs)" using inv by (simp add: rs_def sql_inv_def distinct_map_filter)
  have "map dlq_id es = map r_id (sort_key r_createdAt rs)" by (simp add: es)
  moreover have "distinct (map r_id (sort_key r_createdAt rs))"
    using d by (simp add: distinct_map)
  moreover have "set es = ran (sql_live t s)"
    using inv by (auto simp: es rs_def ran_def sql_live_Some)
  moreover have "sql_live t' s' = sql_live t' s" if "t \<le> t'" for t'
  proof -
    have "filter (\<lambda>r. \<not> r_expireAt r < t') rs = filter (\<lambda>r. \<not> r_expireAt r < t') s"
      using that by (auto simp: rs_def intro: filter_cong)
    then show ?thesis by (simp add: sql_live_def es)
  qed
  ultimately show "sql_inv s' \<and> set es = ran (sql_live t s) \<and> distinct (map dlq_id es) \<and>
      (\<forall>t'\<ge>t. sql_live t' s' = sql_live t' s)"
    using d by (simp add: es sql_inv_def o_def)
next
  fix s :: "'p sql_store" and k t
  assume "sql_inv s"
  then show "sql_inv (q_remove sql_ops k s) \<and> sql_live t (q_remove sql_ops k s) = (sql_live t s)(k := None)"
    by (simp add: sql_live_remove) (simp add: sql_inv_def sql_remove_def distinct_map_filter)
next
  fix s :: "'p sql_store" and u t :: int and k n
  assume a: "sql_inv s" "0 < u"
  have "map r_id (sql_update k (retry_updates n u) s) = map r_id s"
    by (auto simp: sql_update_def)
  then have "sql_inv (q_update sql_ops k (retry_updates n u) s)"
    using a(1) by (simp add: sql_inv_def)
  then show "sql_inv (q_update sql_ops k (retry_updates n u) s) \<and>
      sql_live t (q_update sql_ops k (retry_updates n u) s) =
        (case sql_live t s k of None \<Rightarrow> sql_live t s
         | Some e \<Rightarrow> (sql_live t s)(k \<mapsto> e\<lparr>dlq_attempts := n, dlq_lastAttemptAt := Some u\<rparr>))"
    using a(2) by (simp add: sql_live_update)
next
  fix s :: "'p sql_store" and t
  assume "sql_inv s"
  then have d: "distinct (map r_id (filter (\<lambda>r. r_expireAt r > t) s))"
    by (simp add: sql_inv_def distinct_map_filter)
  have "sql_count t s = card (r_id ` set (filter (\<lambda>r. r_expireAt r > t) s))"
    using distinct_card[OF d] by (simp add: sql_count_def)
  also have "\<dots> \<le> card (dom (sql_live t s))"
    by (rule card_mono) (auto simp: sql_dom)
  finally show "q_count sql_ops t s \<le> card (dom (sql_live t s))" by simp
next
  fix s :: "'p sql_store" and t
  show "sql_inv (q_clear sql_ops s) \<and> sql_live t (q_clear sql_ops s) = Map.empty"
    by (simp add: sql_clear_def sql_inv_def sql_live_def)
qed

end
