(* ===== verification/Dlq.thy ===== *)
theory Dlq
  imports QueueStore CircuitBreaker
begin

text \<open>
  \<open>src/apps/backend/src/queue.ts\<close>: the oracle dead-letter queue over any store that meets
  the contract \<open>queue_store\<close>, its retry worker under the circuit breaker, and the TTL
  eviction. One call of the retry handler is a parameter: \<open>None\<close> when the promise
  resolves, \<open>Some s\<close> with \<open>s = String(err)\<close> when it rejects. Log lines are not modelled.
\<close>

section \<open>Choosing the store\<close>

datatype queue_store_type = MemoryStore | SqliteStore

definition resolveQueueStoreType :: "string option \<Rightarrow> string option \<Rightarrow> queue_store_type" where
  "resolveQueueStoreType rawQueueStore nodeEnv =
    (let requested = js_lower (case rawQueueStore of None \<Rightarrow> ''auto'' | Some s \<Rightarrow> if s = [] then ''auto'' else s)
     in if requested = ''memory'' \<and> nodeEnv \<noteq> Some ''production'' then MemoryStore else SqliteStore)"

section \<open>Entries\<close>

text \<open>\<open>fresh\<close> is the generated identifier, \<open>now\<close> the reading of the clock.\<close>

definition writeToDlq ::
  "('s, 'p) queue_ops \<Rightarrow> int \<Rightarrow> string \<Rightarrow> 'p \<Rightarrow> string \<Rightarrow> 's \<Rightarrow> store_error + ('p dlq_entry \<times> 's)" where
  "writeToDlq ops now fresh payload failureReason s =
    (let entry = \<lparr>dlq_id = fresh, dlq_payload = payload, dlq_failureReason = failureReason,
          dlq_attempts = 0, dlq_createdAt = now, dlq_lastAttemptAt = None, dlq_traceContext = None\<rparr>
     in case q_add ops now entry s of Inl e \<Rightarrow> Inl e | Inr s' \<Rightarrow> Inr (entry, s'))"

definition listDlqEntries :: "('s, 'p) queue_ops \<Rightarrow> int \<Rightarrow> 's \<Rightarrow> 'p dlq_entry list \<times> 's" where
  "listDlqEntries ops now s = q_getAll ops now s"

definition removeDlqEntry :: "('s, 'p) queue_ops \<Rightarrow> string \<Rightarrow> 's \<Rightarrow> 's" where
  "removeDlqEntry ops k s = q_remove ops k s"

definition updateDlqEntry :: "('s, 'p) queue_ops \<Rightarrow> string \<Rightarrow> 'p dlq_updates \<Rightarrow> 's \<Rightarrow> 's" where
  "updateDlqEntry ops k u s = q_update ops k u s"

section \<open>The retry worker\<close>

datatype retry_outcome = Resolved | Retained | OpenedCircuit

definition isRpcError :: "string \<Rightarrow> bool" where
  "isRpcError err = (js_includes err ''RPC'' \<or> js_includes err ''Network'')"

text \<open>
  The loop over the entries of one tick. \<open>clk n\<close> is the clock while the \<open>n\<close>-th entry of
  the cycle is handled. The last result lists what happened to each attempted entry.
\<close>

fun retry_entries ::
  "('s, 'p) queue_ops \<Rightarrow> cb_config \<Rightarrow> (nat \<Rightarrow> int) \<Rightarrow> ('p dlq_entry \<Rightarrow> string option) \<Rightarrow> nat \<Rightarrow>
   'p dlq_entry list \<Rightarrow> breaker \<Rightarrow> 's \<Rightarrow> (string \<times> retry_outcome) list \<times> breaker \<times> 's" where
  "retry_entries ops cfg clk handler n [] b s = ([], b, s)"
| "retry_entries ops cfg clk handler n (e # es) b s =
    (let e' = e\<lparr>dlq_attempts := dlq_attempts e + 1, dlq_lastAttemptAt := Some (clk n)\<rparr>;
         s1 = updateDlqEntry ops (dlq_id e') (retry_updates (dlq_attempts e') (clk n)) s
     in case handler e' of
          None \<Rightarrow>
            (let s2 = removeDlqEntry ops (dlq_id e') s1
             in apfst (Cons (dlq_id e', Resolved))
                  (retry_entries ops cfg clk handler (Suc n) es (recordSuccess cfg b) s2))
        | Some err \<Rightarrow>
            (if isRpcError err then
               (let (circuitOpened, b') = recordFailure cfg (clk n) (clk n) b
                in if circuitOpened then ([(dlq_id e', OpenedCircuit)], b', s1)
                   else apfst (Cons (dlq_id e', Retained))
                          (retry_entries ops cfg clk handler (Suc n) es b' s1))
             else apfst (Cons (dlq_id e', Retained))
                    (retry_entries ops cfg clk handler (Suc n) es b s1)))"

definition retry_cycle ::
  "('s, 'p) queue_ops \<Rightarrow> cb_config \<Rightarrow> (nat \<Rightarrow> int) \<Rightarrow> ('p dlq_entry \<Rightarrow> string option) \<Rightarrow>
   breaker \<Rightarrow> 's \<Rightarrow> (string \<times> retry_outcome) list \<times> breaker \<times> 's" where
  "retry_cycle ops cfg clk handler b s =
    (let (entries, s1) = listDlqEntries ops (clk 0) s in
     if entries = [] then ([], b, s1)
     else let (allowed, b1) = allowRequest cfg (clk 0) b in
       if \<not> allowed then ([], b1, s1)
       else retry_entries ops cfg clk handler 0 entries b1 s1)"

section \<open>TTL eviction\<close>

definition DEFAULT_DLQ_TTL_DAYS :: rat where "DEFAULT_DLQ_TTL_DAYS = 7"

definition parseDlqTtlDays :: "string option \<Rightarrow> rat" where
  "parseDlqTtlDays rawValue = (case rawValue of
      None \<Rightarrow> DEFAULT_DLQ_TTL_DAYS
    | Some raw \<Rightarrow> if js_trim raw = [] then DEFAULT_DLQ_TTL_DAYS
        else (case js_Number raw of
                Fin r \<Rightarrow> if r \<le> 0 then DEFAULT_DLQ_TTL_DAYS else r
              | _ \<Rightarrow> DEFAULT_DLQ_TTL_DAYS))"

definition evictExpiredDlqEntries :: "('s, 'p) queue_ops \<Rightarrow> int \<Rightarrow> rat \<Rightarrow> 's \<Rightarrow> nat \<times> 's" where
  "evictExpiredDlqEntries ops now ttlDays s =
    (let cutoff = of_int now - ttlDays * 24 * 60 * 60 * 1000;
         (entries, s1) = listDlqEntries ops now s;
         expired = filter (\<lambda>e. of_int (dlq_createdAt e) < cutoff) entries
     in (length expired, fold (removeDlqEntry ops) (map dlq_id expired) s1))"

section \<open>Lemmas over any store\<close>

text \<open>An attempted entry that stays: one more attempt, stamped with a time.\<close>

definition attempted_again :: "'p dlq_entry \<Rightarrow> 'p dlq_entry \<Rightarrow> bool" where
  "attempted_again e e' \<longleftrightarrow>
    e' = e\<lparr>dlq_attempts := dlq_attempts e + 1, dlq_lastAttemptAt := dlq_lastAttemptAt e'\<rparr> \<and>
    dlq_lastAttemptAt e' \<noteq> None"

text \<open>What a cycle does to the map of entries, given the outcomes it reports.\<close>

definition retry_spec :: "(string \<Rightarrow> 'p dlq_entry option) \<Rightarrow> (string \<times> retry_outcome) list \<Rightarrow>
    (string \<Rightarrow> 'p dlq_entry option) \<Rightarrow> bool" where
  "retry_spec m outs m' \<longleftrightarrow>
    (\<forall>k. k \<notin> fst ` set outs \<longrightarrow> m' k = m k) \<and>
    (\<forall>k. (k, Resolved) \<in> set outs \<longrightarrow> m' k = None) \<and>
    (\<forall>k r. (k, r) \<in> set outs \<longrightarrow> r \<noteq> Resolved \<longrightarrow>
       (\<exists>e e'. m k = Some e \<and> m' k = Some e' \<and> attempted_again e e'))"

lemma retry_spec_Nil: "retry_spec m [] m"
  by (simp add: retry_spec_def)

lemma retry_spec_resolved:
  assumes "retry_spec (m(x := None)) outs m'" and "x \<notin> fst ` set outs"
  shows "retry_spec m ((x, Resolved) # outs) m'"
proof -
  have ne: "k \<noteq> x" if "(k, r) \<in> set outs" for k r using that assms(2) by force
  show ?thesis
    unfolding retry_spec_def
  proof (intro conjI allI impI)
    fix k r assume "(k, r) \<in> set ((x, Resolved) # outs)" "r \<noteq> Resolved"
    then have "(k, r) \<in> set outs" by auto
    with \<open>r \<noteq> Resolved\<close> ne[OF this] assms(1) show
      "\<exists>e e'. m k = Some e \<and> m' k = Some e' \<and> attempted_again e e'"
      unfolding retry_spec_def by (metis fun_upd_other)
  qed (use assms in \<open>auto simp: retry_spec_def\<close>)
qed

lemma retry_spec_kept:
  assumes "retry_spec (m(x \<mapsto> e')) outs m'" and "x \<notin> fst ` set outs"
    and "m x = Some e" and "attempted_again e e'" and "o' \<noteq> Resolved"
  shows "retry_spec m ((x, o') # outs) m'"
proof -
  have ne: "k \<noteq> x" if "(k, r) \<in> set outs" for k r using that assms(2) by force
  have x: "m' x = Some e'" using assms(1,2) by (simp add: retry_spec_def)
  show ?thesis
    unfolding retry_spec_def
  proof (intro conjI allI impI)
    fix k r assume a: "(k, r) \<in> set ((x, o') # outs)" "r \<noteq> Resolved"
    show "\<exists>e e'. m k = Some e \<and> m' k = Some e' \<and> attempted_again e e'"
    proof (cases "k = x")
      case True
      with x assms(3,4) show ?thesis by blast
    next
      case False
      with a have "(k, r) \<in> set outs" by auto
      with a(2) False assms(1) show ?thesis
        unfolding retry_spec_def by (metis fun_upd_other)
    qed
  qed (use assms in \<open>auto simp: retry_spec_def\<close>)
qed

lemma retry_entries_prefix:
  "map fst (fst (retry_entries ops cfg clk handler n es b s)) =
     take (length (fst (retry_entries ops cfg clk handler n es b s))) (map dlq_id es)"
  by (induction es arbitrary: n b s) (auto simp: Let_def split: option.split prod.split)

lemma retry_entries_opened_last:
  "outs = fst (retry_entries ops cfg clk handler n es b s) \<Longrightarrow> OpenedCircuit \<in> snd ` set (butlast outs) \<Longrightarrow> False"
proof (induction es arbitrary: n b s outs)
  case (Cons e es)
  then show ?case
    by (force simp: Let_def split: option.splits prod.splits if_splits)
qed simp

context queue_store
begin

lemma retry_entries_law:
  assumes "inv s" and "\<And>n. 0 < clk n" and "distinct (map dlq_id es)"
    and "\<forall>e \<in> set es. live t s (dlq_id e) = Some e"
    and "retry_entries ops cfg clk handler n es b s = (outs, b', s')"
  shows "inv s' \<and> retry_spec (live t s) outs (live t s')"
  using assms
proof (induction es arbitrary: n b s outs)
  case Nil
  then show ?case by (simp add: retry_spec_Nil)
next
  case (Cons e es)
  define e' where "e' = e\<lparr>dlq_attempts := dlq_attempts e + 1, dlq_lastAttemptAt := Some (clk n)\<rparr>"
  define s1 where "s1 = q_update ops (dlq_id e) (retry_updates (dlq_attempts e + 1) (clk n)) s"
  define s2 where "s2 = q_remove ops (dlq_id e) s1"
  have again: "attempted_again e e'" by (simp add: attempted_again_def e'_def)
  have l0: "live t s (dlq_id e) = Some e" using Cons.prems(4) by simp
  have l1: "inv s1" "live t s1 = (live t s)(dlq_id e \<mapsto> e')"
    using update_law[OF Cons.prems(1,2), of "dlq_id e" "dlq_attempts e + 1" n t] l0
    by (simp_all add: s1_def e'_def)
  have l2: "inv s2" "live t s2 = (live t s)(dlq_id e := None)"
    using remove_law[OF l1(1), of "dlq_id e" t] l1(2) by (simp_all add: s2_def fun_eq_iff)
  have d: "distinct (map dlq_id es)" "dlq_id e \<notin> dlq_id ` set es" using Cons.prems(3) by auto
  have ne: "dlq_id x \<noteq> dlq_id e" "live t s (dlq_id x) = Some x" if "x \<in> set es" for x
  proof -
    show "dlq_id x \<noteq> dlq_id e" using that d(2) by (metis image_eqI)
    show "live t s (dlq_id x) = Some x" using that Cons.prems(4) by (meson list.set_intros(2))
  qed
  have p1: "\<forall>x \<in> set es. live t s1 (dlq_id x) = Some x" and p2: "\<forall>x \<in> set es. live t s2 (dlq_id x) = Some x"
    by (simp_all add: l1(2) l2(2) ne)
  have pre: "fst ` set (fst (retry_entries ops cfg clk handler (Suc n) es b0 s0)) \<subseteq> dlq_id ` set es" for b0 s0
    by (metis retry_entries_prefix image_set set_take_subset)
  have id': "dlq_id e' = dlq_id e" by (simp add: e'_def)
  have step: "retry_entries ops cfg clk handler n (e # es) b s =
    (case handler e' of
       None \<Rightarrow> apfst (Cons (dlq_id e, Resolved)) (retry_entries ops cfg clk handler (Suc n) es (recordSuccess cfg b) s2)
     | Some err \<Rightarrow> if isRpcError err
         then (if fst (recordFailure cfg (clk n) (clk n) b)
               then ([(dlq_id e, OpenedCircuit)], snd (recordFailure cfg (clk n) (clk n) b), s1)
               else apfst (Cons (dlq_id e, Retained))
                 (retry_entries ops cfg clk handler (Suc n) es (snd (recordFailure cfg (clk n) (clk n) b)) s1))
         else apfst (Cons (dlq_id e, Retained)) (retry_entries ops cfg clk handler (Suc n) es b s1))"
    by (cases "handler e'")
      (simp_all add: Let_def e'_def s1_def s2_def updateDlqEntry_def removeDlqEntry_def case_prod_beta)
  have fresh: "dlq_id e \<notin> fst ` set (fst (retry_entries ops cfg clk handler (Suc n) es b0 s0))" for b0 s0
    using pre[of b0 s0] d(2) by blast
  have "retry_spec (live t s) [(dlq_id e, OpenedCircuit)] (live t s1)"
    using l0 again l1(2) retry_spec_Nil[of "live t s1"]
    by (intro retry_spec_kept[where e' = e' and e = e]) (simp_all del: fun_upd_apply)
  then have stop: ?case if "outs = [(dlq_id e, OpenedCircuit)]" "s' = s1"
    using that l1(1) by (simp only: simp_thms)
  have res: ?case if r: "retry_entries ops cfg clk handler (Suc n) es b0 s2 = (outs0, b', s')"
      and outs: "outs = (dlq_id e, Resolved) # outs0" for b0 outs0
    using Cons.IH[OF l2(1) Cons.prems(2) d(1) p2 r] fresh[of b0 s2] r outs
    by (simp add: l2(2) retry_spec_resolved del: fun_upd_apply)
  have ret: ?case if r: "retry_entries ops cfg clk handler (Suc n) es b0 s1 = (outs0, b', s')"
      and outs: "outs = (dlq_id e, Retained) # outs0" for b0 outs0
    using Cons.IH[OF l1(1) Cons.prems(2) d(1) p1 r] fresh[of b0 s1] r outs
      retry_spec_kept[of "live t s" "dlq_id e" e' outs0 "live t s'" e Retained] l0 again
    by (simp add: l1(2) del: fun_upd_apply)
  show ?case
    using Cons.prems(5) stop res ret unfolding step
    by (cases "handler e'") (auto simp: apfst_def map_prod_def split: prod.splits if_splits)
qed

lemma writeToDlq_law:
  assumes "inv s" and "0 \<le> t" and "fresh \<notin> ids s"
  shows "\<exists>e s'. writeToDlq ops t fresh p reason s = Inr (e, s') \<and> inv s' \<and>
    dlq_attempts e = 0 \<and> dlq_payload e = p \<and> live t s' = (live t s)(fresh \<mapsto> norm e)"
proof -
  define e where "e = \<lparr>dlq_id = fresh, dlq_payload = p, dlq_failureReason = reason,
          dlq_attempts = 0, dlq_createdAt = t, dlq_lastAttemptAt = None, dlq_traceContext = None\<rparr>"
  have "dlq_id e \<notin> ids s" using assms(3) by (simp add: e_def)
  from add_law[OF assms(1,2) this] obtain s' where
    s': "q_add ops t e s = Inr s'" "inv s'" "live t s' = (live t s)(dlq_id e \<mapsto> norm e)" by blast
  have "writeToDlq ops t fresh p reason s = Inr (e, s')"
    using s'(1) by (simp add: writeToDlq_def e_def Let_def)
  moreover have "dlq_id e = fresh" "dlq_attempts e = 0" "dlq_payload e = p" by (simp_all add: e_def)
  ultimately show ?thesis using s' by auto
qed

lemma evict_law:
  assumes "inv s"
  shows "live t (snd (evictExpiredDlqEntries ops t ttl s)) =
      (\<lambda>k. case live t s k of
         None \<Rightarrow> None
       | Some e \<Rightarrow> if of_int (dlq_createdAt e) < of_int t - ttl * 24 * 60 * 60 * 1000 then None else Some e)"
    and "inv (snd (evictExpiredDlqEntries ops t ttl s))"
    and "fst (evictExpiredDlqEntries ops t ttl s) =
      card {k. \<exists>e. live t s k = Some e \<and> of_int (dlq_createdAt e) < of_int t - ttl * 24 * 60 * 60 * 1000}"
proof -
  obtain es s1 where g: "q_getAll ops t s = (es, s1)" by fastforce
  note law = getAll_law[OF assms g]
  define old where "old e \<longleftrightarrow> of_int (dlq_createdAt e) < (of_int t - ttl * 24 * 60 * 60 * 1000 :: rat)" for e :: "'p dlq_entry"
  define ex where "ex = filter old es"
  have ev: "evictExpiredDlqEntries ops t ttl s = (length ex, fold (q_remove ops) (map dlq_id ex) s1)"
    by (simp add: evictExpiredDlqEntries_def listDlqEntries_def g ex_def old_def[abs_def]
        removeDlqEntry_def[abs_def] Let_def)
  have mem: "e \<in> set es \<longleftrightarrow> live t s (dlq_id e) = Some e" for e
    using getAll_mem[OF assms g] .
  have r: "inv (fold (q_remove ops) (map dlq_id ex) s1)"
    "live t (fold (q_remove ops) (map dlq_id ex) s1) =
       (\<lambda>k. if k \<in> set (map dlq_id ex) then None else live t s k)"
    using remove_list[of s1 "map dlq_id ex" t] law by auto
  have ids: "k \<in> set (map dlq_id ex) \<longleftrightarrow> (\<exists>e. live t s k = Some e \<and> old e)" for k
    using mem live_id[OF assms] by (auto simp: ex_def image_iff) metis
  show "live t (snd (evictExpiredDlqEntries ops t ttl s)) =
      (\<lambda>k. case live t s k of None \<Rightarrow> None
       | Some e \<Rightarrow> if of_int (dlq_createdAt e) < of_int t - ttl * 24 * 60 * 60 * 1000 then None else Some e)"
    using ids by (auto simp: ev r(2) fun_eq_iff old_def split: option.splits)
  show "inv (snd (evictExpiredDlqEntries ops t ttl s))" by (simp add: ev r(1))
  have "distinct (map dlq_id ex)" using law by (simp add: ex_def distinct_map_filter)
  then have "length ex = card (set (map dlq_id ex))" by (metis distinct_card length_map)
  also have "set (map dlq_id ex) = {k. \<exists>e. live t s k = Some e \<and> old e}"
    using ids by blast
  finally show "fst (evictExpiredDlqEntries ops t ttl s) =
      card {k. \<exists>e. live t s k = Some e \<and> of_int (dlq_createdAt e) < of_int t - ttl * 24 * 60 * 60 * 1000}"
    by (simp add: ev old_def)
qed

lemma retry_cycle_law:
  assumes "inv s" and "\<And>n. 0 < clk n" and "retry_cycle ops cfg clk handler b s = (outs, b', s')"
  shows "inv s' \<and> retry_spec (live (clk 0) s) outs (live (clk 0) s')"
proof -
  obtain es s1 where g: "q_getAll ops (clk 0) s = (es, s1)" by fastforce
  have law: "inv s1" "live (clk 0) s1 = live (clk 0) s" "distinct (map dlq_id es)"
    using getAll_law[OF assms(1) g] by auto
  have vis: "\<forall>e \<in> set es. live (clk 0) s1 (dlq_id e) = Some e"
    using getAll_mem[OF assms(1) g] by (simp add: law(2))
  obtain ok b1 where al: "allowRequest cfg (clk 0) b = (ok, b1)" by fastforce
  show ?thesis
  proof (cases "es = [] \<or> \<not> ok")
    case True
    then have "outs = []" "s' = s1"
      using assms(3) g al by (auto simp: retry_cycle_def listDlqEntries_def split: if_splits)
    with law show ?thesis by (simp add: retry_spec_Nil)
  next
    case False
    then have "retry_entries ops cfg clk handler 0 es b1 s1 = (outs, b', s')"
      using assms(3) g al by (simp add: retry_cycle_def listDlqEntries_def)
    from retry_entries_law[OF law(1) assms(2) law(3) vis this] law(2) show ?thesis by simp
  qed
qed

lemma retry_cycle_blocked:
  assumes "inv s" and "\<not> fst (allowRequest cfg (clk 0) b)"
  shows "fst (retry_cycle ops cfg clk handler b s) = [] \<and>
    live (clk 0) (snd (snd (retry_cycle ops cfg clk handler b s))) = live (clk 0) s"
proof -
  obtain es s1 where g: "q_getAll ops (clk 0) s = (es, s1)" by fastforce
  have "live (clk 0) s1 = live (clk 0) s" using getAll_law[OF assms(1) g] by auto
  with g assms(2) show ?thesis
    by (simp add: retry_cycle_def listDlqEntries_def case_prod_beta)
qed

end

lemma retry_entries_stops_early:
  "length (fst (retry_entries ops cfg clk handler n es b s)) < length es \<Longrightarrow>
   fst (retry_entries ops cfg clk handler n es b s) \<noteq> [] \<and>
   snd (last (fst (retry_entries ops cfg clk handler n es b s))) = OpenedCircuit"
proof (induction es arbitrary: n b s)
  case (Cons e es)
  show ?case
    using Cons.prems
    by (auto simp: Let_def case_prod_beta split: option.splits if_splits dest!: Cons.IH)
qed simp

context queue_store begin

lemma writeToDlq_live:
  assumes "inv s" "0 \<le> now" "fresh \<notin> ids s"
  shows "\<exists>e s'. writeToDlq ops now fresh payload reason s = Inr (e, s') \<and> inv s' \<and>
    live now s' = (live now s)(fresh \<mapsto> norm e) \<and> dlq_id e = fresh \<and> dlq_payload e = payload \<and>
    dlq_failureReason e = reason \<and> dlq_attempts e = 0"
proof -
  let ?e = "\<lparr>dlq_id = fresh, dlq_payload = payload, dlq_failureReason = reason,
          dlq_attempts = 0, dlq_createdAt = now, dlq_lastAttemptAt = None, dlq_traceContext = None\<rparr>"
  obtain s' where "q_add ops now ?e s = Inr s'" "inv s'" "live now s' = (live now s)(fresh \<mapsto> norm ?e)"
    using add_law[OF assms(1,2), of ?e] assms(3) by (simp del: fun_upd_apply) blast
  then show ?thesis by (simp add: writeToDlq_def del: fun_upd_apply)
qed

end

section \<open>Properties\<close>

text \<open>A SQLite queue with two entries, used in the witnesses.\<close>

definition dlq_row_ex :: "string \<Rightarrow> int \<Rightarrow> nat dlq_row" where
  "dlq_row_ex k t = \<lparr>r_id = k, r_payload = 0, r_failureReason = ''x'', r_attempts = 0,
     r_createdAt = t, r_lastAttemptAt = None, r_expireAt = t + DLQ_EXPIRY_MS\<rparr>"

definition dlq_rows_ex :: "nat sql_store" where
  "dlq_rows_ex = [dlq_row_ex ''a'' 1000, dlq_row_ex ''b'' 900000000]"

definition dlq_handler_ex :: "nat dlq_entry \<Rightarrow> string option" where
  "dlq_handler_ex e = (if dlq_id e = ''a'' then None else Some ''Network down'')"

lemmas dlq_eval = dlq_rows_ex_def dlq_row_ex_def dlq_handler_ex_def DLQ_EXPIRY_MS_def sql_getAll_def
  sql_remove_def sql_update_def sql_add_def row_entry_def retry_updates_def no_updates_def
  listDlqEntries_def removeDlqEntry_def updateDlqEntry_def isRpcError_def sql_live_def



text \<open>A cycle that ends before the last entry ended because the circuit opened on the entry
  handled last, and a cycle the open circuit refuses touches no entry.\<close>

lemma dlq_retry_respects_circuit:
  "(length (fst (retry_entries ops cfg clk handler n es b s)) < length es \<longrightarrow>
      fst (retry_entries ops cfg clk handler n es b s) \<noteq> [] \<and>
      snd (last (fst (retry_entries ops cfg clk handler n es b s))) = OpenedCircuit) \<and>
   (sql_inv rows \<and> \<not> fst (allowRequest cfg (clk 0) b) \<longrightarrow>
      fst (retry_cycle sql_ops cfg clk h b rows) = [] \<and>
      sql_live (clk 0) (snd (snd (retry_cycle sql_ops cfg clk h b rows))) = sql_live (clk 0) rows)"
  using retry_entries_stops_early[of ops cfg clk handler n es b s]
    sqlq.retry_cycle_blocked[of rows cfg clk b h] by blast

lemma dlq_retry_respects_circuit_example:
  "fst (retry_cycle sql_ops cb_persisting (\<lambda>n. 1000) dlq_handler_ex cb_opened dlq_rows_ex) = []"
proof -
  have "sql_inv dlq_rows_ex" by (simp add: sql_inv_def dlq_eval)
  moreover have "\<not> fst (allowRequest cb_persisting 1000 cb_opened)"
    by (simp add: allowRequest_def calculateCooldown_def)
  ultimately show ?thesis
    using dlq_retry_respects_circuit[of sql_ops cb_persisting "\<lambda>n. 1000" dlq_handler_ex 0 "[]" cb_opened
        dlq_rows_ex dlq_rows_ex dlq_handler_ex]
    by simp
qed

text \<open>TTL eviction removes exactly the visible entries created before the cutoff, keeps the
  others unchanged, and returns the number it removed.\<close>

lemma dlq_eviction_exact:
  assumes "sql_inv s"
  shows "(sql_live t (snd (evictExpiredDlqEntries sql_ops t ttl s)) k = Some e \<longleftrightarrow>
      sql_live t s k = Some e \<and> of_int t - ttl * 24 * 60 * 60 * 1000 \<le> of_int (dlq_createdAt e)) \<and>
    fst (evictExpiredDlqEntries sql_ops t ttl s) =
      card {k. \<exists>e. sql_live t s k = Some e \<and> of_int (dlq_createdAt e) < of_int t - ttl * 24 * 60 * 60 * 1000}"
  using sqlq.evict_law[OF assms, of t ttl] by (auto split: option.splits)

lemma dlq_eviction_exact_example:
  "sql_live 1000000000 (snd (evictExpiredDlqEntries sql_ops 1000000000 7 dlq_rows_ex)) ''a'' = None"
proof -
  have inv: "sql_inv dlq_rows_ex" by (simp add: sql_inv_def dlq_eval)
  have "sql_live 1000000000 dlq_rows_ex ''a'' = Some (row_entry (dlq_row_ex ''a'' 1000))"
    by (simp add: dlq_eval)
  moreover have "dlq_createdAt (row_entry (dlq_row_ex ''a'' 1000)) = 1000"
    by (simp add: row_entry_def dlq_row_ex_def)
  ultimately have "sql_live 1000000000 (snd (evictExpiredDlqEntries sql_ops 1000000000 7 dlq_rows_ex)) ''a'' \<noteq> Some e" for e
    using dlq_eviction_exact[OF inv, of 1000000000 7 "''a''" e] by auto
  then show ?thesis by (meson option.exhaust)
qed

text \<open>The configured TTL is always positive: unset, blank, non-numeric, infinite, zero and
  negative values of \<open>DLQ_TTL_DAYS\<close> all give seven days.\<close>

lemma dlq_ttl_positive:
  "0 < parseDlqTtlDays raw \<and>
   ((\<forall>s. raw = Some s \<longrightarrow> \<not> js_finite (js_Number s)) \<longrightarrow> parseDlqTtlDays raw = 7) \<and>
   (\<forall>s r. raw = Some s \<longrightarrow> js_Number s = Fin r \<longrightarrow> r \<le> 0 \<longrightarrow> parseDlqTtlDays raw = 7)"
  by (auto simp: parseDlqTtlDays_def DEFAULT_DLQ_TTL_DAYS_def split: option.splits js_num.splits)

lemma dlq_ttl_positive_example:
  "parseDlqTtlDays (Some ''abc'') = 7"
proof -
  have "js_Number ''abc'' = NaN"
    by (simp add: js_Number_def js_trim_def js_ws_def js_decimal_def digit_val_def)
  then show ?thesis using dlq_ttl_positive[of "Some ''abc''"] by simp
qed

text \<open>In production the queue is never the in-memory one, whatever \<open>QUEUE_STORE\<close> says; outside
  production the in-memory store is used only on the explicit request \<open>memory\<close>.\<close>

lemma dlq_store_durable_in_production:
  "resolveQueueStoreType raw (Some ''production'') = SqliteStore \<and>
   (resolveQueueStoreType raw env = MemoryStore \<longleftrightarrow>
      (\<exists>s. raw = Some s \<and> js_lower s = ''memory'') \<and> env \<noteq> Some ''production'')"
  by (auto simp: resolveQueueStoreType_def js_lower_def lower_char_def split: option.splits)

text \<open>A submission written to the SQLite queue under a fresh identifier is there with its
  payload and no attempt made, from that moment until exactly thirty days later.\<close>

lemma dlq_write_retained_30_days:
  assumes "sql_inv s" and "0 \<le> now" and "fresh \<notin> r_id ` set s"
  shows "\<exists>e s'. writeToDlq sql_ops now fresh p reason s = Inr (e, s') \<and>
    dlq_attempts e = 0 \<and> dlq_payload e = p \<and> dlq_createdAt e = now \<and>
    (\<forall>t. sql_live t s' fresh = (if t \<le> now + 30 * 24 * 60 * 60 * 1000 then Some e else None))"
proof -
  define e where "e = \<lparr>dlq_id = fresh, dlq_payload = p, dlq_failureReason = reason,
          dlq_attempts = 0, dlq_createdAt = now, dlq_lastAttemptAt = None, dlq_traceContext = None\<rparr>"
  define r where "r = \<lparr>r_id = fresh, r_payload = p, r_failureReason = reason, r_attempts = 0,
        r_createdAt = now, r_lastAttemptAt = None, r_expireAt = now + DLQ_EXPIRY_MS\<rparr>"
  have w: "writeToDlq sql_ops now fresh p reason s = Inr (e, s @ [r])"
    using assms(2,3) by (simp add: writeToDlq_def sql_add_def e_def r_def DLQ_EXPIRY_MS_def Let_def)
  have "sql_live t (s @ [r]) fresh = (if t \<le> now + 30 * 24 * 60 * 60 * 1000 then Some e else None)" for t
    using sql_live_notin[of fresh s t] assms(3)
    by (auto simp: sql_live_append r_def e_def row_entry_def DLQ_EXPIRY_MS_def split: option.splits)
  with w show ?thesis by (intro exI[of _ e] exI[of _ "s @ [r]"]) (simp add: e_def)
qed

lemma dlq_write_retained_30_days_example:
  "\<exists>e s'. writeToDlq sql_ops 5 ''c'' (9::nat) ''r'' dlq_rows_ex = Inr (e, s') \<and> sql_live 6 s' ''c'' = Some e"
proof -
  have "sql_inv dlq_rows_ex" "''c'' \<notin> r_id ` set dlq_rows_ex" by (simp_all add: sql_inv_def dlq_eval)
  from dlq_write_retained_30_days[OF this(1) _ this(2), of 5 9 "''r''"] show ?thesis by force
qed

text \<open>The interface says that an update merges the given fields into the entry; the
  in-memory store does, while the SQLite store silently drops a new failure reason.\<close>

lemma dlq_update_fields_differ:
  assumes "map_of m k = Some e"
  shows "map_of (mem_update k (no_updates\<lparr>up_failureReason := Some reason\<rparr>) m) k =
      Some (e\<lparr>dlq_failureReason := reason\<rparr>) \<and>
    sql_update k (no_updates\<lparr>up_failureReason := Some reason\<rparr>) rows = rows"
  using assms by (simp add: mem_update_def sql_update_def no_updates_def jsmap_simps)

lemma dlq_update_fields_differ_example:
  "sql_update ''a'' (no_updates\<lparr>up_failureReason := Some ''y''\<rparr>) dlq_rows_ex = dlq_rows_ex"
  using dlq_update_fields_differ[of "[(''a'', row_entry (dlq_row_ex ''a'' 1))]" "''a''"
      "row_entry (dlq_row_ex ''a'' 1)" "''y''" dlq_rows_ex] by simp

end
