(* ===== verification/ChessTypes.thy ===== *)
theory ChessTypes
  imports Prelude
begin

text \<open>
  The data the backend's services exchange: the outcome and the normalised game of
  \<open>fetchers/lichess.ts\<close> and \<open>fetchers/result.ts\<close>, the match record and the settlement
  evidence of \<open>store/match-store.ts\<close>. A timestamp that the code keeps as an ISO string is
  the millisecond value it encodes. Platform names stay strings, as in the code.
\<close>

datatype match_result = Player1Wins | Player2Wins | Draw

datatype provider = Lichess | ChessDotCom

record evidence =
  ev_provider :: provider
  ev_fetchedAt :: int
  ev_parserVersion :: string
  ev_responseHash :: string
  ev_source :: string
  ev_outcome :: "match_result option"
  ev_endedAt :: "int option"

datatype game_status = InProgress | Finished

record game_result =
  g_gameId :: string
  g_whitePlayer :: string
  g_blackPlayer :: string
  g_status :: game_status
  g_result :: "match_result option"
  g_endedAt :: "int option"
  g_evidence :: evidence

datatype match_state = Pending

record match_record =
  m_matchId :: nat
  m_player1 :: string
  m_player2 :: string
  m_player1Username :: "string option"
  m_player2Username :: "string option"
  m_stakeAmount :: int
  m_token :: string
  m_gameId :: string
  m_platform :: string
  m_state :: match_state
  m_identityHash :: "string option"

record create_payload =
  p_player1 :: string
  p_player2 :: string
  p_player1Username :: "string option"
  p_player2Username :: "string option"
  p_stakeAmount :: int
  p_token :: string
  p_gameId :: string
  p_platform :: string

datatype decision = Verified | PlayerIdentityMismatch | IdentityHashMismatch

record settlement_evidence =
  se_parserVersion :: string
  se_evaluatedAt :: int
  se_matchId :: nat
  se_gameId :: string
  se_platform :: string
  se_whitePlayer :: string
  se_blackPlayer :: string
  se_result :: "match_result option"
  se_status :: game_status
  se_decision :: decision

text \<open>A string field that is absent, or empty: what JavaScript's \<open>!field\<close> tests.\<close>

definition falsy :: "string option \<Rightarrow> bool" where
  "falsy s = (s = None \<or> s = Some [])"

lemma not_falsy_iff: "\<not> falsy s \<longleftrightarrow> (\<exists>t. s = Some t \<and> t \<noteq> [])"
  by (auto simp: falsy_def)

lemma falsy_simps [simp]: "falsy None" "falsy (Some t) = (t = [])"
  by (auto simp: falsy_def)

end
