(* ===== verification/PlayerIdentity.thy ===== *)
theory PlayerIdentity
  imports ChessTypes
begin

text \<open>
  \<open>src/apps/backend/src/services/player-identity.ts\<close>: verification of the players a chess
  platform reports, the identity hash that binds a match to its players, and the linking of
  wallets to platform accounts. SHA-256, the signature check and the profile request are
  code outside the repository: parameters of the definitions that use them.
\<close>

section \<open>Verifying the players of a game\<close>

definition normalize_name :: "string \<Rightarrow> string" where
  "normalize_name name = js_lower (js_trim name)"

definition normalize_address :: "string \<Rightarrow> string" where
  "normalize_address a = js_upper (js_trim a)"

record identity_map =
  im_player1Address :: string
  im_player1Username :: string
  im_player2Address :: string
  im_player2Username :: string
  im_platform :: string

datatype identity_error =
    EmptyUsername string string string string
  | IdentityMismatch string string string string
  | HashWithoutUsernames
  | HashMismatch nat

datatype verification = Valid | Invalid identity_error

definition verifyPlayerIdentities :: "match_record \<Rightarrow> game_result \<Rightarrow> identity_map \<Rightarrow> verification" where
  "verifyPlayerIdentities match result im =
    (let whiteNorm = normalize_name (g_whitePlayer result);
         blackNorm = normalize_name (g_blackPlayer result);
         player1Norm = normalize_name (im_player1Username im);
         player2Norm = normalize_name (im_player2Username im)
     in if whiteNorm = [] \<or> blackNorm = [] \<or> player1Norm = [] \<or> player2Norm = []
        then Invalid (EmptyUsername player1Norm player2Norm whiteNorm blackNorm)
        else if whiteNorm = player1Norm \<and> blackNorm = player2Norm then Valid
        else if whiteNorm = player2Norm \<and> blackNorm = player1Norm then Valid
        else Invalid (IdentityMismatch player1Norm player2Norm whiteNorm blackNorm))"

section \<open>Identity hash\<close>

definition identity_material :: "string \<Rightarrow> string \<Rightarrow> string \<Rightarrow> string \<Rightarrow> string" where
  "identity_material u1 a1 u2 a2 =
    normalize_name u1 @ '':'' @ normalize_address a1 @ '':'' @ normalize_name u2 @ '':'' @ normalize_address a2"

definition computeIdentityHash ::
  "(string \<Rightarrow> string) \<Rightarrow> string \<Rightarrow> string \<Rightarrow> string \<Rightarrow> string \<Rightarrow> string" where
  "computeIdentityHash sha256 u1 a1 u2 a2 = sha256 (identity_material u1 a1 u2 a2)"

definition verifyIdentityHash :: "(string \<Rightarrow> string) \<Rightarrow> match_record \<Rightarrow> verification" where
  "verifyIdentityHash sha256 match =
    (if falsy (m_identityHash match) then Valid
     else if falsy (m_player1Username match) \<or> falsy (m_player2Username match) then Invalid HashWithoutUsernames
     else if Some (computeIdentityHash sha256 (the (m_player1Username match)) (m_player1 match)
                     (the (m_player2Username match)) (m_player2 match)) \<noteq> m_identityHash match
          then Invalid (HashMismatch (m_matchId match))
     else Valid)"

section \<open>Linking a wallet to a platform account\<close>

definition LINK_NONCE_TTL_MS :: int where "LINK_NONCE_TTL_MS = 5 * 60 * 1000"
definition MAX_PENDING_LINKS :: nat where "MAX_PENDING_LINKS = 4096"

record pending_link =
  pl_address :: string
  pl_platform :: string
  pl_username :: string
  pl_expiresAt :: int

record verified_link =
  vl_address :: string
  vl_platform :: string
  vl_username :: string
  vl_linkedAt :: int

record link_state =
  pendingLinks :: "(string, pending_link) jsmap"
  verifiedLinks :: "(string, verified_link) jsmap"

definition stellar_address :: "string \<Rightarrow> bool" where
  "stellar_address a = (length a = 56 \<and> take 1 a = ''G'' \<and>
     list_all (\<lambda>c. let n = (of_char c :: nat) in (65 \<le> n \<and> n \<le> 90) \<or> (50 \<le> n \<and> n \<le> 55)) (tl a))"

definition hex128 :: "string \<Rightarrow> bool" where
  "hex128 s = (length s = 128 \<and> list_all (\<lambda>c. digit_val 16 c \<noteq> None) s)"

definition link_message :: "string \<Rightarrow> string \<Rightarrow> string \<Rightarrow> string \<Rightarrow> string" where
  "link_message address platform username nonce =
    ''smile4money identity link'' @ [CHR 0x0A] @ ''wallet:'' @ address @ [CHR 0x0A] @ ''platform:'' @ platform @
    [CHR 0x0A] @ ''username:'' @ username @ [CHR 0x0A] @ ''nonce:'' @ nonce"

definition profile_proof :: "string \<Rightarrow> string" where
  "profile_proof nonce = ''smile4money:'' @ nonce"

record challenge =
  ch_nonce :: string
  ch_message :: string
  ch_profileProof :: string
  ch_expiresAt :: int

text \<open>\<open>nonce\<close> is the random value drawn; \<open>now\<close> the clock.\<close>

definition createIdentityLinkChallenge ::
  "int \<Rightarrow> string \<Rightarrow> string \<Rightarrow> string \<Rightarrow> string \<Rightarrow> link_state \<Rightarrow> (challenge \<times> link_state) option" where
  "createIdentityLinkChallenge now nonce address platform username st =
    (if \<not> stellar_address address \<or> platform \<notin> {''lichess'', ''chessdotcom''} \<or> js_trim username = []
     then None
     else
       (let p1 = filter (\<lambda>(k, p). \<not> pl_expiresAt p \<le> now) (pendingLinks st);
            p2 = (if MAX_PENDING_LINKS \<le> length p1
                  then (case p1 of [] \<Rightarrow> [] | (k, _) # _ \<Rightarrow> if k = [] then p1 else AList.delete k p1) else p1);
            expiresAt = now + LINK_NONCE_TTL_MS;
            p3 = AList.update nonce \<lparr>pl_address = address, pl_platform = platform,
                   pl_username = js_trim username, pl_expiresAt = expiresAt\<rparr> p2
        in Some (\<lparr>ch_nonce = nonce,
                  ch_message = link_message address platform (js_trim username) nonce,
                  ch_profileProof = profile_proof nonce, ch_expiresAt = expiresAt\<rparr>,
                 st\<lparr>pendingLinks := p3\<rparr>)))"

text \<open>The decision on the account the platform returns: its name and its free-text field.\<close>

definition verifyChessProfile ::
  "string \<Rightarrow> string \<Rightarrow> string \<Rightarrow> string option \<Rightarrow> string option \<Rightarrow> string option \<Rightarrow> string option \<Rightarrow> bool" where
  "verifyChessProfile platform username proof acc_username acc_id acc_bio acc_location =
    (let returnedUsername = (case acc_username of Some u \<Rightarrow> Some u | None \<Rightarrow> acc_id) in
     if falsy returnedUsername \<or> js_lower (the returnedUsername) \<noteq> js_lower username then False
     else case (if platform = ''lichess'' then acc_bio else acc_location) of
            None \<Rightarrow> False | Some t \<Rightarrow> js_includes t proof)"

text \<open>
  \<open>verify address message signature\<close> is the Stellar signature check over the SHA-256 digest
  of the message, \<open>False\<close> also when it throws; \<open>profile p u proof\<close> is the profile check, \<open>None\<close>
  when it throws.
\<close>

definition link_key :: "string \<Rightarrow> string \<Rightarrow> string" where
  "link_key platform username = platform @ '':'' @ js_lower username"

definition confirmIdentityLink ::
  "(string \<Rightarrow> string \<Rightarrow> string \<Rightarrow> bool) \<Rightarrow> (string \<Rightarrow> string \<Rightarrow> string \<Rightarrow> bool option) \<Rightarrow>
   int \<Rightarrow> string \<Rightarrow> string \<Rightarrow> string \<Rightarrow> link_state \<Rightarrow> bool \<times> link_state" where
  "confirmIdentityLink verify profile now nonce address signatureHex st =
    (case map_of (pendingLinks st) nonce of
       None \<Rightarrow> (False, st)
     | Some p \<Rightarrow>
        if pl_expiresAt p \<le> now \<or> pl_address p \<noteq> address \<or> \<not> hex128 signatureHex
        then (False, if pl_expiresAt p \<le> now
                     then st\<lparr>pendingLinks := AList.delete nonce (pendingLinks st)\<rparr> else st)
        else if \<not> verify address (link_message (pl_address p) (pl_platform p) (pl_username p) nonce) signatureHex
        then (False, st)
        else case profile (pl_platform p) (pl_username p) (profile_proof nonce) of
               None \<Rightarrow> (False, st)
             | Some False \<Rightarrow> (False, st)
             | Some True \<Rightarrow>
                (True, st\<lparr>pendingLinks := AList.delete nonce (pendingLinks st),
                   verifiedLinks := AList.update (link_key (pl_platform p) (pl_username p))
                     \<lparr>vl_address = address, vl_platform = pl_platform p, vl_username = pl_username p,
                      vl_linkedAt = now\<rparr> (verifiedLinks st)\<rparr>))"

definition getLinkedWallet :: "link_state \<Rightarrow> string \<Rightarrow> string \<Rightarrow> string option" where
  "getLinkedWallet st platform username =
    map_option vl_address (map_of (verifiedLinks st) (link_key platform (js_trim username)))"

section \<open>Lemmas\<close>

lemma normalize_name_idem [simp, jsstr_simps]: "js_lower (normalize_name n) = normalize_name n"
  by (simp add: normalize_name_def)

lemma split_at_colon:
  assumes "c \<notin> set x" "c \<notin> set y"
  shows "x @ c # u = y @ c # v \<longleftrightarrow> x = y \<and> u = v"
  using assms
proof (induction x arbitrary: y)
  case Nil
  then show ?case by (cases y) auto
next
  case (Cons a x)
  then show ?case by (cases y) auto
qed

lemma identity_material_inj:
  assumes "\<forall>s \<in> {normalize_name u1, normalize_address a1, normalize_name u2,
      normalize_name v1, normalize_address b1, normalize_name v2}. CHR '':'' \<notin> set s"
  shows "identity_material u1 a1 u2 a2 = identity_material v1 b1 v2 b2 \<longleftrightarrow>
    normalize_name u1 = normalize_name v1 \<and> normalize_address a1 = normalize_address b1 \<and>
    normalize_name u2 = normalize_name v2 \<and> normalize_address a2 = normalize_address b2"
  using assms by (simp add: identity_material_def split_at_colon)

definition link_inv :: "link_state \<Rightarrow> bool" where
  "link_inv st \<longleftrightarrow> jm_ok (pendingLinks st) \<and> jm_ok (verifiedLinks st) \<and>
    length (pendingLinks st) \<le> MAX_PENDING_LINKS \<and> [] \<notin> set (jm_keys (pendingLinks st))"

lemma jm_ok_filter: "jm_ok m \<Longrightarrow> jm_ok (filter P m)"
  by (simp add: jm_ok_def distinct_map_filter)

lemma link_inv_create:
  assumes "link_inv st" and "nonce \<noteq> []"
    and "createIdentityLinkChallenge now nonce address platform username st = Some (ch, st')"
  shows "link_inv st'"
proof -
  define p1 where "p1 = filter (\<lambda>(k, p). \<not> pl_expiresAt p \<le> now) (pendingLinks st)"
  define p2 where "p2 = (if MAX_PENDING_LINKS \<le> length p1
      then (case p1 of [] \<Rightarrow> [] | (k, _) # _ \<Rightarrow> if k = [] then p1 else AList.delete k p1) else p1)"
  have p1: "jm_ok p1" "length p1 \<le> MAX_PENDING_LINKS" "[] \<notin> set (jm_keys p1)"
    using assms(1) unfolding p1_def link_inv_def
    by (auto simp: jm_ok_filter intro: order_trans[OF length_filter_le])
  have p2: "jm_ok p2 \<and> length p2 < MAX_PENDING_LINKS \<and> [] \<notin> set (jm_keys p2)"
  proof (cases "MAX_PENDING_LINKS \<le> length p1")
    case True
    then obtain k v q where q: "p1 = (k, v) # q" by (cases p1) (auto simp: MAX_PENDING_LINKS_def)
    with p1(3) have "k \<noteq> []" by auto
    moreover have "Suc (length (AList.delete k p1)) = length p1"
      using jm_size_delete[OF p1(1), of k] q by simp
    moreover have "[] \<notin> set (jm_keys (AList.delete k p1))"
      using p1(3) by (auto simp: AList.delete_eq)
    moreover have "jm_ok (AList.delete k p1)" using p1(1) by simp
    ultimately show ?thesis using True q p1(2) by (simp add: p2_def)
  qed (use p1 in \<open>simp add: p2_def\<close>)
  have st': "\<exists>v. st' = st\<lparr>pendingLinks := AList.update nonce v p2\<rparr>"
    using assms(3)
    by (auto simp: createIdentityLinkChallenge_def Let_def p1_def[symmetric] p2_def[symmetric] split: if_splits)
  then obtain v where v: "st' = st\<lparr>pendingLinks := AList.update nonce v p2\<rparr>" by blast
  have "length (AList.update nonce v p2) \<le> MAX_PENDING_LINKS"
    using jm_size_update_le[of nonce v p2] p2 by simp
  moreover have "set (jm_keys (AList.update nonce v p2)) = insert nonce (set (jm_keys p2))"
    using dom_update[of nonce v p2] by simp
  ultimately show ?thesis using assms(1,2) p2 v by (simp add: link_inv_def)
qed

lemma delete_length_le: "length (AList.delete k m) \<le> length m"
  by (simp add: AList.delete_eq)

lemma delete_keys_subset: "set (jm_keys (AList.delete k m)) \<subseteq> set (jm_keys m)"
  by (auto simp: AList.delete_eq)

lemma link_inv_confirm:
  "link_inv st \<Longrightarrow> link_inv (snd (confirmIdentityLink verify profile now nonce address sig st))"
  using delete_length_le[of nonce "pendingLinks st"] delete_keys_subset[of nonce "pendingLinks st"]
  by (auto simp: confirmIdentityLink_def link_inv_def split: option.splits bool.splits)

lemma player_verification_swapped:
  "normalize_name (im_player1Username im) \<noteq> [] \<Longrightarrow> normalize_name (im_player2Username im) \<noteq> [] \<Longrightarrow>
   normalize_name (g_whitePlayer g) = normalize_name (im_player2Username im) \<Longrightarrow>
   normalize_name (g_blackPlayer g) = normalize_name (im_player1Username im) \<Longrightarrow>
   verifyPlayerIdentities m g im = Valid"
  by (simp add: verifyPlayerIdentities_def Let_def)

section \<open>Properties\<close>

text \<open>A game is accepted for a match exactly when no name is blank and the two reported
  players are the two registered ones, up to case and surrounding white space, in either
  colour order.\<close>

lemma player_verification_exact:
  "verifyPlayerIdentities m g im = Valid \<longleftrightarrow>
    normalize_name (im_player1Username im) \<noteq> [] \<and> normalize_name (im_player2Username im) \<noteq> [] \<and>
    (normalize_name (g_whitePlayer g), normalize_name (g_blackPlayer g)) \<in>
      {(normalize_name (im_player1Username im), normalize_name (im_player2Username im)),
       (normalize_name (im_player2Username im), normalize_name (im_player1Username im))}"
  by (auto simp: verifyPlayerIdentities_def Let_def)

text \<open>The identity hash detects tampering: for a hash computed at creation from names and
  addresses without a colon, and a digest that separates the two inputs at hand, a stored
  match passes the check exactly when its current names and addresses are the ones bound at
  creation, up to normalisation.\<close>

lemma identity_hash_binds:
  assumes "m_identityHash m = Some (computeIdentityHash sha256 u1 a1 u2 a2)"
    and "sha256 (identity_material u1 a1 u2 a2) \<noteq> []"
    and "m_player1Username m = Some v1" and "v1 \<noteq> []" and "m_player2Username m = Some v2" and "v2 \<noteq> []"
    and "\<forall>s \<in> {normalize_name u1, normalize_address a1, normalize_name u2,
      normalize_name v1, normalize_address (m_player1 m), normalize_name v2}. CHR '':'' \<notin> set s"
    and "sha256 (identity_material u1 a1 u2 a2) = sha256 (identity_material v1 (m_player1 m) v2 (m_player2 m)) \<Longrightarrow>
      identity_material u1 a1 u2 a2 = identity_material v1 (m_player1 m) v2 (m_player2 m)"
  shows "verifyIdentityHash sha256 m = Valid \<longleftrightarrow>
    normalize_name u1 = normalize_name v1 \<and> normalize_address a1 = normalize_address (m_player1 m) \<and>
    normalize_name u2 = normalize_name v2 \<and> normalize_address a2 = normalize_address (m_player2 m)"
proof -
  have "verifyIdentityHash sha256 m = Valid \<longleftrightarrow>
      sha256 (identity_material v1 (m_player1 m) v2 (m_player2 m)) = sha256 (identity_material u1 a1 u2 a2)"
    using assms(1-6) by (simp add: verifyIdentityHash_def computeIdentityHash_def)
  also have "\<dots> \<longleftrightarrow> identity_material u1 a1 u2 a2 = identity_material v1 (m_player1 m) v2 (m_player2 m)"
    using assms(8) by metis
  finally show ?thesis using identity_material_inj[OF assms(7)] by simp
qed

definition match_ex :: match_record where
  "match_ex = \<lparr>m_matchId = 1, m_player1 = ''GA'', m_player2 = ''GB'', m_player1Username = Some ''Alice'',
     m_player2Username = Some ''bob'', m_stakeAmount = 5, m_token = ''XLM'', m_gameId = ''g1'',
     m_platform = ''lichess'', m_state = Pending,
     m_identityHash = Some (computeIdentityHash (\<lambda>x. x) ''alice'' ''ga'' ''bob'' ''GB'')\<rparr>"

lemma identity_hash_binds_example:
  "verifyIdentityHash (\<lambda>x. x) match_ex = Valid \<and>
   verifyIdentityHash (\<lambda>x. x) (match_ex\<lparr>m_player2Username := Some ''mallory''\<rparr>) \<noteq> Valid"
proof -
  have norm: "normalize_name ''Alice'' = ''alice''" "normalize_name ''alice'' = ''alice''"
    "normalize_name ''bob'' = ''bob''" "normalize_name ''mallory'' = ''mallory''"
    "normalize_address ''ga'' = ''GA''" "normalize_address ''GA'' = ''GA''" "normalize_address ''GB'' = ''GB''"
    by code_simp+
  show ?thesis
    using identity_hash_binds[of match_ex "\<lambda>x. x" "''alice''" "''ga''" "''bob''" "''GB''" "''Alice''" "''bob''"]
      identity_hash_binds[of "match_ex\<lparr>m_player2Username := Some ''mallory''\<rparr>" "\<lambda>x. x"
        "''alice''" "''ga''" "''bob''" "''GB''" "''Alice''" "''mallory''"]
    by (simp add: match_ex_def norm identity_material_def)
qed


definition link_state_ex :: link_state where
  "link_state_ex = \<lparr>pendingLinks = [(''n'', \<lparr>pl_address = ''G'', pl_platform = ''lichess'',
     pl_username = ''alice'', pl_expiresAt = 100\<rparr>)], verifiedLinks = []\<rparr>"


text \<open>The table of pending challenges never exceeds its limit of 4096, and keeps distinct
  nonces, through any request for a challenge and any confirmation.\<close>

lemma pending_links_bounded:
  assumes "link_inv st"
  shows "(createIdentityLinkChallenge now nonce address platform username st = Some (ch, st') \<and> nonce \<noteq> [] \<longrightarrow>
      link_inv st' \<and> length (pendingLinks st') \<le> 4096) \<and>
    link_inv (snd (confirmIdentityLink verify profile now nonce address sig st))"
proof (intro conjI impI)
  assume "createIdentityLinkChallenge now nonce address platform username st = Some (ch, st') \<and> nonce \<noteq> []"
  then have "link_inv st'" using link_inv_create[OF assms] by blast
  then show "link_inv st'" "length (pendingLinks st') \<le> 4096"
    by (simp_all add: link_inv_def MAX_PENDING_LINKS_def)
next
  show "link_inv (snd (confirmIdentityLink verify profile now nonce address sig st))"
    using assms by (rule link_inv_confirm)
qed

lemma pending_links_bounded_example:
  "link_inv (snd (confirmIdentityLink (\<lambda>a m s. True) (\<lambda>p u pr. Some True) 50 ''n'' ''G'' '''' link_state_ex))"
proof -
  have "link_inv link_state_ex" by (simp add: link_inv_def link_state_ex_def jm_ok_def MAX_PENDING_LINKS_def)
  from pending_links_bounded[OF this] show ?thesis by blast
qed

end
