(* ===== verification/MatchStore.thy ===== *)
theory MatchStore
  imports PlayerIdentity
begin

text \<open>
  The match stores: the port \<open>MatchStorePort\<close> (record \<open>match_ops\<close>, locale
  \<open>match_store\<close>), the in-memory \<open>MatchStore\<close> of \<open>store/match-store.ts\<close> and the SQLite
  \<open>SqliteMatchStore\<close> of \<open>store/sqlite-match-store.ts\<close> as its two tables. A rejected promise is
  \<open>Inl\<close> of its message. \<open>sha256\<close> is the digest used for the identity hash.
\<close>

section \<open>The port and its contract\<close>

record 's match_ops =
  mo_create :: "create_payload \<Rightarrow> 's \<Rightarrow> (string + match_record) \<times> 's"
  mo_find :: "'s \<Rightarrow> string \<Rightarrow> match_record option"
  mo_count :: "'s \<Rightarrow> nat"
  mo_saveEvidence :: "settlement_evidence \<Rightarrow> 's \<Rightarrow> 's"
  mo_latestEvidence :: "'s \<Rightarrow> nat \<Rightarrow> settlement_evidence option"
  mo_evidenceHistory :: "'s \<Rightarrow> nat \<Rightarrow> settlement_evidence list"

definition payload_hash :: "(string \<Rightarrow> string) \<Rightarrow> create_payload \<Rightarrow> string option" where
  "payload_hash sha256 p =
    (if falsy (p_player1Username p) \<or> falsy (p_player2Username p) then None
     else Some (computeIdentityHash sha256 (the (p_player1Username p)) (p_player1 p)
                  (the (p_player2Username p)) (p_player2 p)))"

definition payload_record :: "(string \<Rightarrow> string) \<Rightarrow> nat \<Rightarrow> create_payload \<Rightarrow> match_record" where
  "payload_record sha256 n p = \<lparr>m_matchId = n, m_player1 = p_player1 p, m_player2 = p_player2 p,
     m_player1Username = p_player1Username p, m_player2Username = p_player2Username p,
     m_stakeAmount = p_stakeAmount p, m_token = p_token p, m_gameId = p_gameId p,
     m_platform = p_platform p, m_state = Pending, m_identityHash = payload_hash sha256 p\<rparr>"

locale match_store =
  fixes ops :: "'s match_ops"
    and inv :: "'s \<Rightarrow> bool"
    and recs :: "'s \<Rightarrow> match_record list"
    and room :: "'s \<Rightarrow> bool"
    and sha256 :: "string \<Rightarrow> string"
  assumes inv_recs: "inv s \<Longrightarrow> distinct (map m_gameId (recs s)) \<and> distinct (map m_matchId (recs s))"
    and create_fresh: "inv s \<Longrightarrow> room s \<Longrightarrow> p_gameId p \<notin> m_gameId ` set (recs s) \<Longrightarrow>
      \<exists>n s'. mo_create ops p s = (Inr (payload_record sha256 n p), s') \<and> inv s' \<and>
        recs s' = recs s @ [payload_record sha256 n p]"
    and create_dup: "inv s \<Longrightarrow> p_gameId p \<in> m_gameId ` set (recs s) \<Longrightarrow>
      \<exists>e s'. mo_create ops p s = (Inl e, s') \<and> inv s' \<and> recs s' = recs s"
    and find_law: "inv s \<Longrightarrow> mo_find ops s g = Some m \<longleftrightarrow> m \<in> set (recs s) \<and> m_gameId m = g"
    and count_law: "inv s \<Longrightarrow> mo_count ops s = length (recs s)"
    and evidence_law: "inv s \<Longrightarrow> inv (mo_saveEvidence ops ev s) \<and>
      recs (mo_saveEvidence ops ev s) = recs s \<and>
      mo_evidenceHistory ops (mo_saveEvidence ops ev s) n =
        (if n = se_matchId ev then mo_evidenceHistory ops s n @ [ev] else mo_evidenceHistory ops s n)"
    and latest_law: "inv s \<Longrightarrow> mo_latestEvidence ops s n =
      (if mo_evidenceHistory ops s n = [] then None else Some (last (mo_evidenceHistory ops s n)))"
begin

lemma find_unique: "inv s \<Longrightarrow> mo_find ops s g = Some m \<Longrightarrow> m' \<in> set (recs s) \<Longrightarrow> m_gameId m' = g \<Longrightarrow> m' = m"
  using find_law inv_recs by (metis option.inject)

lemma find_None: "inv s \<Longrightarrow> mo_find ops s g = None \<longleftrightarrow> g \<notin> m_gameId ` set (recs s)"
  by (metis (mono_tags, lifting) find_law image_iff not_None_eq)

lemma create_then_find:
  assumes "inv s" and "room s" and "p_gameId p \<notin> m_gameId ` set (recs s)"
  shows "\<exists>n s'. mo_create ops p s = (Inr (payload_record sha256 n p), s') \<and> inv s' \<and>
    mo_find ops s' (p_gameId p) = Some (payload_record sha256 n p) \<and>
    mo_count ops s' = Suc (mo_count ops s) \<and>
    n \<notin> m_matchId ` set (recs s) \<and>
    (\<forall>g. g \<noteq> p_gameId p \<longrightarrow> mo_find ops s' g = mo_find ops s g)"
proof -
  obtain n s' where c: "mo_create ops p s = (Inr (payload_record sha256 n p), s')" "inv s'"
    "recs s' = recs s @ [payload_record sha256 n p]"
    using create_fresh[OF assms] by blast
  have g: "m_gameId (payload_record sha256 n p) = p_gameId p"
    and i: "m_matchId (payload_record sha256 n p) = n" by (simp_all add: payload_record_def)
  have "mo_find ops s' (p_gameId p) = Some (payload_record sha256 n p)"
    using find_law[OF c(2)] c(3) g by simp
  moreover have "n \<notin> m_matchId ` set (recs s)"
    using inv_recs[OF c(2)] c(3) i by auto
  moreover have "mo_find ops s' g' = mo_find ops s g'" if "g' \<noteq> p_gameId p" for g'
  proof (cases "mo_find ops s g'")
    case None
    then have "g' \<notin> m_gameId ` set (recs s')"
      using find_None[OF assms(1)] c(3) g that by auto
    then show ?thesis using None find_None[OF c(2)] by simp
  next
    case (Some m)
    then have "mo_find ops s' g' = Some m"
      using find_law[OF assms(1)] find_law[OF c(2)] c(3) by simp
    with Some show ?thesis by simp
  qed
  ultimately show ?thesis using c count_law[OF assms(1)] count_law[OF c(2)] by auto
qed

lemma create_twice_fails:
  assumes "inv s" and "room s" and "p_gameId p \<notin> m_gameId ` set (recs s)" and "p_gameId q = p_gameId p"
  shows "\<exists>e. fst (mo_create ops q (snd (mo_create ops p s))) = Inl e"
proof -
  obtain n s' where c: "mo_create ops p s = (Inr (payload_record sha256 n p), s')" "inv s'"
    "recs s' = recs s @ [payload_record sha256 n p]"
    using create_fresh[OF assms(1-3)] by blast
  have "p_gameId q \<in> m_gameId ` set (recs s')" using c(3) assms(4) by (simp add: payload_record_def)
  from create_dup[OF c(2) this] show ?thesis using c(1) by auto
qed

end

section \<open>The in-memory store\<close>

record mem_matches =
  ms_matches :: "(nat, match_record) jsmap"
  ms_gameIds :: "string list"
  ms_nextId :: nat
  ms_evidence :: "(nat, settlement_evidence list) jsmap"

definition mm_empty :: mem_matches where
  "mm_empty = \<lparr>ms_matches = [], ms_gameIds = [], ms_nextId = 0, ms_evidence = []\<rparr>"

definition MAX_SAFE_INTEGER :: nat where "MAX_SAFE_INTEGER = 2 ^ 53 - 1"

definition mm_createMatch :: "(string \<Rightarrow> string) \<Rightarrow> create_payload \<Rightarrow> mem_matches \<Rightarrow> (string + match_record) \<times> mem_matches" where
  "mm_createMatch sha256 p st =
    (if \<not> ms_nextId st \<le> MAX_SAFE_INTEGER then (Inl ''Match identifier range exhausted'', st)
     else if p_gameId p \<in> set (ms_gameIds st) then (Inl ''duplicate game_id'', st)
     else (let r = payload_record sha256 (ms_nextId st) p
           in (Inr r, st\<lparr>ms_matches := AList.update (ms_nextId st) r (ms_matches st),
                         ms_gameIds := List.insert (p_gameId p) (ms_gameIds st),
                         ms_nextId := ms_nextId st + 1\<rparr>)))"

definition mm_findByGameId :: "mem_matches \<Rightarrow> string \<Rightarrow> match_record option" where
  "mm_findByGameId st g = find (\<lambda>m. m_gameId m = g) (jm_values (ms_matches st))"

definition mm_saveEvidence :: "settlement_evidence \<Rightarrow> mem_matches \<Rightarrow> mem_matches" where
  "mm_saveEvidence ev st =
    (let records = (case map_of (ms_evidence st) (se_matchId ev) of None \<Rightarrow> [] | Some l \<Rightarrow> l)
     in st\<lparr>ms_evidence := AList.update (se_matchId ev) (records @ [ev]) (ms_evidence st)\<rparr>)"

definition mm_evidenceHistory :: "mem_matches \<Rightarrow> nat \<Rightarrow> settlement_evidence list" where
  "mm_evidenceHistory st n = (case map_of (ms_evidence st) n of None \<Rightarrow> [] | Some l \<Rightarrow> l)"

definition mm_latestEvidence :: "mem_matches \<Rightarrow> nat \<Rightarrow> settlement_evidence option" where
  "mm_latestEvidence st n = (case map_of (ms_evidence st) n of
      None \<Rightarrow> None | Some l \<Rightarrow> if l = [] then None else Some (l ! (length l - 1)))"

definition strip_identity :: "match_record \<Rightarrow> match_record" where
  "strip_identity m = m\<lparr>m_player1Username := None, m_player2Username := None, m_identityHash := None\<rparr>"

definition identity_linked :: "string \<Rightarrow> match_record \<Rightarrow> bool" where
  "identity_linked address m = ((m_player1 m = address \<or> m_player2 m = address) \<and>
     (\<not> falsy (m_player1Username m) \<or> \<not> falsy (m_player2Username m) \<or> \<not> falsy (m_identityHash m)))"

definition mm_unlinkIdentities :: "string \<Rightarrow> mem_matches \<Rightarrow> nat \<times> mem_matches" where
  "mm_unlinkIdentities address st =
    (length (filter (identity_linked address) (jm_values (ms_matches st))),
     st\<lparr>ms_matches := map (\<lambda>(k, m). (k, if identity_linked address m then strip_identity m else m)) (ms_matches st)\<rparr>)"

definition mm_count :: "mem_matches \<Rightarrow> nat" where
  "mm_count st = length (ms_matches st)"

definition mm_clear :: "mem_matches \<Rightarrow> mem_matches" where
  "mm_clear st = mm_empty"

definition mm_ops :: "(string \<Rightarrow> string) \<Rightarrow> mem_matches match_ops" where
  "mm_ops sha256 = \<lparr>mo_create = mm_createMatch sha256, mo_find = mm_findByGameId, mo_count = mm_count,
     mo_saveEvidence = mm_saveEvidence, mo_latestEvidence = mm_latestEvidence,
     mo_evidenceHistory = mm_evidenceHistory\<rparr>"

lemma mm_ops_sel [simp]:
  "mo_create (mm_ops sha256) = mm_createMatch sha256" "mo_find (mm_ops sha256) = mm_findByGameId"
  "mo_count (mm_ops sha256) = mm_count" "mo_saveEvidence (mm_ops sha256) = mm_saveEvidence"
  "mo_latestEvidence (mm_ops sha256) = mm_latestEvidence"
  "mo_evidenceHistory (mm_ops sha256) = mm_evidenceHistory"
  by (simp_all add: mm_ops_def)

definition mm_inv :: "mem_matches \<Rightarrow> bool" where
  "mm_inv st \<longleftrightarrow> jm_ok (ms_matches st) \<and>
    (\<forall>(k, m) \<in> set (ms_matches st). m_matchId m = k \<and> k < ms_nextId st) \<and>
    set (ms_gameIds st) = m_gameId ` set (jm_values (ms_matches st)) \<and>
    distinct (map m_gameId (jm_values (ms_matches st)))"

lemma mm_ids: "mm_inv st \<Longrightarrow> map m_matchId (jm_values (ms_matches st)) = jm_keys (ms_matches st)"
  by (auto simp: mm_inv_def)

lemma mm_nextId_fresh: "mm_inv st \<Longrightarrow> map_of (ms_matches st) (ms_nextId st) = None"
  by (auto simp: mm_inv_def map_of_eq_None_iff)

lemma find_unique_key:
  "distinct (map f xs) \<Longrightarrow> find (\<lambda>x. f x = g) xs = Some x \<longleftrightarrow> x \<in> set xs \<and> f x = g"
proof (induction xs)
  case (Cons y xs)
  then show ?case by (auto simp: image_iff)
qed simp

interpretation mmem: match_store "mm_ops sha256" mm_inv "\<lambda>st. jm_values (ms_matches st)"
  "\<lambda>st. ms_nextId st \<le> MAX_SAFE_INTEGER" sha256 for sha256
proof unfold_locales
  fix s assume "mm_inv s"
  from this show "distinct (map m_gameId (jm_values (ms_matches s))) \<and>
      distinct (map m_matchId (jm_values (ms_matches s)))"
    unfolding mm_ids[OF \<open>mm_inv s\<close>] by (simp add: mm_inv_def jm_ok_def)
next
  fix s :: mem_matches and p :: create_payload
  assume a: "mm_inv s" "ms_nextId s \<le> MAX_SAFE_INTEGER" "p_gameId p \<notin> m_gameId ` set (jm_values (ms_matches s))"
  define r where "r = payload_record sha256 (ms_nextId s) p"
  have r: "m_gameId r = p_gameId p" "m_matchId r = ms_nextId s" by (simp_all add: r_def payload_record_def)
  have upd: "AList.update (ms_nextId s) r (ms_matches s) = ms_matches s @ [(ms_nextId s, r)]"
    using mm_nextId_fresh[OF a(1)] by (rule jm_size_update_new)
  define s' where "s' = s\<lparr>ms_matches := AList.update (ms_nextId s) r (ms_matches s),
      ms_gameIds := List.insert (p_gameId p) (ms_gameIds s), ms_nextId := ms_nextId s + 1\<rparr>"
  have "mo_create (mm_ops sha256) p s = (Inr r, s')"
    using a by (simp add: mm_createMatch_def r_def s'_def mm_inv_def Let_def)
  moreover have "mm_inv s'"
    using a r mm_nextId_fresh[OF a(1)]
    by (auto simp: s'_def mm_inv_def upd jm_ok_def map_of_eq_None_iff)
  ultimately show "\<exists>n s'. mo_create (mm_ops sha256) p s = (Inr (payload_record sha256 n p), s') \<and>
      mm_inv s' \<and> jm_values (ms_matches s') = jm_values (ms_matches s) @ [payload_record sha256 n p]"
    by (intro exI[of _ "ms_nextId s"] exI[of _ s']) (simp add: r_def[symmetric], simp add: s'_def upd)
next
  fix s :: mem_matches and p :: create_payload
  assume "mm_inv s" "p_gameId p \<in> m_gameId ` set (jm_values (ms_matches s))"
  then show "\<exists>e s'. mo_create (mm_ops sha256) p s = (Inl e, s') \<and> mm_inv s' \<and>
      jm_values (ms_matches s') = jm_values (ms_matches s)"
    by (auto simp: mm_createMatch_def mm_inv_def)
next
  fix s g m
  assume "mm_inv s"
  then show "mo_find (mm_ops sha256) s g = Some m \<longleftrightarrow> m \<in> set (jm_values (ms_matches s)) \<and> m_gameId m = g"
    by (simp add: mm_findByGameId_def mm_inv_def find_unique_key)
next
  fix s
  show "mo_count (mm_ops sha256) s = length (jm_values (ms_matches s))" by (simp add: mm_count_def)
next
  fix s ev n
  assume "mm_inv s"
  then show "mm_inv (mo_saveEvidence (mm_ops sha256) ev s) \<and>
      jm_values (ms_matches (mo_saveEvidence (mm_ops sha256) ev s)) = jm_values (ms_matches s) \<and>
      mo_evidenceHistory (mm_ops sha256) (mo_saveEvidence (mm_ops sha256) ev s) n =
        (if n = se_matchId ev then mo_evidenceHistory (mm_ops sha256) s n @ [ev]
         else mo_evidenceHistory (mm_ops sha256) s n)"
    by (auto simp: mm_saveEvidence_def mm_evidenceHistory_def mm_inv_def jsmap_simps Let_def split: option.splits)
next
  fix s n
  show "mo_latestEvidence (mm_ops sha256) s n = (if mo_evidenceHistory (mm_ops sha256) s n = [] then None
      else Some (last (mo_evidenceHistory (mm_ops sha256) s n)))"
    by (auto simp: mm_latestEvidence_def mm_evidenceHistory_def last_conv_nth split: option.splits)
qed

section \<open>The SQLite store\<close>

record sql_matches =
  sm_rows :: "match_record list"
  sm_nextId :: nat
  sm_evidence :: "settlement_evidence list"

definition UNIQUE_GAME_ID :: string where
  "UNIQUE_GAME_ID = ''SQLITE_CONSTRAINT: UNIQUE constraint failed: matches.gameId''"

definition UNIQUE_MATCH_ID :: string where
  "UNIQUE_MATCH_ID = ''SQLITE_CONSTRAINT: UNIQUE constraint failed: matches.matchId''"

definition DAY_MS :: int where "DAY_MS = 24 * 60 * 60 * 1000"

text \<open>
  The retention statement compares an ISO timestamp (with \<open>T\<close>) with the SQLite form of the
  cutoff (with a space) as text, which orders them by their calendar day.
\<close>

definition sm_retain :: "int \<Rightarrow> settlement_evidence list \<Rightarrow> settlement_evidence list" where
  "sm_retain now evs = filter (\<lambda>e. \<not> se_evaluatedAt e div DAY_MS < (now - 30 * DAY_MS) div DAY_MS) evs"

definition sm_initialize :: "int \<Rightarrow> sql_matches \<Rightarrow> sql_matches" where
  "sm_initialize now st = st\<lparr>sm_evidence := sm_retain now (sm_evidence st),
     sm_nextId := (if sm_rows st = [] then 0 else Max (set (map m_matchId (sm_rows st))) + 1)\<rparr>"

definition sm_createMatch :: "(string \<Rightarrow> string) \<Rightarrow> create_payload \<Rightarrow> sql_matches \<Rightarrow> (string + match_record) \<times> sql_matches" where
  "sm_createMatch sha256 p st =
    (let r = payload_record sha256 (sm_nextId st) p;
         st1 = st\<lparr>sm_nextId := sm_nextId st + 1\<rparr>
     in if m_matchId r \<in> set (map m_matchId (sm_rows st)) then (Inl UNIQUE_MATCH_ID, st1)
        else if p_gameId p \<in> set (map m_gameId (sm_rows st)) then (Inl UNIQUE_GAME_ID, st1)
        else (Inr r, st1\<lparr>sm_rows := sm_rows st @ [r]\<rparr>))"

definition sm_findByGameId :: "sql_matches \<Rightarrow> string \<Rightarrow> match_record option" where
  "sm_findByGameId st g = find (\<lambda>m. m_gameId m = g) (sm_rows st)"

definition sm_saveEvidence :: "settlement_evidence \<Rightarrow> sql_matches \<Rightarrow> sql_matches" where
  "sm_saveEvidence ev st = st\<lparr>sm_evidence := sm_evidence st @ [ev]\<rparr>"

definition sm_latestEvidence :: "sql_matches \<Rightarrow> nat \<Rightarrow> settlement_evidence option" where
  "sm_latestEvidence st n = find (\<lambda>e. se_matchId e = n) (rev (sm_evidence st))"

definition sm_evidenceHistory :: "sql_matches \<Rightarrow> nat \<Rightarrow> settlement_evidence list" where
  "sm_evidenceHistory st n = filter (\<lambda>e. se_matchId e = n) (sm_evidence st)"

definition sm_count :: "sql_matches \<Rightarrow> nat" where
  "sm_count st = length (sm_rows st)"

definition sm_clear :: "sql_matches \<Rightarrow> sql_matches" where
  "sm_clear st = st\<lparr>sm_rows := [], sm_nextId := 0\<rparr>"

definition sm_ops :: "(string \<Rightarrow> string) \<Rightarrow> sql_matches match_ops" where
  "sm_ops sha256 = \<lparr>mo_create = sm_createMatch sha256, mo_find = sm_findByGameId, mo_count = sm_count,
     mo_saveEvidence = sm_saveEvidence, mo_latestEvidence = sm_latestEvidence,
     mo_evidenceHistory = sm_evidenceHistory\<rparr>"

lemma sm_ops_sel [simp]:
  "mo_create (sm_ops sha256) = sm_createMatch sha256" "mo_find (sm_ops sha256) = sm_findByGameId"
  "mo_count (sm_ops sha256) = sm_count" "mo_saveEvidence (sm_ops sha256) = sm_saveEvidence"
  "mo_latestEvidence (sm_ops sha256) = sm_latestEvidence"
  "mo_evidenceHistory (sm_ops sha256) = sm_evidenceHistory"
  by (simp_all add: sm_ops_def)

definition sm_inv :: "sql_matches \<Rightarrow> bool" where
  "sm_inv st \<longleftrightarrow> distinct (map m_gameId (sm_rows st)) \<and> distinct (map m_matchId (sm_rows st)) \<and>
    (\<forall>m \<in> set (sm_rows st). m_matchId m < sm_nextId st)"

lemma sm_id_fresh: "sm_inv st \<Longrightarrow> sm_nextId st \<notin> m_matchId ` set (sm_rows st)"
  by (auto simp: sm_inv_def)

lemma find_rev_last: "find P (rev xs) = (if filter P xs = [] then None else Some (last (filter P xs)))"
  by (induction xs rule: rev_induct) auto

lemma sm_inv_initialize: "sm_inv st \<Longrightarrow> sm_inv (sm_initialize now st)"
  by (auto simp: sm_inv_def sm_initialize_def less_Suc_eq_le)

interpretation msql: match_store "sm_ops sha256" sm_inv sm_rows "\<lambda>st. True" sha256 for sha256
proof unfold_locales
  fix s assume "sm_inv s"
  then show "distinct (map m_gameId (sm_rows s)) \<and> distinct (map m_matchId (sm_rows s))"
    by (simp add: sm_inv_def)
next
  fix s :: sql_matches and p :: create_payload
  assume a: "sm_inv s" "p_gameId p \<notin> m_gameId ` set (sm_rows s)"
  define r where "r = payload_record sha256 (sm_nextId s) p"
  have r: "m_gameId r = p_gameId p" "m_matchId r = sm_nextId s" by (simp_all add: r_def payload_record_def)
  define s' where "s' = s\<lparr>sm_nextId := sm_nextId s + 1, sm_rows := sm_rows s @ [r]\<rparr>"
  have "mo_create (sm_ops sha256) p s = (Inr r, s')"
    using a sm_id_fresh[OF a(1)] r by (simp add: sm_createMatch_def r_def[symmetric] s'_def Let_def)
  moreover have "sm_inv s'"
    using a r sm_id_fresh[OF a(1)] by (auto simp: s'_def sm_inv_def)
  ultimately show "\<exists>n s'. mo_create (sm_ops sha256) p s = (Inr (payload_record sha256 n p), s') \<and>
      sm_inv s' \<and> sm_rows s' = sm_rows s @ [payload_record sha256 n p]"
    by (intro exI[of _ "sm_nextId s"] exI[of _ s']) (simp add: r_def[symmetric], simp add: s'_def)
next
  fix s :: sql_matches and p :: create_payload
  assume a: "sm_inv s" "p_gameId p \<in> m_gameId ` set (sm_rows s)"
  then show "\<exists>e s'. mo_create (sm_ops sha256) p s = (Inl e, s') \<and> sm_inv s' \<and> sm_rows s' = sm_rows s"
    using sm_id_fresh[OF a(1)]
    by (auto simp: sm_createMatch_def sm_inv_def payload_record_def Let_def less_Suc_eq)
next
  fix s g m
  assume "sm_inv s"
  then show "mo_find (sm_ops sha256) s g = Some m \<longleftrightarrow> m \<in> set (sm_rows s) \<and> m_gameId m = g"
    by (simp add: sm_findByGameId_def sm_inv_def find_unique_key)
next
  fix s
  show "mo_count (sm_ops sha256) s = length (sm_rows s)" by (simp add: sm_count_def)
next
  fix s ev n
  assume "sm_inv s"
  then show "sm_inv (mo_saveEvidence (sm_ops sha256) ev s) \<and>
      sm_rows (mo_saveEvidence (sm_ops sha256) ev s) = sm_rows s \<and>
      mo_evidenceHistory (sm_ops sha256) (mo_saveEvidence (sm_ops sha256) ev s) n =
        (if n = se_matchId ev then mo_evidenceHistory (sm_ops sha256) s n @ [ev]
         else mo_evidenceHistory (sm_ops sha256) s n)"
    by (simp add: sm_saveEvidence_def sm_evidenceHistory_def sm_inv_def)
next
  fix s n
  show "mo_latestEvidence (sm_ops sha256) s n = (if mo_evidenceHistory (sm_ops sha256) s n = [] then None
      else Some (last (mo_evidenceHistory (sm_ops sha256) s n)))"
    by (simp add: sm_latestEvidence_def sm_evidenceHistory_def find_rev_last)
qed

section \<open>Properties\<close>

definition payload_ex :: "string \<Rightarrow> create_payload" where
  "payload_ex g = \<lparr>p_player1 = ''GA'', p_player2 = ''GB'', p_player1Username = Some ''alice'',
     p_player2Username = Some ''bob'', p_stakeAmount = 5, p_token = ''XLM'', p_gameId = g,
     p_platform = ''lichess''\<rparr>"

definition sm_empty :: sql_matches where
  "sm_empty = \<lparr>sm_rows = [], sm_nextId = 0, sm_evidence = []\<rparr>"

text \<open>The SQLite match store keeps one record per game: storing a match for a new game
  returns the record bound to the given data under an identifier no other match has, the
  record is then found by its game, every other game is looked up as before, and storing a
  second match for the same game is refused and changes no lookup.\<close>

lemma match_store_insert_lookup:
  assumes "sm_inv s" and "p_gameId p \<notin> m_gameId ` set (sm_rows s)"
  shows "\<exists>n s'. sm_createMatch sha256 p s = (Inr (payload_record sha256 n p), s') \<and> sm_inv s' \<and>
    n \<notin> m_matchId ` set (sm_rows s) \<and>
    sm_findByGameId s' (p_gameId p) = Some (payload_record sha256 n p) \<and>
    (\<forall>g. g \<noteq> p_gameId p \<longrightarrow> sm_findByGameId s' g = sm_findByGameId s g) \<and>
    (\<forall>q. p_gameId q = p_gameId p \<longrightarrow> (\<exists>e s''. sm_createMatch sha256 q s' = (Inl e, s'') \<and>
       (\<forall>g. sm_findByGameId s'' g = sm_findByGameId s' g)))"
proof -
  have "\<exists>n s'. sm_createMatch sha256 p s = (Inr (payload_record sha256 n p), s') \<and> sm_inv s' \<and>
      sm_findByGameId s' (p_gameId p) = Some (payload_record sha256 n p) \<and>
      n \<notin> m_matchId ` set (sm_rows s) \<and>
      (\<forall>g. g \<noteq> p_gameId p \<longrightarrow> sm_findByGameId s' g = sm_findByGameId s g)"
    using msql.create_then_find[OF assms(1) TrueI assms(2), of sha256] by (simp only: sm_ops_sel) blast
  then obtain n s' where c: "sm_createMatch sha256 p s = (Inr (payload_record sha256 n p), s')" "sm_inv s'"
    "sm_findByGameId s' (p_gameId p) = Some (payload_record sha256 n p)"
    "n \<notin> m_matchId ` set (sm_rows s)"
    "\<forall>g. g \<noteq> p_gameId p \<longrightarrow> sm_findByGameId s' g = sm_findByGameId s g" by (elim exE conjE)
  have "p_gameId p \<in> m_gameId ` set (sm_rows s')"
    using c(3) msql.find_None[OF c(2), of sha256 "p_gameId p"] by auto
  then have "\<exists>e s''. sm_createMatch sha256 q s' = (Inl e, s'') \<and>
       (\<forall>g. sm_findByGameId s'' g = sm_findByGameId s' g)" if "p_gameId q = p_gameId p" for q
    using msql.create_dup[OF c(2), of q sha256] that by (auto simp: sm_findByGameId_def)
  with c show ?thesis by blast
qed

lemma match_store_insert_lookup_example:
  "\<exists>n s'. sm_createMatch (\<lambda>x. x) (payload_ex ''g1'') sm_empty = (Inr (payload_record (\<lambda>x. x) n (payload_ex ''g1'')), s')"
  using match_store_insert_lookup[of sm_empty "payload_ex ''g1''" "\<lambda>x. x"]
  by (auto simp: sm_empty_def sm_inv_def)

text \<open>Restarting the match store never reuses an identifier: after initialisation the next
  identifier is above every stored one, no match is lost, and the settlement evidence of the
  last thirty days is kept in order.\<close>

lemma match_store_restart_safe:
  assumes "sm_inv s"
  shows "sm_inv (sm_initialize now s) \<and> sm_rows (sm_initialize now s) = sm_rows s \<and>
    (\<forall>m \<in> set (sm_rows s). m_matchId m < sm_nextId (sm_initialize now s)) \<and>
    (\<forall>e \<in> set (sm_evidence s). now - 30 * DAY_MS \<le> se_evaluatedAt e \<longrightarrow>
       e \<in> set (sm_evidence (sm_initialize now s))) \<and>
    (\<forall>e \<in> set (sm_evidence (sm_initialize now s)). now - 31 * DAY_MS < se_evaluatedAt e)"
proof -
  have keep: "\<not> a div DAY_MS < b div DAY_MS" if "b \<le> a" for a b
    using that zdiv_mono1[of b a DAY_MS] by (simp add: DAY_MS_def)
  have young: "now - 31 * DAY_MS < a" if "\<not> a div DAY_MS < (now - 30 * DAY_MS) div DAY_MS" for a
  proof -
    have d: "(now - 30 * DAY_MS) div DAY_MS \<le> a div DAY_MS" using that by linarith
    have "now - 30 * DAY_MS < DAY_MS * ((now - 30 * DAY_MS) div DAY_MS) + DAY_MS"
      using mult_div_mod_eq[of DAY_MS "now - 30 * DAY_MS"] pos_mod_bound[of DAY_MS "now - 30 * DAY_MS"]
      by (simp add: DAY_MS_def)
    moreover have "DAY_MS * ((now - 30 * DAY_MS) div DAY_MS) \<le> DAY_MS * (a div DAY_MS)"
      using d by (simp add: DAY_MS_def)
    moreover have "DAY_MS * (a div DAY_MS) \<le> a"
      using mult_div_mod_eq[of DAY_MS a] pos_mod_sign[of DAY_MS a] by (simp add: DAY_MS_def)
    ultimately show ?thesis by linarith
  qed
  show ?thesis
    using sm_inv_initialize[OF assms, of now] keep young
    by (auto simp: sm_initialize_def sm_retain_def sm_inv_def less_Suc_eq_le)
qed

lemma match_store_restart_safe_example:
  "sm_inv (sm_initialize 0 sm_empty) \<and> sm_nextId (sm_initialize 0 sm_empty) = 0"
  using match_store_restart_safe[of sm_empty 0] by (simp add: sm_empty_def sm_inv_def sm_initialize_def)

text \<open>Unlinking a wallet erases every trace of the platform identity from that wallet's
  matches and from no other match, and reports how many matches held one; a second unlinking
  finds nothing.\<close>

lemma unlink_erases_identities:
  "(\<forall>(k, m) \<in> set (ms_matches (snd (mm_unlinkIdentities a st))).
      m_player1 m = a \<or> m_player2 m = a \<longrightarrow>
        falsy (m_player1Username m) \<and> falsy (m_player2Username m) \<and> falsy (m_identityHash m)) \<and>
   (\<forall>(k, m) \<in> set (ms_matches st). m_player1 m \<noteq> a \<and> m_player2 m \<noteq> a \<longrightarrow>
      (k, m) \<in> set (ms_matches (snd (mm_unlinkIdentities a st)))) \<and>
   fst (mm_unlinkIdentities a (snd (mm_unlinkIdentities a st))) = 0"
proof (intro conjI)
  show "\<forall>(k, m) \<in> set (ms_matches (snd (mm_unlinkIdentities a st))).
      m_player1 m = a \<or> m_player2 m = a \<longrightarrow>
        falsy (m_player1Username m) \<and> falsy (m_player2Username m) \<and> falsy (m_identityHash m)"
    by (auto simp: mm_unlinkIdentities_def strip_identity_def identity_linked_def split: if_splits)
  show "\<forall>(k, m) \<in> set (ms_matches st). m_player1 m \<noteq> a \<and> m_player2 m \<noteq> a \<longrightarrow>
      (k, m) \<in> set (ms_matches (snd (mm_unlinkIdentities a st)))"
    by (force simp: mm_unlinkIdentities_def identity_linked_def)
  show "fst (mm_unlinkIdentities a (snd (mm_unlinkIdentities a st))) = 0"
    by (auto simp: mm_unlinkIdentities_def filter_empty_conv strip_identity_def identity_linked_def split: if_splits)
qed

lemma unlink_erases_identities_example:
  "fst (mm_unlinkIdentities ''GA'' \<lparr>ms_matches = [(1, match_ex)], ms_gameIds = [''g1''], ms_nextId = 2, ms_evidence = []\<rparr>) = 1 \<and>
   fst (mm_unlinkIdentities ''GA'' (snd (mm_unlinkIdentities ''GA''
     \<lparr>ms_matches = [(1, match_ex)], ms_gameIds = [''g1''], ms_nextId = 2, ms_evidence = []\<rparr>))) = 0"
  using unlink_erases_identities[of "''GA''"
      "\<lparr>ms_matches = [(1, match_ex)], ms_gameIds = [''g1''], ms_nextId = 2, ms_evidence = []\<rparr>"]
  by (simp add: mm_unlinkIdentities_def identity_linked_def match_ex_def)

end
