(* ===== verification/Errors.thy ===== *)
theory Errors
  imports ChessTypes
begin

text \<open>
  The error classes the backend throws and the mapping of an error to its HTTP status and to
  the machine-readable code of the response (\<open>errors/errorToHttpStatus.ts\<close>,
  \<open>errors/errorResponse.ts\<close>, \<open>fetchers/provider-validation.ts\<close>). A thrown value is one
  constructor of \<open>backend_error\<close>, with the message and the fields the code reads.
\<close>

datatype failure_kind = Unavailable | InvalidData | AccessDenied

datatype failure_policy = RetryLater | Review

text \<open>The policy the constructor of \<open>ProviderFetchError\<close> derives.\<close>

definition kind_policy :: "failure_kind \<Rightarrow> failure_policy" where
  "kind_policy k = (if k = Unavailable then RetryLater else Review)"

datatype backend_error =
    ProviderFetchError failure_kind string
  | ValidationError string
  | NotFoundError string
  | GameNotFoundError string
  | UserNotFoundError string
  | ConflictError string
  | RateLimitError string
  | RpcTimeoutError string
  | AmbiguousEvidenceError string evidence
  | OtherError string

text \<open>The \<open>message\<close> of an error.\<close>

fun error_message :: "backend_error \<Rightarrow> string" where
  "error_message (ProviderFetchError _ m) = m"
| "error_message (ValidationError m) = m"
| "error_message (NotFoundError m) = m"
| "error_message (GameNotFoundError m) = m"
| "error_message (UserNotFoundError m) = m"
| "error_message (ConflictError m) = m"
| "error_message (RateLimitError m) = m"
| "error_message (RpcTimeoutError m) = m"
| "error_message (AmbiguousEvidenceError m _) = m"
| "error_message (OtherError m) = m"

definition errorToHttpStatus :: "backend_error \<Rightarrow> nat" where
  "errorToHttpStatus error = (case error of
       ProviderFetchError k _ \<Rightarrow> if kind_policy k = RetryLater then 503 else 422
     | ValidationError _ \<Rightarrow> 400
     | NotFoundError _ \<Rightarrow> 404
     | GameNotFoundError _ \<Rightarrow> 404
     | UserNotFoundError _ \<Rightarrow> 404
     | ConflictError _ \<Rightarrow> 409
     | RateLimitError _ \<Rightarrow> 429
     | RpcTimeoutError _ \<Rightarrow> 504
     | _ \<Rightarrow> 500)"

datatype error_code = VALIDATION_ERROR | UNAUTHORIZED | NOT_FOUND_CODE | CONFLICT | RATE_LIMITED | INTERNAL_ERROR

definition statusToErrorCode :: "nat \<Rightarrow> error_code" where
  "statusToErrorCode status =
    (if status = 400 then VALIDATION_ERROR
     else if status = 401 then UNAUTHORIZED
     else if status = 404 then NOT_FOUND_CODE
     else if status = 409 then CONFLICT
     else if status = 422 then VALIDATION_ERROR
     else if status = 429 then RATE_LIMITED
     else INTERNAL_ERROR)"

section \<open>HTTP answers of a provider\<close>

text \<open>\<open>None\<close> when \<open>checkHttpStatus\<close> returns.\<close>

definition checkHttpStatus :: "string \<Rightarrow> nat \<Rightarrow> backend_error option" where
  "checkHttpStatus prov status =
    (if 500 \<le> status \<or> status = 408
     then Some (ProviderFetchError Unavailable (prov @ '' API error: '' @ nat_text status))
     else if status \<noteq> 200
     then Some (ProviderFetchError AccessDenied
       (prov @ '' API rejected request: '' @ nat_text status @ ''; operator review required''))
     else None)"

definition quarantine :: "string \<Rightarrow> string \<Rightarrow> backend_error" where
  "quarantine prov reason =
    ProviderFetchError InvalidData (prov @ '': '' @ reason @ ''; operator review required'')"

definition CLOCK_SKEW_MS :: rat where "CLOCK_SKEW_MS = 60000"
definition MAX_LIVE_DURATION_MS :: rat where "MAX_LIVE_DURATION_MS = 24 * 60 * 60 * 1000"
definition MAX_CORRESPONDENCE_DURATION_MS :: rat where
  "MAX_CORRESPONDENCE_DURATION_MS = 10 * 366 * MAX_LIVE_DURATION_MS"

text \<open>\<open>typeof v === 'number' \<and> Number.isSafeInteger(v)\<close>.\<close>

definition safe_integer :: "js_val \<Rightarrow> rat option" where
  "safe_integer v = (case v of JNum (Fin r) \<Rightarrow> if r \<in> \<int> \<and> \<bar>r\<bar> \<le> 2 ^ 53 - 1 then Some r else None | _ \<Rightarrow> None)"

definition validateChronology :: "int \<Rightarrow> string \<Rightarrow> js_val \<Rightarrow> js_val \<Rightarrow> bool \<Rightarrow> backend_error option" where
  "validateChronology now prov start fin correspondence =
    (let maxDuration = (if correspondence then MAX_CORRESPONDENCE_DURATION_MS else MAX_LIVE_DURATION_MS)
     in case (safe_integer start, safe_integer fin) of
          (Some s, Some e) \<Rightarrow>
             if s \<le> 0 \<or> e \<le> 0 \<or> e < s \<or> e > of_int now + CLOCK_SKEW_MS \<or> e - s > maxDuration
             then Some (quarantine prov ''invalid_chronology'') else None
        | _ \<Rightarrow> Some (quarantine prov ''invalid_chronology''))"

section \<open>Properties\<close>

lemma errorToHttpStatus_simps [simp]:
  "errorToHttpStatus (ValidationError m) = 400" "errorToHttpStatus (NotFoundError m) = 404"
  "errorToHttpStatus (GameNotFoundError m) = 404" "errorToHttpStatus (ConflictError m) = 409"
  "errorToHttpStatus (RateLimitError m) = 429" "errorToHttpStatus (OtherError m) = 500"
  "errorToHttpStatus (AmbiguousEvidenceError m e) = 500"
  by (simp_all add: errorToHttpStatus_def)

text \<open>The status and the code of a response agree on what the caller can do: the code is a
  client-side one exactly when the status is below 500, it says \<open>RATE_LIMITED\<close> exactly for an
  exhausted rate limit, and a failure of the provider is retryable (503) or under review (422) by
  its policy.\<close>

lemma error_status_code_agree:
  "(statusToErrorCode (errorToHttpStatus e) \<noteq> INTERNAL_ERROR \<longleftrightarrow> errorToHttpStatus e < 500) \<and>
   (statusToErrorCode (errorToHttpStatus e) = RATE_LIMITED \<longleftrightarrow> (\<exists>m. e = RateLimitError m)) \<and>
   (errorToHttpStatus e = 503 \<longleftrightarrow> (\<exists>m. e = ProviderFetchError Unavailable m)) \<and>
   (errorToHttpStatus e = 422 \<longleftrightarrow> (\<exists>k m. e = ProviderFetchError k m \<and> kind_policy k = Review))"
  by (cases e) (auto simp: errorToHttpStatus_def statusToErrorCode_def kind_policy_def split: failure_kind.split)

end
