(* ===== verification/Fetchers.thy ===== *)
theory Fetchers
  imports Errors
begin

text \<open>
  Reading a game from its platform: \<open>fetchers/result.ts\<close>, \<open>fetchers/lichess.ts\<close> and
  \<open>fetchers/chessdotcom.ts\<close>. The answers of the HTTP API are parameters; a payload is a record
  of the fields the code reads, each a value of unknown type. The SHA-256 digest of a payload
  and the URL an evidence names are passed in; a finite number is an exact rational.
\<close>

section \<open>Normalised results\<close>

definition PARSER_VERSION :: string where "PARSER_VERSION = ''2''"

definition evidenceFor :: "provider \<Rightarrow> string \<Rightarrow> int \<Rightarrow> string \<Rightarrow> evidence" where
  "evidenceFor prov source now hash = \<lparr>ev_provider = prov, ev_fetchedAt = now,
     ev_parserVersion = PARSER_VERSION, ev_responseHash = hash, ev_source = source,
     ev_outcome = None, ev_endedAt = None\<rparr>"

datatype time_unit = Seconds | Milliseconds

text \<open>The time value a \<open>Date\<close> can hold.\<close>

definition MAX_DATE_MS :: rat where "MAX_DATE_MS = 8640000000000000"

definition named :: "js_val \<Rightarrow> string option" where
  "named v = (case v of JStr s \<Rightarrow> if js_trim s = [] then None else Some s | _ \<Rightarrow> None)"

definition end_time_ms :: "time_unit \<Rightarrow> js_val \<Rightarrow> int option" where
  "end_time_ms unit timestamp = (case timestamp of
     JNum (Fin r) \<Rightarrow>
       (let ms = r * (if unit = Seconds then 1000 else 1)
        in if ms < 0 \<or> MAX_DATE_MS < ms then None else Some \<lfloor>ms\<rfloor>)
   | _ \<Rightarrow> None)"

definition normalizeResult ::
  "js_val \<Rightarrow> js_val \<Rightarrow> js_val \<Rightarrow> match_result option \<Rightarrow> js_val \<Rightarrow> time_unit \<Rightarrow> evidence \<Rightarrow> backend_error + game_result" where
  "normalizeResult gameId white black outcome timestamp unit ev =
    (case (named gameId, named white, named black) of
       (Some g, Some w, Some b) \<Rightarrow>
         (if outcome \<noteq> None \<and> end_time_ms unit timestamp = None
          then Inl (AmbiguousEvidenceError ''Missing or invalid terminal timestamp'' ev)
          else (let endedAt = (if outcome \<noteq> None then end_time_ms unit timestamp else None)
                in Inr \<lparr>g_gameId = g, g_whitePlayer = w, g_blackPlayer = b,
                     g_status = (if outcome = None then InProgress else Finished),
                     g_result = outcome, g_endedAt = endedAt,
                     g_evidence = ev\<lparr>ev_outcome := outcome, ev_endedAt := endedAt\<rparr>\<rparr>))
     | _ \<Rightarrow> Inl (AmbiguousEvidenceError ''Missing game or player identity'' ev))"

section \<open>Lichess\<close>

definition TERMINAL_STATUSES :: "string set" where
  "TERMINAL_STATUSES = {''mate'', ''resign'', ''stalemate'', ''timeout'', ''draw'', ''outoftime'', ''variantEnd''}"

definition DEFAULT_RETRY_AFTER_MS :: int where "DEFAULT_RETRY_AFTER_MS = 5000"
definition MAX_RETRIES :: nat where "MAX_RETRIES = 3"

text \<open>\<open>parse_date\<close> is \<open>Date.parse\<close>, \<open>None\<close> for \<open>NaN\<close>.\<close>

definition parseRetryAfterMs :: "(string \<Rightarrow> int option) \<Rightarrow> int \<Rightarrow> string option \<Rightarrow> int" where
  "parseRetryAfterMs parse_date now headerValue =
    (if falsy headerValue then DEFAULT_RETRY_AFTER_MS
     else (let trimmed = js_trim (the headerValue) in
       if trimmed \<noteq> [] \<and> list_all (\<lambda>c. digit_val 10 c \<noteq> None) trimmed
       then int (fst (read_digits 10 0 0 trimmed)) * 1000
       else case parse_date trimmed of
          Some dateMs \<Rightarrow> max 0 (dateMs - now)
        | None \<Rightarrow> DEFAULT_RETRY_AFTER_MS))"

record lichess_game =
  lg_id :: js_val
  lg_lastMoveAt :: js_val
  lg_status :: js_val
  lg_winner :: js_val
  lg_white :: js_val
  lg_black :: js_val

text \<open>The payload of a 200 answer, \<open>None\<close> when it is empty, and the digest of it.\<close>

definition readLichessGame :: "string \<Rightarrow> string \<Rightarrow> int \<Rightarrow> string \<Rightarrow> lichess_game option \<Rightarrow> backend_error + game_result" where
  "readLichessGame gameId url now hash data =
    (let ev = evidenceFor Lichess url now hash in
     case data of
       None \<Rightarrow> Inl (AmbiguousEvidenceError ''Mismatched game identity'' ev)
     | Some d \<Rightarrow>
        if lg_id d \<noteq> JStr gameId then Inl (AmbiguousEvidenceError ''Mismatched game identity'' ev)
        else
          (let isTerminal = (\<exists>s \<in> TERMINAL_STATUSES. lg_status d = JStr s);
               active = (lg_status d = JStr ''started'' \<or> lg_status d = JStr ''created'');
               drawn = (lg_status d = JStr ''draw'' \<or> lg_status d = JStr ''stalemate'');
               finish = (\<lambda>result. normalizeResult (lg_id d) (lg_white d) (lg_black d) result
                           (lg_lastMoveAt d) Milliseconds ev)
           in if isTerminal then
                (if lg_winner d = JStr ''white'' \<or> lg_winner d = JStr ''black'' \<or> (lg_winner d = JUndef \<and> drawn)
                 then (if drawn \<and> lg_winner d \<noteq> JUndef
                       then Inl (AmbiguousEvidenceError ''Draw status conflicts with winner'' ev)
                       else finish (Some (if lg_winner d = JStr ''white'' then Player1Wins
                                          else if lg_winner d = JStr ''black'' then Player2Wins else Draw)))
                 else Inl (AmbiguousEvidenceError ''Terminal game has no valid outcome'' ev))
              else if \<not> active \<or> lg_winner d \<noteq> JUndef
              then Inl (AmbiguousEvidenceError ''Unknown or conflicting Lichess status'' ev)
              else finish None))"

datatype lichess_response =
    LichessThrew string
  | LichessAnswer nat "string option" "lichess_game option" string

text \<open>
  The request loop: \<open>resp n\<close> answers the request number \<open>n\<close>, \<open>clk n\<close> is the clock then.
  The result comes with the waits between the requests.
\<close>

function fetch_lichess_loop ::
  "(string \<Rightarrow> int option) \<Rightarrow> (nat \<Rightarrow> int) \<Rightarrow> (nat \<Rightarrow> lichess_response) \<Rightarrow> string \<Rightarrow> string \<Rightarrow> nat \<Rightarrow> int list \<Rightarrow>
   (backend_error + game_result) \<times> int list" where
  "fetch_lichess_loop parse_date clk resp url gameId attempt waits =
    (if \<not> attempt \<le> MAX_RETRIES
     then (Inl (RateLimitError ''Lichess API rate limit exceeded (429)''), waits)
     else case resp attempt of
        LichessThrew m \<Rightarrow> (Inl (OtherError m), waits)
      | LichessAnswer status retry_after data hash \<Rightarrow>
         if status = 429 then
           (if attempt = MAX_RETRIES
            then (Inl (RateLimitError (''Lichess API rate limit exceeded (429) after '' @
                    nat_text MAX_RETRIES @ '' retries'')), waits)
            else fetch_lichess_loop parse_date clk resp url gameId (Suc attempt)
                   (waits @ [parseRetryAfterMs parse_date (clk attempt) retry_after]))
         else if status = 404 then (Inl (GameNotFoundError (''Lichess game not found: '' @ gameId)), waits)
         else if status \<noteq> 200 then (Inl (OtherError (''Lichess API error: '' @ nat_text status)), waits)
         else (readLichessGame gameId url (clk attempt) hash data, waits))"
  by pat_completeness auto
termination
  by (relation "measure (\<lambda>(_, _, _, _, _, attempt, _). Suc MAX_RETRIES - attempt)") auto

declare fetch_lichess_loop.simps [simp del]

definition fetchLichessResult ::
  "(string \<Rightarrow> int option) \<Rightarrow> (nat \<Rightarrow> int) \<Rightarrow> (nat \<Rightarrow> lichess_response) \<Rightarrow> string \<Rightarrow> string \<Rightarrow>
   (backend_error + game_result) \<times> int list" where
  "fetchLichessResult parse_date clk resp url gameId = fetch_lichess_loop parse_date clk resp url gameId 0 []"

section \<open>Chess.com\<close>

definition LOSS_RESULTS :: "string set" where
  "LOSS_RESULTS = {''checkmated'', ''resigned'', ''timeout'', ''abandoned'', ''lose'', ''kingofthehill'',
     ''threecheck'', ''bughousepartnerlose''}"

definition DRAW_RESULTS :: "string set" where
  "DRAW_RESULTS = {''agreed'', ''stalemate'', ''repetition'', ''insufficient'', ''timevsinsufficient'', ''50move''}"

definition IN_PROGRESS :: "string set" where
  "IN_PROGRESS = {''in_progress'', ''timeout_started''}"

definition extractGameId :: "string \<Rightarrow> string" where
  "extractGameId url = rev (takeWhile (\<lambda>c. c \<noteq> CHR ''/'') (rev url))"

definition val_in :: "js_val \<Rightarrow> string set \<Rightarrow> bool" where
  "val_in v S = (case v of JStr s \<Rightarrow> s \<in> S | _ \<Rightarrow> False)"

text \<open>\<open>None\<close> is \<open>undefined\<close>, \<open>Some None\<close> is \<open>null\<close>: the game goes on.\<close>

definition mapResult :: "js_val \<Rightarrow> js_val \<Rightarrow> match_result option option" where
  "mapResult white black =
    (if val_in white IN_PROGRESS \<and> val_in black IN_PROGRESS then Some None
     else if white = JStr ''win'' \<and> val_in black LOSS_RESULTS then Some (Some Player1Wins)
     else if black = JStr ''win'' \<and> val_in white LOSS_RESULTS then Some (Some Player2Wins)
     else if val_in white DRAW_RESULTS \<and> val_in black DRAW_RESULTS then Some (Some Draw)
     else None)"

definition parseArchiveMonths :: "string option \<Rightarrow> string + nat" where
  "parseArchiveMonths raw =
    (let months = (case raw of None \<Rightarrow> Fin 120 | Some s \<Rightarrow> js_Number s) in
     case months of
       Fin r \<Rightarrow> if \<not> js_integer (Fin r) \<or> r < 1 \<or> r > 600
                then Inl ''CHESSDOTCOM_ARCHIVE_MONTHS must be an integer between 1 and 600''
                else Inr (nat \<lfloor>r\<rfloor>)
     | _ \<Rightarrow> Inl ''CHESSDOTCOM_ARCHIVE_MONTHS must be an integer between 1 and 600'')"

record chessdotcom_game =
  cg_url :: string
  cg_end_time :: js_val
  cg_white_username :: js_val
  cg_white_result :: js_val
  cg_black_username :: js_val
  cg_black_result :: js_val

text \<open>An archive answer: its status and, for a payload with a list of games that all have a
  string URL, that list.\<close>

datatype archive_response =
    ArchiveThrew string
  | ArchiveAnswer nat "chessdotcom_game list option" string

definition fetchArchive :: "string \<Rightarrow> int \<Rightarrow> archive_response \<Rightarrow> backend_error + chessdotcom_game list" where
  "fetchArchive url now resp = (case resp of
     ArchiveThrew m \<Rightarrow> Inl (OtherError m)
   | ArchiveAnswer status games hash \<Rightarrow>
      if status = 404 then Inr []
      else if status = 429 then Inl (RateLimitError ''Chess.com API rate limit exceeded (429)'')
      else if status \<noteq> 200 then Inl (OtherError (''Chess.com API error: '' @ nat_text status))
      else case games of
          None \<Rightarrow> Inl (AmbiguousEvidenceError ''Invalid archive payload'' (evidenceFor ChessDotCom url now hash))
        | Some gs \<Rightarrow> Inr gs)"

text \<open>The month \<open>i\<close> months before the given one; months count from 1.\<close>

definition months_back :: "int \<Rightarrow> int \<Rightarrow> nat \<Rightarrow> int \<times> int" where
  "months_back year month i = (let m = year * 12 + (month - 1) - int i in (m div 12, m mod 12 + 1))"

definition readChessDotComGame :: "string \<Rightarrow> string \<Rightarrow> int \<Rightarrow> string \<Rightarrow> chessdotcom_game \<Rightarrow> backend_error + game_result" where
  "readChessDotComGame gameId source now hash game =
    (let ev = evidenceFor ChessDotCom source now hash in
     case mapResult (cg_white_result game) (cg_black_result game) of
       None \<Rightarrow> Inl (AmbiguousEvidenceError ''Conflicting or unknown Chess.com outcomes'' ev)
     | Some result \<Rightarrow> normalizeResult (JStr gameId) (cg_white_username game) (cg_black_username game) result
                        (cg_end_time game) Seconds ev)"

text \<open>
  \<open>archive y m\<close> is the answer for a month with the URL asked, \<open>source\<close> and \<open>hash\<close> give the URL
  and the digest of an evidence.
\<close>

fun search_archives ::
  "(int \<times> int \<Rightarrow> string \<times> archive_response) \<Rightarrow> string \<Rightarrow> (chessdotcom_game list \<Rightarrow> string) \<Rightarrow> int \<Rightarrow> string \<Rightarrow> (int \<times> int) list \<Rightarrow>
   backend_error + game_result" where
  "search_archives archive source hash now gameId [] = Inl (GameNotFoundError (''Lichess game not found: '' @ gameId))"
| "search_archives archive source hash now gameId (ym # yms) =
    (case fetchArchive (fst (archive ym)) now (snd (archive ym)) of
       Inl e \<Rightarrow> Inl e
     | Inr games \<Rightarrow>
        (case filter (\<lambda>g. extractGameId (cg_url g) = gameId) games of
           [] \<Rightarrow> search_archives archive source hash now gameId yms
         | [game] \<Rightarrow> readChessDotComGame gameId source now (hash [game]) game
         | ms \<Rightarrow> Inl (AmbiguousEvidenceError ''Duplicate game evidence''
                   (evidenceFor ChessDotCom (''game:'' @ gameId) now (hash ms)))))"

definition fetchChessDotComResult ::
  "string option \<Rightarrow> (int \<times> int \<Rightarrow> string \<times> archive_response) \<Rightarrow> string \<Rightarrow> (chessdotcom_game list \<Rightarrow> string) \<Rightarrow>
   int \<Rightarrow> int \<times> int \<Rightarrow> string \<Rightarrow> backend_error + game_result" where
  "fetchChessDotComResult raw_months archive source hash now today gameId =
    (case parseArchiveMonths raw_months of
       Inl m \<Rightarrow> Inl (OtherError m)
     | Inr months \<Rightarrow> search_archives archive source hash now gameId
         (map (months_back (fst today) (snd today)) [0..<months]))"

section \<open>Lemmas\<close>

lemma named_iff: "named v = Some s \<longleftrightarrow> v = JStr s \<and> js_trim s \<noteq> []"
  by (cases v) (auto simp: named_def)

lemma normalizeResult_Inr:
  "normalizeResult gid w b outcome ts unit ev = Inr g \<longleftrightarrow>
    (\<exists>i wn bn. named gid = Some i \<and> named w = Some wn \<and> named b = Some bn \<and>
      (outcome \<noteq> None \<longrightarrow> end_time_ms unit ts \<noteq> None) \<and>
      g = \<lparr>g_gameId = i, g_whitePlayer = wn, g_blackPlayer = bn,
            g_status = (if outcome = None then InProgress else Finished), g_result = outcome,
            g_endedAt = (if outcome = None then None else end_time_ms unit ts),
            g_evidence = ev\<lparr>ev_outcome := outcome, ev_endedAt := (if outcome = None then None else end_time_ms unit ts)\<rparr>\<rparr>)"
  by (auto simp: normalizeResult_def Let_def split: option.splits)

text \<open>What every normalised game satisfies.\<close>

definition game_ok :: "string \<Rightarrow> game_result \<Rightarrow> bool" where
  "game_ok gameId g \<longleftrightarrow> g_gameId g = gameId \<and> js_trim (g_whitePlayer g) \<noteq> [] \<and> js_trim (g_blackPlayer g) \<noteq> [] \<and>
    (g_status g = InProgress \<longleftrightarrow> g_result g = None) \<and> (g_endedAt g = None \<longleftrightarrow> g_result g = None) \<and>
    (\<forall>t. g_endedAt g = Some t \<longrightarrow> 0 \<le> t) \<and>
    ev_outcome (g_evidence g) = g_result g \<and> ev_endedAt (g_evidence g) = g_endedAt g"

lemma end_time_nonneg: "end_time_ms unit ts = Some t \<Longrightarrow> 0 \<le> t"
  by (auto simp: end_time_ms_def Let_def split: js_val.splits js_num.splits if_splits)

lemma normalizeResult_ok:
  "normalizeResult (JStr gameId) w b outcome ts unit ev = Inr g \<Longrightarrow> game_ok gameId g \<and> g_result g = outcome"
  by (auto simp: normalizeResult_Inr game_ok_def named_iff dest: end_time_nonneg split: if_splits)

definition winner_of :: "js_val \<Rightarrow> match_result" where
  "winner_of v = (if v = JStr ''white'' then Player1Wins else if v = JStr ''black'' then Player2Wins else Draw)"

lemma readLichessGame_Inr:
  assumes "readLichessGame gameId url now hash data = Inr g"
  shows "\<exists>d. data = Some d \<and> lg_id d = JStr gameId \<and> game_ok gameId g \<and>
    (g_result g = None \<longleftrightarrow> lg_status d = JStr ''started'' \<or> lg_status d = JStr ''created'') \<and>
    (\<forall>r. g_result g = Some r \<longrightarrow> r = winner_of (lg_winner d) \<and> (\<exists>s \<in> TERMINAL_STATUSES. lg_status d = JStr s) \<and>
       (r = Draw \<longleftrightarrow> lg_winner d = JUndef) \<and> (r = Draw \<longrightarrow> lg_status d \<in> {JStr ''draw'', JStr ''stalemate''}))"
proof -
  obtain d where d: "data = Some d" "lg_id d = JStr gameId"
    using assms by (cases data) (auto simp: readLichessGame_def Let_def split: if_splits)
  let ?ev = "evidenceFor Lichess url now hash"
  let ?n = "\<lambda>r. normalizeResult (JStr gameId) (lg_white d) (lg_black d) r (lg_lastMoveAt d) Milliseconds ?ev"
  show ?thesis
  proof (cases "\<exists>s \<in> TERMINAL_STATUSES. lg_status d = JStr s")
    case True
    then have na: "lg_status d \<noteq> JStr ''started''" "lg_status d \<noteq> JStr ''created''"
      by (auto simp: TERMINAL_STATUSES_def)
    have w: "?n (Some (winner_of (lg_winner d))) = Inr g"
      and c: "lg_winner d = JStr ''white'' \<or> lg_winner d = JStr ''black'' \<or>
        lg_winner d = JUndef \<and> lg_status d \<in> {JStr ''draw'', JStr ''stalemate''}"
      using assms True d by (auto simp: readLichessGame_def Let_def winner_of_def split: if_splits)
    show ?thesis using normalizeResult_ok[OF w] c na True d by (auto simp: winner_of_def)
  next
    case False
    with assms d have w: "?n None = Inr g"
      and c: "lg_status d = JStr ''started'' \<or> lg_status d = JStr ''created''"
      by (auto simp: readLichessGame_def Let_def split: if_splits)
    show ?thesis using normalizeResult_ok[OF w] c d by auto
  qed
qed

lemma fetch_lichess_loop_Inr:
  assumes "fetch_lichess_loop pd clk resp url gameId attempt waits = (Inr g, ws)"
  shows "\<exists>n ra d h. attempt \<le> n \<and> n \<le> MAX_RETRIES \<and> resp n = LichessAnswer 200 ra d h \<and>
    readLichessGame gameId url (clk n) h d = Inr g \<and>
    (\<forall>k. attempt \<le> k \<and> k < n \<longrightarrow> (\<exists>ra d h. resp k = LichessAnswer 429 ra d h)) \<and>
    length ws = length waits + (n - attempt)"
  using assms
proof (induction pd clk resp url gameId attempt waits rule: fetch_lichess_loop.induct)
  case (1 pd clk resp url gameId attempt waits)
  note pr = 1(2)
  have le: "attempt \<le> MAX_RETRIES" using pr by (subst (asm) fetch_lichess_loop.simps) (auto split: if_splits)
  obtain st ra d h where r: "resp attempt = LichessAnswer st ra d h"
    using pr le by (subst (asm) fetch_lichess_loop.simps) (auto split: lichess_response.splits)
  show ?case
  proof (cases "st = 429")
    case True
    with pr le r have ne: "attempt \<noteq> MAX_RETRIES"
      by (subst (asm) fetch_lichess_loop.simps) (auto split: if_splits)
    have "fetch_lichess_loop pd clk resp url gameId (Suc attempt)
        (waits @ [parseRetryAfterMs pd (clk attempt) ra]) = (Inr g, ws)"
      using pr le r True ne by (subst (asm) fetch_lichess_loop.simps) simp
    from 1(1)[OF _ r True ne this] le obtain n ra' d' h' where n: "Suc attempt \<le> n" "n \<le> MAX_RETRIES"
      "resp n = LichessAnswer 200 ra' d' h'" "readLichessGame gameId url (clk n) h' d' = Inr g"
      "\<forall>k. Suc attempt \<le> k \<and> k < n \<longrightarrow> (\<exists>ra d h. resp k = LichessAnswer 429 ra d h)"
      "length ws = Suc (length waits) + (n - Suc attempt)" by auto
    have "\<exists>ra d h. resp k = LichessAnswer 429 ra d h" if "attempt \<le> k" "k < n" for k
      using that n(5) r True by (cases "k = attempt") auto
    with n show ?thesis by (intro exI[of _ n] exI[of _ ra'] exI[of _ d'] exI[of _ h']) auto
  next
    case False
    with pr le r have "st = 200" "readLichessGame gameId url (clk attempt) h d = Inr g" "ws = waits"
      by (subst (asm) fetch_lichess_loop.simps; auto split: if_splits)+
    with r le show ?thesis by (intro exI[of _ attempt]) auto
  qed
qed

lemma parseArchiveMonths_range: "parseArchiveMonths raw = Inr n \<Longrightarrow> 1 \<le> n \<and> n \<le> 600"
proof -
  assume "parseArchiveMonths raw = Inr n"
  then obtain r :: rat where r: "n = nat \<lfloor>r\<rfloor>" "1 \<le> r" "r \<le> 600"
    by (auto simp: parseArchiveMonths_def Let_def split: js_num.splits if_splits)
  then have "1 \<le> \<lfloor>r\<rfloor>" "\<lfloor>r\<rfloor> \<le> 600" by linarith+
  with r(1) show ?thesis by linarith
qed

lemma search_archives_Inr:
  "search_archives archive source hash now gameId yms = Inr g \<Longrightarrow>
    \<exists>i games game. i < length yms \<and> fetchArchive (fst (archive (yms ! i))) now (snd (archive (yms ! i))) = Inr games \<and>
      filter (\<lambda>g. extractGameId (cg_url g) = gameId) games = [game] \<and>
      readChessDotComGame gameId source now (hash [game]) game = Inr g \<and>
      (\<forall>j < i. \<exists>gs. fetchArchive (fst (archive (yms ! j))) now (snd (archive (yms ! j))) = Inr gs \<and>
         (\<forall>g' \<in> set gs. extractGameId (cg_url g') \<noteq> gameId))"
proof (induction yms)
  case (Cons ym yms)
  then obtain games where f: "fetchArchive (fst (archive ym)) now (snd (archive ym)) = Inr games"
    by (auto split: sum.splits)
  show ?case
  proof (cases "filter (\<lambda>g. extractGameId (cg_url g) = gameId) games")
    case Nil
    with Cons.prems f have "search_archives archive source hash now gameId yms = Inr g" by simp
    from Cons.IH[OF this] obtain i gs game where i: "i < length yms"
      "fetchArchive (fst (archive (yms ! i))) now (snd (archive (yms ! i))) = Inr gs"
      "filter (\<lambda>g. extractGameId (cg_url g) = gameId) gs = [game]"
      "readChessDotComGame gameId source now (hash [game]) game = Inr g"
      "\<forall>j < i. \<exists>gs. fetchArchive (fst (archive (yms ! j))) now (snd (archive (yms ! j))) = Inr gs \<and>
         (\<forall>g' \<in> set gs. extractGameId (cg_url g') \<noteq> gameId)" by blast
    have "\<forall>j < Suc i. \<exists>gs. fetchArchive (fst (archive ((ym # yms) ! j))) now (snd (archive ((ym # yms) ! j))) = Inr gs \<and>
         (\<forall>g' \<in> set gs. extractGameId (cg_url g') \<noteq> gameId)"
      using i(5) f Nil by (auto simp: less_Suc_eq_0_disj filter_empty_conv)
    with i(1-4) show ?thesis by (intro exI[of _ "Suc i"] exI[of _ gs] exI[of _ game]) simp
  next
    case (Cons game rest)
    with Cons.prems f have "rest = []" "readChessDotComGame gameId source now (hash [game]) game = Inr g"
      by (auto split: list.splits)
    with f Cons show ?thesis by (intro exI[of _ 0] exI[of _ games] exI[of _ game]) simp
  qed
qed simp

section \<open>Properties\<close>

definition lichess_ex :: lichess_game where
  "lichess_ex = \<lparr>lg_id = JStr ''abcd1234'', lg_lastMoveAt = JNum (Fin 1700000000000), lg_status = JStr ''mate'',
     lg_winner = JStr ''white'', lg_white = JStr ''Ann'', lg_black = JStr ''Bob''\<rparr>"

definition lichess_resp_ex :: "nat \<Rightarrow> lichess_response" where
  "lichess_resp_ex n = (if n < 2 then LichessAnswer 429 None None ''h'' else LichessAnswer 200 None (Some lichess_ex) ''h'')"

definition fetched_ex :: game_result where
  "fetched_ex = \<lparr>g_gameId = ''abcd1234'', g_whitePlayer = ''Ann'', g_blackPlayer = ''Bob'', g_status = Finished,
     g_result = Some Player1Wins, g_endedAt = Some 1700000000000,
     g_evidence = (evidenceFor Lichess ''u'' 0 ''h'')\<lparr>ev_outcome := Some Player1Wins, ev_endedAt := Some 1700000000000\<rparr>\<rparr>"

lemma trim_ex: "js_trim ''Ann'' \<noteq> []" "js_trim ''Bob'' \<noteq> []" "js_trim ''abcd1234'' \<noteq> []"
  by code_simp+

lemma read_lichess_ex: "readLichessGame ''abcd1234'' ''u'' 0 ''h'' (Some lichess_ex) = Inr fetched_ex"
  using trim_ex
  by (simp add: readLichessGame_def lichess_ex_def fetched_ex_def TERMINAL_STATUSES_def normalizeResult_def
      named_def end_time_ms_def MAX_DATE_MS_def evidenceFor_def Let_def)

lemma fetch_lichess_ex: "fetchLichessResult (\<lambda>_. None) (\<lambda>_. 0) lichess_resp_ex ''u'' ''abcd1234'' = (Inr fetched_ex, [5000, 5000])"
  by (simp add: fetchLichessResult_def fetch_lichess_loop.simps MAX_RETRIES_def lichess_resp_ex_def
      parseRetryAfterMs_def DEFAULT_RETRY_AFTER_MS_def read_lichess_ex)

text \<open>C7. A game read from Lichess is the game asked for, with two named players: it has a result
  exactly when it is finished and then an end time, the result is white's or black's win or a draw as
  the platform's winner field says, a draw only under a draw status; it comes from the first answer that
  is not a rate limit, within four requests.\<close>

theorem lichess_result_sound:
  assumes "fetchLichessResult parse_date clk resp url gameId = (Inr g, waits)"
  shows "game_ok gameId g \<and> length waits \<le> 3 \<and>
    (\<exists>ra d h. resp (length waits) = LichessAnswer 200 ra (Some d) h \<and> lg_id d = JStr gameId \<and>
      (\<forall>r. g_result g = Some r \<longrightarrow> r = winner_of (lg_winner d)) \<and>
      (g_result g = Some Draw \<longrightarrow> lg_status d \<in> {JStr ''draw'', JStr ''stalemate''}) \<and>
      (g_result g = None \<longleftrightarrow> lg_status d = JStr ''started'' \<or> lg_status d = JStr ''created'')) \<and>
    (\<forall>k < length waits. \<exists>ra d h. resp k = LichessAnswer 429 ra d h)"
proof -
  obtain n ra d h where n: "n \<le> MAX_RETRIES" "resp n = LichessAnswer 200 ra d h"
    "readLichessGame gameId url (clk n) h d = Inr g" "\<forall>k < n. \<exists>ra d h. resp k = LichessAnswer 429 ra d h"
    "length waits = n"
    using fetch_lichess_loop_Inr[OF assms[unfolded fetchLichessResult_def]] by auto
  from readLichessGame_Inr[OF n(3)] n show ?thesis by (auto simp: MAX_RETRIES_def)
qed

theorem lichess_result_sound_witness:
  "game_ok ''abcd1234'' fetched_ex \<and> (\<exists>ra d h. lichess_resp_ex 2 = LichessAnswer 200 ra (Some d) h \<and>
     g_result fetched_ex = Some (winner_of (lg_winner d)))"
proof -
  have g: "g_result fetched_ex = Some Player1Wins" by (simp add: fetched_ex_def)
  show ?thesis using lichess_result_sound[OF fetch_lichess_ex] g by (auto simp: numeral_2_eq_2)
qed

text \<open>When Lichess answers every request with a rate limit, the fetch makes three waits, each as the
  \<open>Retry-After\<close> header of that answer says, and gives up with the retryable rate limit error.\<close>

lemma lichess_rate_limit:
  assumes "\<forall>n \<le> 3. \<exists>d h. resp n = LichessAnswer 429 (ra n) d h"
  shows "\<exists>m. fetchLichessResult parse_date clk resp url gameId = (Inl (RateLimitError m),
      map (\<lambda>n. parseRetryAfterMs parse_date (clk n) (ra n)) [0, 1, 2]) \<and>
    errorToHttpStatus (RateLimitError m) = 429"
proof -
  obtain d h where r: "resp n = LichessAnswer 429 (ra n) (d n) (h n)" if "n \<le> 3" for n
    using assms by metis
  show ?thesis
    by (simp add: fetchLichessResult_def fetch_lichess_loop.simps MAX_RETRIES_def r numeral_2_eq_2)
qed

lemma lichess_rate_limit_example:
  "\<exists>m. fetchLichessResult (\<lambda>_. None) (\<lambda>_. 0) (\<lambda>_. LichessAnswer 429 None None ''h'') ''u'' ''g'' =
     (Inl (RateLimitError m), [5000, 5000, 5000])"
  using lichess_rate_limit[of "\<lambda>_. LichessAnswer 429 None None ''h''" "\<lambda>_. None" "\<lambda>_. None" "\<lambda>_. 0" "''u''" "''g''"]
  by (simp add: parseRetryAfterMs_def DEFAULT_RETRY_AFTER_MS_def)

text \<open>The documented fallback of five seconds for a \<open>Retry-After\<close> date in the past is not taken:
  such a header means no wait at all, while an absent, empty or unreadable header means five seconds.\<close>

lemma retry_after_past_date:
  assumes "\<not> list_all (\<lambda>c. digit_val 10 c \<noteq> None) (js_trim v)" and "v \<noteq> []"
  shows "parseRetryAfterMs parse_date now (Some v) =
      (case parse_date (js_trim v) of None \<Rightarrow> 5000 | Some t \<Rightarrow> if t \<le> now then 0 else t - now) \<and>
    parseRetryAfterMs parse_date now None = 5000 \<and> parseRetryAfterMs parse_date now (Some []) = 5000"
  using assms by (auto simp: parseRetryAfterMs_def DEFAULT_RETRY_AFTER_MS_def Let_def max_def split: option.split)

lemma retry_after_past_date_example:
  "parseRetryAfterMs (\<lambda>_. Some 1000) 5000 (Some ''Thu, 01 Jan 1970 00:00:01 GMT'') = 0"
proof -
  have "\<not> list_all (\<lambda>c. digit_val 10 c \<noteq> None) (js_trim ''Thu, 01 Jan 1970 00:00:01 GMT'')" by code_simp
  from retry_after_past_date[OF this, of "\<lambda>_. Some 1000" 5000] show ?thesis by simp
qed


definition archive_ex :: "int \<times> int \<Rightarrow> string \<times> archive_response" where
  "archive_ex ym = (''u'', if ym = (2023, 12) then ArchiveAnswer 200 (Some [\<lparr>cg_url = ''x/77'', cg_end_time = JNum (Fin 1700000000),
     cg_white_username = JStr ''Ann'', cg_white_result = JStr ''win'', cg_black_username = JStr ''Bob'',
     cg_black_result = JStr ''resigned''\<rparr>]) ''h'' else ArchiveAnswer 404 None ''h'')"


text \<open>The Chess.com outcome does not depend on the colour a player has: swapping the two results
  swaps the winners and keeps draws, games in progress and contradictory outcomes.\<close>

definition flip_result :: "match_result \<Rightarrow> match_result" where
  "flip_result r = (case r of Player1Wins \<Rightarrow> Player2Wins | Player2Wins \<Rightarrow> Player1Wins | Draw \<Rightarrow> Draw)"

lemma chessdotcom_colour_symmetric:
  "mapResult b w = map_option (map_option flip_result) (mapResult w b)"
  by (cases w; cases b) (auto simp: mapResult_def val_in_def flip_result_def IN_PROGRESS_def LOSS_RESULTS_def DRAW_RESULTS_def)

end
