(* ===== verification/Settlement.thy ===== *)
theory Settlement
  imports Dlq MatchStore
begin

text \<open>
  Settling a match on chain: \<open>services/oracle-submit.ts\<close>, the durable outbox
  \<open>store/settlement-store.ts\<close> and the registry transport \<open>services/oracle-contract.ts\<close>.
  Every call to the blockchain is a parameter, and every one of them may throw: a handler is
  the outcome of its \<open>n\<close>-th call, a client is the list of responses a step receives.
\<close>

section \<open>Submission with retry\<close>

record retry_config =
  maxRetries :: "int option"
  baseDelayMs :: "int option"
  maxDelayMs :: "int option"

text \<open>\<open>None\<close> is the \<open>NaN\<close> that \<open>parseInt\<close> returns on text without digits.\<close>

definition loadRetryConfig :: "(string \<Rightarrow> string option) \<Rightarrow> retry_config" where
  "loadRetryConfig env = \<lparr>
     maxRetries = js_parseInt (case env ''ORACLE_MAX_RETRIES'' of Some s \<Rightarrow> s | None \<Rightarrow> ''5''),
     baseDelayMs = js_parseInt (case env ''ORACLE_RETRY_BASE_MS'' of Some s \<Rightarrow> s | None \<Rightarrow> ''1000''),
     maxDelayMs = js_parseInt (case env ''ORACLE_RETRY_MAX_MS'' of Some s \<Rightarrow> s | None \<Rightarrow> ''60000'')\<rparr>"

record submission =
  sub_decisionId :: "nat option"
  sub_matchId :: int
  sub_gameId :: string
  sub_result :: match_result

definition calculateBackoffDelay :: "nat \<Rightarrow> retry_config \<Rightarrow> int option" where
  "calculateBackoffDelay attempt cfg =
    (case (baseDelayMs cfg, maxDelayMs cfg) of
       (Some b, Some m) \<Rightarrow> Some (min (b * 2 ^ attempt) m)
     | _ \<Rightarrow> None)"

text \<open>The delay a timer really waits: \<open>setTimeout\<close> takes anything that is not between 1 and
  \<open>2^31 - 1\<close> milliseconds as 1.\<close>

definition timer_ms :: "int option \<Rightarrow> int" where
  "timer_ms d = (case d of Some n \<Rightarrow> if 1 \<le> n \<and> n \<le> 2 ^ 31 - 1 then n else 1 | None \<Rightarrow> 1)"

text \<open>
  A run of the retry loop: the number of handler calls, for each wait the delay that is
  logged and the delay that is slept, and the end: success, or the message of the last error
  (\<open>None\<close> when the handler was never called).
\<close>

datatype submit_end = Submitted_ok | Exhausted "string option"

record submit_run =
  sr_calls :: nat
  sr_waits :: "(int option \<times> int) list"
  sr_end :: submit_end

function submit_loop ::
  "retry_config \<Rightarrow> (nat \<Rightarrow> string option) \<Rightarrow> nat \<Rightarrow> string option \<Rightarrow> (int option \<times> int) list \<Rightarrow> submit_run" where
  "submit_loop cfg handler attempt lastError waits =
    (case maxRetries cfg of
       None \<Rightarrow> \<lparr>sr_calls = attempt, sr_waits = waits, sr_end = Exhausted lastError\<rparr>
     | Some mx \<Rightarrow>
        if \<not> int attempt \<le> mx
        then \<lparr>sr_calls = attempt, sr_waits = waits, sr_end = Exhausted lastError\<rparr>
        else (case handler attempt of
           None \<Rightarrow> \<lparr>sr_calls = Suc attempt, sr_waits = waits, sr_end = Submitted_ok\<rparr>
         | Some msg \<Rightarrow>
            submit_loop cfg handler (Suc attempt) (Some msg)
              (if int attempt < mx
               then waits @ [(calculateBackoffDelay (attempt + 1) cfg,
                              timer_ms (calculateBackoffDelay attempt cfg))]
               else waits)))"
  by pat_completeness auto
termination
  by (relation "measure (\<lambda>(cfg, handler, attempt, lastError, waits).
       nat (case maxRetries cfg of None \<Rightarrow> 0 | Some mx \<Rightarrow> mx + 1 - int attempt))")
     (auto simp del: calculateBackoffDelay_def)

declare submit_loop.simps [simp del]

text \<open>\<open>fresh\<close> and \<open>now\<close> are the identifier and the time the dead-letter entry gets.\<close>

definition submitWithRetry ::
  "('s, submission) queue_ops \<Rightarrow> int \<Rightarrow> string \<Rightarrow> submission \<Rightarrow> (nat \<Rightarrow> string option) \<Rightarrow> retry_config \<Rightarrow>
   's \<Rightarrow> (store_error + (submission dlq_entry option \<times> 's)) \<times> submit_run" where
  "submitWithRetry ops now fresh sub handler cfg s =
    (let r = submit_loop cfg handler 0 None [] in
     case sr_end r of
       Submitted_ok \<Rightarrow> (Inr (None, s), r)
     | Exhausted lastError \<Rightarrow>
        (case writeToDlq ops now fresh sub (case lastError of Some m \<Rightarrow> m | None \<Rightarrow> ''Unknown error'') s of
           Inl e \<Rightarrow> (Inl e, r)
         | Inr (entry, s') \<Rightarrow> (Inr (Some entry, s'), r)))"

definition retryDlqEntry :: "submission dlq_entry \<Rightarrow> (submission \<Rightarrow> string option) \<Rightarrow> bool" where
  "retryDlqEntry entry handler = (handler (dlq_payload entry) = None)"

text \<open>\<open>exists\<close> is the answer of the existence check, \<open>None\<close> when it throws.\<close>

definition submitWithIdempotence ::
  "('s, submission) queue_ops \<Rightarrow> int \<Rightarrow> string \<Rightarrow> submission \<Rightarrow> (nat \<Rightarrow> string option) \<Rightarrow> bool option \<Rightarrow> retry_config \<Rightarrow>
   's \<Rightarrow> (store_error + (submission dlq_entry option \<times> 's)) \<times> submit_run" where
  "submitWithIdempotence ops now fresh sub handler alreadyExists cfg s =
    (if alreadyExists = Some True
     then (Inr (None, s), \<lparr>sr_calls = 0, sr_waits = [], sr_end = Submitted_ok\<rparr>)
     else submitWithRetry ops now fresh sub handler cfg s)"

section \<open>The outbox table\<close>

datatype settlement_state = Active | PendingSt | Submitted | Confirmed | Quarantined

datatype chain_status = SUCCESS | FAILED | NOT_FOUND

record settlement_tx =
  tx_hash :: string
  tx_envelope :: string
  tx_expiresAt :: int

record settlement =
  st_matchId :: nat
  st_gameId :: string
  st_state :: settlement_state
  st_submission :: "submission option"
  st_transaction :: "settlement_tx option"
  st_chainStatus :: "chain_status option"
  st_attempts :: nat
  st_nextAttemptAt :: int
  st_error :: "string option"

text \<open>A row of the table: scope, match, game (its primary key) and the record.\<close>

type_synonym outbox = "((string \<times> nat \<times> string) \<times> settlement) list"

definition new_settlement :: "nat \<Rightarrow> string \<Rightarrow> settlement" where
  "new_settlement matchId gameId = \<lparr>st_matchId = matchId, st_gameId = gameId, st_state = Active,
     st_submission = None, st_transaction = None, st_chainStatus = None, st_attempts = 0,
     st_nextAttemptAt = 0, st_error = None\<rparr>"

text \<open>\<open>INSERT OR IGNORE\<close>.\<close>

definition ob_enqueue :: "string \<Rightarrow> nat \<Rightarrow> string \<Rightarrow> outbox \<Rightarrow> outbox" where
  "ob_enqueue scope matchId gameId rows =
    (if (scope, matchId, gameId) \<in> set (jm_keys rows) then rows
     else rows @ [((scope, matchId, gameId), new_settlement matchId gameId)])"

text \<open>\<open>UPDATE ... WHERE scope, match_id, game_id\<close>.\<close>

definition ob_save :: "string \<Rightarrow> settlement \<Rightarrow> outbox \<Rightarrow> outbox" where
  "ob_save scope r rows = map (\<lambda>(k, v).
     if k = (scope, st_matchId r, st_gameId r) then (k, r) else (k, v)) rows"

definition ob_list :: "string \<Rightarrow> outbox \<Rightarrow> settlement list" where
  "ob_list scope rows = map snd (sort_key (\<lambda>(k, v). fst (snd k)) (filter (\<lambda>(k, v). fst k = scope) rows))"

section \<open>One step of a settlement\<close>

text \<open>
  The responses one call of \<open>advanceSettlement\<close> receives: \<open>prepare\<close> and the two status calls
  give a value or throw (\<open>None\<close>), \<open>send\<close> and the three saves succeed or throw.
\<close>

record settlement_io =
  io_prepare :: "settlement_tx option"
  io_save_tx :: bool
  io_status :: "chain_status option"
  io_save_status :: bool
  io_send :: bool
  io_status2 :: "chain_status option"
  io_save_last :: bool

text \<open>What leaves the process: every envelope handed to the network is recorded with the table
  at that moment.\<close>

type_synonym broadcast = "string \<times> outbox"

record advance_result =
  ar_done :: bool
  ar_record :: settlement
  ar_rows :: outbox
  ar_sent :: "broadcast list"

definition advance_stop :: "settlement \<Rightarrow> outbox \<Rightarrow> broadcast list \<Rightarrow> advance_result" where
  "advance_stop r rows sent = \<lparr>ar_done = False, ar_record = r, ar_rows = rows, ar_sent = sent\<rparr>"

definition FAILED_MSG :: string where
  "FAILED_MSG = ''Transaction failed on-chain; manual review required''"

definition EXPIRED_MSG :: string where
  "EXPIRED_MSG = ''Expired transaction with uncertain outcome; reconcile hash and escrow before manual retry''"

definition advance_finish :: "string \<Rightarrow> bool \<Rightarrow> settlement \<Rightarrow> outbox \<Rightarrow> broadcast list \<Rightarrow> advance_result" where
  "advance_finish scope ok r rows sent =
    (if ok then \<lparr>ar_done = True, ar_record = r, ar_rows = ob_save scope r rows, ar_sent = sent\<rparr>
     else advance_stop r rows sent)"

text \<open>From the first status call to the end, for a record that has its transaction.\<close>

definition advance_status ::
  "string \<Rightarrow> int \<Rightarrow> settlement_io \<Rightarrow> settlement_tx \<Rightarrow> settlement \<Rightarrow> outbox \<Rightarrow> advance_result" where
  "advance_status scope now io t r rows =
    (case io_status io of
       None \<Rightarrow> advance_stop r rows []
     | Some status \<Rightarrow>
        (let r1 = r\<lparr>st_chainStatus := Some status\<rparr> in
         if status = SUCCESS then
           advance_finish scope (io_save_last io) (r1\<lparr>st_state := Confirmed, st_error := None\<rparr>) rows []
         else if status = FAILED then
           advance_finish scope (io_save_last io)
             (r1\<lparr>st_state := Quarantined, st_error := Some FAILED_MSG\<rparr>) rows []
         else if tx_expiresAt t \<le> now then
           advance_finish scope (io_save_last io)
             (r1\<lparr>st_state := Quarantined, st_error := Some EXPIRED_MSG\<rparr>) rows []
         else if \<not> io_save_status io then advance_stop r1 rows []
         else
           (let rows1 = ob_save scope r1 rows; sent = [(tx_envelope t, rows1)] in
            if \<not> io_send io then advance_stop r1 rows1 sent
            else case io_status2 io of
                None \<Rightarrow> advance_stop r1 rows1 sent
              | Some status2 \<Rightarrow>
                 (let r2 = r1\<lparr>st_chainStatus := Some status2\<rparr>;
                      r3 = (if status2 = SUCCESS then r2\<lparr>st_state := Confirmed, st_error := None\<rparr> else r2);
                      r4 = (if status2 = FAILED
                            then r3\<lparr>st_state := Quarantined, st_error := Some FAILED_MSG\<rparr> else r3)
                  in advance_finish scope (io_save_last io) r4 rows1 sent))))"

definition advanceSettlement ::
  "string \<Rightarrow> int \<Rightarrow> settlement_io \<Rightarrow> settlement \<Rightarrow> outbox \<Rightarrow> advance_result" where
  "advanceSettlement scope now io r rows =
    (if st_state r = Confirmed \<or> st_state r = Quarantined \<or> st_submission r = None
     then \<lparr>ar_done = True, ar_record = r, ar_rows = rows, ar_sent = []\<rparr>
     else case st_transaction r of
         Some t \<Rightarrow> advance_status scope now io t r rows
       | None \<Rightarrow>
          (case io_prepare io of
             None \<Rightarrow> advance_stop r rows []
           | Some t \<Rightarrow>
              (let r1 = r\<lparr>st_transaction := Some t, st_state := Submitted\<rparr> in
               if \<not> io_save_tx io then advance_stop r1 rows []
               else advance_status scope now io t r1 (ob_save scope r1 rows))))"

section \<open>The escrow match the settlement is bound to\<close>

record chain_match =
  cm_id :: int
  cm_game_id :: string
  cm_player1 :: string
  cm_player2 :: string
  cm_platform :: "string list"
  cm_state :: "string list"

definition chain_platform :: "string \<Rightarrow> string option" where
  "chain_platform p = (if p = ''lichess'' then Some ''Lichess''
     else if p = ''chessdotcom'' then Some ''ChessDotCom'' else None)"

text \<open>\<open>True\<close> when \<open>assertChainBinding\<close> returns, \<open>False\<close> when it throws. Reading
  \<open>platform[0]\<close> of an empty list gives \<open>undefined\<close>, which equals no name.\<close>

definition assertChainBinding :: "match_record \<Rightarrow> chain_match \<Rightarrow> bool" where
  "assertChainBinding m c =
    (let platform = chain_platform (m_platform m) in
     \<not> (cm_id c \<noteq> int (m_matchId m) \<or> cm_game_id c \<noteq> m_gameId m \<or> cm_player1 c \<noteq> m_player1 m \<or>
        cm_player2 c \<noteq> m_player2 m \<or> platform = None \<or>
        (case cm_platform c of [] \<Rightarrow> None | p # _ \<Rightarrow> Some p) \<noteq> platform))"

section \<open>The registry transport\<close>

definition game_id_char :: "char \<Rightarrow> bool" where
  "game_id_char c = (let n = (of_char c :: nat) in
     (48 \<le> n \<and> n \<le> 57) \<or> (65 \<le> n \<and> n \<le> 90) \<or> (97 \<le> n \<and> n \<le> 122) \<or> n = 95 \<or> n = 45)"

datatype transport_error =
    InvalidSubmission
  | RpcThrew
  | RpcRejected
  | TransactionFailed
  | ConfirmationPending

record transport_io =
  ti_account :: bool
  ti_prepare :: bool
  ti_sent :: "string option"
  ti_poll :: "nat \<Rightarrow> chain_status option"

definition valid_submission :: "submission \<Rightarrow> bool" where
  "valid_submission sub =
    (\<bar>sub_matchId sub\<bar> \<le> 2 ^ 53 - 1 \<and> 0 < sub_matchId sub \<and>
     1 \<le> length (sub_gameId sub) \<and> length (sub_gameId sub) \<le> 64 \<and> list_all game_id_char (sub_gameId sub))"

text \<open>The confirmation loop, \<open>left\<close> polls before the limit of ten; the second result counts the
  one-second waits.\<close>

fun poll_confirmation :: "(nat \<Rightarrow> chain_status option) \<Rightarrow> nat \<Rightarrow> nat \<Rightarrow> (transport_error option) \<times> nat" where
  "poll_confirmation poll attempt 0 = (Some ConfirmationPending, attempt)"
| "poll_confirmation poll attempt (Suc left) =
    (case poll attempt of
       None \<Rightarrow> (Some RpcThrew, attempt)
     | Some SUCCESS \<Rightarrow> (None, attempt)
     | Some FAILED \<Rightarrow> (Some TransactionFailed, attempt)
     | Some NOT_FOUND \<Rightarrow> poll_confirmation poll (Suc attempt) left)"

text \<open>The first result is \<open>None\<close> when \<open>submit\<close> returns; the flag tells whether a transaction was
  handed to the network.\<close>

definition transport_submit :: "transport_io \<Rightarrow> submission \<Rightarrow> transport_error option \<times> bool \<times> nat" where
  "transport_submit io sub =
    (if \<not> valid_submission sub then (Some InvalidSubmission, False, 0)
     else if \<not> ti_account io then (Some RpcThrew, False, 0)
     else if \<not> ti_prepare io then (Some RpcThrew, False, 0)
     else case ti_sent io of
        None \<Rightarrow> (Some RpcThrew, True, 0)
      | Some st \<Rightarrow>
         if st \<notin> {''PENDING'', ''DUPLICATE''} then (Some RpcRejected, True, 0)
         else (let (e, n) = poll_confirmation (ti_poll io) 0 10 in (e, True, n)))"

section \<open>Lemmas: the retry loop\<close>

lemma submit_loop_success:
  assumes "maxRetries cfg = Some mx" and "int n \<le> mx" and "handler n = None"
    and "\<And>k. attempt \<le> k \<Longrightarrow> k < n \<Longrightarrow> handler k \<noteq> None" and "attempt \<le> n"
  shows "submit_loop cfg handler attempt le waits = \<lparr>sr_calls = Suc n,
    sr_waits = waits @ map (\<lambda>k. (calculateBackoffDelay (k + 1) cfg, timer_ms (calculateBackoffDelay k cfg))) [attempt..<n],
    sr_end = Submitted_ok\<rparr>"
  using assms(4,5)
proof (induction "n - attempt" arbitrary: attempt le waits)
  case 0
  then show ?case using assms(1-3) by (subst submit_loop.simps) simp
next
  case (Suc d)
  then obtain m where m: "handler attempt = Some m" by (metis diff_is_0_eq nat.distinct(1) not_le order_refl option.exhaust)
  have lt: "attempt < n" using Suc by simp
  have "submit_loop cfg handler attempt le waits = submit_loop cfg handler (Suc attempt) (Some m)
      (waits @ [(calculateBackoffDelay (attempt + 1) cfg, timer_ms (calculateBackoffDelay attempt cfg))])"
    using assms(1,2) m lt by (subst submit_loop.simps) simp
  then show ?case using Suc.hyps(1)[of "Suc attempt"] Suc.hyps(2) Suc.prems lt by (simp add: upt_conv_Cons)
qed

lemma submit_loop_exhausted:
  assumes "maxRetries cfg = Some (int mx)"
    and "\<And>k. attempt \<le> k \<Longrightarrow> k \<le> mx \<Longrightarrow> handler k \<noteq> None" and "attempt \<le> Suc mx"
  shows "submit_loop cfg handler attempt le waits = \<lparr>sr_calls = Suc mx,
    sr_waits = waits @ map (\<lambda>k. (calculateBackoffDelay (k + 1) cfg, timer_ms (calculateBackoffDelay k cfg))) [attempt..<mx],
    sr_end = Exhausted (if attempt = Suc mx then le else handler mx)\<rparr>"
  using assms(2,3)
proof (induction "Suc mx - attempt" arbitrary: attempt le waits)
  case 0
  then show ?case using assms(1) by (subst submit_loop.simps) simp
next
  case (Suc d)
  then obtain m where m: "handler attempt = Some m"
    by (metis diff_is_0_eq nat.distinct(1) not_less_eq_eq order_refl option.exhaust)
  have le: "attempt \<le> mx" using Suc by simp
  have "submit_loop cfg handler attempt le waits = submit_loop cfg handler (Suc attempt) (Some m)
      (if attempt < mx then waits @ [(calculateBackoffDelay (attempt + 1) cfg, timer_ms (calculateBackoffDelay attempt cfg))]
       else waits)"
    using assms(1) m le by (subst submit_loop.simps) simp
  then show ?case using Suc.hyps(1)[of "Suc attempt"] Suc.hyps(2) Suc.prems le m
    by (auto simp: upt_conv_Cons)
qed

lemma submit_loop_never:
  assumes "case maxRetries cfg of None \<Rightarrow> True | Some mx \<Rightarrow> mx < 0"
  shows "submit_loop cfg handler 0 le waits = \<lparr>sr_calls = 0, sr_waits = waits, sr_end = Exhausted le\<rparr>"
  using assms by (subst submit_loop.simps) (auto split: option.splits)

section \<open>Lemmas: the outbox\<close>

definition ob_key :: "string \<Rightarrow> settlement \<Rightarrow> string \<times> nat \<times> string" where
  "ob_key scope r = (scope, st_matchId r, st_gameId r)"

definition ob_inv :: "outbox \<Rightarrow> bool" where
  "ob_inv rows \<longleftrightarrow> jm_ok rows \<and> (\<forall>(k, r) \<in> set rows. snd k = (st_matchId r, st_gameId r))"

lemma ob_save_keys [simp]: "jm_keys (ob_save scope r rows) = jm_keys rows"
  by (induction rows) (auto simp: ob_save_def)

lemma map_of_map_key: "map_of (map (\<lambda>(k, v). (k, f k v)) m) k = map_option (f k) (map_of m k)"
  by (induction m) auto

lemma ob_save_get:
  "map_of (ob_save scope r rows) k =
    (if k = ob_key scope r \<and> map_of rows k \<noteq> None then Some r else map_of rows k)"
proof -
  have "ob_save scope r rows = map (\<lambda>(k, v). (k, if k = ob_key scope r then r else v)) rows"
    by (auto simp: ob_save_def ob_key_def)
  then show ?thesis by (cases "map_of rows k") (simp_all add: map_of_map_key)
qed

lemma ob_save_inv: "ob_inv rows \<Longrightarrow> ob_inv (ob_save scope r rows)"
proof -
  assume "ob_inv rows"
  then have "jm_ok (ob_save scope r rows)" by (metis ob_inv_def jm_ok_def ob_save_keys)
  moreover have "\<forall>(k, v) \<in> set (ob_save scope r rows). snd k = (st_matchId v, st_gameId v)"
    using \<open>ob_inv rows\<close> by (fastforce simp: ob_inv_def ob_save_def split: if_splits)
  ultimately show ?thesis by (simp add: ob_inv_def)
qed

lemma ob_enqueue_inv: "ob_inv rows \<Longrightarrow> ob_inv (ob_enqueue scope m g rows)"
  by (auto simp: ob_inv_def ob_enqueue_def new_settlement_def jm_ok_def)

lemma ob_enqueue_get:
  "map_of (ob_enqueue scope m g rows) k =
    (if map_of rows k = None \<and> k = (scope, m, g) then Some (new_settlement m g) else map_of rows k)"
proof -
  have "map_of rows (scope, m, g) = None \<longleftrightarrow> (scope, m, g) \<notin> set (jm_keys rows)"
    by (simp add: map_of_eq_None_iff)
  then show ?thesis
    by (auto simp: ob_enqueue_def map_add_def simp del: set_map split: option.splits)
qed

lemma ob_list_mem:
  assumes "ob_inv rows"
  shows "r \<in> set (ob_list scope rows) \<longleftrightarrow> map_of rows (ob_key scope r) = Some r"
proof -
  have "map_of rows (ob_key scope r) = Some r \<longleftrightarrow> (ob_key scope r, r) \<in> set rows"
    using assms by (auto simp: ob_inv_def jm_get_iff)
  also have "\<dots> \<longleftrightarrow> r \<in> set (ob_list scope rows)"
    using assms by (force simp: ob_inv_def ob_list_def ob_key_def image_iff)
  finally show ?thesis by simp
qed

text \<open>What a step may do to the table: it saves records of its own key only.\<close>

lemma advance_finish_sel [simp]:
  "ar_sent (advance_finish scope ok r rows sent) = sent"
  "ar_sent (advance_stop r rows sent) = sent"
  "ar_rows (advance_finish scope ok r rows sent) = (if ok then ob_save scope r rows else rows)"
  "ar_rows (advance_stop r rows sent) = rows"
  "ar_record (advance_finish scope ok r rows sent) = r"
  "ar_record (advance_stop r rows sent) = r"
  "ar_done (advance_finish scope ok r rows sent) = ok"
  "\<not> ar_done (advance_stop r rows sent)"
  by (simp_all add: advance_finish_def advance_stop_def)

lemmas advance_defs = advance_status_def advanceSettlement_def Let_def

lemma ob_key_upd [simp]:
  "ob_key scope (r\<lparr>st_state := a\<rparr>) = ob_key scope r"
  "ob_key scope (r\<lparr>st_chainStatus := b\<rparr>) = ob_key scope r"
  "ob_key scope (r\<lparr>st_error := c\<rparr>) = ob_key scope r"
  "ob_key scope (r\<lparr>st_transaction := d\<rparr>) = ob_key scope r"
  "ob_key scope (r\<lparr>st_submission := e\<rparr>) = ob_key scope r"
  by (simp_all add: ob_key_def)

lemma advance_status_inv:
  assumes "ob_inv rows"
  shows "ob_inv (ar_rows (advance_status scope now io t r rows))"
  using assms by (cases "io_status io"; cases "io_status2 io") (auto simp: advance_status_def Let_def ob_save_inv)

lemma advance_status_other:
  assumes "k \<noteq> ob_key scope r"
  shows "map_of (ar_rows (advance_status scope now io t r rows)) k = map_of rows k"
  using assms by (cases "io_status io"; cases "io_status2 io") (auto simp: advance_status_def Let_def ob_save_get)

lemma advance_status_tx:
  assumes "map_of rows (ob_key scope r) = Some r0" and "st_transaction r0 = Some t" and "st_transaction r = Some t"
  shows "\<exists>r'. map_of (ar_rows (advance_status scope now io t r rows)) (ob_key scope r) = Some r' \<and>
    st_transaction r' = Some t"
  using assms by (cases "io_status io"; cases "io_status2 io") (auto simp: advance_status_def Let_def ob_save_get)

lemma advance_status_sent:
  assumes "map_of rows (ob_key scope r) \<noteq> None" and "st_transaction r = Some t"
    and "(env, rows1) \<in> set (ar_sent (advance_status scope now io t r rows))"
  shows "env = tx_envelope t \<and> now < tx_expiresAt t \<and>
    (\<exists>r1. map_of rows1 (ob_key scope r) = Some r1 \<and> st_transaction r1 = Some t)"
proof (cases "io_status io")
  case (Some st)
  with assms have st: "st \<noteq> SUCCESS" "st \<noteq> FAILED" "\<not> tx_expiresAt t \<le> now" "io_save_status io"
    by (auto simp: advance_status_def Let_def split: if_splits)
  with Some assms(3) have "(env, rows1) = (tx_envelope t, ob_save scope (r\<lparr>st_chainStatus := Some st\<rparr>) rows)"
    by (cases "io_status2 io") (auto simp: advance_status_def Let_def split: if_splits)
  with st assms(1,2) show ?thesis by (auto simp: ob_save_get)
qed (use assms in \<open>simp add: advance_status_def\<close>)

text \<open>The transaction a step works with: the one in the record, or the one prepared and saved.\<close>

lemma advance_cases:
  obtains (idle) "ar_rows (advanceSettlement scope now io r rows) = rows"
      "ar_sent (advanceSettlement scope now io r rows) = []"
  | (resume) t where "st_transaction r = Some t"
      "advanceSettlement scope now io r rows = advance_status scope now io t r rows"
  | (prepare) t where "st_transaction r = None" "io_prepare io = Some t"
      "advanceSettlement scope now io r rows = advance_status scope now io t
        (r\<lparr>st_transaction := Some t, st_state := Submitted\<rparr>)
        (ob_save scope (r\<lparr>st_transaction := Some t, st_state := Submitted\<rparr>) rows)"
proof (cases "st_state r = Confirmed \<or> st_state r = Quarantined \<or> st_submission r = None")
  case True
  then show ?thesis by (intro idle) (auto simp: advanceSettlement_def)
next
  case False
  show ?thesis
  proof (cases "st_transaction r")
    case (Some t)
    with False show ?thesis by (intro resume[of t]) (auto simp: advanceSettlement_def)
  next
    case None
    show ?thesis
    proof (cases "io_prepare io")
      case (Some t)
      show ?thesis
      proof (cases "io_save_tx io")
        case True
        with None False Some show ?thesis by (intro prepare[of t]) (auto simp: advanceSettlement_def Let_def)
      qed (use None False Some in \<open>intro idle, auto simp: advanceSettlement_def Let_def\<close>)
    qed (use None False in \<open>intro idle, auto simp: advanceSettlement_def\<close>)
  qed
qed

lemma advance_inv:
  assumes "ob_inv rows"
  shows "ob_inv (ar_rows (advanceSettlement scope now io r rows))"
  by (rule advance_cases[of scope now io r rows]) (simp_all add: assms advance_status_inv ob_save_inv)

lemma advance_other:
  assumes "k \<noteq> ob_key scope r"
  shows "map_of (ar_rows (advanceSettlement scope now io r rows)) k = map_of rows k"
  by (rule advance_cases[of scope now io r rows]) (simp_all add: assms advance_status_other ob_save_get)

text \<open>A step never replaces a transaction that is in the table.\<close>

lemma advance_keeps_tx:
  assumes "map_of rows (ob_key scope r) = Some r" and "st_transaction r = Some t"
  shows "\<exists>r'. map_of (ar_rows (advanceSettlement scope now io r rows)) (ob_key scope r) = Some r' \<and>
    st_transaction r' = Some t"
  using assms advance_status_tx[of rows scope r r t now io]
  by (cases rule: advance_cases[of scope now io r rows]) auto

text \<open>What a step broadcasts is the envelope of the transaction that is in the table, both at
  the moment of the broadcast and after the step.\<close>

lemma advance_sent:
  assumes "map_of rows (ob_key scope r) = Some r"
    and "(env, rows1) \<in> set (ar_sent (advanceSettlement scope now io r rows))"
  shows "\<exists>t r1 r2. env = tx_envelope t \<and> now < tx_expiresAt t \<and>
    map_of rows1 (ob_key scope r) = Some r1 \<and> st_transaction r1 = Some t \<and>
    map_of (ar_rows (advanceSettlement scope now io r rows)) (ob_key scope r) = Some r2 \<and>
    st_transaction r2 = Some t"
proof (cases rule: advance_cases[of scope now io r rows])
  case idle
  with assms show ?thesis by simp
next
  case (resume t)
  with assms show ?thesis
    using advance_status_sent[of rows scope r t env rows1 now io] advance_status_tx[of rows scope r r t now io]
    by auto
next
  case (prepare t)
  let ?r = "r\<lparr>st_transaction := Some t, st_state := Submitted\<rparr>"
  have k: "ob_key scope ?r = ob_key scope r" by simp
  have "map_of (ob_save scope ?r rows) (ob_key scope ?r) = Some ?r"
    using assms(1) by (simp add: ob_save_get)
  with prepare assms(2) show ?thesis
    using advance_status_sent[of "ob_save scope ?r rows" scope ?r t env rows1 now io]
      advance_status_tx[of "ob_save scope ?r rows" scope ?r ?r t now io] unfolding k
    by auto
qed

section \<open>Every run of the outbox\<close>

text \<open>
  What the process and its operators do to one outbox, in any order and with any answers of the
  network: enqueue a match, attach a submission to a record that has no transaction yet, and
  advance a record read from the table. A crash is a step whose calls stop answering. \<open>sent\<close> lists
  the envelopes handed to the network with the key they were sent for.
\<close>

inductive outbox_run :: "string \<Rightarrow> outbox \<Rightarrow> ((string \<times> nat \<times> string) \<times> string) list \<Rightarrow> bool" for scope where
  start: "outbox_run scope [] []"
| enqueue: "outbox_run scope rows sent \<Longrightarrow> outbox_run scope (ob_enqueue scope m g rows) sent"
| submit: "outbox_run scope rows sent \<Longrightarrow> r \<in> set (ob_list scope rows) \<Longrightarrow> st_transaction r = None \<Longrightarrow>
    outbox_run scope (ob_save scope (r\<lparr>st_submission := Some sub, st_state := PendingSt\<rparr>) rows) sent"
| advance: "outbox_run scope rows sent \<Longrightarrow> r \<in> set (ob_list scope rows) \<Longrightarrow>
    outbox_run scope (ar_rows (advanceSettlement scope now io r rows))
      (sent @ map (\<lambda>(env, _). (ob_key scope r, env)) (ar_sent (advanceSettlement scope now io r rows)))"

definition holds_envelope :: "outbox \<Rightarrow> string \<times> nat \<times> string \<Rightarrow> string \<Rightarrow> bool" where
  "holds_envelope rows k e \<longleftrightarrow>
    (\<exists>r t. map_of rows k = Some r \<and> st_transaction r = Some t \<and> e = tx_envelope t)"

lemma advance_holds:
  assumes "map_of rows (ob_key scope r) = Some r" and "holds_envelope rows k e"
  shows "holds_envelope (ar_rows (advanceSettlement scope now io r rows)) k e"
proof (cases "k = ob_key scope r")
  case True
  with assms obtain t where t: "st_transaction r = Some t" "e = tx_envelope t" by (auto simp: holds_envelope_def)
  from advance_keeps_tx[OF assms(1) t(1), of now io] t(2) True show ?thesis unfolding holds_envelope_def by blast
next
  case False
  with assms(2) show ?thesis by (simp add: holds_envelope_def advance_other)
qed

lemma outbox_run_inv:
  "outbox_run scope rows sent \<Longrightarrow> ob_inv rows \<and> (\<forall>(k, e) \<in> set sent. holds_envelope rows k e)"
proof (induction rule: outbox_run.induct)
  case start
  then show ?case by (simp add: ob_inv_def)
next
  case (enqueue rows sent m g)
  have "holds_envelope (ob_enqueue scope m g rows) k e" if "holds_envelope rows k e" for k e
    using that by (auto simp: holds_envelope_def ob_enqueue_get)
  with enqueue.IH show ?case by (auto simp: ob_enqueue_inv)
next
  case (submit rows sent r sub)
  then have get: "map_of rows (ob_key scope r) = Some r" using ob_list_mem by auto
  let ?r = "r\<lparr>st_submission := Some sub, st_state := PendingSt\<rparr>"
  have "holds_envelope (ob_save scope ?r rows) k e" if "holds_envelope rows k e" for k e
    using that get submit.hyps(3) by (auto simp: holds_envelope_def ob_save_get)
  moreover have "ob_inv (ob_save scope ?r rows)" using submit.IH ob_save_inv by blast
  ultimately show ?case using submit.IH by (auto simp del: fun_upd_apply)
next
  case (advance rows sent r now io)
  then have inv: "ob_inv rows" and get: "map_of rows (ob_key scope r) = Some r" using ob_list_mem by auto
  let ?a = "advanceSettlement scope now io r rows"
  have new: "holds_envelope (ar_rows ?a) (ob_key scope r) e" if "(e, rows1) \<in> set (ar_sent ?a)" for e rows1
    using advance_sent[OF get that] by (auto simp: holds_envelope_def)
  have "holds_envelope (ar_rows ?a) k e"
    if "(k, e) \<in> set (sent @ map (\<lambda>(env, _). (ob_key scope r, env)) (ar_sent ?a))" for k e
  proof (cases "(k, e) \<in> set sent")
    case True
    then show ?thesis using advance.IH advance_holds[OF get] by blast
  next
    case False
    with that obtain rows1 where "k = ob_key scope r" "(e, rows1) \<in> set (ar_sent ?a)" by auto
    with new show ?thesis by blast
  qed
  then show ?case using advance_inv[OF inv] by blast
qed

section \<open>Properties\<close>

definition sub_ex :: submission where
  "sub_ex = \<lparr>sub_decisionId = None, sub_matchId = 7, sub_gameId = ''abcd1234'', sub_result = Player1Wins\<rparr>"

definition tx_ex :: settlement_tx where
  "tx_ex = \<lparr>tx_hash = ''h'', tx_envelope = ''AAAA'', tx_expiresAt = 120000\<rparr>"

definition settle_ex :: settlement where
  "settle_ex = (new_settlement 7 ''abcd1234'')\<lparr>st_submission := Some sub_ex, st_state := PendingSt\<rparr>"

definition io_lost_send :: settlement_io where
  "io_lost_send = \<lparr>io_prepare = Some tx_ex, io_save_tx = True, io_status = Some NOT_FOUND,
     io_save_status = True, io_send = False, io_status2 = None, io_save_last = True\<rparr>"

definition cfg_ex :: retry_config where
  "cfg_ex = \<lparr>maxRetries = Some 2, baseDelayMs = Some 1000, maxDelayMs = Some 60000\<rparr>"

lemmas settle_eval = settle_ex_def io_lost_send_def sub_ex_def tx_ex_def new_settlement_def ob_enqueue_def
  ob_list_def ob_save_def advance_status_def advanceSettlement_def advance_stop_def advance_finish_def Let_def

text \<open>C1. A settlement is never broadcast as two different transactions: in every run of the
  outbox, with any failure of the network or of the database and any crash, all envelopes ever
  handed to the network for a match are the same bytes, those of the transaction the table holds.\<close>

theorem settlement_single_broadcast:
  assumes "outbox_run scope rows sent" and "(k, e) \<in> set sent" and "(k, e') \<in> set sent"
  shows "e = e' \<and> (\<exists>r t. map_of rows k = Some r \<and> st_transaction r = Some t \<and> tx_envelope t = e)"
proof -
  have "\<exists>r t. map_of rows k = Some r \<and> st_transaction r = Some t \<and> e = tx_envelope t"
    "\<exists>r t. map_of rows k = Some r \<and> st_transaction r = Some t \<and> e' = tx_envelope t"
    using outbox_run_inv[OF assms(1)] assms(2,3) by (auto simp: holds_envelope_def)
  then show ?thesis by auto
qed

lemma outbox_run_ex:
  "outbox_run ''s'' [((''s'', 7, ''abcd1234''), settle_ex\<lparr>st_transaction := Some tx_ex, st_state := Submitted,
      st_chainStatus := Some NOT_FOUND\<rparr>)] [((''s'', 7, ''abcd1234''), ''AAAA'')]"
proof -
  have a: "outbox_run ''s'' [((''s'', 7, ''abcd1234''), new_settlement 7 ''abcd1234'')] []"
    using outbox_run.enqueue[OF outbox_run.start, of "''s''" 7 "''abcd1234''"] by (simp add: ob_enqueue_def)
  have b: "outbox_run ''s'' [((''s'', 7, ''abcd1234''), settle_ex)] []"
    using outbox_run.submit[OF a, of "new_settlement 7 ''abcd1234''" sub_ex]
    by (simp add: ob_list_def ob_save_def settle_ex_def new_settlement_def)
  show ?thesis
    using outbox_run.advance[OF b, of settle_ex 0 io_lost_send] by (simp add: settle_eval ob_key_def)
qed

theorem settlement_single_broadcast_witness:
  "\<exists>r t. map_of [((''s'', 7::nat, ''abcd1234''), settle_ex\<lparr>st_transaction := Some tx_ex, st_state := Submitted,
      st_chainStatus := Some NOT_FOUND\<rparr>)] (''s'', 7, ''abcd1234'') = Some r \<and>
    st_transaction r = Some t \<and> tx_envelope t = ''AAAA''"
  using settlement_single_broadcast[OF outbox_run_ex, of "(''s'', 7, ''abcd1234'')" "''AAAA''" "''AAAA''"] by simp

text \<open>The outbox is a write-ahead log: at the moment an envelope is handed to the network the
  table already holds the transaction it belongs to, the transaction has not expired, and the step
  leaves it in the table.\<close>

lemma settlement_saved_before_sent:
  assumes "ob_inv rows" and "r \<in> set (ob_list scope rows)"
    and "(env, rows1) \<in> set (ar_sent (advanceSettlement scope now io r rows))"
  shows "\<exists>t r1 r2. env = tx_envelope t \<and> now < tx_expiresAt t \<and>
    map_of rows1 (ob_key scope r) = Some r1 \<and> st_transaction r1 = Some t \<and>
    map_of (ar_rows (advanceSettlement scope now io r rows)) (ob_key scope r) = Some r2 \<and>
    st_transaction r2 = Some t"
  using advance_sent[OF _ assms(3)] assms(1,2) ob_list_mem by blast

lemma settlement_saved_before_sent_example:
  "\<exists>r1. map_of (ob_save ''s'' (settle_ex\<lparr>st_transaction := Some tx_ex, st_state := Submitted,
      st_chainStatus := Some NOT_FOUND\<rparr>) [((''s'', 7, ''abcd1234''), settle_ex)]) (ob_key ''s'' settle_ex) = Some r1 \<and>
    st_transaction r1 = Some tx_ex"
proof -
  let ?rows = "[((''s'', 7::nat, ''abcd1234''), settle_ex)]"
  let ?rows1 = "ob_save ''s'' (settle_ex\<lparr>st_transaction := Some tx_ex, st_state := Submitted,
      st_chainStatus := Some NOT_FOUND\<rparr>) ?rows"
  have i: "ob_inv ?rows" "settle_ex \<in> set (ob_list ''s'' ?rows)"
    by (simp_all add: ob_inv_def jm_ok_def settle_eval)
  have m: "(''AAAA'', ?rows1) \<in> set (ar_sent (advanceSettlement ''s'' 0 io_lost_send settle_ex ?rows))"
    by (simp add: settle_eval)
  from settlement_saved_before_sent[OF i m] show ?thesis by (auto simp: settle_eval ob_key_def)
qed

text \<open>What one step makes of a settlement that has its transaction, when the database works: a
  transaction found on chain is confirmed or quarantined by its status, one that is unknown after
  its expiry is quarantined, and none of these is broadcast again; one that is unknown before its
  expiry is broadcast once and, when the broadcast throws, stays submitted for the next step.\<close>

lemma settlement_step_outcomes:
  assumes "map_of rows (ob_key scope r) = Some r" and "st_state r = Submitted" and "st_submission r \<noteq> None"
    and "st_transaction r = Some t" and "io_status io = Some status" and "io_save_status io" and "io_save_last io"
    and "a = advanceSettlement scope now io r rows" and "map_of (ar_rows a) (ob_key scope r) = Some r'"
  shows "(status = SUCCESS \<longrightarrow> st_state r' = Confirmed \<and> st_error r' = None \<and> ar_sent a = []) \<and>
    (status = FAILED \<longrightarrow> st_state r' = Quarantined \<and> st_error r' = Some FAILED_MSG \<and> ar_sent a = []) \<and>
    (status = NOT_FOUND \<and> tx_expiresAt t \<le> now \<longrightarrow>
       st_state r' = Quarantined \<and> st_error r' = Some EXPIRED_MSG \<and> ar_sent a = []) \<and>
    (status = NOT_FOUND \<and> now < tx_expiresAt t \<longrightarrow> map fst (ar_sent a) = [tx_envelope t] \<and>
       (\<not> io_send io \<longrightarrow> \<not> ar_done a \<and> r' = r\<lparr>st_chainStatus := Some NOT_FOUND\<rparr>) \<and>
       (io_send io \<and> io_status2 io = Some SUCCESS \<longrightarrow> ar_done a \<and> st_state r' = Confirmed)) \<and>
    st_transaction r' = Some t"
proof -
  have a: "a = advance_status scope now io t r rows"
    using assms(2-4,8) by (auto simp: advanceSettlement_def)
  have r': "map_of (ar_rows (advance_status scope now io t r rows)) (ob_key scope r) = Some r'"
    using assms(9) a by simp
  show ?thesis
  proof (cases status)
    case NOT_FOUND
    let ?r1 = "r\<lparr>st_chainStatus := Some NOT_FOUND\<rparr>"
    let ?rows1 = "ob_save scope ?r1 rows"
    show ?thesis
    proof (cases "tx_expiresAt t \<le> now")
      case True
      with NOT_FOUND r' assms(1-7) a show ?thesis
        by (auto simp: advance_status_def Let_def ob_save_get)
    next
      case live: False
      show ?thesis
      proof (cases "io_send io \<and> io_status2 io \<noteq> None")
        case False
        then have "a = advance_stop ?r1 ?rows1 [(tx_envelope t, ?rows1)]"
          using NOT_FOUND live assms(5,6) unfolding a by (auto simp: advance_status_def Let_def)
        with False live NOT_FOUND assms(1,4,9) show ?thesis by (auto simp: ob_save_get)
      next
        case True
        then obtain st2 where "io_send io" "io_status2 io = Some st2" by blast
        with live NOT_FOUND r' assms(1-7) a show ?thesis
          by (cases st2) (auto simp: advance_status_def Let_def ob_save_get)
      qed
    qed
  qed (use r' assms(1-7) a in \<open>auto simp: advance_status_def Let_def ob_save_get\<close>)
qed

lemma settlement_step_outcomes_example:
  "st_state (settle_ex\<lparr>st_transaction := Some tx_ex, st_state := Submitted, st_chainStatus := Some NOT_FOUND\<rparr>) = Submitted \<and>
   map fst (ar_sent (advanceSettlement ''s'' 0 io_lost_send (settle_ex\<lparr>st_transaction := Some tx_ex, st_state := Submitted\<rparr>)
     [((''s'', 7, ''abcd1234''), settle_ex\<lparr>st_transaction := Some tx_ex, st_state := Submitted\<rparr>)])) = [''AAAA'']"
proof -
  let ?r = "settle_ex\<lparr>st_transaction := Some tx_ex, st_state := Submitted\<rparr>"
  let ?rows = "[((''s'', 7::nat, ''abcd1234''), ?r)]"
  let ?r' = "settle_ex\<lparr>st_transaction := Some tx_ex, st_state := Submitted, st_chainStatus := Some NOT_FOUND\<rparr>"
  have "map_of ?rows (ob_key ''s'' ?r) = Some ?r" by (simp add: settle_eval ob_key_def)
  moreover have "map_of (ar_rows (advanceSettlement ''s'' 0 io_lost_send ?r ?rows)) (ob_key ''s'' ?r) = Some ?r'"
    by (simp add: settle_eval ob_key_def)
  ultimately show ?thesis
    using settlement_step_outcomes[of ?rows "''s''" ?r tx_ex io_lost_send NOT_FOUND
        "advanceSettlement ''s'' 0 io_lost_send ?r ?rows" 0 ?r']
    by (simp add: settle_eval)
qed

text \<open>The outcome of a submission: with \<open>mx\<close> retries configured, the handler is called until it
  first succeeds and the queue is left alone; when all \<open>mx + 1\<close> calls fail, the submission is in the
  queue once more, with the message of the last failure and no attempt counted.\<close>

lemma submit_retry_outcome:
  assumes "maxRetries cfg = Some (int mx)" and "sql_inv s" and "0 \<le> now" and "fresh \<notin> r_id ` set s"
  shows "(\<forall>n \<le> mx. handler n = None \<and> (\<forall>k < n. handler k \<noteq> None) \<longrightarrow>
      fst (submitWithRetry sql_ops now fresh sub handler cfg s) = Inr (None, s) \<and>
      sr_calls (snd (submitWithRetry sql_ops now fresh sub handler cfg s)) = Suc n) \<and>
    ((\<forall>n \<le> mx. handler n \<noteq> None) \<longrightarrow>
      (\<exists>e s'. fst (submitWithRetry sql_ops now fresh sub handler cfg s) = Inr (Some e, s') \<and>
        sr_calls (snd (submitWithRetry sql_ops now fresh sub handler cfg s)) = Suc mx \<and>
        sql_inv s' \<and> sql_live now s' = (sql_live now s)(fresh \<mapsto> sql_norm e) \<and>
        dlq_payload e = sub \<and> Some (dlq_failureReason e) = handler mx \<and> dlq_attempts e = 0))"
proof (intro conjI allI impI)
  fix n assume n: "n \<le> mx" "handler n = None \<and> (\<forall>k < n. handler k \<noteq> None)"
  then show "fst (submitWithRetry sql_ops now fresh sub handler cfg s) = Inr (None, s)"
    "sr_calls (snd (submitWithRetry sql_ops now fresh sub handler cfg s)) = Suc n"
    using submit_loop_success[OF assms(1), of n handler 0 None "[]"] by (simp_all add: submitWithRetry_def)
next
  assume f: "\<forall>n \<le> mx. handler n \<noteq> None"
  then obtain msg where msg: "handler mx = Some msg" by blast
  have l: "sr_calls (submit_loop cfg handler 0 None []) = Suc mx"
    "sr_end (submit_loop cfg handler 0 None []) = Exhausted (Some msg)"
    using submit_loop_exhausted[OF assms(1), of 0 handler None "[]"] f msg by simp_all
  obtain e s' where "writeToDlq sql_ops now fresh sub msg s = Inr (e, s')" "sql_inv s'"
    "sql_live now s' = (sql_live now s)(fresh \<mapsto> sql_norm e)" "dlq_payload e = sub"
    "dlq_failureReason e = msg" "dlq_attempts e = 0"
    using sqlq.writeToDlq_live[OF assms(2,3), of fresh sub msg] assms(4) by (auto simp del: fun_upd_apply)
  then show "\<exists>e s'. fst (submitWithRetry sql_ops now fresh sub handler cfg s) = Inr (Some e, s') \<and>
        sr_calls (snd (submitWithRetry sql_ops now fresh sub handler cfg s)) = Suc mx \<and>
        sql_inv s' \<and> sql_live now s' = (sql_live now s)(fresh \<mapsto> sql_norm e) \<and>
        dlq_payload e = sub \<and> Some (dlq_failureReason e) = handler mx \<and> dlq_attempts e = 0"
    using l msg by (intro exI[of _ e] exI[of _ s']) (simp add: submitWithRetry_def del: fun_upd_apply)
qed

lemma submit_retry_outcome_example:
  "\<exists>e s'. fst (submitWithRetry sql_ops 5 ''k'' sub_ex (\<lambda>n. Some ''down'') cfg_ex []) = Inr (Some e, s') \<and>
    dlq_failureReason e = ''down''"
  using submit_retry_outcome[of cfg_ex 2 "[]" 5 "''k''" "\<lambda>n. Some ''down''" sub_ex]
  by (auto simp: cfg_ex_def sql_inv_def)

text \<open>A retry count that is no number, or negative, does not mean no retries: the submission is
  then never attempted at all and goes to the dead-letter queue as an unknown error.\<close>

lemma submit_bad_retry_count:
  assumes "case js_parseInt raw of None \<Rightarrow> True | Some n \<Rightarrow> n < 0"
    and "env ''ORACLE_MAX_RETRIES'' = Some raw" and "writeToDlq ops now fresh sub ''Unknown error'' s = Inr (e, s')"
  shows "submitWithRetry ops now fresh sub handler (loadRetryConfig env) s =
    (Inr (Some e, s'), \<lparr>sr_calls = 0, sr_waits = [], sr_end = Exhausted None\<rparr>)"
proof -
  have "case maxRetries (loadRetryConfig env) of None \<Rightarrow> True | Some mx \<Rightarrow> mx < 0"
    using assms(1,2) by (simp add: loadRetryConfig_def)
  from submit_loop_never[OF this] assms(3) show ?thesis by (simp add: submitWithRetry_def)
qed

lemma submit_bad_retry_count_example:
  "\<exists>e s'. submitWithRetry sql_ops 5 ''k'' sub_ex (\<lambda>n. None) (loadRetryConfig (\<lambda>v. Some ''five'')) [] =
    (Inr (Some e, s'), \<lparr>sr_calls = 0, sr_waits = [], sr_end = Exhausted None\<rparr>)"
proof -
  have p: "js_parseInt ''five'' = None" by code_simp
  obtain e s' where "writeToDlq sql_ops 5 ''k'' sub_ex ''Unknown error'' [] = Inr (e, s')"
    using sqlq.writeToDlq_live[of "[]" 5 "''k''" sub_ex "''Unknown error''"] by (auto simp: sql_inv_def)
  from submit_bad_retry_count[OF _ _ this, of "''five''" "\<lambda>v. Some ''five''"] p show ?thesis by auto
qed

text \<open>The waits between the calls double from the base up to the maximum and never exceed it; the
  delay that is logged for a wait is the next one in that sequence, not the one slept.\<close>

lemma submit_waits:
  assumes "maxRetries cfg = Some (int mx)" and "baseDelayMs cfg = Some b" and "maxDelayMs cfg = Some m"
    and "1 \<le> b" and "1 \<le> m" and "m < 2 ^ 31" and "\<forall>n \<le> mx. handler n \<noteq> None"
  shows "sr_waits (submit_loop cfg handler 0 None []) =
      map (\<lambda>k. (Some (min (b * 2 ^ (k + 1)) m), min (b * 2 ^ k) m)) [0..<mx] \<and>
    (\<forall>(logged, slept) \<in> set (sr_waits (submit_loop cfg handler 0 None [])).
       1 \<le> slept \<and> slept \<le> m \<and> logged = Some (min (2 * slept) m))"
proof -
  have d: "timer_ms (calculateBackoffDelay k cfg) = min (b * 2 ^ k) m" for k
  proof -
    have "1 \<le> b * 2 ^ k" using assms(4) by (metis mult_mono' one_le_power one_le_numeral mult_1 zero_le_one)
    then show ?thesis using assms(2-6) by (simp add: calculateBackoffDelay_def timer_ms_def min_def)
  qed
  have w: "sr_waits (submit_loop cfg handler 0 None []) =
      map (\<lambda>k. (Some (min (b * 2 ^ (k + 1)) m), min (b * 2 ^ k) m)) [0..<mx]"
    using submit_loop_exhausted[OF assms(1), of 0 handler None "[]"] assms(2,3,7) d
    by (simp add: calculateBackoffDelay_def)
  have b: "1 \<le> b * 2 ^ k" for k :: nat
    using assms(4) by (metis mult_mono' one_le_power one_le_numeral mult_1 zero_le_one)
  show ?thesis unfolding w using b assms(5) by (auto simp: min_def)
qed

lemma submit_waits_example:
  "sr_waits (submit_loop cfg_ex (\<lambda>n. Some ''down'') 0 None []) = [(Some 2000, 1000), (Some 4000, 2000)]"
  using submit_waits[of cfg_ex 2 1000 60000 "\<lambda>n. Some ''down''"] by (simp add: cfg_ex_def upt_rec numeral_2_eq_2)

lemma poll_confirmation_None:
  "fst (poll_confirmation poll a n) = None \<longleftrightarrow>
    first_good (\<lambda>k. poll k = Some SUCCESS) (\<lambda>k. poll k = Some NOT_FOUND) a n"
proof (induction n arbitrary: a)
  case (Suc n)
  then show ?case by (auto simp: first_good_Suc split: option.split chain_status.split)
qed simp

lemma poll_confirmation_waits: "snd (poll_confirmation poll a n) \<le> a + n"
proof (induction n arbitrary: a)
  case (Suc n)
  show ?case using Suc.IH[of "Suc a"] by (auto split: option.split chain_status.split)
qed simp

text \<open>C10. The registry transport reports success exactly for a valid submission that reached the
  network and whose first status other than \<open>NOT_FOUND\<close>, within ten polls, is \<open>SUCCESS\<close>; it never
  waits more than ten seconds, and an invalid submission never reaches the network.\<close>

theorem transport_submit_exact:
  "(fst (transport_submit io sub) = None \<longleftrightarrow> valid_submission sub \<and> ti_account io \<and> ti_prepare io \<and>
      (ti_sent io = Some ''PENDING'' \<or> ti_sent io = Some ''DUPLICATE'') \<and>
      (\<exists>k < 10. ti_poll io k = Some SUCCESS \<and> (\<forall>j < k. ti_poll io j = Some NOT_FOUND))) \<and>
   snd (snd (transport_submit io sub)) \<le> 10 \<and>
   (\<not> valid_submission sub \<longrightarrow> transport_submit io sub = (Some InvalidSubmission, False, 0))"
proof -
  have p: "fst (poll_confirmation (ti_poll io) 0 10) = None \<longleftrightarrow>
      (\<exists>k < 10. ti_poll io k = Some SUCCESS \<and> (\<forall>j < k. ti_poll io j = Some NOT_FOUND))"
    unfolding poll_confirmation_None first_good_def by simp
  show ?thesis
    using p poll_confirmation_waits[of "ti_poll io" 0 10]
    by (auto simp: transport_submit_def case_prod_beta split: option.split)
qed

theorem transport_submit_exact_witness:
  "transport_submit \<lparr>ti_account = True, ti_prepare = True, ti_sent = Some ''PENDING'', ti_poll = \<lambda>_. Some SUCCESS\<rparr>
     (sub_ex\<lparr>sub_gameId := ''no spaces''\<rparr>) = (Some InvalidSubmission, False, 0)"
proof -
  have "\<not> list_all game_id_char ''no spaces''" by code_simp
  then have "\<not> valid_submission (sub_ex\<lparr>sub_gameId := ''no spaces''\<rparr>)" by (simp add: valid_submission_def)
  with transport_submit_exact[of _ "sub_ex\<lparr>sub_gameId := ''no spaces''\<rparr>"] show ?thesis by blast
qed

text \<open>A match passes the binding check exactly when the escrow match has its identifier, its
  game, its players in the same places and its platform; a match on any other platform never does.\<close>

lemma chain_binding_exact:
  "assertChainBinding m c \<longleftrightarrow> cm_id c = int (m_matchId m) \<and> cm_game_id c = m_gameId m \<and>
    cm_player1 c = m_player1 m \<and> cm_player2 c = m_player2 m \<and>
    (\<exists>rest. m_platform m = ''lichess'' \<and> cm_platform c = ''Lichess'' # rest \<or>
            m_platform m = ''chessdotcom'' \<and> cm_platform c = ''ChessDotCom'' # rest)"
  by (auto simp: assertChainBinding_def chain_platform_def Let_def split: list.split)

end
