(* ===== verification/Services.thy ===== *)
theory Services
  imports Fetchers MatchStore Settlement
begin

text \<open>
  Creating a match and verifying its result: \<open>services/match-service.ts\<close> and
  \<open>services/oracle-service.ts\<close>, over any store that meets the contract \<open>match_store\<close> and any
  fetchers that meet the contract \<open>game_source\<close>. Request fields are values of unknown type
  where the code checks their type.
\<close>

section \<open>The fetchers the services call\<close>

text \<open>One call of \<open>fetchLichessResult(gameId)\<close> and of \<open>fetchChessDotComResult(username, gameId)\<close>.\<close>

record fetchers =
  ft_lichess :: "string \<Rightarrow> backend_error + game_result"
  ft_chessdotcom :: "string option \<Rightarrow> string \<Rightarrow> backend_error + game_result"

locale game_source =
  fixes ft :: fetchers
  assumes lichess_ok: "ft_lichess ft gid = Inr g \<Longrightarrow> game_ok gid g"
    and chessdotcom_ok: "ft_chessdotcom ft u gid = Inr g \<Longrightarrow> game_ok gid g"

text \<open>The fetchers of the code, over given answers of the two platforms.\<close>

definition model_fetchers ::
  "(string \<Rightarrow> int option) \<Rightarrow> (nat \<Rightarrow> int) \<Rightarrow> (string \<Rightarrow> nat \<Rightarrow> lichess_response) \<Rightarrow> string option \<Rightarrow>
   (string option \<Rightarrow> int \<times> int \<Rightarrow> string \<times> archive_response) \<Rightarrow> (string \<Rightarrow> string) \<Rightarrow>
   (chessdotcom_game list \<Rightarrow> string) \<Rightarrow> int \<times> int \<Rightarrow> fetchers" where
  "model_fetchers parse_date clk lichess raw_months archive url hash today =
    \<lparr>ft_lichess = (\<lambda>gid. fst (fetchLichessResult parse_date clk (lichess gid) (url gid) gid)),
     ft_chessdotcom = (\<lambda>u gid. fetchChessDotComResult raw_months (archive u) (url gid) hash (clk 0) today gid)\<rparr>"

lemma fetchLichessResult_ok: "fst (fetchLichessResult pd clk resp url gid) = Inr g \<Longrightarrow> game_ok gid g"
proof -
  assume "fst (fetchLichessResult pd clk resp url gid) = Inr g"
  then obtain ws where "fetch_lichess_loop pd clk resp url gid 0 [] = (Inr g, ws)"
    by (metis fetchLichessResult_def prod.collapse)
  from fetch_lichess_loop_Inr[OF this] show ?thesis using readLichessGame_Inr by blast
qed

lemma fetchChessDotComResult_ok:
  "fetchChessDotComResult raw archive source hash now today gid = Inr g \<Longrightarrow> game_ok gid g"
  by (auto simp: fetchChessDotComResult_def readChessDotComGame_def Let_def
      dest!: search_archives_Inr normalizeResult_ok split: sum.splits option.splits)

interpretation mf: game_source "model_fetchers pd clk lichess raw archive url hash today"
  for pd clk lichess raw archive url hash today
  by unfold_locales (auto simp: model_fetchers_def dest: fetchLichessResult_ok fetchChessDotComResult_ok)

section \<open>Creating a match\<close>

definition MIN_STAKE :: rat where "MIN_STAKE = 1"
definition MAX_STAKE :: rat where "MAX_STAKE = 10000000000000"
definition MAX_GAME_ID_LEN :: nat where "MAX_GAME_ID_LEN = 64"

record create_input =
  ci_player2 :: js_val
  ci_stakeAmount :: js_val
  ci_token :: js_val
  ci_gameId :: js_val
  ci_platform :: js_val
  ci_username :: "string option"

text \<open>A non-empty string: what \<open>!v || typeof v !== 'string'\<close> lets through.\<close>

definition text_of :: "js_val \<Rightarrow> string option" where
  "text_of v = (case v of JStr s \<Rightarrow> if s = [] then None else Some s | _ \<Rightarrow> None)"

definition known_platform :: "js_val \<Rightarrow> bool" where
  "known_platform v = (v = JStr ''lichess'' \<or> v = JStr ''chessdotcom'')"

definition whole_number :: "js_val \<Rightarrow> rat option" where
  "whole_number v = (case v of JNum (Fin r) \<Rightarrow> if r \<in> \<int> then Some r else None | _ \<Rightarrow> None)"

definition validateCreateMatchInput :: "string option \<Rightarrow> create_input \<Rightarrow> string option" where
  "validateCreateMatchInput player1 i =
    (if text_of (ci_player2 i) = None then Some ''player2 is required''
     else if whole_number (ci_stakeAmount i) = None
     then Some ''stakeAmount must be a whole number of token base units''
     else if the (whole_number (ci_stakeAmount i)) < MIN_STAKE \<or> MAX_STAKE < the (whole_number (ci_stakeAmount i))
     then Some ''stakeAmount must be between 1 and 10000000000000 token units''
     else if text_of (ci_token i) = None then Some ''token is required''
     else if text_of (ci_gameId i) = None then Some ''gameId is required''
     else if length (the (text_of (ci_gameId i))) > MAX_GAME_ID_LEN \<or>
             \<not> list_all game_id_char (the (text_of (ci_gameId i)))
     then Some ''gameId must be 1-64 ASCII characters containing only letters, numbers, _ or -''
     else if \<not> known_platform (ci_platform i) then Some ''platform must be lichess or chessdotcom''
     else if \<not> falsy player1 \<and> js_upper (the player1) = js_upper (the (text_of (ci_player2 i)))
     then Some ''player1 and player2 must be different addresses''
     else None)"

text \<open>\<open>valid\<close> and the error message.\<close>

definition validateGameExists :: "fetchers \<Rightarrow> string \<Rightarrow> string \<Rightarrow> string option \<Rightarrow> bool \<times> string option" where
  "validateGameExists ft platform gameId username =
    (let answer = (\<lambda>r. case r of
         Inr g \<Rightarrow> (True, None)
       | Inl (GameNotFoundError m) \<Rightarrow> (False, Some m)
       | Inl e \<Rightarrow> (False, Some (''Game validation failed: '' @ error_message e)))
     in if platform = ''lichess'' then answer (ft_lichess ft gameId)
        else if platform = ''chessdotcom'' then
          (if falsy username then (False, Some ''username is required for chessdotcom game validation'')
           else answer (ft_chessdotcom ft username gameId))
        else (False, Some ''invalid platform''))"

record identity_result =
  ir_whitePlayer :: "string option"
  ir_blackPlayer :: "string option"
  ir_error :: "string option"

definition getGameResultWithPlayerIdentities :: "fetchers \<Rightarrow> string \<Rightarrow> string \<Rightarrow> string option \<Rightarrow> identity_result" where
  "getGameResultWithPlayerIdentities ft platform gameId username =
    (let failed = (\<lambda>m. \<lparr>ir_whitePlayer = None, ir_blackPlayer = None, ir_error = Some m\<rparr>);
         answer = (\<lambda>r. case r of
             Inr g \<Rightarrow> \<lparr>ir_whitePlayer = Some (g_whitePlayer g), ir_blackPlayer = Some (g_blackPlayer g), ir_error = None\<rparr>
           | Inl e \<Rightarrow> failed (error_message e))
     in if platform = ''lichess'' then answer (ft_lichess ft gameId)
        else if platform = ''chessdotcom'' then
          (if falsy username then failed ''username is required for chessdotcom''
           else answer (ft_chessdotcom ft username gameId))
        else failed ''invalid platform'')"

record service_failure =
  sf_status :: nat
  sf_error :: string
  sf_details :: "string option"

definition val_text :: "js_val \<Rightarrow> string" where
  "val_text v = (case v of JStr s \<Rightarrow> s | _ \<Rightarrow> [])"

definition input_payload :: "string \<Rightarrow> create_input \<Rightarrow> identity_result \<Rightarrow> create_payload" where
  "input_payload player1 i r = \<lparr>p_player1 = player1, p_player2 = val_text (ci_player2 i),
     p_player1Username = ir_whitePlayer r, p_player2Username = ir_blackPlayer r,
     p_stakeAmount = \<lfloor>the (whole_number (ci_stakeAmount i))\<rfloor>, p_token = val_text (ci_token i),
     p_gameId = val_text (ci_gameId i), p_platform = val_text (ci_platform i)\<rparr>"

definition createMatchForPlayer ::
  "'s match_ops \<Rightarrow> fetchers \<Rightarrow> string \<Rightarrow> create_input \<Rightarrow> 's \<Rightarrow> (service_failure + match_record) \<times> 's" where
  "createMatchForPlayer ops ft player1 i s =
    (case validateCreateMatchInput (Some player1) i of
       Some e \<Rightarrow> (Inl \<lparr>sf_status = errorToHttpStatus (ValidationError e), sf_error = e, sf_details = None\<rparr>, s)
     | None \<Rightarrow>
        (let r = getGameResultWithPlayerIdentities ft (val_text (ci_platform i)) (val_text (ci_gameId i)) (ci_username i)
         in if \<not> falsy (ir_error r)
            then (Inl \<lparr>sf_status = errorToHttpStatus (ValidationError (the (ir_error r))),
                       sf_error = ''Invalid game'', sf_details = ir_error r\<rparr>, s)
            else (case mo_create ops (input_payload player1 i r) s of
                (Inr m, s') \<Rightarrow> (Inr m, s')
              | (Inl msg, s') \<Rightarrow>
                 (if js_includes msg ''duplicate''
                  then (Inl \<lparr>sf_status = errorToHttpStatus (ConflictError msg), sf_error = ''duplicate gameId'',
                            sf_details = None\<rparr>, s')
                  else (Inl \<lparr>sf_status = errorToHttpStatus (OtherError msg), sf_error = msg, sf_details = None\<rparr>, s')))))"

section \<open>Verifying a result\<close>

record submit_input =
  si_matchId :: js_val
  si_gameId :: js_val
  si_platform :: js_val
  si_username :: "string option"

definition validateSubmitResultInput :: "submit_input \<Rightarrow> string option" where
  "validateSubmitResultInput i =
    (if whole_number (si_matchId i) = None \<or> the (whole_number (si_matchId i)) \<le> 0
     then Some ''matchId must be a positive integer''
     else if text_of (si_gameId i) = None then Some ''gameId is required''
     else if \<not> known_platform (si_platform i) then Some ''platform must be lichess or chessdotcom''
     else if si_platform i = JStr ''chessdotcom'' \<and> falsy (si_username i)
     then Some ''username is required for chessdotcom''
     else None)"

record verified_result =
  vr_matchId :: nat
  vr_gameId :: string
  vr_result :: "match_result option"
  vr_whitePlayer :: string
  vr_blackPlayer :: string
  vr_status :: game_status

text \<open>The outcome of the flow: a failure to answer with (status, error, and whether the hint that the
  store has lost its data is given), a thrown error, or the verified result. The identifier in the
  request only reaches the log.\<close>

datatype verify_outcome =
    Refused nat string bool
  | Threw backend_error
  | VerifiedOk verified_result

definition settlement_row :: "match_record \<Rightarrow> game_result \<Rightarrow> int \<Rightarrow> decision \<Rightarrow> settlement_evidence" where
  "settlement_row m g now d = \<lparr>se_parserVersion = ''chess-result-v1'', se_evaluatedAt = now, se_matchId = m_matchId m,
     se_gameId = g_gameId g, se_platform = m_platform m, se_whitePlayer = normalize_name (g_whitePlayer g),
     se_blackPlayer = normalize_name (g_blackPlayer g), se_result = g_result g, se_status = g_status g, se_decision = d\<rparr>"

definition match_identity :: "match_record \<Rightarrow> string \<Rightarrow> identity_map" where
  "match_identity m platform = \<lparr>im_player1Address = m_player1 m, im_player1Username = the (m_player1Username m),
     im_player2Address = m_player2 m, im_player2Username = the (m_player2Username m), im_platform = platform\<rparr>"

definition verifyGameResult ::
  "(string \<Rightarrow> string) \<Rightarrow> 's match_ops \<Rightarrow> fetchers \<Rightarrow> int \<Rightarrow> rat \<Rightarrow> string \<Rightarrow> string \<Rightarrow> string option \<Rightarrow> 's \<Rightarrow> verify_outcome \<times> 's" where
  "verifyGameResult sha256 ops ft now matchId gameId platform username s =
    (case mo_find ops s gameId of
       None \<Rightarrow> (Refused (errorToHttpStatus (NotFoundError ''Match not found'')) ''Match not found'' (mo_count ops s = 0), s)
     | Some m \<Rightarrow>
        if falsy (m_player1Username m) \<or> falsy (m_player2Username m)
        then (Refused (errorToHttpStatus (ValidationError ''Player identities not recorded'')) ''Player identities not recorded'' False, s)
        else if platform \<noteq> m_platform m then (Refused (errorToHttpStatus (ValidationError ''Platform mismatch'')) ''Platform mismatch'' False, s)
        else if m_platform m \<noteq> ''lichess'' \<and> m_platform m \<noteq> ''chessdotcom''
        then (Refused (errorToHttpStatus (ValidationError ''Unknown platform'')) ''Unknown platform'' False, s)
        else (case (if m_platform m = ''lichess'' then ft_lichess ft gameId else ft_chessdotcom ft username gameId) of
           Inl (GameNotFoundError msg) \<Rightarrow> (Refused (errorToHttpStatus (GameNotFoundError msg)) ''Game not found on platform'' False, s)
         | Inl e \<Rightarrow> (Threw e, s)
         | Inr g \<Rightarrow>
            if verifyPlayerIdentities m g (match_identity m platform) \<noteq> Valid
            then (Refused (errorToHttpStatus (ValidationError ''Player identity verification failed'')) ''Player identity verification failed'' False,
                  mo_saveEvidence ops (settlement_row m g now PlayerIdentityMismatch) s)
            else if verifyIdentityHash sha256 m \<noteq> Valid
            then (Refused (errorToHttpStatus (ValidationError ''Identity hash verification failed'')) ''Identity hash verification failed'' False,
                  mo_saveEvidence ops (settlement_row m g now IdentityHashMismatch) s)
            else (VerifiedOk \<lparr>vr_matchId = m_matchId m, vr_gameId = g_gameId g, vr_result = g_result g,
                    vr_whitePlayer = g_whitePlayer g, vr_blackPlayer = g_blackPlayer g, vr_status = g_status g\<rparr>,
                  mo_saveEvidence ops (settlement_row m g now Verified) s)))"

section \<open>Lemmas\<close>

lemma text_of_iff: "text_of v = Some s \<longleftrightarrow> v = JStr s \<and> s \<noteq> []"
  by (cases v) (auto simp: text_of_def)

lemma whole_number_iff: "whole_number v = Some r \<longleftrightarrow> v = JNum (Fin r) \<and> r \<in> \<int>"
  by (auto simp: whole_number_def split: js_val.splits js_num.splits if_splits)

text \<open>What a valid request satisfies.\<close>

definition input_ok :: "string \<Rightarrow> create_input \<Rightarrow> bool" where
  "input_ok player1 i \<longleftrightarrow> (\<exists>p2 n t g pf. ci_player2 i = JStr p2 \<and> p2 \<noteq> [] \<and> ci_stakeAmount i = JNum (Fin (of_int n)) \<and>
     1 \<le> n \<and> n \<le> 10000000000000 \<and> ci_token i = JStr t \<and> t \<noteq> [] \<and> ci_gameId i = JStr g \<and> g \<noteq> [] \<and>
     length g \<le> 64 \<and> list_all game_id_char g \<and> ci_platform i = JStr pf \<and> pf \<in> {''lichess'', ''chessdotcom''} \<and>
     (player1 \<noteq> [] \<longrightarrow> js_upper player1 \<noteq> js_upper p2))"

lemma validate_create_iff: "validateCreateMatchInput (Some player1) i = None \<longleftrightarrow> input_ok player1 i"
proof
  assume v: "validateCreateMatchInput (Some player1) i = None"
  then obtain p2 r t g where o: "text_of (ci_player2 i) = Some p2" "whole_number (ci_stakeAmount i) = Some r"
    "text_of (ci_token i) = Some t" "text_of (ci_gameId i) = Some g"
    by (auto simp: validateCreateMatchInput_def split: if_splits)
  from o(2) obtain n where n: "r = of_int n" by (auto simp: whole_number_iff elim: Ints_cases)
  have b: "1 \<le> n" "n \<le> 10000000000000"
    using v o n by (auto simp: validateCreateMatchInput_def MIN_STAKE_def MAX_STAKE_def split: if_splits)
  have g: "length g \<le> 64" "list_all game_id_char g" and pf: "known_platform (ci_platform i)"
    and d: "player1 \<noteq> [] \<longrightarrow> js_upper player1 \<noteq> js_upper p2"
    using v o by (auto simp: validateCreateMatchInput_def MAX_GAME_ID_LEN_def split: if_splits)
  have c: "ci_player2 i = JStr p2" "p2 \<noteq> []" "ci_stakeAmount i = JNum (Fin (of_int n))" "ci_token i = JStr t" "t \<noteq> []"
    "ci_gameId i = JStr g" "g \<noteq> []"
    using o n by (simp_all add: text_of_iff whole_number_iff)
  from pf have "\<exists>pf. ci_platform i = JStr pf \<and> pf \<in> {''lichess'', ''chessdotcom''}" by (auto simp: known_platform_def)
  then show "input_ok player1 i" using c b g d unfolding input_ok_def by blast
next
  assume "input_ok player1 i"
  then obtain p2 k t g pf where i: "ci_player2 i = JStr p2" "p2 \<noteq> []" "ci_stakeAmount i = JNum (Fin (of_int k))"
    "1 \<le> k" "k \<le> 10000000000000" "ci_token i = JStr t" "t \<noteq> []" "ci_gameId i = JStr g" "g \<noteq> []" "length g \<le> 64"
    "list_all game_id_char g" "ci_platform i = JStr pf" "pf \<in> {''lichess'', ''chessdotcom''}"
    "player1 \<noteq> [] \<longrightarrow> js_upper player1 \<noteq> js_upper p2" unfolding input_ok_def by blast
  have t: "text_of (ci_player2 i) = Some p2" "text_of (ci_token i) = Some t" "text_of (ci_gameId i) = Some g"
    "whole_number (ci_stakeAmount i) = Some (of_int k)" "known_platform (ci_platform i)"
    using i by (auto simp: text_of_iff whole_number_iff known_platform_def)
  have "\<not> (of_int k :: rat) < MIN_STAKE" "\<not> MAX_STAKE < of_int k" using i(4,5) by (simp_all add: MIN_STAKE_def MAX_STAKE_def)
  then show "validateCreateMatchInput (Some player1) i = None"
    using i(10,11,14) by (auto simp add: validateCreateMatchInput_def t MAX_GAME_ID_LEN_def)
qed

text \<open>The fetch of a valid request.\<close>

definition fetch_for :: "fetchers \<Rightarrow> string \<Rightarrow> string \<Rightarrow> string option \<Rightarrow> backend_error + game_result" where
  "fetch_for ft platform gameId username =
    (if platform = ''lichess'' then ft_lichess ft gameId else ft_chessdotcom ft username gameId)"

lemma identities_of_fetch:
  assumes "platform \<in> {''lichess'', ''chessdotcom''}" and "platform = ''chessdotcom'' \<longrightarrow> \<not> falsy username"
    and "fetch_for ft platform gameId username = Inr g"
  shows "getGameResultWithPlayerIdentities ft platform gameId username =
    \<lparr>ir_whitePlayer = Some (g_whitePlayer g), ir_blackPlayer = Some (g_blackPlayer g), ir_error = None\<rparr>"
  using assms by (auto simp: getGameResultWithPlayerIdentities_def fetch_for_def)

context game_source
begin

lemma fetch_ok: "fetch_for ft platform gid u = Inr g \<Longrightarrow> game_ok gid g"
  by (auto simp: fetch_for_def split: if_splits dest: lichess_ok chessdotcom_ok)

end

lemma game_ok_names:
  assumes "game_ok gid g"
  shows "normalize_name (g_whitePlayer g) \<noteq> []" "normalize_name (g_blackPlayer g) \<noteq> []"
    "g_whitePlayer g \<noteq> []" "g_blackPlayer g \<noteq> []" "g_gameId g = gid"
proof -
  have e: "js_trim [] = []" by (simp add: js_trim_def)
  show "normalize_name (g_whitePlayer g) \<noteq> []" "normalize_name (g_blackPlayer g) \<noteq> []" "g_gameId g = gid"
    using assms by (auto simp: game_ok_def normalize_name_def)
  show "g_whitePlayer g \<noteq> []" "g_blackPlayer g \<noteq> []" using assms e by (auto simp: game_ok_def)
qed

text \<open>The verification flow, from the fetched game on.\<close>

lemma verifyGameResult_fetched:
  assumes "mo_find ops s gameId = Some m" and "\<not> falsy (m_player1Username m)" and "\<not> falsy (m_player2Username m)"
    and "platform = m_platform m" and "platform \<in> {''lichess'', ''chessdotcom''}"
    and "fetch_for ft platform gameId username = Inr g"
  shows "verifyGameResult sha256 ops ft now matchId gameId platform username s =
    (if verifyPlayerIdentities m g (match_identity m platform) \<noteq> Valid
     then (Refused 400 ''Player identity verification failed'' False,
           mo_saveEvidence ops (settlement_row m g now PlayerIdentityMismatch) s)
     else if verifyIdentityHash sha256 m \<noteq> Valid
     then (Refused 400 ''Identity hash verification failed'' False,
           mo_saveEvidence ops (settlement_row m g now IdentityHashMismatch) s)
     else (VerifiedOk \<lparr>vr_matchId = m_matchId m, vr_gameId = g_gameId g, vr_result = g_result g,
             vr_whitePlayer = g_whitePlayer g, vr_blackPlayer = g_blackPlayer g, vr_status = g_status g\<rparr>,
           mo_saveEvidence ops (settlement_row m g now Verified) s))"
  using assms by (auto simp: verifyGameResult_def fetch_for_def)

lemma verifyGameResult_VerifiedOk:
  assumes "verifyGameResult sha256 ops ft now matchId gameId platform username s = (VerifiedOk v, s')"
  obtains m g where "mo_find ops s gameId = Some m" "\<not> falsy (m_player1Username m)" "\<not> falsy (m_player2Username m)"
    "platform = m_platform m" "platform \<in> {''lichess'', ''chessdotcom''}" "fetch_for ft platform gameId username = Inr g"
proof -
  obtain m where m: "mo_find ops s gameId = Some m"
    using assms by (auto simp: verifyGameResult_def split: option.splits)
  with assms have c: "\<not> falsy (m_player1Username m)" "\<not> falsy (m_player2Username m)" "platform = m_platform m"
    "m_platform m = ''lichess'' \<or> m_platform m = ''chessdotcom''"
    by (auto simp: verifyGameResult_def split: if_splits)
  obtain g where "fetch_for ft platform gameId username = Inr g"
  proof (cases "fetch_for ft platform gameId username")
    case (Inl e)
    with assms m c show ?thesis by (cases e) (auto simp: verifyGameResult_def fetch_for_def split: if_splits)
  qed (use that in blast)
  with m c that show ?thesis by blast
qed

section \<open>Properties\<close>

definition ft_ex :: fetchers where
  "ft_ex = \<lparr>ft_lichess = (\<lambda>gid. if gid = ''abcd1234'' then Inr fetched_ex else Inl (GameNotFoundError ''no'')),
     ft_chessdotcom = (\<lambda>u gid. Inl (RateLimitError ''slow''))\<rparr>"

definition input_ex :: create_input where
  "input_ex = \<lparr>ci_player2 = JStr ''GB'', ci_stakeAmount = JNum (Fin 5), ci_token = JStr ''XLM'',
     ci_gameId = JStr ''abcd1234'', ci_platform = JStr ''lichess'', ci_username = None\<rparr>"

lemma input_ok_ex: "input_ok ''GA'' input_ex"
proof -
  have "list_all game_id_char ''abcd1234''" "js_upper ''GA'' \<noteq> js_upper ''GB''" by code_simp+
  then show ?thesis unfolding input_ok_def
    by (intro exI[of _ "''GB''"] exI[of _ 5] exI[of _ "''XLM''"] exI[of _ "''abcd1234''"] exI[of _ "''lichess''"])
      (simp add: input_ex_def)
qed

lemma fetch_ex: "fetch_for ft_ex ''lichess'' ''abcd1234'' u = Inr fetched_ex"
  by (simp add: fetch_for_def ft_ex_def)

text \<open>The match a request creates from the game its platform reports.\<close>

definition created_match :: "(string \<Rightarrow> string) \<Rightarrow> nat \<Rightarrow> string \<Rightarrow> create_input \<Rightarrow> game_result \<Rightarrow> match_record" where
  "created_match sha256 n player1 i g = payload_record sha256 n (input_payload player1 i
     \<lparr>ir_whitePlayer = Some (g_whitePlayer g), ir_blackPlayer = Some (g_blackPlayer g), ir_error = None\<rparr>)"

lemma create_for_player:
  assumes "input_ok player1 i" and "val_text (ci_platform i) = ''chessdotcom'' \<longrightarrow> \<not> falsy (ci_username i)"
    and "fetch_for ft (val_text (ci_platform i)) (val_text (ci_gameId i)) (ci_username i) = Inr g"
  shows "createMatchForPlayer ops ft player1 i s =
    (case mo_create ops (input_payload player1 i
       \<lparr>ir_whitePlayer = Some (g_whitePlayer g), ir_blackPlayer = Some (g_blackPlayer g), ir_error = None\<rparr>) s of
       (Inr m, s') \<Rightarrow> (Inr m, s')
     | (Inl msg, s') \<Rightarrow> (Inl (if js_includes msg ''duplicate''
          then \<lparr>sf_status = 409, sf_error = ''duplicate gameId'', sf_details = None\<rparr>
          else \<lparr>sf_status = 500, sf_error = msg, sf_details = None\<rparr>), s'))"
proof -
  have p: "val_text (ci_platform i) \<in> {''lichess'', ''chessdotcom''}"
    using assms(1) by (auto simp: input_ok_def val_text_def)
  show ?thesis
    using assms(1) by (simp add: createMatchForPlayer_def validate_create_iff[symmetric]
        identities_of_fetch[OF p assms(2,3)] split: sum.split prod.split)
qed




definition played_ex :: match_record where
  "played_ex = created_match (\<lambda>x. x) 0 ''GA'' input_ex fetched_ex"

definition sql_played :: sql_matches where
  "sql_played = \<lparr>sm_rows = [played_ex], sm_nextId = 1, sm_evidence = []\<rparr>"

lemma played_fields:
  "m_gameId played_ex = ''abcd1234''" "m_platform played_ex = ''lichess''" "m_player1 played_ex = ''GA''"
  "m_player1Username played_ex = Some ''Ann''" "m_player2Username played_ex = Some ''Bob''"
  "m_matchId played_ex = 0" "verifyIdentityHash (\<lambda>x. x) played_ex = Valid"
  by (simp_all add: played_ex_def created_match_def payload_record_def input_payload_def input_ex_def val_text_def
      fetched_ex_def verifyIdentityHash_def payload_hash_def)

lemma names_ex: "normalize_name ''Ann'' = ''ann''" "normalize_name ''Bob'' = ''bob''"
  by code_simp+

lemma sql_played_inv: "sm_inv sql_played" by (simp add: sm_inv_def sql_played_def played_fields)


text \<open>Every evaluation of a fetched game leaves exactly one row of evidence, with the decision
  taken, rejected or not; an evaluation that never got a game leaves the store as it was.\<close>

lemma verify_evidence_exact:
  "(\<forall>m g. sm_findByGameId s gameId = Some m \<and> \<not> falsy (m_player1Username m) \<and> \<not> falsy (m_player2Username m) \<and>
      platform = m_platform m \<and> platform \<in> {''lichess'', ''chessdotcom''} \<and>
      fetch_for ft platform gameId username = Inr g \<longrightarrow>
      (\<exists>d. sm_evidence (snd (verifyGameResult sha256 (sm_ops sha256) ft now matchId gameId platform username s)) =
         sm_evidence s @ [settlement_row m g now d] \<and>
        (d = Verified \<longleftrightarrow> (\<exists>v. fst (verifyGameResult sha256 (sm_ops sha256) ft now matchId gameId platform username s) = VerifiedOk v)))) \<and>
   ((\<forall>g. fetch_for ft platform gameId username \<noteq> Inr g) \<or> sm_findByGameId s gameId = None \<longrightarrow>
      snd (verifyGameResult sha256 (sm_ops sha256) ft now matchId gameId platform username s) = s)"
proof (intro conjI allI impI)
  fix m g
  assume a: "sm_findByGameId s gameId = Some m \<and> \<not> falsy (m_player1Username m) \<and> \<not> falsy (m_player2Username m) \<and>
      platform = m_platform m \<and> platform \<in> {''lichess'', ''chessdotcom''} \<and>
      fetch_for ft platform gameId username = Inr g"
  have f: "mo_find (sm_ops sha256) s gameId = Some m" using a by simp
  from a verifyGameResult_fetched[OF f, of platform ft username g sha256 now matchId]
  show "\<exists>d. sm_evidence (snd (verifyGameResult sha256 (sm_ops sha256) ft now matchId gameId platform username s)) =
         sm_evidence s @ [settlement_row m g now d] \<and>
        (d = Verified \<longleftrightarrow> (\<exists>v. fst (verifyGameResult sha256 (sm_ops sha256) ft now matchId gameId platform username s) = VerifiedOk v))"
    by (auto simp: sm_saveEvidence_def)
next
  assume a: "(\<forall>g. fetch_for ft platform gameId username \<noteq> Inr g) \<or> sm_findByGameId s gameId = None"
  show "snd (verifyGameResult sha256 (sm_ops sha256) ft now matchId gameId platform username s) = s"
  proof (cases "sm_findByGameId s gameId")
    case (Some m)
    with a obtain e where e: "fetch_for ft platform gameId username = Inl e"
      by (metis option.distinct(1) sum.exhaust)
    then show ?thesis using Some
      by (cases e) (auto simp: verifyGameResult_def fetch_for_def split: if_splits)
  qed (simp add: verifyGameResult_def)
qed

lemma verify_evidence_exact_example:
  "snd (verifyGameResult (\<lambda>x. x) (sm_ops (\<lambda>x. x)) ft_ex 9 77 ''nogame'' ''lichess'' None sql_played) = sql_played"
proof -
  have "sm_findByGameId sql_played ''nogame'' = None" by (simp add: sm_findByGameId_def sql_played_def played_fields)
  with verify_evidence_exact[of sql_played "''nogame''" "''lichess''" ft_ex None "\<lambda>x. x" 9 77] show ?thesis by blast
qed

text \<open>A game played with the colours the other way round is accepted, but its result is passed on
  as white's and black's result: a win of white, who is the second player, is answered as
  \<open>Player1Wins\<close>. The comment on the check says the result is interpreted the other way.\<close>

lemma verify_swapped_colours_not_flipped:
  assumes "sm_inv s" and "sm_findByGameId s gameId = Some m" and "m_platform m \<in> {''lichess'', ''chessdotcom''}"
    and "m_player1Username m = Some u1" and "m_player2Username m = Some u2"
    and "normalize_name u1 \<noteq> []" and "normalize_name u2 \<noteq> []" and "verifyIdentityHash sha256 m = Valid"
    and "fetch_for ft (m_platform m) gameId username = Inr g" and "g_result g = Some Player1Wins"
    and "normalize_name (g_whitePlayer g) = normalize_name u2" and "normalize_name (g_blackPlayer g) = normalize_name u1"
  shows "\<exists>v s'. verifyGameResult sha256 (sm_ops sha256) ft now matchId gameId (m_platform m) username s = (VerifiedOk v, s') \<and>
    vr_matchId v = m_matchId m \<and> vr_result v = Some Player1Wins \<and>
    normalize_name (vr_whitePlayer v) = normalize_name (the (m_player2Username m))"
proof -
  have ne: "js_trim [] = []" by (simp add: js_trim_def)
  have f: "mo_find (sm_ops sha256) s gameId = Some m" using assms(2) by simp
  have u: "\<not> falsy (m_player1Username m)" "\<not> falsy (m_player2Username m)"
    using assms(4-7) ne by (auto simp: normalize_name_def)
  have "verifyPlayerIdentities m g (match_identity m (m_platform m)) = Valid"
    using assms(4-7,11,12) by (simp add: player_verification_swapped match_identity_def)
  with verifyGameResult_fetched[OF f u refl assms(3,9), of sha256 now matchId] assms(5,8,10,11) show ?thesis by simp
qed

definition fetched_swapped_ex :: game_result where
  "fetched_swapped_ex = fetched_ex\<lparr>g_whitePlayer := ''Bob'', g_blackPlayer := ''Ann''\<rparr>"

definition ft_swapped_ex :: fetchers where
  "ft_swapped_ex = \<lparr>ft_lichess = (\<lambda>gid. Inr fetched_swapped_ex), ft_chessdotcom = (\<lambda>u gid. Inr fetched_swapped_ex)\<rparr>"

lemma verify_swapped_colours_not_flipped_example:
  "\<exists>v s'. verifyGameResult (\<lambda>x. x) (sm_ops (\<lambda>x. x)) ft_swapped_ex 9 77 ''abcd1234'' ''lichess'' None sql_played = (VerifiedOk v, s') \<and>
    vr_result v = Some Player1Wins \<and> normalize_name (vr_whitePlayer v) = ''bob''"
proof -
  have f: "sm_findByGameId sql_played ''abcd1234'' = Some played_ex"
    by (simp add: sm_findByGameId_def sql_played_def played_fields)
  have g: "fetch_for ft_swapped_ex ''lichess'' ''abcd1234'' None = Inr fetched_swapped_ex"
    "g_result fetched_swapped_ex = Some Player1Wins" "g_whitePlayer fetched_swapped_ex = ''Bob''"
    "g_blackPlayer fetched_swapped_ex = ''Ann''"
    by (simp_all add: fetch_for_def ft_swapped_ex_def fetched_swapped_ex_def fetched_ex_def)
  from verify_swapped_colours_not_flipped[OF sql_played_inv f, of "''Ann''" "''Bob''" "\<lambda>x. x" ft_swapped_ex None
      fetched_swapped_ex 9 77] g
  show ?thesis by (auto simp: played_fields names_ex)
qed

text \<open>The wallet that creates a match is bound to the white side of the game whichever side it
  played: a match created by \<open>player1\<close> and verified with the same finished game credits
  \<open>player1\<close> with white's result.\<close>

lemma creator_gets_white_result:
  assumes "sm_inv s" and "input_ok player1 i"
    and "val_text (ci_platform i) = ''chessdotcom'' \<longrightarrow> \<not> falsy (ci_username i)"
    and "fetch_for ft (val_text (ci_platform i)) (val_text (ci_gameId i)) (ci_username i) = Inr g"
    and "game_ok (val_text (ci_gameId i)) g"
    and "createMatchForPlayer (sm_ops sha256) ft player1 i s = (Inr m, s')"
  shows "m_player1 m = player1 \<and> m_player1Username m = Some (g_whitePlayer g) \<and>
    (\<exists>v s''. verifyGameResult sha256 (sm_ops sha256) ft now matchId (m_gameId m) (m_platform m) (ci_username i) s' =
       (VerifiedOk v, s'') \<and> vr_matchId v = m_matchId m \<and> vr_result v = g_result g)"
proof -
  let ?p = "input_payload player1 i
     \<lparr>ir_whitePlayer = Some (g_whitePlayer g), ir_blackPlayer = Some (g_blackPlayer g), ir_error = None\<rparr>"
  have c: "sm_createMatch sha256 ?p s = (Inr m, s')"
    using assms(6) unfolding create_for_player[OF assms(2-4)] by (auto split: prod.splits sum.splits)
  have fresh: "p_gameId ?p \<notin> m_gameId ` set (sm_rows s)"
    using msql.create_dup[OF assms(1), of ?p sha256] c by auto
  obtain n where m: "m = payload_record sha256 n ?p" "sm_inv s'" "sm_rows s' = sm_rows s @ [m]"
    using msql.create_fresh[OF assms(1) TrueI fresh, of sha256] c by auto
  have f: "mo_find (sm_ops sha256) s' (m_gameId m) = Some m"
    using msql.find_law[OF m(2), of sha256] m(3) by simp
  note names = game_ok_names[OF assms(5)]
  have fields: "m_player1 m = player1" "m_player1Username m = Some (g_whitePlayer g)"
    "m_player2Username m = Some (g_blackPlayer g)" "m_platform m = val_text (ci_platform i)"
    "m_gameId m = val_text (ci_gameId i)"
    using m(1) by (simp_all add: payload_record_def input_payload_def)
  have pf: "m_platform m \<in> {''lichess'', ''chessdotcom''}"
    using assms(2) fields by (auto simp: input_ok_def val_text_def)
  have h: "verifyIdentityHash sha256 m = Valid"
    using m(1) names by (simp add: verifyIdentityHash_def payload_record_def payload_hash_def input_payload_def)
  have "verifyPlayerIdentities m g (match_identity m (m_platform m)) = Valid"
    using names fields by (simp add: verifyPlayerIdentities_def match_identity_def)
  with h fields names pf verifyGameResult_fetched[OF f, of "m_platform m" ft "ci_username i" g sha256 now matchId] assms(4)
  show ?thesis by simp
qed

lemma creator_gets_white_result_example:
  "\<exists>m s'. createMatchForPlayer (sm_ops (\<lambda>x. x)) ft_swapped_ex ''GA'' input_ex sm_empty = (Inr m, s') \<and>
     m_player1 m = ''GA'' \<and> m_player1Username m = Some ''Bob''"
proof -
  have e: "sm_inv sm_empty" by (simp add: sm_inv_def sm_empty_def)
  have v: "val_text (ci_platform input_ex) = ''lichess''" "val_text (ci_gameId input_ex) = ''abcd1234''"
    by (simp_all add: input_ex_def val_text_def)
  have f: "fetch_for ft_swapped_ex ''lichess'' ''abcd1234'' (ci_username input_ex) = Inr fetched_swapped_ex"
    by (simp add: fetch_for_def ft_swapped_ex_def)
  have w: "g_whitePlayer fetched_swapped_ex = ''Bob''" by (simp add: fetched_swapped_ex_def)
  have g: "game_ok ''abcd1234'' fetched_swapped_ex"
    using trim_ex by (simp add: game_ok_def fetched_swapped_ex_def fetched_ex_def)
  obtain m s' where c: "createMatchForPlayer (sm_ops (\<lambda>x. x)) ft_swapped_ex ''GA'' input_ex sm_empty = (Inr m, s')"
    using create_for_player[OF input_ok_ex, of ft_swapped_ex fetched_swapped_ex "sm_ops (\<lambda>x. x)" sm_empty] v f
    by (simp add: sm_createMatch_def sm_empty_def Let_def)
  from creator_gets_white_result[OF e input_ok_ex, of ft_swapped_ex fetched_swapped_ex "\<lambda>x. x" m s'] v f g w c
  show ?thesis by simp
qed

text \<open>A second match for a game is refused by both stores, but only the in-memory store's refusal
  is answered as a conflict (409): the SQLite store's message has no \<open>duplicate\<close> in it and is
  answered as an internal error (500).\<close>

lemma duplicate_match_status:
  assumes "input_ok player1 i" and "val_text (ci_platform i) = ''chessdotcom'' \<longrightarrow> \<not> falsy (ci_username i)"
    and "fetch_for ft (val_text (ci_platform i)) (val_text (ci_gameId i)) (ci_username i) = Inr g"
    and "sm_inv s" and "val_text (ci_gameId i) \<in> m_gameId ` set (sm_rows s)"
    and "ms_nextId t \<le> MAX_SAFE_INTEGER" and "val_text (ci_gameId i) \<in> set (ms_gameIds t)"
  shows "(\<exists>f s'. createMatchForPlayer (sm_ops sha256) ft player1 i s = (Inl f, s') \<and> sf_status f = 500 \<and> sm_rows s' = sm_rows s) \<and>
    (\<exists>f. createMatchForPlayer (mm_ops sha256) ft player1 i t = (Inl f, t) \<and> sf_status f = 409)"
proof -
  have m: "\<not> js_includes UNIQUE_GAME_ID ''duplicate''" "js_includes ''duplicate game_id'' ''duplicate''"
    unfolding UNIQUE_GAME_ID_def by code_simp+
  have id: "sm_nextId s \<notin> m_matchId ` set (sm_rows s)" using sm_id_fresh[OF assms(4)] .
  show ?thesis
    unfolding create_for_player[OF assms(1-3)]
    using assms(5-7) m id by (simp add: sm_createMatch_def mm_createMatch_def input_payload_def payload_record_def Let_def)
qed

lemma duplicate_match_status_example:
  "(\<exists>f s'. createMatchForPlayer (sm_ops (\<lambda>x. x)) ft_ex ''GA'' input_ex sql_played = (Inl f, s') \<and> sf_status f = 500) \<and>
   (\<exists>f. createMatchForPlayer (mm_ops (\<lambda>x. x)) ft_ex ''GA'' input_ex (mm_empty\<lparr>ms_gameIds := [''abcd1234'']\<rparr>) =
     (Inl f, mm_empty\<lparr>ms_gameIds := [''abcd1234'']\<rparr>) \<and> sf_status f = 409)"
proof -
  have v: "val_text (ci_platform input_ex) = ''lichess''" "val_text (ci_gameId input_ex) = ''abcd1234''"
    by (simp_all add: input_ex_def val_text_def)
  from duplicate_match_status[OF input_ok_ex, of ft_ex fetched_ex sql_played "mm_empty\<lparr>ms_gameIds := [''abcd1234'']\<rparr>" "\<lambda>x. x"]
    v fetch_ex sql_played_inv
  show ?thesis by (auto simp: sql_played_def played_fields mm_empty_def MAX_SAFE_INTEGER_def)
qed

text \<open>The first match a fresh SQLite store holds gets the identifier 0, with which its result can never
  be submitted: the request is refused as not positive, and so is the submission to the registry.\<close>

lemma first_match_unsettleable:
  assumes "whole_number (si_matchId i) = Some (of_nat n)" and "sub_matchId sub = int n"
    and "sm_createMatch sha256 p (sm_initialize now sm_empty) = (Inr m, s')" and "n = m_matchId m"
  shows "n = 0 \<and> validateSubmitResultInput i = Some ''matchId must be a positive integer'' \<and>
    transport_submit io sub = (Some InvalidSubmission, False, 0)"
proof -
  have "n = 0" using assms(3,4) by (auto simp: sm_createMatch_def sm_initialize_def sm_empty_def payload_record_def Let_def)
  with assms(1,2) show ?thesis by (simp add: validateSubmitResultInput_def transport_submit_def valid_submission_def)
qed

lemma first_match_unsettleable_example:
  "validateSubmitResultInput \<lparr>si_matchId = JNum (Fin 0), si_gameId = JStr ''g'', si_platform = JStr ''lichess'', si_username = None\<rparr> =
     Some ''matchId must be a positive integer''"
proof -
  let ?i = "\<lparr>si_matchId = JNum (Fin 0), si_gameId = JStr ''g'', si_platform = JStr ''lichess'', si_username = None\<rparr>"
  let ?p = "payload_ex ''g''"
  obtain m s' where "sm_createMatch (\<lambda>x. x) ?p (sm_initialize 0 sm_empty) = (Inr m, s')" "m_matchId m = 0"
    by (simp add: sm_createMatch_def sm_initialize_def sm_empty_def payload_record_def Let_def)
  then show ?thesis
    using first_match_unsettleable[of ?i 0 "sub_ex\<lparr>sub_matchId := 0\<rparr>" "\<lambda>x. x" ?p 0 m s'] by (simp add: whole_number_def)
qed

end
