(* ===== verification/Polling.thy ===== *)
theory Polling
  imports Services
begin

text \<open>
  Watching games until they end: the job store and the worker of \<open>services/polling.ts\<close> and the
  translation of fetcher answers of \<open>services/game-poller.ts\<close>. The objects of the job store are
  shared with the closures of armed timers, so the store is a heap of job objects and the list of the
  keys of its \<open>jobs\<close> map. A poll is atomic here: it starts and ends at one instant.
\<close>

section \<open>Settings\<close>

definition DEFAULT_POLLING_INTERVAL_MS :: rat where "DEFAULT_POLLING_INTERVAL_MS = 30000"

datatype interval_error = NotANumber | NotPositive

definition parsePollingIntervalMs :: "string option \<Rightarrow> interval_error + rat" where
  "parsePollingIntervalMs rawValue =
    (if rawValue = None \<or> js_trim (the rawValue) = [] then Inr DEFAULT_POLLING_INTERVAL_MS
     else case js_Number (the rawValue) of
        Fin parsed \<Rightarrow> if parsed \<le> 0 then Inl NotPositive else Inr parsed
      | _ \<Rightarrow> Inl NotANumber)"

text \<open>\<open>Math.round\<close> rounds a half up.\<close>

definition calculateNextPollDelay :: "nat \<Rightarrow> rat \<Rightarrow> rat \<Rightarrow> int" where
  "calculateNextPollDelay attempt baseIntervalMs multiplier =
    \<lfloor>baseIntervalMs * multiplier ^ attempt + 1 / 2\<rfloor>"

section \<open>The job store\<close>

record poll_job =
  pj_id :: string
  pj_matchId :: nat
  pj_gameId :: string
  pj_platform :: string
  pj_username :: "string option"
  pj_attempt :: nat
  pj_createdAt :: int
  pj_lastPolledAt :: "int option"
  pj_createdAtLedger :: "int option"
  pj_timeoutLedgers :: "int option"

record job_store =
  js_objs :: "(string, poll_job) jsmap"
  js_live :: "string list"
  js_matchIdx :: "(nat, string) jsmap"
  js_keyIdx :: "(string, string) jsmap"

definition job_store_empty :: job_store where
  "job_store_empty = \<lparr>js_objs = [], js_live = [], js_matchIdx = [], js_keyIdx = []\<rparr>"

definition matchGameKey :: "nat \<Rightarrow> string \<Rightarrow> string" where
  "matchGameKey matchId gameId = nat_text matchId @ ''::'' @ gameId"

text \<open>\<open>fresh\<close> is the identifier drawn; \<open>None\<close> is the error for an existing job.\<close>

definition createJob ::
  "int \<Rightarrow> string \<Rightarrow> nat \<Rightarrow> string \<Rightarrow> string \<Rightarrow> string option \<Rightarrow> int option \<Rightarrow> int option \<Rightarrow> job_store \<Rightarrow> (poll_job \<times> job_store) option" where
  "createJob now fresh matchId gameId platform username createdAtLedger timeoutLedgers st =
    (let key = matchGameKey matchId gameId in
     if map_of (js_keyIdx st) key \<noteq> None then None
     else (let job = \<lparr>pj_id = fresh, pj_matchId = matchId, pj_gameId = gameId, pj_platform = platform,
                 pj_username = username, pj_attempt = 0, pj_createdAt = now, pj_lastPolledAt = None,
                 pj_createdAtLedger = createdAtLedger, pj_timeoutLedgers = timeoutLedgers\<rparr>
           in Some (job, \<lparr>js_objs = AList.update fresh job (js_objs st),
                          js_live = (if fresh \<in> set (js_live st) then js_live st else js_live st @ [fresh]),
                          js_matchIdx = AList.update matchId fresh (js_matchIdx st),
                          js_keyIdx = AList.update key fresh (js_keyIdx st)\<rparr>)))"

definition getJob :: "job_store \<Rightarrow> string \<Rightarrow> poll_job option" where
  "getJob st jobId = (if jobId \<in> set (js_live st) then map_of (js_objs st) jobId else None)"

text \<open>An empty identifier is falsy; generated identifiers are not empty.\<close>

definition getJobByMatchId :: "job_store \<Rightarrow> nat \<Rightarrow> poll_job option" where
  "getJobByMatchId st matchId = (case map_of (js_matchIdx st) matchId of
     None \<Rightarrow> None | Some jobId \<Rightarrow> if jobId = [] then None else getJob st jobId)"

definition listPendingJobs :: "job_store \<Rightarrow> string list" where
  "listPendingJobs st = js_live st"

definition incrementAttempt :: "int \<Rightarrow> string \<Rightarrow> job_store \<Rightarrow> job_store" where
  "incrementAttempt now jobId st = (case getJob st jobId of
     None \<Rightarrow> st
   | Some job \<Rightarrow> st\<lparr>js_objs := AList.update jobId
        (job\<lparr>pj_attempt := pj_attempt job + 1, pj_lastPolledAt := Some now\<rparr>) (js_objs st)\<rparr>)"

definition removeJobIndexes :: "poll_job \<Rightarrow> job_store \<Rightarrow> job_store" where
  "removeJobIndexes job st =
    (let key = matchGameKey (pj_matchId job) (pj_gameId job);
         st1 = (if map_of (js_keyIdx st) key = Some (pj_id job)
                then st\<lparr>js_keyIdx := AList.delete key (js_keyIdx st)\<rparr> else st)
     in if map_of (js_matchIdx st1) (pj_matchId job) = Some (pj_id job)
        then st1\<lparr>js_matchIdx := AList.delete (pj_matchId job) (js_matchIdx st1)\<rparr> else st1)"

text \<open>\<open>completeJob\<close> and \<open>removeJob\<close> differ in a log line only.\<close>

definition removeJob :: "string \<Rightarrow> job_store \<Rightarrow> job_store" where
  "removeJob jobId st = (case getJob st jobId of
     None \<Rightarrow> st
   | Some job \<Rightarrow> (let st1 = removeJobIndexes job st
        in st1\<lparr>js_live := filter (\<lambda>k. k \<noteq> jobId) (js_live st1)\<rparr>))"

definition completeJob :: "string \<Rightarrow> job_store \<Rightarrow> job_store" where
  "completeJob jobId st = removeJob jobId st"

definition job_store_clear :: "job_store \<Rightarrow> job_store" where
  "job_store_clear st = st\<lparr>js_live := [], js_matchIdx := [], js_keyIdx := []\<rparr>"

section \<open>The worker\<close>

datatype poll_kind = PollPending | PollCompleted | PollFailed | PollInProgress | PollReview

record poll_status =
  pst_status :: poll_kind
  pst_decisionId :: "nat option"
  pst_result :: "match_result option"
  pst_reason :: "string option"

text \<open>
  The settings, with the two injected calls: the ledger height (\<open>None\<close> when it is not
  configured, \<open>Some None\<close> when the call fails) and one poll of a job (\<open>None\<close> when it throws).
  \<open>maxPollingAttempts\<close> is \<open>None\<close> when it is not a number.
\<close>

record polling_config =
  pc_pollingIntervalMs :: rat
  pc_maxPollingAttempts :: "rat option"
  pc_backoffMultiplier :: rat
  pc_defaultTimeoutLedgers :: int
  pc_getCurrentLedger :: "int \<Rightarrow> int option option"
  pc_poll :: "int \<Rightarrow> poll_job \<Rightarrow> poll_status option"

definition DEFAULT_TIMEOUT_LEDGERS :: int where "DEFAULT_TIMEOUT_LEDGERS = 120960"

text \<open>The constructor's defaults.\<close>

definition resolve_config ::
  "rat option \<Rightarrow> rat option option \<Rightarrow> rat option \<Rightarrow> int option \<Rightarrow> (int \<Rightarrow> int option option) \<Rightarrow>
   (int \<Rightarrow> poll_job \<Rightarrow> poll_status option) \<Rightarrow> polling_config" where
  "resolve_config interval maxAttempts multiplier timeout ledger poll =
    \<lparr>pc_pollingIntervalMs = (case interval of Some i \<Rightarrow> i | None \<Rightarrow> 30000),
     pc_maxPollingAttempts = (case maxAttempts of Some m \<Rightarrow> m | None \<Rightarrow> Some 1440),
     pc_backoffMultiplier = (case multiplier of Some m \<Rightarrow> m | None \<Rightarrow> 1),
     pc_defaultTimeoutLedgers = (case timeout of Some t \<Rightarrow> t | None \<Rightarrow> DEFAULT_TIMEOUT_LEDGERS),
     pc_getCurrentLedger = ledger, pc_poll = poll\<rparr>"

datatype timer_kind = JobTimer string | CycleTimer

text \<open>What the worker does to the outside: polls, completions, moves to the dead-letter queue.\<close>

datatype poll_event =
    Polled string int
  | GameCompleted poll_job match_result "nat option"
  | MovedToDlq poll_job "string option"
  | Quarantined_job poll_job

text \<open>Armed timers with their number and due time; \<open>pw_handles\<close> is the worker's map of timer
  handles, in which a new handle replaces the old one without cancelling it.\<close>

record worker =
  pw_store :: job_store
  pw_armed :: "(nat \<times> int \<times> timer_kind) list"
  pw_handles :: "(timer_kind, nat) jsmap"
  pw_next :: nat
  pw_stopped :: bool
  pw_events :: "poll_event list"

definition new_worker :: "job_store \<Rightarrow> worker" where
  "new_worker st = \<lparr>pw_store = st, pw_armed = [], pw_handles = [], pw_next = 0, pw_stopped = False, pw_events = []\<rparr>"

definition arm :: "int \<Rightarrow> int \<Rightarrow> timer_kind \<Rightarrow> worker \<Rightarrow> worker" where
  "arm now delay k w = w\<lparr>pw_armed := pw_armed w @ [(pw_next w, now + timer_ms (Some delay), k)],
     pw_handles := AList.update k (pw_next w) (pw_handles w), pw_next := pw_next w + 1\<rparr>"

definition clear_timer :: "nat \<Rightarrow> worker \<Rightarrow> worker" where
  "clear_timer n w = w\<lparr>pw_armed := filter (\<lambda>(i, _). i \<noteq> n) (pw_armed w)\<rparr>"

text \<open>The delay of a timer given as a fraction of a millisecond is truncated.\<close>

definition scheduleNextPoll :: "polling_config \<Rightarrow> int \<Rightarrow> worker \<Rightarrow> worker" where
  "scheduleNextPoll cfg now w =
    (let w1 = (case map_of (pw_handles w) CycleTimer of None \<Rightarrow> w | Some n \<Rightarrow> clear_timer n w)
     in arm now \<lfloor>pc_pollingIntervalMs cfg\<rfloor> CycleTimer w1)"

definition emit :: "poll_event \<Rightarrow> worker \<Rightarrow> worker" where
  "emit e w = w\<lparr>pw_events := pw_events w @ [e]\<rparr>"

definition on_store :: "(job_store \<Rightarrow> job_store) \<Rightarrow> worker \<Rightarrow> worker" where
  "on_store f w = w\<lparr>pw_store := f (pw_store w)\<rparr>"

text \<open>The job object a closure holds.\<close>

definition job_obj :: "worker \<Rightarrow> string \<Rightarrow> poll_job" where
  "job_obj w jobId = the (map_of (js_objs (pw_store w)) jobId)"

definition checkLedgerTimeout :: "polling_config \<Rightarrow> int \<Rightarrow> string \<Rightarrow> worker \<Rightarrow> bool \<times> worker" where
  "checkLedgerTimeout cfg now jobId w =
    (let job = job_obj w jobId in
     case (pj_createdAtLedger job, pc_getCurrentLedger cfg now) of
       (Some createdAtLedger, Some (Some currentLedger)) \<Rightarrow>
         (let timeoutLedgers = (case pj_timeoutLedgers job of Some t \<Rightarrow> t | None \<Rightarrow> pc_defaultTimeoutLedgers cfg)
          in if currentLedger < createdAtLedger + timeoutLedgers then (False, w)
             else (True, emit (MovedToDlq job (Some ''TIMED_OUT'')) (on_store (removeJob jobId) w)))
     | _ \<Rightarrow> (False, w))"

text \<open>A callback that throws is logged and changes nothing.\<close>

definition handleStatus :: "polling_config \<Rightarrow> int \<Rightarrow> string \<Rightarrow> poll_status \<Rightarrow> worker \<Rightarrow> worker" where
  "handleStatus cfg now jobId status w =
    (let job = job_obj w jobId in
     case pst_status status of
       PollReview \<Rightarrow> emit (Quarantined_job job) (on_store (removeJob jobId) w)
     | PollInProgress \<Rightarrow>
         arm now (calculateNextPollDelay (pj_attempt job) (pc_pollingIntervalMs cfg) (pc_backoffMultiplier cfg))
           (JobTimer jobId) w
     | PollCompleted \<Rightarrow>
        (case pst_result status of
           None \<Rightarrow> w
         | Some r \<Rightarrow> emit (GameCompleted job r (pst_decisionId status)) (on_store (completeJob jobId) w))
     | PollFailed \<Rightarrow>
        (if (case pc_maxPollingAttempts cfg of None \<Rightarrow> False | Some m \<Rightarrow> m \<le> of_nat (pj_attempt job))
         then emit (MovedToDlq job (pst_reason status)) (on_store (removeJob jobId) w)
         else w)
     | PollPending \<Rightarrow> w)"

definition pollJob :: "polling_config \<Rightarrow> int \<Rightarrow> string \<Rightarrow> worker \<Rightarrow> worker" where
  "pollJob cfg now jobId w =
    (let (timedOut, w1) = checkLedgerTimeout cfg now jobId w in
     if timedOut then w1
     else (let w2 = emit (Polled jobId now) (on_store (incrementAttempt now jobId) w1) in
       case pc_poll cfg now (job_obj w2 jobId) of
         None \<Rightarrow> w2
       | Some status \<Rightarrow> handleStatus cfg now jobId status w2))"

definition pollAllJobs :: "polling_config \<Rightarrow> int \<Rightarrow> worker \<Rightarrow> worker" where
  "pollAllJobs cfg now w =
    (let w1 = fold (pollJob cfg now) (listPendingJobs (pw_store w)) w
     in if pw_stopped w1 then w1 else scheduleNextPoll cfg now w1)"

definition start_worker :: "polling_config \<Rightarrow> int \<Rightarrow> worker \<Rightarrow> worker" where
  "start_worker cfg now w = pollAllJobs cfg now w"

text \<open>\<open>stop\<close>: the flag is set and every timer the worker has a handle of is cleared.\<close>

definition stop_worker :: "worker \<Rightarrow> worker" where
  "stop_worker w = w\<lparr>pw_stopped := True,
     pw_armed := filter (\<lambda>(i, _). i \<notin> set (jm_values (pw_handles w))) (pw_armed w), pw_handles := []\<rparr>"

definition fire :: "polling_config \<Rightarrow> int \<Rightarrow> timer_kind \<Rightarrow> worker \<Rightarrow> worker" where
  "fire cfg now k w =
    (if pw_stopped w then w
     else case k of JobTimer jobId \<Rightarrow> pollJob cfg now jobId w | CycleTimer \<Rightarrow> pollAllJobs cfg now w)"

text \<open>One instant of the event loop: the timers that are due and still armed fire in the order in
  which they were armed.\<close>

definition fire_one :: "polling_config \<Rightarrow> int \<Rightarrow> nat \<times> int \<times> timer_kind \<Rightarrow> worker \<Rightarrow> worker" where
  "fire_one cfg now t w =
    (if t \<in> set (pw_armed w) then fire cfg now (snd (snd t)) (clear_timer (fst t) w) else w)"

definition tick :: "polling_config \<Rightarrow> int \<Rightarrow> worker \<Rightarrow> worker" where
  "tick cfg now w = fold (fire_one cfg now) (filter (\<lambda>(_, due, _). due \<le> now) (pw_armed w)) w"

section \<open>The platform poller\<close>

definition status_of :: "poll_kind \<Rightarrow> string option \<Rightarrow> poll_status" where
  "status_of k reason = \<lparr>pst_status = k, pst_decisionId = None, pst_result = None, pst_reason = reason\<rparr>"

text \<open>What the handler of \<open>ChessPlatformPoller.poll\<close> makes of an error.\<close>

definition poll_error :: "backend_error \<Rightarrow> poll_status" where
  "poll_error e = (case e of
      ProviderFetchError k m \<Rightarrow> status_of PollFailed (Some m)
    | RateLimitError m \<Rightarrow> status_of PollInProgress (Some ''Rate limited by API, will retry'')
    | GameNotFoundError m \<Rightarrow> status_of PollFailed (Some (''Game not found: '' @ m))
    | _ \<Rightarrow> status_of PollFailed (Some (''API error: '' @ error_message e)))"

definition poll_result :: "match_result option \<Rightarrow> poll_status" where
  "poll_result r = (case r of
      None \<Rightarrow> status_of PollInProgress None
    | Some x \<Rightarrow> (status_of PollCompleted None)\<lparr>pst_result := Some x\<rparr>)"

text \<open>\<open>ChessPlatformPoller.poll\<close> as the server builds it, without a match store.\<close>

definition platform_poll :: "fetchers \<Rightarrow> poll_job \<Rightarrow> poll_status" where
  "platform_poll ft job =
    (let answer = (\<lambda>r. case r of Inr g \<Rightarrow> poll_result (g_result g) | Inl e \<Rightarrow> poll_error e)
     in if pj_platform job = ''lichess'' then answer (ft_lichess ft (pj_gameId job))
        else if pj_platform job = ''chessdotcom'' then
          (if falsy (pj_username job)
           then status_of PollFailed (Some ''Chess.com requires username; job missing username field'')
           else answer (ft_chessdotcom ft (pj_username job) (pj_gameId job)))
        else status_of PollFailed (Some (''Unknown platform: '' @ pj_platform job)))"

text \<open>With a match store and an evidence store: the result is verified against the stored match. The evidence store is an
  argument that \<open>verifyGameResult\<close> does not take; the decision's identifier is a field its outcome does not have.\<close>

definition verified_poll ::
  "(string \<Rightarrow> string) \<Rightarrow> 's match_ops \<Rightarrow> fetchers \<Rightarrow> int \<Rightarrow> poll_job \<Rightarrow> 's \<Rightarrow> poll_status \<times> 's" where
  "verified_poll sha256 ops ft now job s =
    (case verifyGameResult sha256 ops ft now (of_nat (pj_matchId job)) (pj_gameId job) (pj_platform job) (pj_username job) s of
       (Refused st e _, s') \<Rightarrow> (status_of (if st = 409 \<or> st = 400 then PollReview else PollFailed) (Some e), s')
     | (VerifiedOk v, s') \<Rightarrow> (poll_result (vr_result v), s')
     | (Threw e, s') \<Rightarrow> (poll_error e, s'))"

text \<open>A poll reports a finished game only with the result of a fetched game of the stored match; an identity that does
  not fit goes to review and is never reported as finished.\<close>

lemma poll_error_unfinished: "pst_result (poll_error e) = None \<and> pst_status (poll_error e) \<in> {PollFailed, PollInProgress}"
  by (auto simp: poll_error_def status_of_def split: backend_error.split)

lemma verified_poll_sound:
  assumes "verified_poll sha256 ops ft now job s = (st, s')" "pst_status st = PollCompleted"
  shows "\<exists>m g r. mo_find ops s (pj_gameId job) = Some m \<and> m_platform m = pj_platform job \<and> g_result g = Some r \<and> pst_result st = Some r \<and>
    (ft_lichess ft (pj_gameId job) = Inr g \<or> ft_chessdotcom ft (pj_username job) (pj_gameId job) = Inr g) \<and>
    verifyPlayerIdentities m g (match_identity m (pj_platform job)) = Valid \<and> verifyIdentityHash sha256 m = Valid"
proof -
  obtain out where o: "verifyGameResult sha256 ops ft now (of_nat (pj_matchId job)) (pj_gameId job) (pj_platform job) (pj_username job) s = (out, s')"
    using assms(1) by (auto simp: verified_poll_def split: prod.splits verify_outcome.splits)
  show ?thesis
  proof (cases out)
    case (VerifiedOk v)
    then have st: "st = poll_result (vr_result v)" using assms(1) o by (simp add: verified_poll_def)
    then obtain r where "vr_result v = Some r" using assms(2) by (cases "vr_result v") (auto simp: poll_result_def status_of_def)
    then show ?thesis using o VerifiedOk st
      by (auto simp: verifyGameResult_def poll_result_def status_of_def split: option.splits if_splits sum.splits backend_error.splits)
  next
    case (Refused n e h)
    then show ?thesis using assms o by (auto simp: verified_poll_def status_of_def split: if_splits)
  next
    case (Threw e)
    then show ?thesis using assms o poll_error_unfinished[of e] by (auto simp: verified_poll_def)
  qed
qed

section \<open>Lemmas: the job store\<close>

text \<open>Distinct pairs have distinct keys.\<close>

lemma nat_text_colon: "CHR '':'' \<notin> set (nat_text n)"
proof (induction n rule: nat_text.induct)
  case (1 n)
  have d: "char_of (48 + k) \<noteq> CHR '':''" if "k < 10" for k :: nat
  proof
    assume "char_of (48 + k) = CHR '':''"
    then have "of_char (char_of (48 + k) :: char) = (of_char (CHR '':'') :: nat)" by simp
    with of_char_digit[OF that] that show False by simp
  qed
  show ?case
  proof (cases "n < 10")
    case True
    then show ?thesis using d[OF True] by (subst nat_text.simps) auto
  next
    case False
    then show ?thesis using 1 d[of "n mod 10"] by (subst nat_text.simps) auto
  qed
qed

lemma matchGameKey_eq [simp]: "matchGameKey m g = matchGameKey m' g' \<longleftrightarrow> m = m' \<and> g = g'"
proof
  assume "matchGameKey m g = matchGameKey m' g'"
  then have "nat_text m = nat_text m' \<and> CHR '':'' # g = CHR '':'' # g'"
    using split_at_colon[OF nat_text_colon[of m] nat_text_colon[of m']] by (simp add: matchGameKey_def)
  then show "m = m' \<and> g = g'" by (metis nat_text_value list.inject)
qed simp

definition job_key :: "poll_job \<Rightarrow> string" where
  "job_key j = matchGameKey (pj_matchId j) (pj_gameId j)"

definition js_inv :: "job_store \<Rightarrow> bool" where
  "js_inv st \<longleftrightarrow> distinct (js_live st) \<and> set (js_live st) \<subseteq> dom (map_of (js_objs st)) \<and>
    (\<forall>k j. map_of (js_objs st) k = Some j \<longrightarrow> pj_id j = k) \<and>
    (\<forall>key k. map_of (js_keyIdx st) key = Some k \<longleftrightarrow> (\<exists>j. getJob st k = Some j \<and> job_key j = key)) \<and>
    (\<forall>m k. map_of (js_matchIdx st) m = Some k \<longrightarrow> (\<exists>j. getJob st k = Some j \<and> pj_matchId j = m))"

lemma js_inv_empty: "js_inv job_store_empty"
  by (simp add: js_inv_def job_store_empty_def getJob_def)

lemma getJob_live: "js_inv st \<Longrightarrow> k \<in> set (js_live st) \<Longrightarrow> \<exists>j. getJob st k = Some j \<and> pj_id j = k"
  by (force simp: js_inv_def getJob_def)

text \<open>No two live jobs are for the same match and game.\<close>

lemma js_inv_unique:
  "js_inv st \<Longrightarrow> getJob st k = Some j \<Longrightarrow> getJob st k' = Some j' \<Longrightarrow> job_key j = job_key j' \<Longrightarrow> k = k'"
  unfolding js_inv_def by (metis option.inject)

lemma createJob_inv:
  assumes "js_inv st" and "map_of (js_objs st) fresh = None"
    and "createJob now fresh m g pf u cl tlg st = Some (job, st')"
  shows "js_inv st' \<and> (\<forall>k. getJob st' k = (if k = fresh then Some job else getJob st k)) \<and>
    js_live st' = js_live st @ [fresh]"
proof -
  have nl: "fresh \<notin> set (js_live st)" using assms(1,2) by (auto simp: js_inv_def)
  have st': "map_of (js_keyIdx st) (matchGameKey m g) = None"
    "job = \<lparr>pj_id = fresh, pj_matchId = m, pj_gameId = g, pj_platform = pf, pj_username = u, pj_attempt = 0,
       pj_createdAt = now, pj_lastPolledAt = None, pj_createdAtLedger = cl, pj_timeoutLedgers = tlg\<rparr>"
    "st' = \<lparr>js_objs = AList.update fresh job (js_objs st), js_live = (if fresh \<in> set (js_live st) then js_live st else js_live st @ [fresh]),
       js_matchIdx = AList.update m fresh (js_matchIdx st), js_keyIdx = AList.update (matchGameKey m g) fresh (js_keyIdx st)\<rparr>"
    using assms(3) by (auto simp: createJob_def Let_def split: if_splits)
  have live: "set (js_live st') = insert fresh (set (js_live st))" "distinct (js_live st')"
    using st'(3) nl assms(1) by (auto simp: js_inv_def)
  have get: "getJob st' k = (if k = fresh then Some job else getJob st k)" for k
    using st'(3) live(1) by (auto simp: getJob_def jsmap_simps)
  have nf: "getJob st fresh = None" using nl by (simp add: getJob_def)
  have kj: "job_key job = matchGameKey m g" "pj_matchId job = m" "pj_id job = fresh" by (simp_all add: st'(2) job_key_def)
  have idx: "js_keyIdx st' = AList.update (matchGameKey m g) fresh (js_keyIdx st)"
    "js_matchIdx st' = AList.update m fresh (js_matchIdx st)" by (simp_all add: st'(3))
  have "map_of (js_keyIdx st') key = Some k \<longleftrightarrow> (\<exists>j. getJob st' k = Some j \<and> job_key j = key)" for key k
  proof (cases "key = matchGameKey m g")
    case True
    have "getJob st k = Some j \<Longrightarrow> job_key j \<noteq> matchGameKey m g" for j
      using assms(1) st'(1) unfolding js_inv_def by (metis option.distinct(1))
    with True show ?thesis by (auto simp: get idx kj jsmap_simps)
  next
    case False
    moreover have "map_of (js_keyIdx st) key = Some k \<longleftrightarrow> (\<exists>j. getJob st k = Some j \<and> job_key j = key)"
      using assms(1) unfolding js_inv_def by blast
    ultimately show ?thesis using nf by (auto simp: get idx kj jsmap_simps)
  qed
  moreover have "\<exists>j. getJob st' k = Some j \<and> pj_matchId j = m'" if "map_of (js_matchIdx st') m' = Some k" for m' k
  proof (cases "m' = m")
    case True
    with that show ?thesis by (auto simp: get idx kj jsmap_simps)
  next
    case False
    with that st'(3) have "map_of (js_matchIdx st) m' = Some k" by (simp add: jsmap_simps)
    then obtain j where "getJob st k = Some j" "pj_matchId j = m'" using assms(1) unfolding js_inv_def by blast
    with nf show ?thesis by (auto simp: get)
  qed
  moreover have "set (js_live st') \<subseteq> dom (map_of (js_objs st'))"
    "\<forall>k j. map_of (js_objs st') k = Some j \<longrightarrow> pj_id j = k"
    using assms(1) live st'(3) kj by (auto simp: js_inv_def jsmap_simps)
  ultimately show ?thesis using live get st'(3) nl unfolding js_inv_def by simp
qed

lemma removeJob_get:
  assumes "js_inv st"
  shows "getJob (removeJob k st) k' = (if k' = k then None else getJob st k')"
    "js_live (removeJob k st) = filter (\<lambda>x. x \<noteq> k) (js_live st)" "js_objs (removeJob k st) = js_objs st"
proof -
  have n: "filter (\<lambda>x. x \<noteq> k) (js_live st) = js_live st" if "getJob st k = None"
    using that getJob_live[OF assms, of k] by (auto simp: filter_id_conv)
  show "js_live (removeJob k st) = filter (\<lambda>x. x \<noteq> k) (js_live st)" "js_objs (removeJob k st) = js_objs st"
    using n by (auto simp: removeJob_def removeJobIndexes_def Let_def split: option.splits)
  then show "getJob (removeJob k st) k' = (if k' = k then None else getJob st k')" by (simp add: getJob_def)
qed

lemma removeJob_inv:
  assumes "js_inv st"
  shows "js_inv (removeJob k st)"
proof (cases "getJob st k")
  case None
  then show ?thesis using assms by (simp add: removeJob_def)
next
  case (Some j)
  then have id: "pj_id j = k" using assms by (auto simp: js_inv_def getJob_def split: if_splits)
  have key: "map_of (js_keyIdx st) (job_key j) = Some k" using assms Some unfolding js_inv_def by blast
  have kx: "map_of (js_keyIdx (removeJob k st)) = (map_of (js_keyIdx st))(job_key j := None)"
    using key id Some by (auto simp: removeJob_def removeJobIndexes_def job_key_def Let_def delete_conv')
  have mx: "map_of (js_matchIdx (removeJob k st)) m = Some k' \<Longrightarrow> map_of (js_matchIdx st) m = Some k' \<and> k' \<noteq> k" for m k'
  proof -
    assume a: "map_of (js_matchIdx (removeJob k st)) m = Some k'"
    then have b: "map_of (js_matchIdx st) m = Some k'"
      using Some by (auto simp: removeJob_def removeJobIndexes_def jsmap_simps Let_def split: if_splits)
    have "k' \<noteq> k"
    proof
      assume "k' = k"
      with b have "m = pj_matchId j" using assms Some unfolding js_inv_def by force
      with a b \<open>k' = k\<close> id Some show False
        by (auto simp: removeJob_def removeJobIndexes_def jsmap_simps Let_def split: if_splits)
    qed
    with b show ?thesis by simp
  qed
  note r = removeJob_get[OF assms, of k]
  have "map_of (js_keyIdx (removeJob k st)) q = Some k' \<longleftrightarrow> (\<exists>j. getJob (removeJob k st) k' = Some j \<and> job_key j = q)" for q k'
  proof -
    have "map_of (js_keyIdx st) q = Some k' \<longleftrightarrow> (\<exists>j. getJob st k' = Some j \<and> job_key j = q)"
      using assms unfolding js_inv_def by blast
    moreover have "k' \<noteq> k \<Longrightarrow> getJob st k' = Some j' \<Longrightarrow> job_key j' \<noteq> job_key j" for j'
      using js_inv_unique[OF assms] Some by blast
    ultimately show ?thesis using Some by (auto simp: kx r(1))
  qed
  moreover have "\<exists>j. getJob (removeJob k st) k' = Some j \<and> pj_matchId j = m" if "map_of (js_matchIdx (removeJob k st)) m = Some k'" for m k'
    using mx[OF that] assms unfolding js_inv_def r(1) by auto
  moreover have "distinct (js_live (removeJob k st))" "set (js_live (removeJob k st)) \<subseteq> dom (map_of (js_objs (removeJob k st)))"
    "\<forall>k' j. map_of (js_objs (removeJob k st)) k' = Some j \<longrightarrow> pj_id j = k'"
    using assms by (auto simp: r(2,3) js_inv_def)
  ultimately show ?thesis unfolding js_inv_def by blast
qed

section \<open>Lemmas: a game that goes on\<close>

text \<open>The default settings, a job without a ledger window and a platform that answers that the game is
  in progress.\<close>

definition ongoing :: "polling_config \<Rightarrow> int \<Rightarrow> bool" where
  "ongoing cfg P \<longleftrightarrow> pc_pollingIntervalMs cfg = of_int P \<and> pc_backoffMultiplier cfg = 1 \<and> 1 \<le> P \<and> P \<le> 2 ^ 31 - 1"

definition in_progress_at :: "polling_config \<Rightarrow> int \<Rightarrow> bool" where
  "in_progress_at cfg now \<longleftrightarrow> (\<forall>job. \<exists>st. pc_poll cfg now job = Some st \<and> pst_status st = PollInProgress)"

definition only_job :: "string \<Rightarrow> nat \<Rightarrow> worker \<Rightarrow> bool" where
  "only_job j a w \<longleftrightarrow> js_live (pw_store w) = [j] \<and> \<not> pw_stopped w \<and>
    (\<exists>job. map_of (js_objs (pw_store w)) j = Some job \<and> pj_createdAtLedger job = None \<and> pj_attempt job = a)"

lemma delay_ongoing: "ongoing cfg P \<Longrightarrow> timer_ms (Some (calculateNextPollDelay n (pc_pollingIntervalMs cfg) (pc_backoffMultiplier cfg))) = P"
proof -
  assume a: "ongoing cfg P"
  have "\<lfloor>of_int P + 1 / 2 :: rat\<rfloor> = P" by linarith
  with a show ?thesis by (simp add: ongoing_def calculateNextPollDelay_def timer_ms_def)
qed

lemma pollJob_ongoing:
  assumes "ongoing cfg P" "in_progress_at cfg now" "only_job j a w"
  shows "only_job j (Suc a) (pollJob cfg now j w)"
    "pw_armed (pollJob cfg now j w) = pw_armed w @ [(pw_next w, now + P, JobTimer j)]"
    "pw_next (pollJob cfg now j w) = Suc (pw_next w)"
    "pw_events (pollJob cfg now j w) = pw_events w @ [Polled j now]"
    "map_of (pw_handles (pollJob cfg now j w)) CycleTimer = map_of (pw_handles w) CycleTimer"
proof -
  obtain job where job: "js_live (pw_store w) = [j]" "\<not> pw_stopped w" "map_of (js_objs (pw_store w)) j = Some job"
    "pj_createdAtLedger job = None" "pj_attempt job = a"
    using assms(3) by (auto simp: only_job_def)
  let ?job = "job\<lparr>pj_attempt := Suc a, pj_lastPolledAt := Some now\<rparr>"
  let ?w = "emit (Polled j now) (on_store (incrementAttempt now j) w)"
  have g: "getJob (pw_store w) j = Some job" using job by (simp add: getJob_def)
  have st: "pw_store ?w = (pw_store w)\<lparr>js_objs := AList.update j ?job (js_objs (pw_store w))\<rparr>"
    using g job(5) by (simp add: emit_def on_store_def incrementAttempt_def)
  have o: "job_obj ?w j = ?job" by (simp add: job_obj_def st jsmap_simps)
  obtain stat where stat: "pc_poll cfg now ?job = Some stat" "pst_status stat = PollInProgress"
    using assms(2) by (auto simp: in_progress_at_def)
  have c: "checkLedgerTimeout cfg now j w = (False, w)"
    using job by (simp add: checkLedgerTimeout_def job_obj_def)
  have p: "pollJob cfg now j w = arm now (calculateNextPollDelay (Suc a) (pc_pollingIntervalMs cfg) (pc_backoffMultiplier cfg)) (JobTimer j) ?w"
    using stat by (simp add: pollJob_def c o handleStatus_def Let_def)
  have w: "pw_armed ?w = pw_armed w" "pw_next ?w = pw_next w" "pw_handles ?w = pw_handles w" "pw_stopped ?w = pw_stopped w"
    "pw_events ?w = pw_events w @ [Polled j now]"
    by (simp_all add: emit_def on_store_def)
  show "only_job j (Suc a) (pollJob cfg now j w)"
    using job by (simp add: p arm_def only_job_def st w jsmap_simps)
  show "pw_armed (pollJob cfg now j w) = pw_armed w @ [(pw_next w, now + P, JobTimer j)]"
    "pw_next (pollJob cfg now j w) = Suc (pw_next w)"
    "pw_events (pollJob cfg now j w) = pw_events w @ [Polled j now]"
    "map_of (pw_handles (pollJob cfg now j w)) CycleTimer = map_of (pw_handles w) CycleTimer"
    using delay_ongoing[OF assms(1)] by (simp_all add: p arm_def w jsmap_simps)
qed

text \<open>The job timers of one instant, fired one after the other.\<close>

lemma fire_job_timers:
  assumes "ongoing cfg P" "in_progress_at cfg now"
  shows "only_job j a w \<Longrightarrow> pw_armed w = map (\<lambda>i. (i, now, JobTimer j)) ts @ rest \<Longrightarrow>
      distinct ts \<Longrightarrow> \<forall>i \<in> set ts. i < pw_next w \<and> i \<notin> fst ` set rest \<Longrightarrow>
    \<exists>w'. fold (fire_one cfg now) (map (\<lambda>i. (i, now, JobTimer j)) ts) w = w' \<and> only_job j (a + length ts) w' \<and>
      pw_armed w' = rest @ map (\<lambda>i. (i, now + P, JobTimer j)) [pw_next w..<pw_next w + length ts] \<and>
      pw_next w' = pw_next w + length ts \<and> pw_events w' = pw_events w @ replicate (length ts) (Polled j now) \<and>
      map_of (pw_handles w') CycleTimer = map_of (pw_handles w) CycleTimer"
proof (induction ts arbitrary: w a rest)
  case (Cons t ts)
  let ?t = "(t, now, JobTimer j)"
  let ?w = "clear_timer t w"
  have ok: "only_job j a ?w" using Cons.prems(1) by (simp add: only_job_def clear_timer_def)
  have "filter (\<lambda>(i, _). i \<noteq> t) (map (\<lambda>i. (i, now, JobTimer j)) ts) = map (\<lambda>i. (i, now, JobTimer j)) ts"
    "filter (\<lambda>(i, _). i \<noteq> t) rest = rest"
    using Cons.prems(3,4) by (auto simp: filter_id_conv image_iff)
  then have armed: "pw_armed ?w = map (\<lambda>i. (i, now, JobTimer j)) ts @ rest"
    using Cons.prems(2) by (simp add: clear_timer_def)
  have sel: "pw_next ?w = pw_next w" "pw_events ?w = pw_events w" "pw_handles ?w = pw_handles w"
    by (simp_all add: clear_timer_def)
  have f: "fire_one cfg now ?t w = pollJob cfg now j ?w"
    using Cons.prems(1,2) by (simp add: fire_one_def fire_def only_job_def clear_timer_def)
  note p = pollJob_ongoing[OF assms ok]
  let ?v = "pollJob cfg now j ?w"
  have "pw_armed ?v = map (\<lambda>i. (i, now, JobTimer j)) ts @ (rest @ [(pw_next w, now + P, JobTimer j)])"
    using p(2) armed sel by simp
  note IH = Cons.IH[OF p(1) this]
  have "\<forall>i \<in> set ts. i < pw_next ?v \<and> i \<notin> fst ` set (rest @ [(pw_next w, now + P, JobTimer j)])"
    using Cons.prems(4) p(3) sel by auto
  from IH[OF _ this] Cons.prems(3) p(3-5) sel obtain w' where
    "fold (fire_one cfg now) (map (\<lambda>i. (i, now, JobTimer j)) ts) ?v = w'" "only_job j (Suc a + length ts) w'"
    "pw_armed w' = (rest @ [(pw_next w, now + P, JobTimer j)]) @ map (\<lambda>i. (i, now + P, JobTimer j)) [Suc (pw_next w)..<Suc (pw_next w) + length ts]"
    "pw_next w' = Suc (pw_next w) + length ts"
    "pw_events w' = (pw_events w @ [Polled j now]) @ replicate (length ts) (Polled j now)"
    "map_of (pw_handles w') CycleTimer = map_of (pw_handles w) CycleTimer"
    by auto
  moreover have "[pw_next w..<pw_next w + length (t # ts)] = pw_next w # [Suc (pw_next w)..<Suc (pw_next w) + length ts]"
    by (subst upt_conv_Cons) simp_all
  ultimately show ?case using f by (simp del: upt_Suc)
qed simp

text \<open>The state between two instants: \<open>n\<close> job timers and the cycle timer, all due at \<open>due\<close>.\<close>

definition waiting :: "string \<Rightarrow> nat \<Rightarrow> nat \<Rightarrow> int \<Rightarrow> worker \<Rightarrow> bool" where
  "waiting j a n due w \<longleftrightarrow> only_job j a w \<and> (\<exists>ts c. pw_armed w = map (\<lambda>i. (i, due, JobTimer j)) ts @ [(c, due, CycleTimer)] \<and>
     length ts = n \<and> distinct (ts @ [c]) \<and> (\<forall>i \<in> set (ts @ [c]). i < pw_next w) \<and>
     map_of (pw_handles w) CycleTimer = Some c)"

lemma cycle_ongoing:
  assumes "ongoing cfg P" "in_progress_at cfg now" "only_job j a w"
    and "pw_armed w = map (\<lambda>i. (i, now + P, JobTimer j)) ts" and "distinct ts" and "\<forall>i \<in> set ts. i < pw_next w"
    and "\<forall>c. map_of (pw_handles w) CycleTimer = Some c \<longrightarrow> c \<notin> set ts \<and> c < pw_next w"
  shows "waiting j (Suc a) (Suc (length ts)) (now + P) (pollAllJobs cfg now w) \<and>
    pw_events (pollAllJobs cfg now w) = pw_events w @ [Polled j now]"
proof -
  note p = pollJob_ongoing[OF assms(1-3)]
  let ?v = "pollJob cfg now j w"
  define n where "n = pw_next w"
  define u where "u = (case map_of (pw_handles ?v) CycleTimer of None \<Rightarrow> ?v | Some c \<Rightarrow> clear_timer c ?v)"
  have live: "js_live (pw_store w) = [j]" "\<not> pw_stopped ?v" using assms(3) p(1) by (auto simp: only_job_def)
  have P: "timer_ms (Some \<lfloor>pc_pollingIntervalMs cfg\<rfloor>) = P" using assms(1) by (simp add: ongoing_def timer_ms_def)
  have w': "pollAllJobs cfg now w = arm now \<lfloor>pc_pollingIntervalMs cfg\<rfloor> CycleTimer u"
    using live by (simp add: pollAllJobs_def listPendingJobs_def scheduleNextPoll_def u_def Let_def)
  have armed: "pw_armed ?v = map (\<lambda>i. (i, now + P, JobTimer j)) (ts @ [n])" using p(2) assms(4) by (simp add: n_def)
  have c: "c \<notin> set (ts @ [n])" if "map_of (pw_handles ?v) CycleTimer = Some c" for c
    using assms(7) that p(5) by (auto simp: n_def)
  have u: "pw_armed u = map (\<lambda>i. (i, now + P, JobTimer j)) (ts @ [n])" "pw_next u = Suc n" "pw_events u = pw_events ?v"
    "only_job j (Suc a) u"
  proof -
    show "pw_armed u = map (\<lambda>i. (i, now + P, JobTimer j)) (ts @ [n])"
    proof (cases "map_of (pw_handles ?v) CycleTimer")
      case (Some k)
      have "filter (\<lambda>(i, _). i \<noteq> k) (pw_armed ?v) = pw_armed ?v"
        using c[OF Some] unfolding armed by (auto simp: filter_id_conv)
      with Some armed show ?thesis by (simp add: u_def clear_timer_def)
    qed (simp add: u_def armed)
    show "pw_next u = Suc n" "pw_events u = pw_events ?v" "only_job j (Suc a) u"
      using p(1,3) by (auto simp: u_def clear_timer_def n_def only_job_def split: option.split)
  qed
  show ?thesis
    unfolding w' waiting_def
  proof (intro conjI exI[of _ "ts @ [n]"] exI[of _ "Suc n"])
    show "only_job j (Suc a) (arm now \<lfloor>pc_pollingIntervalMs cfg\<rfloor> CycleTimer u)" using u(4) by (simp add: only_job_def arm_def)
  qed (use u P p(4) assms(5,6) in \<open>auto simp: arm_def n_def jsmap_simps\<close>)
qed

lemma tick_ongoing:
  assumes "ongoing cfg P" "in_progress_at cfg due" "waiting j a n due w"
  shows "waiting j (a + Suc n) (Suc n) (due + P) (tick cfg due w) \<and>
    pw_events (tick cfg due w) = pw_events w @ replicate (Suc n) (Polled j due)"
proof -
  obtain ts c where w: "only_job j a w" "pw_armed w = map (\<lambda>i. (i, due, JobTimer j)) ts @ [(c, due, CycleTimer)]"
    "length ts = n" "distinct ts" "c \<notin> set ts" "\<forall>i \<in> set ts. i < pw_next w" "c < pw_next w"
    "map_of (pw_handles w) CycleTimer = Some c"
    using assms(3) by (auto simp: waiting_def)
  obtain v where v: "fold (fire_one cfg due) (map (\<lambda>i. (i, due, JobTimer j)) ts) w = v" "only_job j (a + n) v"
    "pw_armed v = [(c, due, CycleTimer)] @ map (\<lambda>i. (i, due + P, JobTimer j)) [pw_next w..<pw_next w + n]"
    "pw_next v = pw_next w + n" "pw_events v = pw_events w @ replicate n (Polled j due)"
    "map_of (pw_handles v) CycleTimer = Some c"
    using fire_job_timers[OF assms(1,2) w(1,2,4)] w by auto
  let ?u = "clear_timer c v"
  have u: "pw_armed ?u = map (\<lambda>i. (i, due + P, JobTimer j)) [pw_next w..<pw_next w + n]"
    using w(7) by (auto simp: clear_timer_def v(3) filter_id_conv)
  have "tick cfg due w = fire_one cfg due (c, due, CycleTimer) v"
    using v(1) w(2) by (simp add: tick_def)
  also have "\<dots> = pollAllJobs cfg due ?u"
    using v(2,3) by (simp add: fire_one_def fire_def clear_timer_def only_job_def)
  finally have t: "tick cfg due w = pollAllJobs cfg due ?u" .
  have o: "only_job j (a + n) ?u" using v(2) by (simp add: only_job_def clear_timer_def)
  have "waiting j (Suc (a + n)) (Suc n) (due + P) (pollAllJobs cfg due ?u) \<and>
      pw_events (pollAllJobs cfg due ?u) = pw_events ?u @ [Polled j due]"
    using cycle_ongoing[OF assms(1,2) o u] v(4,6) w(7) by (simp add: clear_timer_def)
  then show ?thesis using v(5) by (simp add: t clear_timer_def replicate_append_same)
qed

section \<open>Properties\<close>

text \<open>The worker started at time 0 and run for \<open>n\<close> intervals of length \<open>P\<close>.\<close>

definition polling_run :: "polling_config \<Rightarrow> int \<Rightarrow> nat \<Rightarrow> worker \<Rightarrow> worker" where
  "polling_run cfg P n w = fold (\<lambda>k. tick cfg (int k * P)) [1..<Suc n] (start_worker cfg 0 w)"

lemma polling_run_Suc: "polling_run cfg P (Suc n) w = tick cfg (int (Suc n) * P) (polling_run cfg P n w)"
  by (simp add: polling_run_def)

lemma polling_run_ongoing:
  assumes "ongoing cfg P" "\<forall>t. in_progress_at cfg t" "only_job j 0 (new_worker st)"
  shows "waiting j (\<Sum>{0..Suc n}) (Suc n) ((int n + 1) * P) (polling_run cfg P n (new_worker st)) \<and>
    pw_events (polling_run cfg P n (new_worker st)) =
      concat (map (\<lambda>k. replicate (Suc k) (Polled j (int k * P))) [0..<Suc n])"
proof (induction n)
  case 0
  have i0: "in_progress_at cfg 0" using assms(2) by blast
  have w0: "waiting j (Suc 0) (Suc 0) P (pollAllJobs cfg 0 (new_worker st)) \<and>
    pw_events (pollAllJobs cfg 0 (new_worker st)) = pw_events (new_worker st) @ [Polled j 0]"
    using cycle_ongoing[OF assms(1) i0 assms(3), of "[]"] by (simp add: new_worker_def)
  then show ?case by (simp add: polling_run_def start_worker_def new_worker_def)
next
  case (Suc n)
  let ?d = "(int n + 1) * P"
  have i: "in_progress_at cfg ?d" using assms(2) by blast
  have t: "int (Suc n) * P = ?d" by simp
  from Suc tick_ongoing[OF assms(1) i, of j "\<Sum>{0..Suc n}" "Suc n" "polling_run cfg P n (new_worker st)"]
  have "waiting j (\<Sum>{0..Suc n} + Suc (Suc n)) (Suc (Suc n)) (?d + P) (tick cfg ?d (polling_run cfg P n (new_worker st)))"
    and e: "pw_events (tick cfg ?d (polling_run cfg P n (new_worker st))) =
      pw_events (polling_run cfg P n (new_worker st)) @ replicate (Suc (Suc n)) (Polled j ?d)" by blast+
  moreover have "?d + P = (int (Suc n) + 1) * P" by (simp add: algebra_simps)
  ultimately show ?case using Suc unfolding polling_run_Suc t by (simp add: add.commute)
qed

definition job_ex :: poll_job where
  "job_ex = \<lparr>pj_id = ''j'', pj_matchId = 1, pj_gameId = ''g1'', pj_platform = ''lichess'', pj_username = None,
     pj_attempt = 0, pj_createdAt = 0, pj_lastPolledAt = None, pj_createdAtLedger = None, pj_timeoutLedgers = None\<rparr>"

definition store_ex :: job_store where
  "store_ex = \<lparr>js_objs = [(''j'', job_ex)], js_live = [''j''], js_matchIdx = [(1, ''j'')],
     js_keyIdx = [(matchGameKey 1 ''g1'', ''j'')]\<rparr>"

definition poll_cfg :: "(int \<Rightarrow> poll_job \<Rightarrow> poll_status option) \<Rightarrow> polling_config" where
  "poll_cfg p = resolve_config None None None None (\<lambda>_. None) p"

lemma poll_cfg_sel [simp]:
  "pc_pollingIntervalMs (poll_cfg p) = 30000" "pc_maxPollingAttempts (poll_cfg p) = Some 1440"
  "pc_backoffMultiplier (poll_cfg p) = 1" "pc_getCurrentLedger (poll_cfg p) = (\<lambda>_. None)" "pc_poll (poll_cfg p) = p"
  by (simp_all add: poll_cfg_def resolve_config_def)

lemma ongoing_ex: "ongoing (poll_cfg p) 30000" by (simp add: ongoing_def)

lemma only_job_ex: "only_job ''j'' 0 (new_worker store_ex)"
  by (simp add: only_job_def new_worker_def store_ex_def job_ex_def)

lemma in_progress_ex: "in_progress_at (poll_cfg (\<lambda>t job. Some (status_of PollInProgress None))) t"
  by (simp add: in_progress_at_def status_of_def)

text \<open>C6. With the default settings a game in progress is not polled once per interval: every poll arms
  a timer of its own beside the cycle, so the polls of one game grow by one with every interval, to
  \<open>n + 1\<close> at the \<open>n\<close>-th interval, and the attempt counter is their sum.\<close>

theorem polls_grow_each_interval:
  assumes "ongoing cfg P" and "\<forall>t. in_progress_at cfg t" and "only_job j 0 (new_worker st)" and "k \<le> n"
  shows "count_list (pw_events (polling_run cfg P n (new_worker st))) (Polled j (int k * P)) = k + 1 \<and>
    pj_attempt (job_obj (polling_run cfg P n (new_worker st)) j) = (n + 1) * (n + 2) div 2"
proof -
  note r = polling_run_ongoing[OF assms(1-3), of n]
  have P0: "P \<noteq> 0" using assms(1) by (auto simp: ongoing_def)
  have inj: "Polled j (int a * P) = Polled j (int b * P) \<longleftrightarrow> a = b" for a b
    using assms(1) by (auto simp: ongoing_def)
  have c: "count_list (concat (map (\<lambda>k. replicate (Suc k) (Polled j (int k * P))) [0..<m])) (Polled j (int k * P)) =
      (if k < m then k + 1 else 0)" for m
  proof (induction m)
    case (Suc m)
    have rep: "count_list (replicate l (Polled j (int m * P))) (Polled j (int k * P)) = (if k = m then l else 0)" for l
      by (induction l) (use inj[of m k] P0 in auto)
    show ?case using Suc rep P0 by auto
  qed simp
  have "pj_attempt (job_obj (polling_run cfg P n (new_worker st)) j) = \<Sum>{0..Suc n}"
    using r by (auto simp: waiting_def only_job_def job_obj_def)
  also have "\<dots> = Suc n * (Suc n + 1) div 2" using gauss_sum_nat[of "Suc n"] by simp
  finally show ?thesis using r c[of "Suc n"] assms(4) by simp
qed

theorem polls_grow_each_interval_witness:
  "count_list (pw_events (polling_run (poll_cfg (\<lambda>t job. Some (status_of PollInProgress None))) 30000 53 (new_worker store_ex)))
     (Polled ''j'' 1590000) = 54 \<and>
   pj_attempt (job_obj (polling_run (poll_cfg (\<lambda>t job. Some (status_of PollInProgress None))) 30000 53 (new_worker store_ex)) ''j'') = 1485"
  using polls_grow_each_interval[OF ongoing_ex _ only_job_ex, of "\<lambda>t job. Some (status_of PollInProgress None)" 53 53]
    in_progress_ex by simp

text \<open>A stopped worker does nothing any more: whatever timers are still armed, no instant of the event
  loop polls a game, calls a handler or changes a job.\<close>

lemma polling_stopped_quiet:
  "pw_events (fold (tick cfg) ts (stop_worker w)) = pw_events w \<and> pw_store (fold (tick cfg) ts (stop_worker w)) = pw_store w"
proof -
  have fire: "pw_stopped v \<Longrightarrow> pw_stopped (fire_one cfg t x v) \<and> pw_events (fire_one cfg t x v) = pw_events v \<and>
      pw_store (fire_one cfg t x v) = pw_store v" for t x v
    by (simp add: fire_one_def fire_def clear_timer_def)
  have fires: "pw_stopped v \<Longrightarrow> pw_stopped (fold (fire_one cfg t) xs v) \<and>
      pw_events (fold (fire_one cfg t) xs v) = pw_events v \<and> pw_store (fold (fire_one cfg t) xs v) = pw_store v" for t xs v
    by (induction xs arbitrary: v) (use fire in auto)
  have "pw_stopped v \<Longrightarrow> pw_events (fold (tick cfg) ts v) = pw_events v \<and> pw_store (fold (tick cfg) ts v) = pw_store v" for v
    by (induction ts arbitrary: v) (use fires in \<open>auto simp: tick_def\<close>)
  then show ?thesis by (simp add: stop_worker_def)
qed

text \<open>The job store holds at most one job per match and game: under its invariant a new job is refused
  exactly when the pair is already watched; an accepted one keeps the invariant and every other job,
  becomes the job found by its match, and removing it lets the pair be watched again.\<close>

lemma job_store_dedup:
  assumes "js_inv st" and "map_of (js_objs st) fresh = None" and "fresh \<noteq> []"
  shows "(createJob now fresh m g pf u cl tlg st = None \<longleftrightarrow>
      (\<exists>k j. getJob st k = Some j \<and> pj_matchId j = m \<and> pj_gameId j = g)) \<and>
    (\<forall>job st'. createJob now fresh m g pf u cl tlg st = Some (job, st') \<longrightarrow>
      js_inv st' \<and> (\<forall>k. k \<noteq> fresh \<longrightarrow> getJob st' k = getJob st k) \<and> getJob st' fresh = Some job \<and>
      getJobByMatchId st' m = Some job \<and>
      js_inv (removeJob fresh st') \<and> (\<forall>k. getJob (removeJob fresh st') k = getJob st k))"
proof (intro conjI allI impI)
  have "createJob now fresh m g pf u cl tlg st = None \<longleftrightarrow> map_of (js_keyIdx st) (matchGameKey m g) \<noteq> None"
    by (simp add: createJob_def Let_def)
  also have "\<dots> \<longleftrightarrow> (\<exists>k j. getJob st k = Some j \<and> job_key j = matchGameKey m g)"
    using assms(1) unfolding js_inv_def by (metis not_None_eq)
  finally show "createJob now fresh m g pf u cl tlg st = None \<longleftrightarrow>
      (\<exists>k j. getJob st k = Some j \<and> pj_matchId j = m \<and> pj_gameId j = g)" by (simp add: job_key_def)
  fix job st' assume c: "createJob now fresh m g pf u cl tlg st = Some (job, st')"
  note i = createJob_inv[OF assms(1,2) c]
  have nf: "getJob st fresh = None" using assms(2) by (simp add: getJob_def)
  show inv: "js_inv st'" and "getJob st' fresh = Some job" using i by simp_all
  show "getJob st' k = getJob st k" if "k \<noteq> fresh" for k using i that by simp
  have "map_of (js_matchIdx st') m = Some fresh" using c by (auto simp: createJob_def Let_def jsmap_simps split: if_splits)
  then show "getJobByMatchId st' m = Some job" using i assms(3) by (simp add: getJobByMatchId_def)
  show "js_inv (removeJob fresh st')" by (rule removeJob_inv[OF inv])
  show "getJob (removeJob fresh st') k = getJob st k" for k using i nf by (simp add: removeJob_get[OF inv])
qed

lemma store_ex_inv: "js_inv store_ex"
  by (auto simp: js_inv_def store_ex_def getJob_def job_key_def job_ex_def split: if_splits)

lemma job_store_dedup_example:
  "createJob 0 ''k'' 1 ''g1'' ''lichess'' None None None store_ex = None"
  using job_store_dedup[OF store_ex_inv, of "''k''" 0 1 "''g1''" "''lichess''" None None None]
  by (force simp: store_ex_def getJob_def job_ex_def)

definition completed_status :: "match_result \<Rightarrow> poll_status" where
  "completed_status r = (status_of PollCompleted None)\<lparr>pst_result := Some r\<rparr>"

lemma pollJob_completed:
  assumes "pc_poll cfg now = (\<lambda>job. Some (completed_status r))" and "map_of (js_objs (pw_store w)) j = Some job"
    and "pj_createdAtLedger job = None"
  shows "\<exists>job'. map_of (js_objs (pw_store (pollJob cfg now j w))) j = Some job' \<and> pj_createdAtLedger job' = None \<and>
    pj_id job' = pj_id job \<and>
    js_live (pw_store (pollJob cfg now j w)) = filter (\<lambda>x. x \<noteq> j) (js_live (pw_store w)) \<and>
    pw_armed (pollJob cfg now j w) = pw_armed w \<and> pw_stopped (pollJob cfg now j w) = pw_stopped w \<and>
    pw_events (pollJob cfg now j w) = pw_events w @ [Polled j now, GameCompleted job' r None]"
proof -
  let ?w = "emit (Polled j now) (on_store (incrementAttempt now j) w)"
  have c: "checkLedgerTimeout cfg now j w = (False, w)"
    using assms(2,3) by (simp add: checkLedgerTimeout_def job_obj_def)
  have p: "pollJob cfg now j w = emit (GameCompleted (job_obj ?w j) r None) (on_store (completeJob j) ?w)"
    using assms(1) by (simp add: pollJob_def c handleStatus_def completed_status_def status_of_def Let_def)
  obtain job' where job': "map_of (js_objs (pw_store ?w)) j = Some job'" "pj_createdAtLedger job' = None" "pj_id job' = pj_id job"
    using assms(2,3) by (cases "j \<in> set (js_live (pw_store w))")
      (auto simp: emit_def on_store_def incrementAttempt_def getJob_def jsmap_simps)
  have live: "js_live (pw_store ?w) = js_live (pw_store w)"
    by (auto simp: emit_def on_store_def incrementAttempt_def split: option.split)
  have rm: "js_live (removeJob j st) = filter (\<lambda>x. x \<noteq> j) (js_live st) \<and> js_objs (removeJob j st) = js_objs st"
    if "map_of (js_objs st) j \<noteq> None" for st
  proof (cases "j \<in> set (js_live st)")
    case False
    then have "filter (\<lambda>x. x \<noteq> j) (js_live st) = js_live st" by (auto simp: filter_id_conv)
    with False show ?thesis by (simp add: removeJob_def getJob_def)
  qed (use that in \<open>auto simp: removeJob_def getJob_def removeJobIndexes_def Let_def\<close>)
  from rm[of "pw_store ?w"] job' live show ?thesis
    by (simp add: p job_obj_def) (simp add: emit_def on_store_def completeJob_def)
qed

definition completions :: "worker \<Rightarrow> nat" where
  "completions w = length [e \<leftarrow> pw_events w. case e of GameCompleted _ _ _ \<Rightarrow> True | _ \<Rightarrow> False]"

lemma fire_completed_timers:
  assumes "pc_poll cfg now = (\<lambda>job. Some (completed_status r))"
  shows "map_of (js_objs (pw_store w)) j = Some job \<Longrightarrow> pj_createdAtLedger job = None \<Longrightarrow> \<not> pw_stopped w \<Longrightarrow>
      pw_armed w = map (\<lambda>i. (i, now, JobTimer j)) ts @ rest \<Longrightarrow> distinct ts \<Longrightarrow> \<forall>i \<in> set ts. i \<notin> fst ` set rest \<Longrightarrow>
    \<exists>w' job'. fold (fire_one cfg now) (map (\<lambda>i. (i, now, JobTimer j)) ts) w = w' \<and>
      map_of (js_objs (pw_store w')) j = Some job' \<and> pj_createdAtLedger job' = None \<and> \<not> pw_stopped w' \<and>
      js_live (pw_store w') = (if ts = [] then js_live (pw_store w) else filter (\<lambda>x. x \<noteq> j) (js_live (pw_store w))) \<and>
      pw_armed w' = rest \<and> completions w' = completions w + length ts"
proof (induction ts arbitrary: w job)
  case (Cons t ts)
  let ?w = "clear_timer t w"
  let ?v = "pollJob cfg now j ?w"
  have "filter (\<lambda>(i, _). i \<noteq> t) (map (\<lambda>i. (i, now, JobTimer j)) ts) = map (\<lambda>i. (i, now, JobTimer j)) ts"
    "filter (\<lambda>(i, _). i \<noteq> t) rest = rest"
    using Cons.prems(5,6) by (auto simp: filter_id_conv image_iff)
  then have armed: "pw_armed ?w = map (\<lambda>i. (i, now, JobTimer j)) ts @ rest"
    using Cons.prems(4) by (simp add: clear_timer_def)
  have sel: "pw_store ?w = pw_store w" "pw_stopped ?w = pw_stopped w" "pw_events ?w = pw_events w" by (simp_all add: clear_timer_def)
  have f: "fire_one cfg now (t, now, JobTimer j) w = ?v"
    using Cons.prems(3,4) by (simp add: fire_one_def fire_def clear_timer_def)
  obtain job' where v: "map_of (js_objs (pw_store ?v)) j = Some job'" "pj_createdAtLedger job' = None"
    "js_live (pw_store ?v) = filter (\<lambda>x. x \<noteq> j) (js_live (pw_store w))" "pw_armed ?v = pw_armed ?w" "\<not> pw_stopped ?v"
    "pw_events ?v = pw_events w @ [Polled j now, GameCompleted job' r None]"
    using pollJob_completed[OF assms, of ?w j job] Cons.prems(1-3) sel by auto
  have "completions ?v = Suc (completions w)" by (simp add: completions_def v(6))
  with Cons.IH[OF v(1,2,5)] v(3,4) armed Cons.prems(5,6) f show ?case by auto
qed simp

lemma completions_polled:
  "completions w = 0" if "pw_events w = concat (map (\<lambda>k. replicate (f k) (Polled j (g k))) ks)"
proof -
  have "[e \<leftarrow> replicate n (Polled j t). case e of GameCompleted _ _ _ \<Rightarrow> True | _ \<Rightarrow> False] = []" for n t
    by (induction n) auto
  then show ?thesis unfolding completions_def that by (induction ks) auto
qed

text \<open>A game that stays in progress for \<open>n\<close> intervals and then ends is reported to the completion
  handler once for every timer armed meanwhile, not once: \<open>n\<close> times when the platform answers
  completed at the \<open>n\<close>-th interval.\<close>

lemma game_completed_repeatedly:
  assumes "ongoing cfg P" and "\<forall>t. in_progress_at cfg t" and "only_job j 0 (new_worker st)"
    and "cfg' = cfg\<lparr>pc_poll := \<lambda>t job. Some (completed_status r)\<rparr>"
  shows "completions (tick cfg' ((int n + 1) * P) (polling_run cfg P n (new_worker st))) = n + 1 \<and>
    js_live (pw_store (tick cfg' ((int n + 1) * P) (polling_run cfg P n (new_worker st)))) = []"
proof -
  let ?w = "polling_run cfg P n (new_worker st)" and ?d = "(int n + 1) * P"
  note run = polling_run_ongoing[OF assms(1-3), of n]
  then obtain ts c where w: "only_job j (\<Sum>{0..Suc n}) ?w" "pw_armed ?w = map (\<lambda>i. (i, ?d, JobTimer j)) ts @ [(c, ?d, CycleTimer)]"
    "length ts = Suc n" "distinct ts" "c \<notin> set ts"
    by (auto simp: waiting_def)
  have z: "completions ?w = 0" by (rule completions_polled[OF run[THEN conjunct2]])
  have p: "pc_poll cfg' ?d = (\<lambda>job. Some (completed_status r))" using assms(4) by simp
  obtain job where job: "map_of (js_objs (pw_store ?w)) j = Some job" "pj_createdAtLedger job = None" "\<not> pw_stopped ?w"
    "js_live (pw_store ?w) = [j]" using w(1) by (auto simp: only_job_def)
  have fr: "\<forall>i \<in> set ts. i \<notin> fst ` set [(c, ?d, CycleTimer)]" using w(5) by auto
  obtain v where v: "fold (fire_one cfg' ?d) (map (\<lambda>i. (i, ?d, JobTimer j)) ts) ?w = v" "\<not> pw_stopped v"
    "js_live (pw_store v) = []" "pw_armed v = [(c, ?d, CycleTimer)]" "completions v = Suc n"
    using fire_completed_timers[OF p job(1-3) w(2,4) fr] w(3) job(4) z by (cases ts) auto
  have "tick cfg' ?d ?w = fire_one cfg' ?d (c, ?d, CycleTimer) v"
    using v(1) w(2) by (simp add: tick_def)
  also have "\<dots> = pollAllJobs cfg' ?d (clear_timer c v)"
    using v(2,4) by (simp add: fire_one_def fire_def clear_timer_def)
  finally have t: "tick cfg' ?d ?w = pollAllJobs cfg' ?d (clear_timer c v)" .
  show ?thesis unfolding t using v(2,3,5)
    by (auto simp: pollAllJobs_def listPendingJobs_def clear_timer_def scheduleNextPoll_def arm_def completions_def Let_def
        split: option.split)
qed

lemma game_completed_repeatedly_example:
  "completions (tick (poll_cfg (\<lambda>t job. Some (completed_status Draw))) 90000
     (polling_run (poll_cfg (\<lambda>t job. Some (status_of PollInProgress None))) 30000 2 (new_worker store_ex))) = 3"
proof -
  have c: "poll_cfg (\<lambda>t job. Some (completed_status Draw)) =
      (poll_cfg (\<lambda>t job. Some (status_of PollInProgress None)))\<lparr>pc_poll := \<lambda>t job. Some (completed_status Draw)\<rparr>"
    by (simp add: poll_cfg_def resolve_config_def)
  show ?thesis using game_completed_repeatedly[OF ongoing_ex _ only_job_ex c, of 2] in_progress_ex by simp
qed

text \<open>A job whose match is past its ledger window is moved to the dead-letter queue as timed out without
  being polled again, whatever the platform would answer; without a ledger height, or before the end of the
  window, the job is polled.\<close>

lemma polling_ledger_window:
  assumes "map_of (js_objs (pw_store w)) j = Some job" and "getJob (pw_store w) j = Some job"
    and "js_inv (pw_store w)" and "pj_createdAtLedger job = Some c"
  shows "(\<forall>l. pc_getCurrentLedger cfg now = Some (Some l) \<and>
        c + (case pj_timeoutLedgers job of Some t \<Rightarrow> t | None \<Rightarrow> pc_defaultTimeoutLedgers cfg) \<le> l \<longrightarrow>
      pw_events (pollJob cfg now j w) = pw_events w @ [MovedToDlq job (Some ''TIMED_OUT'')] \<and>
      getJob (pw_store (pollJob cfg now j w)) j = None \<and> pw_armed (pollJob cfg now j w) = pw_armed w) \<and>
    ((\<forall>l. pc_getCurrentLedger cfg now = Some (Some l) \<longrightarrow>
        l < c + (case pj_timeoutLedgers job of Some t \<Rightarrow> t | None \<Rightarrow> pc_defaultTimeoutLedgers cfg)) \<longrightarrow>
      (\<exists>es. pw_events (pollJob cfg now j w) = pw_events w @ Polled j now # es))"
proof (intro conjI allI impI)
  fix l assume "pc_getCurrentLedger cfg now = Some (Some l) \<and>
        c + (case pj_timeoutLedgers job of Some t \<Rightarrow> t | None \<Rightarrow> pc_defaultTimeoutLedgers cfg) \<le> l"
  then have p: "pollJob cfg now j w = emit (MovedToDlq job (Some ''TIMED_OUT'')) (on_store (removeJob j) w)"
    using assms(1,4) by (auto simp: pollJob_def checkLedgerTimeout_def job_obj_def Let_def)
  show "pw_events (pollJob cfg now j w) = pw_events w @ [MovedToDlq job (Some ''TIMED_OUT'')]"
    "getJob (pw_store (pollJob cfg now j w)) j = None" "pw_armed (pollJob cfg now j w) = pw_armed w"
    using removeJob_get(1)[OF assms(3), of j j] by (simp_all add: p emit_def on_store_def)
next
  assume "\<forall>l. pc_getCurrentLedger cfg now = Some (Some l) \<longrightarrow>
        l < c + (case pj_timeoutLedgers job of Some t \<Rightarrow> t | None \<Rightarrow> pc_defaultTimeoutLedgers cfg)"
  then have c: "checkLedgerTimeout cfg now j w = (False, w)"
    using assms(1,4) by (auto simp: checkLedgerTimeout_def job_obj_def Let_def split: option.split)
  let ?v = "emit (Polled j now) (on_store (incrementAttempt now j) w)"
  have h: "\<exists>es. pw_events (handleStatus cfg now j st ?v) = pw_events ?v @ es" for st
    by (auto simp: handleStatus_def Let_def emit_def on_store_def arm_def split: poll_kind.split option.split)
  have e: "pw_events ?v = pw_events w @ [Polled j now]" by (simp add: emit_def on_store_def)
  show "\<exists>es. pw_events (pollJob cfg now j w) = pw_events w @ Polled j now # es"
    using h e by (auto simp: pollJob_def c Let_def split: option.split)
qed

lemma polling_ledger_window_example:
  "pw_events (pollJob ((poll_cfg (\<lambda>t job. None))\<lparr>pc_getCurrentLedger := \<lambda>_. Some (Some 500)\<rparr>) 0 ''j''
     (new_worker (store_ex\<lparr>js_objs := [(''j'', job_ex\<lparr>pj_createdAtLedger := Some 100, pj_timeoutLedgers := Some 400\<rparr>)]\<rparr>))) =
   [MovedToDlq (job_ex\<lparr>pj_createdAtLedger := Some 100, pj_timeoutLedgers := Some 400\<rparr>) (Some ''TIMED_OUT'')]"
proof -
  let ?job = "job_ex\<lparr>pj_createdAtLedger := Some 100, pj_timeoutLedgers := Some 400\<rparr>"
  let ?w = "new_worker (store_ex\<lparr>js_objs := [(''j'', ?job)]\<rparr>)"
  have g: "getJob (pw_store ?w) k = (if k = ''j'' then Some ?job else None)" for k
    by (simp add: new_worker_def store_ex_def getJob_def)
  have "js_inv (pw_store ?w)"
    unfolding js_inv_def g by (auto simp: new_worker_def store_ex_def job_ex_def job_key_def)
  moreover have "map_of (js_objs (pw_store ?w)) ''j'' = Some ?job" by (simp add: new_worker_def)
  ultimately show ?thesis
    using polling_ledger_window[of ?w "''j''" ?job 100 "(poll_cfg (\<lambda>t job. None))\<lparr>pc_getCurrentLedger := \<lambda>_. Some (Some 500)\<rparr>" 0] g
    by (simp add: new_worker_def)
qed

end
