(* ===== verification/Settings.thy ===== *)
theory Settings
  imports Prelude
begin

text \<open>
  Settings read from the environment: the numbers the monitors are configured with, the Stellar network
  with its canonical table (\<open>config/network.ts\<close>, \<open>config/networks.generated.ts\<close>), the settings of
  the oracle service (\<open>config/env.ts\<close>), the passphrase of the disagreement service and the settings of
  SQLite (\<open>store/sqlite-config.ts\<close>). An environment maps names to texts; a setting that is refused is the
  left part of a sum.
\<close>

type_synonym env = "string \<Rightarrow> string option"

fun bind_sum :: "'e + 'a \<Rightarrow> ('a \<Rightarrow> 'e + 'b) \<Rightarrow> 'e + 'b" where
  "bind_sum (Inl e) f = Inl e"
| "bind_sum (Inr x) f = f x"

lemma bind_sum_Inr: "bind_sum x f = Inr y \<longleftrightarrow> (\<exists>v. x = Inr v \<and> f v = Inr y)"
  by (cases x) auto

definition or_else :: "string option \<Rightarrow> string \<Rightarrow> string" where
  "or_else v d = (case v of None \<Rightarrow> d | Some s \<Rightarrow> s)"

text \<open>The name of the setting is the error.\<close>

definition readNumber :: "env \<Rightarrow> string \<Rightarrow> rat \<Rightarrow> string + rat" where
  "readNumber env name fallback =
    (case env name of
       None \<Rightarrow> Inr fallback
     | Some raw \<Rightarrow> if js_trim raw = [] then Inr fallback
        else case js_Number raw of Fin parsed \<Rightarrow> Inr parsed | _ \<Rightarrow> Inl name)"

definition readPositiveInt_strict :: "env \<Rightarrow> string \<Rightarrow> rat \<Rightarrow> string + rat" where
  "readPositiveInt_strict env name fallback =
    (case env name of
       None \<Rightarrow> Inr fallback
     | Some raw \<Rightarrow> if js_trim raw = [] then Inr fallback
        else case js_Number raw of Fin parsed \<Rightarrow> if parsed \<in> \<int> \<and> 0 < parsed then Inr parsed else Inl name
             | _ \<Rightarrow> Inl name)"

lemma readPositiveInt_strict_pos:
  "readPositiveInt_strict env name d = Inr v \<Longrightarrow> d \<in> \<int> \<Longrightarrow> 0 < d \<Longrightarrow> v \<in> \<int> \<and> 0 < v"
  by (auto simp: readPositiveInt_strict_def split: option.splits js_num.splits if_splits)

section \<open>The networks\<close>

record network_config =
  nc_network :: string
  nc_networkPassphrase :: string
  nc_rpcUrl :: string
  nc_horizonUrl :: string
  nc_friendbotUrl :: "string option"
  nc_escrow :: "string option"
  nc_oracle :: "string option"

definition NETWORKS :: "network_config list" where
  "NETWORKS =
   [\<lparr>nc_network = ''testnet'', nc_networkPassphrase = ''Test SDF Network ; September 2015'',
      nc_rpcUrl = ''https://soroban-testnet.stellar.org'', nc_horizonUrl = ''https://horizon-testnet.stellar.org'',
      nc_friendbotUrl = Some ''https://friendbot.stellar.org'', nc_escrow = None, nc_oracle = None\<rparr>,
    \<lparr>nc_network = ''mainnet'', nc_networkPassphrase = ''Public Global Stellar Network ; September 2015'',
      nc_rpcUrl = ''https://soroban-mainnet.stellar.org'', nc_horizonUrl = ''https://horizon.stellar.org'',
      nc_friendbotUrl = None, nc_escrow = None, nc_oracle = None\<rparr>,
    \<lparr>nc_network = ''futurenet'', nc_networkPassphrase = ''Test SDF Future Network ; October 2022'',
      nc_rpcUrl = ''https://rpc-futurenet.stellar.org'', nc_horizonUrl = ''https://horizon-futurenet.stellar.org'',
      nc_friendbotUrl = Some ''https://friendbot-futurenet.stellar.org'', nc_escrow = None, nc_oracle = None\<rparr>,
    \<lparr>nc_network = ''standalone'', nc_networkPassphrase = ''Standalone Network ; February 2017'',
      nc_rpcUrl = ''http://localhost:8000/soroban/rpc'', nc_horizonUrl = ''http://localhost:8000'',
      nc_friendbotUrl = Some ''http://localhost:8000/friendbot'', nc_escrow = None, nc_oracle = None\<rparr>]"

text \<open>The functions take the table they look networks up in, so that they also describe a deployment whose
  generated table has contract identifiers.\<close>

definition networkConfig :: "network_config list \<Rightarrow> string \<Rightarrow> network_config option" where
  "networkConfig nets name = find (\<lambda>n. nc_network n = name) nets"

definition placeholder_char :: "char \<Rightarrow> bool" where
  "placeholder_char c = (let n = (of_char c :: nat) in 65 \<le> n \<and> n \<le> 90 \<or> 48 \<le> n \<and> n \<le> 57 \<or> n = 95)"

definition PLACEHOLDER :: "string \<Rightarrow> bool" where
  "PLACEHOLDER s = (s = [] \<or>
    (11 \<le> length s \<and> take 5 s = ''YOUR_'' \<and> drop (length s - 5) s = ''_HERE'' \<and>
     list_all placeholder_char (drop 5 (take (length s - 5) s))))"

definition setValue :: "string option \<Rightarrow> string option" where
  "setValue raw = (case raw of None \<Rightarrow> None | Some r \<Rightarrow> if PLACEHOLDER (js_trim r) then None else Some (js_trim r))"

definition ownedByOther :: "network_config list \<Rightarrow> string \<Rightarrow> string \<Rightarrow> (network_config \<Rightarrow> string option) \<Rightarrow> string option" where
  "ownedByOther nets name v pick =
    map_option nc_network (find (\<lambda>other. nc_network other \<noteq> name \<and> pick other = Some v) nets)"

datatype network_error = UnknownNetwork string | ForeignPassphrase | ForeignRpcUrl string
  | ForeignContract string string | OtherContract string

record resolved_network =
  rn_network :: string
  rn_networkPassphrase :: string
  rn_rpcUrl :: string
  rn_rpcUrlOverridden :: bool
  rn_escrow :: "string option"
  rn_oracle :: "string option"

text \<open>One round of the loop over the two contracts.\<close>

definition resolve_contract ::
  "network_config list \<Rightarrow> string \<Rightarrow> string \<Rightarrow> string option \<Rightarrow> (network_config \<Rightarrow> string option) \<Rightarrow> string option
    \<Rightarrow> network_error + string option" where
  "resolve_contract nets network key v pick expected =
    (case v of
       None \<Rightarrow> Inr expected
     | Some s \<Rightarrow>
        (case ownedByOther nets network s pick of
           Some other \<Rightarrow> Inl (ForeignContract key other)
         | None \<Rightarrow> if expected \<noteq> None \<and> expected \<noteq> Some [] \<and> expected \<noteq> Some s then Inl (OtherContract key)
                   else Inr (Some s)))"

definition resolveNetworkConfig :: "network_config list \<Rightarrow> env \<Rightarrow> network_error + resolved_network" where
  "resolveNetworkConfig nets env =
    (let name = js_trim (or_else (env ''STELLAR_NETWORK'') ''testnet'') in
     case networkConfig nets name of
       None \<Rightarrow> Inl (UnknownNetwork name)
     | Some canonical \<Rightarrow>
        (let passphrase = setValue (env ''STELLAR_NETWORK_PASSPHRASE'');
             rpcOverride = setValue (env ''STELLAR_RPC_URL'')
         in if passphrase \<noteq> None \<and> passphrase \<noteq> Some (nc_networkPassphrase canonical) then Inl ForeignPassphrase
            else
              (case (case rpcOverride of None \<Rightarrow> None
                     | Some u \<Rightarrow> ownedByOther nets (nc_network canonical) u (\<lambda>n. Some (nc_rpcUrl n))) of
                 Some other \<Rightarrow> Inl (ForeignRpcUrl other)
               | None \<Rightarrow>
                  bind_sum (resolve_contract nets (nc_network canonical) ''escrow''
                      (setValue (env ''CONTRACT_ESCROW'')) nc_escrow (nc_escrow canonical)) (\<lambda>escrow.
                  bind_sum (resolve_contract nets (nc_network canonical) ''oracle''
                      (setValue (env ''CONTRACT_ORACLE'')) nc_oracle (nc_oracle canonical)) (\<lambda>oracle.
                  Inr \<lparr>rn_network = nc_network canonical, rn_networkPassphrase = nc_networkPassphrase canonical,
                       rn_rpcUrl = or_else rpcOverride (nc_rpcUrl canonical), rn_rpcUrlOverridden = (rpcOverride \<noteq> None),
                       rn_escrow = escrow, rn_oracle = oracle\<rparr>)))))"

text \<open>The disagreement service resolves its passphrase on its own.\<close>

definition resolveNetworkPassphrase :: "env \<Rightarrow> string + string" where
  "resolveNetworkPassphrase env =
    (let explicit = map_option js_trim (env ''STELLAR_NETWORK_PASSPHRASE'') in
     case explicit of
       Some (c # cs) \<Rightarrow> Inr (c # cs)
     | _ \<Rightarrow>
        (let network = js_lower (js_trim (or_else (env ''STELLAR_NETWORK'') ''testnet'')) in
         if network = ''testnet'' then Inr ''Test SDF Network ; September 2015''
         else if network \<in> {''mainnet'', ''public''} then Inr ''Public Global Stellar Network ; September 2015''
         else if network = ''futurenet'' then Inr ''Test SDF Future Network ; October 2022''
         else if network = ''standalone'' then Inr ''Standalone Network ; February 2017''
         else Inl network))"

section \<open>The oracle service\<close>

definition DEFAULT_POLLING_MAX_RETRIES :: int where "DEFAULT_POLLING_MAX_RETRIES = 5"

definition parsePollingMaxRetries :: "env \<Rightarrow> string + int" where
  "parsePollingMaxRetries env =
    (case env ''POLLING_MAX_RETRIES'' of
       None \<Rightarrow> Inr DEFAULT_POLLING_MAX_RETRIES
     | Some raw \<Rightarrow> if raw = [] then Inr DEFAULT_POLLING_MAX_RETRIES
        else case js_parseInt raw of
          None \<Rightarrow> Inl ''must be a positive integer''
        | Some parsed \<Rightarrow> if parsed \<le> 0 then Inl ''must be greater than zero'' else Inr parsed)"

record oracle_env =
  oe_stellarNetwork :: string
  oe_stellarRpcUrl :: string
  oe_contractEscrow :: string
  oe_contractOracle :: string
  oe_lichessApiToken :: string
  oe_chessdotcomApiKey :: string
  oe_pollingMaxRetries :: int

definition loadEnv :: "env \<Rightarrow> (network_error + string) + oracle_env" where
  "loadEnv env =
    (case resolveNetworkConfig NETWORKS env of
       Inl e \<Rightarrow> Inl (Inl e)
     | Inr network \<Rightarrow>
        (case parsePollingMaxRetries env of
           Inl e \<Rightarrow> Inl (Inr e)
         | Inr n \<Rightarrow> Inr \<lparr>oe_stellarNetwork = rn_network network, oe_stellarRpcUrl = rn_rpcUrl network,
              oe_contractEscrow = or_else (rn_escrow network) [], oe_contractOracle = or_else (rn_oracle network) [],
              oe_lichessApiToken = or_else (env ''LICHESS_API_TOKEN'') [],
              oe_chessdotcomApiKey = or_else (env ''CHESSDOTCOM_API_KEY'') [], oe_pollingMaxRetries = n\<rparr>))"

section \<open>SQLite\<close>

definition sqliteSettings :: "env \<Rightarrow> string + rat" where
  "sqliteSettings env =
    (if or_else (env ''SQLITE_CONCURRENCY_MODE'') ''single-process'' \<noteq> ''single-process''
     then Inl ''SQLITE_CONCURRENCY_MODE''
     else case find (\<lambda>key. env key \<noteq> None \<and> js_Number (the (env key)) \<noteq> Fin 1) [''BACKEND_REPLICAS'', ''WEB_CONCURRENCY''] of
       Some key \<Rightarrow> Inl key
     | None \<Rightarrow>
        (case js_Number (or_else (env ''SQLITE_BUSY_TIMEOUT_MS'') ''5000'') of
           Fin busyTimeoutMs \<Rightarrow>
             if busyTimeoutMs \<notin> \<int> \<or> busyTimeoutMs < 1 \<or> 60000 < busyTimeoutMs then Inl ''SQLITE_BUSY_TIMEOUT_MS''
             else Inr busyTimeoutMs
         | _ \<Rightarrow> Inl ''SQLITE_BUSY_TIMEOUT_MS''))"

section \<open>Properties\<close>

lemma setValue_Some: "setValue v = Some s \<longleftrightarrow> (\<exists>r. v = Some r \<and> s = js_trim r \<and> \<not> PLACEHOLDER s)"
  by (auto simp: setValue_def split: option.split)

lemma setValue_not_Nil [simp]: "setValue v \<noteq> Some []"
  by (simp add: setValue_Some PLACEHOLDER_def)

lemma networkConfig_Some: "networkConfig nets name = Some n \<Longrightarrow> n \<in> set nets \<and> nc_network n = name"
  by (auto simp: networkConfig_def find_Some_iff)

lemma ownedByOther_None:
  "ownedByOther nets name v pick = None \<longleftrightarrow> (\<forall>n \<in> set nets. nc_network n \<noteq> name \<longrightarrow> pick n \<noteq> Some v)"
  by (auto simp: ownedByOther_def find_None_iff)

lemma resolve_contract_Inr:
  "resolve_contract nets name key v pick expected = Inr r \<Longrightarrow>
    (v = None \<and> r = expected) \<or>
    (v \<noteq> None \<and> r = v \<and> (expected = None \<or> expected = Some [] \<or> expected = v) \<and>
      (\<forall>n \<in> set nets. nc_network n \<noteq> name \<longrightarrow> pick n \<noteq> r))"
  by (auto simp: resolve_contract_def ownedByOther_None split: option.splits if_splits)

lemma resolveNetworkConfig_Inr:
  assumes "resolveNetworkConfig nets env = Inr r"
  obtains n where "networkConfig nets (js_trim (or_else (env ''STELLAR_NETWORK'') ''testnet'')) = Some n"
    "rn_network r = nc_network n" "rn_networkPassphrase r = nc_networkPassphrase n"
    "setValue (env ''STELLAR_NETWORK_PASSPHRASE'') \<in> {None, Some (nc_networkPassphrase n)}"
    "rn_rpcUrl r = nc_rpcUrl n \<or> (\<forall>m \<in> set nets. nc_network m \<noteq> nc_network n \<longrightarrow> nc_rpcUrl m \<noteq> rn_rpcUrl r)"
    "resolve_contract nets (nc_network n) ''escrow'' (setValue (env ''CONTRACT_ESCROW'')) nc_escrow (nc_escrow n) = Inr (rn_escrow r)"
    "resolve_contract nets (nc_network n) ''oracle'' (setValue (env ''CONTRACT_ORACLE'')) nc_oracle (nc_oracle n) = Inr (rn_oracle r)"
proof (cases "networkConfig nets (js_trim (or_else (env ''STELLAR_NETWORK'') ''testnet''))")
  case (Some n)
  then show ?thesis
    using assms that[of n]
    by (cases "setValue (env ''STELLAR_RPC_URL'')")
       (auto simp: resolveNetworkConfig_def Let_def bind_sum_Inr ownedByOther_None or_else_def
         split: if_splits option.splits)
qed (use assms in \<open>simp add: resolveNetworkConfig_def Let_def\<close>)

text \<open>A table is sound when no two networks share an endpoint or a contract.\<close>

definition nets_ok :: "network_config list \<Rightarrow> bool" where
  "nets_ok nets \<longleftrightarrow> (\<forall>m \<in> set nets. \<forall>n \<in> set nets. nc_network m \<noteq> nc_network n \<longrightarrow>
     nc_rpcUrl m \<noteq> nc_rpcUrl n \<and> (nc_escrow m \<noteq> None \<longrightarrow> nc_escrow m \<noteq> nc_escrow n) \<and>
     (nc_oracle m \<noteq> None \<longrightarrow> nc_oracle m \<noteq> nc_oracle n))"

lemma NETWORKS_ok: "nets_ok NETWORKS"
  by (simp add: nets_ok_def NETWORKS_def)

text \<open>C15. A resolved configuration never mixes two networks: it carries the name and the passphrase of the
  network asked for, no endpoint and no contract that the table gives to another network, and, where the
  table names a contract of the network, that contract and no other.\<close>
theorem network_not_mixed:
  assumes "resolveNetworkConfig nets env = Inr r" "nets_ok nets"
  shows "\<exists>n \<in> set nets. rn_network r = nc_network n \<and> rn_networkPassphrase r = nc_networkPassphrase n \<and>
    nc_network n = js_trim (or_else (env ''STELLAR_NETWORK'') ''testnet'') \<and>
    (\<forall>m \<in> set nets. nc_network m \<noteq> rn_network r \<longrightarrow>
      nc_rpcUrl m \<noteq> rn_rpcUrl r \<and> (rn_escrow r \<noteq> None \<longrightarrow> nc_escrow m \<noteq> rn_escrow r) \<and>
      (rn_oracle r \<noteq> None \<longrightarrow> nc_oracle m \<noteq> rn_oracle r)) \<and>
    (nc_escrow n \<notin> {None, Some []} \<longrightarrow> rn_escrow r = nc_escrow n) \<and>
    (nc_oracle n \<notin> {None, Some []} \<longrightarrow> rn_oracle r = nc_oracle n)"
proof -
  obtain n where n: "networkConfig nets (js_trim (or_else (env ''STELLAR_NETWORK'') ''testnet'')) = Some n"
    "rn_network r = nc_network n" "rn_networkPassphrase r = nc_networkPassphrase n"
    "rn_rpcUrl r = nc_rpcUrl n \<or> (\<forall>m \<in> set nets. nc_network m \<noteq> nc_network n \<longrightarrow> nc_rpcUrl m \<noteq> rn_rpcUrl r)"
    "resolve_contract nets (nc_network n) ''escrow'' (setValue (env ''CONTRACT_ESCROW'')) nc_escrow (nc_escrow n) = Inr (rn_escrow r)"
    "resolve_contract nets (nc_network n) ''oracle'' (setValue (env ''CONTRACT_ORACLE'')) nc_oracle (nc_oracle n) = Inr (rn_oracle r)"
    using resolveNetworkConfig_Inr[OF assms(1)] by metis
  note mem = networkConfig_Some[OF n(1)]
  have rpc: "nc_rpcUrl m \<noteq> rn_rpcUrl r" if "m \<in> set nets" "nc_network m \<noteq> nc_network n" for m
    using n(4) assms(2) mem that unfolding nets_ok_def by metis
  have escrow: "nc_escrow m \<noteq> rn_escrow r"
    if "m \<in> set nets" "nc_network m \<noteq> nc_network n" "rn_escrow r \<noteq> None" for m
    using resolve_contract_Inr[OF n(5)] assms(2) mem that unfolding nets_ok_def by metis
  have orc: "nc_oracle m \<noteq> rn_oracle r"
    if "m \<in> set nets" "nc_network m \<noteq> nc_network n" "rn_oracle r \<noteq> None" for m
    using resolve_contract_Inr[OF n(6)] assms(2) mem that unfolding nets_ok_def by metis
  show ?thesis
    using mem n(2,3) rpc escrow orc resolve_contract_Inr[OF n(5)] resolve_contract_Inr[OF n(6)]
    by (intro bexI[of _ n]) auto
qed

definition env_mainnet :: env where
  "env_mainnet = [''STELLAR_NETWORK'' \<mapsto> ''mainnet '', ''CONTRACT_ORACLE'' \<mapsto> ''CORACLE'',
     ''CONTRACT_ESCROW'' \<mapsto> ''YOUR_ESCROW_HERE'']"

definition mainnet_resolved :: resolved_network where
  "mainnet_resolved = \<lparr>rn_network = ''mainnet'', rn_networkPassphrase = ''Public Global Stellar Network ; September 2015'',
      rn_rpcUrl = ''https://soroban-mainnet.stellar.org'', rn_rpcUrlOverridden = False,
      rn_escrow = None, rn_oracle = Some ''CORACLE''\<rparr>"

lemma env_mainnet_resolved: "resolveNetworkConfig NETWORKS env_mainnet = Inr mainnet_resolved"
  by code_simp

theorem network_not_mixed_witness:
  "resolveNetworkConfig NETWORKS env_mainnet = Inr mainnet_resolved \<and>
   (\<exists>n. n \<in> set NETWORKS \<and> rn_network mainnet_resolved = nc_network n \<and>
     rn_networkPassphrase mainnet_resolved = nc_networkPassphrase n)"
  using env_mainnet_resolved network_not_mixed[OF env_mainnet_resolved NETWORKS_ok] by blast

text \<open>The two readers of the passphrase agree on every environment the startup check accepts, except
  for a passphrase left at its placeholder: the startup check takes that for unset, the disagreement
  service uses it as the passphrase.\<close>
lemma passphrase_readers_agree:
  assumes "resolveNetworkConfig NETWORKS env = Inr r"
  shows "resolveNetworkPassphrase env = Inr (rn_networkPassphrase r) \<longleftrightarrow>
    \<not> (\<exists>raw. env ''STELLAR_NETWORK_PASSPHRASE'' = Some raw \<and> js_trim raw \<noteq> [] \<and> PLACEHOLDER (js_trim raw))"
proof -
  let ?p = "env ''STELLAR_NETWORK_PASSPHRASE''"
  obtain n where n: "networkConfig NETWORKS (js_trim (or_else (env ''STELLAR_NETWORK'') ''testnet'')) = Some n"
    "rn_networkPassphrase r = nc_networkPassphrase n" "setValue ?p \<in> {None, Some (nc_networkPassphrase n)}"
    using resolveNetworkConfig_Inr[OF assms] by metis
  note mem = networkConfig_Some[OF n(1)]
  have byname: "resolveNetworkPassphrase env = Inr (nc_networkPassphrase n)" if "?p = None \<or> js_trim (the ?p) = []"
  proof -
    have all: "list_all (\<lambda>n. resolveNetworkPassphrase [''STELLAR_NETWORK'' \<mapsto> nc_network n] =
        Inr (nc_networkPassphrase n)) NETWORKS" by code_simp
    have "resolveNetworkPassphrase env = resolveNetworkPassphrase [''STELLAR_NETWORK'' \<mapsto> nc_network n]"
    proof -
      have expl: "map_option js_trim ?p = None \<or> map_option js_trim ?p = Some []" using that by (cases ?p) auto
      have name: "js_trim (or_else (env ''STELLAR_NETWORK'') ''testnet'') = js_trim (nc_network n)"
        using mem js_trim_idem by metis
      show ?thesis using expl
        by (auto simp: resolveNetworkPassphrase_def Let_def name) (simp_all add: or_else_def)
    qed
    then show ?thesis using all mem by (auto simp: list_all_iff)
  qed
  have not_placeholder: "\<not> PLACEHOLDER (nc_networkPassphrase n)"
  proof -
    have "list_all (\<lambda>n. \<not> PLACEHOLDER (nc_networkPassphrase n)) NETWORKS" by code_simp
    then show ?thesis using mem by (auto simp: list_all_iff)
  qed
  show ?thesis
  proof (cases "?p = None \<or> js_trim (the ?p) = []")
    case False
    then obtain raw where raw: "?p = Some raw" "js_trim raw \<noteq> []" by auto
    then have "resolveNetworkPassphrase env = Inr (js_trim raw)"
      by (auto simp: resolveNetworkPassphrase_def split: list.split)
    then show ?thesis using raw n(2,3) not_placeholder by (auto simp: setValue_def split: if_splits)
  qed (use byname n(2) in auto)
qed

lemma passphrase_readers_agree_example:
  "resolveNetworkPassphrase env_mainnet = Inr ''Public Global Stellar Network ; September 2015''"
  using passphrase_readers_agree[OF env_mainnet_resolved]
  by (simp add: env_mainnet_def mainnet_resolved_def)

text \<open>The disagreement service accepts what the startup check refuses.\<close>

lemma passphrase_of_another_network:
  "resolveNetworkConfig NETWORKS [''STELLAR_NETWORK'' \<mapsto> ''mainnet'',
      ''STELLAR_NETWORK_PASSPHRASE'' \<mapsto> ''Test SDF Network ; September 2015''] = Inl ForeignPassphrase \<and>
   resolveNetworkPassphrase [''STELLAR_NETWORK'' \<mapsto> ''mainnet'',
      ''STELLAR_NETWORK_PASSPHRASE'' \<mapsto> ''Test SDF Network ; September 2015''] =
     Inr ''Test SDF Network ; September 2015'' \<and>
   resolveNetworkConfig NETWORKS [''STELLAR_NETWORK'' \<mapsto> ''public''] = Inl (UnknownNetwork ''public'') \<and>
   resolveNetworkPassphrase [''STELLAR_NETWORK'' \<mapsto> ''public''] = Inr ''Public Global Stellar Network ; September 2015''"
  by code_simp

lemma parsePollingMaxRetries_pos: "parsePollingMaxRetries env = Inr n \<Longrightarrow> 0 < n"
  by (auto simp: parsePollingMaxRetries_def DEFAULT_POLLING_MAX_RETRIES_def split: option.splits if_splits)

text \<open>A text that only begins with digits, or a fraction, is read as the integer it begins with.\<close>

lemma parsePollingMaxRetries_not_strict:
  "parsePollingMaxRetries [''POLLING_MAX_RETRIES'' \<mapsto> ''5abc''] = Inr 5"
  "parsePollingMaxRetries [''POLLING_MAX_RETRIES'' \<mapsto> ''3.7''] = Inr 3"
  by code_simp+

lemma sqliteSettings_bounds: "sqliteSettings env = Inr t \<Longrightarrow> t \<in> \<int> \<and> 1 \<le> t \<and> t \<le> 60000"
  by (auto simp: sqliteSettings_def Let_def split: if_splits option.splits js_num.splits)

lemma sqliteSettings_single_process:
  "sqliteSettings env = Inr t \<Longrightarrow> key \<in> {''BACKEND_REPLICAS'', ''WEB_CONCURRENCY''} \<Longrightarrow>
    env key = None \<or> js_Number (the (env key)) = Fin 1"
  by (auto simp: sqliteSettings_def find_None_iff split: if_splits option.splits)

end
