(* ===== verification/SettlementAge.thy ===== *)
theory SettlementAge
  imports Polling Settings
begin

text \<open>
  The settlement age monitor (\<open>services/settlement-age-monitor.ts\<close>): the stages each match has
  reached, the durations of completed matches, the ages of waiting ones and the alerts on both.
  The rank of a percentile is computed exactly; for the four percentiles used and up to ten thousand
  values the double the code computes has the same ceiling.
\<close>

datatype stage = Activated | ProviderResult | SubmissionStarted | ChainConfirmed

datatype segment = ProviderWait | SubmissionLag | ChainDelay | Total

definition SEGMENTS :: "segment list" where
  "SEGMENTS = [ProviderWait, SubmissionLag, ChainDelay, Total]"

definition MAX_CLOSED_IDS :: nat where "MAX_CLOSED_IDS = 10000"
definition MAX_REPORTED_MATCH_IDS :: nat where "MAX_REPORTED_MATCH_IDS = 5"

section \<open>Settings\<close>

record age_config =
  ac_providerWaitMs :: rat
  ac_submissionLagMs :: rat
  ac_chainDelayMs :: rat
  ac_totalMs :: rat
  ac_completedWindow :: rat
  ac_minSamples :: rat
  ac_maxTracked :: rat

definition DEFAULT_SETTLEMENT_AGE_CONFIG :: age_config where
  "DEFAULT_SETTLEMENT_AGE_CONFIG = \<lparr>ac_providerWaitMs = 24 * 3600000, ac_submissionLagMs = 10 * 60000,
     ac_chainDelayMs = 15 * 60000, ac_totalMs = 48 * 3600000, ac_completedWindow = 200, ac_minSamples = 5,
     ac_maxTracked = 10000\<rparr>"

text \<open>\<open>None\<close> when \<open>validateConfig\<close> returns, otherwise the name of the setting it rejects.\<close>

definition validateConfig :: "age_config \<Rightarrow> string option" where
  "validateConfig c =
    (let positive = (\<lambda>v. 0 < v); positiveInt = (\<lambda>v. v \<in> \<int> \<and> 0 < v) in
     if \<not> positive (ac_providerWaitMs c) then Some ''providerWaitMs''
     else if \<not> positive (ac_submissionLagMs c) then Some ''submissionLagMs''
     else if \<not> positive (ac_chainDelayMs c) then Some ''chainDelayMs''
     else if \<not> positive (ac_totalMs c) then Some ''totalMs''
     else if \<not> positiveInt (ac_completedWindow c) then Some ''completedWindow''
     else if \<not> positiveInt (ac_minSamples c) then Some ''minSamples''
     else if \<not> positiveInt (ac_maxTracked c) then Some ''maxTracked''
     else if ac_minSamples c > ac_completedWindow c then Some ''minSamples cannot exceed completedWindow''
     else None)"

definition loadSettlementAgeConfig :: "(string \<Rightarrow> string option) \<Rightarrow> string + age_config" where
  "loadSettlementAgeConfig env =
    (let d = DEFAULT_SETTLEMENT_AGE_CONFIG in
     bind_sum (readNumber env ''SETTLEMENT_AGE_PROVIDER_WAIT_MS'' (ac_providerWaitMs d)) (\<lambda>pw.
     bind_sum (readNumber env ''SETTLEMENT_AGE_SUBMISSION_LAG_MS'' (ac_submissionLagMs d)) (\<lambda>sl.
     bind_sum (readNumber env ''SETTLEMENT_AGE_CHAIN_DELAY_MS'' (ac_chainDelayMs d)) (\<lambda>cd.
     bind_sum (readNumber env ''SETTLEMENT_AGE_TOTAL_MS'' (ac_totalMs d)) (\<lambda>tt.
     bind_sum (readNumber env ''SETTLEMENT_AGE_COMPLETED_WINDOW'' (ac_completedWindow d)) (\<lambda>cw.
     bind_sum (readNumber env ''SETTLEMENT_AGE_MIN_SAMPLES'' (ac_minSamples d)) (\<lambda>ms.
     bind_sum (readNumber env ''SETTLEMENT_AGE_MAX_TRACKED'' (ac_maxTracked d)) (\<lambda>mt.
       let config = \<lparr>ac_providerWaitMs = pw, ac_submissionLagMs = sl, ac_chainDelayMs = cd, ac_totalMs = tt,
             ac_completedWindow = cw, ac_minSamples = ms, ac_maxTracked = mt\<rparr>
       in case validateConfig config of Some e \<Rightarrow> Inl e | None \<Rightarrow> Inr config))))))))"

definition getSettlementPublishIntervalMs :: "(string \<Rightarrow> string option) \<Rightarrow> string + rat" where
  "getSettlementPublishIntervalMs env =
    bind_sum (readNumber env ''SETTLEMENT_AGE_PUBLISH_INTERVAL_MS'' 60000)
      (\<lambda>v. if v \<le> 0 then Inl ''SETTLEMENT_AGE_PUBLISH_INTERVAL_MS'' else Inr v)"

section \<open>Statistics\<close>

definition percentile :: "int list \<Rightarrow> nat \<Rightarrow> int option" where
  "percentile sortedAscending p =
    (if sortedAscending = [] then None
     else (let rank = \<lceil>(of_nat p / 100 :: rat) * of_nat (length sortedAscending)\<rceil>;
               index = min (int (length sortedAscending) - 1) (max 0 (rank - 1))
           in Some (sortedAscending ! nat index)))"

record segment_stats =
  ss_count :: nat
  ss_p50 :: "int option"
  ss_p90 :: "int option"
  ss_p95 :: "int option"
  ss_p99 :: "int option"
  ss_max :: "int option"

definition summarize :: "int list \<Rightarrow> segment_stats" where
  "summarize values =
    (let sorted = sort values in
     \<lparr>ss_count = length sorted, ss_p50 = percentile sorted 50, ss_p90 = percentile sorted 90,
      ss_p95 = percentile sorted 95, ss_p99 = percentile sorted 99,
      ss_max = (if sorted = [] then None else Some (sorted ! (length sorted - 1)))\<rparr>)"

text \<open>An entry is a match and its age.\<close>

type_synonym age_entry = "nat \<times> int"

record open_stats =
  os_stats :: segment_stats
  os_overThreshold :: nat
  os_stuckMatchIds :: "nat list"

definition summarizeOpen :: "age_entry list \<Rightarrow> rat \<Rightarrow> open_stats" where
  "summarizeOpen entries thresholdMs =
    (let over = sort_key (\<lambda>e. - snd e) (filter (\<lambda>e. thresholdMs < of_int (snd e)) entries) in
     \<lparr>os_stats = summarize (map snd entries), os_overThreshold = length over,
      os_stuckMatchIds = map fst (take MAX_REPORTED_MATCH_IDS over)\<rparr>)"

section \<open>The monitor\<close>

type_synonym timeline = "stage \<Rightarrow> int option"

record age_monitor =
  am_open :: "(nat, timeline) jsmap"
  am_closed :: "nat list"
  am_completed :: "segment \<Rightarrow> int list"
  am_activeAlerts :: "string list"
  am_abandoned :: nat
  am_evicted :: nat

definition new_monitor :: age_monitor where
  "new_monitor = \<lparr>am_open = [], am_closed = [], am_completed = (\<lambda>_. []), am_activeAlerts = [],
     am_abandoned = 0, am_evicted = 0\<rparr>"

definition thresholdFor :: "age_config \<Rightarrow> segment \<Rightarrow> rat" where
  "thresholdFor c s = (case s of
     ProviderWait \<Rightarrow> ac_providerWaitMs c | SubmissionLag \<Rightarrow> ac_submissionLagMs c
   | ChainDelay \<Rightarrow> ac_chainDelayMs c | Total \<Rightarrow> ac_totalMs c)"

definition first_of :: "'a option \<Rightarrow> 'a option \<Rightarrow> 'a option" where
  "first_of a b = (case a of Some x \<Rightarrow> Some x | None \<Rightarrow> b)"

definition markClosed :: "nat \<Rightarrow> age_monitor \<Rightarrow> age_monitor" where
  "markClosed matchId m =
    (let closed = (if matchId \<in> set (am_closed m) then am_closed m else am_closed m @ [matchId])
     in m\<lparr>am_closed := (if MAX_CLOSED_IDS < length closed then tl closed else closed)\<rparr>)"

fun evict_oldest :: "nat \<Rightarrow> (nat, timeline) jsmap \<Rightarrow> nat \<Rightarrow> (nat, timeline) jsmap \<times> nat" where
  "evict_oldest maxTracked [] evicted = ([], evicted)"
| "evict_oldest maxTracked (t # ts) evicted =
    (if maxTracked \<le> length (t # ts) then evict_oldest maxTracked ts (Suc evicted) else (t # ts, evicted))"

definition makeRoom :: "age_config \<Rightarrow> age_monitor \<Rightarrow> age_monitor" where
  "makeRoom c m = (let (ts, n) = evict_oldest (nat \<lfloor>ac_maxTracked c\<rfloor>) (am_open m) (am_evicted m)
     in m\<lparr>am_open := ts, am_evicted := n\<rparr>)"

definition span :: "int option \<Rightarrow> int option \<Rightarrow> int option" where
  "span from to = (case (from, to) of (Some a, Some b) \<Rightarrow> Some (max 0 (b - a)) | _ \<Rightarrow> None)"

definition durations :: "timeline \<Rightarrow> segment \<Rightarrow> int option" where
  "durations s seg = (case seg of
     ProviderWait \<Rightarrow> span (s Activated) (s ProviderResult)
   | SubmissionLag \<Rightarrow> span (s ProviderResult) (s SubmissionStarted)
   | ChainDelay \<Rightarrow> span (s SubmissionStarted) (s ChainConfirmed)
   | Total \<Rightarrow> span (first_of (s Activated) (first_of (s ProviderResult) (s SubmissionStarted))) (s ChainConfirmed))"

definition push_bounded :: "nat \<Rightarrow> int \<Rightarrow> int list \<Rightarrow> int list" where
  "push_bounded window value buffer =
    (let b = buffer @ [value] in if window < length b then tl b else b)"

definition complete :: "age_config \<Rightarrow> nat \<Rightarrow> timeline \<Rightarrow> age_monitor \<Rightarrow> age_monitor" where
  "complete c matchId s m =
    markClosed matchId (m\<lparr>am_completed := (\<lambda>seg. case durations s seg of
         None \<Rightarrow> am_completed m seg
       | Some v \<Rightarrow> push_bounded (nat \<lfloor>ac_completedWindow c\<rfloor>) v (am_completed m seg)),
       am_open := AList.delete matchId (am_open m)\<rparr>)"

text \<open>\<open>at\<close> is \<open>None\<close> when it is absent or not finite.\<close>

definition recordStage :: "age_config \<Rightarrow> int \<Rightarrow> nat \<Rightarrow> stage \<Rightarrow> int option \<Rightarrow> age_monitor \<Rightarrow> age_monitor" where
  "recordStage c now matchId stg given m =
    (if matchId \<in> set (am_closed m) then m
     else
       (let timestamp = (case given of Some t \<Rightarrow> t | None \<Rightarrow> now);
            m1 = (if map_of (am_open m) matchId = None then makeRoom c m else m);
            timeline = (case map_of (am_open m) matchId of None \<Rightarrow> (\<lambda>_. None) | Some t \<Rightarrow> t);
            timeline' = (if timeline stg = None then timeline(stg := Some timestamp) else timeline);
            m2 = m1\<lparr>am_open := AList.update matchId timeline' (am_open m1)\<rparr>
        in if stg = ChainConfirmed then complete c matchId timeline' m2 else m2))"

definition syncActivations :: "age_config \<Rightarrow> int \<Rightarrow> (nat \<times> int) list \<Rightarrow> age_monitor \<Rightarrow> age_monitor" where
  "syncActivations c now jobs m = fold (\<lambda>(matchId, createdAt). recordStage c now matchId Activated (Some createdAt)) jobs m"

definition abandon :: "nat \<Rightarrow> age_monitor \<Rightarrow> age_monitor" where
  "abandon matchId m =
    (if map_of (am_open m) matchId = None then m
     else (markClosed matchId (m\<lparr>am_open := AList.delete matchId (am_open m)\<rparr>))\<lparr>am_abandoned := am_abandoned m + 1\<rparr>)"

text \<open>The segment a waiting match is in, and since when.\<close>

definition current_segment :: "timeline \<Rightarrow> segment \<times> int option" where
  "current_segment s =
    (if s SubmissionStarted \<noteq> None then (ChainDelay, s SubmissionStarted)
     else if s ProviderResult \<noteq> None then (SubmissionLag, s ProviderResult)
     else (ProviderWait, s Activated))"

definition segment_since :: "timeline \<Rightarrow> segment \<Rightarrow> int option" where
  "segment_since s seg =
    (if seg = Total then first_of (s Activated) (first_of (s ProviderResult) (s SubmissionStarted))
     else if fst (current_segment s) = seg then snd (current_segment s) else None)"

definition ages :: "int \<Rightarrow> age_monitor \<Rightarrow> segment \<Rightarrow> age_entry list" where
  "ages now m seg = List.map_filter
     (\<lambda>(matchId, s). map_option (\<lambda>since. (matchId, max 0 (now - since))) (segment_since s seg)) (am_open m)"

datatype alert_kind = Stuck | SlowP95

record settlement_alert =
  al_kind :: alert_kind
  al_segment :: segment
  al_thresholdMs :: rat
  al_observedMs :: int
  al_count :: nat
  al_matchIds :: "nat list"

definition segment_name :: "segment \<Rightarrow> string" where
  "segment_name s = (case s of ProviderWait \<Rightarrow> ''provider_wait'' | SubmissionLag \<Rightarrow> ''submission_lag''
     | ChainDelay \<Rightarrow> ''chain_delay'' | Total \<Rightarrow> ''total'')"

definition alert_id :: "settlement_alert \<Rightarrow> string" where
  "alert_id a = segment_name (al_segment a) @ (case al_kind a of Stuck \<Rightarrow> ''_stuck'' | SlowP95 \<Rightarrow> ''_slow_p95'')"

definition segment_alerts :: "age_config \<Rightarrow> int \<Rightarrow> age_monitor \<Rightarrow> segment \<Rightarrow> settlement_alert list" where
  "segment_alerts c now m seg =
    (let thresholdMs = thresholdFor c seg;
         done_stats = summarize (am_completed m seg);
         stuck = summarizeOpen (ages now m seg) thresholdMs
     in (if 0 < os_overThreshold stuck \<and> ss_max (os_stats stuck) \<noteq> None
         then [\<lparr>al_kind = Stuck, al_segment = seg, al_thresholdMs = thresholdMs,
                al_observedMs = the (ss_max (os_stats stuck)), al_count = os_overThreshold stuck,
                al_matchIds = os_stuckMatchIds stuck\<rparr>] else []) @
        (case ss_p95 done_stats of
           None \<Rightarrow> []
         | Some p95 \<Rightarrow>
            if ac_minSamples c \<le> of_nat (ss_count done_stats) \<and> thresholdMs < of_int p95
            then [\<lparr>al_kind = SlowP95, al_segment = seg, al_thresholdMs = thresholdMs, al_observedMs = p95,
                   al_count = ss_count done_stats, al_matchIds = []\<rparr>] else []))"

record settlement_snapshot =
  sn_openMatches :: nat
  sn_completedInWindow :: nat
  sn_abandoned :: nat
  sn_evicted :: nat
  sn_completed :: "segment \<Rightarrow> segment_stats"
  sn_open :: "segment \<Rightarrow> open_stats"
  sn_alerts :: "settlement_alert list"

definition age_snapshot :: "age_config \<Rightarrow> int \<Rightarrow> age_monitor \<Rightarrow> settlement_snapshot" where
  "age_snapshot c now m = \<lparr>sn_openMatches = length (am_open m), sn_completedInWindow = length (am_completed m Total),
     sn_abandoned = am_abandoned m, sn_evicted = am_evicted m,
     sn_completed = (\<lambda>seg. summarize (am_completed m seg)),
     sn_open = (\<lambda>seg. summarizeOpen (ages now m seg) (thresholdFor c seg)),
     sn_alerts = concat (map (segment_alerts c now m) SEGMENTS)\<rparr>"

text \<open>The alerts raised and the identifiers cleared by one evaluation, in order; a notifier that
  throws is ignored.\<close>

definition evaluate :: "age_config \<Rightarrow> int \<Rightarrow> age_monitor \<Rightarrow> (settlement_alert list \<times> string list) \<times> age_monitor" where
  "evaluate c now m =
    (let alerts = sn_alerts (age_snapshot c now m);
         current = map alert_id alerts;
         raised = filter (\<lambda>a. alert_id a \<notin> set (am_activeAlerts m)) alerts;
         active = am_activeAlerts m @ map alert_id raised;
         cleared = filter (\<lambda>i. i \<notin> set current) active
     in ((raised, cleared), m\<lparr>am_activeAlerts := filter (\<lambda>i. i \<in> set current) active\<rparr>))"

section \<open>The wrappers around a submission\<close>

text \<open>The handler is the outcome of its call: \<open>None\<close> when it resolves. \<open>t1\<close> and \<open>t2\<close> are the clock
  before and after it.\<close>

definition trackSubmission :: "age_config \<Rightarrow> int \<Rightarrow> int \<Rightarrow> nat \<Rightarrow> string option \<Rightarrow> age_monitor \<Rightarrow> string option \<times> age_monitor" where
  "trackSubmission c t1 t2 matchId outcome m =
    (let m1 = recordStage c t1 matchId SubmissionStarted None m in
     case outcome of
       Some e \<Rightarrow> (Some e, m1)
     | None \<Rightarrow> (None, recordStage c t2 matchId ChainConfirmed None m1))"

definition trackExistence :: "age_config \<Rightarrow> int \<Rightarrow> nat \<Rightarrow> bool option \<Rightarrow> age_monitor \<Rightarrow> bool option \<times> age_monitor" where
  "trackExistence c now matchId answer m =
    (answer, if answer = Some True then recordStage c now matchId ChainConfirmed None m else m)"

section \<open>The publisher and the module's factory\<close>

definition publisher_tick :: "age_config \<Rightarrow> int \<Rightarrow> (nat \<times> int) list option \<Rightarrow> age_monitor
    \<Rightarrow> (settlement_alert list \<times> string list) \<times> age_monitor" where
  "publisher_tick c now jobs m =
    evaluate c now (case jobs of None \<Rightarrow> m | Some js \<Rightarrow> syncActivations c now js m)"

definition createSettlementAgeMonitorFromEnv :: "(string \<Rightarrow> string option) \<Rightarrow> string + (age_config \<times> age_monitor) option" where
  "createSettlementAgeMonitorFromEnv env =
    (let enabled = (case env ''SETTLEMENT_AGE_MONITOR_ENABLED'' of None \<Rightarrow> ''true'' | Some v \<Rightarrow> v) in
     if js_lower (js_trim enabled) = ''false'' then Inr None
     else bind_sum (loadSettlementAgeConfig env) (\<lambda>c. Inr (Some (c, new_monitor))))"

section \<open>The settings accepted are usable\<close>

definition age_config_ok :: "age_config \<Rightarrow> bool" where
  "age_config_ok c \<longleftrightarrow> validateConfig c = None"

lemma positive_int_floor: "(v :: rat) \<in> \<int> \<Longrightarrow> 0 < v \<Longrightarrow> 0 < nat \<lfloor>v\<rfloor> \<and> of_nat (nat \<lfloor>v\<rfloor>) = v"
  by (auto simp: Ints_def)

lemma validateConfig_None:
  "validateConfig c = None \<longleftrightarrow>
    0 < ac_providerWaitMs c \<and> 0 < ac_submissionLagMs c \<and> 0 < ac_chainDelayMs c \<and> 0 < ac_totalMs c \<and>
    ac_completedWindow c \<in> \<int> \<and> 0 < ac_completedWindow c \<and> ac_minSamples c \<in> \<int> \<and> 0 < ac_minSamples c \<and>
    ac_maxTracked c \<in> \<int> \<and> 0 < ac_maxTracked c \<and> ac_minSamples c \<le> ac_completedWindow c"
  by (simp add: validateConfig_def Let_def not_less)

lemma loadSettlementAgeConfig_ok: "loadSettlementAgeConfig env = Inr c \<Longrightarrow> age_config_ok c"
  by (auto simp: loadSettlementAgeConfig_def age_config_ok_def bind_sum_Inr Let_def split: option.splits)

lemma DEFAULT_config_ok: "age_config_ok DEFAULT_SETTLEMENT_AGE_CONFIG"
  by (simp add: age_config_ok_def validateConfig_None DEFAULT_SETTLEMENT_AGE_CONFIG_def)

section \<open>The bounds of the monitor\<close>

lemma push_bounded_take_last:
  "0 < w \<Longrightarrow> push_bounded w v (take_last w xs) = take_last w (xs @ [v])"
  by (cases "length xs < w")
     (auto simp: push_bounded_def take_last_def Let_def tl_drop drop_Suc not_less Suc_diff_le)

lemma length_push_bounded: "length b \<le> w \<Longrightarrow> length (push_bounded w v b) \<le> w"
  by (auto simp: push_bounded_def Let_def)

lemma evict_oldest_suffix:
  "evict_oldest n ts e = (drop (length ts + 1 - n) ts, e + min (length ts) (length ts + 1 - n))"
proof (induction ts arbitrary: e)
  case (Cons t ts)
  then show ?case by (cases "n \<le> length (t # ts)") (auto simp: drop_Cons' Suc_diff_le not_le min_def)
qed simp

lemma evict_oldest_room: "length ts < n \<Longrightarrow> evict_oldest n ts e = (ts, e)"
  by (simp add: evict_oldest_suffix)

definition timeline_open :: "timeline \<Rightarrow> bool" where
  "timeline_open s \<longleftrightarrow> s ChainConfirmed = None \<and> (\<exists>g. s g \<noteq> None)"

definition am_inv :: "age_config \<Rightarrow> age_monitor \<Rightarrow> bool" where
  "am_inv c m \<longleftrightarrow> jm_ok (am_open m) \<and> length (am_open m) \<le> nat \<lfloor>ac_maxTracked c\<rfloor> \<and>
     (\<forall>(k, s) \<in> set (am_open m). timeline_open s \<and> k \<notin> set (am_closed m)) \<and>
     distinct (am_closed m) \<and> length (am_closed m) \<le> MAX_CLOSED_IDS \<and>
     (\<forall>seg. length (am_completed m seg) \<le> nat \<lfloor>ac_completedWindow c\<rfloor> \<and> (\<forall>v \<in> set (am_completed m seg). 0 \<le> v))"

lemma am_inv_new: "age_config_ok c \<Longrightarrow> am_inv c new_monitor"
  by (simp add: am_inv_def new_monitor_def)

lemma markClosed_fields [simp]:
  "am_open (markClosed k m) = am_open m" "am_completed (markClosed k m) = am_completed m"
  "am_activeAlerts (markClosed k m) = am_activeAlerts m" "am_abandoned (markClosed k m) = am_abandoned m"
  by (simp_all add: markClosed_def Let_def)

lemma markClosed_closed:
  assumes "distinct (am_closed m)" "length (am_closed m) \<le> MAX_CLOSED_IDS"
  shows "distinct (am_closed (markClosed k m))" "length (am_closed (markClosed k m)) \<le> MAX_CLOSED_IDS"
    "set (am_closed (markClosed k m)) \<subseteq> insert k (set (am_closed m))"
    "length (am_closed m) < MAX_CLOSED_IDS \<Longrightarrow> set (am_closed (markClosed k m)) = insert k (set (am_closed m))"
  using assms by (auto simp: markClosed_def Let_def distinct_tl dest!: list.set_sel(2)[rotated]
      split: if_splits)

lemma length_update_map: "length (AList.update k v m) = (if map_of m k = None then Suc (length m) else length m)"
  by (induction m) auto

lemma set_delete: "set (AList.delete k xs) = {(a, b) \<in> set xs. a \<noteq> k}"
  by (auto simp: AList.delete_eq)

lemma set_update_subset: "set (AList.update k v xs) \<subseteq> insert (k, v) (set xs)"
  by (induction xs) auto

lemma durations_nonneg: "durations s seg = Some v \<Longrightarrow> 0 \<le> v"
  by (auto simp: durations_def span_def split: segment.splits option.splits)

lemma am_inv_close:
  assumes inv: "am_inv c m" and op: "am_open m' = AList.delete k (am_open m)"
    and cl: "am_closed m' = am_closed (markClosed k m)"
    and bu: "\<And>seg. length (am_completed m' seg) \<le> nat \<lfloor>ac_completedWindow c\<rfloor> \<and>
      (\<forall>v \<in> set (am_completed m' seg). 0 \<le> v)"
  shows "am_inv c m'"
proof -
  have d: "distinct (am_closed m)" "length (am_closed m) \<le> MAX_CLOSED_IDS"
    using inv by (simp_all add: am_inv_def)
  note mc = markClosed_closed[OF d, of k]
  have "length (AList.delete k (am_open m)) \<le> length (am_open m)" by (rule length_delete_le)
  moreover have "jm_ok (AList.delete k (am_open m))" using inv by (simp add: am_inv_def)
  ultimately show ?thesis
    using inv mc(1-3) bu by (auto simp: am_inv_def op cl set_delete)
qed

lemma complete_closed: "am_closed (complete c k s m) = am_closed (markClosed k m)"
  by (simp add: complete_def markClosed_def Let_def)

lemma am_inv_complete:
  assumes inv: "am_inv c m" and c: "age_config_ok c"
  shows "am_inv c (complete c k s m)"
proof (rule am_inv_close[OF inv])
  show "am_closed (complete c k s m) = am_closed (markClosed k m)" by (rule complete_closed)
  show "length (am_completed (complete c k s m) seg) \<le> nat \<lfloor>ac_completedWindow c\<rfloor> \<and>
      (\<forall>v \<in> set (am_completed (complete c k s m) seg). 0 \<le> v)" for seg
    using inv durations_nonneg[of s seg]
    by (auto simp: am_inv_def complete_def length_push_bounded push_bounded_def Let_def
        dest!: list.set_sel(2)[rotated] split: option.splits)
qed (simp add: complete_def)

lemma age_config_okD:
  "age_config_ok c \<Longrightarrow> 0 < nat \<lfloor>ac_completedWindow c\<rfloor>" "age_config_ok c \<Longrightarrow> 0 < nat \<lfloor>ac_maxTracked c\<rfloor>"
  using positive_int_floor by (auto simp: age_config_ok_def validateConfig_None)

lemma makeRoom_fields [simp]:
  "am_closed (makeRoom c m) = am_closed m" "am_completed (makeRoom c m) = am_completed m"
  "am_activeAlerts (makeRoom c m) = am_activeAlerts m"
  by (simp_all add: makeRoom_def split: prod.split)

lemma makeRoom_open: "am_open (makeRoom c m) = drop (length (am_open m) + 1 - nat \<lfloor>ac_maxTracked c\<rfloor>) (am_open m)"
  by (simp add: makeRoom_def evict_oldest_suffix)

lemma makeRoom_id: "length (am_open m) < nat \<lfloor>ac_maxTracked c\<rfloor> \<Longrightarrow> makeRoom c m = m"
  by (simp add: makeRoom_def evict_oldest_room)

lemma am_inv_makeRoom:
  assumes inv: "am_inv c m" and c: "age_config_ok c"
  shows "am_inv c (makeRoom c m)" "length (am_open (makeRoom c m)) < nat \<lfloor>ac_maxTracked c\<rfloor>"
proof -
  show len: "length (am_open (makeRoom c m)) < nat \<lfloor>ac_maxTracked c\<rfloor>"
    using age_config_okD(2)[OF c] by (simp only: makeRoom_open length_drop)
  have "jm_ok (am_open (makeRoom c m))"
    using inv by (simp add: am_inv_def jm_ok_def makeRoom_open distinct_drop flip: drop_map)
  then show "am_inv c (makeRoom c m)"
    using inv len set_drop_subset[of _ "am_open m"] by (fastforce simp: am_inv_def makeRoom_open)
qed

lemma makeRoom_None: "map_of (am_open m) k = None \<Longrightarrow> map_of (am_open (makeRoom c m)) k = None"
  by (auto simp: makeRoom_open map_of_eq_None_iff dest: in_set_dropD)

text \<open>One call of \<open>recordStage\<close>, by the branch it takes.\<close>

definition stage_timeline :: "nat \<Rightarrow> stage \<Rightarrow> int \<Rightarrow> age_monitor \<Rightarrow> timeline" where
  "stage_timeline k g t m =
    (let s = (case map_of (am_open m) k of None \<Rightarrow> (\<lambda>_. None) | Some s \<Rightarrow> s)
     in if s g = None then s(g := Some t) else s)"

lemma complete_update: "complete c k s (m\<lparr>am_open := AList.update k v (am_open m)\<rparr>) = complete c k s m"
  by (cases m) (simp add: complete_def markClosed_def Let_def delete_update_same cong: option.case_cong)

lemma recordStage_cases:
  assumes "k \<notin> set (am_closed m)"
  shows "recordStage c now k g (Some t) m =
    (let m1 = (if map_of (am_open m) k = None then makeRoom c m else m)
     in if g = ChainConfirmed then complete c k (stage_timeline k g t m) m1
        else m1\<lparr>am_open := AList.update k (stage_timeline k g t m) (am_open m1)\<rparr>)"
proof -
  have "(if timeline g = None then timeline(g := Some t) else timeline) = stage_timeline k g t m"
    if "timeline = (case map_of (am_open m) k of None \<Rightarrow> (\<lambda>_. None) | Some s \<Rightarrow> s)" for timeline
    by (simp add: that stage_timeline_def Let_def)
  then show ?thesis using assms by (simp only: recordStage_def Let_def complete_update option.case if_False)
qed

lemma recordStage_clock: "recordStage c now k g None m = recordStage c x k g (Some now) m"
  by (simp add: recordStage_def)

lemma recordStage_closed: "k \<in> set (am_closed m) \<Longrightarrow> recordStage c now k g t m = m"
  by (simp add: recordStage_def)

lemma am_inv_put:
  assumes inv: "am_inv c m" and s: "timeline_open s" and k: "k \<notin> set (am_closed m)"
    and size: "length (AList.update k s (am_open m)) \<le> nat \<lfloor>ac_maxTracked c\<rfloor>"
  shows "am_inv c (m\<lparr>am_open := AList.update k s (am_open m)\<rparr>)"
proof -
  have "\<forall>(k, s) \<in> set (AList.update k s (am_open m)). timeline_open s \<and> k \<notin> set (am_closed m)"
  proof
    fix p assume "p \<in> set (AList.update k s (am_open m))"
    then have "p = (k, s) \<or> p \<in> set (am_open m)" using set_update_subset by fastforce
    then show "case p of (k, s) \<Rightarrow> timeline_open s \<and> k \<notin> set (am_closed m)"
      using inv s k unfolding am_inv_def by auto
  qed
  then show ?thesis using inv size by (simp add: am_inv_def)
qed

lemma am_inv_recordStage:
  assumes inv: "am_inv c m" and c: "age_config_ok c"
  shows "am_inv c (recordStage c now k g given m)"
proof -
  obtain t where g': "recordStage c now k g given m = recordStage c now k g (Some t) m"
    using recordStage_clock[of c now k g m now] by (cases given) auto
  show ?thesis
  proof (cases "k \<in> set (am_closed m)")
    case False
    define m1 where "m1 = (if map_of (am_open m) k = None then makeRoom c m else m)"
    have m1: "am_inv c m1" using am_inv_makeRoom(1)[OF inv c] inv by (simp add: m1_def)
    have len: "map_of (am_open m1) k = None \<Longrightarrow> length (am_open m1) < nat \<lfloor>ac_maxTracked c\<rfloor>"
      using am_inv_makeRoom(2)[OF inv c] by (auto simp: m1_def split: if_splits)
    have size: "length (AList.update k v (am_open m1)) \<le> nat \<lfloor>ac_maxTracked c\<rfloor>" for v
      using m1 len by (cases "map_of (am_open m1) k") (auto simp: am_inv_def length_update_map)
    have old: "map_of (am_open m) k = Some s \<Longrightarrow> timeline_open s" for s
      using inv by (auto simp: am_inv_def dest!: map_of_SomeD)
    show ?thesis
    proof (cases "g = ChainConfirmed")
      case True
      then show ?thesis
        unfolding g' recordStage_cases[OF False] m1_def[symmetric]
        using am_inv_complete[OF m1 c] by (simp add: Let_def)
    next
      case other: False
      then have "timeline_open (stage_timeline k g t m)"
        using old by (auto simp: stage_timeline_def timeline_open_def split: option.splits)
      then show ?thesis
        unfolding g' recordStage_cases[OF False] m1_def[symmetric]
        using other False am_inv_put[OF m1 _ _ size] by (simp add: Let_def m1_def)
    qed
  qed (simp add: g' recordStage_closed inv)
qed

lemma am_inv_abandon:
  assumes inv: "am_inv c m" shows "am_inv c (abandon k m)"
proof (cases "map_of (am_open m) k")
  case (Some s)
  show ?thesis
  proof (rule am_inv_close[OF inv, where k = k])
    show "am_closed (abandon k m) = am_closed (markClosed k m)"
      using Some by (simp add: abandon_def markClosed_def Let_def)
    show "length (am_completed (abandon k m) seg) \<le> nat \<lfloor>ac_completedWindow c\<rfloor> \<and>
      (\<forall>v \<in> set (am_completed (abandon k m) seg). 0 \<le> v)" for seg
      using inv Some by (simp add: abandon_def am_inv_def)
  qed (use Some in \<open>simp add: abandon_def\<close>)
qed (simp add: abandon_def inv)

lemma am_inv_syncActivations: "am_inv c m \<Longrightarrow> age_config_ok c \<Longrightarrow> am_inv c (syncActivations c now jobs m)"
  unfolding syncActivations_def
  by (induction jobs arbitrary: m) (auto intro: am_inv_recordStage)

lemma am_inv_evaluate: "am_inv c m \<Longrightarrow> am_inv c (snd (evaluate c now m))"
  by (simp add: evaluate_def Let_def am_inv_def)

text \<open>The monitor as its callers drive it: a call per step, each at its own time.\<close>

inductive age_step :: "age_config \<Rightarrow> age_monitor \<Rightarrow> age_monitor \<Rightarrow> bool" for c where
  step_record: "age_step c m (recordStage c now k g given m)"
| step_abandon: "age_step c m (abandon k m)"
| step_tick: "age_step c m (snd (publisher_tick c now jobs m))"
| step_submission: "age_step c m (snd (trackSubmission c t1 t2 k outcome m))"
| step_existence: "age_step c m (snd (trackExistence c now k answer m))"

inductive_cases age_stepE: "age_step c m m'"

lemma am_inv_step: "age_step c m m' \<Longrightarrow> am_inv c m \<Longrightarrow> age_config_ok c \<Longrightarrow> am_inv c m'"
  by (erule age_stepE)
     (auto simp: publisher_tick_def trackSubmission_def trackExistence_def Let_def
       intro: am_inv_recordStage am_inv_abandon am_inv_evaluate am_inv_syncActivations split: option.splits)

lemma am_inv_run:
  assumes "(age_step c)\<^sup>*\<^sup>* m m'" "am_inv c m" "age_config_ok c"
  shows "am_inv c m'"
  using assms(1) by induction (use assms(2,3) am_inv_step in blast)+

lemma settlement_age_bounded:
  assumes "loadSettlementAgeConfig env = Inr c" "(age_step c)\<^sup>*\<^sup>* new_monitor m"
  shows "of_nat (length (am_open m)) \<le> ac_maxTracked c" "length (am_closed m) \<le> MAX_CLOSED_IDS"
    "of_nat (length (am_completed m seg)) \<le> ac_completedWindow c"
    "(k, s) \<in> set (am_open m) \<Longrightarrow> s ChainConfirmed = None \<and> k \<notin> set (am_closed m)"
proof -
  have ok: "age_config_ok c" using loadSettlementAgeConfig_ok assms(1) by blast
  have inv: "am_inv c m" using am_inv_run[OF assms(2) am_inv_new[OF ok] ok] .
  have fl: "of_nat (nat \<lfloor>ac_maxTracked c\<rfloor>) = ac_maxTracked c"
    "of_nat (nat \<lfloor>ac_completedWindow c\<rfloor>) = ac_completedWindow c"
    using ok positive_int_floor by (auto simp: age_config_ok_def validateConfig_None)
  show "of_nat (length (am_open m)) \<le> ac_maxTracked c"
    using inv fl(1) unfolding am_inv_def by (metis of_nat_le_iff)
  show "of_nat (length (am_completed m seg)) \<le> ac_completedWindow c"
    using inv fl(2) unfolding am_inv_def by (metis of_nat_le_iff)
  show "length (am_closed m) \<le> MAX_CLOSED_IDS" using inv by (simp add: am_inv_def)
  show "(k, s) \<in> set (am_open m) \<Longrightarrow> s ChainConfirmed = None \<and> k \<notin> set (am_closed m)"
    using inv by (auto simp: am_inv_def timeline_open_def)
qed

section \<open>The percentiles\<close>

lemma percentile_rank:
  assumes "xs \<noteq> []" "0 < p" "p \<le> 100"
  obtains i where "i < length xs" "percentile xs p = Some (xs ! i)"
    "100 * i < p * length xs" "p * length xs \<le> 100 * (i + 1)"
proof -
  define r where "r = \<lceil>(of_nat p / 100 :: rat) * of_nat (length xs)\<rceil>"
  let ?q = "(of_nat p / 100 :: rat) * of_nat (length xs)"
  have lo: "?q \<le> of_int r" and hi: "of_int r - 1 < ?q" unfolding r_def by linarith+
  have "0 < ?q" using assms by simp
  then have r1: "1 \<le> r" unfolding r_def by linarith
  have "of_nat (p * length xs) \<le> (of_nat (100 * length xs) :: rat)" using assms(3) by (intro of_nat_mono) simp
  then have "?q \<le> of_nat (length xs)" by simp
  then have r2: "r \<le> int (length xs)" unfolding r_def by linarith
  have "of_nat (p * length xs) \<le> (of_int (100 * r) :: rat)" using lo by simp
  then have lo': "int (p * length xs) \<le> 100 * r" by linarith
  have "of_int (100 * (r - 1)) < (of_nat (p * length xs) :: rat)" using hi by simp
  then have hi': "100 * (r - 1) < int (p * length xs)" by linarith
  have nat_bounds: "100 * nat (r - 1) < p * length xs \<and> p * length xs \<le> 100 * (nat (r - 1) + 1)"
  proof -
    obtain N where N: "N = p * length xs" by simp
    have "100 * (r - 1) < int N" "int N \<le> 100 * r" unfolding N by (rule hi', rule lo')
    then show ?thesis using r1 unfolding N[symmetric] by auto
  qed
  have idx: "nat (min (int (length xs) - 1) (max 0 (r - 1))) = nat (r - 1)" using r1 r2 by simp
  show ?thesis
  proof
    show "nat (r - 1) < length xs" using r1 r2 by linarith
    show "percentile xs p = Some (xs ! nat (r - 1))"
      using assms(1) idx by (simp add: percentile_def Let_def r_def)
    show "100 * nat (r - 1) < p * length xs" "p * length xs \<le> 100 * (nat (r - 1) + 1)"
      using nat_bounds by simp_all
  qed
qed

lemma sorted_count_le: "sorted xs \<Longrightarrow> i < length xs \<Longrightarrow> i + 1 \<le> length (filter (\<lambda>x. x \<le> xs ! i) xs)"
proof -
  assume s: "sorted xs" and i: "i < length xs"
  have "{j. j < i + 1} \<subseteq> {j. j < length xs \<and> xs ! j \<le> xs ! i}"
    using s i by (auto simp: less_Suc_eq_le intro: sorted_nth_mono)
  then have "card {j. j < i + 1} \<le> card {j. j < length xs \<and> xs ! j \<le> xs ! i}" by (intro card_mono) auto
  then show ?thesis by (simp add: length_filter_conv_card)
qed

lemma sorted_count_less: "sorted xs \<Longrightarrow> i < length xs \<Longrightarrow> length (filter (\<lambda>x. x < xs ! i) xs) \<le> i"
proof -
  assume s: "sorted xs" and i: "i < length xs"
  have "{j. j < length xs \<and> xs ! j < xs ! i} \<subseteq> {j. j < i}"
  proof
    fix j assume "j \<in> {j. j < length xs \<and> xs ! j < xs ! i}"
    then have "j < length xs" "\<not> xs ! i \<le> xs ! j" by auto
    then show "j \<in> {j. j < i}" using sorted_nth_mono[OF s, of i j] by (cases "j < i") auto
  qed
  then have "card {j. j < length xs \<and> xs ! j < xs ! i} \<le> card {j. j < i}" by (intro card_mono) auto
  then show ?thesis by (simp add: length_filter_conv_card)
qed

lemma sort_Nil_iff: "sort xs = [] \<longleftrightarrow> xs = []"
  by (metis length_0_conv length_sort)

lemma length_filter_sort: "length (filter P (sort xs)) = length (filter P xs)"
  by (simp add: filter_sort)

text \<open>The percentiles the monitor publishes are the nearest-rank ones: of any non-empty list of
  durations and any percentage from 1 to 100 the code returns one of the values, at least that share of
  the values is at most it, and a smaller value would not do.\<close>
lemma percentile_nearest_rank:
  assumes "values \<noteq> []" "0 < p" "p \<le> 100"
  shows "\<exists>v. percentile (sort values) p = Some v \<and> v \<in> set values \<and>
    p * length values \<le> 100 * length (filter (\<lambda>x. x \<le> v) values) \<and>
    100 * length (filter (\<lambda>x. x < v) values) < p * length values"
proof -
  have "sort values \<noteq> []" using assms(1) by (simp add: sort_Nil_iff)
  then obtain i where i: "i < length values" "percentile (sort values) p = Some (sort values ! i)"
    "100 * i < p * length values" "p * length values \<le> 100 * (i + 1)"
    using percentile_rank[of "sort values" p] assms by auto
  have "sort values ! i \<in> set values" using i(1) by (metis length_sort nth_mem set_sort)
  moreover have "i + 1 \<le> length (filter (\<lambda>x. x \<le> sort values ! i) values)"
    using sorted_count_le[of "sort values" i] i(1) by (simp add: length_filter_sort)
  moreover have "length (filter (\<lambda>x. x < sort values ! i) values) \<le> i"
    using sorted_count_less[of "sort values" i] i(1) by (simp add: length_filter_sort)
  ultimately show ?thesis using i(2,3,4) by (intro exI[of _ "sort values ! i"]) auto
qed

lemma percentile_nearest_rank_example:
  "percentile (sort [40, 10, 30, 20]) 50 = Some 20 \<and> percentile (sort [40, 10, 30, 20]) 95 = Some 40"
proof -
  have s: "sort [40, 10, 30, 20 :: int] = [10, 20, 30, 40]" by simp
  show ?thesis
    using percentile_nearest_rank[of "[40, 10, 30, 20]" 50] percentile_nearest_rank[of "[40, 10, 30, 20]" 95]
    by (auto simp: s split: if_splits)
qed

section \<open>The alerts\<close>

lemma alert_id_inj: "alert_id a = alert_id b \<longleftrightarrow> al_kind a = al_kind b \<and> al_segment a = al_segment b"
  by (simp add: alert_id_def segment_name_def split: alert_kind.splits segment.splits)

lemma segment_alerts_kinds:
  "a \<in> set (segment_alerts c now m seg) \<Longrightarrow> al_segment a = seg"
  by (auto simp: segment_alerts_def Let_def split: option.splits if_splits)

lemma segment_alerts_distinct: "distinct (map alert_id (segment_alerts c now m seg))"
  by (cases "ss_p95 (summarize (am_completed m seg))") (auto simp: segment_alerts_def Let_def alert_id_inj)

lemma snapshot_alerts_distinct: "distinct (map alert_id (sn_alerts (age_snapshot c now m)))"
proof -
  have "a \<in> set (segment_alerts c now m g) \<Longrightarrow> b \<in> set (segment_alerts c now m h) \<Longrightarrow> g \<noteq> h
    \<Longrightarrow> alert_id a \<noteq> alert_id b" for a b g h
    using segment_alerts_kinds alert_id_inj by metis
  then show ?thesis
    by (auto simp: age_snapshot_def SEGMENTS_def segment_alerts_distinct)
qed

lemma stuck_segment_alert:
  "(\<exists>a \<in> set (segment_alerts c now m g). al_kind a = Stuck) \<longleftrightarrow>
    (\<exists>e \<in> set (ages now m g). thresholdFor c g < of_int (snd e))"
proof -
  define over where "over = filter (\<lambda>e. thresholdFor c g < of_int (snd e)) (ages now m g)"
  have over: "over = [] \<longleftrightarrow> \<not> (\<exists>e \<in> set (ages now m g). thresholdFor c g < of_int (snd e))"
    by (auto simp: over_def filter_empty_conv)
  have "0 < os_overThreshold (summarizeOpen (ages now m g) (thresholdFor c g)) \<longleftrightarrow> over \<noteq> []"
    by (simp add: summarizeOpen_def Let_def over_def)
  moreover have "ss_max (os_stats (summarizeOpen (ages now m g) (thresholdFor c g))) \<noteq> None" if "over \<noteq> []"
    using that by (auto simp: summarizeOpen_def summarize_def Let_def sort_Nil_iff over_def)
  ultimately have "0 < os_overThreshold (summarizeOpen (ages now m g) (thresholdFor c g)) \<and>
      ss_max (os_stats (summarizeOpen (ages now m g) (thresholdFor c g))) \<noteq> None \<longleftrightarrow> over \<noteq> []"
    by (cases "over = []") simp_all
  then have "(\<exists>a \<in> set (segment_alerts c now m g). al_kind a = Stuck) \<longleftrightarrow> over \<noteq> []"
    by (cases "over = []"; cases "ss_p95 (summarize (am_completed m g))")
       (auto simp: segment_alerts_def Let_def bex_Un)
  then show ?thesis by (simp add: over)
qed

lemma set_ages:
  "e \<in> set (ages now m g) \<longleftrightarrow>
    (\<exists>s since. (fst e, s) \<in> set (am_open m) \<and> segment_since s g = Some since \<and> snd e = max 0 (now - since))"
  by (cases e) (force simp: ages_def List.map_filter_def)

lemma segment_alerts_active [simp]: "segment_alerts c now (m\<lparr>am_activeAlerts := xs\<rparr>) = segment_alerts c now m"
  by (rule ext) (simp add: segment_alerts_def ages_def)

text \<open>Every alert is raised and cleared once. One evaluation of the monitor notifies exactly the
  alerts that hold now and were not active, clears exactly the active ones that no longer hold, leaves
  active exactly those that hold, and a second evaluation at the same time notifies nothing. A "stuck"
  alert of a segment holds exactly when some match still open entered that segment longer ago than its
  threshold.\<close>
lemma alerts_raised_once:
  "case evaluate c now m of ((raised, cleared), m') \<Rightarrow>
     let alerts = sn_alerts (age_snapshot c now m) in
     set raised = {a. a \<in> set alerts \<and> alert_id a \<notin> set (am_activeAlerts m)} \<and>
     set cleared = set (am_activeAlerts m) - alert_id ` set alerts \<and>
     set (am_activeAlerts m') = alert_id ` set alerts \<and>
     distinct (map alert_id raised) \<and>
     fst (evaluate c now m') = ([], []) \<and>
     (\<forall>g. (\<exists>a. a \<in> set alerts \<and> al_kind a = Stuck \<and> al_segment a = g) \<longleftrightarrow>
       (\<exists>k s since. (k, s) \<in> set (am_open m) \<and> segment_since s g = Some since \<and>
         thresholdFor c g < of_int (max 0 (now - since))))"
proof -
  define alerts where "alerts = sn_alerts (age_snapshot c now m)"
  define m' where "m' = snd (evaluate c now m)"
  have act: "set (am_activeAlerts m') = alert_id ` set alerts"
    by (auto simp: m'_def evaluate_def Let_def alerts_def)
  have same: "sn_alerts (age_snapshot c now m') = alerts"
    by (simp add: m'_def evaluate_def Let_def alerts_def age_snapshot_def)
  have again: "fst (evaluate c now m') = ([], [])"
    by (simp add: evaluate_def Let_def same act filter_empty_conv)
  have "distinct (map alert_id alerts)" unfolding alerts_def by (rule snapshot_alerts_distinct)
  then have dist: "distinct (map alert_id (filter P alerts))" for P by (rule distinct_map_filter)
  have stuck: "(\<exists>a. a \<in> set alerts \<and> al_kind a = Stuck \<and> al_segment a = g) \<longleftrightarrow>
      (\<exists>a \<in> set (segment_alerts c now m g). al_kind a = Stuck)" for g
    using segment_alerts_kinds
    by (cases g) (fastforce simp: alerts_def age_snapshot_def SEGMENTS_def)+
  have ev: "evaluate c now m = ((filter (\<lambda>a. alert_id a \<notin> set (am_activeAlerts m)) alerts,
      filter (\<lambda>i. i \<notin> set (map alert_id alerts)) (am_activeAlerts m @
        map alert_id (filter (\<lambda>a. alert_id a \<notin> set (am_activeAlerts m)) alerts))), m')"
    by (simp add: m'_def evaluate_def Let_def alerts_def)
  show ?thesis
    unfolding ev prod.case Let_def alerts_def[symmetric] stuck stuck_segment_alert
    using act again dist by (auto simp: set_ages Bex_def)
qed

section \<open>The durations published\<close>

text \<open>The reports made to a monitor, oldest first: a match, a stage and the time given.\<close>

type_synonym stage_event = "nat \<times> stage \<times> int"

definition stage_events :: "age_config \<Rightarrow> stage_event list \<Rightarrow> age_monitor" where
  "stage_events c evs = fold (\<lambda>(k, g, t). recordStage c t k g (Some t)) evs new_monitor"

text \<open>What they should amount to: per stage the first time reported, and the matches confirmed, in the
  order of their first confirmation, with what was known of each by then.\<close>

definition first_report :: "stage_event list \<Rightarrow> nat \<Rightarrow> timeline" where
  "first_report evs k g = map_option (\<lambda>e. snd (snd e)) (find (\<lambda>e. fst e = k \<and> fst (snd e) = g) evs)"

fun confirmations :: "stage_event list \<Rightarrow> stage_event list \<Rightarrow> (nat \<times> timeline) list" where
  "confirmations past [] = []"
| "confirmations past (e # evs) =
    (if fst (snd e) = ChainConfirmed \<and> first_report past (fst e) ChainConfirmed = None
     then [(fst e, first_report (past @ [e]) (fst e))] else []) @ confirmations (past @ [e]) evs"

definition expected_durations :: "stage_event list \<Rightarrow> segment \<Rightarrow> int list" where
  "expected_durations evs seg = List.map_filter (\<lambda>(k, s). durations s seg) (confirmations [] evs)"

lemma confirmations_snoc:
  "confirmations past (evs @ [e]) = confirmations past evs @ confirmations (past @ evs) [e]"
  by (induction evs arbitrary: past) simp_all

lemma find_snoc: "find P (xs @ [x]) = (case find P xs of Some y \<Rightarrow> Some y | None \<Rightarrow> if P x then Some x else None)"
  by (induction xs) auto

lemma first_report_snoc:
  "first_report (evs @ [(k', g', t)]) k =
    (if k = k' \<and> first_report evs k g' = None then (first_report evs k)(g' := Some t) else first_report evs k)"
  by (rule ext) (auto simp: first_report_def find_snoc split: option.split)

lemma first_report_None: "k \<notin> fst ` set evs \<Longrightarrow> first_report evs k = (\<lambda>_. None)"
  by (rule ext) (force simp: first_report_def find_None_iff)

lemma map_filter_append: "List.map_filter f (xs @ ys) = List.map_filter f xs @ List.map_filter f ys"
  by (simp add: List.map_filter_def)

definition reports_ok :: "age_config \<Rightarrow> stage_event list \<Rightarrow> age_monitor \<Rightarrow> bool" where
  "reports_ok c evs m \<longleftrightarrow> am_inv c m \<and>
    (\<forall>k. map_of (am_open m) k =
      (if k \<in> fst ` set evs \<and> first_report evs k ChainConfirmed = None then Some (first_report evs k) else None)) \<and>
    (\<forall>k. k \<in> set (am_closed m) \<longleftrightarrow> first_report evs k ChainConfirmed \<noteq> None) \<and>
    (\<forall>seg. am_completed m seg = take_last (nat \<lfloor>ac_completedWindow c\<rfloor>) (expected_durations evs seg))"

lemma reports_ok_room:
  assumes ok: "reports_ok c evs m" and new: "k \<notin> fst ` set evs"
    and few: "card (insert k (fst ` set evs)) \<le> nat \<lfloor>ac_maxTracked c\<rfloor>"
  shows "makeRoom c m = m"
proof (rule makeRoom_id)
  have dist: "distinct (jm_keys (am_open m))" using ok by (simp add: reports_ok_def am_inv_def jm_ok_def)
  have "set (jm_keys (am_open m)) \<subseteq> fst ` set evs"
    using ok unfolding reports_ok_def by (metis image_iff map_of_eq_None_iff set_map subsetI)
  then have "length (jm_keys (am_open m)) \<le> card (fst ` set evs)"
    using distinct_card[OF dist] card_mono[OF finite_imageI[OF finite_set]] by metis
  then show "length (am_open m) < nat \<lfloor>ac_maxTracked c\<rfloor>" using few new by simp
qed

lemma reports_ok_closed:
  assumes ok: "reports_ok c evs m" and new: "k \<notin> set (am_closed m)"
    and few: "card (insert k (fst ` set evs)) \<le> MAX_CLOSED_IDS"
  shows "set (am_closed (markClosed k m)) = insert k (set (am_closed m))"
proof -
  have d: "distinct (am_closed m)" "length (am_closed m) \<le> MAX_CLOSED_IDS"
    using ok by (simp_all add: reports_ok_def am_inv_def)
  have "set (am_closed m) \<subseteq> fst ` set evs - {k}"
    using ok new first_report_None unfolding reports_ok_def by (metis Diff_iff singletonD subsetI)
  then have "card (set (am_closed m)) \<le> card (fst ` set evs - {k})" by (simp add: card_mono)
  also have "\<dots> < card (insert k (fst ` set evs))" by (intro psubset_card_mono) auto
  finally have "length (am_closed m) < MAX_CLOSED_IDS" using few distinct_card[OF d(1)] by simp
  then show ?thesis by (rule markClosed_closed(4)[OF d])
qed

lemma reports_ok_timeline:
  assumes ok: "reports_ok c evs m" and open_k: "first_report evs k ChainConfirmed = None"
  shows "stage_timeline k g t m = first_report (evs @ [(k, g, t)]) k"
proof (cases "k \<in> fst ` set evs")
  case True
  then have "map_of (am_open m) k = Some (first_report evs k)" using ok open_k by (simp add: reports_ok_def)
  then show ?thesis by (simp add: stage_timeline_def first_report_snoc Let_def)
next
  case False
  then have "map_of (am_open m) k = None" using ok by (simp add: reports_ok_def)
  then show ?thesis by (simp add: stage_timeline_def first_report_snoc first_report_None[OF False])
qed

lemma expected_durations_snoc:
  "expected_durations (evs @ [(k, g, t)]) seg = expected_durations evs seg @
    (if g = ChainConfirmed \<and> first_report evs k ChainConfirmed = None
     then List.map_filter (\<lambda>(k, s). durations s seg) [(k, first_report (evs @ [(k, g, t)]) k)] else [])"
  by (simp add: expected_durations_def confirmations_snoc map_filter_append)

lemma reports_ok_completed:
  assumes ok: "reports_ok c evs m" and c: "age_config_ok c" and open_k: "first_report evs k ChainConfirmed = None"
  shows "am_completed (complete c k (first_report (evs @ [(k, ChainConfirmed, t)]) k) m) seg =
    take_last (nat \<lfloor>ac_completedWindow c\<rfloor>) (expected_durations (evs @ [(k, ChainConfirmed, t)]) seg)"
proof -
  have "am_completed m seg = take_last (nat \<lfloor>ac_completedWindow c\<rfloor>) (expected_durations evs seg)"
    using ok by (simp add: reports_ok_def)
  then show ?thesis
    using open_k push_bounded_take_last[OF age_config_okD(1)[OF c]]
    by (simp add: complete_def expected_durations_snoc List.map_filter_def split: option.split)
qed

lemma reports_ok_step:
  assumes ok: "reports_ok c evs m" and c: "age_config_ok c"
    and few: "card (insert k (fst ` set evs)) \<le> nat \<lfloor>ac_maxTracked c\<rfloor>" "card (insert k (fst ` set evs)) \<le> MAX_CLOSED_IDS"
  shows "reports_ok c (evs @ [(k, g, t)]) (recordStage c t k g (Some t) m)"
proof (cases "first_report evs k ChainConfirmed")
  case (Some x)
  then have "k \<in> set (am_closed m)" using ok by (simp add: reports_ok_def)
  then show ?thesis
    using ok Some by (auto simp: recordStage_closed reports_ok_def first_report_snoc expected_durations_snoc)
next
  case None
  let ?s = "first_report (evs @ [(k, g, t)]) k"
  have kc: "k \<notin> set (am_closed m)" using ok None by (simp add: reports_ok_def)
  have "makeRoom c m = m" if "map_of (am_open m) k = None"
    using that ok None reports_ok_room[OF ok _ few(1)] by (auto simp: reports_ok_def split: if_splits)
  then have rec: "recordStage c t k g (Some t) m = (if g = ChainConfirmed then complete c k ?s m
      else m\<lparr>am_open := AList.update k ?s (am_open m)\<rparr>)"
    unfolding recordStage_cases[OF kc] reports_ok_timeline[OF ok None] by (simp add: Let_def)
  have inv: "am_inv c (recordStage c t k g (Some t) m)"
    using am_inv_recordStage ok c by (simp add: reports_ok_def)
  have other: "k' \<noteq> k \<Longrightarrow> first_report (evs @ [(k, g, t)]) k' = first_report evs k'" for k'
    by (simp add: first_report_snoc)
  show ?thesis
  proof (cases "g = ChainConfirmed")
    case False
    then have s: "?s ChainConfirmed = None" using None by (simp add: first_report_snoc)
    have same: "first_report (evs @ [(k, g, t)]) k' ChainConfirmed = first_report evs k' ChainConfirmed" for k'
      using False by (simp add: first_report_snoc)
    have "expected_durations (evs @ [(k, g, t)]) = expected_durations evs"
      by (rule ext) (simp add: expected_durations_snoc False)
    then show ?thesis using ok False inv s same other unfolding rec reports_ok_def
      by (simp add: jm_get_update)
  next
    case True
    have "first_report (evs @ [(k, g, t)]) k' ChainConfirmed \<noteq> None \<longleftrightarrow>
        k' = k \<or> first_report evs k' ChainConfirmed \<noteq> None" for k'
      using None True by (simp add: first_report_snoc)
    moreover have "set (am_closed (complete c k ?s m)) = insert k (set (am_closed m))"
      using reports_ok_closed[OF ok kc few(2)] by (simp add: complete_closed)
    moreover have "am_open (complete c k ?s m) = AList.delete k (am_open m)" by (simp add: complete_def)
    ultimately show ?thesis
      using ok inv other reports_ok_completed[OF ok c None] True unfolding rec reports_ok_def
      by (simp add: jm_get_delete del: not_None_eq)
  qed
qed

lemma stage_events_snoc: "stage_events c (evs @ [(k, g, t)]) = recordStage c t k g (Some t) (stage_events c evs)"
  by (simp add: stage_events_def)

lemma stage_events_ok:
  assumes c: "age_config_ok c"
  shows "card (fst ` set evs) \<le> nat \<lfloor>ac_maxTracked c\<rfloor> \<Longrightarrow> card (fst ` set evs) \<le> MAX_CLOSED_IDS
    \<Longrightarrow> reports_ok c evs (stage_events c evs)"
proof (induction evs rule: rev_induct)
  case Nil
  show ?case
    using am_inv_new[OF c]
    by (simp add: reports_ok_def stage_events_def new_monitor_def first_report_def expected_durations_def
        List.map_filter_def take_last_def)
next
  case (snoc e evs)
  obtain k g t where e: "e = (k, g, t)" by (cases e)
  have few: "card (insert k (fst ` set evs)) \<le> nat \<lfloor>ac_maxTracked c\<rfloor>" "card (insert k (fst ` set evs)) \<le> MAX_CLOSED_IDS"
    using snoc.prems by (simp_all add: e)
  have "card (fst ` set evs) \<le> card (insert k (fst ` set evs))" by (intro card_mono) auto
  then have "reports_ok c evs (stage_events c evs)" using snoc.IH few by linarith
  then show ?case unfolding e stage_events_snoc by (rule reports_ok_step[OF _ c few])
qed


lemma loadSettlementAgeConfig_default: "loadSettlementAgeConfig (\<lambda>_. None) = Inr DEFAULT_SETTLEMENT_AGE_CONFIG"
  using DEFAULT_config_ok
  by (simp add: loadSettlementAgeConfig_def readNumber_def Let_def age_config_ok_def DEFAULT_SETTLEMENT_AGE_CONFIG_def)


lemma durations_add_up:
  assumes "s Activated = Some a" "s ProviderResult = Some r" "s SubmissionStarted = Some b" "s ChainConfirmed = Some d"
    "a \<le> r" "r \<le> b" "b \<le> d"
  shows "the (durations s Total) = the (durations s ProviderWait) + the (durations s SubmissionLag) + the (durations s ChainDelay)"
  using assms by (simp add: durations_def span_def first_of_def)

end
