(* ===== verification/RateLimit.thy ===== *)
theory RateLimit
  imports Settings
begin

text \<open>
  Rate limits of the service's own routes: the token buckets in memory and in SQLite behind one interface
  (\<open>middleware/rate-limit.ts\<close>, \<open>store/sqlite-rate-limit-store.ts\<close>), the middleware that answers
  with them, the client address it keys on, and the queueing limiter of \<open>services/rate-limiter.ts\<close>.
  The clock is an argument; times are milliseconds. The SQLite store computes with doubles, the model with
  rationals.
\<close>

record rl_config =
  rl_capacity :: int
  rl_refillIntervalMs :: int
  rl_refillAmount :: int

datatype rate_result = Allowed | Limited int

definition retry_seconds :: "int \<Rightarrow> int" where
  "retry_seconds ms = max 1 \<lceil>of_int ms / (1000 :: rat)\<rceil>"

section \<open>The store in memory\<close>

record bucket =
  bk_tokens :: int
  bk_lastRefill :: int

type_synonym mem_buckets = "(string, bucket) jsmap"

definition rl_refills :: "rl_config \<Rightarrow> int \<Rightarrow> bucket \<Rightarrow> int" where
  "rl_refills cfg now b = (now - bk_lastRefill b) div rl_refillIntervalMs cfg"

definition rl_refilled :: "rl_config \<Rightarrow> int \<Rightarrow> bucket \<Rightarrow> bucket" where
  "rl_refilled cfg now b =
    (if 0 < rl_refills cfg now b
     then \<lparr>bk_tokens = min (rl_capacity cfg) (bk_tokens b + rl_refills cfg now b * rl_refillAmount cfg), bk_lastRefill = now\<rparr>
     else b)"

definition mem_isAllowed :: "rl_config \<Rightarrow> int \<Rightarrow> string \<Rightarrow> mem_buckets \<Rightarrow> rate_result \<times> mem_buckets" where
  "mem_isAllowed cfg now clientId m =
    (case map_of m clientId of
       None \<Rightarrow> (Allowed, AList.update clientId \<lparr>bk_tokens = rl_capacity cfg - 1, bk_lastRefill = now\<rparr> m)
     | Some b0 \<Rightarrow>
        (let b = rl_refilled cfg now b0 in
         if 0 < bk_tokens b then (Allowed, AList.update clientId (b\<lparr>bk_tokens := bk_tokens b - 1\<rparr>) m)
         else (Limited (retry_seconds (rl_refillIntervalMs cfg - (now - bk_lastRefill b))), AList.update clientId b m)))"

definition mem_remaining :: "rl_config \<Rightarrow> int \<Rightarrow> string \<Rightarrow> mem_buckets \<Rightarrow> int" where
  "mem_remaining cfg now clientId m =
    (case map_of m clientId of
       None \<Rightarrow> rl_capacity cfg
     | Some b \<Rightarrow> min (rl_capacity cfg) (bk_tokens b + rl_refills cfg now b * rl_refillAmount cfg))"

definition STALE_MS :: int where "STALE_MS = 30 * 60 * 1000"

definition mem_cleanup :: "int \<Rightarrow> mem_buckets \<Rightarrow> mem_buckets" where
  "mem_cleanup now m = filter (\<lambda>(clientId, b). \<not> STALE_MS < now - bk_lastRefill b) m"

section \<open>The store in SQLite\<close>

record bucket_row =
  br_tokens :: rat
  br_lastRefill :: int

type_synonym sql_buckets = "(string, bucket_row) jsmap"

definition refill_expr :: "rl_config \<Rightarrow> int \<Rightarrow> bucket_row \<Rightarrow> rat" where
  "refill_expr cfg now r = min (of_int (rl_capacity cfg))
     (br_tokens r + (of_int (now - br_lastRefill r) / of_int (rl_refillIntervalMs cfg)) * of_int (rl_refillAmount cfg))"

definition sql_isAllowed :: "rl_config \<Rightarrow> int \<Rightarrow> string \<Rightarrow> sql_buckets \<Rightarrow> rate_result \<times> sql_buckets" where
  "sql_isAllowed cfg now clientId rows =
    (case map_of rows clientId of
       None \<Rightarrow> (Allowed, AList.update clientId \<lparr>br_tokens = of_int (rl_capacity cfg - 1), br_lastRefill = now\<rparr> rows)
     | Some r \<Rightarrow>
        if 1 \<le> refill_expr cfg now r
        then (Allowed, AList.update clientId \<lparr>br_tokens = refill_expr cfg now r - 1, br_lastRefill = now\<rparr> rows)
        else (Limited (retry_seconds (rl_refillIntervalMs cfg - (now - br_lastRefill r))), rows))"

definition sql_remaining :: "rl_config \<Rightarrow> int \<Rightarrow> string \<Rightarrow> sql_buckets \<Rightarrow> rat" where
  "sql_remaining cfg now clientId rows =
    (case map_of rows clientId of
       None \<Rightarrow> of_int (rl_capacity cfg)
     | Some r \<Rightarrow> min (of_int (rl_capacity cfg)) (max 0
         (br_tokens r + (of_int (now - br_lastRefill r) / of_int (rl_refillIntervalMs cfg)) * of_int (rl_refillAmount cfg))))"

section \<open>The middleware\<close>

datatype rate_store_type = RateMemory | RateSqlite

definition resolveRateLimitStoreType :: "string option \<Rightarrow> rate_store_type" where
  "resolveRateLimitStoreType raw =
    (let requested = js_lower (case raw of None \<Rightarrow> ''memory'' | Some [] \<Rightarrow> ''memory'' | Some s \<Rightarrow> s)
     in if requested = ''sqlite'' \<or> requested = ''redis'' then RateSqlite else RateMemory)"

text \<open>The socket's address and the \<open>X-Forwarded-For\<close> header of a request, each \<open>None\<close> when absent.\<close>

definition getClientIp :: "string option \<Rightarrow> string option \<Rightarrow> string list \<Rightarrow> string" where
  "getClientIp remote forwarded trustedProxies =
    (let remoteAddress = (case remote of None \<Rightarrow> ''unknown'' | Some [] \<Rightarrow> ''unknown'' | Some a \<Rightarrow> a) in
     if remoteAddress \<in> set trustedProxies
     then (case forwarded of
             Some (c # f) \<Rightarrow> js_trim (takeWhile (\<lambda>x. x \<noteq> CHR '','') (c # f))
           | _ \<Rightarrow> remoteAddress)
     else remoteAddress)"

datatype rate_outcome = PassedOn | Refused_with nat

record rate_answer =
  ra_outcome :: rate_outcome
  ra_limit_header :: "string option"
  ra_remaining_header :: "rat option"
  ra_retry_header :: "int option"

text \<open>\<open>allowed\<close> and \<open>remaining\<close> are what the two calls of the backend give, \<open>None\<close> for a rejection.\<close>

definition rate_limit_middleware :: "nat option \<Rightarrow> rate_result option \<Rightarrow> rat option \<Rightarrow> rate_answer" where
  "rate_limit_middleware statusCode allowed remaining =
    (let failed_open = \<lparr>ra_outcome = PassedOn, ra_limit_header = None, ra_remaining_header = None, ra_retry_header = None\<rparr> in
     case allowed of
       None \<Rightarrow> failed_open
     | Some result \<Rightarrow>
        (case remaining of
           None \<Rightarrow> failed_open
         | Some tokens \<Rightarrow>
            (case result of
               Allowed \<Rightarrow> \<lparr>ra_outcome = PassedOn, ra_limit_header = Some ''100'',
                  ra_remaining_header = Some (max 0 tokens), ra_retry_header = None\<rparr>
             | Limited s \<Rightarrow> \<lparr>ra_outcome = Refused_with (case statusCode of None \<Rightarrow> 429 | Some 0 \<Rightarrow> 429 | Some c \<Rightarrow> c),
                  ra_limit_header = Some ''100'', ra_remaining_header = Some (max 0 tokens),
                  ra_retry_header = (if s = 0 then None else Some s)\<rparr>)))"

section \<open>The queueing limiter\<close>

text \<open>Work that waits is identified by a number; \<open>rq_started\<close> lists the work started, in order.\<close>

record rate_limiter =
  rq_tokens :: int
  rq_queue :: "nat list"
  rq_lastRefill :: int
  rq_started :: "nat list"

definition new_limiter :: "rl_config \<Rightarrow> int \<Rightarrow> rate_limiter" where
  "new_limiter cfg now = \<lparr>rq_tokens = rl_capacity cfg, rq_queue = [], rq_lastRefill = now, rq_started = []\<rparr>"

fun rq_drain :: "nat list \<Rightarrow> int \<Rightarrow> nat list \<Rightarrow> int \<times> nat list \<times> nat list" where
  "rq_drain [] tokens started = (tokens, [], started)"
| "rq_drain (w # ws) tokens started =
    (if 0 < tokens then rq_drain ws (tokens - 1) (started @ [w]) else (tokens, w # ws, started))"

definition rq_refill :: "rl_config \<Rightarrow> int \<Rightarrow> rate_limiter \<Rightarrow> rate_limiter" where
  "rq_refill cfg now l =
    (if now - rq_lastRefill l < rl_refillIntervalMs cfg then l
     else
       (let (tokens, queue, started) =
            rq_drain (rq_queue l) (min (rl_capacity cfg) (rq_tokens l + rl_refillAmount cfg)) (rq_started l)
        in \<lparr>rq_tokens = tokens, rq_queue = queue, rq_lastRefill = now, rq_started = started\<rparr>))"

definition rq_schedule :: "nat \<Rightarrow> rate_limiter \<Rightarrow> rate_limiter" where
  "rq_schedule w l =
    (if 0 < rq_tokens l then l\<lparr>rq_tokens := rq_tokens l - 1, rq_started := rq_started l @ [w]\<rparr>
     else l\<lparr>rq_queue := rq_queue l @ [w]\<rparr>)"

section \<open>The contract of a backend\<close>

text \<open>A run: a request of a client, or the background work of the store, at a time each.\<close>

fun rl_run :: "(int \<Rightarrow> 'i \<Rightarrow> 's \<Rightarrow> rate_result \<times> 's) \<Rightarrow> (int \<Rightarrow> 's \<Rightarrow> 's) \<Rightarrow> (int \<times> 'i option) list \<Rightarrow> 's
    \<Rightarrow> (int \<times> 'i \<times> rate_result) list" where
  "rl_run check tick [] s = []"
| "rl_run check tick ((t, None) # evs) s = rl_run check tick evs (tick t s)"
| "rl_run check tick ((t, Some i) # evs) s =
    (t, i, fst (check t i s)) # rl_run check tick evs (snd (check t i s))"

definition allowed_between :: "int \<Rightarrow> int \<Rightarrow> 'i \<Rightarrow> (int \<times> 'i \<times> rate_result) list \<Rightarrow> nat" where
  "allowed_between a b i out = length (filter (\<lambda>(u, j, r). j = i \<and> r = Allowed \<and> a \<le> u \<and> u \<le> b) out)"

lemma allowed_between_simps [simp]:
  "allowed_between a b i [] = 0"
  "allowed_between a b i ((u, j, r) # out) =
    (if j = i \<and> r = Allowed \<and> a \<le> u \<and> u \<le> b then 1 else 0) + allowed_between a b i out"
  by (simp_all add: allowed_between_def)

text \<open>What the middleware relies on. The \<open>level\<close> of a client is the credit it has, which grows at a fixed
  rate up to the burst and which every request admitted costs one of.\<close>

locale rate_backend =
  fixes check :: "int \<Rightarrow> 'i \<Rightarrow> 's \<Rightarrow> rate_result \<times> 's"
    and tick :: "int \<Rightarrow> 's \<Rightarrow> 's"
    and inv :: "int \<Rightarrow> 's \<Rightarrow> bool"
    and level :: "int \<Rightarrow> 'i \<Rightarrow> 's \<Rightarrow> rat"
    and burst rate :: rat
  assumes inv_check: "inv t s \<Longrightarrow> inv t (snd (check t i s))"
    and inv_tick: "inv t s \<Longrightarrow> inv t (tick t s)"
    and inv_later: "inv t s \<Longrightarrow> t \<le> t' \<Longrightarrow> inv t' s"
    and level_nonneg: "inv t s \<Longrightarrow> 0 \<le> level t i s"
    and level_burst: "inv t s \<Longrightarrow> level t i s \<le> burst"
    and level_later: "inv t s \<Longrightarrow> t \<le> t' \<Longrightarrow> level t' i s \<le> level t i s + rate * of_int (t' - t)"
    and level_allowed: "inv t s \<Longrightarrow> fst (check t i s) = Allowed \<Longrightarrow> level t i (snd (check t i s)) \<le> level t i s - 1"
    and level_limited: "inv t s \<Longrightarrow> level t i (snd (check t i s)) \<le> level t i s"
    and level_other: "inv t s \<Longrightarrow> j \<noteq> i \<Longrightarrow> level t j (snd (check t i s)) = level t j s"
    and level_tick: "inv t s \<Longrightarrow> level t i (tick t s) \<le> level t i s"
    and rate_nonneg: "inv t s \<Longrightarrow> 0 \<le> rate"
    and retry_enough: "inv t s \<Longrightarrow> check t i s = (Limited r, s') \<Longrightarrow> t + 1000 * r \<le> t' \<Longrightarrow> fst (check t' i s') = Allowed"
    and independent: "inv t s \<Longrightarrow> j \<noteq> i \<Longrightarrow> fst (check t' j (snd (check t i s))) = fst (check t' j s)"
begin

lemma late_run:
  "sorted (map fst evs) \<Longrightarrow> \<forall>e \<in> set evs. b < fst e \<Longrightarrow> allowed_between a b i (rl_run check tick evs s) = 0"
proof (induction evs arbitrary: s)
  case (Cons e evs)
  then show ?case by (cases e; cases "snd e") auto
qed simp

lemma run_credit:
  assumes "sorted (map fst evs)" "\<forall>e \<in> set evs. t \<le> fst e" "t \<le> b" "inv t s"
  shows "of_nat (allowed_between a b i (rl_run check tick evs s)) \<le> level t i s + rate * of_int (b - t)"
  using assms
proof (induction evs arbitrary: t s)
  case Nil
  then show ?case using level_nonneg[OF Nil(4)] rate_nonneg[OF Nil(4)] by simp
next
  case (Cons e evs)
  obtain u x where e: "e = (u, x)" by (cases e)
  have u: "t \<le> u" "sorted (map fst evs)" "\<forall>e \<in> set evs. u \<le> fst e" using Cons.prems(1,2) by (auto simp: e)
  have inv: "inv u s" using inv_later Cons.prems(4) u(1) by blast
  have lev: "level u i s \<le> level t i s + rate * of_int (u - t)" using level_later Cons.prems(4) u(1) by blast
  have split: "rate * of_int (u - t) + rate * of_int (b - u) = rate * of_int (b - t)" by (simp flip: distrib_left)
  show ?case
  proof (cases "u \<le> b")
    case True
    show ?thesis
    proof (cases x)
      case None
      have "of_nat (allowed_between a b i (rl_run check tick evs (tick u s))) \<le> level u i (tick u s) + rate * of_int (b - u)"
        by (rule Cons.IH[OF u(2,3) True inv_tick[OF inv]])
      then show ?thesis using lev level_tick[OF inv, of i] split by (simp add: e None)
    next
      case (Some j)
      have "of_nat (allowed_between a b i (rl_run check tick evs (snd (check u j s)))) \<le>
          level u i (snd (check u j s)) + rate * of_int (b - u)"
        by (rule Cons.IH[OF u(2,3) True inv_check[OF inv]])
      moreover have "level u i (snd (check u j s)) + (if j = i \<and> fst (check u j s) = Allowed then 1 else 0) \<le> level u i s"
        using level_allowed[OF inv, of i] level_limited[OF inv, of i] level_other[OF inv, of i j]
        by (cases "j = i") auto
      ultimately show ?thesis using lev split by (auto simp: e Some split: if_splits)
    qed
  next
    case False
    then have "\<forall>e \<in> set (e # evs). b < fst e" using u(3) by (auto simp: e)
    then have "allowed_between a b i (rl_run check tick (e # evs) s) = 0" using late_run Cons.prems(1) by blast
    then show ?thesis
      using level_nonneg[OF Cons.prems(4)] rate_nonneg[OF inv] Cons.prems(3) by simp
  qed
qed

lemma window_bound:
  assumes "sorted (map fst evs)" "\<forall>e \<in> set evs. t \<le> fst e" "a \<le> b" "inv t s"
  shows "of_nat (allowed_between a b i (rl_run check tick evs s)) \<le> burst + rate * of_int (b - a)"
  using assms
proof (induction evs arbitrary: t s)
  case Nil
  have "0 \<le> burst" using level_nonneg[OF Nil(4), of undefined] level_burst[OF Nil(4), of undefined] by linarith
  then show ?case using rate_nonneg[OF Nil(4)] Nil(3) by simp
next
  case (Cons e evs)
  obtain u x where e: "e = (u, x)" by (cases e)
  have u: "t \<le> u" "sorted (map fst evs)" "\<forall>e \<in> set evs. u \<le> fst e" using Cons.prems(1,2) by (auto simp: e)
  have inv: "inv u s" using inv_later Cons.prems(4) u(1) by blast
  show ?case
  proof (cases "u < a")
    case True
    then show ?thesis
      using Cons.IH[OF u(2,3) Cons.prems(3) inv_tick[OF inv]] Cons.IH[OF u(2,3) Cons.prems(3) inv_check[OF inv]]
      by (cases x) (simp_all add: e)
  next
    case False
    have "rate * of_int (b - u) \<le> rate * of_int (b - a)"
      using False rate_nonneg[OF inv] by (intro mult_left_mono) auto
    moreover have "of_nat (allowed_between a b i (rl_run check tick (e # evs) s)) \<le> level u i s + rate * of_int (b - u)"
      if "u \<le> b"
      using run_credit[OF Cons.prems(1) _ that inv, of a i] u(3) by (auto simp: e)
    moreover have "of_nat (allowed_between a b i (rl_run check tick (e # evs) s)) \<le> burst + rate * of_int (b - a)"
      if "\<not> u \<le> b"
    proof -
      have "\<forall>e \<in> set (e # evs). b < fst e" using u(3) that by (auto simp: e)
      then have "allowed_between a b i (rl_run check tick (e # evs) s) = 0" using late_run Cons.prems(1) by blast
      then show ?thesis
        using level_nonneg[OF inv, of i] level_burst[OF inv, of i] rate_nonneg[OF inv] Cons.prems(3) by simp
    qed
    ultimately show ?thesis using level_burst[OF inv, of i] by fastforce
  qed
qed

end

section \<open>The backends keep the contract\<close>

definition rl_ok :: "rl_config \<Rightarrow> bool" where
  "rl_ok cfg \<longleftrightarrow> 1 \<le> rl_capacity cfg \<and> 1 \<le> rl_refillIntervalMs cfg \<and> 1 \<le> rl_refillAmount cfg"

text \<open>The half hour after which a bucket is dropped must be long enough to fill it.\<close>

definition cleanup_ok :: "rl_config \<Rightarrow> bool" where
  "cleanup_ok cfg \<longleftrightarrow> (rl_capacity cfg + rl_refillAmount cfg) * rl_refillIntervalMs cfg \<le> rl_refillAmount cfg * STALE_MS"

definition rl_rate :: "rl_config \<Rightarrow> rat" where
  "rl_rate cfg = of_int (rl_refillAmount cfg) / of_int (rl_refillIntervalMs cfg)"

lemma min_grow: "(x' :: rat) \<le> x + d \<Longrightarrow> 0 \<le> d \<Longrightarrow> min c x' \<le> min c x + d"
  by (simp add: min_def)

lemma rl_rate_pos: "rl_ok cfg \<Longrightarrow> 0 < rl_rate cfg"
  by (simp add: rl_ok_def rl_rate_def)

lemma rl_rate_mono: "rl_ok cfg \<Longrightarrow> t \<le> t' \<Longrightarrow> rl_rate cfg * of_int (t' - l) = rl_rate cfg * of_int (t - l) + rl_rate cfg * of_int (t' - t)"
  by (simp add: algebra_simps)

lemma retry_seconds_enough: "ms \<le> 1000 * retry_seconds ms" "1 \<le> retry_seconds ms"
proof -
  have "of_int ms / (1000 :: rat) \<le> of_int \<lceil>of_int ms / (1000 :: rat)\<rceil>" by (rule le_of_int_ceiling)
  then have "ms \<le> 1000 * \<lceil>of_int ms / (1000 :: rat)\<rceil>" by (simp add: field_simps) linarith
  then show "ms \<le> 1000 * retry_seconds ms" by (simp add: retry_seconds_def max_def)
qed (simp add: retry_seconds_def)

definition sql_inv :: "rl_config \<Rightarrow> int \<Rightarrow> sql_buckets \<Rightarrow> bool" where
  "sql_inv cfg t rows \<longleftrightarrow> rl_ok cfg \<and>
    (\<forall>i r. map_of rows i = Some r \<longrightarrow> 0 \<le> br_tokens r \<and> br_tokens r \<le> of_int (rl_capacity cfg) \<and> br_lastRefill r \<le> t)"

definition sql_level :: "rl_config \<Rightarrow> int \<Rightarrow> string \<Rightarrow> sql_buckets \<Rightarrow> rat" where
  "sql_level cfg t i rows = (case map_of rows i of None \<Rightarrow> of_int (rl_capacity cfg) | Some r \<Rightarrow> refill_expr cfg t r)"

lemma refill_expr_rate: "refill_expr cfg t r = min (of_int (rl_capacity cfg)) (br_tokens r + rl_rate cfg * of_int (t - br_lastRefill r))"
  by (simp add: refill_expr_def rl_rate_def mult.commute)

lemma refill_expr_le [simp]: "refill_expr cfg t r \<le> of_int (rl_capacity cfg)"
  "refill_expr cfg t r - 1 \<le> of_int (rl_capacity cfg)"
proof -
  show "refill_expr cfg t r \<le> of_int (rl_capacity cfg)" by (simp add: refill_expr_def)
  then show "refill_expr cfg t r - 1 \<le> of_int (rl_capacity cfg)" by linarith
qed

lemma refill_expr_now: "br_tokens r \<le> of_int (rl_capacity cfg) \<Longrightarrow> br_lastRefill r = t \<Longrightarrow> refill_expr cfg t r = br_tokens r"
  by (simp add: refill_expr_rate)

lemma refill_expr_bounds:
  "rl_ok cfg \<Longrightarrow> 0 \<le> br_tokens r \<Longrightarrow> br_lastRefill r \<le> t \<Longrightarrow> 0 \<le> refill_expr cfg t r \<and> refill_expr cfg t r \<le> of_int (rl_capacity cfg)"
  using rl_rate_pos[of cfg] by (auto simp: refill_expr_rate rl_ok_def min_def)

lemma sql_other: "j \<noteq> i \<Longrightarrow> map_of (snd (sql_isAllowed cfg t i s)) j = map_of s j"
  by (simp add: sql_isAllowed_def jm_get_update split: option.split)

interpretation sql_rate: rate_backend "sql_isAllowed cfg" "\<lambda>_ s. s" "sql_inv cfg" "sql_level cfg"
  "of_int (rl_capacity cfg)" "rl_rate cfg" for cfg
proof (unfold_locales, goal_cases)
  case (1 t s i)
  then show ?case
    using refill_expr_bounds[of cfg _ t]
    by (auto simp: sql_inv_def sql_isAllowed_def jm_get_update rl_ok_def split: option.split)
next
  case (3 t s t')
  then show ?case unfolding sql_inv_def by force
next
  case (4 t s i)
  then show ?case
    using refill_expr_bounds[of cfg _ t] by (auto simp: sql_inv_def sql_level_def rl_ok_def split: option.split)
next
  case (5 t s i)
  then show ?case
    using refill_expr_bounds[of cfg _ t] by (auto simp: sql_inv_def sql_level_def split: option.split)
next
  case (6 t s t' i)
  have ok: "rl_ok cfg" using 6(1) by (simp add: sql_inv_def)
  have nonneg: "0 \<le> rl_rate cfg * of_int (t' - t)" using rl_rate_pos[OF ok] 6(2) by simp
  show ?case
  proof (cases "map_of s i")
    case None
    then show ?thesis using nonneg by (simp add: sql_level_def)
  next
    case (Some r)
    have "br_tokens r + rl_rate cfg * of_int (t' - br_lastRefill r) \<le>
        (br_tokens r + rl_rate cfg * of_int (t - br_lastRefill r)) + rl_rate cfg * of_int (t' - t)"
      unfolding rl_rate_mono[OF ok 6(2), of "br_lastRefill r"] by (simp only: add.assoc order_refl)
    from min_grow[OF this nonneg] show ?thesis using Some by (simp only: sql_level_def option.case refill_expr_rate)
  qed
next
  case (7 t s i)
  then show ?case
    using refill_expr_bounds[of cfg _ t]
    by (cases "map_of s i")
       (auto simp: sql_level_def sql_isAllowed_def jm_get_update sql_inv_def refill_expr_now rl_ok_def split: if_splits)
next
  case (8 t s i)
  then show ?case
    using refill_expr_bounds[of cfg _ t]
    by (cases "map_of s i")
       (auto simp: sql_level_def sql_isAllowed_def jm_get_update sql_inv_def refill_expr_now split: if_splits)
next
  case (9 t s j i)
  then show ?case by (simp add: sql_level_def sql_isAllowed_def jm_get_update split: option.split)
next
  case (11 t s)
  then show ?case using rl_rate_pos[of cfg] by (simp add: sql_inv_def)
next
  case (12 t s i r s' t')
  then obtain row where row: "map_of s i = Some row" "s' = s" "r = retry_seconds (rl_refillIntervalMs cfg - (t - br_lastRefill row))"
    by (auto simp: sql_isAllowed_def split: option.splits if_splits)
  have ok: "rl_ok cfg" "0 \<le> br_tokens row" using 12(1) row(1) by (auto simp: sql_inv_def)
  have "rl_refillIntervalMs cfg \<le> t' - br_lastRefill row"
    using 12(3) retry_seconds_enough(1)[of "rl_refillIntervalMs cfg - (t - br_lastRefill row)"] row(3) by linarith
  then have "rl_rate cfg * of_int (rl_refillIntervalMs cfg) \<le> rl_rate cfg * of_int (t' - br_lastRefill row)"
    using rl_rate_pos[OF ok(1)] by (intro mult_left_mono) auto
  moreover have "rl_rate cfg * of_int (rl_refillIntervalMs cfg) = of_int (rl_refillAmount cfg)"
    using ok(1) by (simp add: rl_rate_def rl_ok_def)
  moreover have "1 \<le> (of_int (rl_refillAmount cfg) :: rat)" "1 \<le> (of_int (rl_capacity cfg) :: rat)"
    using ok(1) by (simp_all add: rl_ok_def)
  ultimately have "1 \<le> refill_expr cfg t' row" using ok(2) by (simp add: refill_expr_rate)
  then show ?case by (simp add: sql_isAllowed_def row)
next
  case (13 t s j i t')
  then show ?case by (simp add: sql_isAllowed_def[of cfg t' j] sql_other split: option.split)
qed auto

definition mem_burst :: "rl_config \<Rightarrow> rat" where
  "mem_burst cfg = of_int (rl_capacity cfg + rl_refillAmount cfg)"

definition bucket_level :: "rl_config \<Rightarrow> int \<Rightarrow> bucket \<Rightarrow> rat" where
  "bucket_level cfg t b = min (mem_burst cfg) (of_int (bk_tokens b) + rl_rate cfg * of_int (t - bk_lastRefill b))"

definition mem_level :: "rl_config \<Rightarrow> int \<Rightarrow> string \<Rightarrow> mem_buckets \<Rightarrow> rat" where
  "mem_level cfg t i m = (case map_of m i of None \<Rightarrow> mem_burst cfg | Some b \<Rightarrow> bucket_level cfg t b)"

definition bucket_ok :: "rl_config \<Rightarrow> int \<Rightarrow> bucket \<Rightarrow> bool" where
  "bucket_ok cfg t b \<longleftrightarrow> 0 \<le> bk_tokens b \<and> bk_tokens b \<le> rl_capacity cfg \<and> bk_lastRefill b \<le> t"

definition mem_inv :: "rl_config \<Rightarrow> int \<Rightarrow> mem_buckets \<Rightarrow> bool" where
  "mem_inv cfg t m \<longleftrightarrow> rl_ok cfg \<and> cleanup_ok cfg \<and> jm_ok m \<and> (\<forall>i b. map_of m i = Some b \<longrightarrow> bucket_ok cfg t b)"

lemma bucket_level_grow:
  assumes "rl_ok cfg" "t \<le> t'"
  shows "bucket_level cfg t' b \<le> bucket_level cfg t b + rl_rate cfg * of_int (t' - t)"
proof -
  have nonneg: "0 \<le> rl_rate cfg * of_int (t' - t)" using rl_rate_pos[OF assms(1)] assms(2) by simp
  have "of_int (bk_tokens b) + rl_rate cfg * of_int (t' - bk_lastRefill b) \<le>
      (of_int (bk_tokens b) + rl_rate cfg * of_int (t - bk_lastRefill b)) + rl_rate cfg * of_int (t' - t)"
    unfolding rl_rate_mono[OF assms, of "bk_lastRefill b"] by (simp only: add.assoc order_refl)
  from min_grow[OF this nonneg] show ?thesis by (simp only: bucket_level_def)
qed

lemma bucket_level_nonneg: "rl_ok cfg \<Longrightarrow> bucket_ok cfg t b \<Longrightarrow> 0 \<le> bucket_level cfg t b"
  using rl_rate_pos[of cfg] by (simp add: bucket_level_def bucket_ok_def mem_burst_def rl_ok_def)

text \<open>A bucket brought up to date: no more than the capacity, no older than an interval, and no more
  credit than before.\<close>

lemma rl_refilled_facts:
  assumes ok: "rl_ok cfg" and b: "bucket_ok cfg t b"
  shows "bucket_ok cfg t (rl_refilled cfg t b)" "t - bk_lastRefill (rl_refilled cfg t b) < rl_refillIntervalMs cfg"
    "bucket_level cfg t (rl_refilled cfg t b) \<le> bucket_level cfg t b"
proof -
  let ?k = "rl_refills cfg t b"
  have pos: "0 < rl_refillIntervalMs cfg" using ok by (simp add: rl_ok_def)
  let ?d = "t - bk_lastRefill b"
  have "?k * rl_refillIntervalMs cfg + ?d mod rl_refillIntervalMs cfg = ?d"
    unfolding rl_refills_def by (rule div_mult_mod_eq)
  moreover have "0 \<le> ?d mod rl_refillIntervalMs cfg" "?d mod rl_refillIntervalMs cfg < rl_refillIntervalMs cfg"
    using pos by simp_all
  ultimately have k: "?k * rl_refillIntervalMs cfg \<le> ?d" "?d < ?k * rl_refillIntervalMs cfg + rl_refillIntervalMs cfg"
    by linarith+
  have amount: "1 \<le> rl_refillAmount cfg" "1 \<le> rl_capacity cfg" using ok by (simp_all add: rl_ok_def)
  show "bucket_ok cfg t (rl_refilled cfg t b)"
    using b amount by (auto simp: bucket_ok_def rl_refilled_def)
  show "t - bk_lastRefill (rl_refilled cfg t b) < rl_refillIntervalMs cfg"
  proof (cases "0 < ?k")
    case False
    then have "?k * rl_refillIntervalMs cfg \<le> 0" using pos by (simp add: mult_le_0_iff)
    then show ?thesis using k(2) False by (simp add: rl_refilled_def)
  qed (use pos in \<open>simp add: rl_refilled_def\<close>)
  show "bucket_level cfg t (rl_refilled cfg t b) \<le> bucket_level cfg t b"
  proof (cases "0 < ?k")
    case True
    have "rl_rate cfg * of_int (?k * rl_refillIntervalMs cfg) \<le> rl_rate cfg * of_int ?d"
      using k(1) rl_rate_pos[OF ok] by (intro mult_left_mono) (simp_all del: of_int_mult of_int_diff)
    moreover have "rl_rate cfg * of_int (?k * rl_refillIntervalMs cfg) = of_int (?k * rl_refillAmount cfg)"
      using pos by (simp add: rl_rate_def)
    ultimately have "of_int (bk_tokens b + ?k * rl_refillAmount cfg) \<le> of_int (bk_tokens b) + rl_rate cfg * of_int ?d"
      by (simp only: of_int_add)
    moreover have "(of_int (min (rl_capacity cfg) (bk_tokens b + ?k * rl_refillAmount cfg)) :: rat) \<le>
        of_int (bk_tokens b + ?k * rl_refillAmount cfg)" by (simp only: of_int_le_iff min.cobounded2)
    ultimately have "(of_int (bk_tokens (rl_refilled cfg t b)) :: rat) \<le> of_int (bk_tokens b) + rl_rate cfg * of_int ?d"
      using True by (simp only: rl_refilled_def if_True bucket.simps)
    then show ?thesis using True unfolding bucket_level_def by (intro min.mono) (simp_all add: rl_refilled_def)
  qed (simp add: rl_refilled_def)
qed

lemma mem_isAllowed_found:
  assumes "map_of m i = Some b"
  shows "fst (mem_isAllowed cfg t i m) = (if 0 < bk_tokens (rl_refilled cfg t b) then Allowed
      else Limited (retry_seconds (rl_refillIntervalMs cfg - (t - bk_lastRefill (rl_refilled cfg t b)))))"
    "snd (mem_isAllowed cfg t i m) = AList.update i (if 0 < bk_tokens (rl_refilled cfg t b)
      then (rl_refilled cfg t b)\<lparr>bk_tokens := bk_tokens (rl_refilled cfg t b) - 1\<rparr> else rl_refilled cfg t b) m"
  using assms by (simp_all add: mem_isAllowed_def Let_def)

lemma mem_isAllowed_new:
  assumes "map_of m i = None"
  shows "mem_isAllowed cfg t i m = (Allowed, AList.update i \<lparr>bk_tokens = rl_capacity cfg - 1, bk_lastRefill = t\<rparr> m)"
  using assms by (simp add: mem_isAllowed_def)

lemma mem_other: "j \<noteq> i \<Longrightarrow> map_of (snd (mem_isAllowed cfg t i m)) j = map_of m j"
  by (cases "map_of m i") (simp_all add: mem_isAllowed_new mem_isAllowed_found jm_get_update)

lemma mem_inv_isAllowed:
  assumes inv: "mem_inv cfg t m" shows "mem_inv cfg t (snd (mem_isAllowed cfg t i m))"
proof (cases "map_of m i")
  case None
  then show ?thesis using inv by (simp add: mem_isAllowed_new mem_inv_def jm_get_update bucket_ok_def rl_ok_def)
next
  case (Some b)
  then have "bucket_ok cfg t (rl_refilled cfg t b)" using rl_refilled_facts(1) inv by (simp add: mem_inv_def)
  then show ?thesis using inv Some by (simp add: mem_isAllowed_found mem_inv_def jm_get_update bucket_ok_def)
qed

text \<open>Below the burst an update of a fresh bucket costs exactly what it takes.\<close>

lemma bucket_level_take:
  assumes ok: "rl_ok cfg" and b: "bucket_ok cfg t b" "t - bk_lastRefill b < rl_refillIntervalMs cfg"
  shows "bucket_level cfg t (b\<lparr>bk_tokens := bk_tokens b - 1\<rparr>) = bucket_level cfg t b - 1"
proof -
  let ?f = "rl_rate cfg * of_int (t - bk_lastRefill b)"
  have "rl_rate cfg * of_int (t - bk_lastRefill b) \<le> rl_rate cfg * of_int (rl_refillIntervalMs cfg)"
    using b(2) rl_rate_pos[OF ok] by (intro mult_left_mono) (simp_all del: of_int_diff)
  also have "\<dots> = of_int (rl_refillAmount cfg)" using ok by (simp add: rl_rate_def rl_ok_def)
  finally have f: "?f \<le> of_int (rl_refillAmount cfg)" .
  have "(of_int (bk_tokens b) :: rat) \<le> of_int (rl_capacity cfg)" using b(1) by (simp add: bucket_ok_def)
  then have "of_int (bk_tokens b) + ?f \<le> mem_burst cfg" using f unfolding mem_burst_def of_int_add by linarith
  moreover have "of_int (bk_tokens b - 1) + ?f \<le> mem_burst cfg"
    using calculation unfolding of_int_diff of_int_1 by linarith
  ultimately show ?thesis by (simp add: bucket_level_def min_absorb2)
qed

lemma mem_level_isAllowed:
  assumes inv: "mem_inv cfg t m"
  shows "mem_level cfg t i (snd (mem_isAllowed cfg t i m)) \<le>
    mem_level cfg t i m - (if fst (mem_isAllowed cfg t i m) = Allowed then 1 else 0)"
proof (cases "map_of m i")
  case None
  then show ?thesis
    using inv by (simp add: mem_isAllowed_new mem_level_def jm_get_update bucket_level_def mem_burst_def mem_inv_def rl_ok_def)
next
  case (Some b)
  have ok: "rl_ok cfg" "bucket_ok cfg t b" using inv Some by (auto simp: mem_inv_def)
  note r = rl_refilled_facts[OF ok]
  show ?thesis
    using Some r(3) bucket_level_take[OF ok(1) r(1,2)]
    by (simp add: mem_isAllowed_found mem_level_def jm_get_update)
qed

lemma mem_cleanup_get:
  assumes "jm_ok m"
  shows "map_of (mem_cleanup t m) i =
    (case map_of m i of Some b \<Rightarrow> if STALE_MS < t - bk_lastRefill b then None else Some b | None \<Rightarrow> None)"
  using assms unfolding mem_cleanup_def jm_ok_def
  by (induction m) (auto split: option.splits simp: map_of_eq_None_iff)

lemma mem_level_cleanup:
  assumes inv: "mem_inv cfg t m" shows "mem_level cfg t i (mem_cleanup t m) \<le> mem_level cfg t i m"
proof (cases "map_of m i")
  case (Some b)
  show ?thesis
  proof (cases "STALE_MS < t - bk_lastRefill b")
    case True
    have ok: "rl_ok cfg" "0 \<le> bk_tokens b" "cleanup_ok cfg" using inv Some by (auto simp: mem_inv_def bucket_ok_def)
    have "of_int ((rl_capacity cfg + rl_refillAmount cfg) * rl_refillIntervalMs cfg) \<le> (of_int (rl_refillAmount cfg * STALE_MS) :: rat)"
      using ok(3) unfolding cleanup_ok_def by (simp only: of_int_le_iff)
    then have "mem_burst cfg \<le> rl_rate cfg * of_int STALE_MS"
      using ok(1) by (simp add: mem_burst_def rl_rate_def rl_ok_def field_simps)
    also have "\<dots> \<le> rl_rate cfg * of_int (t - bk_lastRefill b)"
      using True rl_rate_pos[OF ok(1)] by (intro mult_left_mono) (simp_all del: of_int_diff)
    finally have "mem_burst cfg \<le> of_int (bk_tokens b) + rl_rate cfg * of_int (t - bk_lastRefill b)"
      using ok(2) by (simp del: of_int_diff add: add_increasing)
    then show ?thesis
      using Some True inv by (simp add: mem_level_def mem_cleanup_get mem_inv_def bucket_level_def min_def)
  qed (use Some inv in \<open>simp add: mem_level_def mem_cleanup_get mem_inv_def\<close>)
qed (use inv in \<open>simp add: mem_level_def mem_cleanup_get mem_inv_def\<close>)

interpretation mem_rate: rate_backend "mem_isAllowed cfg" mem_cleanup "mem_inv cfg" "mem_level cfg"
  "mem_burst cfg" "rl_rate cfg" for cfg
proof (unfold_locales, goal_cases)
  case (1 t s i) then show ?case by (rule mem_inv_isAllowed)
next
  case (2 t s)
  then show ?case by (simp add: mem_inv_def mem_cleanup_get split: option.split)
    (simp add: mem_cleanup_def jm_ok_def distinct_map_filter)
next
  case (3 t s t') then show ?case unfolding mem_inv_def bucket_ok_def by force
next
  case (4 t s i)
  then show ?case
    using bucket_level_nonneg[of cfg t]
    by (auto simp: mem_inv_def mem_level_def mem_burst_def rl_ok_def split: option.split)
next
  case (5 t s i) then show ?case by (simp add: mem_level_def bucket_level_def split: option.split)
next
  case (6 t s t' i)
  then show ?case
    using bucket_level_grow[of cfg t t'] rl_rate_pos[of cfg]
    by (auto simp: mem_inv_def mem_level_def simp del: of_int_diff split: option.split)
next
  case (7 t s i) then show ?case using mem_level_isAllowed[of cfg t s i] by simp
next
  case (8 t s i) then show ?case using mem_level_isAllowed[of cfg t s i] by (simp split: if_splits)
next
  case (9 t s j i) then show ?case by (simp add: mem_level_def mem_other)
next
  case (10 t s i) then show ?case by (rule mem_level_cleanup)
next
  case (11 t s) then show ?case using rl_rate_pos[of cfg] by (simp add: mem_inv_def)
next
  case (12 t s i r s' t')
  then obtain b where b: "map_of s i = Some b"
    by (cases "map_of s i") (simp_all add: mem_isAllowed_new)
  let ?b = "rl_refilled cfg t b"
  have r: "\<not> 0 < bk_tokens ?b" "r = retry_seconds (rl_refillIntervalMs cfg - (t - bk_lastRefill ?b))"
    "s' = AList.update i ?b s"
    using 12(2) mem_isAllowed_found[OF b, of cfg t] by (auto split: if_splits)
  have ok: "rl_ok cfg" "bucket_ok cfg t b" using 12(1) b by (auto simp: mem_inv_def)
  have zero: "bk_tokens ?b = 0" using r(1) rl_refilled_facts(1)[OF ok] by (simp add: bucket_ok_def)
  have late: "rl_refillIntervalMs cfg \<le> t' - bk_lastRefill ?b"
    using 12(3) retry_seconds_enough(1)[of "rl_refillIntervalMs cfg - (t - bk_lastRefill ?b)"] r(2) by linarith
  then have k: "1 \<le> rl_refills cfg t' ?b"
    using ok(1) zdiv_mono1[OF late, of "rl_refillIntervalMs cfg"] by (simp add: rl_refills_def rl_ok_def)
  then have "1 \<le> rl_refills cfg t' ?b * rl_refillAmount cfg"
    using ok(1) mult_mono[of 1 "rl_refills cfg t' ?b" 1 "rl_refillAmount cfg"] by (simp add: rl_ok_def)
  then have "0 < bk_tokens (rl_refilled cfg t' ?b)" using k zero ok(1) by (simp add: rl_refilled_def[of cfg t' ?b] rl_ok_def)
  then show ?case by (simp add: r(3) mem_isAllowed_found(1)[of _ _ ?b] jm_get_update)
next
  case (13 t s j i t')
  then show ?case by (cases "map_of s j") (simp_all add: mem_other mem_isAllowed_new mem_isAllowed_found(1))
qed

section \<open>Properties\<close>

definition rl_state :: "(int \<Rightarrow> 'i \<Rightarrow> 's \<Rightarrow> rate_result \<times> 's) \<Rightarrow> (int \<Rightarrow> 's \<Rightarrow> 's) \<Rightarrow> (int \<times> 'i option) list \<Rightarrow> 's \<Rightarrow> 's" where
  "rl_state check tick evs s = fold (\<lambda>(t, x). case x of None \<Rightarrow> tick t | Some i \<Rightarrow> snd \<circ> check t i) evs s"

context rate_backend begin

lemma reachable_inv:
  assumes "sorted (map fst evs)" "\<forall>e \<in> set evs. t0 \<le> fst e \<and> fst e \<le> t" "t0 \<le> t" "inv t0 s"
  shows "inv t (rl_state check tick evs s)"
  using assms
proof (induction evs arbitrary: t0 s)
  case Nil
  then show ?case using inv_later by (simp add: rl_state_def)
next
  case (Cons e evs)
  obtain u x where e: "e = (u, x)" by (cases e)
  have u: "inv u s" "u \<le> t" "sorted (map fst evs)" "\<forall>e \<in> set evs. u \<le> fst e \<and> fst e \<le> t"
    using Cons.prems inv_later by (auto simp: e)
  have "inv t (rl_state check tick evs (case x of None \<Rightarrow> tick u s | Some i \<Rightarrow> snd (check u i s)))"
    by (rule Cons.IH[OF u(3,4,2)]) (use u(1) inv_tick inv_check in \<open>auto split: option.split\<close>)
  then show ?case by (cases x) (simp_all add: e rl_state_def)
qed

end

lemma mem_inv_start: "rl_ok cfg \<Longrightarrow> cleanup_ok cfg \<Longrightarrow> mem_inv cfg t []"
  by (simp add: mem_inv_def)

lemma sql_inv_start: "rl_ok cfg \<Longrightarrow> sql_inv cfg t []"
  by (simp add: sql_inv_def)

lemma sorted_start: "sorted (map fst evs) \<Longrightarrow> \<forall>e \<in> set evs. (case evs of [] \<Rightarrow> 0 | e # _ \<Rightarrow> fst e) \<le> fst e" for evs :: "(int \<times> 'a) list"
  by (cases evs) auto

text \<open>C14. The rate limit holds over every window of time, whatever the requests of this and other clients:
  in the milliseconds from \<open>a\<close> to \<open>b\<close> the SQLite store admits of one client at most the capacity plus what
  flows in at the configured rate, and the store in memory at most one refill more, also across the
  removal of idle buckets when a bucket refills within the half hour after which it is removed.\<close>
theorem rate_limit_window:
  assumes "rl_ok cfg" "cleanup_ok cfg" "sorted (map fst evs)" "a \<le> b"
  shows "of_nat (allowed_between a b i (rl_run (sql_isAllowed cfg) (\<lambda>_ s. s) evs [])) \<le>
      of_int (rl_capacity cfg) + of_int (rl_refillAmount cfg) / of_int (rl_refillIntervalMs cfg) * (of_int (b - a) :: rat) \<and>
    of_nat (allowed_between a b i (rl_run (mem_isAllowed cfg) mem_cleanup evs [])) \<le>
      of_int (rl_capacity cfg + rl_refillAmount cfg) +
      of_int (rl_refillAmount cfg) / of_int (rl_refillIntervalMs cfg) * (of_int (b - a) :: rat)"
  using sql_rate.window_bound[OF assms(3) sorted_start[OF assms(3)] assms(4) sql_inv_start[OF assms(1)]]
    mem_rate.window_bound[OF assms(3) sorted_start[OF assms(3)] assms(4) mem_inv_start[OF assms(1,2)]]
  by (simp only: rl_rate_def mem_burst_def)

text \<open>The limits of the game validation route.\<close>

definition route_limits :: rl_config where
  "route_limits = \<lparr>rl_capacity = 100, rl_refillIntervalMs = 60 * 1000, rl_refillAmount = 100\<rparr>"

lemma route_limits_ok: "rl_ok route_limits" "cleanup_ok route_limits"
  by (simp_all add: rl_ok_def cleanup_ok_def route_limits_def STALE_MS_def)

theorem rate_limit_window_witness:
  "(of_nat (allowed_between 0 6000 ''a'' (rl_run (sql_isAllowed route_limits) (\<lambda>_ s. s)
     [(0, Some ''a''), (10, Some ''b''), (6000, Some ''a'')] [])) :: rat) \<le> 110"
  using rate_limit_window[OF route_limits_ok,
      of "[(0, Some ''a''), (10, Some ''b''), (6000, Some ''a'')]" 0 6000 "''a''"]
  by (simp add: route_limits_def)

text \<open>The \<open>Retry-After\<close> of a refusal is enough: after any requests whatsoever, a client refused at a
  time \<open>t\<close> and told to wait \<open>r\<close> seconds is admitted when it comes back after them, with either store.\<close>
lemma retry_after_is_enough:
  assumes "rl_ok cfg" "cleanup_ok cfg" "sorted (map fst evs)" "\<forall>e \<in> set evs. fst e \<le> t" "t + 1000 * r \<le> t'"
  shows "(fst (mem_isAllowed cfg t i (rl_state (mem_isAllowed cfg) mem_cleanup evs [])) = Limited r \<longrightarrow>
      fst (mem_isAllowed cfg t' i (snd (mem_isAllowed cfg t i (rl_state (mem_isAllowed cfg) mem_cleanup evs [])))) = Allowed) \<and>
    (fst (sql_isAllowed cfg t i (rl_state (sql_isAllowed cfg) (\<lambda>_ s. s) evs [])) = Limited r \<longrightarrow>
      fst (sql_isAllowed cfg t' i (snd (sql_isAllowed cfg t i (rl_state (sql_isAllowed cfg) (\<lambda>_ s. s) evs [])))) = Allowed)"
proof -
  define t0 where "t0 = (case evs of [] \<Rightarrow> t | e # _ \<Rightarrow> fst e)"
  have t0: "\<forall>e \<in> set evs. t0 \<le> fst e \<and> fst e \<le> t" "t0 \<le> t"
    using assms(3,4) by (cases evs; auto simp: t0_def)+
  have "mem_inv cfg t (rl_state (mem_isAllowed cfg) mem_cleanup evs [])"
    by (rule mem_rate.reachable_inv[OF assms(3) t0 mem_inv_start[OF assms(1,2)]])
  moreover have "sql_inv cfg t (rl_state (sql_isAllowed cfg) (\<lambda>_ s. s) evs [])"
    by (rule sql_rate.reachable_inv[OF assms(3) t0 sql_inv_start[OF assms(1)]])
  ultimately show ?thesis
    using mem_rate.retry_enough[OF _ _ assms(5)] sql_rate.retry_enough[OF _ _ assms(5)]
    by (metis prod.collapse)
qed

definition tiny_limits :: rl_config where
  "tiny_limits = \<lparr>rl_capacity = 1, rl_refillIntervalMs = 5000, rl_refillAmount = 1\<rparr>"

lemma retry_after_is_enough_example:
  "fst (mem_isAllowed tiny_limits 6000 ''a'' (snd (mem_isAllowed tiny_limits 1000 ''a''
     (rl_state (mem_isAllowed tiny_limits) mem_cleanup [(1000, Some ''a'')] [])))) = Allowed"
  using retry_after_is_enough[of tiny_limits "[(1000, Some ''a'')]" 1000 5 6000 "''a''"]
  by (simp add: tiny_limits_def rl_ok_def cleanup_ok_def STALE_MS_def rl_state_def mem_isAllowed_def Let_def
      rl_refilled_def rl_refills_def retry_seconds_def)

text \<open>The extra refill of the store in memory is real: with a capacity of two, three requests pass within
  one millisecond.\<close>

lemma mem_burst_reached:
  "allowed_between 999 1000 ''a''
    (rl_run (mem_isAllowed \<lparr>rl_capacity = 2, rl_refillIntervalMs = 1000, rl_refillAmount = 2\<rparr>) mem_cleanup
      [(0, Some ''a''), (999, Some ''a''), (1000, Some ''a''), (1000, Some ''a'')] []) = 3"
  by (simp add: mem_isAllowed_def Let_def rl_refilled_def rl_refills_def allowed_between_def)

section \<open>The middleware's answers\<close>

lemma getClientIp_untrusted:
  "or_else remote ''unknown'' \<notin> set trusted \<Longrightarrow> remote \<noteq> Some [] \<Longrightarrow>
    getClientIp remote forwarded trusted = or_else remote ''unknown''"
  by (cases remote; cases "the remote") (auto simp: getClientIp_def Let_def or_else_def)

lemma getClientIp_no_proxies: "getClientIp remote f1 [] = getClientIp remote f2 []"
  by (simp add: getClientIp_def)

text \<open>A refused request is let through when only the second call of the backend fails.\<close>

lemma middleware_fails_open: "ra_outcome (rate_limit_middleware c (Some (Limited r)) None) = PassedOn"
  by (simp add: rate_limit_middleware_def Let_def)

lemma middleware_refuses_iff:
  "ra_outcome (rate_limit_middleware c allowed remaining) \<noteq> PassedOn \<longleftrightarrow>
    (\<exists>r tokens. allowed = Some (Limited r) \<and> remaining = Some tokens)"
  by (auto simp: rate_limit_middleware_def Let_def split: option.splits rate_result.splits)

text \<open>The limit reported is a constant, whatever the capacity.\<close>

lemma middleware_limit_header: "ra_limit_header (rate_limit_middleware c allowed remaining) \<in> {None, Some ''100''}"
  by (auto simp: rate_limit_middleware_def Let_def split: option.split rate_result.split)

section \<open>Order and rate of the queueing limiter\<close>

datatype limiter_op = Schedule nat | Timer int

fun limiter_step :: "rl_config \<Rightarrow> limiter_op \<Rightarrow> rate_limiter \<Rightarrow> rate_limiter" where
  "limiter_step cfg (Schedule w) l = rq_schedule w l"
| "limiter_step cfg (Timer now) l = rq_refill cfg now l"

fun submitted :: "limiter_op list \<Rightarrow> nat list" where
  "submitted [] = []"
| "submitted (Schedule w # ops) = w # submitted ops"
| "submitted (Timer now # ops) = submitted ops"

lemma submitted_append [simp]: "submitted (xs @ ys) = submitted xs @ submitted ys"
  by (induction xs rule: submitted.induct) auto

lemma rq_drain_facts:
  assumes "rq_drain ws tokens started = (tokens', ws', started')"
  shows "started' @ ws' = started @ ws" "int (length started') + tokens' = int (length started) + tokens"
    "0 \<le> tokens \<Longrightarrow> 0 \<le> tokens'" "0 \<le> tokens \<Longrightarrow> ws' \<noteq> [] \<Longrightarrow> tokens' = 0" "tokens' \<le> tokens"
  using assms by (induction ws tokens started rule: rq_drain.induct) (auto split: if_splits)

definition limiter_inv :: "rl_config \<Rightarrow> int \<Rightarrow> rate_limiter \<Rightarrow> bool" where
  "limiter_inv cfg t0 l \<longleftrightarrow> 0 \<le> rq_tokens l \<and> rq_tokens l \<le> rl_capacity cfg \<and>
    (rq_queue l \<noteq> [] \<longrightarrow> rq_tokens l = 0) \<and>
    (int (length (rq_started l)) + rq_tokens l - rl_capacity cfg) * rl_refillIntervalMs cfg \<le>
      rl_refillAmount cfg * (rq_lastRefill l - t0)"

lemma limiter_inv_schedule: "limiter_inv cfg t0 l \<Longrightarrow> limiter_inv cfg t0 (rq_schedule w l)"
  by (auto simp: limiter_inv_def rq_schedule_def)

lemma limiter_inv_refill:
  assumes ok: "rl_ok cfg" and inv: "limiter_inv cfg t0 l"
  shows "limiter_inv cfg t0 (rq_refill cfg now l)"
proof (cases "now - rq_lastRefill l < rl_refillIntervalMs cfg")
  case False
  let ?t = "min (rl_capacity cfg) (rq_tokens l + rl_refillAmount cfg)"
  obtain tokens queue started where d: "rq_drain (rq_queue l) ?t (rq_started l) = (tokens, queue, started)"
    by (metis prod_cases3)
  have r: "rq_refill cfg now l = \<lparr>rq_tokens = tokens, rq_queue = queue, rq_lastRefill = now, rq_started = started\<rparr>"
    using False by (simp add: rq_refill_def d)
  have pos: "0 \<le> ?t" "1 \<le> rl_refillAmount cfg" "1 \<le> rl_refillIntervalMs cfg"
    using ok inv by (auto simp: rl_ok_def limiter_inv_def)
  note f = rq_drain_facts[OF d]
  have "int (length started) + tokens - rl_capacity cfg \<le>
      (int (length (rq_started l)) + rq_tokens l - rl_capacity cfg) + rl_refillAmount cfg"
    using f(2) by linarith
  then have "(int (length started) + tokens - rl_capacity cfg) * rl_refillIntervalMs cfg \<le>
      ((int (length (rq_started l)) + rq_tokens l - rl_capacity cfg) + rl_refillAmount cfg) * rl_refillIntervalMs cfg"
    using pos(3) by (intro mult_right_mono) auto
  also have "\<dots> \<le> rl_refillAmount cfg * (rq_lastRefill l - t0) + rl_refillAmount cfg * rl_refillIntervalMs cfg"
    using inv by (simp add: limiter_inv_def distrib_right)
  also have "\<dots> \<le> rl_refillAmount cfg * (rq_lastRefill l - t0) + rl_refillAmount cfg * (now - rq_lastRefill l)"
    using False pos(2) by (intro add_left_mono mult_left_mono) auto
  also have "\<dots> = rl_refillAmount cfg * (now - t0)" by (simp add: algebra_simps)
  finally show ?thesis using f(3-5) pos(1) by (auto simp: limiter_inv_def r)
qed (use inv in \<open>simp add: rq_refill_def\<close>)

lemma limiter_order:
  "rq_started (limiter_step cfg op l) @ rq_queue (limiter_step cfg op l) = rq_started l @ rq_queue l @ submitted [op]"
  if "rq_queue l \<noteq> [] \<longrightarrow> rq_tokens l = 0"
proof (cases op)
  case (Schedule w)
  then show ?thesis using that by (auto simp: rq_schedule_def)
next
  case (Timer now)
  then show ?thesis
    using rq_drain_facts(1) by (auto simp: rq_refill_def split: prod.split)
qed

text \<open>The queueing limiter keeps the order and the rate: after any sequence of submissions and timer
  calls the work started, followed by the work that waits, is the work submitted in its order; work only
  waits while no token is left; and the work started is at most the capacity plus the refill amount per
  interval gone by.\<close>
lemma rate_limiter_fair:
  assumes "rl_ok cfg"
  shows "case fold (limiter_step cfg) ops (new_limiter cfg t0) of l \<Rightarrow>
    rq_started l @ rq_queue l = submitted ops \<and> (rq_queue l \<noteq> [] \<longrightarrow> rq_tokens l = 0) \<and>
    (int (length (rq_started l)) - rl_capacity cfg) * rl_refillIntervalMs cfg \<le> rl_refillAmount cfg * (rq_lastRefill l - t0)"
proof -
  define l where "l = fold (limiter_step cfg) ops (new_limiter cfg t0)"
  have "limiter_inv cfg t0 l \<and> rq_started l @ rq_queue l = submitted ops"
    unfolding l_def
  proof (induction ops rule: rev_induct)
    case Nil
    then show ?case using assms by (simp add: limiter_inv_def new_limiter_def rl_ok_def)
  next
    case (snoc op ops)
    then have "rq_queue (fold (limiter_step cfg) ops (new_limiter cfg t0)) \<noteq> [] \<longrightarrow>
        rq_tokens (fold (limiter_step cfg) ops (new_limiter cfg t0)) = 0" by (simp add: limiter_inv_def)
    from limiter_order[OF this, of cfg op] show ?case
      using snoc limiter_inv_schedule limiter_inv_refill[OF assms] by (cases op) auto
  qed
  then have l: "limiter_inv cfg t0 l" "rq_started l @ rq_queue l = submitted ops" by simp_all
  have "(int (length (rq_started l)) - rl_capacity cfg) * rl_refillIntervalMs cfg \<le>
      (int (length (rq_started l)) + rq_tokens l - rl_capacity cfg) * rl_refillIntervalMs cfg"
    using l(1) assms by (intro mult_right_mono) (auto simp: limiter_inv_def rl_ok_def)
  also have "\<dots> \<le> rl_refillAmount cfg * (rq_lastRefill l - t0)" using l(1) by (simp add: limiter_inv_def)
  finally show ?thesis using l unfolding l_def[symmetric] by (simp add: limiter_inv_def)
qed

lemma rate_limiter_fair_example:
  "rq_started (fold (limiter_step tiny_limits) [Schedule 1, Schedule 2, Schedule 3, Timer 5000] (new_limiter tiny_limits 0)) @
   rq_queue (fold (limiter_step tiny_limits) [Schedule 1, Schedule 2, Schedule 3, Timer 5000] (new_limiter tiny_limits 0))
   = [1, 2, 3]"
  using rate_limiter_fair[of tiny_limits "[Schedule 1, Schedule 2, Schedule 3, Timer 5000]" 0]
  by (simp add: tiny_limits_def rl_ok_def)

end
