(* ===== verification/Disagreement.thy ===== *)
theory Disagreement
  imports ChessTypes PlayerIdentity Settings
begin

text \<open>
  The review signal for outcomes that disagree with independent evidence
  (\<open>services/outcome-disagreement-monitor.ts\<close>) and the service that feeds it
  (\<open>services/outcome-disagreement-service.ts\<close>): classification of one match, the sliding window, the
  thresholds, the decoding of the chain's answers, and the delayed, repeated checks. The two sources are
  parameters, \<open>None\<close> for a rejected read. The rate of disagreement is an exact fraction, the double the
  code computes is the nearest one to it.
\<close>

section \<open>Observations\<close>

datatype obs_reason = ProviderError | GameInProgress | IdentityUnmappable | ChainError | NoChainResult

datatype obs_kind = Agree | Disagree | Unverifiable obs_reason

record evidence_input =
  ei_matchId :: nat
  ei_gameId :: string
  ei_platform :: string
  ei_player1Username :: string
  ei_player2Username :: string

record observation =
  ob_matchId :: nat
  ob_platform :: string
  ob_kind :: obs_kind
  ob_providerOutcome :: "match_result option"
  ob_chainOutcome :: "match_result option"
  ob_observedAt :: int

record dm_config =
  dc_windowSize :: rat
  dc_maxAgeMs :: rat
  dc_minDecided :: rat
  dc_minDisagreements :: rat
  dc_minDisagreementRate :: rat

definition DEFAULT_DISAGREEMENT_MONITOR_CONFIG :: dm_config where
  "DEFAULT_DISAGREEMENT_MONITOR_CONFIG = \<lparr>dc_windowSize = 20, dc_maxAgeMs = 24 * 60 * 60 * 1000,
     dc_minDecided = 5, dc_minDisagreements = 3, dc_minDisagreementRate = 1 / 5\<rparr>"

definition DEGRADED_EVIDENCE_RATE :: rat where "DEGRADED_EVIDENCE_RATE = 1 / 2"
definition DM_MAX_REPORTED :: nat where "DM_MAX_REPORTED = 20"

section \<open>Classification\<close>

fun flip_result :: "match_result \<Rightarrow> match_result" where
  "flip_result Player1Wins = Player2Wins"
| "flip_result Player2Wins = Player1Wins"
| "flip_result Draw = Draw"

definition toPlayer1Perspective :: "game_result \<Rightarrow> string \<Rightarrow> string \<Rightarrow> match_result option" where
  "toPlayer1Perspective game u1 u2 =
    (case g_result game of
       None \<Rightarrow> None
     | Some res \<Rightarrow>
        (let white = normalize_name (g_whitePlayer game); black = normalize_name (g_blackPlayer game);
             player1 = normalize_name u1; player2 = normalize_name u2
         in if white = [] \<or> black = [] \<or> player1 = [] \<or> player2 = [] then None
            else if white = player1 \<and> black = player2 then Some res
            else if white = player2 \<and> black = player1 then Some (flip_result res)
            else None))"

text \<open>\<open>chain\<close> and \<open>provider\<close> are what the two reads give; the second is only made when the first found a
  result.\<close>

definition checkMatch :: "evidence_input \<Rightarrow> match_result option option \<Rightarrow> game_result option \<Rightarrow> int \<Rightarrow> observation" where
  "checkMatch i chain provider now =
    (let base = (\<lambda>kind p c. \<lparr>ob_matchId = ei_matchId i, ob_platform = ei_platform i, ob_kind = kind,
           ob_providerOutcome = p, ob_chainOutcome = c, ob_observedAt = now\<rparr>)
     in case chain of
          None \<Rightarrow> base (Unverifiable ChainError) None None
        | Some None \<Rightarrow> base (Unverifiable NoChainResult) None None
        | Some (Some chainOutcome) \<Rightarrow>
           (case provider of
              None \<Rightarrow> base (Unverifiable ProviderError) None None
            | Some game \<Rightarrow>
               if g_result game = None then base (Unverifiable GameInProgress) None None
               else (case toPlayer1Perspective game (ei_player1Username i) (ei_player2Username i) of
                   None \<Rightarrow> base (Unverifiable IdentityUnmappable) None None
                 | Some p \<Rightarrow> base (if p = chainOutcome then Agree else Disagree) (Some p) (Some chainOutcome))))"

section \<open>The window\<close>

record dm_state =
  dm_observations :: "observation list"
  dm_reviewActive :: bool
  dm_degradedActive :: bool

definition new_dm :: dm_state where
  "new_dm = \<lparr>dm_observations = [], dm_reviewActive = False, dm_degradedActive = False\<rparr>"

definition window_size :: "dm_config \<Rightarrow> nat" where
  "window_size cfg = nat \<lfloor>dc_windowSize cfg\<rfloor>"

definition fresh :: "dm_config \<Rightarrow> int \<Rightarrow> observation \<Rightarrow> bool" where
  "fresh cfg now ob \<longleftrightarrow> of_int now - dc_maxAgeMs cfg < of_int (ob_observedAt ob)"

definition prune :: "dm_config \<Rightarrow> int \<Rightarrow> observation list \<Rightarrow> observation list" where
  "prune cfg now obs = (let kept = filter (fresh cfg now) obs in
     if window_size cfg < length kept then take_last (window_size cfg) kept else kept)"

record platform_counts =
  pc_agree :: nat
  pc_disagree :: nat
  pc_unverifiable :: nat

definition count_observation :: "observation \<Rightarrow> platform_counts \<Rightarrow> platform_counts" where
  "count_observation ob c = (case ob_kind ob of
     Agree \<Rightarrow> c\<lparr>pc_agree := pc_agree c + 1\<rparr>
   | Disagree \<Rightarrow> c\<lparr>pc_disagree := pc_disagree c + 1\<rparr>
   | Unverifiable _ \<Rightarrow> c\<lparr>pc_unverifiable := pc_unverifiable c + 1\<rparr>)"

definition no_counts :: platform_counts where
  "no_counts = \<lparr>pc_agree = 0, pc_disagree = 0, pc_unverifiable = 0\<rparr>"

fun count_platforms :: "observation list \<Rightarrow> (string, platform_counts) jsmap \<Rightarrow> (string, platform_counts) jsmap" where
  "count_platforms [] m = m"
| "count_platforms (ob # obs) m =
    count_platforms obs (AList.update (ob_platform ob)
      (count_observation ob (case map_of m (ob_platform ob) of None \<Rightarrow> no_counts | Some c \<Rightarrow> c)) m)"

record dm_status =
  ds_reviewRequired :: bool
  ds_evidenceDegraded :: bool
  ds_windowObservations :: nat
  ds_decided :: nat
  ds_agreements :: nat
  ds_disagreements :: nat
  ds_unverifiable :: nat
  ds_disagreementRate :: rat
  ds_byPlatform :: "(string, platform_counts) jsmap"
  ds_disagreeingMatchIds :: "nat list"

definition computeStatus :: "dm_config \<Rightarrow> observation list \<Rightarrow> dm_status" where
  "computeStatus cfg obs =
    (let counts = fold count_observation obs no_counts;
         agreements = pc_agree counts; disagreements = pc_disagree counts; unverifiable = pc_unverifiable counts;
         disagreeing = map ob_matchId (filter (\<lambda>ob. ob_kind ob = Disagree) obs);
         decided = agreements + disagreements;
         disagreementRate = (if decided = 0 then 0 else of_nat disagreements / of_nat decided);
         total = length obs
     in \<lparr>ds_reviewRequired = (dc_minDecided cfg \<le> of_nat decided \<and> dc_minDisagreements cfg \<le> of_nat disagreements \<and>
           dc_minDisagreementRate cfg \<le> disagreementRate),
         ds_evidenceDegraded = (dc_minDecided cfg \<le> of_nat total \<and>
           0 < total \<and> DEGRADED_EVIDENCE_RATE \<le> of_nat unverifiable / of_nat total),
         ds_windowObservations = total, ds_decided = decided, ds_agreements = agreements,
         ds_disagreements = disagreements, ds_unverifiable = unverifiable, ds_disagreementRate = disagreementRate,
         ds_byPlatform = count_platforms obs [], ds_disagreeingMatchIds = take_last DM_MAX_REPORTED disagreeing\<rparr>)"

datatype dm_event = ReviewRequired | ReviewRecovered | EvidenceDegraded | EvidenceRecovered

definition handleTransitions :: "dm_status \<Rightarrow> dm_state \<Rightarrow> dm_event list \<times> dm_state" where
  "handleTransitions status st =
    ((if ds_reviewRequired status \<and> \<not> dm_reviewActive st then [ReviewRequired]
      else if \<not> ds_reviewRequired status \<and> dm_reviewActive st then [ReviewRecovered] else []) @
     (if ds_evidenceDegraded status \<and> \<not> dm_degradedActive st then [EvidenceDegraded]
      else if \<not> ds_evidenceDegraded status \<and> dm_degradedActive st then [EvidenceRecovered] else []),
     st\<lparr>dm_reviewActive := ds_reviewRequired status, dm_degradedActive := ds_evidenceDegraded status\<rparr>)"

text \<open>\<open>t1\<close> and \<open>t2\<close> are the clock at the two calls of \<open>prune\<close>.\<close>

definition record_obs :: "dm_config \<Rightarrow> int \<Rightarrow> int \<Rightarrow> observation \<Rightarrow> dm_state \<Rightarrow> dm_event list \<times> dm_state" where
  "record_obs cfg t1 t2 ob st =
    (let others = filter (\<lambda>p. ob_matchId p \<noteq> ob_matchId ob) (prune cfg t1 (dm_observations st));
         window = prune cfg t2 (others @ [ob])
     in handleTransitions (computeStatus cfg window) (st\<lparr>dm_observations := window\<rparr>))"

definition dm_getStatus :: "dm_config \<Rightarrow> int \<Rightarrow> dm_state \<Rightarrow> dm_status \<times> dm_state" where
  "dm_getStatus cfg now st =
    (let window = prune cfg now (dm_observations st) in (computeStatus cfg window, st\<lparr>dm_observations := window\<rparr>))"

section \<open>Settings\<close>

definition dm_validateConfig :: "dm_config \<Rightarrow> string option" where
  "dm_validateConfig c =
    (let positiveInt = (\<lambda>v. v \<in> \<int> \<and> 0 < v) in
     if \<not> positiveInt (dc_windowSize c) then Some ''windowSize''
     else if \<not> positiveInt (dc_minDecided c) then Some ''minDecided''
     else if \<not> positiveInt (dc_minDisagreements c) then Some ''minDisagreements''
     else if dc_maxAgeMs c \<le> 0 then Some ''maxAgeMs''
     else if dc_minDisagreementRate c \<le> 0 \<or> 1 < dc_minDisagreementRate c then Some ''minDisagreementRate''
     else if dc_windowSize c < dc_minDecided c then Some ''minDecided cannot exceed windowSize''
     else if dc_windowSize c < dc_minDisagreements c then Some ''minDisagreements cannot exceed windowSize''
     else None)"

text \<open>A number of hours whose milliseconds are beyond the doubles is not finite; an age of zero stands for
  it, which is refused at the same place.\<close>

definition loadDisagreementMonitorConfig :: "env \<Rightarrow> string + dm_config" where
  "loadDisagreementMonitorConfig env =
    (let d = DEFAULT_DISAGREEMENT_MONITOR_CONFIG in
     bind_sum (readNumber env ''OUTCOME_DISAGREEMENT_WINDOW_SIZE'' (dc_windowSize d)) (\<lambda>ws.
     bind_sum (readNumber env ''OUTCOME_DISAGREEMENT_MAX_AGE_HOURS'' (dc_maxAgeMs d / (60 * 60 * 1000))) (\<lambda>hours.
     bind_sum (readNumber env ''OUTCOME_DISAGREEMENT_MIN_DECIDED'' (dc_minDecided d)) (\<lambda>md.
     bind_sum (readNumber env ''OUTCOME_DISAGREEMENT_MIN_DISAGREEMENTS'' (dc_minDisagreements d)) (\<lambda>mg.
     bind_sum (readNumber env ''OUTCOME_DISAGREEMENT_MIN_RATE'' (dc_minDisagreementRate d)) (\<lambda>mr.
       let config = \<lparr>dc_windowSize = ws,
             dc_maxAgeMs = (case js_round (hours * 60 * 60 * 1000) of Fin age \<Rightarrow> age | _ \<Rightarrow> 0),
             dc_minDecided = md, dc_minDisagreements = mg, dc_minDisagreementRate = mr\<rparr>
       in case dm_validateConfig config of Some e \<Rightarrow> Inl e | None \<Rightarrow> Inr config))))))"

section \<open>Reading the chain\<close>

text \<open>A value as \<open>scValToNative\<close> returns it, as far as the decoders look at it.\<close>

datatype native = NatUndef | NatNull | NatBool bool | NatStr string | NatArr "native list"
  | NatMap "(string \<times> native) list" | NatObj "(string \<times> native) list" | NatOther

definition decodeMatchResult :: "native \<Rightarrow> match_result option" where
  "decodeMatchResult v =
    (case (case v of NatArr [] \<Rightarrow> NatUndef | NatArr (x # _) \<Rightarrow> x | _ \<Rightarrow> v) of
       NatStr s \<Rightarrow> if s = ''Player1Wins'' then Some Player1Wins
         else if s = ''Player2Wins'' then Some Player2Wins
         else if s = ''Draw'' then Some Draw else None
     | _ \<Rightarrow> None)"

definition native_field :: "(string \<times> native) list \<Rightarrow> string \<Rightarrow> native" where
  "native_field fs k = (case map_of fs k of None \<Rightarrow> NatUndef | Some v \<Rightarrow> v)"

definition decodeResultEntry :: "native \<Rightarrow> match_result option" where
  "decodeResultEntry v =
    (case v of
       NatMap fs \<Rightarrow> decodeMatchResult (native_field fs ''result'')
     | NatObj fs \<Rightarrow> decodeMatchResult (native_field fs ''result'')
     | NatArr _ \<Rightarrow> decodeMatchResult NatUndef
     | _ \<Rightarrow> None)"

text \<open>The two calls of the contract, \<open>None\<close> when one fails or runs out of time; the outer \<open>None\<close> of the
  result is an exception.\<close>

definition chain_reader :: "native option \<Rightarrow> native option \<Rightarrow> match_result option option" where
  "chain_reader has_result get_result =
    (case has_result of
       Some (NatBool exists) \<Rightarrow>
         if \<not> exists then Some None
         else (case get_result of None \<Rightarrow> None | Some v \<Rightarrow> map_option Some (decodeResultEntry v))
     | _ \<Rightarrow> None)"

text \<open>The invoker of the Stellar SDK: a simulation fails with a message, returns nothing, or returns a value. Plain HTTP is
  allowed exactly for an endpoint that names it.\<close>

datatype sdk_simulation = SimulationError string | SimulationEmpty | SimulationValue native

definition sdk_invoke :: "string option \<Rightarrow> sdk_simulation \<Rightarrow> string + native" where
  "sdk_invoke failed sim =
    (case failed of Some e \<Rightarrow> Inl e
     | None \<Rightarrow> (case sim of
         SimulationError e \<Rightarrow> Inl (''simulation failed: '' @ e)
       | SimulationEmpty \<Rightarrow> Inl ''simulation returned no value''
       | SimulationValue v \<Rightarrow> Inr v))"

definition invoker_allowHttp :: "string \<Rightarrow> bool" where
  "invoker_allowHttp rpcUrl \<longleftrightarrow> take 7 rpcUrl = ''http://''"

text \<open>\<open>Promise.race\<close> of an answer that arrives after some milliseconds, or never, with the timer.\<close>

definition DEFAULT_RPC_TIMEOUT_MS :: nat where "DEFAULT_RPC_TIMEOUT_MS = 10000"
definition DEFAULT_PROVIDER_TIMEOUT_MS :: nat where "DEFAULT_PROVIDER_TIMEOUT_MS = 15000"

definition with_timeout :: "nat option \<Rightarrow> string + 'a \<Rightarrow> nat \<Rightarrow> string \<Rightarrow> string + 'a" where
  "with_timeout after answer ms label =
    (case after of
       Some t \<Rightarrow> if t \<le> ms then answer else Inl (label @ '' timed out after '' @ nat_text ms @ ''ms'')
     | None \<Rightarrow> Inl (label @ '' timed out after '' @ nat_text ms @ ''ms''))"

definition live_read :: "string \<Rightarrow> nat option \<Rightarrow> string option \<Rightarrow> sdk_simulation \<Rightarrow> native option" where
  "live_read fn after failed sim =
    (case with_timeout after (sdk_invoke failed sim) DEFAULT_RPC_TIMEOUT_MS (''chain read '' @ fn) of Inl _ \<Rightarrow> None | Inr v \<Rightarrow> Some v)"

text \<open>A chain outcome is only read from two simulations that both returned a value in time.\<close>

lemma live_chain_result:
  assumes "chain_reader (live_read ''has_result'' t1 f1 s1) (live_read ''get_result'' t2 f2 s2) = Some (Some r)"
  shows "\<exists>v a b. s1 = SimulationValue (NatBool True) \<and> s2 = SimulationValue v \<and> decodeResultEntry v = Some r \<and>
    t1 = Some a \<and> t2 = Some b \<and> a \<le> 10000 \<and> b \<le> 10000"
  using assms by (auto simp: chain_reader_def live_read_def with_timeout_def sdk_invoke_def DEFAULT_RPC_TIMEOUT_MS_def
      split: option.splits sdk_simulation.splits native.splits if_splits sum.splits)

definition provider_fetcher :: "(string \<Rightarrow> game_result option) \<Rightarrow> (string \<Rightarrow> string \<Rightarrow> game_result option)
    \<Rightarrow> evidence_input \<Rightarrow> game_result option" where
  "provider_fetcher lichess chessdotcom i =
    (if ei_platform i = ''lichess'' then lichess (ei_gameId i)
     else if ei_platform i = ''chessdotcom'' then chessdotcom (ei_player1Username i) (ei_gameId i)
     else None)"

section \<open>The service\<close>

definition DEFAULT_CHECK_DELAY_MS :: rat where "DEFAULT_CHECK_DELAY_MS = 5 * 60 * 1000"
definition DEFAULT_MAX_CHECK_ATTEMPTS :: rat where "DEFAULT_MAX_CHECK_ATTEMPTS = 3"

text \<open>A check is a match and the number of its attempt: armed with a timer, or under way.\<close>

type_synonym check = "evidence_input \<times> nat"

record dis_service =
  sv_pending :: "check list"
  sv_inflight :: "check list"
  sv_scheduled :: "nat list"
  sv_stopped :: bool
  sv_monitor :: dm_state
  sv_events :: "dm_event list"

definition new_service :: dis_service where
  "new_service = \<lparr>sv_pending = [], sv_inflight = [], sv_scheduled = [], sv_stopped = False, sv_monitor = new_dm,
     sv_events = []\<rparr>"

definition unschedule :: "nat \<Rightarrow> dis_service \<Rightarrow> dis_service" where
  "unschedule k sv = sv\<lparr>sv_scheduled := filter (\<lambda>j. j \<noteq> k) (sv_scheduled sv)\<rparr>"

definition arm_check :: "evidence_input \<Rightarrow> nat \<Rightarrow> dis_service \<Rightarrow> dis_service" where
  "arm_check i attempt sv = sv\<lparr>sv_pending := sv_pending sv @ [(i, attempt)]\<rparr>"

definition scheduleCheck :: "evidence_input \<Rightarrow> dis_service \<Rightarrow> dis_service" where
  "scheduleCheck i sv =
    (if sv_stopped sv \<or> ei_matchId i \<in> set (sv_scheduled sv) then sv
     else arm_check i 1 (sv\<lparr>sv_scheduled := sv_scheduled sv @ [ei_matchId i]\<rparr>))"

text \<open>The timer of the \<open>n\<close>-th armed check: \<open>execute\<close> up to the call of the monitor.\<close>

definition fire_check :: "nat \<Rightarrow> dis_service \<Rightarrow> dis_service" where
  "fire_check n sv =
    (if n < length (sv_pending sv)
     then (let (i, attempt) = sv_pending sv ! n;
               sv1 = sv\<lparr>sv_pending := take n (sv_pending sv) @ drop (Suc n) (sv_pending sv)\<rparr>
           in if sv_stopped sv then unschedule (ei_matchId i) sv1
              else sv1\<lparr>sv_inflight := sv_inflight sv @ [(i, attempt)]\<rparr>)
     else sv)"

definition retryable :: "observation \<Rightarrow> bool" where
  "retryable ob = (case ob_kind ob of Unverifiable r \<Rightarrow> r \<noteq> IdentityUnmappable | _ \<Rightarrow> False)"

text \<open>The end of the \<open>n\<close>-th check under way, with what the two reads gave: the monitor records the
  observation, then the rest of \<open>execute\<close> runs. \<open>t0\<close> is the clock when the check began.\<close>

definition finish_check :: "dm_config \<Rightarrow> nat \<Rightarrow> nat \<Rightarrow> match_result option option \<Rightarrow> game_result option
    \<Rightarrow> int \<times> int \<times> int \<Rightarrow> dis_service \<Rightarrow> dis_service" where
  "finish_check cfg maxAttempts n chain provider clk sv =
    (case clk of (t0, t1, t2) \<Rightarrow>
     if n < length (sv_inflight sv)
     then (let (i, attempt) = sv_inflight sv ! n;
               ob = checkMatch i chain provider t0;
               (evs, monitor) = record_obs cfg t1 t2 ob (sv_monitor sv);
               sv1 = sv\<lparr>sv_inflight := take n (sv_inflight sv) @ drop (Suc n) (sv_inflight sv),
                        sv_monitor := monitor, sv_events := sv_events sv @ evs\<rparr>
           in if retryable ob \<and> attempt < maxAttempts \<and> \<not> sv_stopped sv then arm_check i (attempt + 1) sv1
              else unschedule (ei_matchId i) sv1)
     else sv)"

definition stop_service :: "dis_service \<Rightarrow> dis_service" where
  "stop_service sv = sv\<lparr>sv_stopped := True, sv_pending := [], sv_scheduled := []\<rparr>"

record dis_settings =
  dt_config :: dm_config
  dt_networkPassphrase :: string
  dt_checkDelayMs :: rat
  dt_maxCheckAttempts :: rat

definition createOutcomeDisagreementServiceFromEnv :: "env \<Rightarrow> string + dis_settings option" where
  "createOutcomeDisagreementServiceFromEnv env =
    (if js_lower (js_trim (or_else (env ''OUTCOME_DISAGREEMENT_MONITOR_ENABLED'') ''true'')) = ''false'' then Inr None
     else
       (let rpcUrl = js_trim (or_else (env ''STELLAR_RPC_URL'') []);
            contractId = js_trim (or_else (env ''CONTRACT_ORACLE'') [])
        in if rpcUrl = [] \<or> contractId = [] then Inr None
           else bind_sum (loadDisagreementMonitorConfig env) (\<lambda>config.
                bind_sum (resolveNetworkPassphrase env) (\<lambda>passphrase.
                bind_sum (readPositiveInt_strict env ''OUTCOME_DISAGREEMENT_CHECK_DELAY_MS'' DEFAULT_CHECK_DELAY_MS) (\<lambda>delay.
                bind_sum (readPositiveInt_strict env ''OUTCOME_DISAGREEMENT_MAX_CHECK_ATTEMPTS'' DEFAULT_MAX_CHECK_ATTEMPTS) (\<lambda>attempts.
                Inr (Some \<lparr>dt_config = config, dt_networkPassphrase = passphrase, dt_checkDelayMs = delay,
                           dt_maxCheckAttempts = attempts\<rparr>)))))))"

section \<open>What the window holds\<close>

text \<open>The last observation of every match of a history, in the order of these.\<close>

definition observe :: "observation list \<Rightarrow> observation \<Rightarrow> observation list" where
  "observe obs ob = filter (\<lambda>p. ob_matchId p \<noteq> ob_matchId ob) obs @ [ob]"

definition latest :: "observation list \<Rightarrow> observation list" where
  "latest history = fold (\<lambda>ob obs. observe obs ob) history []"

definition dm_run :: "dm_config \<Rightarrow> (int \<times> int \<times> observation) list \<Rightarrow> dm_state" where
  "dm_run cfg history = fold (\<lambda>(t1, t2, ob) st. snd (record_obs cfg t1 t2 ob st)) history new_dm"

lemma latest_snoc: "latest (h @ [ob]) = observe (latest h) ob"
  by (simp add: latest_def)

lemma set_latest: "set (latest h) \<subseteq> set h"
  by (induction h rule: rev_induct) (auto simp: latest_snoc observe_def, simp add: latest_def)

lemma distinct_latest: "distinct (map ob_matchId (latest h))"
proof (induction h rule: rev_induct)
  case Nil then show ?case by (simp add: latest_def)
next
  case (snoc ob h) then show ?case by (auto simp: latest_snoc observe_def distinct_map_filter)
qed

lemma prune_take_last: "prune cfg now obs = take_last (window_size cfg) (filter (fresh cfg now) obs)"
  by (simp add: prune_def Let_def take_last_all)

definition by_time :: "observation list \<Rightarrow> bool" where
  "by_time obs \<longleftrightarrow> sorted (map ob_observedAt obs)"

lemma by_time_filter: "by_time obs \<Longrightarrow> by_time (filter P obs)"
  by (simp add: by_time_def sorted_filter)

lemma by_time_latest: "by_time h \<Longrightarrow> by_time (latest h)"
proof (induction h rule: rev_induct)
  case Nil then show ?case by (simp add: latest_def by_time_def)
next
  case (snoc ob h)
  have "by_time h" "\<forall>p \<in> set h. ob_observedAt p \<le> ob_observedAt ob"
    using snoc.prems by (auto simp: by_time_def sorted_append)
  moreover have "sorted (map ob_observedAt (filter P (latest h)))" for P
    using snoc.IH[OF calculation(1)] by_time_filter by (simp add: by_time_def)
  ultimately show ?case
    using set_latest[of h] by (auto simp: latest_snoc observe_def by_time_def sorted_append)
qed

lemma fresh_later: "fresh cfg t ob \<Longrightarrow> ob_observedAt ob \<le> ob_observedAt ob' \<Longrightarrow> fresh cfg t ob'"
  unfolding fresh_def by (meson of_int_le_iff order_less_le_trans)

lemma fresh_earlier: "fresh cfg t' ob \<Longrightarrow> t \<le> t' \<Longrightarrow> fresh cfg t ob"
proof -
  assume "fresh cfg t' ob" "t \<le> t'"
  moreover from this have "(of_int t :: rat) \<le> of_int t'" by simp
  ultimately show "fresh cfg t ob" unfolding fresh_def by linarith
qed

text \<open>Dropping the older part of a list that is in the order of time is harmless: either nothing of it is
  fresh, or all of the rest is.\<close>

lemma fresh_split:
  assumes "by_time (ys @ zs)" "filter (fresh cfg t) ys \<noteq> []"
  shows "\<forall>z \<in> set zs. fresh cfg t z"
proof -
  obtain y where "y \<in> set ys" "fresh cfg t y" using assms(2) by (auto simp: filter_empty_conv)
  then show ?thesis using assms(1) fresh_later by (auto simp: by_time_def sorted_append)
qed

lemma refilter_window:
  assumes "by_time obs"
  shows "take_last n (filter (fresh cfg t) (take_last n obs)) = take_last n (filter (fresh cfg t) obs)"
proof -
  define ys zs where "ys = take (length obs - n) obs" and "zs = take_last n obs"
  have obs: "obs = ys @ zs" unfolding ys_def zs_def by (rule take_last_split)
  have app: "filter (fresh cfg t) obs = filter (fresh cfg t) ys @ filter (fresh cfg t) zs" by (subst obs) simp
  show ?thesis
  proof (cases "filter (fresh cfg t) ys = []")
    case False
    then have "length zs = n" unfolding ys_def zs_def by (cases "n \<le> length obs") auto
    moreover have "filter (fresh cfg t) zs = zs"
      using fresh_split[OF _ False] assms by (simp add: obs filter_id_conv)
    ultimately show ?thesis unfolding zs_def[symmetric] app by (simp add: take_last_append_long)
  qed (simp add: app flip: zs_def)
qed

lemma distinct_minus_one: "distinct (map f zs) \<Longrightarrow> length zs \<le> length (filter (\<lambda>p. f p \<noteq> k) zs) + 1"
proof (induction zs)
  case (Cons z zs)
  then have "f z = k \<Longrightarrow> filter (\<lambda>p. f p \<noteq> k) zs = zs"
    unfolding filter_id_conv by simp (metis image_eqI)
  then show ?case using Cons by auto
qed simp

lemma window_append:
  assumes obs: "by_time obs" "distinct (map ob_matchId obs)" and n: "0 < n" and t: "t1 \<le> t2" and new: "fresh cfg t2 ob"
  shows "take_last n (filter (fresh cfg t2) (observe (take_last n (filter (fresh cfg t1) obs)) ob)) =
    take_last n (filter (fresh cfg t2) (observe obs ob))"
proof -
  let ?ne = "\<lambda>p. ob_matchId p \<noteq> ob_matchId ob"
  define xs where "xs = filter (fresh cfg t1) obs"
  define ys zs where "ys = take (length xs - n) xs" and "zs = take_last n xs"
  have xs: "xs = ys @ zs" unfolding ys_def zs_def by (rule take_last_split)
  have time: "by_time (ys @ zs)" using by_time_filter[OF obs(1)] by (simp add: xs_def flip: xs)
  have "filter (fresh cfg t2) (filter ?ne obs) = filter (fresh cfg t2) (filter ?ne xs)"
    unfolding xs_def filter_filter using fresh_earlier[OF _ t] by (intro filter_cong) auto
  moreover have "take_last (n - 1) (filter (fresh cfg t2) (filter ?ne zs)) = take_last (n - 1) (filter (fresh cfg t2) (filter ?ne xs))"
  proof (cases "filter (fresh cfg t2) ys = []")
    case True
    then have "filter (fresh cfg t2) (filter ?ne ys) = []" by (auto simp: filter_empty_conv)
    then show ?thesis by (simp add: xs)
  next
    case False
    then have len: "length zs = n" unfolding ys_def zs_def by (cases "n \<le> length xs") auto
    have "\<forall>z \<in> set zs. fresh cfg t2 z" by (rule fresh_split[OF time False])
    then have zs: "filter (fresh cfg t2) (filter ?ne zs) = filter ?ne zs"
      unfolding filter_filter by (intro filter_cong) auto
    have "distinct (map ob_matchId xs)" using obs(2) by (simp add: xs_def distinct_map_filter)
    then have "distinct (map ob_matchId zs)" by (simp add: xs)
    then have "n - 1 \<le> length (filter ?ne zs)" using distinct_minus_one[of ob_matchId zs "ob_matchId ob"] len by simp
    then show ?thesis using zs by (simp add: xs take_last_append_long)
  qed
  ultimately show ?thesis
    using new n by (simp add: observe_def take_last_snoc flip: xs_def zs_def)
qed

text \<open>A history as the service makes it: the clock does not go back, observations are recorded in the order
  in which they were begun and none takes longer than the age at which it would be dropped.\<close>

fun history_ok :: "dm_config \<Rightarrow> int \<Rightarrow> (int \<times> int \<times> observation) list \<Rightarrow> bool" where
  "history_ok cfg t [] = True"
| "history_ok cfg t ((t1, t2, ob) # h) = (t \<le> t1 \<and> t1 \<le> t2 \<and> fresh cfg t2 ob \<and> history_ok cfg t2 h)"

lemma history_ok_snoc:
  "history_ok cfg t (h @ [(t1, t2, ob)]) \<longleftrightarrow>
    history_ok cfg t h \<and> (if h = [] then t else fst (snd (last h))) \<le> t1 \<and> t1 \<le> t2 \<and> fresh cfg t2 ob"
  by (induction cfg t h rule: history_ok.induct) auto

lemma handleTransitions_snd [simp]:
  "dm_observations (snd (handleTransitions s st)) = dm_observations st"
  "dm_reviewActive (snd (handleTransitions s st)) = ds_reviewRequired s"
  "dm_degradedActive (snd (handleTransitions s st)) = ds_evidenceDegraded s"
  by (simp_all add: handleTransitions_def)

lemma record_obs_window:
  "dm_observations (snd (record_obs cfg t1 t2 ob st)) = prune cfg t2 (observe (prune cfg t1 (dm_observations st)) ob)"
  "dm_reviewActive (snd (record_obs cfg t1 t2 ob st)) =
    ds_reviewRequired (computeStatus cfg (dm_observations (snd (record_obs cfg t1 t2 ob st))))"
  by (simp_all add: record_obs_def Let_def observe_def)

lemma dm_window_exact:
  assumes "0 < window_size cfg" "history_ok cfg t h" "by_time (map (snd \<circ> snd) h)"
  shows "dm_observations (dm_run cfg h) =
    (if h = [] then [] else take_last (window_size cfg) (filter (fresh cfg (fst (snd (last h)))) (latest (map (snd \<circ> snd) h))))"
  using assms(2,3)
proof (induction h rule: rev_induct)
  case Nil then show ?case by (simp add: dm_run_def new_dm_def)
next
  case (snoc e h)
  obtain t1 t2 ob where e: "e = (t1, t2, ob)" by (cases e)
  let ?l = "latest (map (snd \<circ> snd) h)"
  have ok: "history_ok cfg t h" "(if h = [] then t else fst (snd (last h))) \<le> t1" "t1 \<le> t2" "fresh cfg t2 ob"
    using snoc.prems(1) by (simp_all add: e history_ok_snoc)
  have time: "by_time (map (snd \<circ> snd) h)" using snoc.prems(2) by (simp add: by_time_def sorted_append comp_def)
  have "prune cfg t1 (dm_observations (dm_run cfg h)) = take_last (window_size cfg) (filter (fresh cfg t1) ?l)"
  proof (cases "h = []")
    case True then show ?thesis by (simp add: dm_run_def new_dm_def prune_take_last latest_def)
  next
    case False
    let ?f = "fresh cfg (fst (snd (last h)))"
    have "filter (fresh cfg t1) (filter ?f ?l) = filter (fresh cfg t1) ?l"
      unfolding filter_filter using fresh_earlier[of cfg t1 _ "fst (snd (last h))"] ok(2) False by (intro filter_cong) auto
    then show ?thesis
      using snoc.IH[OF ok(1) time] False refilter_window[OF by_time_filter[OF by_time_latest[OF time]]]
      by (simp add: prune_take_last)
  qed
  then have "dm_observations (dm_run cfg (h @ [e])) = take_last (window_size cfg) (filter (fresh cfg t2)
      (observe (take_last (window_size cfg) (filter (fresh cfg t1) ?l)) ob))"
    by (simp add: dm_run_def e record_obs_window prune_take_last[of cfg t2])
  also have "\<dots> = take_last (window_size cfg) (filter (fresh cfg t2) (observe ?l ob))"
    by (rule window_append[OF by_time_latest[OF time] distinct_latest assms(1) ok(3,4)])
  finally show ?case by (simp add: e latest_snoc)
qed

section \<open>What the counts mean\<close>

lemma fold_counts:
  "pc_agree (fold count_observation obs c) = pc_agree c + length (filter (\<lambda>ob. ob_kind ob = Agree) obs)"
  "pc_disagree (fold count_observation obs c) = pc_disagree c + length (filter (\<lambda>ob. ob_kind ob = Disagree) obs)"
  "pc_unverifiable (fold count_observation obs c) =
    pc_unverifiable c + length (filter (\<lambda>ob. ob_kind ob \<noteq> Agree \<and> ob_kind ob \<noteq> Disagree) obs)"
  by (induction obs arbitrary: c) (simp_all add: count_observation_def split: obs_kind.split)

definition decided_of :: "observation list \<Rightarrow> nat" where
  "decided_of obs = length (filter (\<lambda>ob. ob_kind ob \<in> {Agree, Disagree}) obs)"

definition disagreed_of :: "observation list \<Rightarrow> nat" where
  "disagreed_of obs = length (filter (\<lambda>ob. ob_kind ob = Disagree) obs)"

lemma decided_split: "length (filter (\<lambda>ob. ob_kind ob = Agree) obs) + disagreed_of obs = decided_of obs"
  by (induction obs) (auto simp: decided_of_def disagreed_of_def)

definition dm_ok :: "dm_config \<Rightarrow> bool" where
  "dm_ok cfg \<longleftrightarrow> dm_validateConfig cfg = None"

lemma dm_ok_iff:
  "dm_ok cfg \<longleftrightarrow> dc_windowSize cfg \<in> \<int> \<and> 0 < dc_windowSize cfg \<and> dc_minDecided cfg \<in> \<int> \<and> 0 < dc_minDecided cfg \<and>
    dc_minDisagreements cfg \<in> \<int> \<and> 0 < dc_minDisagreements cfg \<and> 0 < dc_maxAgeMs cfg \<and>
    0 < dc_minDisagreementRate cfg \<and> dc_minDisagreementRate cfg \<le> 1 \<and>
    dc_minDecided cfg \<le> dc_windowSize cfg \<and> dc_minDisagreements cfg \<le> dc_windowSize cfg"
  by (auto simp: dm_ok_def dm_validateConfig_def Let_def not_le not_less split: if_splits)

lemma loadDisagreementMonitorConfig_ok: "loadDisagreementMonitorConfig env = Inr cfg \<Longrightarrow> dm_ok cfg"
  by (auto simp: loadDisagreementMonitorConfig_def Let_def bind_sum_Inr dm_ok_def split: option.splits)

lemma dm_ok_window: "dm_ok cfg \<Longrightarrow> 0 < window_size cfg"
  by (auto simp: dm_ok_iff window_size_def Ints_def)

lemma reviewRequired_iff:
  assumes "dm_ok cfg"
  shows "ds_reviewRequired (computeStatus cfg obs) \<longleftrightarrow>
    dc_minDecided cfg \<le> of_nat (decided_of obs) \<and> dc_minDisagreements cfg \<le> of_nat (disagreed_of obs) \<and>
    dc_minDisagreementRate cfg * of_nat (decided_of obs) \<le> of_nat (disagreed_of obs)"
proof -
  have dec: "pc_agree (fold count_observation obs no_counts) + pc_disagree (fold count_observation obs no_counts) = decided_of obs"
    "pc_disagree (fold count_observation obs no_counts) = disagreed_of obs"
    "pc_agree (fold count_observation obs no_counts) + disagreed_of obs = decided_of obs"
    using decided_split[of obs] by (simp_all add: fold_counts no_counts_def disagreed_of_def)
  show ?thesis
  proof (cases "decided_of obs = 0")
    case False
    then have "dc_minDisagreementRate cfg \<le> of_nat (disagreed_of obs) / of_nat (decided_of obs) \<longleftrightarrow>
        dc_minDisagreementRate cfg * of_nat (decided_of obs) \<le> of_nat (disagreed_of obs)"
      by (simp add: field_simps)
    then show ?thesis using False unfolding computeStatus_def Let_def dec dm_status.simps by simp
  next
    case True
    then show ?thesis using assms unfolding computeStatus_def Let_def dec dm_status.simps by (simp add: dm_ok_iff)
  qed
qed

section \<open>Properties\<close>


definition obs_ex :: "nat \<Rightarrow> obs_kind \<Rightarrow> int \<times> int \<times> observation" where
  "obs_ex k kind = (int k * 1000, int k * 1000, \<lparr>ob_matchId = k, ob_platform = ''lichess'', ob_kind = kind,
     ob_providerOutcome = None, ob_chainOutcome = None, ob_observedAt = int k * 1000\<rparr>)"

definition history_ex :: "(int \<times> int \<times> observation) list" where
  "history_ex = [obs_ex 1 Agree, obs_ex 2 Disagree, obs_ex 3 Disagree, obs_ex 4 (Unverifiable ChainError),
     obs_ex 5 Disagree, obs_ex 6 Agree]"

lemma loadDisagreementMonitorConfig_default:
  "loadDisagreementMonitorConfig (\<lambda>_. None) = Inr DEFAULT_DISAGREEMENT_MONITOR_CONFIG"
  by (simp add: loadDisagreementMonitorConfig_def readNumber_def Let_def DEFAULT_DISAGREEMENT_MONITOR_CONFIG_def
      js_round_def dm_validateConfig_def)


text \<open>A match is classified soundly: it counts as a disagreement exactly when the chain holds a result,
  the platform reports a finished game between the two players of the match, and the outcome for the first
  player differs; any failure or gap makes it unverifiable, never a disagreement.\<close>
lemma check_match_sound:
  "(ob_kind (checkMatch i chain provider now) = Disagree \<longleftrightarrow>
    (\<exists>c g p. chain = Some (Some c) \<and> provider = Some g \<and>
      toPlayer1Perspective g (ei_player1Username i) (ei_player2Username i) = Some p \<and> p \<noteq> c)) \<and>
  (ob_kind (checkMatch i chain provider now) = Agree \<longleftrightarrow>
    (\<exists>c g. chain = Some (Some c) \<and> provider = Some g \<and>
      toPlayer1Perspective g (ei_player1Username i) (ei_player2Username i) = Some c))"
  by (auto simp: checkMatch_def Let_def toPlayer1Perspective_def split: option.splits)

text \<open>The monitor and the verification read swapped colours differently. When a fetched game passes the
  identity check and its result is on the chain as the verification reports it, the monitor agrees if the
  first player is white or the game is drawn, and otherwise records a disagreement: an honest reporter
  raises the review signal.\<close>
lemma swapped_colours_disagree:
  assumes "verifyPlayerIdentities m g im = Valid" and "g_result g = Some r"
    and "ei_player1Username i = im_player1Username im" and "ei_player2Username i = im_player2Username im"
  shows "ob_kind (checkMatch i (Some (Some r)) (Some g) now) =
    (if normalize_name (g_whitePlayer g) = normalize_name (im_player1Username im) \<or> r = Draw then Agree else Disagree)"
proof -
  define W B P Q where n: "W = normalize_name (g_whitePlayer g)" "B = normalize_name (g_blackPlayer g)"
    "P = normalize_name (im_player1Username im)" "Q = normalize_name (im_player2Username im)"
  have "W \<noteq> [] \<and> B \<noteq> [] \<and> P \<noteq> [] \<and> Q \<noteq> [] \<and> (W = P \<and> B = Q \<or> W = Q \<and> B = P)"
    using assms(1) unfolding verifyPlayerIdentities_def Let_def n[symmetric] by (auto split: if_splits)
  then have "toPlayer1Perspective g (im_player1Username im) (im_player2Username im) =
      Some (if W = P then r else flip_result r)"
    using assms(2) unfolding toPlayer1Perspective_def Let_def n[symmetric] by auto
  then show ?thesis using assms(2-4) unfolding n[symmetric] by (cases r) (simp_all add: checkMatch_def Let_def)
qed

text \<open>A game between two accounts, and the match it was played for with the colours swapped.\<close>

definition game_ex :: game_result where
  "game_ex = \<lparr>g_gameId = ''abcd1234'', g_whitePlayer = ''bob'', g_blackPlayer = ''ann'', g_status = Finished,
     g_result = Some Player1Wins, g_endedAt = Some 5,
     g_evidence = \<lparr>ev_provider = Lichess, ev_fetchedAt = 9, ev_parserVersion = ''1'', ev_responseHash = ''h'',
       ev_source = ''u'', ev_outcome = Some Player1Wins, ev_endedAt = Some 5\<rparr>\<rparr>"

definition identities_ex :: identity_map where
  "identities_ex = \<lparr>im_player1Address = ''GA'', im_player1Username = ''ann'', im_player2Address = ''GB'',
     im_player2Username = ''bob'', im_platform = ''lichess''\<rparr>"

definition evidence_ex :: evidence_input where
  "evidence_ex = \<lparr>ei_matchId = 7, ei_gameId = ''abcd1234'', ei_platform = ''lichess'',
     ei_player1Username = ''ann'', ei_player2Username = ''bob''\<rparr>"

lemma swapped_colours_disagree_example:
  "ob_kind (checkMatch evidence_ex (Some (Some Player1Wins)) (Some game_ex) 10) = Disagree"
proof -
  have n: "normalize_name ''ann'' = ''ann''" "normalize_name ''bob'' = ''bob''" by code_simp+
  show ?thesis
    using swapped_colours_disagree[of _ game_ex identities_ex Player1Wins evidence_ex 10] n
    by (simp add: verifyPlayerIdentities_def identities_ex_def game_ex_def evidence_ex_def Let_def)
qed

section \<open>The service's checks\<close>

inductive service_step :: "dm_config \<Rightarrow> nat \<Rightarrow> dis_service \<Rightarrow> dis_service \<Rightarrow> bool" for cfg mx where
  step_schedule: "service_step cfg mx sv (scheduleCheck i sv)"
| step_fire: "service_step cfg mx sv (fire_check n sv)"
| step_finish: "service_step cfg mx sv (finish_check cfg mx n chain provider clk sv)"
| step_status: "service_step cfg mx sv (sv\<lparr>sv_monitor := snd (dm_getStatus cfg now (sv_monitor sv))\<rparr>)"
| step_stop: "service_step cfg mx sv (stop_service sv)"

inductive_cases service_stepE: "service_step cfg mx sv sv'"

definition check_ids :: "check list \<Rightarrow> nat list" where
  "check_ids cs = map (\<lambda>(i, a). ei_matchId i) cs"

lemma check_ids_simps [simp]:
  "check_ids [] = []" "check_ids (xs @ ys) = check_ids xs @ check_ids ys" "check_ids [(i, a)] = [ei_matchId i]"
  by (simp_all add: check_ids_def)

definition sv_inv :: "nat \<Rightarrow> dis_service \<Rightarrow> bool" where
  "sv_inv mx sv \<longleftrightarrow> (\<forall>(i, a) \<in> set (sv_pending sv @ sv_inflight sv). 1 \<le> a \<and> a \<le> mx) \<and>
    (if sv_stopped sv then sv_pending sv = []
     else distinct (check_ids (sv_pending sv @ sv_inflight sv)) \<and>
       set (sv_scheduled sv) = set (check_ids (sv_pending sv @ sv_inflight sv)))"

text \<open>Taking one element out of a list.\<close>

lemma list_split_at: "n < length xs \<Longrightarrow> xs = take n xs @ xs ! n # drop (Suc n) xs"
  by (rule id_take_nth_drop)

lemma sv_inv_schedule: "sv_inv mx sv \<Longrightarrow> 1 \<le> mx \<Longrightarrow> sv_inv mx (scheduleCheck i sv)"
  by (auto simp: sv_inv_def scheduleCheck_def arm_check_def)

lemma sv_inv_fire:
  assumes inv: "sv_inv mx sv" shows "sv_inv mx (fire_check n sv)"
proof (cases "n < length (sv_pending sv)")
  case True
  define i a where "i = fst (sv_pending sv ! n)" and "a = snd (sv_pending sv ! n)"
  define xs ys where "xs = take n (sv_pending sv)" and "ys = drop (Suc n) (sv_pending sv)"
  have p: "sv_pending sv = xs @ (i, a) # ys"
    using list_split_at[OF True] by (simp add: i_def a_def xs_def ys_def)
  have running: "\<not> sv_stopped sv" using inv True by (auto simp: sv_inv_def)
  have "fire_check n sv = sv\<lparr>sv_pending := xs @ ys, sv_inflight := sv_inflight sv @ [(i, a)]\<rparr>"
    using True running by (simp add: fire_check_def Let_def i_def a_def xs_def ys_def split: prod.split)
  moreover have "check_ids (sv_pending sv @ sv_inflight sv) = check_ids xs @ ei_matchId i # check_ids ys @ check_ids (sv_inflight sv)"
    by (simp add: p check_ids_def)
  ultimately show ?thesis
    using inv running by (auto simp: sv_inv_def p)
qed (use inv in \<open>simp add: fire_check_def\<close>)

lemma sv_inv_finish:
  assumes inv: "sv_inv mx sv" shows "sv_inv mx (finish_check cfg mx n chain provider clk sv)"
proof (cases "n < length (sv_inflight sv)")
  case True
  obtain t0 t1 t2 where clk: "clk = (t0, t1, t2)" by (metis prod_cases3)
  define i a where "i = fst (sv_inflight sv ! n)" and "a = snd (sv_inflight sv ! n)"
  define xs ys where "xs = take n (sv_inflight sv)" and "ys = drop (Suc n) (sv_inflight sv)"
  have p: "sv_inflight sv = xs @ (i, a) # ys"
    using list_split_at[OF True] by (simp add: i_def a_def xs_def ys_def)
  have nth: "sv_inflight sv ! n = (i, a)" by (simp add: i_def a_def)
  obtain evs monitor where rec: "record_obs cfg t1 t2 (checkMatch i chain provider t0) (sv_monitor sv) = (evs, monitor)"
    by (metis prod.collapse)
  define sv1 where "sv1 = sv\<lparr>sv_inflight := xs @ ys, sv_monitor := monitor, sv_events := sv_events sv @ evs\<rparr>"
  have f: "finish_check cfg mx n chain provider clk sv =
      (if retryable (checkMatch i chain provider t0) \<and> a < mx \<and> \<not> sv_stopped sv then arm_check i (a + 1) sv1
       else unschedule (ei_matchId i) sv1)"
    using True rec nth by (simp add: finish_check_def clk Let_def xs_def ys_def sv1_def)
  have ids: "check_ids (sv_pending sv @ sv_inflight sv) =
      check_ids (sv_pending sv) @ check_ids xs @ ei_matchId i # check_ids ys"
    by (simp add: p check_ids_def)
  show ?thesis
    unfolding f using inv unfolding sv_inv_def ids
    by (auto simp: arm_check_def unschedule_def sv1_def p)
qed (use inv in \<open>simp add: finish_check_def split: prod.split\<close>)

lemma sv_inv_step: "service_step cfg mx sv sv' \<Longrightarrow> sv_inv mx sv \<Longrightarrow> 1 \<le> mx \<Longrightarrow> sv_inv mx sv'"
proof (erule service_stepE, goal_cases)
  case (4 now) then show ?case by (auto simp: sv_inv_def split: if_splits)
next
  case 5 then show ?case by (auto simp: sv_inv_def stop_service_def)
qed (auto intro: sv_inv_schedule sv_inv_fire sv_inv_finish)

lemma stopped_step:
  assumes "service_step cfg mx sv sv'" "sv_stopped sv" "sv_pending sv = []"
  shows "sv_stopped sv' \<and> sv_pending sv' = [] \<and> set (sv_inflight sv') \<subseteq> set (sv_inflight sv)"
  using assms(1)
proof (rule service_stepE, goal_cases)
  case (3 n chain provider clk)
  then show ?case using assms(2,3)
    by (auto simp: finish_check_def Let_def unschedule_def split: prod.split dest: in_set_takeD in_set_dropD)
qed (use assms(2,3) in \<open>auto simp: scheduleCheck_def fire_check_def stop_service_def\<close>)

text \<open>C17. Checks are bounded and never doubled. Whatever the order of requests, timers, answers and
  failures, every check armed or under way is one of the first \<open>maxAttempts\<close> of its match, and until the
  service is stopped a match has at most one of them, exactly while it counts as scheduled. Once stopped, the
  service arms and begins no check ever again.\<close>
theorem checks_bounded:
  assumes "(service_step cfg mx)\<^sup>*\<^sup>* new_service sv" and "1 \<le> mx"
  shows "(\<forall>(i, a) \<in> set (sv_pending sv @ sv_inflight sv). 1 \<le> a \<and> a \<le> mx) \<and>
    (sv_stopped sv \<or> distinct (check_ids (sv_pending sv @ sv_inflight sv)) \<and>
      set (sv_scheduled sv) = set (check_ids (sv_pending sv @ sv_inflight sv))) \<and>
    (\<forall>sv'. (service_step cfg mx)\<^sup>*\<^sup>* sv sv' \<longrightarrow> sv_stopped sv \<longrightarrow>
      sv_pending sv' = [] \<and> set (sv_inflight sv') \<subseteq> set (sv_inflight sv))"
proof -
  have inv: "sv_inv mx sv"
    using assms(1)
  proof induction
    case base then show ?case by (simp add: sv_inv_def new_service_def)
  next
    case (step y z) then show ?case using sv_inv_step assms(2) by blast
  qed
  have "sv_stopped sv' \<and> sv_pending sv' = [] \<and> set (sv_inflight sv') \<subseteq> set (sv_inflight sv)"
    if "(service_step cfg mx)\<^sup>*\<^sup>* sv sv'" "sv_stopped sv" for sv'
    using that(1)
  proof induction
    case base then show ?case using inv that(2) by (simp add: sv_inv_def)
  next
    case (step y z) then show ?case using stopped_step by blast
  qed
  then have quiet: "\<forall>sv'. (service_step cfg mx)\<^sup>*\<^sup>* sv sv' \<longrightarrow> sv_stopped sv \<longrightarrow>
      sv_pending sv' = [] \<and> set (sv_inflight sv') \<subseteq> set (sv_inflight sv)" by blast
  show ?thesis
  proof (intro conjI quiet)
    show "\<forall>(i, a) \<in> set (sv_pending sv @ sv_inflight sv). 1 \<le> a \<and> a \<le> mx"
      using inv unfolding sv_inv_def by (rule conjunct1)
    show "sv_stopped sv \<or> distinct (check_ids (sv_pending sv @ sv_inflight sv)) \<and>
        set (sv_scheduled sv) = set (check_ids (sv_pending sv @ sv_inflight sv))"
      using inv by (cases "sv_stopped sv") (simp_all only: sv_inv_def if_True if_False simp_thms conj_absorb)
  qed
qed

theorem checks_bounded_witness:
  "sv_pending (scheduleCheck evidence_ex new_service) = [(evidence_ex, 1)] \<and>
   check_ids (sv_pending (scheduleCheck evidence_ex new_service)) = [7] \<and>
   distinct (check_ids (sv_pending (scheduleCheck evidence_ex new_service) @
     sv_inflight (scheduleCheck evidence_ex new_service)))"
proof -
  have "(service_step DEFAULT_DISAGREEMENT_MONITOR_CONFIG 3)\<^sup>*\<^sup>* new_service (scheduleCheck evidence_ex new_service)"
    using step_schedule by blast
  from checks_bounded[OF this] show ?thesis
    by (simp add: scheduleCheck_def new_service_def arm_check_def evidence_ex_def)
qed

text \<open>A check under way when the service stops is recorded all the same and can raise the signal.\<close>

lemma stopped_check_is_recorded:
  assumes "sv_stopped sv" "n < length (sv_inflight sv)"
  shows "sv_monitor (finish_check cfg mx n chain provider (t0, t1, t2) sv) =
    snd (record_obs cfg t1 t2 (checkMatch (fst (sv_inflight sv ! n)) chain provider t0) (sv_monitor sv))"
  using assms by (simp add: finish_check_def Let_def unschedule_def split: prod.split)

end
