(* ===== verification/Doubles.thy ===== *)
theory Doubles
  imports Prelude "HOL-Library.Log_Nat"
begin

text \<open>
  The double nearest to a rational: the results of JavaScript's arithmetic where they are not exact. An
  operation on numbers is the exact operation followed by \<open>fl\<close>, with ties to even. Magnitudes are taken to
  stay within the normal range of doubles.
\<close>

definition two_pow :: "int \<Rightarrow> rat" where
  "two_pow e = (if 0 \<le> e then 2 ^ nat e else 1 / 2 ^ nat (- e))"

lemma two_pow_pos [simp]: "0 < two_pow e"
  by (simp add: two_pow_def)

lemma two_pow_add: "two_pow (a + b) = two_pow a * two_pow b"
proof -
  have p: "two_pow (int m - int n) = 2 ^ m / 2 ^ n" for m n
  proof (cases "n \<le> m")
    case True
    then have "nat (int m - int n) = m - n" by simp
    then show ?thesis using True by (simp add: two_pow_def power_diff)
  next
    case False
    then have "nat (int n - int m) = n - m" "m \<le> n" by simp_all
    then show ?thesis using False by (simp add: two_pow_def power_diff)
  qed
  obtain m n where a: "a = int m - int n" by (cases a rule: int_diff_cases)
  obtain m' n' where b: "b = int m' - int n'" by (cases b rule: int_diff_cases)
  have "a + b = int (m + m') - int (n + n')" by (simp add: a b)
  then show ?thesis unfolding a b by (simp only: p) (simp add: power_add)
qed

lemma two_pow_Suc: "two_pow (e + 1) = 2 * two_pow e"
  by (simp add: two_pow_add) (simp add: two_pow_def)

lemma two_pow_mono: "a \<le> b \<Longrightarrow> two_pow a \<le> two_pow b"
proof -
  assume "a \<le> b"
  then have "1 \<le> two_pow (b - a)" by (simp add: two_pow_def)
  moreover have "two_pow b = two_pow (b - a) * two_pow a" by (simp flip: two_pow_add)
  ultimately show ?thesis using mult_right_mono[of 1 "two_pow (b - a)" "two_pow a"] by (simp add: less_imp_le)
qed

lemma two_pow_less_iff: "two_pow a < two_pow b \<longleftrightarrow> a < b"
proof
  assume "a < b"
  then have "two_pow (a + 1) \<le> two_pow b" by (intro two_pow_mono) simp
  then show "two_pow a < two_pow b" using two_pow_pos[of a] unfolding two_pow_Suc by linarith
next
  assume "two_pow a < two_pow b"
  then show "a < b" using two_pow_mono[of b a] by (meson leI not_le)
qed

text \<open>The binary exponent of a positive rational.\<close>

definition ilog2 :: "rat \<Rightarrow> int" where
  "ilog2 r = (let (p, q) = quotient_of r; e = int (floorlog 2 (nat p)) - int (floorlog 2 (nat q))
     in if two_pow e \<le> r then e else e - 1)"

lemma ilog2_bounds:
  assumes "0 < r" shows "two_pow (ilog2 r) \<le> r" "r < two_pow (ilog2 r + 1)"
proof -
  obtain p q where pq: "quotient_of r = (p, q)" by (cases "quotient_of r")
  have q: "0 < q" using quotient_of_denom_pos[OF pq] .
  have r: "r = of_int p / of_int q" using quotient_of_div[OF pq] .
  then have p: "0 < p" using assms q by (simp add: zero_less_divide_iff)
  define a b where "a = floorlog 2 (nat p)" and "b = floorlog 2 (nat q)"
  have ab: "0 < a" "0 < b" using p q by (simp_all add: a_def b_def floorlog_def)
  have pb: "2 ^ (a - 1) \<le> nat p" "nat p < 2 ^ a" "2 ^ (b - 1) \<le> nat q" "nat q < 2 ^ b"
    using floorlog_bounds[of "nat p" 2] floorlog_bounds[of "nat q" 2] p q by (simp_all add: a_def b_def)
  have P: "(2::rat) ^ (a - 1) \<le> of_int p" "of_int p < (2::rat) ^ a" "(2::rat) ^ (b - 1) \<le> of_int q" "of_int q < (2::rat) ^ b"
  proof -
    have "(of_nat (2 ^ (a - 1)) :: rat) \<le> of_nat (nat p)" "(of_nat (nat p) :: rat) < of_nat (2 ^ a)"
      "(of_nat (2 ^ (b - 1)) :: rat) \<le> of_nat (nat q)" "(of_nat (nat q) :: rat) < of_nat (2 ^ b)"
      using pb by (simp_all only: of_nat_le_iff of_nat_less_iff)
    then show "(2::rat) ^ (a - 1) \<le> of_int p" "of_int p < (2::rat) ^ a" "(2::rat) ^ (b - 1) \<le> of_int q" "of_int q < (2::rat) ^ b"
      using p q by simp_all
  qed
  have tp: "two_pow (int m) = 2 ^ m" for m by (simp add: two_pow_def)
  have qr: "(0::rat) < of_int q" using q by simp
  have up: "r < two_pow (int a - int b + 1)"
  proof -
    have "two_pow (int a - int b + 1) * of_int q \<ge> two_pow (int a - int b + 1) * 2 ^ (b - 1)"
      using P(3) by (intro mult_left_mono) (simp_all add: less_imp_le)
    also have "two_pow (int a - int b + 1) * 2 ^ (b - 1) = 2 ^ a"
      using ab by (simp flip: tp two_pow_add)
    finally have "of_int p < two_pow (int a - int b + 1) * of_int q" using P(2) by linarith
    then show ?thesis unfolding r by (simp only: pos_divide_less_eq[OF qr])
  qed
  have low: "two_pow (int a - int b - 1) \<le> r"
  proof -
    have "two_pow (int a - int b - 1) * of_int q \<le> two_pow (int a - int b - 1) * 2 ^ b"
      using P(4) by (intro mult_left_mono) (simp_all add: less_imp_le)
    also have "two_pow (int a - int b - 1) * 2 ^ b = 2 ^ (a - 1)"
      using ab by (simp flip: tp two_pow_add)
    finally have "two_pow (int a - int b - 1) * of_int q \<le> of_int p" using P(1) by linarith
    then show ?thesis unfolding r by (simp only: pos_le_divide_eq[OF qr])
  qed
  have e: "ilog2 r = (if two_pow (int a - int b) \<le> r then int a - int b else int a - int b - 1)"
    by (simp add: ilog2_def pq Let_def a_def b_def)
  show "two_pow (ilog2 r) \<le> r" using low by (simp add: e)
  show "r < two_pow (ilog2 r + 1)" using up by (simp add: e)
qed

lemma ilog2_unique: "0 < r \<Longrightarrow> two_pow e \<le> r \<Longrightarrow> r < two_pow (e + 1) \<Longrightarrow> ilog2 r = e"
proof -
  assume r: "0 < r" "two_pow e \<le> r" "r < two_pow (e + 1)"
  then have "two_pow e < two_pow (ilog2 r + 1)" "two_pow (ilog2 r) < two_pow (e + 1)"
    using ilog2_bounds[OF r(1)] by linarith+
  then show ?thesis unfolding two_pow_less_iff by linarith
qed

lemma ilog2_mono: "0 < x \<Longrightarrow> x \<le> y \<Longrightarrow> ilog2 x \<le> ilog2 y"
proof -
  assume x: "0 < x" "x \<le> y"
  then have "two_pow (ilog2 x) < two_pow (ilog2 y + 1)"
    using ilog2_bounds(1)[of x] ilog2_bounds(2)[of y] by linarith
  then show ?thesis unfolding two_pow_less_iff by linarith
qed

text \<open>The integer nearest to a rational, ties to even.\<close>

definition round_even :: "rat \<Rightarrow> int" where
  "round_even x = (let f = \<lfloor>x\<rfloor>; d = x - of_int f
     in if d < 1 / 2 then f else if 1 / 2 < d then f + 1 else if even f then f else f + 1)"

lemma round_even_mono: "x \<le> y \<Longrightarrow> round_even x \<le> round_even y"
proof -
  assume xy: "x \<le> y"
  then have f: "\<lfloor>x\<rfloor> \<le> \<lfloor>y\<rfloor>" by (rule floor_mono)
  show ?thesis
  proof (cases "\<lfloor>x\<rfloor> = \<lfloor>y\<rfloor>")
    case True
    then show ?thesis using xy by (simp add: round_even_def Let_def)
  next
    case False
    then have "\<lfloor>x\<rfloor> + 1 \<le> \<lfloor>y\<rfloor>" using f by linarith
    moreover have "round_even x \<le> \<lfloor>x\<rfloor> + 1" "\<lfloor>y\<rfloor> \<le> round_even y" by (simp_all add: round_even_def Let_def)
    ultimately show ?thesis by linarith
  qed
qed

lemma round_even_int [simp]: "round_even (of_int i) = i"
  by (simp add: round_even_def)

lemma round_even_minus: "round_even (- x) = - round_even x"
proof (cases "x = of_int \<lfloor>x\<rfloor>")
  case True
  then show ?thesis using round_even_int[of "\<lfloor>x\<rfloor>"] round_even_int[of "- \<lfloor>x\<rfloor>"] by (metis of_int_minus)
next
  case False
  have "\<lfloor>- x\<rfloor> = - \<lfloor>x\<rfloor> - 1"
    by (rule floor_unique) (use False in \<open>auto intro: less_imp_le simp: less_le\<close>, linarith+)
  then show ?thesis using False by (auto simp: round_even_def Let_def)
qed

section \<open>Rounding to the nearest double\<close>

definition fl :: "rat \<Rightarrow> rat" where
  "fl r = (if r = 0 then 0 else let u = two_pow (ilog2 \<bar>r\<bar> - 52) in of_int (round_even (r / u)) * u)"

lemma fl_0 [simp]: "fl 0 = 0"
  by (simp add: fl_def)

lemma fl_minus: "fl (- r) = - fl r"
  using round_even_minus[of "r / two_pow (ilog2 \<bar>r\<bar> - 52)"] by (simp add: fl_def Let_def)

lemma fl_pos: "0 < r \<Longrightarrow> fl r = of_int (round_even (r / two_pow (ilog2 r - 52))) * two_pow (ilog2 r - 52)"
  by (simp add: fl_def Let_def)

lemma two_pow_nat: "two_pow (int n) = 2 ^ n"
  by (simp add: two_pow_def)

lemma fl_scaled:
  assumes "0 < r" shows "of_int (2 ^ 52) \<le> r / two_pow (ilog2 r - 52)" "r / two_pow (ilog2 r - 52) \<le> of_int (2 ^ 53)"
proof -
  have a: "two_pow (ilog2 r) = 2 ^ 52 * two_pow (ilog2 r - 52)" "two_pow (ilog2 r + 1) = 2 ^ 53 * two_pow (ilog2 r - 52)"
    using two_pow_add[of 52 "ilog2 r - 52"] two_pow_add[of 53 "ilog2 r - 52"] two_pow_nat[of 52] two_pow_nat[of 53]
    by (simp_all add: algebra_simps)
  show "of_int (2 ^ 52) \<le> r / two_pow (ilog2 r - 52)" "r / two_pow (ilog2 r - 52) \<le> of_int (2 ^ 53)"
    using ilog2_bounds[OF assms] unfolding a
    by (simp_all add: pos_le_divide_eq pos_divide_le_eq mult.commute less_imp_le)
qed

lemma fl_range:
  assumes "0 < r" shows "two_pow (ilog2 r) \<le> fl r" "fl r \<le> two_pow (ilog2 r + 1)"
proof -
  let ?u = "two_pow (ilog2 r - 52)"
  have a: "two_pow (ilog2 r) = of_int (2 ^ 52) * ?u" "two_pow (ilog2 r + 1) = of_int (2 ^ 53) * ?u"
    using two_pow_add[of 52 "ilog2 r - 52"] two_pow_add[of 53 "ilog2 r - 52"] two_pow_nat[of 52] two_pow_nat[of 53]
    by (simp_all add: algebra_simps)
  have "2 ^ 52 \<le> round_even (r / ?u)" "round_even (r / ?u) \<le> 2 ^ 53"
    using round_even_mono[OF fl_scaled(1)[OF assms]] round_even_mono[OF fl_scaled(2)[OF assms]]
    by (simp_all only: round_even_int)
  then have "(of_int (2 ^ 52) :: rat) \<le> of_int (round_even (r / ?u))" "(of_int (round_even (r / ?u)) :: rat) \<le> of_int (2 ^ 53)"
    by (simp_all only: of_int_le_iff)
  then show "two_pow (ilog2 r) \<le> fl r" "fl r \<le> two_pow (ilog2 r + 1)"
    unfolding a fl_pos[OF assms] by (simp_all only: mult_le_cancel_right_pos two_pow_pos)
qed

lemma fl_nonneg: "0 \<le> r \<Longrightarrow> 0 \<le> fl r"
  using fl_range(1)[of r] less_le_trans[OF two_pow_pos[of "ilog2 r"]] by (cases "r = 0") (auto simp: less_imp_le)

lemma fl_mono_pos:
  assumes "0 < x" "x \<le> y" shows "fl x \<le> fl y"
proof (cases "ilog2 x = ilog2 y")
  case True
  let ?u = "two_pow (ilog2 y - 52)"
  have "round_even (x / ?u) \<le> round_even (y / ?u)"
    using assms(2) by (intro round_even_mono divide_right_mono) (simp_all add: less_imp_le)
  then show ?thesis using assms by (simp add: fl_pos True mult_right_mono less_imp_le)
next
  case False
  then have "two_pow (ilog2 x + 1) \<le> two_pow (ilog2 y)" using ilog2_mono[OF assms] by (intro two_pow_mono) simp
  then show ?thesis using fl_range(2)[OF assms(1)] fl_range(1)[of y] assms by linarith
qed

lemma fl_mono: "x \<le> y \<Longrightarrow> fl x \<le> fl y"
proof -
  assume xy: "x \<le> y"
  consider "0 < x" | "x \<le> 0" "0 \<le> y" | "y < 0" using xy by linarith
  then show ?thesis
  proof cases
    case 1 then show ?thesis using fl_mono_pos xy by blast
  next
    case 2
    then show ?thesis using fl_nonneg[of y] fl_nonneg[of "- x"] fl_minus[of x] by simp
  next
    case 3
    then show ?thesis using fl_mono_pos[of "- y" "- x"] xy by (simp add: fl_minus)
  qed
qed

lemma fl_exact_pos:
  assumes "0 < m" "m < 2 ^ 53" shows "fl (of_int m * two_pow k) = of_int m * two_pow k"
proof -
  let ?r = "of_int m * two_pow k"
  have pos: "0 < ?r" using assms(1) by simp
  have "(of_int m :: rat) < of_int (2 ^ 53)" using assms(2) by (simp only: of_int_less_iff)
  then have "?r < of_int (2 ^ 53) * two_pow k" by (simp only: mult_less_cancel_right_pos two_pow_pos)
  also have "\<dots> = two_pow (53 + k)" using two_pow_add[of 53 k] two_pow_nat[of 53] by simp
  finally have "two_pow (ilog2 ?r) < two_pow (53 + k)" using ilog2_bounds(1)[OF pos] by linarith
  then have e: "ilog2 ?r - 52 \<le> k" unfolding two_pow_less_iff by linarith
  define n where "n = nat (k - (ilog2 ?r - 52))"
  have k: "k = int n + (ilog2 ?r - 52)" using e by (simp add: n_def)
  have "?r = of_int (m * 2 ^ n) * two_pow (ilog2 ?r - 52)"
    by (subst (1) k) (simp add: two_pow_add two_pow_nat)
  then have "?r / two_pow (ilog2 ?r - 52) = of_int (m * 2 ^ n)"
    using two_pow_pos[of "ilog2 ?r - 52"] by (metis less_irrefl nonzero_mult_div_cancel_right)
  then show ?thesis
    unfolding fl_pos[OF pos] using \<open>?r = of_int (m * 2 ^ n) * two_pow (ilog2 ?r - 52)\<close> by (simp only: round_even_int)
qed

lemma fl_int: "\<bar>i\<bar> \<le> 2 ^ 53 \<Longrightarrow> fl (of_int i) = of_int i"
proof -
  assume i: "\<bar>i\<bar> \<le> 2 ^ 53"
  have p: "fl (of_int j) = of_int j" if "0 < j" "j \<le> 2 ^ 53" for j :: int
  proof (cases "j = 2 ^ 53")
    case True
    have "two_pow 53 = 2 ^ 53" using two_pow_nat[of 53] by simp
    then show ?thesis using fl_exact_pos[of 1 53] True by simp
  next
    case False
    then show ?thesis using fl_exact_pos[of j 0] that by (simp add: two_pow_def)
  qed
  show ?thesis
    using p[of i] p[of "- i"] fl_minus[of "of_int i"] i by (cases "i = 0"; cases "0 < i") auto
qed

text \<open>Evaluation of a rounding: the exponent and the nearest integer multiple of the last place.\<close>

lemma round_even_eqI: "\<bar>x - of_int m\<bar> < 1 / 2 \<Longrightarrow> round_even x = m"
proof -
  assume x: "\<bar>x - of_int m\<bar> < 1 / 2"
  have b: "of_int m - 1 / 2 < x" "x < of_int m + 1 / 2" using x by (simp_all only: abs_less_iff) linarith+
  have "\<lfloor>x\<rfloor> = m \<or> \<lfloor>x\<rfloor> = m - 1"
  proof (cases "of_int m \<le> x")
    case True
    then have "\<lfloor>x\<rfloor> = m" using b by (intro floor_unique) linarith+
    then show ?thesis ..
  next
    case False
    then have "\<lfloor>x\<rfloor> = m - 1" using b by (intro floor_unique; unfold of_int_diff of_int_1; linarith)
    then show ?thesis ..
  qed
  then show ?thesis
  proof
    assume f: "\<lfloor>x\<rfloor> = m"
    have "x - of_int m < 1 / 2" using b by linarith
    then show ?thesis by (simp only: round_even_def Let_def f if_True)
  next
    assume f: "\<lfloor>x\<rfloor> = m - 1"
    have "\<not> x - of_int (m - 1) < 1 / 2" "1 / 2 < x - of_int (m - 1)"
      using b unfolding of_int_diff of_int_1 by linarith+
    then have "round_even x = m - 1 + 1" by (simp only: round_even_def Let_def f if_True if_False)
    then show ?thesis by simp
  qed
qed

lemma fl_eqI:
  assumes "two_pow e \<le> r" "r < two_pow (e + 1)" "\<bar>r / two_pow (e - 52) - of_int m\<bar> < 1 / 2"
  shows "fl r = of_int m * two_pow (e - 52)"
proof -
  have r: "0 < r" using assms(1) less_le_trans[OF two_pow_pos] by blast
  then show ?thesis
    using ilog2_unique[OF r assms(1,2)] round_even_eqI[OF assms(3)] by (simp add: fl_pos)
qed

end
