(* ===== verification/Elo.thy ===== *)
theory Elo
  imports Doubles Prelude
begin

text \<open>
  The price of a match by the players' ratings: the multiplier (\<open>services/elo-multiplier.ts\<close>) and the
  lookup of the ratings (\<open>services/elo.ts\<close>). The arithmetic is that of doubles, rounded by \<open>fl\<close> after every
  operation; ratings and stakes are taken to be such that no result overflows. The request to the platform
  is a parameter.
\<close>

definition MIN_ELO :: rat where "MIN_ELO = 800"
definition MAX_ELO :: rat where "MAX_ELO = 2800"
definition BASE_MULTIPLIER :: rat where "BASE_MULTIPLIER = 1"
definition MAX_MULTIPLIER :: rat where "MAX_MULTIPLIER = 2"
definition UNKNOWN_ELO :: rat where "UNKNOWN_ELO = MIN_ELO"

record elo_options =
  eo_minElo :: "rat option"
  eo_maxElo :: "rat option"
  eo_baseMultiplier :: "rat option"
  eo_maxMultiplier :: "rat option"

record elo_config =
  ec_minElo :: rat
  ec_maxElo :: rat
  ec_baseMultiplier :: rat
  ec_maxMultiplier :: rat

definition resolveConfig :: "elo_options \<Rightarrow> elo_config" where
  "resolveConfig c =
    (let or_default = (\<lambda>v d. case v of None \<Rightarrow> d | Some x \<Rightarrow> x) in
     \<lparr>ec_minElo = or_default (eo_minElo c) MIN_ELO, ec_maxElo = or_default (eo_maxElo c) MAX_ELO,
      ec_baseMultiplier = or_default (eo_baseMultiplier c) BASE_MULTIPLIER,
      ec_maxMultiplier = or_default (eo_maxMultiplier c) MAX_MULTIPLIER\<rparr>)"

definition js_trunc :: "rat \<Rightarrow> int" where
  "js_trunc v = (if 0 \<le> v then \<lfloor>v\<rfloor> else \<lceil>v\<rceil>)"

definition truncateToTwoDecimals :: "rat \<Rightarrow> rat" where
  "truncateToTwoDecimals v = fl (of_int (js_trunc (fl (v * 100))) / 100)"

definition clamp :: "rat \<Rightarrow> rat \<Rightarrow> rat \<Rightarrow> rat" where
  "clamp v lo hi = min (max v lo) hi"

definition calculateEloMultiplier :: "rat \<Rightarrow> rat \<Rightarrow> elo_options \<Rightarrow> rat" where
  "calculateEloMultiplier player1Elo player2Elo config =
    (let c = resolveConfig config in
     if ec_maxElo c \<le> ec_minElo c then truncateToTwoDecimals (ec_maxMultiplier c)
     else
       (let average = fl (fl (player1Elo + player2Elo) / 2);
            headroom = clamp (fl (fl (average - ec_minElo c) / fl (ec_maxElo c - ec_minElo c))) 0 1;
            multiplier = fl (ec_baseMultiplier c + fl (headroom * fl (ec_maxMultiplier c - ec_baseMultiplier c)))
        in truncateToTwoDecimals multiplier))"

text \<open>A rating that was not found is \<open>None\<close>; one that is not finite is refused too.\<close>

record elo_result =
  er_multiplier :: rat
  er_averageElo :: rat
  er_player1Elo :: rat
  er_player2Elo :: rat
  er_degraded :: bool
  er_reasons :: "string list"

definition finite_rating :: "js_num option \<Rightarrow> rat option" where
  "finite_rating e = (case e of Some (Fin r) \<Rightarrow> Some r | _ \<Rightarrow> None)"

definition resolveMultiplier :: "js_num option \<Rightarrow> js_num option \<Rightarrow> elo_options \<Rightarrow> elo_result" where
  "resolveMultiplier player1Elo player2Elo config =
    (let p1 = finite_rating player1Elo; p2 = finite_rating player2Elo;
         reasons = (if p1 = None then [''player1 rating unavailable''] else []) @
                   (if p2 = None then [''player2 rating unavailable''] else []);
         effective1 = (case p1 of None \<Rightarrow> UNKNOWN_ELO | Some r \<Rightarrow> r);
         effective2 = (case p2 of None \<Rightarrow> UNKNOWN_ELO | Some r \<Rightarrow> r);
         degraded = (reasons \<noteq> []);
         multiplier = (if degraded then ec_baseMultiplier (resolveConfig config)
                       else calculateEloMultiplier effective1 effective2 config)
     in \<lparr>er_multiplier = truncateToTwoDecimals multiplier, er_averageElo = fl (fl (effective1 + effective2) / 2),
         er_player1Elo = effective1, er_player2Elo = effective2, er_degraded = degraded, er_reasons = reasons\<rparr>)"

text \<open>\<open>None\<close> is the \<open>RangeError\<close>.\<close>

definition applyEloMultiplier :: "js_num \<Rightarrow> js_num \<Rightarrow> int option" where
  "applyEloMultiplier baseStake multiplier =
    (case (baseStake, multiplier) of
       (Fin b, Fin m) \<Rightarrow> if b \<le> 0 \<or> m < 1 then None else Some \<lfloor>fl (b * m)\<rfloor>
     | _ \<Rightarrow> None)"

section \<open>Looking ratings up\<close>

definition RATING_VARIANT_PREFERENCE :: "string list" where
  "RATING_VARIANT_PREFERENCE = [''blitz'', ''bullet'', ''rapid'', ''classical'']"

text \<open>The ratings of a user by variant; the variants a payload does not have are \<open>JUndef\<close>.\<close>

definition selectRating :: "(string \<Rightarrow> js_val) option \<Rightarrow> js_num option" where
  "selectRating perfs =
    (case perfs of
       None \<Rightarrow> None
     | Some p \<Rightarrow>
        map_option (\<lambda>v. case p v of JNum n \<Rightarrow> n | _ \<Rightarrow> NaN)
          (find (\<lambda>v. case p v of JNum n \<Rightarrow> js_finite n | _ \<Rightarrow> False) RATING_VARIANT_PREFERENCE))"

datatype elo_response = EloFailed | EloStatus nat "(string \<Rightarrow> js_val) option"

text \<open>The request the service makes by default: anything but a 200 rejects.\<close>

definition default_get :: "elo_response \<Rightarrow> (string \<Rightarrow> js_val) option option" where
  "default_get resp =
    (case resp of
       EloFailed \<Rightarrow> None
     | EloStatus status perfs \<Rightarrow> if status = 404 \<or> status = 429 \<or> status \<noteq> 200 then None else Some perfs)"

definition fetchLichessElo :: "(string \<Rightarrow> (string \<Rightarrow> js_val) option option) \<Rightarrow> string \<Rightarrow> js_num option" where
  "fetchLichessElo get username =
    (if js_trim username = [] then None
     else case get (js_trim username) of None \<Rightarrow> None | Some perfs \<Rightarrow> selectRating perfs)"

definition resolveMatchMultiplier :: "(string \<Rightarrow> (string \<Rightarrow> js_val) option option) \<Rightarrow> string \<Rightarrow> string \<Rightarrow> elo_result" where
  "resolveMatchMultiplier get u1 u2 =
    resolveMultiplier (fetchLichessElo get u1) (fetchLichessElo get u2)
      \<lparr>eo_minElo = None, eo_maxElo = None, eo_baseMultiplier = None, eo_maxMultiplier = None\<rparr>"

section \<open>Lemmas\<close>

definition no_options :: elo_options where
  "no_options = \<lparr>eo_minElo = None, eo_maxElo = None, eo_baseMultiplier = None, eo_maxMultiplier = None\<rparr>"

lemma fl_numerals [simp]: "fl 1 = 1" "fl 2 = 2" "fl 100 = 100" "fl 200 = 200" "fl 2000 = 2000" "fl 800 = 800" "fl 2800 = 2800"
  using fl_int[of 1] fl_int[of 2] fl_int[of 100] fl_int[of 200] fl_int[of 2000] fl_int[of 800] fl_int[of 2800] by simp_all

lemma js_trunc_mono: "a \<le> b \<Longrightarrow> js_trunc a \<le> js_trunc b"
  by (auto simp: js_trunc_def intro: floor_mono ceiling_mono order_trans[of _ 0])

lemma truncate_mono: "a \<le> b \<Longrightarrow> truncateToTwoDecimals a \<le> truncateToTwoDecimals b"
  unfolding truncateToTwoDecimals_def
  by (intro fl_mono divide_right_mono of_int_le_iff[THEN iffD2] js_trunc_mono mult_right_mono) simp_all

lemma truncate_one [simp]: "truncateToTwoDecimals 1 = 1"
  by (simp add: truncateToTwoDecimals_def js_trunc_def)

lemma truncate_two [simp]: "truncateToTwoDecimals 2 = 2"
  by (simp add: truncateToTwoDecimals_def js_trunc_def)

lemma truncate_bounds: "1 \<le> v \<Longrightarrow> v \<le> 2 \<Longrightarrow> 1 \<le> truncateToTwoDecimals v \<and> truncateToTwoDecimals v \<le> 2"
  using truncate_mono[of 1 v] truncate_mono[of v 2] by simp

lemma clamp_bounds: "0 \<le> clamp v 0 1" "clamp v 0 1 \<le> 1"
  by (simp_all add: clamp_def)

text \<open>The multiplier as the default settings compute it, before it is truncated.\<close>

definition raw_multiplier :: "rat \<Rightarrow> rat \<Rightarrow> rat" where
  "raw_multiplier e1 e2 = fl (1 + fl (clamp (fl (fl (fl (fl (e1 + e2) / 2) - 800) / 2000)) 0 1))"

lemma calculate_default: "calculateEloMultiplier e1 e2 no_options = truncateToTwoDecimals (raw_multiplier e1 e2)"
  by (simp add: calculateEloMultiplier_def resolveConfig_def no_options_def Let_def MIN_ELO_def MAX_ELO_def
      BASE_MULTIPLIER_def MAX_MULTIPLIER_def raw_multiplier_def)

lemma raw_bounds: "1 \<le> raw_multiplier e1 e2" "raw_multiplier e1 e2 \<le> 2"
proof -
  define h where "h = clamp (fl (fl (fl (fl (e1 + e2) / 2) - 800) / 2000)) 0 1"
  have "fl 0 \<le> fl h" "fl h \<le> fl 1" using clamp_bounds fl_mono unfolding h_def by blast+
  then have "fl 1 \<le> fl (1 + fl h)" "fl (1 + fl h) \<le> fl 2" by (intro fl_mono; simp)+
  then show "1 \<le> raw_multiplier e1 e2" "raw_multiplier e1 e2 \<le> 2" by (simp_all add: raw_multiplier_def h_def)
qed

lemma raw_mono: "e1 \<le> e1' \<Longrightarrow> e2 \<le> e2' \<Longrightarrow> raw_multiplier e1 e2 \<le> raw_multiplier e1' e2'"
  unfolding raw_multiplier_def clamp_def
  by (intro fl_mono add_left_mono min.mono max.mono order_refl divide_right_mono diff_right_mono add_mono) simp_all

lemma raw_low: "e1 + e2 \<le> 1600 \<Longrightarrow> raw_multiplier e1 e2 = 1"
proof -
  assume "e1 + e2 \<le> 1600"
  then have "fl (e1 + e2) \<le> 1600" using fl_mono[of "e1 + e2" 1600] fl_int[of 1600] by simp
  then have "fl (fl (e1 + e2) / 2) \<le> 800" using fl_mono[of "fl (e1 + e2) / 2" 800] by simp
  then have "fl (fl (fl (e1 + e2) / 2) - 800) \<le> 0" using fl_mono[of "fl (fl (e1 + e2) / 2) - 800" 0] by simp
  then have "fl (fl (fl (fl (e1 + e2) / 2) - 800) / 2000) \<le> 0"
    using fl_mono[of "fl (fl (fl (e1 + e2) / 2) - 800) / 2000" 0] by (simp add: divide_nonpos_pos)
  then show ?thesis by (simp add: raw_multiplier_def clamp_def)
qed

lemma raw_high: "5600 \<le> e1 + e2 \<Longrightarrow> raw_multiplier e1 e2 = 2"
proof -
  assume "5600 \<le> e1 + e2"
  then have "5600 \<le> fl (e1 + e2)" using fl_mono[of 5600 "e1 + e2"] fl_int[of 5600] by simp
  then have "2800 \<le> fl (fl (e1 + e2) / 2)" using fl_mono[of 2800 "fl (e1 + e2) / 2"] by simp
  then have "2000 \<le> fl (fl (fl (e1 + e2) / 2) - 800)" using fl_mono[of 2000 "fl (fl (e1 + e2) / 2) - 800"] by simp
  then have "1 \<le> fl (fl (fl (fl (e1 + e2) / 2) - 800) / 2000)"
    using fl_mono[of 1 "fl (fl (fl (e1 + e2) / 2) - 800) / 2000"] by simp
  then show ?thesis by (simp add: raw_multiplier_def clamp_def)
qed

lemma resolve_default:
  "er_multiplier (resolveMultiplier p1 p2 no_options) =
    (case (finite_rating p1, finite_rating p2) of
       (Some e1, Some e2) \<Rightarrow> truncateToTwoDecimals (truncateToTwoDecimals (raw_multiplier e1 e2))
     | _ \<Rightarrow> 1)"
  by (auto simp: resolveMultiplier_def Let_def calculate_default resolveConfig_def no_options_def BASE_MULTIPLIER_def
      split: option.split) (simp_all add: calculate_default[unfolded no_options_def])

section \<open>Properties\<close>

text \<open>C16. The multiplier of a match is safe under the default settings, in double arithmetic: it is always
  between one and two; it is one when a rating is missing and when the ratings average 800 or less, two
  when they average 2800 or more; it does not depend on the order of the players; and it never falls when
  a rating rises.\<close>
theorem elo_multiplier_bounds:
  "1 \<le> er_multiplier (resolveMultiplier p1 p2 no_options) \<and> er_multiplier (resolveMultiplier p1 p2 no_options) \<le> 2 \<and>
   (finite_rating p1 = None \<or> finite_rating p2 = None \<longrightarrow> er_multiplier (resolveMultiplier p1 p2 no_options) = 1) \<and>
   er_multiplier (resolveMultiplier p2 p1 no_options) = er_multiplier (resolveMultiplier p1 p2 no_options) \<and>
   (\<forall>e1 e2. p1 = Some (Fin e1) \<longrightarrow> p2 = Some (Fin e2) \<longrightarrow>
     (e1 + e2 \<le> 2 * MIN_ELO \<longrightarrow> er_multiplier (resolveMultiplier p1 p2 no_options) = 1) \<and>
     (2 * MAX_ELO \<le> e1 + e2 \<longrightarrow> er_multiplier (resolveMultiplier p1 p2 no_options) = 2) \<and>
     (\<forall>e1' e2'. e1 \<le> e1' \<longrightarrow> e2 \<le> e2' \<longrightarrow> er_multiplier (resolveMultiplier p1 p2 no_options) \<le>
       er_multiplier (resolveMultiplier (Some (Fin e1')) (Some (Fin e2')) no_options)))"
proof -
  have tt: "1 \<le> truncateToTwoDecimals (truncateToTwoDecimals (raw_multiplier e1 e2))"
    "truncateToTwoDecimals (truncateToTwoDecimals (raw_multiplier e1 e2)) \<le> 2" for e1 e2
    using truncate_bounds raw_bounds by blast+
  have comm: "raw_multiplier e1 e2 = raw_multiplier e2 e1" for e1 e2 by (simp add: raw_multiplier_def add.commute)
  have low: "truncateToTwoDecimals (truncateToTwoDecimals (raw_multiplier e1 e2)) = 1" if "e1 + e2 \<le> 2 * MIN_ELO" for e1 e2
    using that raw_low by (simp add: MIN_ELO_def)
  have high: "truncateToTwoDecimals (truncateToTwoDecimals (raw_multiplier e1 e2)) = 2" if "2 * MAX_ELO \<le> e1 + e2" for e1 e2
    using that raw_high by (simp add: MAX_ELO_def)
  show ?thesis
    unfolding resolve_default
    using tt comm low high raw_mono truncate_mono
    by (auto simp: finite_rating_def split: option.splits js_num.splits)
qed

theorem elo_multiplier_bounds_witness:
  "er_multiplier (resolveMultiplier (Some (Fin 2900)) (Some (Fin 2800)) no_options) = 2 \<and>
   er_multiplier (resolveMultiplier (Some (Fin 700)) (Some (Fin 850)) no_options) = 1 \<and>
   er_multiplier (resolveMultiplier None (Some (Fin 2800)) no_options) = 1 \<and>
   er_multiplier (resolveMultiplier (Some (Fin 1200)) (Some (Fin 1500)) no_options) \<le>
     er_multiplier (resolveMultiplier (Some (Fin 1300)) (Some (Fin 1500)) no_options)"
  using elo_multiplier_bounds[of "Some (Fin 2900)" "Some (Fin 2800)"]
    elo_multiplier_bounds[of "Some (Fin 700)" "Some (Fin 850)"]
    elo_multiplier_bounds[of None "Some (Fin 2800)"] elo_multiplier_bounds[of "Some (Fin 1200)" "Some (Fin 1500)"]
  by (simp add: MIN_ELO_def MAX_ELO_def finite_rating_def)

text \<open>Two decimals are not kept. For two players rated 1100 the documented formula gives exactly 1.15;
  in doubles the truncation of 1.15 is 1.14, and since the result is truncated a second time the stake is
  priced with 1.13.\<close>
lemma elo_truncated_twice:
  "1 + (((1100 + 1100) / 2 - MIN_ELO) / (MAX_ELO - MIN_ELO)) * (MAX_MULTIPLIER - 1) = 115 / 100 \<and>
   calculateEloMultiplier 1100 1100 no_options = fl (114 / 100) \<and>
   er_multiplier (resolveMultiplier (Some (Fin 1100)) (Some (Fin 1100)) no_options) = fl (113 / 100)"
proof -
  have h: "fl (300 / 2000) = of_int 5404319552844595 * two_pow (-3 - 52)"
    by (rule fl_eqI) (simp_all add: two_pow_def)
  have v: "fl (1 + of_int 5404319552844595 * two_pow (-3 - 52)) = of_int 5179139571476070 * two_pow (0 - 52)"
    by (rule fl_eqI) (simp_all add: two_pow_def)
  have v100: "fl (of_int 5179139571476070 * two_pow (0 - 52) * 100) = of_int 8092405580431359 * two_pow (6 - 52)"
    by (rule fl_eqI) (simp_all add: two_pow_def)
  have a: "fl (114 / 100) = of_int 5134103575202365 * two_pow (0 - 52)"
    by (rule fl_eqI) (simp_all add: two_pow_def)
  have a100: "fl (of_int 5134103575202365 * two_pow (0 - 52) * 100) = of_int 8022036836253695 * two_pow (6 - 52)"
    by (rule fl_eqI) (simp_all add: two_pow_def)
  have small: "fl (1100 + 1100) = 2200" "fl (2200 / 2) = 1100" "fl (1100 - 800) = 300"
    "fl (5404319552844595 * two_pow (- 55)) = 5404319552844595 * two_pow (- 55)"
    using fl_int[of 2200] fl_int[of 1100] fl_int[of 300] fl_exact_pos[of 5404319552844595 "- 55"] by simp_all
  have clamp: "clamp (5404319552844595 * two_pow (- 55)) 0 1 = 5404319552844595 * two_pow (- 55)"
    by (simp add: clamp_def two_pow_def)
  have raw: "raw_multiplier 1100 1100 = of_int 5179139571476070 * two_pow (0 - 52)"
    unfolding raw_multiplier_def small h v by (simp add: clamp small(4) v[simplified])
  have tr: "js_trunc (of_int 8092405580431359 * two_pow (6 - 52)) = 114" "js_trunc (of_int 8022036836253695 * two_pow (6 - 52)) = 113"
  proof -
    have "\<lfloor>of_int 8092405580431359 * two_pow (6 - 52)\<rfloor> = 114" "\<lfloor>of_int 8022036836253695 * two_pow (6 - 52)\<rfloor> = 113"
      by (rule floor_unique; simp add: two_pow_def)+
    then show "js_trunc (of_int 8092405580431359 * two_pow (6 - 52)) = 114" "js_trunc (of_int 8022036836253695 * two_pow (6 - 52)) = 113"
      by (simp_all add: js_trunc_def less_imp_le[OF two_pow_pos])
  qed
  have t1: "truncateToTwoDecimals (raw_multiplier 1100 1100) = fl (114 / 100)"
    unfolding truncateToTwoDecimals_def raw v100 tr by simp
  have t2: "truncateToTwoDecimals (fl (114 / 100)) = fl (113 / 100)"
    unfolding truncateToTwoDecimals_def a a100 tr by simp
  show ?thesis
    using t1 t2 by (simp add: calculate_default resolve_default finite_rating_def MIN_ELO_def MAX_ELO_def MAX_MULTIPLIER_def)
qed

text \<open>A multiplied stake stays within what the multiplier allows: for a whole stake and a multiplier
  priced by the default settings it is at least the stake and at most twice the stake.\<close>
lemma applied_stake_bounds:
  assumes "0 < stake" "stake \<le> 2 ^ 52"
  shows "\<exists>s. applyEloMultiplier (Fin (of_int stake)) (Fin (er_multiplier (resolveMultiplier p1 p2 no_options))) = Some s \<and>
    stake \<le> s \<and> s \<le> 2 * stake"
proof -
  define m where "m = er_multiplier (resolveMultiplier p1 p2 no_options)"
  have m: "1 \<le> m" "m \<le> 2"
    using truncate_bounds raw_bounds by (auto simp: m_def resolve_default split: option.split)
  have pos: "(0 :: rat) \<le> of_int stake" using assms(1) by simp
  have "of_int stake \<le> of_int stake * m" "of_int stake * m \<le> of_int (2 * stake)"
    using mult_left_mono[OF m(1) pos] mult_left_mono[OF m(2) pos] by (simp_all add: mult.commute)
  from fl_mono[OF this(1)] fl_mono[OF this(2)]
  have "of_int stake \<le> fl (of_int stake * m)" "fl (of_int stake * m) \<le> of_int (2 * stake)"
    using fl_int[of stake] fl_int[of "2 * stake"] assms by simp_all
  then have "stake \<le> \<lfloor>fl (of_int stake * m)\<rfloor>" "\<lfloor>fl (of_int stake * m)\<rfloor> \<le> 2 * stake"
    by (simp_all add: le_floor_iff floor_le_iff)
  then show ?thesis using assms(1) m(1) unfolding m_def[symmetric] by (simp add: applyEloMultiplier_def not_less)
qed

lemma applied_stake_bounds_example:
  "\<exists>s. applyEloMultiplier (Fin 1000) (Fin (er_multiplier (resolveMultiplier None (Some (Fin 2400)) no_options))) = Some s \<and>
    1000 \<le> s \<and> s \<le> 2000"
  using applied_stake_bounds[of 1000 None "Some (Fin 2400)"] by simp

text \<open>A lookup never fails: a user that cannot be read, or has no rating, is unrated.\<close>

lemma fetchLichessElo_failure:
  "(\<And>u. get u = None) \<Longrightarrow> er_multiplier (resolveMatchMultiplier get u1 u2) = 1 \<and> er_degraded (resolveMatchMultiplier get u1 u2)"
  by (simp add: resolveMatchMultiplier_def fetchLichessElo_def resolve_default[unfolded no_options_def] finite_rating_def)
     (simp add: resolveMultiplier_def Let_def finite_rating_def)

lemma selectRating_first:
  "selectRating (Some p) = Some n \<Longrightarrow> \<exists>v \<in> set RATING_VARIANT_PREFERENCE. p v = JNum n \<and> js_finite n"
proof -
  assume s: "selectRating (Some p) = Some n"
  then obtain v where v: "find (\<lambda>v. case p v of JNum n \<Rightarrow> js_finite n | _ \<Rightarrow> False) RATING_VARIANT_PREFERENCE = Some v"
    "n = (case p v of JNum n \<Rightarrow> n | _ \<Rightarrow> NaN)" by (auto simp: selectRating_def)
  have "v \<in> set RATING_VARIANT_PREFERENCE" "case p v of JNum n \<Rightarrow> js_finite n | _ \<Rightarrow> False"
    using v(1) by (auto simp: find_Some_iff)
  then show ?thesis using v(2) by (intro bexI[of _ v]) (auto split: js_val.splits)
qed

end
