(* ===== verification/Eligibility.thy ===== *)
theory Eligibility
  imports Services
begin

text \<open>
  Which games a wager may be staked on: the eligibility rules and the metadata they run on
  (\<open>services/game-eligibility.ts\<close>), the validation of a game (\<open>services/validate-game-service.ts\<close>) and
  the route that answers with it (\<open>routes/validate-game.ts\<close>, behind its rate limiter). A field of a
  provider's payload is a \<open>js_val\<close>.
\<close>

definition SUPPORTED_VARIANTS :: "string list" where "SUPPORTED_VARIANTS = [''standard'']"
definition SUPPORTED_SPEEDS :: "string list" where
  "SUPPORTED_SPEEDS = [''bullet'', ''blitz'', ''rapid'', ''classical'']"
definition UNVERIFIABLE_END_STATUSES :: "string list" where
  "UNVERIFIABLE_END_STATUSES = [''aborted'', ''noStart'', ''unknownFinish'']"

datatype rejection_code = UNSUPPORTED_VARIANT | UNSUPPORTED_TIME_CONTROL | NO_CLOCK | UNVERIFIABLE_COMPLETION

type_synonym rejection = "rejection_code \<times> string"

datatype initial_clock = ClockAbsent | ClockNull | ClockSeconds js_num

record game_metadata =
  gm_status :: "string option"
  gm_variant :: "string option"
  gm_speed :: "string option"
  gm_initialSeconds :: initial_clock

definition no_metadata :: game_metadata where
  "no_metadata = \<lparr>gm_status = None, gm_variant = None, gm_speed = None, gm_initialSeconds = ClockAbsent\<rparr>"

definition checkGameEligibility :: "game_metadata \<Rightarrow> rejection list" where
  "checkGameEligibility game =
    (case gm_variant game of None \<Rightarrow> []
     | Some v \<Rightarrow> if v \<in> set SUPPORTED_VARIANTS then []
        else [(UNSUPPORTED_VARIANT, ''Variant \"'' @ v @ ''\" is not supported; only standard chess can be wagered on.'')]) @
    (case gm_speed game of None \<Rightarrow> []
     | Some s \<Rightarrow> if s \<in> set SUPPORTED_SPEEDS then []
        else [(UNSUPPORTED_TIME_CONTROL, ''Time control \"'' @ s @ ''\" is not supported; use a bullet, blitz, rapid or classical game.'')]) @
    (if gm_initialSeconds game = ClockNull
     then [(NO_CLOCK, ''Games without a clock are not supported; play with a time control.'')] else []) @
    (case gm_status game of None \<Rightarrow> []
     | Some s \<Rightarrow> if s \<in> set UNVERIFIABLE_END_STATUSES
        then [(UNVERIFIABLE_COMPLETION, ''The game ended as \"'' @ s @ ''\", which has no verifiable result.'')] else [])"

definition eligible :: "game_metadata \<Rightarrow> bool" where
  "eligible game = (checkGameEligibility game = [])"

section \<open>Metadata of the providers\<close>

definition string_field :: "js_val \<Rightarrow> string option" where
  "string_field v = (case v of JStr s \<Rightarrow> Some s | _ \<Rightarrow> None)"

text \<open>The fields of a payload that is an object; \<open>clock\<close> is \<open>None\<close> when it is not an object itself.\<close>

record lichess_raw =
  lr_status :: js_val
  lr_variant :: js_val
  lr_speed :: js_val
  lr_clock_initial :: "js_val option"

definition lichessMetadata :: "lichess_raw option \<Rightarrow> game_metadata" where
  "lichessMetadata raw =
    (case raw of
       None \<Rightarrow> no_metadata
     | Some r \<Rightarrow>
        \<lparr>gm_status = string_field (lr_status r), gm_variant = string_field (lr_variant r),
         gm_speed = string_field (lr_speed r),
         gm_initialSeconds =
           (case lr_clock_initial r of
              Some (JNum n) \<Rightarrow> ClockSeconds n
            | _ \<Rightarrow> if string_field (lr_speed r) = Some ''correspondence'' \<or> string_field (lr_speed r) = Some ''unlimited''
                  then ClockNull else ClockAbsent)\<rparr>)"

record chessdotcom_raw =
  dr_rules :: js_val
  dr_time_class :: js_val
  dr_time_control :: js_val

definition is_digit :: "char \<Rightarrow> bool" where
  "is_digit c = (let n = (of_char c :: nat) in 48 \<le> n \<and> n \<le> 57)"

text \<open>The digits matched by \<open>/^(\d+)(?:\+\d+)?$/\<close>, \<open>None\<close> when it does not match.\<close>

definition time_control_match :: "string \<Rightarrow> string option" where
  "time_control_match s =
    (let base = takeWhile is_digit s; rest = dropWhile is_digit s in
     if base = [] then None
     else case rest of
       [] \<Rightarrow> Some base
     | c # inc \<Rightarrow> if c = CHR ''+'' \<and> inc \<noteq> [] \<and> list_all is_digit inc then Some base else None)"

definition chessDotComMetadata :: "chessdotcom_raw option \<Rightarrow> game_metadata" where
  "chessDotComMetadata raw =
    (case raw of
       None \<Rightarrow> no_metadata
     | Some r \<Rightarrow>
        \<lparr>gm_status = None,
         gm_variant = map_option (\<lambda>v. if v = ''chess'' then ''standard'' else v) (string_field (dr_rules r)),
         gm_speed = string_field (dr_time_class r),
         gm_initialSeconds =
           (case dr_time_control r of
              JStr s \<Rightarrow> (case time_control_match s of None \<Rightarrow> ClockNull | Some base \<Rightarrow> ClockSeconds (js_Number base))
            | _ \<Rightarrow> ClockAbsent)\<rparr>)"

section \<open>Validation of a game\<close>

record validate_input =
  vi_gameId :: js_val
  vi_platform :: js_val
  vi_username :: js_val

definition validateGameInput :: "validate_input \<Rightarrow> string option" where
  "validateGameInput i =
    (case text_of (vi_gameId i) of
       None \<Rightarrow> Some ''gameId is required''
     | Some gameId \<Rightarrow>
        if 512 \<le> length gameId then Some ''gameId is too long''
        else if vi_platform i \<noteq> JStr ''lichess'' \<and> vi_platform i \<noteq> JStr ''chessdotcom''
        then Some ''platform must be lichess or chessdotcom''
        else if vi_platform i = JStr ''chessdotcom'' \<and> text_of (vi_username i) = None
        then Some ''username is required for chessdotcom validation to look up game archives''
        else None)"

definition status_name :: "game_status \<Rightarrow> string" where
  "status_name s = (case s of InProgress \<Rightarrow> ''in_progress'' | Finished \<Rightarrow> ''finished'')"

text \<open>A fetched game with the metadata its fetcher attached, if any. The status of the game overrides the
  one of the metadata.\<close>

definition game_rejections :: "game_metadata option \<Rightarrow> game_result \<Rightarrow> rejection list" where
  "game_rejections meta g =
    checkGameEligibility ((case meta of None \<Rightarrow> no_metadata | Some m \<Rightarrow> m)\<lparr>gm_status := Some (status_name (g_status g))\<rparr>)"

datatype validate_result =
    ValidGame string game_result
  | Ineligible string string "rejection list"
  | ValidationFailed nat string string string

definition validate_fetched :: "string \<Rightarrow> game_metadata option \<Rightarrow> game_result \<Rightarrow> validate_result" where
  "validate_fetched platform meta g =
    (let rs = game_rejections meta g in
     if rs = [] then ValidGame platform g else Ineligible platform (g_gameId g) rs)"

text \<open>The fetchers attach no metadata.\<close>

definition validateGame :: "fetchers \<Rightarrow> string \<Rightarrow> string \<Rightarrow> string option \<Rightarrow> validate_result" where
  "validateGame ft gameId platform username =
    (case (if platform = ''lichess'' then ft_lichess ft gameId else ft_chessdotcom ft username gameId) of
       Inr g \<Rightarrow> validate_fetched (if platform = ''lichess'' then ''lichess'' else ''chessdotcom'') None g
     | Inl e \<Rightarrow>
        ValidationFailed (errorToHttpStatus e) platform gameId
          (case e of GameNotFoundError m \<Rightarrow> m | _ \<Rightarrow> ''Validation failed: '' @ error_message e))"

section \<open>The route\<close>

record validate_response =
  vp_status :: nat
  vp_valid :: bool
  vp_message :: "string option"
  vp_rejections :: "rejection list option"
  vp_code :: "error_code option"

fun join_messages :: "rejection list \<Rightarrow> string" where
  "join_messages [] = []"
| "join_messages [r] = snd r"
| "join_messages (r # rs) = snd r @ '' '' @ join_messages rs"

text \<open>\<open>None\<close> stands for a body that is no object.\<close>

definition validate_game_route :: "fetchers \<Rightarrow> validate_input option \<Rightarrow> validate_response" where
  "validate_game_route ft body =
    (let refused = (\<lambda>m. \<lparr>vp_status = 400, vp_valid = False, vp_message = Some m, vp_rejections = None,
           vp_code = Some VALIDATION_ERROR\<rparr>) in
     case body of
       None \<Rightarrow> refused ''Request body must be JSON''
     | Some i \<Rightarrow>
        (case validateGameInput i of
           Some e \<Rightarrow> refused e
         | None \<Rightarrow>
            (case validateGame ft (val_text (vi_gameId i)) (val_text (vi_platform i)) (string_field (vi_username i)) of
               ValidGame p g \<Rightarrow> \<lparr>vp_status = 200, vp_valid = True, vp_message = None, vp_rejections = None, vp_code = None\<rparr>
             | Ineligible p gid rs \<Rightarrow> \<lparr>vp_status = 422, vp_valid = False, vp_message = Some (join_messages rs),
                 vp_rejections = Some rs, vp_code = Some (statusToErrorCode 422)\<rparr>
             | ValidationFailed status p gid m \<Rightarrow> \<lparr>vp_status = status, vp_valid = False,
                 vp_message = (if m = [] then None else Some m), vp_rejections = None,
                 vp_code = Some (statusToErrorCode status)\<rparr>)))"

section \<open>Properties\<close>

text \<open>The rules decide exactly what is documented: a game is eligible exactly when every field they have
  is in order, and otherwise every broken rule is reported once, with its code, in the order variant, time
  control, clock, completion.\<close>
lemma eligibility_exact:
  "map fst (checkGameEligibility game) = filter (\<lambda>code. case code of
     UNSUPPORTED_VARIANT \<Rightarrow> gm_variant game \<notin> {None, Some ''standard''}
   | UNSUPPORTED_TIME_CONTROL \<Rightarrow> gm_speed game \<notin> {None, Some ''bullet'', Some ''blitz'', Some ''rapid'', Some ''classical''}
   | NO_CLOCK \<Rightarrow> gm_initialSeconds game = ClockNull
   | UNVERIFIABLE_COMPLETION \<Rightarrow> gm_status game \<in> {Some ''aborted'', Some ''noStart'', Some ''unknownFinish''})
   [UNSUPPORTED_VARIANT, UNSUPPORTED_TIME_CONTROL, NO_CLOCK, UNVERIFIABLE_COMPLETION]"
  by (cases "gm_variant game"; cases "gm_speed game"; cases "gm_status game")
     (simp_all add: checkGameEligibility_def SUPPORTED_VARIANTS_def SUPPORTED_SPEEDS_def UNVERIFIABLE_END_STATUSES_def)

text \<open>On the validation route the rules never refuse a game: whatever the platform answers, no request
  is answered as ineligible, since the fetchers attach no metadata and the status they report is one no
  rule refuses. The same rules refuse a correspondence game when the platform's metadata is attached.\<close>
lemma eligibility_never_applied:
  "vp_rejections (validate_game_route ft body) = None \<and>
   (lr_speed r = JStr ''correspondence'' \<longrightarrow> (\<exists>rs. validate_fetched p (Some (lichessMetadata (Some r))) g = Ineligible p (g_gameId g) rs))"
proof -
  have "game_rejections None g' = []" for g'
    by (cases "g_status g'") (simp_all add: game_rejections_def checkGameEligibility_def no_metadata_def
        status_name_def UNVERIFIABLE_END_STATUSES_def)
  then have "validateGame ft gid pl u \<noteq> Ineligible p' gid' rs" for gid pl u p' gid' rs
    by (simp add: validateGame_def validate_fetched_def split: sum.split)
  then have "vp_rejections (validate_game_route ft body) = None"
    by (auto simp: validate_game_route_def Let_def split: option.split validate_result.split)
  moreover have "game_rejections (Some (lichessMetadata (Some r))) g \<noteq> []" if "lr_speed r = JStr ''correspondence''"
    using that by (simp add: game_rejections_def checkGameEligibility_def lichessMetadata_def string_field_def SUPPORTED_SPEEDS_def)
  ultimately show ?thesis by (auto simp: validate_fetched_def Let_def)
qed

definition correspondence_raw :: lichess_raw where
  "correspondence_raw = \<lparr>lr_status = JStr ''mate'', lr_variant = JStr ''standard'', lr_speed = JStr ''correspondence'',
     lr_clock_initial = None\<rparr>"

lemma eligibility_never_applied_example:
  "\<exists>rs. validate_fetched ''lichess'' (Some (lichessMetadata (Some correspondence_raw))) fetched_ex =
    Ineligible ''lichess'' (g_gameId fetched_ex) rs"
  using eligibility_never_applied[of ft_ex None correspondence_raw "''lichess''" fetched_ex]
  by (simp add: correspondence_raw_def)

lemma validateGameInput_ok:
  "validateGameInput i = None \<Longrightarrow> \<exists>gid. vi_gameId i = JStr gid \<and> gid \<noteq> [] \<and> length gid < 512 \<and>
    (vi_platform i = JStr ''lichess'' \<or> vi_platform i = JStr ''chessdotcom'' \<and> (\<exists>u. vi_username i = JStr u \<and> u \<noteq> []))"
  by (auto simp: validateGameInput_def text_of_iff split: option.splits if_splits)

lemma time_control_daily: "time_control_match ''1/86400'' = None" "time_control_match ''180+2'' = Some ''180''"
  "time_control_match ''600'' = Some ''600''"
  by code_simp+

end
