(* ===== verification/Maintenance.thy ===== *)
theory Maintenance
  imports QueueStore "HOL-Library.Multiset"
begin

text \<open>
  Replacing the queue database while the workers run: the gate in front of the queue store
  (\<open>store/maintenance-gate.ts\<close>), the live restore (\<open>store/live-restore.ts\<close>) and the request that
  triggers it (\<open>maintenance.ts\<close>). The gate is a state machine over the store calls, the restore a function
  of the rows of the database file; every call that may fail is an argument that says whether it does.
\<close>

section \<open>The gate\<close>

text \<open>Calls are of any type \<open>'c\<close>. \<open>gt_held\<close> is \<open>gate !== null\<close>, \<open>gt_running\<close> the calls counted by
  \<open>inFlight\<close>, \<open>gt_waiting\<close> those that await the gate, \<open>gt_woken\<close> those whose wait has ended but which have
  not yet looked at the gate again. \<open>gt_draining\<close> is \<open>drained !== null\<close>; \<open>gt_acquired\<close> holds once
  \<open>hold\<close> has returned; \<open>gt_done\<close> lists the calls that have finished.\<close>

record 'c queue_gate =
  gt_held :: bool
  gt_running :: "'c list"
  gt_waiting :: "'c list"
  gt_woken :: "'c list"
  gt_draining :: bool
  gt_acquired :: bool
  gt_done :: "'c list"

definition open_gate :: "'c queue_gate" where
  "open_gate = \<lparr>gt_held = False, gt_running = [], gt_waiting = [], gt_woken = [], gt_draining = False,
     gt_acquired = False, gt_done = []\<rparr>"

text \<open>The beginning of \<open>run\<close>: wait while the gate is closed, else start.\<close>

definition gate_call :: "'c \<Rightarrow> 'c queue_gate \<Rightarrow> 'c queue_gate" where
  "gate_call c g = (if gt_held g then g\<lparr>gt_waiting := gt_waiting g @ [c]\<rparr> else g\<lparr>gt_running := gt_running g @ [c]\<rparr>)"

text \<open>A call whose wait has ended goes round the loop of \<open>run\<close> again, in the order of the waits.\<close>

definition gate_wake :: "'c queue_gate \<Rightarrow> 'c queue_gate" where
  "gate_wake g = (case gt_woken g of [] \<Rightarrow> g | c # cs \<Rightarrow> gate_call c (g\<lparr>gt_woken := cs\<rparr>))"

text \<open>The end of \<open>run\<close>: the last call to finish lets a waiting \<open>hold\<close> return.\<close>

definition gate_finish :: "'c \<Rightarrow> 'c queue_gate \<Rightarrow> 'c queue_gate" where
  "gate_finish c g =
    (if c \<in> set (gt_running g)
     then (let g1 = g\<lparr>gt_running := remove1 c (gt_running g), gt_done := gt_done g @ [c]\<rparr>
           in if gt_running g1 = [] \<and> gt_draining g then g1\<lparr>gt_draining := False, gt_acquired := True\<rparr> else g1)
     else g)"

text \<open>\<open>None\<close> is the error of a second hold.\<close>

definition gate_hold :: "'c queue_gate \<Rightarrow> 'c queue_gate option" where
  "gate_hold g =
    (if gt_held g then None
     else if gt_running g \<noteq> [] then Some (g\<lparr>gt_held := True, gt_draining := True\<rparr>)
     else Some (g\<lparr>gt_held := True, gt_acquired := True\<rparr>))"

text \<open>The function \<open>hold\<close> returns. Calling it again has no effect.\<close>

definition gate_release :: "'c queue_gate \<Rightarrow> 'c queue_gate" where
  "gate_release g =
    (if gt_acquired g
     then g\<lparr>gt_held := False, gt_acquired := False, gt_waiting := [], gt_woken := gt_woken g @ gt_waiting g\<rparr>
     else g)"

text \<open>\<open>reopen\<close> and \<open>unsafeInner\<close> are refused without a hold.\<close>

definition gate_inner_allowed :: "'c queue_gate \<Rightarrow> bool" where
  "gate_inner_allowed g = gt_held g"

text \<open>What can happen to a gate, with the calls made so far.\<close>

inductive gate_run :: "'c list \<Rightarrow> 'c queue_gate \<Rightarrow> bool" where
  run_start: "gate_run [] open_gate"
| run_call: "gate_run cs g \<Longrightarrow> gate_run (cs @ [c]) (gate_call c g)"
| run_wake: "gate_run cs g \<Longrightarrow> gate_run cs (gate_wake g)"
| run_finish: "gate_run cs g \<Longrightarrow> gate_run cs (gate_finish c g)"
| run_hold: "gate_run cs g \<Longrightarrow> gate_hold g = Some g' \<Longrightarrow> gate_run cs g'"
| run_release: "gate_run cs g \<Longrightarrow> gate_run cs (gate_release g)"

definition gate_inv :: "'c list \<Rightarrow> 'c queue_gate \<Rightarrow> bool" where
  "gate_inv cs g \<longleftrightarrow>
    (gt_acquired g \<longrightarrow> gt_held g \<and> gt_running g = []) \<and>
    (gt_held g \<longleftrightarrow> gt_acquired g \<or> gt_draining g) \<and>
    (gt_draining g \<longrightarrow> gt_running g \<noteq> []) \<and>
    (\<not> gt_held g \<longrightarrow> gt_waiting g = []) \<and>
    mset cs = mset (gt_done g) + mset (gt_running g) + mset (gt_woken g) + mset (gt_waiting g)"

lemma gate_inv_start: "gate_inv [] open_gate"
  by (simp add: gate_inv_def open_gate_def)

lemma gate_inv_call: "gate_inv cs g \<Longrightarrow> gate_inv (cs @ [c]) (gate_call c g)"
  by (auto simp: gate_inv_def gate_call_def)

lemma gate_inv_wake: "gate_inv cs g \<Longrightarrow> gate_inv cs (gate_wake g)"
  by (auto simp: gate_inv_def gate_wake_def gate_call_def split: list.split)

lemma remove1_last: "remove1 c xs = [] \<Longrightarrow> c \<in> set xs \<Longrightarrow> xs = [c]"
  by (cases xs) (auto split: if_splits)

lemma gate_inv_finish: "gate_inv cs g \<Longrightarrow> gate_inv cs (gate_finish c g)"
  by (auto simp: gate_inv_def gate_finish_def Let_def dest: remove1_last)

lemma gate_inv_hold: "gate_inv cs g \<Longrightarrow> gate_hold g = Some g' \<Longrightarrow> gate_inv cs g'"
  by (auto simp: gate_inv_def gate_hold_def split: if_splits)

lemma gate_inv_release: "gate_inv cs g \<Longrightarrow> gate_inv cs (gate_release g)"
  by (auto simp: gate_inv_def gate_release_def)

lemma gate_run_inv: "gate_run cs g \<Longrightarrow> gate_inv cs g"
  by (induction rule: gate_run.induct)
     (blast intro: gate_inv_start gate_inv_call gate_inv_wake gate_inv_finish gate_inv_hold gate_inv_release)+

text \<open>The running calls finish, in whatever order, and the hold is acquired.\<close>

lemma gate_drains:
  "gate_inv cs g \<Longrightarrow> gt_draining g \<Longrightarrow> mset xs = mset (gt_running g) \<Longrightarrow>
    gt_acquired (fold gate_finish xs g) \<and> gt_running (fold gate_finish xs g) = [] \<and>
    gt_waiting (fold gate_finish xs g) = gt_waiting g \<and> gate_inv cs (fold gate_finish xs g)"
proof (induction xs arbitrary: g)
  case Nil
  then show ?case by (auto simp: gate_inv_def)
next
  case (Cons x xs)
  have x: "x \<in> set (gt_running g)" using Cons.prems(3) by (metis list.set_intros(1) set_mset_mset)
  have rest: "mset xs = mset (remove1 x (gt_running g))" using Cons.prems(3) by (metis mset_remove1 add_mset_remove_trivial mset.simps(2))
  let ?g = "gate_finish x g"
  have inv: "gate_inv cs ?g" by (rule gate_inv_finish[OF Cons.prems(1)])
  have w: "gt_waiting ?g = gt_waiting g" by (simp add: gate_finish_def Let_def)
  show ?case
  proof (cases "xs = []")
    case True
    then have "remove1 x (gt_running g) = []" using rest by (metis mset_zero_iff)
    then show ?thesis using True x Cons.prems(2) inv w by (simp add: gate_finish_def Let_def)
  next
    case False
    then have "remove1 x (gt_running g) \<noteq> []" using rest by (metis mset_zero_iff)
    then have "gt_draining ?g" "mset xs = mset (gt_running ?g)" using x rest Cons.prems(2) by (auto simp: gate_finish_def Let_def)
    then show ?thesis using Cons.IH[OF inv] w by simp
  qed
qed

text \<open>After a release the calls that waited start, in their order.\<close>

lemma gate_wake_all:
  "\<not> gt_held g \<Longrightarrow> n = length (gt_woken g) \<Longrightarrow>
    gt_woken ((gate_wake ^^ n) g) = [] \<and> gt_running ((gate_wake ^^ n) g) = gt_running g @ gt_woken g"
proof (induction n arbitrary: g)
  case (Suc n)
  then obtain c cs where w: "gt_woken g = c # cs" by (cases "gt_woken g") auto
  let ?g = "gate_wake g"
  have "\<not> gt_held ?g" "n = length (gt_woken ?g)" "gt_running ?g = gt_running g @ [c]" "gt_woken ?g = cs"
    using Suc.prems w by (auto simp: gate_wake_def gate_call_def)
  then show ?case using Suc.IH[of ?g] w by (simp add: funpow_swap1)
qed simp

section \<open>Checking a backup\<close>

definition REQUIRED_DLQ_COLUMNS :: "string list" where
  "REQUIRED_DLQ_COLUMNS = [''id'', ''payload'', ''failureReason'', ''attempts'', ''createdAt'', ''lastAttemptAt'', ''expireAt'']"

text \<open>What SQLite answers about a file: \<open>Inl\<close> is the message of an error.\<close>

record backup_probe =
  bp_exists :: bool
  bp_open :: "string option"
  bp_integrity :: "string + string list"
  bp_columns :: "string + string list"
  bp_count :: "string + nat"

record backup_validation =
  bv_ok :: bool
  bv_problems :: "string list"
  bv_rows :: nat

fun join_with :: "string \<Rightarrow> string list \<Rightarrow> string" where
  "join_with sep [] = []"
| "join_with sep [x] = x"
| "join_with sep (x # xs) = x @ sep @ join_with sep xs"

definition invalid_backup :: "string list \<Rightarrow> backup_validation" where
  "invalid_backup ps = \<lparr>bv_ok = (ps = []), bv_problems = ps, bv_rows = 0\<rparr>"

definition validateQueueBackup :: "backup_probe \<Rightarrow> backup_validation" where
  "validateQueueBackup p =
    (if \<not> bp_exists p then invalid_backup [''backup file not found'']
     else (case bp_open p of
       Some e \<Rightarrow> invalid_backup [e]
     | None \<Rightarrow>
        (case bp_integrity p of
           Inl e \<Rightarrow> invalid_backup [e]
         | Inr integrity \<Rightarrow>
            (let ps = (if integrity = [''ok''] then [] else [''integrity_check: '' @ join_with ''; '' integrity]) in
             case bp_columns p of
               Inl e \<Rightarrow> invalid_backup (ps @ [e])
             | Inr columns \<Rightarrow>
                if columns = [] then invalid_backup (ps @ [''table oracle_dlq is missing''])
                else
                  (let qs = ps @ map (\<lambda>c. ''oracle_dlq.'' @ c @ '' is missing'')
                                   (filter (\<lambda>c. c \<notin> set columns) REQUIRED_DLQ_COLUMNS)
                   in if qs \<noteq> [] then invalid_backup qs
                      else (case bp_count p of
                              Inl e \<Rightarrow> invalid_backup [e]
                            | Inr n \<Rightarrow> \<lparr>bv_ok = True, bv_problems = [], bv_rows = n\<rparr>))))))"

lemma invalid_backup_ok [simp]: "bv_ok (invalid_backup ps) = (ps = [])"
  by (simp add: invalid_backup_def)

lemma validateQueueBackup_ok:
  "bv_ok (validateQueueBackup p) \<longleftrightarrow> bp_exists p \<and> bp_open p = None \<and> bp_integrity p = Inr [''ok''] \<and>
    (\<exists>columns n. bp_columns p = Inr columns \<and> set REQUIRED_DLQ_COLUMNS \<subseteq> set columns \<and> bp_count p = Inr n)"
  by (auto simp: validateQueueBackup_def Let_def filter_empty_conv REQUIRED_DLQ_COLUMNS_def split: option.splits sum.splits)

section \<open>The live restore\<close>

text \<open>The database file, whether the store has it open, and the copy kept for a roll-back.\<close>

record 'p db_state =
  db_rows :: "'p sql_store"
  db_open :: bool
  db_copy :: "'p sql_store option"

text \<open>The files and the calls that can fail. Times are the readings of the clock at the two reads of the
  table and at each entry put back.\<close>

record 'p restore_env =
  re_backup :: "'p sql_store"
  re_probe :: backup_probe
  re_first_read :: int
  re_live_ok :: bool
  re_close_ok :: bool
  re_copy_ok :: bool
  re_swap_ok :: bool
  re_init_ok :: bool
  re_second_read :: int
  re_read_ok :: bool
  re_add_at :: "string \<Rightarrow> int"
  re_add_ok :: "string \<Rightarrow> bool"
  re_settled :: "'p dlq_entry \<Rightarrow> bool option"
  re_remove_ok :: "string \<Rightarrow> bool"
  re_back_swap_ok :: bool
  re_back_init_ok :: bool

record restore_report =
  rr_restored :: nat
  rr_readded :: "string list"
  rr_droppedSettled :: "string list"
  rr_keptUnconfirmed :: "string list"

text \<open>The loop over the live entries: those the backup does not have are added back. The first component is
  what the table holds when the loop ends, also by an error.\<close>

fun readd_live :: "'p restore_env \<Rightarrow> string set \<Rightarrow> 'p dlq_entry list \<Rightarrow> 'p sql_store \<Rightarrow> 'p sql_store \<times> string list option" where
  "readd_live re restoredIds [] rows = (rows, Some [])"
| "readd_live re restoredIds (e # es) rows =
    (if dlq_id e \<in> restoredIds then readd_live re restoredIds es rows
     else if \<not> re_add_ok re (dlq_id e) then (rows, None)
     else (case sql_add (re_add_at re (dlq_id e)) e rows of
             Inl err \<Rightarrow> (rows, None)
           | Inr rows1 \<Rightarrow> map_prod id (map_option (Cons (dlq_id e))) (readd_live re restoredIds es rows1)))"

text \<open>The loop over the restored entries that are no longer live: the ids dropped and the ids kept.\<close>

fun drop_settled :: "'p restore_env \<Rightarrow> string set \<Rightarrow> 'p dlq_entry list \<Rightarrow> 'p sql_store
    \<Rightarrow> 'p sql_store \<times> (string list \<times> string list) option" where
  "drop_settled re liveIds [] rows = (rows, Some ([], []))"
| "drop_settled re liveIds (e # es) rows =
    (if dlq_id e \<in> liveIds then drop_settled re liveIds es rows
     else (case re_settled re e of
             None \<Rightarrow> (rows, None)
           | Some True \<Rightarrow>
              if \<not> re_remove_ok re (dlq_id e) then (rows, None)
              else map_prod id (map_option (apfst (Cons (dlq_id e)))) (drop_settled re liveIds es (sql_remove (dlq_id e) rows))
           | Some False \<Rightarrow> map_prod id (map_option (apsnd (Cons (dlq_id e)))) (drop_settled re liveIds es rows)))"

text \<open>The inner \<open>try\<close> block: the backup has been swapped in and opened.\<close>

definition reconcile :: "'p restore_env \<Rightarrow> 'p dlq_entry list \<Rightarrow> 'p sql_store \<times> restore_report option" where
  "reconcile re live =
    (if \<not> re_read_ok re then (re_backup re, None)
     else
       (let (restored, rows) = sql_getAll (re_second_read re) (re_backup re);
            restoredIds = dlq_id ` set restored;
            liveIds = dlq_id ` set live
        in case readd_live re restoredIds live rows of
             (rows1, None) \<Rightarrow> (rows1, None)
           | (rows1, Some readded) \<Rightarrow>
              (case drop_settled re liveIds restored rows1 of
                 (rows2, None) \<Rightarrow> (rows2, None)
               | (rows2, Some (dropped, kept)) \<Rightarrow>
                  (rows2, Some \<lparr>rr_restored = length restored, rr_readded = readded,
                                rr_droppedSettled = dropped, rr_keptUnconfirmed = kept\<rparr>))))"

text \<open>Its \<open>catch\<close> block.\<close>

definition roll_back :: "'p restore_env \<Rightarrow> 'p db_state \<Rightarrow> 'p db_state" where
  "roll_back re st =
    (case db_copy st of
       None \<Rightarrow> st\<lparr>db_open := re_back_init_ok re\<rparr>
     | Some copy \<Rightarrow>
        if \<not> re_back_swap_ok re then st\<lparr>db_open := False\<rparr>
        else st\<lparr>db_rows := copy, db_open := re_back_init_ok re\<rparr>)"

text \<open>The outer \<open>try\<close> block; \<open>None\<close> for an error thrown.\<close>

definition restore_held :: "'p restore_env \<Rightarrow> 'p db_state \<Rightarrow> restore_report option \<times> 'p db_state" where
  "restore_held re st =
    (if \<not> re_live_ok re then (None, st)
     else
       (let (live, rows) = sql_getAll (re_first_read re) (db_rows st);
            st1 = st\<lparr>db_rows := rows\<rparr>
        in if \<not> bv_ok (validateQueueBackup (re_probe re)) then (None, st1)
           else if \<not> re_close_ok re then (None, st1)
           else if \<not> re_copy_ok re then (None, st1\<lparr>db_open := False\<rparr>)
           else
             (let st2 = st1\<lparr>db_open := False, db_copy := Some rows\<rparr> in
              if \<not> re_swap_ok re then (None, roll_back re st2)
              else if \<not> re_init_ok re then (None, roll_back re (st2\<lparr>db_rows := re_backup re\<rparr>))
              else (case reconcile re live of
                      (rows3, None) \<Rightarrow> (None, roll_back re (st2\<lparr>db_rows := rows3\<rparr>))
                    | (rows3, Some report) \<Rightarrow> (Some report, st2\<lparr>db_rows := rows3, db_open := True\<rparr>)))))"

text \<open>The whole procedure: no path and a gate that is already held are errors; otherwise the calls that run
  finish, the restore goes on with the store to itself, and the hold is lifted whatever happens.\<close>

definition performLiveRestore :: "string option \<Rightarrow> 'p restore_env \<Rightarrow> 'c queue_gate \<Rightarrow> 'p db_state
    \<Rightarrow> restore_report option \<times> 'c queue_gate \<times> 'p db_state" where
  "performLiveRestore databasePath re g st =
    (if databasePath = None \<or> databasePath = Some [] then (None, g, st)
     else (case gate_hold g of
             None \<Rightarrow> (None, g, st)
           | Some g1 \<Rightarrow>
              (let g2 = fold gate_finish (gt_running g1) g1;
                   (report, st1) = restore_held re st
               in (report, gate_release g2, st1))))"

section \<open>The request\<close>

text \<open>The request file: unreadable, or the \<open>backupPath\<close> of the object it holds. The result is the \<open>ok\<close> of
  \<open>restore-result.json\<close>.\<close>

definition handleRestoreRequest :: "string option \<Rightarrow> js_val option \<Rightarrow> (string \<Rightarrow> 'p restore_env) \<Rightarrow> 'c queue_gate \<Rightarrow> 'p db_state
    \<Rightarrow> bool \<times> 'c queue_gate \<times> 'p db_state" where
  "handleRestoreRequest databasePath request env g st =
    (if databasePath = None \<or> databasePath = Some [] then (False, g, st)
     else (case request of
             Some (JStr (c # path)) \<Rightarrow>
               (case performLiveRestore databasePath (env (c # path)) g st of
                  (report, g1, st1) \<Rightarrow> (report \<noteq> None, g1, st1))
           | _ \<Rightarrow> (False, g, st)))"

text \<open>The signal handler takes a signal only while no restore runs; the handler's \<open>finally\<close> is \<open>signal_done\<close>.\<close>

record signal_state =
  sg_running :: bool
  sg_started :: nat
  sg_ignored :: nat

definition on_signal :: "signal_state \<Rightarrow> signal_state" where
  "on_signal s = (if sg_running s then s\<lparr>sg_ignored := Suc (sg_ignored s)\<rparr>
     else s\<lparr>sg_running := True, sg_started := Suc (sg_started s)\<rparr>)"

definition signal_done :: "signal_state \<Rightarrow> signal_state" where
  "signal_done s = s\<lparr>sg_running := False\<rparr>"

section \<open>What the restore leaves\<close>

lemma sql_add_later:
  assumes "sql_inv rows" "0 \<le> u" "t \<le> u" "dlq_id e \<notin> set (map r_id rows)"
  shows "\<exists>rows'. sql_add u e rows = Inr rows' \<and> sql_inv rows' \<and>
    sql_live t rows' = (sql_live t rows)(dlq_id e \<mapsto> sql_norm e) \<and>
    set (map r_id rows') = insert (dlq_id e) (set (map r_id rows))"
proof -
  define r where "r = \<lparr>r_id = dlq_id e, r_payload = dlq_payload e, r_failureReason = dlq_failureReason e,
     r_attempts = dlq_attempts e, r_createdAt = dlq_createdAt e, r_lastAttemptAt = dlq_lastAttemptAt e,
     r_expireAt = u + DLQ_EXPIRY_MS\<rparr>"
  have "sql_add u e rows = Inr (rows @ [r])"
    using assms by (auto simp: sql_add_def r_def DLQ_EXPIRY_MS_def Let_def)
  moreover have "row_entry r = sql_norm e" "r_id r = dlq_id e" "\<not> r_expireAt r < t"
    using assms(3) by (simp_all add: row_entry_def sql_norm_def r_def DLQ_EXPIRY_MS_def)
  ultimately show ?thesis
    using assms(1,4) sql_live_notin[OF assms(4), of t]
    by (auto simp: sql_inv_def sql_live_append fun_eq_iff split: option.splits)
qed

lemma map_prod_Some: "map_prod id (map_option f) p = (r, Some x) \<longleftrightarrow> (\<exists>y. p = (r, Some y) \<and> x = f y)"
  by (cases p) auto

text \<open>Both loops, by their effect on what is visible at a time \<open>t\<close>.\<close>

lemma readd_live_visible:
  assumes "readd_live re ids es rows = (rows', Some ks)" "sql_inv rows" "distinct (map dlq_id es)"
    and "\<forall>e \<in> set es. dlq_id e \<notin> ids \<longrightarrow> dlq_id e \<notin> set (map r_id rows)"
    and "\<forall>k. 0 \<le> re_add_at re k \<and> t \<le> re_add_at re k"
  shows "sql_inv rows' \<and> ks = map dlq_id (filter (\<lambda>e. dlq_id e \<notin> ids) es) \<and>
    (\<forall>e \<in> set es. dlq_id e \<notin> ids \<longrightarrow> sql_live t rows' (dlq_id e) = Some (sql_norm e)) \<and>
    (\<forall>k. k \<notin> set ks \<longrightarrow> sql_live t rows' k = sql_live t rows k)"
  using assms
proof (induction re ids es rows arbitrary: ks rule: readd_live.induct)
  case (2 re ids e es rows)
  show ?case
  proof (cases "dlq_id e \<in> ids")
    case True
    then show ?thesis using "2.IH"(1)[of ks] "2.prems" by auto
  next
    case False
    have fresh: "dlq_id e \<notin> set (map r_id rows)" using "2.prems"(4) False by simp
    obtain rows1 where add: "sql_add (re_add_at re (dlq_id e)) e rows = Inr rows1" "sql_inv rows1"
      "sql_live t rows1 = (sql_live t rows)(dlq_id e \<mapsto> sql_norm e)"
      "set (map r_id rows1) = insert (dlq_id e) (set (map r_id rows))"
      using sql_add_later[OF "2.prems"(2) _ _ fresh] "2.prems"(5) by blast
    obtain ks1 where ks1: "readd_live re ids es rows1 = (rows', Some ks1)" "ks = dlq_id e # ks1" "re_add_ok re (dlq_id e)"
      using "2.prems"(1) False add(1) by (auto simp: map_prod_Some split: if_splits)
    have "dlq_id f \<noteq> dlq_id e" if "f \<in> set es" for f
      using "2.prems"(3) that by (metis distinct.simps(2) image_eqI list.map(2) list.set_map)
    then have "\<forall>f \<in> set es. dlq_id f \<notin> ids \<longrightarrow> dlq_id f \<notin> set (map r_id rows1)"
      using "2.prems"(4) unfolding add(4) by simp
    then have IH: "sql_inv rows' \<and> ks1 = map dlq_id (filter (\<lambda>e. dlq_id e \<notin> ids) es) \<and>
        (\<forall>e \<in> set es. dlq_id e \<notin> ids \<longrightarrow> sql_live t rows' (dlq_id e) = Some (sql_norm e)) \<and>
        (\<forall>k. k \<notin> set ks1 \<longrightarrow> sql_live t rows' k = sql_live t rows1 k)"
      using "2.IH"(2)[OF False _ add(1) ks1(1) add(2)] ks1(3) "2.prems"(3,5) by simp
    moreover have "dlq_id e \<notin> set ks1" using IH "2.prems"(3) by auto
    ultimately show ?thesis using ks1(2) False add(3) by auto
  qed
qed simp

lemma drop_settled_visible:
  assumes "drop_settled re ids es rows = (rows', Some (ds, ks))" "sql_inv rows"
  shows "sql_inv rows' \<and>
    ds = map dlq_id (filter (\<lambda>e. dlq_id e \<notin> ids \<and> re_settled re e = Some True) es) \<and>
    ks = map dlq_id (filter (\<lambda>e. dlq_id e \<notin> ids \<and> re_settled re e = Some False) es) \<and>
    (\<forall>e \<in> set es. dlq_id e \<notin> ids \<longrightarrow> re_settled re e \<noteq> None) \<and>
    sql_live t rows' = (\<lambda>k. if k \<in> set ds then None else sql_live t rows k)"
  using assms
proof (induction re ids es rows arbitrary: ds ks rule: drop_settled.induct)
  case (2 re ids e es rows)
  show ?case
  proof (cases "dlq_id e \<in> ids")
    case True
    then show ?thesis using "2.IH"(1)[of ds ks] "2.prems" by auto
  next
    case False
    then obtain b where b: "re_settled re e = Some b" using "2.prems"(1) by (auto split: option.splits)
    show ?thesis
    proof (cases b)
      case True
      obtain ds1 where ds1: "re_remove_ok re (dlq_id e)" "ds = dlq_id e # ds1"
        "drop_settled re ids es (sql_remove (dlq_id e) rows) = (rows', Some (ds1, ks))"
        using "2.prems"(1) False b True by (auto simp: map_prod_Some split: if_splits)
      have "sql_inv (sql_remove (dlq_id e) rows)" using sqlq.remove_law[OF "2.prems"(2)] by simp
      from "2.IH"(2)[OF False b _ _ ds1(3) this] ds1(1) True
      show ?thesis using ds1(2) False b True by (auto simp: sql_live_remove fun_eq_iff)
    next
      case bf: False
      obtain ks1 where "ks = dlq_id e # ks1" "drop_settled re ids es rows = (rows', Some (ds, ks1))"
        using "2.prems"(1) False b bf by (auto simp: map_prod_Some)
      then show ?thesis using "2.IH"(3)[OF False b] bf "2.prems"(2) False b by auto
    qed
  qed
qed auto

text \<open>The rows of a failed reconciliation do not matter: the roll-back replaces them.\<close>

lemma ids_dom:
  assumes "\<And>e. e \<in> set es \<longleftrightarrow> M (dlq_id e) = Some e" "\<And>k b. M k = Some b \<Longrightarrow> dlq_id b = k"
  shows "dlq_id ` set es = dom M"
proof
  show "dlq_id ` set es \<subseteq> dom M" using assms(1) by auto
  show "dom M \<subseteq> dlq_id ` set es"
  proof
    fix k assume "k \<in> dom M"
    then obtain b where b: "M k = Some b" by auto
    then show "k \<in> dlq_id ` set es" using assms(2)[OF b] assms(1)[of b] by (metis image_eqI)
  qed
qed

lemma listed_ids:
  assumes "\<And>e. e \<in> set es \<longleftrightarrow> M (dlq_id e) = Some e" "\<And>k b. M k = Some b \<Longrightarrow> dlq_id b = k"
  shows "k \<in> set (map dlq_id (filter (\<lambda>e. dlq_id e \<notin> L \<and> P e) es)) \<longleftrightarrow> k \<notin> L \<and> (\<exists>b. M k = Some b \<and> P b)"
proof
  assume "k \<in> set (map dlq_id (filter (\<lambda>e. dlq_id e \<notin> L \<and> P e) es))"
  then obtain e where "k = dlq_id e" "e \<in> set es" "dlq_id e \<notin> L" "P e" by auto
  then show "k \<notin> L \<and> (\<exists>b. M k = Some b \<and> P b)" using assms(1) by blast
next
  assume "k \<notin> L \<and> (\<exists>b. M k = Some b \<and> P b)"
  then obtain b where b: "k \<notin> L" "M k = Some b" "P b" by blast
  note id = assms(2)[OF b(2)]
  have "b \<in> set (filter (\<lambda>e. dlq_id e \<notin> L \<and> P e) es)" using b id assms(1)[of b] by simp
  then show "k \<in> set (map dlq_id (filter (\<lambda>e. dlq_id e \<notin> L \<and> P e) es))" using id by (metis image_eqI list.set_map)
qed

lemma reconcile_visible:
  assumes "reconcile re live = (rows', Some rep)" "sql_inv (re_backup re)" "distinct (map dlq_id live)"
    and "\<forall>k. 0 \<le> re_add_at re k \<and> re_second_read re \<le> re_add_at re k"
  defines "before \<equiv> sql_live (re_second_read re) (re_backup re)"
  shows "sql_inv rows' \<and>
    (\<forall>e \<in> set live. sql_live (re_second_read re) rows' (dlq_id e) =
       Some (case before (dlq_id e) of Some b \<Rightarrow> b | None \<Rightarrow> sql_norm e)) \<and>
    (\<forall>k. k \<notin> dlq_id ` set live \<longrightarrow> sql_live (re_second_read re) rows' k =
       (case before k of Some b \<Rightarrow> (if re_settled re b = Some True then None else Some b) | None \<Rightarrow> None)) \<and>
    set (rr_readded rep) = {k \<in> dlq_id ` set live. before k = None} \<and>
    set (rr_droppedSettled rep) = {k. k \<notin> dlq_id ` set live \<and> (\<exists>b. before k = Some b \<and> re_settled re b = Some True)} \<and>
    set (rr_keptUnconfirmed rep) = {k. k \<notin> dlq_id ` set live \<and> (\<exists>b. before k = Some b \<and> re_settled re b = Some False)}"
proof -
  let ?t = "re_second_read re"
  obtain restored rows where g: "sql_getAll ?t (re_backup re) = (restored, rows)" by force
  have law: "sql_inv rows" "set restored = ran before" "\<forall>t' \<ge> ?t. sql_live t' rows = sql_live t' (re_backup re)"
    using sqlq.getAll_law[OF assms(2), of ?t restored rows] g by (simp_all add: before_def)
  have mem: "e \<in> set restored \<longleftrightarrow> before (dlq_id e) = Some e" for e
    using sqlq.ran_live[OF assms(2), of e ?t] law(2) by (simp add: before_def)
  have id: "before k = Some b \<Longrightarrow> dlq_id b = k" for k b
    using sqlq.live_id[OF assms(2)] by (simp add: before_def)
  have ids: "dlq_id ` set restored = dom before" by (rule ids_dom[OF mem id])
  have rowids: "set (map r_id rows) = dom before"
    using g by (auto simp: sql_getAll_def Let_def before_def sql_dom)
  have run: "reconcile re live =
      (case readd_live re (dom before) live rows of
         (rows1, None) \<Rightarrow> (rows1, None)
       | (rows1, Some readded) \<Rightarrow>
          (case drop_settled re (dlq_id ` set live) restored rows1 of
             (rows2, None) \<Rightarrow> (rows2, None)
           | (rows2, Some (dropped, kept)) \<Rightarrow>
              (rows2, Some \<lparr>rr_restored = length restored, rr_readded = readded,
                            rr_droppedSettled = dropped, rr_keptUnconfirmed = kept\<rparr>)))"
  proof -
    have "re_read_ok re" using assms(1) by (simp add: reconcile_def split: if_splits)
    then show ?thesis unfolding reconcile_def g Let_def prod.case ids by simp
  qed
  obtain rows1 readded where r1: "readd_live re (dom before) live rows = (rows1, Some readded)"
    using assms(1) unfolding run by (cases "readd_live re (dom before) live rows"; cases "snd (readd_live re (dom before) live rows)") auto
  obtain ds ks where r2: "drop_settled re (dlq_id ` set live) restored rows1 = (rows', Some (ds, ks))"
    "rep = \<lparr>rr_restored = length restored, rr_readded = readded, rr_droppedSettled = ds, rr_keptUnconfirmed = ks\<rparr>"
    using assms(1) unfolding run r1 by (auto split: prod.splits option.splits)
  have "\<forall>e \<in> set live. dlq_id e \<notin> dom before \<longrightarrow> dlq_id e \<notin> set (map r_id rows)" using rowids by auto
  note v1 = readd_live_visible[OF r1 law(1) assms(3) this assms(4)]
  have "sql_inv rows1" using v1 by blast
  note v2 = drop_settled_visible[OF r2(1) this, of ?t]
  have ds: "k \<in> set ds \<longleftrightarrow> k \<notin> dlq_id ` set live \<and> (\<exists>b. before k = Some b \<and> re_settled re b = Some True)" for k
    using v2 listed_ids[of restored before k "dlq_id ` set live" "\<lambda>b. re_settled re b = Some True", OF mem id] by simp
  have ks: "k \<in> set ks \<longleftrightarrow> k \<notin> dlq_id ` set live \<and> (\<exists>b. before k = Some b \<and> re_settled re b = Some False)" for k
    using v2 listed_ids[of restored before k "dlq_id ` set live" "\<lambda>b. re_settled re b = Some False", OF mem id] by simp
  have readded: "k \<in> set readded \<longleftrightarrow> k \<in> dlq_id ` set live \<and> before k = None" for k
    using v1 by (auto simp: image_iff domIff)
  have start: "sql_live ?t rows = before" using law(3) by (simp add: before_def)
  have live: "sql_live ?t rows' (dlq_id e) = Some (case before (dlq_id e) of Some b \<Rightarrow> b | None \<Rightarrow> sql_norm e)"
    if "e \<in> set live" for e
    using that v1 v2 ds[of "dlq_id e"] readded[of "dlq_id e"] start by (cases "before (dlq_id e)") auto
  have other: "sql_live ?t rows' k = (case before k of Some b \<Rightarrow> (if re_settled re b = Some True then None else Some b) | None \<Rightarrow> None)"
    if "k \<notin> dlq_id ` set live" for k
    using that v1 v2 ds[of k] readded[of k] start by (cases "before k") auto
  have "set ds = {k. k \<notin> dlq_id ` set live \<and> (\<exists>b. before k = Some b \<and> re_settled re b = Some True)}"
    "set ks = {k. k \<notin> dlq_id ` set live \<and> (\<exists>b. before k = Some b \<and> re_settled re b = Some False)}"
    "set readded = {k \<in> dlq_id ` set live. before k = None}"
    using ds ks readded by blast+
  then show ?thesis unfolding r2(2) restore_report.simps using v2 live other by blast
qed

text \<open>A row read back is already in the form the table keeps.\<close>

lemma sql_norm_row [simp]: "sql_norm (row_entry r) = row_entry r"
  by (auto simp: sql_norm_def row_entry_def split: option.split)

lemma sql_norm_live: "sql_inv rows \<Longrightarrow> sql_live t rows k = Some e \<Longrightarrow> sql_norm e = e"
  by (auto simp: sql_live_Some)

text \<open>The gate the restore goes through.\<close>

lemma hold_drain_release:
  assumes "gate_inv cs g" "gate_hold g = Some g1"
  defines "g2 \<equiv> fold gate_finish (gt_running g1) g1"
  shows "gt_acquired g2 \<and> gt_held g2 \<and> gt_running g2 = [] \<and> gt_waiting g2 = gt_waiting g1 \<and>
    \<not> gt_held (gate_release g2) \<and> gate_inv cs (gate_release g2)"
proof -
  have inv: "gate_inv cs g1" by (rule gate_inv_hold[OF assms(1,2)])
  have "gt_acquired g2 \<and> gt_running g2 = [] \<and> gt_waiting g2 = gt_waiting g1 \<and> gate_inv cs g2"
  proof (cases "gt_draining g1")
    case True
    then show ?thesis using gate_drains[OF inv, of "gt_running g1"] by (simp add: g2_def)
  next
    case False
    then have "gt_running g1 = []" "gt_acquired g1"
      using assms(2) inv by (auto simp: gate_hold_def gate_inv_def split: if_splits)
    then show ?thesis using inv by (simp add: g2_def)
  qed
  then show ?thesis using gate_inv_release[of cs g2] by (auto simp: gate_inv_def gate_release_def)
qed

section \<open>Properties\<close>

text \<open>C19. The gate gives a restore the store to itself and loses no call. After any sequence of calls, ends of
  calls, holds and releases: while a hold is acquired no call runs; a call made, or woken, while the gate is
  held waits and nothing starts; a second hold is refused; and every call made is exactly one of finished,
  running, woken and waiting. Once the gate is open every waiting call starts, in the order of the waits.\<close>
theorem maintenance_gate_exclusive:
  assumes "gate_run cs g"
  shows "(gt_acquired g \<longrightarrow> gt_running g = []) \<and>
    (gt_held g \<longrightarrow> gt_running (gate_call c g) = gt_running g \<and> gt_running (gate_wake g) = gt_running g \<and>
       gate_hold g = None) \<and>
    mset cs = mset (gt_done g @ gt_running g @ gt_woken g @ gt_waiting g) \<and>
    (gt_acquired g \<longrightarrow> gt_running ((gate_wake ^^ length (gt_woken g @ gt_waiting g)) (gate_release g)) =
       gt_woken g @ gt_waiting g)"
proof -
  have inv: "gate_inv cs g" by (rule gate_run_inv[OF assms])
  have "gt_running ((gate_wake ^^ length (gt_woken g @ gt_waiting g)) (gate_release g)) = gt_woken g @ gt_waiting g"
    if "gt_acquired g"
    using gate_wake_all[of "gate_release g"] that inv by (simp add: gate_release_def gate_inv_def)
  then show ?thesis
    using inv by (auto simp: gate_inv_def gate_call_def gate_wake_def gate_hold_def split: list.split)
qed

definition busy_gate :: "nat queue_gate" where
  "busy_gate = gate_call 3 (gate_finish 1 (the (gate_hold (gate_call 2 (gate_call 1 open_gate)))))"

lemma busy_gate_run: "gate_run [1, 2, 3] (gate_finish 2 busy_gate)"
proof -
  have "gate_run ([] @ [1]) (gate_call 1 open_gate)" by (intro run_call run_start)
  then have "gate_run (([] @ [1]) @ [2]) (gate_call 2 (gate_call 1 open_gate))" by (rule run_call)
  moreover have "gate_hold (gate_call 2 (gate_call 1 open_gate)) = Some (the (gate_hold (gate_call 2 (gate_call 1 open_gate))))"
    by (simp add: gate_hold_def gate_call_def open_gate_def)
  ultimately have "gate_run (([] @ [1]) @ [2]) (the (gate_hold (gate_call 2 (gate_call 1 open_gate))))" by (rule run_hold)
  then have "gate_run ((([] @ [1]) @ [2]) @ [3]) (gate_finish 2 busy_gate)"
    unfolding busy_gate_def by (intro run_finish run_call)
  then show ?thesis by simp
qed

theorem maintenance_gate_exclusive_witness:
  "gt_running ((gate_wake ^^ 1) (gate_release (gate_finish 2 busy_gate))) = [3]"
  using maintenance_gate_exclusive[OF busy_gate_run]
  by (simp add: busy_gate_def gate_finish_def gate_hold_def gate_call_def open_gate_def)

text \<open>A live restore that succeeds merges the two databases. Seen at the time the restored table is read:
  an entry of the backup is there as the backup has it, unless it was no longer live and is confirmed
  settled; an entry that was live and is not in the backup is there as it was, so nothing queued since the
  backup is lost; there is nothing else; the report lists exactly these three kinds of changes; and the
  store is open and the gate lifted.\<close>
lemma live_restore_merges:
  assumes "performLiveRestore path re g st = (Some rep, g', st')" "gate_run cs g"
    and "sql_inv (db_rows st)" "sql_inv (re_backup re)"
    and "\<forall>k. 0 \<le> re_add_at re k \<and> re_second_read re \<le> re_add_at re k"
  shows "db_open st' \<and> \<not> gt_held g' \<and>
    (\<forall>k. sql_live (re_second_read re) (db_rows st') k =
      (case (sql_live (re_second_read re) (re_backup re) k, sql_live (re_first_read re) (db_rows st) k) of
         (Some b, None) \<Rightarrow> if re_settled re b = Some True then None else Some b
       | (Some b, Some l) \<Rightarrow> Some b
       | (None, live) \<Rightarrow> live)) \<and>
    set (rr_readded rep) = dom (sql_live (re_first_read re) (db_rows st)) - dom (sql_live (re_second_read re) (re_backup re)) \<and>
    set (rr_droppedSettled rep) \<union> set (rr_keptUnconfirmed rep) \<subseteq>
      dom (sql_live (re_second_read re) (re_backup re)) - dom (sql_live (re_first_read re) (db_rows st))"
proof -
  obtain g1 where g1: "gate_hold g = Some g1" "g' = gate_release (fold gate_finish (gt_running g1) g1)"
    "restore_held re st = (Some rep, st')"
    using assms(1) by (auto simp: performLiveRestore_def Let_def split: if_splits option.splits prod.splits)
  note gate = hold_drain_release[OF gate_run_inv[OF assms(2)] g1(1)]
  obtain live rows where l: "sql_getAll (re_first_read re) (db_rows st) = (live, rows)" by force
  define L where "L = sql_live (re_first_read re) (db_rows st)"
  define B where "B = sql_live (re_second_read re) (re_backup re)"
  have law: "set live = ran L" "distinct (map dlq_id live)"
    using sqlq.getAll_law[OF assms(3), of "re_first_read re" live rows] l by (simp_all add: L_def)
  have mem: "e \<in> set live \<longleftrightarrow> L (dlq_id e) = Some e" for e
    using sqlq.ran_live[OF assms(3), of e "re_first_read re"] law(1) by (simp add: L_def)
  have id: "dlq_id e = k \<and> sql_norm e = e" if "L k = Some e" for k e
    using sqlq.live_id[OF assms(3)] sql_norm_live[OF assms(3)] that by (auto simp: L_def)
  have ids: "dlq_id ` set live = dom L"
    by (rule ids_dom[OF mem]) (use id in blast)
  obtain rows3 where r: "reconcile re live = (rows3, Some rep)" "st' = st\<lparr>db_rows := rows3, db_open := True, db_copy := Some rows\<rparr>"
    using g1(3) l by (auto simp: restore_held_def Let_def split: if_splits prod.splits option.splits)
  note rec = reconcile_visible[OF r(1) assms(4) law(2) assms(5), folded B_def, unfolded ids]
  have live: "sql_live (re_second_read re) rows3 k = (case B k of Some b \<Rightarrow> Some b | None \<Rightarrow> Some e)" if "L k = Some e" for k e
  proof -
    have "e \<in> set live" using mem id[OF that] that by simp
    then show ?thesis using rec id[OF that] by (auto split: option.splits)
  qed
  have other: "sql_live (re_second_read re) rows3 k = (case B k of Some b \<Rightarrow> (if re_settled re b = Some True then None else Some b) | None \<Rightarrow> None)"
    if "L k = None" for k
    using rec that by blast
  have "\<forall>k. sql_live (re_second_read re) rows3 k = (case (B k, L k) of
      (Some b, None) \<Rightarrow> if re_settled re b = Some True then None else Some b | (Some b, Some l) \<Rightarrow> Some b | (None, live) \<Rightarrow> live)"
  proof
    fix k
    show "sql_live (re_second_read re) rows3 k = (case (B k, L k) of
      (Some b, None) \<Rightarrow> if re_settled re b = Some True then None else Some b | (Some b, Some l) \<Rightarrow> Some b | (None, live) \<Rightarrow> live)"
      using live[of k] other[of k] by (cases "L k"; cases "B k") simp_all
  qed
  moreover have "set (rr_readded rep) = dom L - dom B"
    "set (rr_droppedSettled rep) \<union> set (rr_keptUnconfirmed rep) \<subseteq> dom B - dom L"
    using rec by auto
  ultimately show ?thesis using gate g1(2) by (simp add: r(2) L_def B_def)
qed

definition row_ex :: "string \<Rightarrow> nat \<Rightarrow> nat dlq_row" where
  "row_ex k attempts = \<lparr>r_id = k, r_payload = 0, r_failureReason = ''rpc'', r_attempts = attempts, r_createdAt = 5,
     r_lastAttemptAt = None, r_expireAt = 100000\<rparr>"

definition healthy_probe :: backup_probe where
  "healthy_probe = \<lparr>bp_exists = True, bp_open = None, bp_integrity = Inr [''ok''], bp_columns = Inr REQUIRED_DLQ_COLUMNS,
     bp_count = Inr 2\<rparr>"

text \<open>The backup holds an entry that is still live, with fewer attempts, and one that has been settled.\<close>

definition restore_ex :: "nat restore_env" where
  "restore_ex = \<lparr>re_backup = [row_ex ''a'' 0, row_ex ''b'' 1], re_probe = healthy_probe, re_first_read = 10,
     re_live_ok = True, re_close_ok = True, re_copy_ok = True, re_swap_ok = True, re_init_ok = True,
     re_second_read = 20, re_read_ok = True, re_add_at = (\<lambda>_. 30), re_add_ok = (\<lambda>_. True),
     re_settled = (\<lambda>e. Some (dlq_id e = ''b'')), re_remove_ok = (\<lambda>_. True), re_back_swap_ok = True,
     re_back_init_ok = True\<rparr>"

definition db_ex :: "nat db_state" where
  "db_ex = \<lparr>db_rows = [row_ex ''a'' 2, row_ex ''c'' 1], db_open = True, db_copy = None\<rparr>"

lemma restore_ex_report:
  "fst (performLiveRestore (Some ''q.db'') restore_ex (open_gate :: nat queue_gate) db_ex) =
    Some \<lparr>rr_restored = 2, rr_readded = [''c''], rr_droppedSettled = [''b''], rr_keptUnconfirmed = []\<rparr>"
  by (simp add: performLiveRestore_def Let_def gate_hold_def open_gate_def restore_held_def restore_ex_def db_ex_def
      validateQueueBackup_ok healthy_probe_def sql_getAll_def row_ex_def row_entry_def reconcile_def
      sql_add_def DLQ_EXPIRY_MS_def sql_remove_def)

lemma live_restore_merges_example:
  "map_option dlq_attempts (sql_live 20 (db_rows (snd (snd (performLiveRestore (Some ''q.db'') restore_ex
      (open_gate :: nat queue_gate) db_ex)))) ''a'') = Some 0 \<and>
   sql_live 20 (db_rows (snd (snd (performLiveRestore (Some ''q.db'') restore_ex (open_gate :: nat queue_gate) db_ex)))) ''b'' = None"
proof -
  obtain g' st' where r: "performLiveRestore (Some ''q.db'') restore_ex (open_gate :: nat queue_gate) db_ex =
      (Some \<lparr>rr_restored = 2, rr_readded = [''c''], rr_droppedSettled = [''b''], rr_keptUnconfirmed = []\<rparr>, g', st')"
    using restore_ex_report by (metis prod.collapse)
  have "sql_inv (db_rows db_ex)" "sql_inv (re_backup restore_ex)"
    "\<forall>k. 0 \<le> re_add_at restore_ex k \<and> re_second_read restore_ex \<le> re_add_at restore_ex k"
    by (simp_all add: sql_inv_def db_ex_def restore_ex_def row_ex_def)
  from live_restore_merges[OF r run_start this]
  have live: "sql_live 20 (db_rows st') k =
      (case (sql_live 20 (re_backup restore_ex) k, sql_live 10 (db_rows db_ex) k) of
         (Some b, None) \<Rightarrow> if re_settled restore_ex b = Some True then None else Some b
       | (Some b, Some l) \<Rightarrow> Some b
       | (None, live) \<Rightarrow> live)" for k
    by (simp add: restore_ex_def)
  show ?thesis
    unfolding r fst_conv snd_conv live by (simp add: restore_ex_def db_ex_def sql_live_def row_ex_def row_entry_def)
qed

text \<open>A live restore that fails changes nothing. Provided that the two calls of the roll-back succeed, every
  entry is visible as before, at any time after the first read, and the gate is lifted if the restore had
  closed it. The store is open again in every case but one: when the copy of the database file fails. The
  store is closed before that copy and the block that reopens it starts after it, so the queue stays closed
  although the workers run on.\<close>
lemma live_restore_rolls_back:
  assumes "performLiveRestore path re g st = (None, g', st')" "gate_run cs g"
    and "sql_inv (db_rows st)" "db_open st" "re_back_swap_ok re" "re_back_init_ok re" "re_first_read re \<le> t"
  shows "sql_live t (db_rows st') = sql_live t (db_rows st) \<and> (gt_held g' \<longrightarrow> gt_held g) \<and>
    (db_open st' \<longleftrightarrow> \<not> (path \<notin> {None, Some []} \<and> \<not> gt_held g \<and> re_live_ok re \<and>
      bv_ok (validateQueueBackup (re_probe re)) \<and> re_close_ok re \<and> \<not> re_copy_ok re))"
proof -
  obtain live rows where l: "sql_getAll (re_first_read re) (db_rows st) = (live, rows)" by force
  then have rows: "sql_live t rows = sql_live t (db_rows st)"
    using sqlq.getAll_law[OF assms(3), of "re_first_read re" live rows] assms(7) by simp
  have held: "sql_live t (db_rows st1) = sql_live t (db_rows st) \<and>
      (db_open st1 \<longleftrightarrow> \<not> (re_live_ok re \<and> bv_ok (validateQueueBackup (re_probe re)) \<and> re_close_ok re \<and> \<not> re_copy_ok re))"
    if "restore_held re st = (None, st1)" for st1
    using that rows assms(4-6) unfolding restore_held_def l Let_def
    by (auto simp: roll_back_def split: if_splits prod.splits option.splits)
  show ?thesis
  proof (cases "path \<in> {None, Some []} \<or> gt_held g")
    case True
    then have "st' = st \<and> g' = g" using assms(1) by (auto simp: performLiveRestore_def gate_hold_def split: if_splits)
    then show ?thesis using True assms(4) by auto
  next
    case False
    then obtain g1 where g1: "gate_hold g = Some g1" by (cases "gt_running g = []") (simp_all add: gate_hold_def)
    have "g' = gate_release (fold gate_finish (gt_running g1) g1)" "restore_held re st = (None, st')"
      using assms(1) False g1 by (auto simp: performLiveRestore_def Let_def split: prod.splits)
    then show ?thesis using held hold_drain_release[OF gate_run_inv[OF assms(2)] g1] False by auto
  qed
qed

lemma live_restore_rolls_back_example:
  "\<not> db_open (snd (snd (performLiveRestore (Some ''q.db'') (restore_ex\<lparr>re_copy_ok := False\<rparr>)
    (open_gate :: nat queue_gate) db_ex)))"
proof -
  obtain g' st' where r: "performLiveRestore (Some ''q.db'') (restore_ex\<lparr>re_copy_ok := False\<rparr>) (open_gate :: nat queue_gate) db_ex =
      (None, g', st')"
    by (simp add: performLiveRestore_def Let_def gate_hold_def open_gate_def restore_held_def restore_ex_def db_ex_def
        validateQueueBackup_ok healthy_probe_def sql_getAll_def)
  show ?thesis
    unfolding r using live_restore_rolls_back[OF r run_start, of 10]
    by (simp add: sql_inv_def db_ex_def restore_ex_def row_ex_def open_gate_def validateQueueBackup_ok healthy_probe_def)
qed

text \<open>A restore is started only when none runs, and its end lets the next signal start one.\<close>

lemma signal_exclusive:
  "sg_started (on_signal s) = sg_started s + (if sg_running s then 0 else 1) \<and> sg_running (on_signal s) \<and>
   sg_started (on_signal (signal_done s)) = Suc (sg_started s)"
  by (simp add: on_signal_def signal_done_def)

lemma handleRestoreRequest_ok:
  "fst (handleRestoreRequest path request env g st) \<Longrightarrow>
    \<exists>p. request = Some (JStr p) \<and> p \<noteq> [] \<and> fst (performLiveRestore path (env p) g st) \<noteq> None"
  by (auto simp: handleRestoreRequest_def split: if_splits option.splits js_val.splits list.splits prod.splits)

end
