(* ===== verification/Sponsor.thy ===== *)
theory Sponsor
  imports Errors Settings
begin

text \<open>
  Sponsored transactions: the policy, the eligibility checks, the reservation of the fee and the submission of
  \<open>services/transaction-sponsor.ts\<close>, with the route \<open>routes/transactions.ts\<close>. What the Stellar SDK makes of
  the envelope, of the keys and of the fee bump is given by the record \<open>sdk_view\<close>; the table is the list of
  its rows, and one call of \<open>reserve\<close> is one transaction on it (\<open>BEGIN IMMEDIATE\<close>).
\<close>

section \<open>The policy\<close>

record sponsor_policy =
  sp_secret :: string
  sp_players :: "string list"
  sp_contractId :: string
  sp_baseFee :: string
  sp_maxFee :: js_num
  sp_dailyBudget :: js_num
  sp_dailyPlayerLimit :: js_num

definition number_or :: "string option \<Rightarrow> rat \<Rightarrow> js_num" where
  "number_or v d = (case v of None \<Rightarrow> Fin d | Some raw \<Rightarrow> js_Number raw)"

definition sponsorPolicy :: "env \<Rightarrow> string + sponsor_policy" where
  "sponsorPolicy env =
    (if env ''FEE_SPONSOR_ENABLED'' \<noteq> Some ''true'' then Inl ''Fee sponsorship disabled''
     else Inr \<lparr>sp_secret = or_else (env ''FEE_SPONSOR_SECRET'') [],
               sp_players = filter (\<lambda>p. p \<noteq> []) (js_split (CHR '','') (or_else (env ''FEE_SPONSOR_PLAYERS'') [])),
               sp_contractId = (case env ''ESCROW_CONTRACT_ID'' of Some c \<Rightarrow> c | None \<Rightarrow> or_else (env ''CONTRACT_ESCROW'') []),
               sp_baseFee = or_else (env ''FEE_SPONSOR_BASE_FEE'') ''1000'',
               sp_maxFee = number_or (env ''FEE_SPONSOR_MAX_FEE'') 1000000,
               sp_dailyBudget = number_or (env ''FEE_SPONSOR_DAILY_BUDGET'') 10000000,
               sp_dailyPlayerLimit = number_or (env ''FEE_SPONSOR_DAILY_PLAYER_LIMIT'') 10\<rparr>)"

section \<open>The reservations\<close>

record reservation =
  rs_hash :: string
  rs_source :: string
  rs_sequence :: string
  rs_day :: int
  rs_fee :: int

definition rows_of_day :: "int \<Rightarrow> reservation list \<Rightarrow> reservation list" where
  "rows_of_day day rows = filter (\<lambda>r. rs_day r = day) rows"

text \<open>\<open>ok\<close> says whether the database calls up to the commit succeed, \<open>closes\<close> whether the handle closes. The
  primary key is the hash, and source and sequence are unique together.\<close>

definition reserve :: "rat \<Rightarrow> rat \<Rightarrow> string \<Rightarrow> string \<Rightarrow> string \<Rightarrow> int \<Rightarrow> int \<Rightarrow> bool \<Rightarrow> bool \<Rightarrow> reservation list
    \<Rightarrow> string option \<times> reservation list" where
  "reserve dailyBudget dailyPlayerLimit hash source sequence fee now ok closes rows =
    (let day = now div 86400;
         budget = sum_list (map rs_fee (rows_of_day day rows));
         count = length (filter (\<lambda>r. rs_source r = source) (rows_of_day day rows))
     in if \<not> ok then (Some ''database'', rows)
        else if of_int (budget + fee) > dailyBudget \<or> of_nat count \<ge> dailyPlayerLimit
        then (Some ''Sponsor budget or player limit exceeded'', rows)
        else if hash \<in> rs_hash ` set rows \<or> (source, sequence) \<in> (\<lambda>r. (rs_source r, rs_sequence r)) ` set rows
        then (Some ''SQLITE_CONSTRAINT'', rows)
        else (if closes then None else Some ''close'',
              rows @ [\<lparr>rs_hash = hash, rs_source = source, rs_sequence = sequence, rs_day = day, rs_fee = fee\<rparr>]))"

section \<open>The transaction\<close>

record escrow_operation =
  op_type :: string
  op_source :: "string option"
  op_function_kind :: string
  op_contract :: string
  op_function :: string

record inner_transaction =
  tx_hash :: string
  tx_source :: string
  tx_sequence :: string
  tx_timeBounds :: "(nat \<times> nat) option"
  tx_signed :: bool
  tx_operations :: "escrow_operation list"

text \<open>What the SDK says: the sponsor's public key, the envelope (\<open>None\<close> unreadable, \<open>Some None\<close> a fee bump),
  whether the source is a valid key, the fee of the outer transaction, and the answer of the network.\<close>

record sdk_view =
  sdk_sponsor :: "string option"
  sdk_envelope :: "inner_transaction option option"
  sdk_source_ok :: bool
  sdk_fee :: "js_num option"
  sdk_answer :: "(string \<times> string) option"

record sponsor_outcome =
  so_result :: "string + string"
  so_rows :: "reservation list"
  so_sent :: "inner_transaction option"

definition positive_safe :: "js_num \<Rightarrow> bool" where
  "positive_safe n = (case safe_integer (JNum n) of None \<Rightarrow> False | Some r \<Rightarrow> 0 < r)"

definition num_val :: "js_num \<Rightarrow> rat" where
  "num_val n = (case n of Fin r \<Rightarrow> r | _ \<Rightarrow> 0)"

text \<open>Every check before the reservation, in the order of the code: the error, or the transaction and its fee.\<close>

definition sponsor_checks :: "bool \<Rightarrow> sponsor_policy \<Rightarrow> sdk_view \<Rightarrow> int \<Rightarrow> string + inner_transaction \<times> int" where
  "sponsor_checks optIn policy sdk now =
    (if \<not> optIn then Inl ''Explicit sponsorship opt-in required''
     else if \<not> list_all positive_safe [sp_maxFee policy, sp_dailyBudget policy, sp_dailyPlayerLimit policy, js_Number (sp_baseFee policy)]
     then Inl ''Invalid sponsor limits''
     else (case sdk_sponsor sdk of
       None \<Rightarrow> Inl ''secret''
     | Some sponsor \<Rightarrow>
        (case sdk_envelope sdk of
           None \<Rightarrow> Inl ''envelope''
         | Some None \<Rightarrow> Inl ''Nested fee bump prohibited''
         | Some (Some inner) \<Rightarrow>
            if tx_source inner \<notin> set (sp_players policy) \<or> tx_source inner = sponsor
            then Inl ''Player not eligible for sponsorship''
            else if (case tx_timeBounds inner of
                       None \<Rightarrow> True
                     | Some (minTime, maxTime) \<Rightarrow> int maxTime \<le> now \<or> int maxTime > now + 300 \<or> int minTime > now)
            then Inl ''A live time bound of at most 300 seconds is required''
            else if \<not> sdk_source_ok sdk then Inl ''public key''
            else if \<not> tx_signed inner then Inl ''Player signature invalid''
            else (case tx_operations inner of
              [operation] \<Rightarrow>
                if op_type operation \<noteq> ''invokeHostFunction'' \<or>
                   op_source operation \<notin> {None, Some [], Some (tx_source inner)} \<or>
                   op_function_kind operation \<noteq> ''hostFunctionTypeInvokeContract''
                then Inl ''Only escrow contract calls are eligible''
                else if op_contract operation \<noteq> sp_contractId policy \<or>
                        op_function operation \<notin> {''create_match'', ''deposit''}
                then Inl ''Contract or method not eligible''
                else (case sdk_fee sdk of
                        None \<Rightarrow> Inl ''fee bump''
                      | Some fee \<Rightarrow>
                         (case safe_integer (JNum fee) of
                            None \<Rightarrow> Inl ''Sponsor fee cap exceeded''
                          | Some r \<Rightarrow> if r > num_val (sp_maxFee policy) then Inl ''Sponsor fee cap exceeded''
                                      else Inr (inner, \<lfloor>r\<rfloor>)))
            | _ \<Rightarrow> Inl ''Only one escrow operation is eligible''))))"

definition sponsorTransaction :: "bool \<Rightarrow> sponsor_policy \<Rightarrow> sdk_view \<Rightarrow> bool \<Rightarrow> bool \<Rightarrow> int \<Rightarrow> reservation list \<Rightarrow> sponsor_outcome" where
  "sponsorTransaction optIn policy sdk ok closes now rows =
    (case sponsor_checks optIn policy sdk now of
       Inl e \<Rightarrow> \<lparr>so_result = Inl e, so_rows = rows, so_sent = None\<rparr>
     | Inr (inner, fee) \<Rightarrow>
        (case reserve (num_val (sp_dailyBudget policy)) (num_val (sp_dailyPlayerLimit policy))
                (tx_hash inner) (tx_source inner) (tx_sequence inner) fee now ok closes rows of
           (Some e, rows1) \<Rightarrow> \<lparr>so_result = Inl e, so_rows = rows1, so_sent = None\<rparr>
         | (None, rows1) \<Rightarrow>
            \<lparr>so_result = (case sdk_answer sdk of
                None \<Rightarrow> Inl ''submit''
              | Some (status, hash) \<Rightarrow>
                  if status \<noteq> ''PENDING'' \<and> status \<noteq> ''DUPLICATE''
                  then Inl ''Sponsored transaction rejected; reservation retained''
                  else Inr hash),
             so_rows = rows1, so_sent = Some inner\<rparr>))"

text \<open>The route: the status, with the hash on success. The request is the XDR text, of any type, and whether
  \<open>optIn\<close> is \<open>true\<close>.\<close>

definition sponsor_route :: "env \<Rightarrow> js_val \<Rightarrow> bool \<Rightarrow> (string \<Rightarrow> sdk_view) \<Rightarrow> bool \<Rightarrow> bool \<Rightarrow> int \<Rightarrow> reservation list
    \<Rightarrow> (nat \<times> string option) \<times> reservation list" where
  "sponsor_route env signedTxXdr optIn sdk ok closes now rows =
    (if env ''FEE_SPONSOR_ENABLED'' \<noteq> Some ''true'' then ((503, None), rows)
     else (case signedTxXdr of
       JStr xdr \<Rightarrow>
         if length xdr > 30000 \<or> \<not> optIn then ((400, None), rows)
         else (case sponsorPolicy env of
                 Inl e \<Rightarrow> ((400, None), rows)
               | Inr policy \<Rightarrow>
                  (case sponsorTransaction optIn policy (sdk xdr) ok closes now rows of out \<Rightarrow>
                    (case so_result out of Inl e \<Rightarrow> ((400, None), so_rows out) | Inr h \<Rightarrow> ((200, Some h), so_rows out))))
     | _ \<Rightarrow> ((400, None), rows)))"

section \<open>What the reservations guarantee\<close>

definition sponsor_inv :: "sponsor_policy \<Rightarrow> reservation list \<Rightarrow> bool" where
  "sponsor_inv policy rows \<longleftrightarrow>
    distinct (map rs_hash rows) \<and> distinct (map (\<lambda>r. (rs_source r, rs_sequence r)) rows) \<and>
    (\<forall>day. of_int (sum_list (map rs_fee (rows_of_day day rows))) \<le> max 0 (num_val (sp_dailyBudget policy))) \<and>
    (\<forall>day source. of_nat (length (filter (\<lambda>r. rs_source r = source) (rows_of_day day rows))) \<le>
       max 0 (num_val (sp_dailyPlayerLimit policy)))"

text \<open>A request: the opt-in, what the SDK says, the faults of the database, and the time.\<close>

type_synonym sponsor_request = "bool \<times> sdk_view \<times> bool \<times> bool \<times> int"

fun sponsor_step :: "sponsor_policy \<Rightarrow> sponsor_request \<Rightarrow> reservation list \<times> inner_transaction list
    \<Rightarrow> reservation list \<times> inner_transaction list" where
  "sponsor_step policy (optIn, sdk, ok, closes, now) (rows, sent) =
    (case sponsorTransaction optIn policy sdk ok closes now rows of out \<Rightarrow>
      (so_rows out, sent @ (case so_sent out of None \<Rightarrow> [] | Some tx \<Rightarrow> [tx])))"

lemma reserve_rows:
  "reserve b l h s q fee now ok closes rows = (e, rows') \<Longrightarrow>
    rows' = rows \<and> e \<noteq> None \<or>
    rows' = rows @ [\<lparr>rs_hash = h, rs_source = s, rs_sequence = q, rs_day = now div 86400, rs_fee = fee\<rparr>] \<and>
    of_int (sum_list (map rs_fee (rows_of_day (now div 86400) rows)) + fee) \<le> b \<and>
    of_nat (length (filter (\<lambda>r. rs_source r = s) (rows_of_day (now div 86400) rows))) < l \<and>
    h \<notin> rs_hash ` set rows \<and> (s, q) \<notin> (\<lambda>r. (rs_source r, rs_sequence r)) ` set rows"
  by (auto simp: reserve_def Let_def split: if_splits)

lemma below_int: "of_nat n < (of_int k :: rat) \<Longrightarrow> of_nat (Suc n) \<le> (of_int k :: rat)"
proof -
  assume "of_nat n < (of_int k :: rat)"
  then have "of_int (int n) < (of_int k :: rat)" by simp
  then have "int (Suc n) \<le> k" by simp
  then have "of_int (int (Suc n)) \<le> (of_int k :: rat)" by (simp only: of_int_le_iff)
  then show ?thesis by simp
qed

lemma sponsor_inv_reserve:
  assumes "reserve (num_val (sp_dailyBudget policy)) (num_val (sp_dailyPlayerLimit policy)) h s q fee now ok closes rows = (e, rows')"
    and "sponsor_inv policy rows" "num_val (sp_dailyPlayerLimit policy) \<in> \<int>"
  shows "sponsor_inv policy rows'"
proof -
  let ?new = "\<lparr>rs_hash = h, rs_source = s, rs_sequence = q, rs_day = now div 86400, rs_fee = fee\<rparr>"
  from reserve_rows[OF assms(1)] consider "rows' = rows"
    | "rows' = rows @ [?new]"
      "of_int (sum_list (map rs_fee (rows_of_day (now div 86400) rows)) + fee) \<le> num_val (sp_dailyBudget policy)"
      "of_nat (length (filter (\<lambda>r. rs_source r = s) (rows_of_day (now div 86400) rows))) < num_val (sp_dailyPlayerLimit policy)"
      "h \<notin> rs_hash ` set rows" "(s, q) \<notin> (\<lambda>r. (rs_source r, rs_sequence r)) ` set rows" by blast
  then show ?thesis
  proof cases
    case 2
    have day: "rows_of_day d rows' = rows_of_day d rows @ (if d = now div 86400 then [?new] else [])" for d
      by (simp add: 2(1) rows_of_day_def)
    have "of_int (sum_list (map rs_fee (rows_of_day d rows'))) \<le> max 0 (num_val (sp_dailyBudget policy))" for d
      using assms(2) 2(2) by (cases "d = now div 86400") (auto simp: sponsor_inv_def day le_max_iff_disj)
    moreover have "of_nat (length (filter (\<lambda>r. rs_source r = src) (rows_of_day d rows'))) \<le>
        max 0 (num_val (sp_dailyPlayerLimit policy))" for d src
    proof (cases "d = now div 86400 \<and> src = s")
      case True
      obtain k where k: "num_val (sp_dailyPlayerLimit policy) = of_int k" using assms(3) by (rule Ints_cases)
      have "of_nat (Suc (length (filter (\<lambda>r. rs_source r = s) (rows_of_day (now div 86400) rows)))) \<le> (of_int k :: rat)"
        using 2(3) unfolding k by (rule below_int)
      then show ?thesis using True k by (simp add: day le_max_iff_disj)
    next
      case False
      then show ?thesis using assms(2) by (auto simp: sponsor_inv_def day)
    qed
    ultimately show ?thesis using assms(2) 2(1,4,5) by (simp add: sponsor_inv_def)
  qed (use assms(2) in simp)
qed

lemma positive_safe_Ints: "positive_safe n \<Longrightarrow> num_val n \<in> \<int> \<and> 0 < num_val n"
  by (auto simp: positive_safe_def safe_integer_def num_val_def split: js_num.splits if_splits)

text \<open>What the checks have established when the reservation is made.\<close>

definition sponsorable :: "bool \<Rightarrow> sponsor_policy \<Rightarrow> sdk_view \<Rightarrow> int \<Rightarrow> inner_transaction \<Rightarrow> int \<Rightarrow> bool" where
  "sponsorable optIn policy sdk now tx fee \<longleftrightarrow>
    optIn \<and> sdk_envelope sdk = Some (Some tx) \<and> tx_signed tx \<and>
    tx_source tx \<in> set (sp_players policy) \<and> sdk_sponsor sdk \<noteq> Some (tx_source tx) \<and>
    (\<exists>minTime maxTime. tx_timeBounds tx = Some (minTime, maxTime) \<and>
       int minTime \<le> now \<and> now < int maxTime \<and> int maxTime \<le> now + 300) \<and>
    (\<exists>operation. tx_operations tx = [operation] \<and> op_type operation = ''invokeHostFunction'' \<and>
       op_contract operation = sp_contractId policy \<and> op_function operation \<in> {''create_match'', ''deposit''}) \<and>
    of_int fee \<le> num_val (sp_maxFee policy)"

lemma sponsor_checks_Inr:
  assumes "sponsor_checks optIn policy sdk now = Inr (tx, fee)"
  shows "sponsorable optIn policy sdk now tx fee \<and>
    num_val (sp_dailyPlayerLimit policy) \<in> \<int> \<and> 0 < num_val (sp_dailyBudget policy) \<and> 0 < num_val (sp_dailyPlayerLimit policy)"
proof -
  have limits: "positive_safe (sp_dailyPlayerLimit policy)" "positive_safe (sp_dailyBudget policy)"
    using assms by (auto simp: sponsor_checks_def split: if_splits)
  obtain sponsor operation r where c: "optIn" "sdk_sponsor sdk = Some sponsor" "sdk_envelope sdk = Some (Some tx)"
    "tx_source tx \<in> set (sp_players policy)" "tx_source tx \<noteq> sponsor" "tx_signed tx" "tx_operations tx = [operation]"
    "\<not> (case tx_timeBounds tx of None \<Rightarrow> True
        | Some (minTime, maxTime) \<Rightarrow> int maxTime \<le> now \<or> int maxTime > now + 300 \<or> int minTime > now)"
    "op_type operation = ''invokeHostFunction''" "op_contract operation = sp_contractId policy"
    "op_function operation \<in> {''create_match'', ''deposit''}" "\<not> r > num_val (sp_maxFee policy)" "fee = \<lfloor>r\<rfloor>"
    using assms unfolding sponsor_checks_def
    by (auto split: if_splits option.splits list.splits)
  have "of_int fee \<le> r" by (simp add: c(13))
  then have "of_int fee \<le> num_val (sp_maxFee policy)" using c(12) by linarith
  moreover obtain lo hi where tb: "tx_timeBounds tx = Some (lo, hi)" using c(8) by (cases "tx_timeBounds tx") auto
  moreover have "int lo \<le> now \<and> now < int hi \<and> int hi \<le> now + 300" using c(8) by (simp add: tb)
  ultimately show ?thesis using c limits positive_safe_Ints by (simp add: sponsorable_def)
qed

text \<open>Every transaction sent has its reservation.\<close>

definition covered :: "reservation list \<Rightarrow> inner_transaction list \<Rightarrow> bool" where
  "covered rows sent \<longleftrightarrow> distinct (map (\<lambda>tx. (tx_source tx, tx_sequence tx)) sent) \<and>
    (\<forall>tx \<in> set sent. \<exists>r \<in> set rows. rs_hash r = tx_hash tx \<and> rs_source r = tx_source tx \<and> rs_sequence r = tx_sequence tx)"

lemma covered_more: "covered rows sent \<Longrightarrow> covered (rows @ rs) sent"
  by (fastforce simp: covered_def)

lemma covered_send:
  assumes "covered rows sent" "(tx_source tx, tx_sequence tx) \<notin> (\<lambda>r. (rs_source r, rs_sequence r)) ` set rows"
  shows "covered (rows @ [\<lparr>rs_hash = tx_hash tx, rs_source = tx_source tx, rs_sequence = tx_sequence tx, rs_day = d, rs_fee = f\<rparr>])
    (sent @ [tx])"
proof -
  have "(tx_source tx, tx_sequence tx) \<notin> (\<lambda>tx. (tx_source tx, tx_sequence tx)) ` set sent"
    using assms by (force simp: covered_def)
  then show ?thesis using covered_more[OF assms(1)] by (auto simp: covered_def)
qed

lemma sponsor_step_safe:
  assumes "sponsor_inv policy rows" "covered rows sent" "sponsor_step policy q (rows, sent) = (rows', sent')"
  shows "sponsor_inv policy rows' \<and> covered rows' sent' \<and> (\<exists>rs ts. rows' = rows @ rs \<and> sent' = sent @ ts)"
proof -
  obtain optIn sdk ok closes now where q: "q = (optIn, sdk, ok, closes, now)" by (cases q)
  show ?thesis
  proof (cases "sponsor_checks optIn policy sdk now")
    case (Inl e)
    then show ?thesis using assms by (simp add: q sponsorTransaction_def)
  next
    case (Inr p)
    obtain tx fee where p: "p = (tx, fee)" by (cases p)
    note checks = sponsor_checks_Inr[OF Inr[unfolded p]]
    obtain e rows1 where r: "reserve (num_val (sp_dailyBudget policy)) (num_val (sp_dailyPlayerLimit policy))
        (tx_hash tx) (tx_source tx) (tx_sequence tx) fee now ok closes rows = (e, rows1)" by force
    have inv: "sponsor_inv policy rows1" by (rule sponsor_inv_reserve[OF r assms(1)]) (use checks in blast)
    have out: "rows' = rows1" "sent' = (if e = None then sent @ [tx] else sent)"
      using assms(3) Inr r by (auto simp: q p sponsorTransaction_def split: option.splits)
    from reserve_rows[OF r] show ?thesis
      using inv assms(2) covered_more covered_send[OF assms(2)] by (auto simp: out)
  qed
qed

definition policy_ex :: sponsor_policy where
  "policy_ex = \<lparr>sp_secret = ''s'', sp_players = [''GA''], sp_contractId = ''CE'', sp_baseFee = ''1000'',
     sp_maxFee = Fin 1000000, sp_dailyBudget = Fin 3000, sp_dailyPlayerLimit = Fin 10\<rparr>"

definition tx_ex :: inner_transaction where
  "tx_ex = \<lparr>tx_hash = ''h1'', tx_source = ''GA'', tx_sequence = ''7'', tx_timeBounds = Some (0, 90000), tx_signed = True,
     tx_operations = [\<lparr>op_type = ''invokeHostFunction'', op_source = None,
       op_function_kind = ''hostFunctionTypeInvokeContract'', op_contract = ''CE'', op_function = ''deposit''\<rparr>]\<rparr>"

definition sdk_ex :: sdk_view where
  "sdk_ex = \<lparr>sdk_sponsor = Some ''GS'', sdk_envelope = Some (Some tx_ex), sdk_source_ok = True, sdk_fee = Some (Fin 2000),
     sdk_answer = Some (''ERROR'', ''h'')\<rparr>"

lemma positive_safe_numeral [simp]: "positive_safe (Fin (numeral n)) \<longleftrightarrow> (numeral n :: rat) \<le> 2 ^ 53 - 1"
  by (simp add: positive_safe_def safe_integer_def)

lemma limits_ex: "list_all positive_safe [sp_maxFee policy_ex, sp_dailyBudget policy_ex, sp_dailyPlayerLimit policy_ex,
    js_Number (sp_baseFee policy_ex)]"
proof -
  have "js_trim ''1000'' = ''1000''" "read_digits 10 0 0 ''1000'' = (1000, 4, [])" by code_simp+
  moreover have "js_round 1000 = Fin 1000" by (simp add: js_round_def)
  ultimately have "js_Number ''1000'' = Fin 1000"
    by (simp add: js_Number_def js_decimal_def read_exponent_def)
  then show ?thesis by (simp add: policy_ex_def)
qed

lemma checks_ex: "sponsor_checks True policy_ex sdk_ex 89900 = Inr (tx_ex, 2000)"
proof -
  have "safe_integer (JNum (Fin 2000)) = Some 2000" by (simp add: safe_integer_def)
  then show ?thesis
    unfolding sponsor_checks_def using limits_ex
    by (simp add: sdk_ex_def tx_ex_def) (simp add: policy_ex_def num_val_def)
qed

text \<open>C18. The sponsor's money is safe whatever is requested and whatever fails. After any sequence of requests,
  with any failures of the database and of the network: the fees reserved on one day never exceed the daily
  budget, no player has more reservations on a day than the limit, no transaction and no sequence number of a
  player is reserved twice; and every transaction handed to the network is one that has its reservation, no
  two of them with the same source and sequence number.\<close>
theorem sponsor_budget_safe:
  assumes "fold (sponsor_step policy) reqs ([], []) = (rows, sent)"
  shows "sponsor_inv policy rows \<and> covered rows sent"
  using assms
proof (induction reqs arbitrary: rows sent rule: rev_induct)
  case Nil
  then show ?case by (auto simp: sponsor_inv_def covered_def rows_of_day_def)
next
  case (snoc q reqs)
  obtain rows0 sent0 where "fold (sponsor_step policy) reqs ([], []) = (rows0, sent0)" by force
  then show ?case using snoc.IH sponsor_step_safe[of policy rows0 sent0 q rows sent] snoc.prems by simp
qed

text \<open>The same transaction twice: rejected by the network the first time, it is not sponsored again.\<close>

theorem sponsor_budget_safe_witness:
  "covered [\<lparr>rs_hash = ''h1'', rs_source = ''GA'', rs_sequence = ''7'', rs_day = 1, rs_fee = 2000\<rparr>] [tx_ex]"
proof -
  have "fold (sponsor_step policy_ex) [(True, sdk_ex, True, True, 89900), (True, sdk_ex, True, True, 89900)] ([], []) =
      ([\<lparr>rs_hash = ''h1'', rs_source = ''GA'', rs_sequence = ''7'', rs_day = 1, rs_fee = 2000\<rparr>], [tx_ex])"
    by (simp add: sponsorTransaction_def checks_ex reserve_def rows_of_day_def)
       (simp add: policy_ex_def num_val_def sdk_ex_def tx_ex_def)
  from sponsor_budget_safe[OF this] show ?thesis by blast
qed

text \<open>Only an eligible transaction is ever sponsored: whatever the request, a transaction reaches the
  network only with the opt-in, from a listed player other than the sponsor, signed by that player, live
  and expiring within five minutes, with a single call of \<open>create_match\<close> or \<open>deposit\<close> on the configured
  contract, and with its fee, at most the cap, reserved before.\<close>
lemma sponsor_only_eligible:
  assumes "so_sent (sponsorTransaction optIn policy sdk ok closes now rows) = Some tx"
  shows "\<exists>fee. sponsorable optIn policy sdk now tx fee \<and>
    so_rows (sponsorTransaction optIn policy sdk ok closes now rows) = rows @
      [\<lparr>rs_hash = tx_hash tx, rs_source = tx_source tx, rs_sequence = tx_sequence tx, rs_day = now div 86400, rs_fee = fee\<rparr>]"
proof -
  obtain p where p: "sponsor_checks optIn policy sdk now = Inr p"
    using assms by (cases "sponsor_checks optIn policy sdk now") (simp_all add: sponsorTransaction_def)
  obtain inner fee where q: "p = (inner, fee)" by (cases p)
  obtain e rows1 where r: "reserve (num_val (sp_dailyBudget policy)) (num_val (sp_dailyPlayerLimit policy))
      (tx_hash inner) (tx_source inner) (tx_sequence inner) fee now ok closes rows = (e, rows1)" by force
  have "e = None" "inner = tx" "so_rows (sponsorTransaction optIn policy sdk ok closes now rows) = rows1"
    using assms p r by (auto simp: sponsorTransaction_def q split: option.splits)
  then show ?thesis using sponsor_checks_Inr[OF p[unfolded q]] reserve_rows[OF r] by auto
qed

lemma sponsor_only_eligible_example:
  "\<exists>fee. sponsorable True policy_ex sdk_ex 89900 tx_ex fee"
proof -
  have "so_sent (sponsorTransaction True policy_ex sdk_ex True True 89900 []) = Some tx_ex"
    by (simp add: sponsorTransaction_def checks_ex reserve_def rows_of_day_def) (simp add: policy_ex_def num_val_def)
  from sponsor_only_eligible[OF this] show ?thesis by blast
qed

text \<open>A reservation is kept when the network refuses the transaction, and the route reports every refusal alike.\<close>

lemma rejected_reservation_kept:
  "sdk_answer sdk = Some (''ERROR'', h) \<Longrightarrow> so_sent (sponsorTransaction optIn policy sdk ok closes now rows) = Some tx \<Longrightarrow>
    so_result (sponsorTransaction optIn policy sdk ok closes now rows) =
      Inl ''Sponsored transaction rejected; reservation retained'' \<and>
    length (so_rows (sponsorTransaction optIn policy sdk ok closes now rows)) = Suc (length rows)"
  using sponsor_only_eligible[of optIn policy sdk ok closes now rows tx]
  by (auto simp: sponsorTransaction_def split: sum.splits prod.splits option.splits)

lemma sponsor_route_status:
  "fst (fst (sponsor_route env xdr optIn sdk ok closes now rows)) \<in> {200, 400, 503}"
  by (simp add: sponsor_route_def split: js_val.split sum.split)

end
