(* ===== verification/Review.thy ===== *)
theory Review
  imports Prelude
begin

text \<open>
  The review of decisions by an operator: the evidence ledger and the lock per game of
  \<open>store/evidence-store.ts\<close>, the authentication of \<open>middleware/auth.ts\<close> and the two routes of
  \<open>routes/oracle-review.ts\<close>. Evidence is of any type \<open>'e\<close>, a token's verification is a parameter.
\<close>

section \<open>The ledger\<close>

datatype ledger_state = ReviewRequired | Verified | InProgress | RetryRequested

record 'e ledger_entry =
  le_id :: nat
  le_matchId :: nat
  le_gameId :: string
  le_state :: ledger_state
  le_reason :: string
  le_evidence :: "'e option"
  le_recordedAt :: string
  le_operator :: "string option"

text \<open>The operations of \<open>EvidenceStore\<close>: the identifier of an entry to append is ignored.\<close>

record ('s, 'e) ledger_ops =
  lo_history :: "string \<Rightarrow> 's \<Rightarrow> 'e ledger_entry list"
  lo_append :: "'e ledger_entry \<Rightarrow> 's \<Rightarrow> nat \<times> 's"

definition ml_history :: "string \<Rightarrow> 'e ledger_entry list \<Rightarrow> 'e ledger_entry list" where
  "ml_history gameId entries = filter (\<lambda>e. le_gameId e = gameId) entries"

definition ml_append :: "'e ledger_entry \<Rightarrow> 'e ledger_entry list \<Rightarrow> nat \<times> 'e ledger_entry list" where
  "ml_append d entries = (let i = length entries + 1 in (i, entries @ [d\<lparr>le_id := i\<rparr>]))"

definition memory_ledger :: "('e ledger_entry list, 'e) ledger_ops" where
  "memory_ledger = \<lparr>lo_history = ml_history, lo_append = ml_append\<rparr>"

text \<open>The table \<open>oracle_decisions\<close>: its rows, in the order of the ids, and the last id given out.\<close>

record 'e sql_ledger =
  sl_rows :: "(nat \<times> string \<times> 'e ledger_entry) list"
  sl_last :: nat

definition empty_ledger :: "'e sql_ledger" where
  "empty_ledger = \<lparr>sl_rows = [], sl_last = 0\<rparr>"

definition sl_history :: "string \<Rightarrow> 'e sql_ledger \<Rightarrow> 'e ledger_entry list" where
  "sl_history gameId t = map (\<lambda>(i, g, d). d\<lparr>le_id := i\<rparr>) (filter (\<lambda>(i, g, d). g = gameId) (sl_rows t))"

definition sl_append :: "'e ledger_entry \<Rightarrow> 'e sql_ledger \<Rightarrow> nat \<times> 'e sql_ledger" where
  "sl_append d t = (let i = sl_last t + 1 in (i, \<lparr>sl_rows = sl_rows t @ [(i, le_gameId d, d)], sl_last = i\<rparr>))"

definition sqlite_ledger :: "('e sql_ledger, 'e) ledger_ops" where
  "sqlite_ledger = \<lparr>lo_history = sl_history, lo_append = sl_append\<rparr>"

section \<open>Authentication\<close>

text \<open>\<open>verify\<close> is \<open>jwt.verify\<close>: \<open>None\<close> for any error, otherwise the claim \<open>address\<close> of the payload. The
  result is \<open>None\<close> for the answer 401.\<close>

definition authenticate :: "(string \<Rightarrow> js_val option) \<Rightarrow> string option \<Rightarrow> string option" where
  "authenticate verify header =
    (case header of
       None \<Rightarrow> None
     | Some auth \<Rightarrow>
        if take 7 auth \<noteq> ''Bearer '' then None
        else (case verify (drop 7 auth) of Some (JStr address) \<Rightarrow> Some address | _ \<Rightarrow> None))"

section \<open>The routes\<close>

definition operators :: "string option \<Rightarrow> string list" where
  "operators addresses = filter (\<lambda>s. s \<noteq> []) (map js_trim (js_split (CHR '','') (case addresses of None \<Rightarrow> [] | Some a \<Rightarrow> a)))"

text \<open>The two handlers in front of the routes: the status of the refusal, or the operator's address.\<close>

definition review_gate :: "(string \<Rightarrow> js_val option) \<Rightarrow> string option \<Rightarrow> string option \<Rightarrow> nat + string" where
  "review_gate verify addresses header =
    (case authenticate verify header of
       None \<Rightarrow> Inl 401
     | Some address \<Rightarrow> if address = [] \<or> address \<notin> set (operators addresses) then Inl 403 else Inr address)"

definition get_history :: "('s, 'e) ledger_ops \<Rightarrow> string \<Rightarrow> 's \<Rightarrow> nat \<times> 'e ledger_entry list" where
  "get_history ops gameId s = (case lo_history ops gameId s of [] \<Rightarrow> (404, []) | h \<Rightarrow> (200, h))"

text \<open>The body of a retry: absent, or the fields it has.\<close>

definition retry_reason :: "(string \<times> js_val) list option \<Rightarrow> string option" where
  "retry_reason body =
    (case body of
       None \<Rightarrow> None
     | Some kvs \<Rightarrow>
        if list_ex (\<lambda>(k, v). k \<noteq> ''reason'') kvs then None
        else (case map_of kvs ''reason'' of
                Some (JStr r) \<Rightarrow> if js_trim r = [] \<or> length r > 500 then None else Some r
              | _ \<Rightarrow> None))"

text \<open>The action under the lock of the game: \<open>None\<close> when the latest decision is not awaiting review.\<close>

definition request_retry :: "('s, 'e) ledger_ops \<Rightarrow> string \<Rightarrow> string \<Rightarrow> string \<Rightarrow> string \<Rightarrow> 's \<Rightarrow> nat option \<times> 's" where
  "request_retry ops gameId reason address now s =
    (case rev (lo_history ops gameId s) of
       [] \<Rightarrow> (None, s)
     | latest # _ \<Rightarrow>
        if le_state latest \<noteq> ReviewRequired then (None, s)
        else (case lo_append ops \<lparr>le_id = 0, le_matchId = le_matchId latest, le_gameId = le_gameId latest,
                  le_state = RetryRequested, le_reason = js_trim reason, le_evidence = None, le_recordedAt = now,
                  le_operator = Some address\<rparr> s of (i, s') \<Rightarrow> (Some i, s')))"

definition post_retry :: "('s, 'e) ledger_ops \<Rightarrow> (string \<Rightarrow> js_val option) \<Rightarrow> string option \<Rightarrow> string option \<Rightarrow> string
    \<Rightarrow> (string \<times> js_val) list option \<Rightarrow> string \<Rightarrow> 's \<Rightarrow> nat \<times> 's" where
  "post_retry ops verify addresses header gameId body now s =
    (case review_gate verify addresses header of
       Inl status \<Rightarrow> (status, s)
     | Inr address \<Rightarrow>
        (case retry_reason body of
           None \<Rightarrow> (400, s)
         | Some reason \<Rightarrow>
            (case request_retry ops gameId reason address now s of
               (None, s') \<Rightarrow> (409, s')
             | (Some i, s') \<Rightarrow> (200, s'))))"

section \<open>The contract of the ledger\<close>

text \<open>Every request for a retry stands right after a decision that asks for a review.\<close>

definition answered :: "ledger_state list \<Rightarrow> bool" where
  "answered h \<longleftrightarrow> successively (\<lambda>a b. b = RetryRequested \<longrightarrow> a = ReviewRequired) (Verified # h)"

lemma answered_snoc:
  "answered (h @ [d]) \<longleftrightarrow> answered h \<and> (d = RetryRequested \<longrightarrow> h \<noteq> [] \<and> last h = ReviewRequired)"
  unfolding answered_def append_Cons[symmetric] successively_append_iff by auto

locale evidence_ledger =
  fixes ops :: "('s, 'e) ledger_ops"
    and inv :: "'s \<Rightarrow> bool"
  assumes append_inv: "inv s \<Longrightarrow> lo_append ops d s = (i, s') \<Longrightarrow> inv s'"
    and append_own: "inv s \<Longrightarrow> lo_append ops d s = (i, s') \<Longrightarrow>
      lo_history ops (le_gameId d) s' = lo_history ops (le_gameId d) s @ [d\<lparr>le_id := i\<rparr>]"
    and append_other: "inv s \<Longrightarrow> lo_append ops d s = (i, s') \<Longrightarrow> g \<noteq> le_gameId d \<Longrightarrow> lo_history ops g s' = lo_history ops g s"
    and history_game: "inv s \<Longrightarrow> e \<in> set (lo_history ops g s) \<Longrightarrow> le_gameId e = g"
begin

lemma append_history:
  "inv s \<Longrightarrow> lo_append ops d s = (i, s') \<Longrightarrow>
    lo_history ops g s' = lo_history ops g s @ (if g = le_gameId d then [d\<lparr>le_id := i\<rparr>] else [])"
  using append_own append_other by simp

lemma request_retry_cases:
  assumes "inv s" "request_retry ops gameId reason address now s = (r, s')"
  obtains "r = None" "s' = s" "lo_history ops gameId s = [] \<or> le_state (last (lo_history ops gameId s)) \<noteq> ReviewRequired"
  | i and d :: "'e ledger_entry" where "r = Some i" "lo_append ops d s = (i, s')" "le_gameId d = gameId" "le_state d = RetryRequested"
      "lo_history ops gameId s \<noteq> []" "le_state (last (lo_history ops gameId s)) = ReviewRequired"
proof (cases "rev (lo_history ops gameId s)")
  case Nil
  then show ?thesis using assms that(1) by (simp add: request_retry_def)
next
  case (Cons latest rest)
  then have l: "lo_history ops gameId s = rev rest @ [latest]" by simp
  then have g: "le_gameId latest = gameId" using history_game[OF assms(1), of latest gameId] by simp
  show ?thesis
  proof (cases "le_state latest = ReviewRequired")
    case True
    define d :: "'e ledger_entry" where "d = \<lparr>le_id = 0, le_matchId = le_matchId latest, le_gameId = le_gameId latest,
        le_state = RetryRequested, le_reason = js_trim reason, le_evidence = None, le_recordedAt = now,
        le_operator = Some address\<rparr>"
    obtain i s1 where a: "lo_append ops d s = (i, s1)" by force
    then have "r = Some i" "s' = s1" using assms(2) Cons True by (simp_all add: request_retry_def d_def)
    then show ?thesis using that(2)[of i d] a g l True by (simp add: d_def)
  next
    case False
    then show ?thesis using assms(2) Cons that(1) l by (simp add: request_retry_def)
  qed
qed

lemma retry_answered:
  assumes "inv s" "request_retry ops gameId reason address now s = (r, s')" "answered (map le_state (lo_history ops g s))"
  shows "inv s' \<and> answered (map le_state (lo_history ops g s'))"
  using assms(1,2)
proof (cases rule: request_retry_cases)
  case (2 i d)
  then show ?thesis
    using append_inv[OF assms(1) 2(2)] append_history[OF assms(1) 2(2), of g] assms(3)
    by (auto simp: answered_snoc last_map)
qed (use assms in auto)

lemma decision_answered:
  assumes "inv s" "lo_append ops d s = (i, s')" "le_state d \<noteq> RetryRequested" "answered (map le_state (lo_history ops g s))"
  shows "inv s' \<and> answered (map le_state (lo_history ops g s'))"
  using append_inv[OF assms(1,2)] append_history[OF assms(1,2), of g] assms(3,4) by (auto simp: answered_snoc)

end

lemma ops_simps [simp]:
  "lo_history memory_ledger = ml_history" "lo_append memory_ledger = ml_append"
  "lo_history sqlite_ledger = sl_history" "lo_append sqlite_ledger = sl_append"
  by (simp_all add: memory_ledger_def sqlite_ledger_def)

interpretation mem_ledger: evidence_ledger memory_ledger "\<lambda>_. True"
  by unfold_locales (auto simp: ml_append_def ml_history_def Let_def)

text \<open>The rows of the table carry the game of their decision.\<close>

definition sl_ok :: "'e sql_ledger \<Rightarrow> bool" where
  "sl_ok t \<longleftrightarrow> (\<forall>(i, g, d) \<in> set (sl_rows t). le_gameId d = g)"

interpretation sql_ledger: evidence_ledger sqlite_ledger sl_ok
  by unfold_locales (auto simp: sl_append_def sl_history_def sl_ok_def Let_def)

section \<open>The lock of a game\<close>

text \<open>An action is named by its game and a number. \<open>gl_queue\<close> lists the calls of \<open>withGameLock\<close> of a game in
  their order, \<open>gl_prev\<close> the promise each was chained to, \<open>gl_tail\<close> is the map \<open>locks\<close>.\<close>

datatype lock_action = LockAction (act_game: string) (act_no: nat)

record lock_state =
  gl_queue :: "string \<Rightarrow> lock_action list"
  gl_prev :: "lock_action \<Rightarrow> lock_action option"
  gl_started :: "lock_action set"
  gl_settled :: "lock_action set"
  gl_tail :: "string \<Rightarrow> lock_action option"

definition no_locks :: lock_state where
  "no_locks = \<lparr>gl_queue = (\<lambda>_. []), gl_prev = (\<lambda>_. None), gl_started = {}, gl_settled = {}, gl_tail = (\<lambda>_. None)\<rparr>"

definition lock_enter :: "lock_action \<Rightarrow> lock_state \<Rightarrow> lock_state" where
  "lock_enter a l = l\<lparr>gl_queue := (gl_queue l)(act_game a := gl_queue l (act_game a) @ [a]),
     gl_prev := (gl_prev l)(a := gl_tail l (act_game a)), gl_tail := (gl_tail l)(act_game a := Some a)\<rparr>"

text \<open>The chained promise runs the action once the previous one has settled, however it has.\<close>

definition may_start :: "lock_action \<Rightarrow> lock_state \<Rightarrow> bool" where
  "may_start a l \<longleftrightarrow> a \<in> set (gl_queue l (act_game a)) \<and> a \<notin> gl_started l \<and>
    (case gl_prev l a of None \<Rightarrow> True | Some p \<Rightarrow> p \<in> gl_settled l)"

definition lock_start :: "lock_action \<Rightarrow> lock_state \<Rightarrow> lock_state" where
  "lock_start a l = l\<lparr>gl_started := insert a (gl_started l)\<rparr>"

definition lock_settle :: "lock_action \<Rightarrow> lock_state \<Rightarrow> lock_state" where
  "lock_settle a l = l\<lparr>gl_settled := insert a (gl_settled l)\<rparr>"

text \<open>The \<open>finally\<close> block.\<close>

definition lock_cleanup :: "lock_action \<Rightarrow> lock_state \<Rightarrow> lock_state" where
  "lock_cleanup a l = (if gl_tail l (act_game a) = Some a then l\<lparr>gl_tail := (gl_tail l)(act_game a := None)\<rparr> else l)"

inductive lock_run :: "lock_state \<Rightarrow> bool" where
  lr_start: "lock_run no_locks"
| lr_enter: "lock_run l \<Longrightarrow> a \<notin> set (gl_queue l (act_game a)) \<Longrightarrow> lock_run (lock_enter a l)"
| lr_begin: "lock_run l \<Longrightarrow> may_start a l \<Longrightarrow> lock_run (lock_start a l)"
| lr_settle: "lock_run l \<Longrightarrow> a \<in> gl_started l \<Longrightarrow> lock_run (lock_settle a l)"
| lr_cleanup: "lock_run l \<Longrightarrow> a \<in> gl_settled l \<Longrightarrow> lock_run (lock_cleanup a l)"

definition lock_inv :: "lock_state \<Rightarrow> bool" where
  "lock_inv l \<longleftrightarrow>
    gl_settled l \<subseteq> gl_started l \<and> (\<forall>a \<in> gl_started l. a \<in> set (gl_queue l (act_game a))) \<and>
    (\<forall>g. distinct (gl_queue l g) \<and> (\<forall>a \<in> set (gl_queue l g). act_game a = g)) \<and>
    (\<forall>g xs a ys. gl_queue l g = xs @ a # ys \<longrightarrow>
       (gl_prev l a = None \<longrightarrow> set xs \<subseteq> gl_settled l) \<and>
       (\<forall>p. gl_prev l a = Some p \<longrightarrow> xs \<noteq> [] \<and> last xs = p) \<and>
       (a \<in> gl_started l \<longrightarrow> set xs \<subseteq> gl_settled l)) \<and>
    (\<forall>g. gl_tail l g = None \<longrightarrow> set (gl_queue l g) \<subseteq> gl_settled l) \<and>
    (\<forall>g a. gl_tail l g = Some a \<longrightarrow> gl_queue l g \<noteq> [] \<and> last (gl_queue l g) = a)"

text \<open>The invariant, by the facts it gives.\<close>

lemma lock_invD:
  assumes "lock_inv l"
  shows "gl_settled l \<subseteq> gl_started l"
    and "a \<in> gl_started l \<Longrightarrow> a \<in> set (gl_queue l (act_game a))"
    and "distinct (gl_queue l g)"
    and "a \<in> set (gl_queue l g) \<Longrightarrow> act_game a = g"
    and "gl_queue l g = xs @ a # ys \<Longrightarrow> gl_prev l a = None \<Longrightarrow> set xs \<subseteq> gl_settled l"
    and "gl_queue l g = xs @ a # ys \<Longrightarrow> gl_prev l a = Some p \<Longrightarrow> xs \<noteq> [] \<and> last xs = p"
    and "gl_queue l g = xs @ a # ys \<Longrightarrow> a \<in> gl_started l \<Longrightarrow> set xs \<subseteq> gl_settled l"
    and "gl_tail l g = None \<Longrightarrow> set (gl_queue l g) \<subseteq> gl_settled l"
    and "gl_tail l g = Some a \<Longrightarrow> gl_queue l g \<noteq> [] \<and> last (gl_queue l g) = a"
proof -
  note i = assms[unfolded lock_inv_def]
  note c = i[THEN conjunct1] i[THEN conjunct2, THEN conjunct1] i[THEN conjunct2, THEN conjunct2, THEN conjunct1]
    i[THEN conjunct2, THEN conjunct2, THEN conjunct2, THEN conjunct1]
    i[THEN conjunct2, THEN conjunct2, THEN conjunct2, THEN conjunct2]
  show "gl_settled l \<subseteq> gl_started l" by (rule c(1))
  show "a \<in> gl_started l \<Longrightarrow> a \<in> set (gl_queue l (act_game a))" using c(2) by simp
  show "distinct (gl_queue l g)" using c(3) by simp
  show "a \<in> set (gl_queue l g) \<Longrightarrow> act_game a = g" using c(3) by simp
  show "gl_queue l g = xs @ a # ys \<Longrightarrow> gl_prev l a = None \<Longrightarrow> set xs \<subseteq> gl_settled l" using c(4) by blast
  show "gl_queue l g = xs @ a # ys \<Longrightarrow> gl_prev l a = Some p \<Longrightarrow> xs \<noteq> [] \<and> last xs = p" using c(4) by blast
  show "gl_queue l g = xs @ a # ys \<Longrightarrow> a \<in> gl_started l \<Longrightarrow> set xs \<subseteq> gl_settled l" using c(4) by blast
  show "gl_tail l g = None \<Longrightarrow> set (gl_queue l g) \<subseteq> gl_settled l" using c(5) by simp
  show "gl_tail l g = Some a \<Longrightarrow> gl_queue l g \<noteq> [] \<and> last (gl_queue l g) = a" using c(5) by simp
qed

lemma lock_invI:
  assumes "gl_settled l \<subseteq> gl_started l"
    and "\<And>a. a \<in> gl_started l \<Longrightarrow> a \<in> set (gl_queue l (act_game a))"
    and "\<And>g. distinct (gl_queue l g)"
    and "\<And>g a. a \<in> set (gl_queue l g) \<Longrightarrow> act_game a = g"
    and "\<And>g xs a ys. gl_queue l g = xs @ a # ys \<Longrightarrow> gl_prev l a = None \<Longrightarrow> set xs \<subseteq> gl_settled l"
    and "\<And>g xs a ys p. gl_queue l g = xs @ a # ys \<Longrightarrow> gl_prev l a = Some p \<Longrightarrow> xs \<noteq> [] \<and> last xs = p"
    and "\<And>g xs a ys. gl_queue l g = xs @ a # ys \<Longrightarrow> a \<in> gl_started l \<Longrightarrow> set xs \<subseteq> gl_settled l"
    and "\<And>g. gl_tail l g = None \<Longrightarrow> set (gl_queue l g) \<subseteq> gl_settled l"
    and "\<And>g a. gl_tail l g = Some a \<Longrightarrow> gl_queue l g \<noteq> [] \<and> last (gl_queue l g) = a"
  shows "lock_inv l"
  unfolding lock_inv_def using assms by (intro conjI ballI allI impI) (assumption | simp)+

lemma set_snoc_subset: "xs \<noteq> [] \<Longrightarrow> set (butlast xs) \<subseteq> S \<Longrightarrow> last xs \<in> S \<Longrightarrow> set xs \<subseteq> S"
  by (metis Un_subset_iff append_butlast_last_id empty_set empty_subsetI insert_subset list.simps(15) set_append)

lemma lock_inv_start: "lock_inv no_locks"
  by (simp add: lock_inv_def no_locks_def)

lemma lock_inv_enter:
  assumes "lock_inv l" "a \<notin> set (gl_queue l (act_game a))"
  shows "lock_inv (lock_enter a l)"
proof -
  note D = lock_invD[OF assms(1)]
  have new: "a \<notin> gl_started l" "a \<notin> gl_settled l" using assms(2) D(1,2) by blast+
  have chain: "(gl_prev (lock_enter a l) b = None \<longrightarrow> set xs \<subseteq> gl_settled l) \<and>
      (\<forall>p. gl_prev (lock_enter a l) b = Some p \<longrightarrow> xs \<noteq> [] \<and> last xs = p) \<and> (b \<in> gl_started l \<longrightarrow> set xs \<subseteq> gl_settled l)"
    if q: "gl_queue (lock_enter a l) g = xs @ b # ys" for g xs b ys
  proof (cases "g = act_game a \<and> ys = []")
    case True
    then have "xs = gl_queue l (act_game a)" "b = a" using q by (auto simp: lock_enter_def)
    then show ?thesis using new D(8,9)[of "act_game a"] by (auto simp: lock_enter_def)
  next
    case False
    obtain zs where zs: "gl_queue l g = xs @ b # zs"
      using q False by (cases ys rule: rev_cases) (auto simp: lock_enter_def split: if_splits)
    then have "b \<in> set (gl_queue l g)" by simp
    then have "b \<noteq> a" using assms(2) D(4)[of b g] by metis
    then show ?thesis using D(5-7)[OF zs] by (auto simp: lock_enter_def)
  qed
  have same: "gl_settled (lock_enter a l) = gl_settled l" "gl_started (lock_enter a l) = gl_started l"
    "gl_queue (lock_enter a l) g = gl_queue l g @ (if g = act_game a then [a] else [])"
    "gl_tail (lock_enter a l) g = (if g = act_game a then Some a else gl_tail l g)" for g
    by (simp_all add: lock_enter_def)
  show ?thesis
  proof (rule lock_invI, unfold same(1,2))
    show "gl_settled l \<subseteq> gl_started l" by (rule D(1))
    show "b \<in> set (gl_queue (lock_enter a l) (act_game b))" if "b \<in> gl_started l" for b using D(2)[OF that] by (simp add: same(3))
    show "distinct (gl_queue (lock_enter a l) g)" for g using D(3)[of g] assms(2) by (simp add: same(3))
    show "act_game b = g" if "b \<in> set (gl_queue (lock_enter a l) g)" for b g
      using D(4)[of b g] that by (auto simp: same(3) split: if_splits)
    show "set (gl_queue (lock_enter a l) g) \<subseteq> gl_settled l" if "gl_tail (lock_enter a l) g = None" for g
      using D(8)[of g] that by (simp add: same(3,4) split: if_splits)
    show "gl_queue (lock_enter a l) g \<noteq> [] \<and> last (gl_queue (lock_enter a l) g) = b" if "gl_tail (lock_enter a l) g = Some b" for g b
      using D(9)[of g b] that by (auto simp: same(3,4) split: if_splits)
  qed (use chain in blast)+
qed

lemma lock_inv_begin:
  assumes "lock_inv l" "may_start a l"
  shows "lock_inv (lock_start a l)"
proof -
  note D = lock_invD[OF assms(1)]
  have mine: "set xs \<subseteq> gl_settled l" if q: "gl_queue l g = xs @ a # ys" for g xs ys
  proof (cases "gl_prev l a")
    case None
    then show ?thesis using D(5)[OF q] by blast
  next
    case (Some p)
    then have p: "xs \<noteq> []" "last xs = p" "p \<in> gl_settled l"
      using D(6)[OF q] assms(2) unfolding may_start_def by auto
    then have "gl_queue l g = butlast xs @ p # (a # ys)" using q by (metis append.assoc append_Cons append_Nil append_butlast_last_id)
    then have "set (butlast xs) \<subseteq> gl_settled l" using D(1,7) p(3) by blast
    then show ?thesis using p set_snoc_subset by metis
  qed
  have "set xs \<subseteq> gl_settled l" if "gl_queue l g = xs @ b # ys" "b \<in> insert a (gl_started l)" for g xs b ys
    using that mine D(7) by blast
  then have "set xs \<subseteq> gl_settled (lock_start a l)" if "gl_queue (lock_start a l) g = xs @ b # ys" "b \<in> gl_started (lock_start a l)"
    for g xs b ys using that by (simp add: lock_start_def)
  moreover have "gl_settled (lock_start a l) \<subseteq> gl_started (lock_start a l)" using D(1) by (auto simp: lock_start_def)
  moreover have "b \<in> set (gl_queue (lock_start a l) (act_game b))" if "b \<in> gl_started (lock_start a l)" for b
    using that D(2)[of b] assms(2) by (auto simp: lock_start_def may_start_def)
  ultimately show ?thesis
    by (intro lock_invI) (use D(3-6,8,9) in \<open>simp add: lock_start_def\<close>)+
qed

lemma lock_inv_settle:
  assumes "lock_inv l" "a \<in> gl_started l"
  shows "lock_inv (lock_settle a l)"
  using assms lock_invD[OF assms(1)] unfolding lock_inv_def lock_settle_def by (simp add: subset_insertI2)

lemma lock_inv_cleanup:
  assumes "lock_inv l" "a \<in> gl_settled l"
  shows "lock_inv (lock_cleanup a l)"
proof (cases "gl_tail l (act_game a) = Some a")
  case True
  note D = lock_invD[OF assms(1)]
  have last: "gl_queue l (act_game a) \<noteq> []" "last (gl_queue l (act_game a)) = a" using D(9)[OF True] by blast+
  then have "gl_queue l (act_game a) = butlast (gl_queue l (act_game a)) @ a # []" by (metis append_butlast_last_id)
  then have "set (butlast (gl_queue l (act_game a))) \<subseteq> gl_settled l" using D(1,7) assms(2) by blast
  then have "set (gl_queue l (act_game a)) \<subseteq> gl_settled l" using last assms(2) set_snoc_subset by metis
  then show ?thesis using assms(1) True unfolding lock_inv_def lock_cleanup_def by simp
qed (use assms in \<open>simp add: lock_cleanup_def\<close>)

lemma lock_run_inv: "lock_run l \<Longrightarrow> lock_inv l"
  by (induction rule: lock_run.induct)
     (blast intro: lock_inv_start lock_inv_enter lock_inv_begin lock_inv_settle lock_inv_cleanup)+

section \<open>Properties\<close>

text \<open>C20. The lock of a game works. After any sequence of calls, starts, ends (with or without an error) and
  clean-ups: no two actions of one game are under way at once; an action starts only when every action of its
  game called before it has ended; and no action waits for nothing, the first one not started may start as
  soon as those before it have ended.\<close>
theorem game_lock_exclusive:
  assumes "lock_run l" "gl_queue l g = xs @ a # ys"
  shows "(a \<in> gl_started l \<longrightarrow> set xs \<subseteq> gl_settled l) \<and> (a \<notin> gl_started l \<and> set xs \<subseteq> gl_settled l \<longrightarrow> may_start a l) \<and>
    (a \<in> gl_started l - gl_settled l \<longrightarrow> {b \<in> gl_started l - gl_settled l. act_game b = g} = {a})"
proof -
  note D = lock_invD[OF lock_run_inv[OF assms(1)]]
  have game: "act_game a = g" using D(4)[of a g] assms(2) by simp
  have start: "may_start a l" if "a \<notin> gl_started l" "set xs \<subseteq> gl_settled l"
    using that D(6)[OF assms(2)] assms(2) game last_in_set[of xs] by (auto simp: may_start_def split: option.split)
  have only: "b = a" if a: "a \<in> gl_started l" "a \<notin> gl_settled l" and b: "b \<in> gl_started l" "b \<notin> gl_settled l" "act_game b = g" for b
  proof (rule ccontr)
    assume "b \<noteq> a"
    then have "b \<in> set xs \<or> b \<in> set ys" using D(2)[OF b(1)] b(3) assms(2) by auto
    then show False
    proof
      assume "b \<in> set xs"
      then show False using D(7)[OF assms(2) a(1)] b(2) by blast
    next
      assume "b \<in> set ys"
      then obtain us vs where "ys = us @ b # vs" by (meson split_list)
      then have "gl_queue l g = (xs @ a # us) @ b # vs" using assms(2) by simp
      from D(7)[OF this b(1)] have "a \<in> gl_settled l" by simp
      then show False using a(2) by simp
    qed
  qed
  then show ?thesis using D(7)[OF assms(2)] start game by blast
qed

definition first_call :: lock_action where "first_call = LockAction ''g1'' 0"
definition second_call :: lock_action where "second_call = LockAction ''g1'' 1"

definition two_calls :: lock_state where
  "two_calls = lock_start first_call (lock_enter second_call (lock_enter first_call no_locks))"

lemma two_calls_run: "lock_run two_calls"
  unfolding two_calls_def
  by (intro lr_begin lr_enter lr_start)
     (simp_all add: no_locks_def lock_enter_def may_start_def first_call_def second_call_def)

theorem game_lock_exclusive_witness:
  "second_call \<notin> gl_started two_calls \<and> {b \<in> gl_started two_calls - gl_settled two_calls. act_game b = ''g1''} = {first_call}"
proof -
  have "gl_queue two_calls ''g1'' = [] @ first_call # [second_call]" "first_call \<in> gl_started two_calls"
    "first_call \<notin> gl_settled two_calls"
    by (simp_all add: two_calls_def lock_start_def lock_enter_def no_locks_def first_call_def second_call_def)
  then show ?thesis using game_lock_exclusive[OF two_calls_run, of "''g1''" "[]" first_call "[second_call]"]
    by (auto simp: two_calls_def lock_start_def lock_enter_def no_locks_def first_call_def second_call_def)
qed

text \<open>What can happen to a ledger: a decision other than a retry is appended, or a retry is requested.\<close>

datatype 'e review_event =
    Decided "'e ledger_entry"
  | RetryAsked "string option" string "(string \<times> js_val) list option" string

fun review_step :: "('s, 'e) ledger_ops \<Rightarrow> (string \<Rightarrow> js_val option) \<Rightarrow> string option \<Rightarrow> 'e review_event \<Rightarrow> 's \<Rightarrow> 's" where
  "review_step ops verify addresses (Decided d) s = snd (lo_append ops d s)"
| "review_step ops verify addresses (RetryAsked header gameId body now) s =
    snd (post_retry ops verify addresses header gameId body now s)"

context evidence_ledger
begin

lemma post_retry_answered:
  assumes "inv s" "answered (map le_state (lo_history ops g s))"
  shows "inv (snd (post_retry ops verify addresses header gameId body now s)) \<and>
    answered (map le_state (lo_history ops g (snd (post_retry ops verify addresses header gameId body now s))))"
proof -
  have "inv s' \<and> answered (map le_state (lo_history ops g s'))" if "request_retry ops gameId r a now s = (x, s')" for r a x s'
    using retry_answered[OF assms(1) that assms(2)] .
  then show ?thesis using assms
    by (auto simp: post_retry_def split: sum.split option.split prod.split)
qed

lemma review_answered:
  assumes "inv s" "answered (map le_state (lo_history ops g s))"
    and "\<forall>d. Decided d \<in> set evs \<longrightarrow> le_state d \<noteq> RetryRequested"
  shows "answered (map le_state (lo_history ops g (fold (review_step ops verify addresses) evs s)))"
  using assms
proof (induction evs arbitrary: s)
  case (Cons ev evs)
  have "inv (review_step ops verify addresses ev s) \<and> answered (map le_state (lo_history ops g (review_step ops verify addresses ev s)))"
  proof (cases ev)
    case (Decided d)
    then show ?thesis using decision_answered[OF Cons.prems(1) _ _ Cons.prems(2), of d] Cons.prems(3)
      by (cases "lo_append ops d s") auto
  next
    case (RetryAsked h gid body now)
    then show ?thesis using post_retry_answered[OF Cons.prems(1,2)] by simp
  qed
  then show ?case using Cons.IH Cons.prems(3) by simp
qed simp

end

text \<open>A retry only ever answers a decision that asks for a review, and answers it once: in the ledger of a
  game, whatever is decided and whoever asks for retries, with the memory store as with SQLite, every retry
  stands right after a decision in the state \<open>review_required\<close>.\<close>
lemma review_retry_once:
  assumes "\<forall>d. Decided d \<in> set evs \<longrightarrow> le_state d \<noteq> RetryRequested"
  shows "answered (map le_state (sl_history g (fold (review_step sqlite_ledger verify addresses) evs empty_ledger))) \<and>
    answered (map le_state (ml_history g (fold (review_step memory_ledger verify addresses) evs [])))"
  using sql_ledger.review_answered[where s = empty_ledger and g = g and evs = evs]
    mem_ledger.review_answered[where s = "[]" and g = g and evs = evs] assms
  by (simp add: sl_ok_def empty_ledger_def sl_history_def ml_history_def answered_def)

definition review_needed :: "nat ledger_entry" where
  "review_needed = \<lparr>le_id = 0, le_matchId = 4, le_gameId = ''g1'', le_state = ReviewRequired, le_reason = ''ambiguous'',
     le_evidence = None, le_recordedAt = ''t0'', le_operator = None\<rparr>"

lemma review_retry_once_example:
  "answered (map le_state (ml_history ''g1'' (fold (review_step memory_ledger (\<lambda>_. Some (JStr ''GA'')) (Some ''GA, GB''))
     [Decided review_needed, RetryAsked (Some ''Bearer x'') ''g1'' (Some [(''reason'', JStr ''again'')]) ''t1'',
      RetryAsked (Some ''Bearer x'') ''g1'' (Some [(''reason'', JStr ''again'')]) ''t2''] [])))"
  using review_retry_once[of "[Decided review_needed, RetryAsked (Some ''Bearer x'') ''g1'' (Some [(''reason'', JStr ''again'')]) ''t1'',
      RetryAsked (Some ''Bearer x'') ''g1'' (Some [(''reason'', JStr ''again'')]) ''t2'']" "''g1''" "\<lambda>_. Some (JStr ''GA'')" "Some ''GA, GB''"]
  by (simp add: review_needed_def)

text \<open>The example is no empty case: the first request is accepted, the second is refused.\<close>

lemma review_retry_example:
  "map le_state (ml_history ''g1'' (fold (review_step memory_ledger (\<lambda>_. Some (JStr ''GA'')) (Some ''GA, GB''))
     [Decided review_needed, RetryAsked (Some ''Bearer x'') ''g1'' (Some [(''reason'', JStr ''again'')]) ''t1'',
      RetryAsked (Some ''Bearer x'') ''g1'' (Some [(''reason'', JStr ''again'')]) ''t2''] [])) =
   [ReviewRequired, RetryRequested]"
  by code_simp

text \<open>In the service as it is, no retry can ever be asked for. The routes are the only code that appends to
  the ledger: from the empty ledger, whoever asks for whatever retries, it stays empty, no request is ever
  accepted, and the history of every game is answered 404.\<close>
lemma review_never_reached:
  "fold (review_step sqlite_ledger verify addresses) (map (\<lambda>(h, gid, body, now). RetryAsked h gid body now) reqs) (empty_ledger :: 'e sql_ledger) = empty_ledger \<and>
   fst (post_retry sqlite_ledger verify addresses header gameId body now (empty_ledger :: 'e sql_ledger)) \<noteq> 200 \<and>
   get_history sqlite_ledger gameId (empty_ledger :: 'e sql_ledger) = (404, [])"
proof -
  have none: "snd (post_retry sqlite_ledger verify addresses h gid b t (empty_ledger :: 'e sql_ledger)) = empty_ledger \<and>
      fst (post_retry sqlite_ledger verify addresses h gid b t (empty_ledger :: 'e sql_ledger)) \<noteq> 200" for h gid b t
    by (auto simp: post_retry_def request_retry_def review_gate_def sl_history_def empty_ledger_def
        split: option.split sum.split)
  have "fold (review_step sqlite_ledger verify addresses) (map (\<lambda>(h, gid, body, now). RetryAsked h gid body now) reqs) (empty_ledger :: 'e sql_ledger) = empty_ledger"
  proof (induction reqs)
    case (Cons q reqs)
    then show ?case using none by (cases q) simp
  qed simp
  moreover have "get_history sqlite_ledger gameId (empty_ledger :: 'e sql_ledger) = (404, [])"
    by (simp add: get_history_def sl_history_def empty_ledger_def)
  ultimately show ?thesis using none by blast
qed

lemma review_gate_authorised:
  "review_gate verify addresses header = Inr a \<Longrightarrow>
    a \<noteq> [] \<and> a \<in> set (operators addresses) \<and> (\<exists>token. header = Some (''Bearer '' @ token) \<and> verify token = Some (JStr a))"
proof -
  assume g: "review_gate verify addresses header = Inr a"
  then have a: "authenticate verify header = Some a" "a \<noteq> []" "a \<in> set (operators addresses)"
    by (auto simp: review_gate_def split: option.splits if_splits)
  then obtain auth where h: "header = Some auth" "take 7 auth = ''Bearer ''" "verify (drop 7 auth) = Some (JStr a)"
    by (auto simp: authenticate_def split: option.splits if_splits js_val.splits)
  then have "auth = ''Bearer '' @ drop 7 auth" by (metis append_take_drop_id)
  then show ?thesis using a h by metis
qed

end
