(* ===== verification/Tracing.thy ===== *)
theory Tracing
  imports Prelude
begin

text \<open>
  Trace propagation (\<open>tracing/trace-context.ts\<close>, \<open>middleware/trace-context.ts\<close>): the \<open>traceparent\<close> and
  \<open>tracestate\<close> headers, the form stored with queued work and its resumption. Random identifiers are the
  draws of a generator, given as a list; the context a request runs in is an argument.
\<close>

record trace_context =
  tc_traceId :: string
  tc_spanId :: string
  tc_parentSpanId :: "string option"
  tc_flags :: string
  tc_traceState :: "string option"

record persisted_trace =
  pt_traceparent :: string
  pt_tracestate :: "string option"

section \<open>Character classes\<close>

definition char_in :: "nat \<Rightarrow> nat \<Rightarrow> char \<Rightarrow> bool" where
  "char_in lo hi c = (lo \<le> (of_char c :: nat) \<and> (of_char c :: nat) \<le> hi)"

definition is_digit_char :: "char \<Rightarrow> bool" where "is_digit_char = char_in 48 57"
definition is_lower :: "char \<Rightarrow> bool" where "is_lower = char_in 97 122"
definition is_upper :: "char \<Rightarrow> bool" where "is_upper = char_in 65 90"

definition hex_char :: "char \<Rightarrow> bool" where
  "hex_char c = (is_digit_char c \<or> char_in 97 102 c)"

definition base32_char :: "char \<Rightarrow> bool" where
  "base32_char c = (is_upper c \<or> char_in 50 55 c)"

definition word_char :: "char \<Rightarrow> bool" where
  "word_char c = (is_lower c \<or> is_upper c \<or> is_digit_char c \<or> c = CHR ''_'' \<or> c = CHR ''-'')"

section \<open>traceparent\<close>

definition ZERO_TRACE_ID :: string where "ZERO_TRACE_ID = replicate 32 (CHR ''0'')"
definition ZERO_SPAN_ID :: string where "ZERO_SPAN_ID = replicate 16 (CHR ''0'')"

text \<open>\<open>TRACEPARENT_RE\<close>: the version, the two ids and the flags of a text of the right form.\<close>

definition traceparent_match :: "string \<Rightarrow> (string \<times> string \<times> string \<times> string) option" where
  "traceparent_match s =
    (let version = take 2 s; traceId = take 32 (drop 3 s); spanId = take 16 (drop 36 s); flags = drop 53 s in
     if length s = 55 \<and> list_all hex_char (version @ traceId @ spanId @ flags) \<and>
        s ! 2 = CHR ''-'' \<and> s ! 35 = CHR ''-'' \<and> s ! 52 = CHR ''-''
     then Some (version, traceId, spanId, flags) else None)"

definition parseTraceparent :: "string option \<Rightarrow> (string \<times> string \<times> string) option" where
  "parseTraceparent header =
    (case header of
       None \<Rightarrow> None
     | Some h \<Rightarrow>
        (case traceparent_match (js_lower (js_trim h)) of
           None \<Rightarrow> None
         | Some (version, traceId, spanId, flags) \<Rightarrow>
            if version = ''ff'' \<or> traceId = ZERO_TRACE_ID \<or> spanId = ZERO_SPAN_ID then None
            else Some (traceId, spanId, flags)))"

definition formatTraceparent :: "string \<Rightarrow> string \<Rightarrow> string \<Rightarrow> string" where
  "formatTraceparent traceId spanId flags = ''00-'' @ traceId @ ''-'' @ spanId @ ''-'' @ flags"

section \<open>tracestate\<close>

definition MAX_TRACESTATE_MEMBERS :: nat where "MAX_TRACESTATE_MEMBERS = 32"
definition MAX_TRACESTATE_LENGTH :: nat where "MAX_TRACESTATE_LENGTH = 512"

definition key_char :: "char \<Rightarrow> bool" where
  "key_char c = (is_lower c \<or> is_digit_char c \<or> c \<in> set ''_-*/'')"

definition simple_key :: "nat \<Rightarrow> (char \<Rightarrow> bool) \<Rightarrow> string \<Rightarrow> bool" where
  "simple_key n first k = (case k of [] \<Rightarrow> False | c # cs \<Rightarrow> first c \<and> length cs \<le> n \<and> list_all key_char cs)"

text \<open>\<open>TRACESTATE_KEY_RE\<close>: a simple key, or a tenant and a vendor.\<close>

definition tracestate_key :: "string \<Rightarrow> bool" where
  "tracestate_key k =
    (simple_key 255 is_lower k \<or>
     (let tenant = takeWhile (\<lambda>c. c \<noteq> CHR ''@'') k; rest = dropWhile (\<lambda>c. c \<noteq> CHR ''@'') k in
      rest \<noteq> [] \<and> simple_key 240 (\<lambda>c. is_lower c \<or> is_digit_char c) tenant \<and> simple_key 13 is_lower (tl rest)))"

definition value_char :: "char \<Rightarrow> bool" where
  "value_char c = (char_in 32 43 c \<or> char_in 45 60 c \<or> char_in 62 126 c)"

definition tracestate_value :: "string \<Rightarrow> bool" where
  "tracestate_value v = (v \<noteq> [] \<and> length v \<le> 256 \<and> list_all value_char v \<and> last v \<noteq> CHR '' '')"

text \<open>\<open>SECRET_VALUE_PATTERNS\<close>, each looked for at every place of a text.\<close>

definition seed_here :: "string \<Rightarrow> bool" where
  "seed_here s = (take 1 s = ''S'' \<and> 56 \<le> length s \<and> list_all base32_char (take 55 (drop 1 s)))"

definition jwt_here :: "string \<Rightarrow> bool" where
  "jwt_here s =
    (let a = drop 3 s; r1 = dropWhile word_char a; b = drop 1 r1; r2 = dropWhile word_char b; c = drop 1 r2 in
     take 3 s = ''eyJ'' \<and> takeWhile word_char a \<noteq> [] \<and> take 1 r1 = ''.'' \<and>
     takeWhile word_char b \<noteq> [] \<and> take 1 r2 = ''.'' \<and> takeWhile word_char c \<noteq> [])"

definition lichess_token_here :: "string \<Rightarrow> bool" where
  "lichess_token_here s =
    (take 4 s \<in> {''lio_'', ''lip_''} \<and>
     8 \<le> length (takeWhile (\<lambda>c. is_lower c \<or> is_upper c \<or> is_digit_char c) (drop 4 s)))"

fun anywhere :: "(string \<Rightarrow> bool) \<Rightarrow> string \<Rightarrow> bool" where
  "anywhere p [] = p []"
| "anywhere p (c # s) = (p (c # s) \<or> anywhere p s)"

definition secret_value :: "string \<Rightarrow> bool" where
  "secret_value v = (anywhere seed_here v \<or> anywhere jwt_here v \<or> anywhere lichess_token_here v)"

definition SECRET_KEY_WORDS :: "string list" where
  "SECRET_KEY_WORDS = [''secret'', ''token'', ''password'', ''passwd'', ''auth'', ''apikey'', ''api_key'', ''api-key'',
     ''private'', ''seed'', ''session'', ''cookie'', ''bearer'']"

definition secret_key :: "string \<Rightarrow> bool" where
  "secret_key k = list_ex (js_includes (js_lower k)) SECRET_KEY_WORDS"

definition member_key :: "string \<Rightarrow> string" where
  "member_key m = takeWhile (\<lambda>c. c \<noteq> CHR ''='') m"

definition member_value :: "string \<Rightarrow> string" where
  "member_value m = drop 1 (dropWhile (\<lambda>c. c \<noteq> CHR ''='') m)"

text \<open>The tests of one member: \<open>eq <= 0\<close>, the two forms, and the secrets.\<close>

definition member_ok :: "string \<Rightarrow> bool" where
  "member_ok m = (CHR ''='' \<in> set m \<and> member_key m \<noteq> [] \<and> tracestate_key (member_key m) \<and>
     tracestate_value (member_value m) \<and> \<not> secret_key (member_key m) \<and> \<not> secret_value (member_value m))"

fun keep_members :: "string list \<Rightarrow> string list \<Rightarrow> string list" where
  "keep_members kept [] = kept"
| "keep_members kept (raw # raws) =
    (let m = js_trim raw in
     if m = [] \<or> \<not> member_ok m \<or> member_key m \<in> set (map member_key kept) then keep_members kept raws
     else if length kept + 1 = MAX_TRACESTATE_MEMBERS then kept @ [m]
     else keep_members (kept @ [m]) raws)"

fun join_comma :: "string list \<Rightarrow> string" where
  "join_comma [] = []"
| "join_comma [m] = m"
| "join_comma (m # ms) = m @ '','' @ join_comma ms"

function shorten :: "string list \<Rightarrow> string list" where
  "shorten kept = (if MAX_TRACESTATE_LENGTH < length (join_comma kept) \<and> kept \<noteq> [] then shorten (butlast kept) else kept)"
  by auto
termination by (relation "measure length") auto

declare shorten.simps [simp del]

definition sanitizeTraceState :: "string option \<Rightarrow> string option" where
  "sanitizeTraceState header =
    (case header of
       None \<Rightarrow> None
     | Some [] \<Rightarrow> None
     | Some h \<Rightarrow>
        (case join_comma (shorten (keep_members [] (js_split (CHR '','') h))) of
           [] \<Rightarrow> None
         | joined \<Rightarrow> Some joined))"

section \<open>Contexts\<close>

text \<open>\<open>None\<close> when the draws run out.\<close>

definition randomHex :: "string \<Rightarrow> string list \<Rightarrow> string option" where
  "randomHex zero draws = find (\<lambda>hex. hex \<noteq> zero) draws"

definition newTraceContext :: "string \<Rightarrow> string \<Rightarrow> trace_context" where
  "newTraceContext traceId spanId =
    \<lparr>tc_traceId = traceId, tc_spanId = spanId, tc_parentSpanId = None, tc_flags = ''01'', tc_traceState = None\<rparr>"

definition childContext :: "string \<Rightarrow> trace_context \<Rightarrow> trace_context" where
  "childContext spanId parent =
    \<lparr>tc_traceId = tc_traceId parent, tc_spanId = spanId, tc_parentSpanId = Some (tc_spanId parent),
     tc_flags = tc_flags parent, tc_traceState = tc_traceState parent\<rparr>"

definition contextFromHeaders :: "string \<Rightarrow> string \<Rightarrow> string option \<Rightarrow> string option \<Rightarrow> trace_context" where
  "contextFromHeaders newTrace newSpan traceparent tracestate =
    (case parseTraceparent traceparent of
       None \<Rightarrow> newTraceContext newTrace newSpan
     | Some (traceId, spanId, flags) \<Rightarrow>
        childContext newSpan \<lparr>tc_traceId = traceId, tc_spanId = spanId, tc_parentSpanId = None, tc_flags = flags,
          tc_traceState = sanitizeTraceState tracestate\<rparr>)"

definition persistTraceContext :: "trace_context \<Rightarrow> persisted_trace" where
  "persistTraceContext ctx =
    \<lparr>pt_traceparent = formatTraceparent (tc_traceId ctx) (tc_spanId ctx) (tc_flags ctx),
     pt_tracestate = sanitizeTraceState (tc_traceState ctx)\<rparr>"

definition resumeTraceContext :: "string \<Rightarrow> string \<Rightarrow> persisted_trace option \<Rightarrow> trace_context" where
  "resumeTraceContext newTrace newSpan persisted =
    (case persisted of
       None \<Rightarrow> newTraceContext newTrace newSpan
     | Some p \<Rightarrow> contextFromHeaders newTrace newSpan (Some (pt_traceparent p)) (pt_tracestate p))"

definition traceHeaders :: "trace_context \<Rightarrow> (string \<times> string) list" where
  "traceHeaders ctx =
    (''traceparent'', formatTraceparent (tc_traceId ctx) (tc_spanId ctx) (tc_flags ctx)) #
    (case sanitizeTraceState (tc_traceState ctx) of None \<Rightarrow> [] | Some state \<Rightarrow> [(''tracestate'', state)])"

definition traceLogFields :: "trace_context \<Rightarrow> (string \<times> string) list" where
  "traceLogFields ctx =
    [(''trace_id'', tc_traceId ctx), (''span_id'', tc_spanId ctx)] @
    (case tc_parentSpanId ctx of None \<Rightarrow> [] | Some [] \<Rightarrow> [] | Some p \<Rightarrow> [(''parent_span_id'', p)])"

text \<open>The middleware: the response header and the context the request runs in.\<close>

definition trace_middleware :: "string \<Rightarrow> string \<Rightarrow> string option \<Rightarrow> string option \<Rightarrow> string \<times> trace_context" where
  "trace_middleware newTrace newSpan traceparent tracestate =
    (let ctx = contextFromHeaders newTrace newSpan traceparent tracestate
     in (formatTraceparent (tc_traceId ctx) (tc_spanId ctx) (tc_flags ctx), ctx))"

section \<open>Valid contexts\<close>

definition hex_text :: "nat \<Rightarrow> string \<Rightarrow> bool" where
  "hex_text n s \<longleftrightarrow> length s = n \<and> list_all hex_char s"

definition trace_ok :: "trace_context \<Rightarrow> bool" where
  "trace_ok ctx \<longleftrightarrow> hex_text 32 (tc_traceId ctx) \<and> tc_traceId ctx \<noteq> ZERO_TRACE_ID \<and>
    hex_text 16 (tc_spanId ctx) \<and> tc_spanId ctx \<noteq> ZERO_SPAN_ID \<and> hex_text 2 (tc_flags ctx)"

lemma hex_not_upper: "hex_char c \<Longrightarrow> lower_char c = c \<and> \<not> js_ws c"
  by (auto simp: hex_char_def is_digit_char_def char_in_def lower_char_def js_ws_def Let_def)

lemma js_lower_id: "\<forall>c \<in> set s. lower_char c = c \<Longrightarrow> js_lower s = s"
  by (simp add: js_lower_def map_idI)

lemma js_trim_id: "s \<noteq> [] \<Longrightarrow> \<not> js_ws (hd s) \<Longrightarrow> \<not> js_ws (last s) \<Longrightarrow> js_trim s = s"
proof -
  assume s: "s \<noteq> []" "\<not> js_ws (hd s)" "\<not> js_ws (last s)"
  then have "dropWhile js_ws s = s" by (cases s) auto
  moreover have "dropWhile js_ws (rev s) = rev s" using s by (cases s rule: rev_cases) auto
  ultimately show ?thesis by (simp add: js_trim_def)
qed

lemma format_parse:
  assumes "hex_text 32 t" "hex_text 16 s" "hex_text 2 f" "t \<noteq> ZERO_TRACE_ID" "s \<noteq> ZERO_SPAN_ID"
  shows "parseTraceparent (Some (formatTraceparent t s f)) = Some (t, s, f)"
proof -
  let ?h = "formatTraceparent t s f"
  have len: "length t = 32" "length s = 16" "length f = 2" using assms by (simp_all add: hex_text_def)
  have hex: "\<forall>c \<in> set t \<union> set s \<union> set f. hex_char c" using assms by (auto simp: hex_text_def list_all_iff)
  have dash: "lower_char (CHR ''-'') = CHR ''-''" "lower_char (CHR ''0'') = CHR ''0''" "\<not> js_ws (CHR ''0'')" by code_simp+
  have "\<forall>c \<in> set ?h. lower_char c = c" using hex hex_not_upper dash by (auto simp: formatTraceparent_def)
  moreover have "js_trim ?h = ?h"
  proof (rule js_trim_id)
    have "last ?h = last f" using len by (auto simp: formatTraceparent_def)
    moreover have "last f \<in> set f" using len by (intro last_in_set) auto
    ultimately show "\<not> js_ws (last ?h)" using hex hex_not_upper by auto
  qed (use dash in \<open>simp_all add: formatTraceparent_def\<close>)
  ultimately have norm: "js_lower (js_trim ?h) = ?h" using js_lower_id by simp
  have parts: "length ?h = 55" "take 2 ?h = ''00''" "take 32 (drop 3 ?h) = t" "take 16 (drop 36 ?h) = s" "drop 53 ?h = f"
    "?h ! 2 = CHR ''-''" "?h ! 35 = CHR ''-''" "?h ! 52 = CHR ''-''"
    using len by (simp_all add: formatTraceparent_def nth_append)
  have "hex_char (CHR ''0'')" by code_simp
  then have "traceparent_match ?h = Some (''00'', t, s, f)"
    using hex by (simp add: traceparent_match_def parts Let_def list_all_iff)
  then show ?thesis using assms(4,5) by (simp add: parseTraceparent_def norm)
qed

lemma parse_valid:
  "parseTraceparent header = Some (t, s, f) \<Longrightarrow>
    hex_text 32 t \<and> hex_text 16 s \<and> hex_text 2 f \<and> t \<noteq> ZERO_TRACE_ID \<and> s \<noteq> ZERO_SPAN_ID"
  by (auto simp: parseTraceparent_def traceparent_match_def hex_text_def Let_def split: option.splits if_splits)

section \<open>What a tracestate keeps\<close>

text \<open>The members a sanitised state is made of.\<close>

definition members_ok :: "string list \<Rightarrow> bool" where
  "members_ok ms \<longleftrightarrow> length ms \<le> MAX_TRACESTATE_MEMBERS \<and> distinct (map member_key ms) \<and>
    (\<forall>m \<in> set ms. member_ok m \<and> js_trim m = m \<and> CHR '','' \<notin> set m)"

lemma js_split_no_sep: "w \<in> set (js_split c s) \<Longrightarrow> c \<notin> set w"
  by (induction s arbitrary: w) (fastforce split: if_splits list.splits)+

lemma set_js_trim: "set (js_trim s) \<subseteq> set s"
  by (auto simp: js_trim_def dest!: set_dropWhileD)

lemma keep_members_ok:
  "members_ok kept \<Longrightarrow> length kept < MAX_TRACESTATE_MEMBERS \<Longrightarrow> \<forall>r \<in> set raws. CHR '','' \<notin> set r \<Longrightarrow> members_ok (keep_members kept raws)"
proof (induction kept raws rule: keep_members.induct)
  case (2 kept raw raws)
  define m where "m = js_trim raw"
  have m: "js_trim m = m" "CHR '','' \<notin> set m" using "2.prems"(3) set_js_trim[of raw] by (auto simp: m_def)
  show ?case
  proof (cases "m = [] \<or> \<not> member_ok m \<or> member_key m \<in> set (map member_key kept)")
    case True
    then show ?thesis using "2.IH"(1)[OF m_def True] "2.prems" by (simp add: m_def Let_def)
  next
    case False
    then have ok: "members_ok (kept @ [m])" using "2.prems"(1,2) m by (auto simp: members_ok_def)
    show ?thesis
    proof (cases "length kept + 1 = MAX_TRACESTATE_MEMBERS")
      case True
      then have "keep_members kept (raw # raws) = kept @ [m]" using False unfolding m_def by (simp add: Let_def)
      then show ?thesis using ok by simp
    next
      case last: False
      then have "keep_members kept (raw # raws) = keep_members (kept @ [m]) raws" using False unfolding m_def by (simp add: Let_def)
      then show ?thesis using "2.IH"(2)[OF m_def False last] "2.prems" ok last by (simp add: Let_def)
    qed
  qed
qed simp

lemma keep_members_id:
  "members_ok (kept @ ms) \<Longrightarrow> keep_members kept ms = kept @ ms"
proof (induction ms arbitrary: kept)
  case (Cons m ms)
  have m: "js_trim m = m" "member_ok m" "member_key m \<notin> set (map member_key kept)"
    using Cons.prems by (auto simp: members_ok_def)
  then have "m \<noteq> []" by (auto simp: member_ok_def)
  moreover have "keep_members (kept @ [m]) ms = kept @ m # ms" using Cons.IH[of "kept @ [m]"] Cons.prems by simp
  moreover have "ms = []" if "length kept + 1 = MAX_TRACESTATE_MEMBERS"
    using Cons.prems that by (cases ms) (auto simp: members_ok_def)
  ultimately show ?case using m by (auto simp: Let_def)
qed simp

lemma members_ok_prefix: "members_ok (xs @ ys) \<Longrightarrow> members_ok xs"
  by (auto simp: members_ok_def)

lemma shorten_ok: "members_ok ms \<Longrightarrow> members_ok (shorten ms) \<and> length (join_comma (shorten ms)) \<le> MAX_TRACESTATE_LENGTH"
proof (induction ms rule: shorten.induct)
  case (1 kept)
  show ?case
  proof (cases "MAX_TRACESTATE_LENGTH < length (join_comma kept) \<and> kept \<noteq> []")
    case True
    then have "members_ok (butlast kept)" using "1.prems" members_ok_prefix by (metis append_butlast_last_id)
    then show ?thesis using "1.IH" True by (subst (1 2) shorten.simps) simp
  next
    case False
    then have "shorten kept = kept" by (subst shorten.simps) auto
    then show ?thesis using False "1.prems" by (cases kept) auto
  qed
qed

lemma join_comma_Nil: "\<forall>m \<in> set ms. m \<noteq> [] \<Longrightarrow> join_comma ms = [] \<longleftrightarrow> ms = []"
  by (induction ms rule: join_comma.induct) auto

lemma js_split_piece: "c \<notin> set w \<Longrightarrow> js_split c (w @ c # s) = w # js_split c s"
  by (induction w) auto

lemma js_split_one: "c \<notin> set w \<Longrightarrow> js_split c w = [w]"
  by (induction w) auto

lemma split_join: "ms \<noteq> [] \<Longrightarrow> \<forall>m \<in> set ms. CHR '','' \<notin> set m \<Longrightarrow> js_split (CHR '','') (join_comma ms) = ms"
  by (induction ms rule: join_comma.induct) (auto simp: js_split_one js_split_piece)

text \<open>A sanitised state is the text of such members, and every text of such members is left alone.\<close>

lemma sanitize_members:
  assumes "sanitizeTraceState h = Some state"
  obtains ms where "ms \<noteq> []" "members_ok ms" "state = join_comma ms" "length state \<le> MAX_TRACESTATE_LENGTH"
proof -
  obtain raw where raw: "h = Some raw" "state = join_comma (shorten (keep_members [] (js_split (CHR '','') raw)))" "state \<noteq> []"
    using assms by (auto simp: sanitizeTraceState_def split: option.splits list.splits)
  have "members_ok (keep_members [] (js_split (CHR '','') raw))"
    using js_split_no_sep[of _ "CHR '',''" raw] by (intro keep_members_ok) (auto simp: members_ok_def MAX_TRACESTATE_MEMBERS_def)
  note ok = shorten_ok[OF this]
  show ?thesis
  proof (rule that[OF _ ok[THEN conjunct1] raw(2)])
    show "shorten (keep_members [] (js_split (CHR '','') raw)) \<noteq> []" using raw(2,3) by auto
    show "length state \<le> MAX_TRACESTATE_LENGTH" using ok raw(2) by simp
  qed
qed

lemma sanitize_id:
  assumes "ms \<noteq> []" "members_ok ms" "length (join_comma ms) \<le> MAX_TRACESTATE_LENGTH"
  shows "sanitizeTraceState (Some (join_comma ms)) = Some (join_comma ms)"
proof -
  have ne: "\<forall>m \<in> set ms. m \<noteq> []" using assms(2) by (auto simp: members_ok_def member_ok_def)
  then have "join_comma ms \<noteq> []" using assms(1) join_comma_Nil by blast
  moreover have "js_split (CHR '','') (join_comma ms) = ms"
    using assms by (intro split_join) (auto simp: members_ok_def)
  moreover have "keep_members [] ms = ms" using keep_members_id[of "[]" ms] assms(2) by simp
  moreover have "shorten ms = ms" using assms(3) by (subst shorten.simps) simp
  moreover obtain c cs where "join_comma ms = c # cs" using calculation(1) by (cases "join_comma ms") auto
  moreover have "sanitizeTraceState (Some (c # cs)) =
      (case join_comma (shorten (keep_members [] (js_split (CHR '','') (c # cs)))) of [] \<Rightarrow> None | joined \<Rightarrow> Some joined)"
    by (simp add: sanitizeTraceState_def del: js_split.simps)
  ultimately show ?thesis by (simp del: js_split.simps)
qed

lemma sanitize_idem: "sanitizeTraceState (sanitizeTraceState h) = sanitizeTraceState h"
proof (cases "sanitizeTraceState h")
  case (Some state)
  then obtain ms where "ms \<noteq> []" "members_ok ms" "state = join_comma ms" "length state \<le> MAX_TRACESTATE_LENGTH"
    by (rule sanitize_members)
  then show ?thesis using sanitize_id Some by simp
qed (simp add: sanitizeTraceState_def)

section \<open>Properties\<close>

text \<open>A trace survives the queue. A context written to a queue entry and resumed, however often and with
  whatever the generator draws, goes on under the same trace id and flags, as a child of the span it was
  queued under, with its sanitised state; the header it is sent with is read back as the same ids; and a
  resumed context is again one that can be stored. A stored value that cannot be read never fails: it gives
  a new trace.\<close>
lemma trace_survives_queue:
  assumes "trace_ok ctx" "hex_text 16 newSpan" "newSpan \<noteq> ZERO_SPAN_ID"
  shows "resumeTraceContext t newSpan (Some (persistTraceContext ctx)) =
      \<lparr>tc_traceId = tc_traceId ctx, tc_spanId = newSpan, tc_parentSpanId = Some (tc_spanId ctx), tc_flags = tc_flags ctx,
       tc_traceState = sanitizeTraceState (tc_traceState ctx)\<rparr> \<and>
    trace_ok (resumeTraceContext t newSpan (Some (persistTraceContext ctx))) \<and>
    parseTraceparent (Some (formatTraceparent (tc_traceId ctx) (tc_spanId ctx) (tc_flags ctx))) =
      Some (tc_traceId ctx, tc_spanId ctx, tc_flags ctx) \<and>
    (parseTraceparent (Some bad) = None \<longrightarrow>
       resumeTraceContext t newSpan (Some \<lparr>pt_traceparent = bad, pt_tracestate = st\<rparr>) = newTraceContext t newSpan)"
  using assms format_parse[of "tc_traceId ctx" "tc_spanId ctx" "tc_flags ctx"]
  by (simp add: trace_ok_def resumeTraceContext_def persistTraceContext_def contextFromHeaders_def childContext_def sanitize_idem)

definition ctx_ex :: trace_context where
  "ctx_ex = \<lparr>tc_traceId = ''4bf92f3577b34da6a3ce929d0e0e4736'', tc_spanId = ''00f067aa0ba902b7'', tc_parentSpanId = None,
     tc_flags = ''01'', tc_traceState = Some ''rojo=1, token=abc,congo=t61''\<rparr>"

lemma ctx_ex_ok: "trace_ok ctx_ex" "hex_text 16 ''53995c3f42cd8ad8''" "''53995c3f42cd8ad8'' \<noteq> ZERO_SPAN_ID"
  by code_simp+

lemma trace_survives_queue_example:
  "tc_traceId (resumeTraceContext [] ''53995c3f42cd8ad8'' (Some (persistTraceContext ctx_ex))) = ''4bf92f3577b34da6a3ce929d0e0e4736'' \<and>
   tc_parentSpanId (resumeTraceContext [] ''53995c3f42cd8ad8'' (Some (persistTraceContext ctx_ex))) = Some ''00f067aa0ba902b7''"
  using trace_survives_queue[OF ctx_ex_ok] by (simp add: ctx_ex_def)

text \<open>C21. No credential rides along in a trace, whatever a client sends: of the header, only well-formed members
  are kept, none whose key names a credential and none whose value contains a Stellar seed, a token of JWT
  shape or a Lichess token, at most 32 of them with distinct keys and 512 characters in all; and what is
  kept is what is sent on, since sanitising it again changes nothing.\<close>
theorem tracestate_carries_no_secret:
  assumes "sanitizeTraceState header = Some state"
  shows "length state \<le> 512 \<and> sanitizeTraceState (Some state) = Some state \<and>
    (\<exists>ms. state = join_comma ms \<and> js_split (CHR '','') state = ms \<and> length ms \<le> 32 \<and> distinct (map member_key ms) \<and>
      (\<forall>m \<in> set ms. tracestate_key (member_key m) \<and> tracestate_value (member_value m) \<and>
         \<not> secret_key (member_key m) \<and> \<not> secret_value (member_value m)))"
proof -
  obtain ms where ms: "ms \<noteq> []" "members_ok ms" "state = join_comma ms" "length state \<le> MAX_TRACESTATE_LENGTH"
    using assms by (rule sanitize_members)
  have "js_split (CHR '','') state = ms" using ms by (auto intro!: split_join simp: members_ok_def)
  moreover have "length ms \<le> 32 \<and> distinct (map member_key ms) \<and>
      (\<forall>m \<in> set ms. tracestate_key (member_key m) \<and> tracestate_value (member_value m) \<and>
         \<not> secret_key (member_key m) \<and> \<not> secret_value (member_value m))"
    using ms(2) by (auto simp: members_ok_def member_ok_def MAX_TRACESTATE_MEMBERS_def)
  ultimately show ?thesis using ms sanitize_id by (auto simp: MAX_TRACESTATE_LENGTH_def)
qed

theorem tracestate_carries_no_secret_witness:
  "sanitizeTraceState (Some ''rojo=1,congo=t61'') = Some ''rojo=1,congo=t61''"
proof -
  have "sanitizeTraceState (tc_traceState ctx_ex) = Some ''rojo=1,congo=t61''" by code_simp
  from tracestate_carries_no_secret[OF this] show ?thesis by blast
qed

lemma context_ok:
  "hex_text 32 t \<Longrightarrow> t \<noteq> ZERO_TRACE_ID \<Longrightarrow> hex_text 16 s \<Longrightarrow> s \<noteq> ZERO_SPAN_ID \<Longrightarrow> trace_ok (contextFromHeaders t s tp ts)"
proof -
  assume s: "hex_text 32 t" "t \<noteq> ZERO_TRACE_ID" "hex_text 16 s" "s \<noteq> ZERO_SPAN_ID"
  have "hex_text 2 ''01''" by code_simp
  then show ?thesis using s parse_valid[of tp]
    by (auto simp: contextFromHeaders_def newTraceContext_def childContext_def trace_ok_def split: option.split)
qed

lemma randomHex_nonzero: "randomHex zero draws = Some h \<Longrightarrow> h \<noteq> zero"
  by (auto simp: randomHex_def find_Some_iff)

end
