(* ===== verification/StorageOps.thy ===== *)
theory StorageOps
  imports Settings
begin

text \<open>
  Looking after the SQLite files: schema migrations (\<open>store/sqlite-migrations.ts\<close>), the names, the verification,
  the restore and the retention of backups (\<open>store/sqlite-backup.ts\<close>), and the capacity alarms
  (\<open>store/storage-capacity.ts\<close>). The file system and SQLite answer through arguments; ratios are exact
  rationals.
\<close>

section \<open>Migrations\<close>

record migration =
  mg_version :: nat
  mg_name :: string
  mg_statements :: "string list"

text \<open>A database: the rows of \<open>schema_version\<close> and the statements whose effect it has.\<close>

record schema_db =
  sd_versions :: "(nat \<times> string) list"
  sd_applied :: "string list"

definition schema_version :: "schema_db \<Rightarrow> nat" where
  "schema_version db = fold max (map fst (sd_versions db)) 0"

text \<open>One transaction: \<open>works v\<close> says whether every call of the migration to version \<open>v\<close> succeeds. The marker is
  a primary key. A failure leaves the database as it was.\<close>

definition run_migration :: "(nat \<Rightarrow> bool) \<Rightarrow> migration \<Rightarrow> schema_db \<Rightarrow> bool \<times> schema_db" where
  "run_migration works m db =
    (if \<not> works (mg_version m) \<or> mg_version m \<in> fst ` set (sd_versions db) then (False, db)
     else (True, \<lparr>sd_versions = sd_versions db @ [(mg_version m, mg_name m)], sd_applied = sd_applied db @ mg_statements m\<rparr>))"

fun run_migrations :: "(nat \<Rightarrow> bool) \<Rightarrow> nat \<Rightarrow> migration list \<Rightarrow> schema_db \<Rightarrow> bool \<times> schema_db" where
  "run_migrations works current [] db = (True, db)"
| "run_migrations works current (m # ms) db =
    (if mg_version m \<le> current then run_migrations works current ms db
     else (case run_migration works m db of
             (False, db1) \<Rightarrow> (False, db1)
           | (True, db1) \<Rightarrow> run_migrations works current ms db1))"

text \<open>The first component is whether the call returns; it throws when a migration fails and when the database is
  newer than every migration.\<close>

definition applySqliteMigrations :: "(nat \<Rightarrow> bool) \<Rightarrow> migration list \<Rightarrow> schema_db \<Rightarrow> bool \<times> schema_db" where
  "applySqliteMigrations works migrations db =
    (let ordered = sort_key mg_version migrations; current = schema_version db in
     if current > (if ordered = [] then 0 else mg_version (last ordered)) then (False, db)
     else run_migrations works current ordered db)"

section \<open>Backups\<close>

text \<open>\<open>base\<close> is the file name of the database without its extension; \<open>isoText\<close> is \<open>toISOString()\<close>.\<close>

definition digit_text :: "nat \<Rightarrow> string \<Rightarrow> bool" where
  "digit_text n s = (length s = n \<and> list_all (\<lambda>c. digit_val 10 c \<noteq> None) s)"

definition drop_millis :: "string \<Rightarrow> string" where
  "drop_millis isoText =
    (let n = length isoText - 5 in
     if 5 \<le> length isoText \<and> isoText ! n = CHR ''.'' \<and> digit_text 3 (take 3 (drop (n + 1) isoText)) \<and> last isoText = CHR ''Z''
     then take n isoText @ ''Z'' else isoText)"

definition backupFileName :: "string \<Rightarrow> string \<Rightarrow> string" where
  "backupFileName base isoText =
    base @ ''.'' @ map (\<lambda>c. if c = CHR '':'' then CHR ''-'' else c) (drop_millis isoText) @ ''.db''"

text \<open>The pattern of \<open>pruneBackups\<close>, and the ISO text it makes of the stamp.\<close>

definition stamp_form :: "string \<Rightarrow> bool" where
  "stamp_form s =
    (length s = 20 \<and> digit_text 4 (take 4 s) \<and> s ! 4 = CHR ''-'' \<and> digit_text 2 (take 2 (drop 5 s)) \<and> s ! 7 = CHR ''-'' \<and>
     digit_text 2 (take 2 (drop 8 s)) \<and> s ! 10 = CHR ''T'' \<and> digit_text 2 (take 2 (drop 11 s)) \<and> s ! 13 = CHR ''-'' \<and>
     digit_text 2 (take 2 (drop 14 s)) \<and> s ! 16 = CHR ''-'' \<and> digit_text 2 (take 2 (drop 17 s)) \<and> s ! 19 = CHR ''Z'')"

definition stamp_iso :: "string \<Rightarrow> string" where
  "stamp_iso s = s[13 := CHR '':'', 16 := CHR '':'']"

definition backup_stamp :: "string \<Rightarrow> string \<Rightarrow> string option" where
  "backup_stamp base name =
    (let rest = drop (length base + 1) name; stamp = take 20 rest in
     if take (length base + 1) name = base @ ''.'' \<and> stamp_form stamp \<and> drop 20 rest = ''.db''
     then Some (stamp_iso stamp) else None)"

text \<open>\<open>names\<close> is the listing of the directory, \<open>None\<close> when it does not exist; \<open>parse\<close> is \<open>Date.parse\<close>. The result
  is the names deleted.\<close>

definition backup_entry :: "(string \<Rightarrow> int option) \<Rightarrow> string \<Rightarrow> string \<Rightarrow> (string \<times> int) option" where
  "backup_entry parse base name =
    (case backup_stamp base name of None \<Rightarrow> None | Some isoText \<Rightarrow> map_option (Pair name) (parse isoText))"

definition backups_found :: "(string \<Rightarrow> int option) \<Rightarrow> string \<Rightarrow> string list \<Rightarrow> (string \<times> int) list" where
  "backups_found parse base names = sort_key (\<lambda>b. - snd b) (List.map_filter (backup_entry parse base) names)"

definition pruneBackups :: "(string \<Rightarrow> int option) \<Rightarrow> string list option \<Rightarrow> string \<Rightarrow> int \<Rightarrow> int \<Rightarrow> nat \<Rightarrow> string list" where
  "pruneBackups parse names base retentionMs now keepAtLeast =
    (case names of
       None \<Rightarrow> []
     | Some ns \<Rightarrow> map fst (filter (\<lambda>b. \<not> now - snd b \<le> retentionMs) (drop keepAtLeast (backups_found parse base ns))))"

text \<open>\<open>verifySqliteBackup\<close>: whether the file exists, the error of opening it, what \<open>integrity_check\<close> says, and the
  row counts of its tables; an error of a query is \<open>Inl\<close>.\<close>

record backup_verification =
  vf_ok :: bool
  vf_integrity :: "string list"
  vf_tables :: "(string \<times> nat) list"

definition verifySqliteBackup :: "bool \<Rightarrow> string option \<Rightarrow> string + string list \<Rightarrow> string + (string \<times> nat) list \<Rightarrow> backup_verification" where
  "verifySqliteBackup exists openError integrity counts =
    (let bad = (\<lambda>e. \<lparr>vf_ok = False, vf_integrity = [e], vf_tables = []\<rparr>) in
     if \<not> exists then bad ''file not found''
     else (case openError of
             Some e \<Rightarrow> bad e
           | None \<Rightarrow>
              (case integrity of
                 Inl e \<Rightarrow> bad e
               | Inr i \<Rightarrow>
                  (case counts of
                     Inl e \<Rightarrow> bad e
                   | Inr tables \<Rightarrow> \<lparr>vf_ok = (i = [''ok'']), vf_integrity = i, vf_tables = tables\<rparr>))))"

text \<open>\<open>restoreSqliteDatabase\<close> on the contents of the target file and of its two companions: \<open>copies\<close> and
  \<open>renames\<close> say whether these calls succeed. The result is whether it returns, and the contents left.\<close>

definition restoreSqliteDatabase :: "backup_verification \<Rightarrow> bool \<Rightarrow> bool \<Rightarrow> 'f \<Rightarrow> 'f option \<times> 'f option \<Rightarrow> bool \<times> ('f option \<times> 'f option)" where
  "restoreSqliteDatabase v copies renames backup target =
    (if \<not> vf_ok v \<or> \<not> copies then (False, target)
     else if \<not> renames then (False, (fst target, None))
     else (True, (Some backup, None)))"

section \<open>Capacity\<close>

datatype capacity_level = LevelOk | LevelWarning | LevelCritical

record capacity_config =
  cc_capacityBytes :: rat
  cc_warnRatio :: rat
  cc_criticalRatio :: rat
  cc_minFreeBytes :: rat
  cc_intervalMs :: rat

definition DEFAULT_CAPACITY_CONFIG :: capacity_config where
  "DEFAULT_CAPACITY_CONFIG = \<lparr>cc_capacityBytes = 1024 * (1024 * 1024), cc_warnRatio = 8 / 10, cc_criticalRatio = 95 / 100,
     cc_minFreeBytes = 512 * (1024 * 1024), cc_intervalMs = 5 * 60 * 1000\<rparr>"

definition positive_or :: "string option \<Rightarrow> rat \<Rightarrow> rat" where
  "positive_or raw fallback =
    (case raw of
       None \<Rightarrow> fallback
     | Some s \<Rightarrow> if js_trim s = [] then fallback
        else (case js_Number s of Fin v \<Rightarrow> if 0 < v then v else fallback | _ \<Rightarrow> fallback))"

definition ratio_or :: "string option \<Rightarrow> rat \<Rightarrow> rat" where
  "ratio_or raw fallback = (let value = positive_or raw fallback in if value < 1 then value else fallback)"

definition parseCapacityConfig :: "env \<Rightarrow> capacity_config" where
  "parseCapacityConfig env =
    (let d = DEFAULT_CAPACITY_CONFIG;
         warnRatio = ratio_or (env ''STORAGE_WARN_RATIO'') (cc_warnRatio d);
         criticalRatio0 = ratio_or (env ''STORAGE_CRITICAL_RATIO'') (cc_criticalRatio d);
         criticalRatio = (if criticalRatio0 \<le> warnRatio then max warnRatio (cc_criticalRatio d) else criticalRatio0)
     in \<lparr>cc_capacityBytes = positive_or (env ''STORAGE_CAPACITY_BYTES'') (cc_capacityBytes d),
         cc_warnRatio = warnRatio, cc_criticalRatio = criticalRatio,
         cc_minFreeBytes = positive_or (env ''STORAGE_MIN_FREE_BYTES'') (cc_minFreeBytes d),
         cc_intervalMs = positive_or (env ''STORAGE_CHECK_INTERVAL_MS'') (cc_intervalMs d)\<rparr>)"

text \<open>The sizes of the main file and its companions, \<open>None\<close> for a missing one.\<close>

definition databaseBytes :: "nat option list \<Rightarrow> nat" where
  "databaseBytes sizes = sum_list (map (\<lambda>s. case s of None \<Rightarrow> 0 | Some n \<Rightarrow> n) sizes)"

record storage_report =
  sr_level :: capacity_level
  sr_totalBytes :: nat
  sr_usedRatio :: rat
  sr_reasons :: nat

definition raise_level :: "capacity_level \<Rightarrow> capacity_level \<times> nat \<Rightarrow> capacity_level \<times> nat" where
  "raise_level to l = (if to = LevelCritical \<or> fst l = LevelOk then to else fst l, Suc (snd l))"

text \<open>\<open>free\<close> is the free space of the volume, which is not asked for without databases; of the reasons only the
  number is kept.\<close>

definition checkStorage :: "nat list \<Rightarrow> capacity_config \<Rightarrow> rat option \<Rightarrow> storage_report" where
  "checkStorage sizes config free =
    (let totalBytes = sum_list sizes;
         usedRatio = of_nat totalBytes / cc_capacityBytes config;
         volumeFree = (if sizes = [] then None else free);
         l1 = (if usedRatio \<ge> cc_criticalRatio config then raise_level LevelCritical (LevelOk, 0)
               else if usedRatio \<ge> cc_warnRatio config then raise_level LevelWarning (LevelOk, 0) else (LevelOk, 0));
         l2 = (case volumeFree of None \<Rightarrow> l1 | Some f \<Rightarrow> if f < cc_minFreeBytes config then raise_level LevelCritical l1 else l1)
     in \<lparr>sr_level = fst l2, sr_totalBytes = totalBytes, sr_usedRatio = usedRatio, sr_reasons = snd l2\<rparr>)"

text \<open>The alarm line of a run of the monitor.\<close>

definition capacity_alarm :: "storage_report \<Rightarrow> string option" where
  "capacity_alarm r = (case sr_level r of
      LevelCritical \<Rightarrow> Some ''storage_capacity_critical''
    | LevelWarning \<Rightarrow> Some ''storage_capacity_warning''
    | LevelOk \<Rightarrow> None)"

text \<open>A run of the monitor: the metric, and the alarm.\<close>

definition capacity_lines :: "storage_report \<Rightarrow> string list" where
  "capacity_lines r = ''storage_capacity'' # (case capacity_alarm r of None \<Rightarrow> [] | Some a \<Rightarrow> [a])"

text \<open>\<open>volumeFreeBytes\<close>: the blocks free and their size, for the path itself or, when it does not exist, its directory.\<close>

definition volumeFreeBytes :: "(string \<Rightarrow> (nat \<times> nat) option) \<Rightarrow> (string \<Rightarrow> string) \<Rightarrow> (string \<Rightarrow> bool) \<Rightarrow> string \<Rightarrow> nat option" where
  "volumeFreeBytes statfs dirname exists target =
    (case statfs (if exists target then target else dirname target) of None \<Rightarrow> None | Some (bavail, bsize) \<Rightarrow> Some (bavail * bsize))"

text \<open>\<open>reclaimSpace\<close>: a database is its rows, with the sizes of its file, log and shared memory. SQLite's part is a
  parameter: \<open>shrink\<close> and \<open>repack\<close> give the sizes afterwards, or nothing when they fail; the rows are the same, as
  both statements document.\<close>

record 'r sized_db =
  sz_rows :: 'r
  sz_sizes :: "nat option list"

definition reclaimSpace ::
  "bool \<Rightarrow> (nat option list \<Rightarrow> nat option list option) \<Rightarrow> (nat option list \<Rightarrow> nat option list option) \<Rightarrow> 'r sized_db \<Rightarrow> (nat \<times> nat) option \<times> 'r sized_db" where
  "reclaimSpace opens shrink repack db =
    (let before = databaseBytes (sz_sizes db) in
     if \<not> opens then (None, db)
     else (case shrink (sz_sizes db) of
         None \<Rightarrow> (None, db)
       | Some s1 \<Rightarrow> (case repack s1 of
           None \<Rightarrow> (None, db\<lparr>sz_sizes := s1\<rparr>)
         | Some s2 \<Rightarrow> (case shrink s2 of
             None \<Rightarrow> (None, db\<lparr>sz_sizes := s2\<rparr>)
           | Some s3 \<Rightarrow> (Some (before, databaseBytes s3), db\<lparr>sz_sizes := s3\<rparr>)))))"

lemma reclaim_reports: "reclaimSpace opens shrink repack db = (Some (x, y), db') \<Longrightarrow>
    x = databaseBytes (sz_sizes db) \<and> y = databaseBytes (sz_sizes db') \<and> sz_rows db' = sz_rows db"
  by (auto simp: reclaimSpace_def Let_def split: if_splits option.splits)

section \<open>What a migration run leaves\<close>

definition migrate :: "schema_db \<Rightarrow> migration list \<Rightarrow> schema_db" where
  "migrate db ms = \<lparr>sd_versions = sd_versions db @ map (\<lambda>m. (mg_version m, mg_name m)) ms,
     sd_applied = sd_applied db @ concat (map mg_statements ms)\<rparr>"

definition pending :: "schema_db \<Rightarrow> migration list \<Rightarrow> migration list" where
  "pending db ms = filter (\<lambda>m. schema_version db < mg_version m) (sort_key mg_version ms)"

lemma takeWhile_True: "takeWhile (\<lambda>_. True) xs = xs"
  by (induction xs) simp_all

lemma migrate_simps [simp]:
  "migrate db [] = db" "migrate (migrate db xs) ys = migrate db (xs @ ys)"
  by (simp_all add: migrate_def)

lemma run_migration_fresh:
  "mg_version m \<notin> fst ` set (sd_versions db) \<Longrightarrow>
    run_migration works m db = (if works (mg_version m) then (True, migrate db [m]) else (False, db))"
  by (simp add: run_migration_def migrate_def)

lemma run_migrations_prefix:
  assumes "distinct (map mg_version ms)"
    and "\<forall>m \<in> set ms. current < mg_version m \<longrightarrow> mg_version m \<notin> fst ` set (sd_versions db)"
  shows "run_migrations works current ms db =
    (list_all (works \<circ> mg_version) (filter (\<lambda>m. current < mg_version m) ms),
     migrate db (takeWhile (works \<circ> mg_version) (filter (\<lambda>m. current < mg_version m) ms)))"
  using assms
proof (induction ms arbitrary: db)
  case (Cons m ms)
  show ?case
  proof (cases "mg_version m \<le> current")
    case False
    then have fresh: "mg_version m \<notin> fst ` set (sd_versions db)" using Cons.prems(2) by simp
    have "\<forall>n \<in> set ms. current < mg_version n \<longrightarrow> mg_version n \<notin> fst ` set (sd_versions (migrate db [m]))"
    proof (intro ballI impI)
      fix n assume n: "n \<in> set ms" "current < mg_version n"
      have "mg_version n \<in> mg_version ` set ms" using n(1) by (rule imageI)
      then have "mg_version n \<noteq> mg_version m" using Cons.prems(1) by auto
      then show "mg_version n \<notin> fst ` set (sd_versions (migrate db [m]))" using Cons.prems(2) n by (simp add: migrate_def)
    qed
    then show ?thesis using Cons.IH[of "migrate db [m]"] Cons.prems(1) False run_migration_fresh[OF fresh, of works] by simp
  qed (use Cons in simp)
qed simp

lemma fold_max_ge: "(x :: nat) \<le> fold max xs x" "y \<in> set xs \<Longrightarrow> y \<le> fold max xs x"
proof (induction xs arbitrary: x)
  case (Cons z zs)
  case 1 then show ?case using Cons(1)[of "max z x"] by simp
  case 2 then show ?case using Cons[of "max z x"] by auto
qed simp_all

lemma fold_max_last: "sorted_wrt (<) (x # xs) \<Longrightarrow> fold max xs (x :: nat) = last (x # xs)"
  by (induction xs arbitrary: x) (auto simp: max_def)

lemma schema_version_ge: "(v, n) \<in> set (sd_versions db) \<Longrightarrow> v \<le> schema_version db"
  using fold_max_ge(2)[of v "map fst (sd_versions db)" 0] by (force simp: schema_version_def)

lemma strictly_sorted: "distinct (map mg_version ms) \<Longrightarrow> sorted_wrt (<) (map mg_version (sort_key mg_version ms))"
  by (simp add: strict_sorted_iff distinct_map)

lemma pending_sorted: "distinct (map mg_version ms) \<Longrightarrow> sorted_wrt (<) (schema_version db # map mg_version (pending db ms))"
  using strictly_sorted[of ms] by (auto simp: pending_def sorted_wrt_map intro: sorted_wrt_filter)

lemma apply_prefix:
  assumes "distinct (map mg_version ms)"
  shows "applySqliteMigrations works ms db =
    (if schema_version db > (if ms = [] then 0 else mg_version (last (sort_key mg_version ms))) then (False, db)
     else (list_all (works \<circ> mg_version) (pending db ms), migrate db (takeWhile (works \<circ> mg_version) (pending db ms))))"
proof -
  have "\<forall>m \<in> set (sort_key mg_version ms). schema_version db < mg_version m \<longrightarrow> mg_version m \<notin> fst ` set (sd_versions db)"
    using schema_version_ge[of _ _ db] by fastforce
  moreover have "sort_key mg_version ms = [] \<longleftrightarrow> ms = []" by (metis length_0_conv length_sort)
  ultimately show ?thesis
    using run_migrations_prefix[of "sort_key mg_version ms" "schema_version db" db works] assms
    by (simp add: applySqliteMigrations_def Let_def pending_def distinct_map)
qed

lemma sorted_last: "m \<in> set xs \<Longrightarrow> sorted (map f xs) \<Longrightarrow> f m \<le> f (last xs)"
  by (cases xs rule: rev_cases) (auto simp: sorted_append)

text \<open>A run that stopped after the migrations \<open>xs\<close> leaves the others pending.\<close>

lemma pending_after:
  assumes "distinct (map mg_version ms)" "pending db ms = xs @ ys"
  shows "schema_version (migrate db xs) = (if xs = [] then schema_version db else mg_version (last xs)) \<and>
    pending (migrate db xs) ms = ys"
proof -
  have sorted: "sorted_wrt (<) (schema_version db # map mg_version xs @ map mg_version ys)"
    using pending_sorted[OF assms(1), of db] assms(2) by simp
  then have "sorted_wrt (<) (schema_version db # map mg_version xs)" by (auto simp: sorted_wrt_append)
  from fold_max_last[OF this]
  have v: "schema_version (migrate db xs) = (if xs = [] then schema_version db else mg_version (last xs))"
    by (simp add: schema_version_def migrate_def comp_def last_map)
  have ge: "schema_version db \<le> schema_version (migrate db xs)"
    using sorted last_in_set[of xs] by (auto simp: v less_imp_le)
  have "pending (migrate db xs) ms = filter (\<lambda>m. schema_version (migrate db xs) < mg_version m) (pending db ms)"
    using ge unfolding pending_def by (auto intro!: filter_cong)
  also have "\<dots> = ys"
  proof -
    define sv where "sv = schema_version (migrate db xs)"
    note v = v[folded sv_def]
    have "\<not> sv < mg_version m" if m: "m \<in> set xs" for m
    proof -
      obtain us vs where xs: "xs = us @ m # vs" using m by (meson split_list)
      then show ?thesis using sorted by (cases vs rule: rev_cases) (auto simp: v sorted_wrt_append)
    qed
    moreover have "sv < mg_version m" if "m \<in> set ys" for m
      using sorted that by (cases xs rule: rev_cases) (auto simp: v sorted_wrt_append)
    ultimately show ?thesis by (simp add: assms(2) filter_id_conv sv_def)
  qed
  finally show ?thesis using v by blast
qed

section \<open>Properties\<close>


definition migrations_ex :: "migration list" where
  "migrations_ex = [\<lparr>mg_version = 2, mg_name = ''index'', mg_statements = [''CREATE INDEX'']\<rparr>,
     \<lparr>mg_version = 1, mg_name = ''buckets'', mg_statements = [''CREATE TABLE'']\<rparr>]"

definition fresh_db :: schema_db where
  "fresh_db = \<lparr>sd_versions = [], sd_applied = []\<rparr>"


lemma run_migrations_empty_list: "applySqliteMigrations works [] db = (schema_version db = 0, db)"
  by (simp add: applySqliteMigrations_def Let_def)

lemma backup_entry_Some:
  "backup_entry parse base name = Some (n, t) \<longleftrightarrow>
    n = name \<and> (\<exists>stamp. backup_stamp base name = Some stamp \<and> parse stamp = Some t)"
  by (auto simp: backup_entry_def split: option.split)

lemma backups_found_set:
  "(n, t) \<in> set (backups_found parse base ns) \<longleftrightarrow>
    n \<in> set ns \<and> (\<exists>stamp. backup_stamp base n = Some stamp \<and> parse stamp = Some t)"
proof -
  have "(n, t) \<in> set (backups_found parse base ns) \<longleftrightarrow> (\<exists>name \<in> set ns. backup_entry parse base name = Some (n, t))"
    by (induction ns) (auto simp: backups_found_def List.map_filter_simps split: option.split)
  then show ?thesis by (auto simp: backup_entry_Some)
qed

lemma backups_found_distinct: "distinct ns \<Longrightarrow> distinct (map fst (backups_found parse base ns))"
proof -
  assume d: "distinct ns"
  have "map fst (List.map_filter (backup_entry parse base) ns) = filter (\<lambda>n. backup_entry parse base n \<noteq> None) ns"
  proof (induction ns)
    case (Cons n ns)
    have "fst p = n" if "backup_entry parse base n = Some p" for p using that by (cases p) (simp add: backup_entry_Some)
    then show ?case using Cons by (auto simp: List.map_filter_simps split: option.split)
  qed (simp add: List.map_filter_simps)
  then have "distinct (map fst (List.map_filter (backup_entry parse base) ns))" using d by (metis distinct_filter)
  then show ?thesis by (simp add: backups_found_def distinct_map)
qed

text \<open>Retention never deletes what it must keep: a file is deleted only if its name is one of this
  database's backups with a readable time, it is older than the retention time, and at least
  \<open>keepAtLeast\<close> backups no older than it stay; everything else in the directory stays, and every backup
  beyond the newest \<open>keepAtLeast\<close> that is too old is deleted.\<close>
lemma prune_keeps_newest:
  assumes "distinct ns" "name \<in> set (pruneBackups parse (Some ns) base retentionMs now keepAtLeast)"
  shows "\<exists>stamp t. name \<in> set ns \<and> backup_stamp base name = Some stamp \<and> parse stamp = Some t \<and> retentionMs < now - t \<and>
    keepAtLeast \<le> length (filter (\<lambda>b. t \<le> snd b \<and> fst b \<notin> set (pruneBackups parse (Some ns) base retentionMs now keepAtLeast))
      (backups_found parse base ns))"
proof -
  let ?bs = "backups_found parse base ns"
  note found = backups_found_set[where parse = parse and base = base and ns = ns]
    and dist = backups_found_distinct[OF assms(1), where parse = parse and base = base]
  obtain b where b: "b \<in> set (drop keepAtLeast ?bs)" "\<not> now - snd b \<le> retentionMs" "name = fst b"
    using assms(2) by (auto simp: pruneBackups_def)
  then obtain i where i: "keepAtLeast \<le> i" "i < length ?bs" "?bs ! i = b"
    by (auto simp: in_set_conv_nth) (metis add.commute le_add1 less_diff_conv)
  have sorted: "sorted (map (\<lambda>b. - snd b) ?bs)" unfolding backups_found_def by (rule sorted_sort_key)
  have "t' \<in> set (take keepAtLeast ?bs) \<Longrightarrow> snd b \<le> snd t'" for t'
  proof -
    assume "t' \<in> set (take keepAtLeast ?bs)"
    then obtain j where "j < keepAtLeast" "j < length ?bs" "?bs ! j = t'" by (auto simp: in_set_conv_nth)
    then show ?thesis using sorted_nth_mono[OF sorted, of j i] i by simp
  qed
  moreover have "fst t' \<notin> set (pruneBackups parse (Some ns) base retentionMs now keepAtLeast)" if "t' \<in> set (take keepAtLeast ?bs)" for t'
  proof -
    have "distinct (map fst (take keepAtLeast ?bs) @ map fst (drop keepAtLeast ?bs))"
      using dist by (simp flip: map_append)
    then have "fst t' \<notin> set (map fst (drop keepAtLeast ?bs))" using that by (auto simp: disjoint_iff)
    then show ?thesis by (auto simp: pruneBackups_def)
  qed
  ultimately have "filter (\<lambda>c. snd b \<le> snd c \<and> fst c \<notin> set (pruneBackups parse (Some ns) base retentionMs now keepAtLeast)) (take keepAtLeast ?bs)
      = take keepAtLeast ?bs"
    by (simp add: filter_id_conv)
  then have "length (take keepAtLeast ?bs) \<le>
      length (filter (\<lambda>c. snd b \<le> snd c \<and> fst c \<notin> set (pruneBackups parse (Some ns) base retentionMs now keepAtLeast)) ?bs)"
    by (subst (3) append_take_drop_id[of keepAtLeast, symmetric], unfold filter_append) simp
  moreover have "length (take keepAtLeast ?bs) = keepAtLeast" using i by simp
  moreover have "b \<in> set ?bs" using i by auto
  moreover obtain t where "b = (name, t)" using b(3) by (cases b) simp
  ultimately show ?thesis using found[of name t] b(2) by auto
qed

definition backups_ex :: "string list" where
  "backups_ex = [''q.2026-01-01T00-00-00Z.db'', ''q.db'', ''q.2026-01-02T00-00-00Z.db'']"

definition parse_ex :: "string \<Rightarrow> int option" where
  "parse_ex = [''2026-01-01T00:00:00Z'' \<mapsto> 0, ''2026-01-02T00:00:00Z'' \<mapsto> 86400000]"

lemma prune_ex: "pruneBackups parse_ex (Some backups_ex) ''q'' 1000 900000000 1 = [''q.2026-01-01T00-00-00Z.db'']"
  by code_simp

lemma stamp_of_ex: "backup_stamp ''q'' ''q.2026-01-01T00-00-00Z.db'' = Some ''2026-01-01T00:00:00Z''"
  by code_simp

lemma parse_of_ex: "parse_ex ''2026-01-01T00:00:00Z'' = Some 0"
  by code_simp

lemma prune_keeps_newest_example:
  "1 \<le> length (filter (\<lambda>b. 0 \<le> snd b \<and> fst b \<notin> set (pruneBackups parse_ex (Some backups_ex) ''q'' 1000 900000000 1))
      (backups_found parse_ex ''q'' backups_ex))"
proof -
  have "distinct backups_ex" "''q.2026-01-01T00-00-00Z.db'' \<in> set (pruneBackups parse_ex (Some backups_ex) ''q'' 1000 900000000 1)"
    unfolding prune_ex by (simp_all add: backups_ex_def)
  from prune_keeps_newest[OF this]
  obtain stamp t where st: "backup_stamp ''q'' ''q.2026-01-01T00-00-00Z.db'' = Some stamp" and t: "parse_ex stamp = Some t"
    and n: "1 \<le> length (filter (\<lambda>b. t \<le> snd b \<and> fst b \<notin> set (pruneBackups parse_ex (Some backups_ex) ''q'' 1000 900000000 1))
      (backups_found parse_ex ''q'' backups_ex))"
    by (elim exE conjE) (rule that)
  have "stamp = ''2026-01-01T00:00:00Z''" using st unfolding stamp_of_ex by (rule option.inject[THEN iffD1, symmetric])
  then have "t = 0" using t parse_of_ex by (simp only: option.inject)
  then show ?thesis using n by (simp only:)
qed

text \<open>The name of a backup is read back as the time it was taken, to the second.\<close>

lemma digit_text_Suc: "digit_text (Suc n) s \<longleftrightarrow> (\<exists>c t. s = c # t \<and> digit_val 10 c \<noteq> None \<and> digit_text n t)"
  by (cases s) (auto simp: digit_text_def)

lemma digit_text_0: "digit_text 0 s \<longleftrightarrow> s = []"
  by (auto simp: digit_text_def)

lemma digit_no_colon: "digit_val 10 c \<noteq> None \<Longrightarrow> c \<noteq> CHR '':''"
  by (auto simp: digit_val_def)

text \<open>The name given to a backup is recognised again: for every database and every time that
  \<open>toISOString\<close> writes with a year of four digits, retention finds the backup under that name and reads from
  it the time to the second.\<close>
lemma backup_name_roundtrip:
  assumes "digit_text 4 y" "digit_text 2 mo" "digit_text 2 d" "digit_text 2 h" "digit_text 2 mi" "digit_text 2 sec" "digit_text 3 ms"
  shows "backup_stamp base (backupFileName base (y @ ''-'' @ mo @ ''-'' @ d @ ''T'' @ h @ '':'' @ mi @ '':'' @ sec @ ''.'' @ ms @ ''Z'')) =
    Some (y @ ''-'' @ mo @ ''-'' @ d @ ''T'' @ h @ '':'' @ mi @ '':'' @ sec @ ''Z'')"
proof -
  obtain y1 y2 y3 y4 m1 m2 d1 d2 h1 h2 i1 i2 s1 s2 f1 f2 f3 where parts: "y = [y1, y2, y3, y4]" "mo = [m1, m2]" "d = [d1, d2]"
    "h = [h1, h2]" "mi = [i1, i2]" "sec = [s1, s2]" "ms = [f1, f2, f3]"
    and digits: "list_all (\<lambda>c. digit_val 10 c \<noteq> None) [y1, y2, y3, y4, m1, m2, d1, d2, h1, h2, i1, i2, s1, s2, f1, f2, f3]"
    using assms by (auto simp: numeral_eq_Suc digit_text_Suc digit_text_0)
  define s where "s = [y1, y2, y3, y4, CHR ''-'', m1, m2, CHR ''-'', d1, d2, CHR ''T'', h1, h2, CHR '':'', i1, i2, CHR '':'', s1, s2]"
  define w where "w = [y1, y2, y3, y4, CHR ''-'', m1, m2, CHR ''-'', d1, d2, CHR ''T'', h1, h2, CHR ''-'', i1, i2, CHR ''-'', s1, s2, CHR ''Z'']"
  have drop: "drop_millis (s @ [CHR ''.'', f1, f2, f3, CHR ''Z'']) = s @ ''Z''"
    using digits by (simp add: drop_millis_def s_def digit_text_def)
  have w: "map (\<lambda>c. if c = CHR '':'' then CHR ''-'' else c) (s @ ''Z'') = w"
    using digits digit_no_colon by (simp add: s_def w_def)
  have len: "length w = 20" by (simp add: w_def)
  have form: "stamp_form w" using digits by (simp add: stamp_form_def w_def digit_text_def)
  have isoText: "stamp_iso w = s @ ''Z''" by (simp add: stamp_iso_def w_def s_def)
  have "backupFileName base (s @ [CHR ''.'', f1, f2, f3, CHR ''Z'']) = (base @ ''.'') @ w @ ''.db''"
    using w by (simp add: backupFileName_def drop)
  moreover have "backup_stamp base ((base @ ''.'') @ w @ ''.db'') = Some (stamp_iso w)"
    using form len by (simp add: backup_stamp_def)
  ultimately show ?thesis by (simp add: parts s_def isoText)
qed

lemma backup_name_roundtrip_example:
  "backup_stamp ''oracle-queue'' (backupFileName ''oracle-queue'' ''2026-10-22T14:00:00.123Z'') = Some ''2026-10-22T14:00:00Z''"
  using backup_name_roundtrip[of "''2026''" "''10''" "''22''" "''14''" "''00''" "''00''" "''123''" "''oracle-queue''"]
  by (simp add: digit_text_def digit_val_def)

text \<open>A restore puts in place only a verified backup, or leaves the main file as it was.\<close>

lemma restore_verified:
  "restoreSqliteDatabase v copies renames backup target = (ok, (main, side)) \<Longrightarrow>
    (ok \<longrightarrow> vf_ok v \<and> main = Some backup \<and> side = None) \<and> (\<not> ok \<longrightarrow> main = fst target)"
  by (cases target) (auto simp: restoreSqliteDatabase_def split: if_splits)

lemma verify_healthy:
  "vf_ok (verifySqliteBackup ex err integrity counts) \<longleftrightarrow> ex \<and> err = None \<and> integrity = Inr [''ok''] \<and> (\<exists>t. counts = Inr t)"
  by (auto simp: verifySqliteBackup_def Let_def split: option.split sum.split)

text \<open>The thresholds are in order whatever the environment says, and the level is the worst of what is measured.\<close>

lemma ratio_or_bounds: "0 < fallback \<Longrightarrow> fallback < 1 \<Longrightarrow> 0 < ratio_or raw fallback \<and> ratio_or raw fallback < 1"
  by (auto simp: ratio_or_def positive_or_def Let_def split: option.split js_num.split)

lemma capacity_thresholds:
  "cc_warnRatio (parseCapacityConfig env) \<le> cc_criticalRatio (parseCapacityConfig env) \<and>
   0 < cc_warnRatio (parseCapacityConfig env) \<and> cc_criticalRatio (parseCapacityConfig env) < 1"
  using ratio_or_bounds[of "8 / 10" "env ''STORAGE_WARN_RATIO''"] ratio_or_bounds[of "95 / 100" "env ''STORAGE_CRITICAL_RATIO''"]
  by (auto simp: parseCapacityConfig_def DEFAULT_CAPACITY_CONFIG_def Let_def)

lemma capacity_level_exact:
  "sr_level (checkStorage sizes cfg free) =
    (if cc_criticalRatio cfg \<le> of_nat (sum_list sizes) / cc_capacityBytes cfg \<or> sizes \<noteq> [] \<and> (\<exists>f. free = Some f \<and> f < cc_minFreeBytes cfg) then LevelCritical
     else if cc_warnRatio cfg \<le> of_nat (sum_list sizes) / cc_capacityBytes cfg then LevelWarning else LevelOk)"
  by (auto simp: checkStorage_def Let_def raise_level_def split: option.split)

end
