(* ===== verification/Amounts.thy ===== *)
theory Amounts
  imports Prelude
begin

text \<open>
  Amounts of money in the frontend: the two readers of a stake typed in XLM
  (\<open>utils/xlm-precision.ts\<close> and \<open>utils/payout.ts\<close>), the texts shown for stroops, and the payout
  and fee breakdown shown before a signature. Stroops are \<open>bigint\<close> in the code and \<open>int\<close> or \<open>nat\<close> here.
\<close>

section \<open>Text of amounts\<close>

definition dec_digit :: "char \<Rightarrow> bool" where
  "dec_digit c = (let n = (of_char c :: nat) in 48 \<le> n \<and> n \<le> 57)"

definition padEnd :: "nat \<Rightarrow> string \<Rightarrow> string" where
  "padEnd n s = s @ replicate (n - length s) CHR ''0''"

definition padStart :: "nat \<Rightarrow> string \<Rightarrow> string" where
  "padStart n s = replicate (n - length s) CHR ''0'' @ s"

text \<open>\<open>replace(/0+$/, '')\<close>.\<close>

definition drop_zeros :: "string \<Rightarrow> string" where
  "drop_zeros s = rev (dropWhile (\<lambda>c. c = CHR ''0'') (rev s))"

text \<open>The text before the first point, and the text after it when there is one.\<close>

definition before_point :: "string \<Rightarrow> string" where
  "before_point s = takeWhile (\<lambda>c. c \<noteq> CHR ''.'') s"

definition after_point :: "string \<Rightarrow> string option" where
  "after_point s = (case dropWhile (\<lambda>c. c \<noteq> CHR ''.'') s of [] \<Rightarrow> None | _ # u \<Rightarrow> Some u)"

section \<open>The precision validator\<close>

definition MAX_DECIMAL_PLACES :: nat where "MAX_DECIMAL_PLACES = 7"

definition STROOPS_PER_XLM :: nat where "STROOPS_PER_XLM = 10000000"

record precision_result =
  pr_valid :: bool
  pr_stroops :: "nat option"
  pr_decimals :: "nat option"
  pr_message :: "string option"

definition countDecimalPlaces :: "string \<Rightarrow> nat" where
  "countDecimalPlaces value = (case after_point (js_trim value) of None \<Rightarrow> 0 | Some u \<Rightarrow> length u)"

text \<open>\<open>/^(\d+\.?\d*|\.\d+)$/\<close>.\<close>

definition xlm_number :: "string \<Rightarrow> bool" where
  "xlm_number s =
    (list_all dec_digit (before_point s) \<and>
     (case after_point s of
        None \<Rightarrow> s \<noteq> []
      | Some u \<Rightarrow> list_all dec_digit u \<and> (before_point s \<noteq> [] \<or> u \<noteq> [])))"

definition validateAndConvertXlmToStroops :: "string \<Rightarrow> precision_result" where
  "validateAndConvertXlmToStroops xlmValue =
    (let trimmed = js_trim xlmValue; decimals = countDecimalPlaces trimmed;
         bad = (\<lambda>d m. \<lparr>pr_valid = False, pr_stroops = None, pr_decimals = d, pr_message = Some m\<rparr>) in
     if trimmed = [] then bad None ''Value is required''
     else if \<not> xlm_number trimmed then bad None ''Value must be a valid number''
     else if MAX_DECIMAL_PLACES < decimals
       then bad (Some decimals) (''XLM precision exceeds 7 decimal places (found '' @ nat_text decimals @ '')'')
     else \<lparr>pr_valid = True,
            pr_stroops = Some (text_value (case after_point trimmed of
                Some fracText \<Rightarrow> before_point trimmed @ padEnd MAX_DECIMAL_PLACES fracText
              | None \<Rightarrow> trimmed @ replicate MAX_DECIMAL_PLACES CHR ''0'')),
            pr_decimals = Some decimals, pr_message = None\<rparr>)"

text \<open>\<open>split('.')\<close> gives more than two parts for a text with two points; the second one is used.\<close>

definition roundXlmToPrecision :: "string \<Rightarrow> string" where
  "roundXlmToPrecision xlmValue =
    (let trimmed = js_trim xlmValue in
     if countDecimalPlaces trimmed \<le> MAX_DECIMAL_PLACES then trimmed
     else (case after_point trimmed of
             None \<Rightarrow> trimmed
           | Some u \<Rightarrow> before_point trimmed @ ''.'' @ take MAX_DECIMAL_PLACES (before_point u)))"

section \<open>Payouts and fees\<close>

definition PLATFORM_FEE_BPS :: int where "PLATFORM_FEE_BPS = 0"
definition BASE_FEE_STROOPS :: int where "BASE_FEE_STROOPS = 100"
definition DEFAULT_RESOURCE_FEE_STROOPS :: int where "DEFAULT_RESOURCE_FEE_STROOPS = 500000"

datatype wager_action = CreateAction | DepositAction | ApproveAction

definition TRANSACTIONS_PER_ACTION :: "wager_action \<Rightarrow> int" where
  "TRANSACTIONS_PER_ACTION a = (case a of CreateAction \<Rightarrow> 1 | DepositAction \<Rightarrow> 1 | ApproveAction \<Rightarrow> 1)"

text \<open>The resource fee of the build environment; \<open>raw\<close> is \<open>VITE_ESTIMATED_RESOURCE_FEE_STROOPS\<close>.\<close>

definition feeConfigFromEnv :: "string option \<Rightarrow> int" where
  "feeConfigFromEnv raw =
    (case raw of
       None \<Rightarrow> DEFAULT_RESOURCE_FEE_STROOPS
     | Some r \<Rightarrow> (let t = js_trim r in
         if t \<noteq> [] \<and> list_all dec_digit t \<and> 0 < text_value t then int (text_value t) else DEFAULT_RESOURCE_FEE_STROOPS))"

record outcome_amounts =
  oa_gross :: int
  oa_net :: int

record payout_breakdown =
  pb_stake :: int
  pb_platformFee :: int
  pb_win :: outcome_amounts
  pb_draw :: outcome_amounts
  pb_loss :: outcome_amounts
  pb_estimatedNetworkFee :: int

definition computePayoutBreakdown :: "int \<Rightarrow> wager_action \<Rightarrow> int \<Rightarrow> payout_breakdown option" where
  "computePayoutBreakdown stake action resourceFeeStroops =
    (if stake \<le> 0 then None
     else (let pot = stake * 2; platformFee = pot * PLATFORM_FEE_BPS div 10000; winGross = pot - platformFee;
               perTransaction = BASE_FEE_STROOPS + resourceFeeStroops in
       Some \<lparr>pb_stake = stake, pb_platformFee = platformFee,
         pb_win = \<lparr>oa_gross = winGross, oa_net = winGross - stake\<rparr>,
         pb_draw = \<lparr>oa_gross = stake, oa_net = 0\<rparr>,
         pb_loss = \<lparr>oa_gross = 0, oa_net = - stake\<rparr>,
         pb_estimatedNetworkFee = perTransaction * TRANSACTIONS_PER_ACTION action\<rparr>))"

text \<open>The decimal text of a natural number of stroops, as the code prints the absolute value.\<close>

definition abs_text :: "nat \<Rightarrow> string" where
  "abs_text n =
    (let fraction = drop_zeros (padStart 7 (nat_text (n mod STROOPS_PER_XLM)))
     in nat_text (n div STROOPS_PER_XLM) @ (if fraction = [] then [] else ''.'' @ fraction))"

definition formatStroops :: "int \<Rightarrow> string" where
  "formatStroops stroops = (if stroops < 0 then ''-'' else []) @ abs_text (nat \<bar>stroops\<bar>)"

definition formatSigned :: "int \<Rightarrow> string" where
  "formatSigned stroops = (if 0 < stroops then ''+'' @ formatStroops stroops else formatStroops stroops)"

text \<open>\<open>/^\d+(\.\d{1,7})?$/\<close>.\<close>

definition stake_text :: "string \<Rightarrow> bool" where
  "stake_text s =
    (before_point s \<noteq> [] \<and> list_all dec_digit (before_point s) \<and>
     (case after_point s of None \<Rightarrow> True | Some u \<Rightarrow> list_all dec_digit u \<and> 1 \<le> length u \<and> length u \<le> 7))"

definition stakeFromXlmInput :: "string \<Rightarrow> nat option" where
  "stakeFromXlmInput value =
    (let trimmed = js_trim value in
     if \<not> stake_text trimmed then None
     else (let fraction = (case after_point trimmed of None \<Rightarrow> [] | Some u \<Rightarrow> u);
               stroops = text_value (before_point trimmed) * STROOPS_PER_XLM + text_value (padEnd 7 fraction)
           in if 0 < stroops then Some stroops else None))"

text \<open>The argument is \<open>String(value)\<close>, or \<open>None\<close> for a null or missing value.\<close>

definition stakeFromStroops :: "string option \<Rightarrow> nat option" where
  "stakeFromStroops value =
    (case value of
       None \<Rightarrow> None
     | Some v \<Rightarrow> (let t = js_trim v in
         if t \<noteq> [] \<and> list_all dec_digit t \<and> 0 < text_value t then Some (text_value t) else None))"

section \<open>Token amounts\<close>

text \<open>\<open>BigInt(raw)\<close> for a decimal literal, which is all the contract returns; \<open>native\<close> gives the contract of the
  native asset for a passphrase, \<open>None\<close> where the code asks for no known network.\<close>

definition big_int :: "string \<Rightarrow> int option" where
  "big_int raw =
    (case js_trim raw of
       [] \<Rightarrow> Some 0
     | c # s \<Rightarrow>
        (if c = CHR ''-'' \<or> c = CHR ''+''
         then (if s \<noteq> [] \<and> list_all dec_digit s then Some (if c = CHR ''-'' then - int (text_value s) else int (text_value s)) else None)
         else if list_all dec_digit (c # s) then Some (int (text_value (c # s))) else None))"

definition formatTokenAmount :: "(string \<Rightarrow> string option) \<Rightarrow> string \<Rightarrow> string \<Rightarrow> string \<Rightarrow> string option" where
  "formatTokenAmount native raw token passphrase =
    (if native passphrase = None \<or> native passphrase \<noteq> Some token
     then Some (raw @ '' smallest units ('' @ (if token = [] then ''unknown asset'' else token) @ '')'')
     else (case big_int raw of
             None \<Rightarrow> None
           | Some amount \<Rightarrow> Some (formatStroops amount @ '' XLM'')))"

section \<open>Lemmas: digits and points\<close>

lemma dec_digit_facts: "dec_digit c \<Longrightarrow> c \<noteq> CHR ''.'' \<and> \<not> js_ws c"
  by (auto simp: dec_digit_def js_ws_def Let_def)

lemma dec_digit_char: "(n :: nat) < 10 \<Longrightarrow> dec_digit (char_of (48 + n))"
  by (simp add: dec_digit_def Let_def)

lemma nat_text_digits: "list_all dec_digit (nat_text n)"
proof (induction n rule: nat_text.induct)
  case (1 n)
  then show ?case using dec_digit_char[of n] dec_digit_char[of "n mod 10"]
    by (cases "n < 10") (subst nat_text.simps, simp)+
qed

lemma nat_text_not_Nil [simp]: "nat_text n \<noteq> []"
  by (subst nat_text.simps) simp

lemma length_nat_text: "n < 10 ^ Suc k \<Longrightarrow> length (nat_text n) \<le> Suc k"
proof (induction k arbitrary: n)
  case 0
  then show ?case by (subst nat_text.simps) simp
next
  case (Suc k)
  then have "n div 10 < 10 ^ Suc k" by (simp add: less_mult_imp_div_less)
  then show ?case using Suc.IH[of "n div 10"] by (subst nat_text.simps) simp
qed

lemma text_value_foldl: "foldl (\<lambda>v c. v * 10 + ((of_char c :: nat) - 48)) v t = v * 10 ^ length t + text_value t"
proof (induction t arbitrary: v)
  case (Cons c t)
  have "text_value (c # t) = foldl (\<lambda>v c. v * 10 + ((of_char c :: nat) - 48)) (of_char c - 48) t"
    by (simp add: text_value_def)
  also have "\<dots> = (of_char c - 48) * 10 ^ length t + text_value t" by (rule Cons.IH)
  finally show ?case using Cons.IH[of "v * 10 + (of_char c - 48)"] by (simp add: algebra_simps)
qed (simp add: text_value_def)

lemma text_value_append: "text_value (s @ t) = text_value s * 10 ^ length t + text_value t"
  using text_value_foldl[of "text_value s" t] by (simp add: text_value_def)

lemma text_value_zeros [simp]: "text_value (replicate n CHR ''0'') = 0"
proof (induction n)
  case (Suc n)
  have "text_value (replicate (Suc n) CHR ''0'') = text_value (''0'' @ replicate n CHR ''0'')" by simp
  also have "\<dots> = 0" unfolding text_value_append Suc.IH by (simp add: text_value_def)
  finally show ?case .
qed (simp add: text_value_def)

lemma zeros_digits [simp]: "list_all dec_digit (replicate n CHR ''0'')"
  by (auto simp: list_all_iff dec_digit_def)

lemma drop_zeros_split: "\<exists>k. s = drop_zeros s @ replicate k CHR ''0''"
proof -
  have "takeWhile (\<lambda>c. c = CHR ''0'') (rev s) = replicate (length (takeWhile (\<lambda>c. c = CHR ''0'') (rev s))) CHR ''0''"
    by (rule replicate_length_same[symmetric]) (auto dest: set_takeWhileD)
  then obtain k where "takeWhile (\<lambda>c. c = CHR ''0'') (rev s) = replicate k CHR ''0''" by blast
  then have "rev s = replicate k CHR ''0'' @ dropWhile (\<lambda>c. c = CHR ''0'') (rev s)"
    by (metis takeWhile_dropWhile_id)
  then have "rev (rev s) = rev (replicate k CHR ''0'' @ dropWhile (\<lambda>c. c = CHR ''0'') (rev s))" by (rule arg_cong)
  then show ?thesis by (auto simp: drop_zeros_def)
qed

lemma padEnd_drop_zeros: "length s = n \<Longrightarrow> padEnd n (drop_zeros s) = s"
proof -
  assume n: "length s = n"
  obtain k where k: "s = drop_zeros s @ replicate k CHR ''0''" using drop_zeros_split by blast
  then have "length s = length (drop_zeros s) + k" by (metis length_append length_replicate)
  then show ?thesis using k n by (simp add: padEnd_def)
qed

lemma drop_zeros_digits: "list_all dec_digit s \<Longrightarrow> list_all dec_digit (drop_zeros s)"
  by (metis drop_zeros_split list_all_append)

lemma length_drop_zeros: "length (drop_zeros s) \<le> length s"
  unfolding drop_zeros_def using length_dropWhile_le by (metis length_rev)

lemma padStart_value [simp]: "text_value (padStart n s) = text_value s"
  by (simp add: padStart_def text_value_append)

lemma point_parts:
  assumes "list_all dec_digit w"
  shows "before_point w = w" "after_point w = None" "before_point (w @ CHR ''.'' # u) = w" "after_point (w @ CHR ''.'' # u) = Some u"
proof -
  have w: "\<forall>c \<in> set w. c \<noteq> CHR ''.''" using assms dec_digit_facts by (auto simp: list_all_iff)
  then have none: "dropWhile (\<lambda>c. c \<noteq> CHR ''.'') w = []" by (simp only: dropWhile_eq_Nil_conv)
  show "after_point w = None" by (simp only: after_point_def none list.case)
  show "before_point w = w" "before_point (w @ CHR ''.'' # u) = w" "after_point (w @ CHR ''.'' # u) = Some u"
    using w by (simp_all add: before_point_def after_point_def takeWhile_append2 dropWhile_append2 takeWhile_eq_all_conv)
qed

lemma point_split: "s = before_point s @ (case after_point s of None \<Rightarrow> [] | Some u \<Rightarrow> CHR ''.'' # u)"
proof (cases "dropWhile (\<lambda>c. c \<noteq> CHR ''.'') s")
  case Nil
  then show ?thesis by (metis (no_types) Nil after_point_def append_Nil2 before_point_def list.case(1) option.case(1) takeWhile_dropWhile_id)
next
  case (Cons c u)
  then have "c = CHR ''.''" using hd_dropWhile[of "\<lambda>c. c \<noteq> CHR ''.''" s] by simp
  moreover have "s = before_point s @ c # u"
    using takeWhile_dropWhile_id[of "\<lambda>c. c \<noteq> CHR ''.''" s] Cons by (simp add: before_point_def)
  moreover have "after_point s = Some u" using Cons by (simp add: after_point_def)
  ultimately show ?thesis by simp
qed

section \<open>Lemmas: what is shown is read back\<close>

lemma frac_text:
  fixes n :: nat
  defines "u \<equiv> padStart 7 (nat_text (n mod STROOPS_PER_XLM))"
  shows "length u = 7" "list_all dec_digit u" "text_value u = n mod STROOPS_PER_XLM"
proof -
  have "n mod STROOPS_PER_XLM < 10 ^ Suc 6" by (simp add: STROOPS_PER_XLM_def)
  then have "length (nat_text (n mod STROOPS_PER_XLM)) \<le> 7" using length_nat_text[of _ 6] by simp
  then show "length u = 7" by (simp add: u_def padStart_def)
  show "list_all dec_digit u" using nat_text_digits by (simp add: u_def padStart_def)
  show "text_value u = n mod STROOPS_PER_XLM" by (simp add: u_def nat_text_value)
qed

lemma abs_text_stake:
  "stake_text (abs_text n)"
  "text_value (before_point (abs_text n)) * STROOPS_PER_XLM +
     text_value (padEnd 7 (case after_point (abs_text n) of None \<Rightarrow> [] | Some u \<Rightarrow> u)) = n"
proof -
  let ?w = "nat_text (n div STROOPS_PER_XLM)" and ?u = "padStart 7 (nat_text (n mod STROOPS_PER_XLM))"
  note u = frac_text[of n]
  note w = nat_text_digits[of "n div STROOPS_PER_XLM"]
  have val: "n div STROOPS_PER_XLM * STROOPS_PER_XLM + n mod STROOPS_PER_XLM = n" by simp
  have pad: "padEnd 7 (drop_zeros ?u) = ?u" using padEnd_drop_zeros u(1) by blast
  have "stake_text (abs_text n) \<and> text_value (before_point (abs_text n)) * STROOPS_PER_XLM +
     text_value (padEnd 7 (case after_point (abs_text n) of None \<Rightarrow> [] | Some u \<Rightarrow> u)) = n"
  proof (cases "drop_zeros ?u = []")
    case True
    then have "?u = replicate 7 CHR ''0''" using pad by (simp only: padEnd_def) simp
    then have "n mod STROOPS_PER_XLM = 0" using u(3) by (metis text_value_zeros)
    then show ?thesis using True w val point_parts[OF w]
      by (simp add: abs_text_def stake_text_def nat_text_value padEnd_def)
  next
    case False
    have "length (drop_zeros ?u) \<le> 7" using length_drop_zeros[of ?u] u(1) by simp
    then show ?thesis using False w val point_parts(3,4)[OF w, of "drop_zeros ?u"] drop_zeros_digits[OF u(2)] pad u(3)
      by (simp add: abs_text_def stake_text_def nat_text_value Suc_le_eq)
  qed
  then show "stake_text (abs_text n)"
    "text_value (before_point (abs_text n)) * STROOPS_PER_XLM +
     text_value (padEnd 7 (case after_point (abs_text n) of None \<Rightarrow> [] | Some u \<Rightarrow> u)) = n"
    by blast+
qed

lemma no_ws_trim: "\<forall>c \<in> set s. \<not> js_ws c \<Longrightarrow> js_trim s = s"
proof -
  assume s: "\<forall>c \<in> set s. \<not> js_ws c"
  then have "dropWhile js_ws s = s" by (cases s) auto
  moreover have "dropWhile js_ws (rev s) = rev s" using s by (cases s rule: rev_cases) auto
  ultimately show ?thesis by (simp add: js_trim_def)
qed

lemma stake_text_trim: "stake_text s \<Longrightarrow> js_trim s = s"
proof (rule no_ws_trim)
  assume s: "stake_text s"
  then have "\<forall>c \<in> set (before_point s). \<not> js_ws c" "\<forall>u. after_point s = Some u \<longrightarrow> (\<forall>c \<in> set u. \<not> js_ws c)"
    using dec_digit_facts by (auto simp: stake_text_def list_all_iff)
  moreover have "set s \<subseteq> set (before_point s) \<union> (case after_point s of None \<Rightarrow> {} | Some u \<Rightarrow> insert CHR ''.'' (set u))"
    by (subst point_split[of s]) (auto split: option.split)
  moreover have "\<not> js_ws CHR ''.''" by code_simp
  ultimately show "\<forall>c \<in> set s. \<not> js_ws c" by (auto split: option.splits)
qed

text \<open>Where the stricter reader gives an amount, the validator gives the same one.\<close>

lemma stake_text_number: "stake_text s \<Longrightarrow> xlm_number s \<and> countDecimalPlaces s \<le> MAX_DECIMAL_PLACES"
  using stake_text_trim[of s]
  by (auto simp: stake_text_def xlm_number_def countDecimalPlaces_def MAX_DECIMAL_PLACES_def before_point_def split: option.splits)

lemma validator_value:
  "validateAndConvertXlmToStroops s =
    \<lparr>pr_valid = True, pr_stroops = Some (text_value (before_point (js_trim s)) * STROOPS_PER_XLM +
        text_value (padEnd 7 (case after_point (js_trim s) of None \<Rightarrow> [] | Some u \<Rightarrow> u))),
      pr_decimals = Some (countDecimalPlaces s), pr_message = None\<rparr>"
  if "xlm_number (js_trim s)" "countDecimalPlaces s \<le> MAX_DECIMAL_PLACES"
proof -
  have ne: "js_trim s \<noteq> []" using that(1) by (auto simp: xlm_number_def before_point_def after_point_def)
  have c: "countDecimalPlaces (js_trim s) = countDecimalPlaces s" by (simp add: countDecimalPlaces_def)
  show ?thesis
  proof (cases "after_point (js_trim s)")
    case None
    have "before_point (js_trim s) = js_trim s" using point_split[of "js_trim s"] None by simp
    then show ?thesis using that ne None c
      by (simp add: validateAndConvertXlmToStroops_def Let_def text_value_append MAX_DECIMAL_PLACES_def STROOPS_PER_XLM_def padEnd_def)
  next
    case (Some u)
    then have "length u \<le> 7" using that(2) by (simp add: countDecimalPlaces_def MAX_DECIMAL_PLACES_def)
    then have "length (padEnd 7 u) = 7" by (simp add: padEnd_def)
    then show ?thesis using that ne Some c
      by (simp add: validateAndConvertXlmToStroops_def Let_def text_value_append MAX_DECIMAL_PLACES_def STROOPS_PER_XLM_def)
  qed
qed

lemma stakeFromXlmInput_Some:
  "stakeFromXlmInput s = Some n \<longleftrightarrow> stake_text (js_trim s) \<and> 0 < n \<and>
    n = text_value (before_point (js_trim s)) * STROOPS_PER_XLM + text_value (padEnd 7 (case after_point (js_trim s) of None \<Rightarrow> [] | Some u \<Rightarrow> u))"
  by (auto simp: stakeFromXlmInput_def Let_def split: if_splits)

lemma validator_accepts_stake:
  "stakeFromXlmInput s = Some n \<Longrightarrow> pr_valid (validateAndConvertXlmToStroops s) \<and> pr_stroops (validateAndConvertXlmToStroops s) = Some n"
proof -
  assume "stakeFromXlmInput s = Some n"
  then have s: "stake_text (js_trim s)" and n: "n = text_value (before_point (js_trim s)) * STROOPS_PER_XLM +
      text_value (padEnd 7 (case after_point (js_trim s) of None \<Rightarrow> [] | Some u \<Rightarrow> u))"
    by (auto simp: stakeFromXlmInput_Some)
  have "countDecimalPlaces s \<le> MAX_DECIMAL_PLACES" using stake_text_number[OF s] by (simp add: countDecimalPlaces_def)
  then show ?thesis using validator_value[of s] stake_text_number[OF s] n by simp
qed

lemma validator_valid:
  assumes "pr_valid (validateAndConvertXlmToStroops s)"
  shows "xlm_number (js_trim s)" "countDecimalPlaces s \<le> MAX_DECIMAL_PLACES" "\<exists>n. pr_stroops (validateAndConvertXlmToStroops s) = Some n"
proof -
  show num: "xlm_number (js_trim s)" "countDecimalPlaces s \<le> MAX_DECIMAL_PLACES"
    using assms by (auto simp: validateAndConvertXlmToStroops_def Let_def countDecimalPlaces_def split: if_splits)
  show "\<exists>n. pr_stroops (validateAndConvertXlmToStroops s) = Some n" by (simp add: validator_value[OF num])
qed

lemma validator_trim [simp]: "validateAndConvertXlmToStroops (js_trim s) = validateAndConvertXlmToStroops s"
  by (simp add: validateAndConvertXlmToStroops_def)

text \<open>A valid amount that the stricter reader refuses has a point at one of its ends.\<close>

lemma readers_differ_only_at_ends:
  assumes "pr_valid (validateAndConvertXlmToStroops s)" "pr_stroops (validateAndConvertXlmToStroops s) = Some n" "0 < n"
  shows "stakeFromXlmInput s = Some n \<or> hd (js_trim s) = CHR ''.'' \<or> last (js_trim s) = CHR ''.''"
proof (cases "stake_text (js_trim s)")
  case True
  then show ?thesis using assms stake_text_number[OF True] validator_value[of s]
    by (auto simp: stakeFromXlmInput_Some countDecimalPlaces_def)
next
  case False
  have num: "xlm_number (js_trim s)" "countDecimalPlaces s \<le> MAX_DECIMAL_PLACES"
    using validator_valid[OF assms(1)] by blast+
  then have "before_point (js_trim s) = [] \<or> after_point (js_trim s) = Some []"
    using False by (auto simp: stake_text_def xlm_number_def countDecimalPlaces_def MAX_DECIMAL_PLACES_def Suc_le_eq before_point_def split: option.splits)
  moreover have "before_point (js_trim s) = [] \<Longrightarrow> after_point (js_trim s) \<noteq> None"
    using num(1) point_split[of "js_trim s"] by (auto simp: xlm_number_def split: option.splits)
  ultimately show ?thesis using point_split[of "js_trim s"] by (metis (no_types, lifting) append_Nil hd_append2 last.simps last_appendR list.sel(1) list.simps(3) not_None_eq option.case(2))
qed

text \<open>C23. What the frontend shows is what it reads: for every positive number of stroops the text shown by
  \<open>formatStroops\<close> is read back by \<open>stakeFromXlmInput\<close> and by the precision validator as the same number.\<close>
theorem amount_roundtrip:
  assumes "0 < n"
  shows "stakeFromXlmInput (formatStroops (int n)) = Some n \<and>
    pr_stroops (validateAndConvertXlmToStroops (formatStroops (int n))) = Some n"
proof -
  have "formatStroops (int n) = abs_text n" by (simp add: formatStroops_def)
  then have "stakeFromXlmInput (formatStroops (int n)) = Some n"
    using abs_text_stake[of n] stake_text_trim assms by (simp add: stakeFromXlmInput_Some)
  then show ?thesis using validator_accepts_stake by blast
qed

theorem amount_roundtrip_witness: "stakeFromXlmInput (formatStroops 25000001) = Some 25000001"
  using amount_roundtrip[of 25000001] by simp

text \<open>No money appears or disappears: for every positive stake, what the winner and the loser get together
  and what the two players of a draw get together is exactly the pot, the gains and losses cancel, and the network
  fee is not taken from the payout.\<close>
lemma payout_conserves_pot:
  assumes "computePayoutBreakdown stake action fee = Some b"
  shows "oa_gross (pb_win b) + oa_gross (pb_loss b) + pb_platformFee b = 2 * stake \<and>
    2 * oa_gross (pb_draw b) = 2 * stake \<and> oa_net (pb_win b) + oa_net (pb_loss b) = 0 \<and> oa_net (pb_draw b) = 0 \<and>
    oa_net (pb_loss b) < 0 \<and> 0 < oa_net (pb_win b)"
  using assms by (auto simp: computePayoutBreakdown_def PLATFORM_FEE_BPS_def Let_def split: if_splits)

lemma payout_conserves_pot_example:
  "\<exists>b. computePayoutBreakdown 25000000 DepositAction (feeConfigFromEnv None) = Some b \<and> oa_net (pb_win b) + oa_net (pb_loss b) = 0"
proof -
  obtain b where b: "computePayoutBreakdown 25000000 DepositAction (feeConfigFromEnv None) = Some b"
    by (simp add: computePayoutBreakdown_def Let_def)
  then show ?thesis using payout_conserves_pot[OF b] by blast
qed

text \<open>The texts the stricter reader misses: the validator reads five XLM where \<open>stakeFromXlmInput\<close> gives nothing.\<close>

lemma five_point:
  "validateAndConvertXlmToStroops ''5.'' = \<lparr>pr_valid = True, pr_stroops = Some 50000000, pr_decimals = Some 0, pr_message = None\<rparr>"
proof -
  have p: "before_point ''5.'' = ''5''" "after_point ''5.'' = Some []" "js_trim ''5.'' = ''5.''" "dec_digit CHR ''5''"
    by code_simp+
  have v: "text_value ''5'' = 5" "text_value (padEnd 7 []) = 0" by (simp add: text_value_def) (simp add: padEnd_def)
  have "xlm_number (js_trim ''5.'')" unfolding p(3) by (simp add: xlm_number_def p)
  moreover have c: "countDecimalPlaces ''5.'' = 0" by (simp add: countDecimalPlaces_def p)
  ultimately show ?thesis using validator_value[of "''5.''"] by (simp add: p v STROOPS_PER_XLM_def)
qed

lemma readers_differ_example:
  "pr_stroops (validateAndConvertXlmToStroops ''5.'') = Some 50000000 \<and> stakeFromXlmInput ''5.'' = None \<and>
   pr_stroops (validateAndConvertXlmToStroops ''.5'') = Some 5000000 \<and> stakeFromXlmInput ''.5'' = None"
proof -
  have p: "before_point ''5.'' = ''5''" "after_point ''5.'' = Some []" "before_point ''.5'' = []" "after_point ''.5'' = Some ''5''"
    "js_trim ''5.'' = ''5.''" "js_trim ''.5'' = ''.5''" "dec_digit CHR ''5''"
    by code_simp+
  have v: "text_value ''5'' = 5" "text_value [] = 0" by (simp_all add: text_value_def)
  have pad: "text_value (padEnd 7 []) = 0" by (simp add: padEnd_def)
  have pad5: "text_value (padEnd 7 ''5'') = 5000000" using text_value_append[of "''5''" "replicate 6 CHR ''0''"]
    unfolding v(1) text_value_zeros by (simp add: padEnd_def)
  have x: "xlm_number (js_trim ''5.'')" "xlm_number (js_trim ''.5'')" by (simp_all only: p) (simp_all add: xlm_number_def p)
  have c: "countDecimalPlaces ''5.'' \<le> MAX_DECIMAL_PLACES" "countDecimalPlaces ''.5'' \<le> MAX_DECIMAL_PLACES"
    by (simp_all add: countDecimalPlaces_def p MAX_DECIMAL_PLACES_def)
  have "pr_stroops (validateAndConvertXlmToStroops ''5.'') = Some 50000000" by (simp add: five_point)
  moreover have "pr_stroops (validateAndConvertXlmToStroops ''.5'') = Some 5000000"
    unfolding validator_value[OF x(2) c(2)] by (simp add: p v pad5 STROOPS_PER_XLM_def)
  moreover have "stakeFromXlmInput ''5.'' = None" "stakeFromXlmInput ''.5'' = None"
    by (simp_all add: stakeFromXlmInput_def stake_text_def p)
  ultimately show ?thesis by blast
qed

text \<open>Rounding truncates to a text the validator accepts.\<close>

lemma round_precision_valid:
  assumes "xlm_number (js_trim s)"
  shows "pr_valid (validateAndConvertXlmToStroops (roundXlmToPrecision s))"
proof (cases "countDecimalPlaces s \<le> MAX_DECIMAL_PLACES")
  case True
  then have "roundXlmToPrecision s = js_trim s" by (simp add: roundXlmToPrecision_def Let_def countDecimalPlaces_def)
  then show ?thesis using validator_value[of "js_trim s"] assms True by (simp add: countDecimalPlaces_def)
next
  case False
  then obtain u where u: "after_point (js_trim s) = Some u" "7 < length u"
    by (auto simp: countDecimalPlaces_def MAX_DECIMAL_PLACES_def split: option.splits)
  let ?b = "before_point (js_trim s)" and ?u = "take 7 u"
  have dig: "list_all dec_digit ?b" "list_all dec_digit u" using assms u by (auto simp: xlm_number_def)
  have dig': "list_all dec_digit ?u" using dig(2) by (auto simp: list_all_iff dest: in_set_takeD)
  have r: "roundXlmToPrecision s = ?b @ CHR ''.'' # ?u"
    using False u point_parts(1)[OF dig(2)] by (simp add: roundXlmToPrecision_def Let_def countDecimalPlaces_def MAX_DECIMAL_PLACES_def)
  have "js_trim (roundXlmToPrecision s) = roundXlmToPrecision s"
    unfolding r using dig(1) dig' dec_digit_facts by (intro no_ws_trim) (auto simp: list_all_iff js_ws_def)
  moreover have "xlm_number (roundXlmToPrecision s)" unfolding r using dig(1) dig' u(2) point_parts(3,4)[OF dig(1), of ?u]
    by (auto simp: xlm_number_def)
  moreover have "countDecimalPlaces (roundXlmToPrecision s) \<le> MAX_DECIMAL_PLACES"
    using calculation(1) point_parts(3,4)[OF dig(1), of ?u] unfolding r by (simp add: countDecimalPlaces_def MAX_DECIMAL_PLACES_def)
  ultimately show ?thesis using validator_value[of "roundXlmToPrecision s"] by simp
qed

end
