(* ===== verification/Json.thy ===== *)
theory Json
  imports Prelude
begin

text \<open>
  JSON values, as \<open>JSON.parse\<close> gives them: an object is the list of its members in their order, without
  repeated names. A number may be infinite, for a literal like \<open>1e999\<close>.
\<close>

datatype json =
    JsonNull
  | JsonBool bool
  | JsonNum js_num
  | JsonStr string
  | JsonArr "json list"
  | JsonObj "(string \<times> json) list"

text \<open>\<open>value[name]\<close>, \<open>None\<close> for undefined; only objects have members of the names the code asks for.\<close>

definition json_field :: "string \<Rightarrow> json \<Rightarrow> json option" where
  "json_field name v = (case v of JsonObj ms \<Rightarrow> map_of ms name | _ \<Rightarrow> None)"

definition json_str :: "json option \<Rightarrow> string option" where
  "json_str v = (case v of Some (JsonStr s) \<Rightarrow> Some s | _ \<Rightarrow> None)"

definition json_num :: "json option \<Rightarrow> js_num option" where
  "json_num v = (case v of Some (JsonNum n) \<Rightarrow> Some n | _ \<Rightarrow> None)"

definition json_list :: "json option \<Rightarrow> json list option" where
  "json_list v = (case v of Some (JsonArr xs) \<Rightarrow> Some xs | _ \<Rightarrow> None)"

definition json_object :: "json \<Rightarrow> bool" where
  "json_object v = (case v of JsonArr _ \<Rightarrow> True | JsonObj _ \<Rightarrow> True | _ \<Rightarrow> False)"

text \<open>The names every object inherits, which the \<open>in\<close> operator finds too.\<close>

definition INHERITED :: "string list" where
  "INHERITED = [''constructor'', ''hasOwnProperty'', ''isPrototypeOf'', ''propertyIsEnumerable'', ''toLocaleString'', ''toString'',
     ''valueOf'', ''__proto__'', ''__defineGetter__'', ''__defineSetter__'', ''__lookupGetter__'', ''__lookupSetter__'']"

definition json_truthy :: "json option \<Rightarrow> bool" where
  "json_truthy v = (case v of None \<Rightarrow> False | Some JsonNull \<Rightarrow> False | Some (JsonBool b) \<Rightarrow> b | Some (JsonNum n) \<Rightarrow> n \<noteq> Fin 0 \<and> n \<noteq> NaN
     | Some (JsonStr s) \<Rightarrow> s \<noteq> [] | _ \<Rightarrow> True)"

text \<open>A finite number survives \<open>JSON.stringify\<close>, any other becomes null.\<close>

definition json_of_num :: "js_num \<Rightarrow> json" where
  "json_of_num n = (case n of Fin r \<Rightarrow> JsonNum (Fin r) | _ \<Rightarrow> JsonNull)"

lemma json_field_simps [simp]:
  "json_field n (JsonObj ms) = map_of ms n" "json_field n JsonNull = None" "json_field n (JsonBool b) = None"
  "json_field n (JsonNum x) = None" "json_field n (JsonStr s) = None" "json_field n (JsonArr xs) = None"
  by (simp_all add: json_field_def)

lemma json_read_simps [simp]:
  "json_str None = None" "json_num None = None" "json_list None = None"
  "json_str (Some (JsonStr s)) = Some s" "json_num (Some (JsonNum x)) = Some x" "json_list (Some (JsonArr xs)) = Some xs"
  by (simp_all add: json_str_def json_num_def json_list_def)

lemma json_of_num_Fin [simp]: "json_of_num (Fin r) = JsonNum (Fin r)"
  by (simp add: json_of_num_def)

end
