(* ===== verification/ResponsiblePlay.thy ===== *)
theory ResponsiblePlay
  imports Amounts Json
begin

text \<open>
  The responsible-play controls of \<open>utils/responsible-play.ts\<close>: a self-exclusion and a stake limit kept in the
  browser's storage under the wallet's address. Times are milliseconds. The messages shown are left out.
\<close>

datatype exclusion_period = Hours24 | Days7 | Days30 | Months6

definition SELF_EXCLUSION_PERIODS :: "exclusion_period \<Rightarrow> rat" where
  "SELF_EXCLUSION_PERIODS p =
    (case p of Hours24 \<Rightarrow> 24 * 60 * 60 * 1000 | Days7 \<Rightarrow> 7 * 24 * 60 * 60 * 1000
     | Days30 \<Rightarrow> 30 * 24 * 60 * 60 * 1000 | Months6 \<Rightarrow> 182 * 24 * 60 * 60 * 1000)"

definition LIMIT_INCREASE_DELAY_MS :: rat where "LIMIT_INCREASE_DELAY_MS = 24 * 60 * 60 * 1000"

record play_settings =
  ps_excludedUntil :: "rat option"
  ps_stakeLimit :: "string option"
  ps_pendingLimit :: "(string option \<times> js_num) option"

definition no_settings :: play_settings where
  "no_settings = \<lparr>ps_excludedUntil = None, ps_stakeLimit = None, ps_pendingLimit = None\<rparr>"

datatype wager_check = WagerAllowed | SelfExcluded rat | OverLimit nat

text \<open>The browser's storage: whether there is one, and what is under each key; a text that is no JSON is \<open>Garbage\<close>.\<close>

datatype stored_text = Garbage | Text json

record browser_storage =
  bs_available :: bool
  bs_items :: "string \<Rightarrow> stored_text option"

definition storageKey :: "string \<Rightarrow> string" where
  "storageKey address = ''smile4money:responsible-play:'' @ address"

definition isStroops :: "string \<Rightarrow> bool" where
  "isStroops v \<longleftrightarrow> v \<noteq> [] \<and> list_all dec_digit v \<and> 0 < text_value v"

definition read_excluded :: "json \<Rightarrow> rat option" where
  "read_excluded value = (case json_num (json_field ''excludedUntil'' value) of Some (Fin r) \<Rightarrow> Some r | _ \<Rightarrow> None)"

definition read_limit :: "json option \<Rightarrow> string option" where
  "read_limit v = (case json_str v of Some s \<Rightarrow> if isStroops s then Some s else None | None \<Rightarrow> None)"

definition read_pending :: "json \<Rightarrow> (string option \<times> js_num) option" where
  "read_pending value =
    (case json_field ''pendingLimit'' value of
       None \<Rightarrow> None
     | Some pending \<Rightarrow>
        (case json_num (json_field ''effectiveAt'' pending) of
           None \<Rightarrow> None
         | Some t \<Rightarrow>
            (if json_field ''value'' pending = Some JsonNull then Some (None, t)
             else (case read_limit (json_field ''value'' pending) of Some s \<Rightarrow> Some (Some s, t) | None \<Rightarrow> None))))"

definition loadSettings :: "browser_storage \<Rightarrow> string \<Rightarrow> play_settings" where
  "loadSettings st address =
    (case (if bs_available st then bs_items st (storageKey address) else None) of
       None \<Rightarrow> no_settings
     | Some Garbage \<Rightarrow> no_settings
     | Some (Text value) \<Rightarrow>
        \<lparr>ps_excludedUntil = read_excluded value, ps_stakeLimit = read_limit (json_field ''stakeLimit'' value),
         ps_pendingLimit = read_pending value\<rparr>)"

definition js_at_most :: "js_num \<Rightarrow> rat \<Rightarrow> bool" where
  "js_at_most x now = (case x of Fin r \<Rightarrow> r \<le> now | NInf \<Rightarrow> True | _ \<Rightarrow> False)"

definition apply_pending :: "rat \<Rightarrow> play_settings \<Rightarrow> play_settings" where
  "apply_pending now s =
    (case ps_pendingLimit s of
       Some (v, effectiveAt) \<Rightarrow> if js_at_most effectiveAt now then s\<lparr>ps_stakeLimit := v, ps_pendingLimit := None\<rparr> else s
     | None \<Rightarrow> s)"

definition effectiveSettings :: "browser_storage \<Rightarrow> string \<Rightarrow> rat \<Rightarrow> play_settings" where
  "effectiveSettings st address now = apply_pending now (loadSettings st address)"

text \<open>\<open>JSON.stringify\<close> of the settings: absent fields are left out.\<close>

definition json_settings :: "play_settings \<Rightarrow> json" where
  "json_settings s = JsonObj
    ((case ps_excludedUntil s of None \<Rightarrow> [] | Some r \<Rightarrow> [(''excludedUntil'', JsonNum (Fin r))]) @
     (case ps_stakeLimit s of None \<Rightarrow> [] | Some l \<Rightarrow> [(''stakeLimit'', JsonStr l)]) @
     (case ps_pendingLimit s of None \<Rightarrow> []
      | Some (v, t) \<Rightarrow> [(''pendingLimit'', JsonObj [(''value'', case v of None \<Rightarrow> JsonNull | Some l \<Rightarrow> JsonStr l), (''effectiveAt'', json_of_num t)])]))"

text \<open>\<open>room\<close> says whether \<open>setItem\<close> succeeds.\<close>

definition saveSettings :: "bool \<Rightarrow> string \<Rightarrow> play_settings \<Rightarrow> browser_storage \<Rightarrow> bool \<times> browser_storage" where
  "saveSettings room address s st =
    (if bs_available st \<and> room
     then (True, st\<lparr>bs_items := (bs_items st)(storageKey address \<mapsto> Text (json_settings s))\<rparr>)
     else (False, st))"

definition activeExclusion :: "browser_storage \<Rightarrow> string \<Rightarrow> rat \<Rightarrow> rat option" where
  "activeExclusion st address now =
    (case ps_excludedUntil (loadSettings st address) of Some until \<Rightarrow> if now < until then Some until else None | None \<Rightarrow> None)"

definition startSelfExclusion :: "bool \<Rightarrow> string \<Rightarrow> exclusion_period \<Rightarrow> rat \<Rightarrow> browser_storage \<Rightarrow> (bool \<times> rat) \<times> browser_storage" where
  "startSelfExclusion room address p now st =
    (let settings = effectiveSettings st address now;
         requested = now + SELF_EXCLUSION_PERIODS p;
         until = max requested (case ps_excludedUntil settings of None \<Rightarrow> 0 | Some u \<Rightarrow> u);
         (saved, st1) = saveSettings room address (settings\<lparr>ps_excludedUntil := Some until\<rparr>) st
     in ((saved, until), st1))"

text \<open>\<open>None\<close> is the \<open>RangeError\<close>.\<close>

definition setStakeLimit :: "bool \<Rightarrow> string \<Rightarrow> int option \<Rightarrow> rat \<Rightarrow> browser_storage \<Rightarrow> (bool \<times> rat) option \<times> browser_storage" where
  "setStakeLimit room address limit now st =
    (if (case limit of Some l \<Rightarrow> l \<le> 0 | None \<Rightarrow> False) then (None, st)
     else (let settings = effectiveSettings st address now;
               current = map_option text_value (ps_stakeLimit settings);
               tightens = (case limit of None \<Rightarrow> False
                           | Some l \<Rightarrow> (case current of None \<Rightarrow> True | Some c \<Rightarrow> l \<le> int c)) in
       if tightens
       then (let (saved, st1) = saveSettings room address (settings\<lparr>ps_stakeLimit := map_option int_text limit, ps_pendingLimit := None\<rparr>) st
             in (Some (saved, now), st1))
       else (let effectiveAt = now + LIMIT_INCREASE_DELAY_MS;
                 (saved, st1) = saveSettings room address (settings\<lparr>ps_pendingLimit := Some (map_option int_text limit, Fin effectiveAt)\<rparr>) st
             in (Some (saved, effectiveAt), st1))))"

definition checkWagerAllowed :: "browser_storage \<Rightarrow> string \<Rightarrow> nat \<Rightarrow> rat \<Rightarrow> wager_check" where
  "checkWagerAllowed st address stake now =
    (case activeExclusion st address now of
       Some until \<Rightarrow> SelfExcluded until
     | None \<Rightarrow>
        (case ps_stakeLimit (effectiveSettings st address now) of
           Some l \<Rightarrow> if text_value l < stake then OverLimit (text_value l) else WagerAllowed
         | None \<Rightarrow> WagerAllowed))"

section \<open>What is saved is loaded\<close>

definition settings_ok :: "play_settings \<Rightarrow> bool" where
  "settings_ok s \<longleftrightarrow>
    (\<forall>l. ps_stakeLimit s = Some l \<longrightarrow> isStroops l) \<and>
    (\<forall>v t. ps_pendingLimit s = Some (v, t) \<longrightarrow> (\<forall>l. v = Some l \<longrightarrow> isStroops l))"

lemma read_limit_Some: "read_limit v = Some l \<longleftrightarrow> v = Some (JsonStr l) \<and> isStroops l"
  by (auto simp: read_limit_def json_str_def split: option.splits json.splits if_splits)

lemma settings_ok_no [simp]: "settings_ok no_settings"
  by (simp add: settings_ok_def no_settings_def)

lemma settings_ok_load: "settings_ok (loadSettings st a)"
proof (cases "if bs_available st then bs_items st (storageKey a) else None")
  case (Some t)
  then show ?thesis
    by (cases t) (auto simp: loadSettings_def settings_ok_def no_settings_def read_limit_Some read_pending_def split: option.splits if_splits)
qed (simp add: loadSettings_def)

lemma settings_ok_apply: "settings_ok s \<Longrightarrow> settings_ok (apply_pending now s)"
  by (auto simp: settings_ok_def apply_pending_def split: option.splits if_splits prod.splits)

lemma settings_ok_effective: "settings_ok (effectiveSettings st a now)"
  by (simp add: effectiveSettings_def settings_ok_apply settings_ok_load)

text \<open>Settings that are well formed are loaded as they were saved; a pending change whose time is no finite
  number is lost.\<close>

definition kept_pending :: "(string option \<times> js_num) option \<Rightarrow> (string option \<times> js_num) option" where
  "kept_pending p = (case p of Some (v, Fin t) \<Rightarrow> Some (v, Fin t) | _ \<Rightarrow> None)"

lemma read_saved:
  assumes "settings_ok s"
  shows "read_excluded (json_settings s) = ps_excludedUntil s"
    "read_limit (json_field ''stakeLimit'' (json_settings s)) = ps_stakeLimit s"
    "read_pending (json_settings s) = kept_pending (ps_pendingLimit s)"
proof -
  have f: "json_field ''excludedUntil'' (json_settings s) = map_option (\<lambda>r. JsonNum (Fin r)) (ps_excludedUntil s)"
    "json_field ''stakeLimit'' (json_settings s) = map_option JsonStr (ps_stakeLimit s)"
    "json_field ''pendingLimit'' (json_settings s) = map_option (\<lambda>(v, t). JsonObj [(''value'', case v of None \<Rightarrow> JsonNull | Some l \<Rightarrow> JsonStr l),
        (''effectiveAt'', json_of_num t)]) (ps_pendingLimit s)"
    by (auto simp: json_settings_def map_add_def split: option.splits)
  show "read_excluded (json_settings s) = ps_excludedUntil s"
    by (cases "ps_excludedUntil s") (simp_all add: read_excluded_def f)
  show "read_limit (json_field ''stakeLimit'' (json_settings s)) = ps_stakeLimit s"
    using assms by (cases "ps_stakeLimit s") (simp_all add: f read_limit_def settings_ok_def)
  show "read_pending (json_settings s) = kept_pending (ps_pendingLimit s)"
  proof (cases "ps_pendingLimit s")
    case (Some p)
    obtain v t where p: "p = (v, t)" by (cases p)
    have "\<And>l. v = Some l \<Longrightarrow> isStroops l" using assms Some p by (simp add: settings_ok_def)
    then show ?thesis using Some p
      by (cases v; cases t) (simp_all add: read_pending_def f kept_pending_def json_of_num_def json_num_def read_limit_def)
  qed (simp add: read_pending_def f kept_pending_def)
qed

lemma load_saved:
  assumes "settings_ok s" "saveSettings room a s st = (saved, st1)"
  shows "loadSettings st1 b = (if saved \<and> b = a then s\<lparr>ps_pendingLimit := kept_pending (ps_pendingLimit s)\<rparr> else loadSettings st b)"
proof (cases "bs_available st \<and> room")
  case True
  then have "saved" "st1 = st\<lparr>bs_items := (bs_items st)(storageKey a \<mapsto> Text (json_settings s))\<rparr>"
    using assms(2) by (auto simp: saveSettings_def)
  then show ?thesis using True read_saved[OF assms(1)]
    by (auto simp: loadSettings_def storageKey_def)
qed (use assms(2) in \<open>auto simp: saveSettings_def\<close>)

lemma isStroops_nat_text: "0 < n \<Longrightarrow> isStroops (nat_text n)"
  by (simp add: isStroops_def nat_text_digits nat_text_value)

lemma isStroops_int_text: "0 < l \<Longrightarrow> isStroops (int_text l)"
  by (simp add: int_text_def isStroops_nat_text)

lemma int_text_value: "0 < l \<Longrightarrow> text_value (int_text l) = nat l"
  by (simp add: int_text_def nat_text_value)


section \<open>A commitment that cannot be undone early\<close>

text \<open>What the page can do at some time, for some address, whether or not the browser can save it.\<close>

datatype play_action = Exclude exclusion_period | Limit "int option"

record play_event =
  pe_address :: string
  pe_action :: play_action
  pe_now :: rat
  pe_room :: bool

definition play_step :: "play_event \<Rightarrow> browser_storage \<Rightarrow> browser_storage" where
  "play_step e st = (case pe_action e of
     Exclude p \<Rightarrow> snd (startSelfExclusion (pe_room e) (pe_address e) p (pe_now e) st)
   | Limit l \<Rightarrow> snd (setStakeLimit (pe_room e) (pe_address e) l (pe_now e) st))"

lemma apply_pending_excluded [simp]: "ps_excludedUntil (apply_pending now s) = ps_excludedUntil s"
  by (simp add: apply_pending_def split: option.split prod.split)

definition excluded_to :: "rat \<Rightarrow> string \<Rightarrow> browser_storage \<Rightarrow> bool" where
  "excluded_to until a st \<longleftrightarrow> (\<exists>u. ps_excludedUntil (loadSettings st a) = Some u \<and> until \<le> u)"

text \<open>One action saves settings, or leaves the storage as it was.\<close>

lemma play_step_cases:
  obtains "play_step e st = st"
  | s saved where "saveSettings (pe_room e) (pe_address e) s st = (saved, play_step e st)" "settings_ok s"
    "ps_excludedUntil s = ps_excludedUntil (loadSettings st (pe_address e)) \<or>
      (\<exists>u. ps_excludedUntil s = Some u \<and> (\<forall>w. ps_excludedUntil (loadSettings st (pe_address e)) = Some w \<longrightarrow> w \<le> u))"
    "(ps_stakeLimit s = ps_stakeLimit (effectiveSettings st (pe_address e) (pe_now e)) \<and>
        (ps_pendingLimit s = ps_pendingLimit (effectiveSettings st (pe_address e) (pe_now e)) \<or>
         (\<exists>v. ps_pendingLimit s = Some (v, Fin (pe_now e + LIMIT_INCREASE_DELAY_MS))))) \<or>
      (\<exists>l. ps_stakeLimit s = Some l \<and> ps_pendingLimit s = None \<and>
         (\<forall>c. ps_stakeLimit (effectiveSettings st (pe_address e) (pe_now e)) = Some c \<longrightarrow> text_value l \<le> text_value c))"
proof (cases "pe_action e")
  case (Exclude p)
  let ?eff = "effectiveSettings st (pe_address e) (pe_now e)"
  let ?s = "?eff\<lparr>ps_excludedUntil := Some (max (pe_now e + SELF_EXCLUSION_PERIODS p) (case ps_excludedUntil ?eff of None \<Rightarrow> 0 | Some u \<Rightarrow> u))\<rparr>"
  obtain saved st1 where sv: "saveSettings (pe_room e) (pe_address e) ?s st = (saved, st1)" by fastforce
  then have "play_step e st = st1" using Exclude by (simp add: play_step_def startSelfExclusion_def Let_def)
  moreover have "settings_ok ?s" using settings_ok_effective[of st "pe_address e" "pe_now e"] by (simp add: settings_ok_def)
  ultimately show ?thesis using that(2)[of ?s saved] sv by (simp add: effectiveSettings_def)
next
  case (Limit l)
  let ?eff = "effectiveSettings st (pe_address e) (pe_now e)"
  have ok: "settings_ok ?eff" by (rule settings_ok_effective)
  show ?thesis
  proof (cases "case l of Some l \<Rightarrow> l \<le> 0 | None \<Rightarrow> False")
    case True
    then show ?thesis using that(1) Limit by (simp add: play_step_def setStakeLimit_def)
  next
    case pos: False
    let ?tight = "\<exists>x. l = Some x \<and> (\<forall>c. ps_stakeLimit ?eff = Some c \<longrightarrow> x \<le> int (text_value c))"
    have tight: "(case l of None \<Rightarrow> False | Some l \<Rightarrow> (case map_option text_value (ps_stakeLimit ?eff) of None \<Rightarrow> True | Some c \<Rightarrow> l \<le> int c)) \<longleftrightarrow> ?tight"
      by (auto split: option.split)
    show ?thesis
    proof (cases ?tight)
      case True
      then obtain x where x: "l = Some x" "0 < x" "\<forall>c. ps_stakeLimit ?eff = Some c \<longrightarrow> x \<le> int (text_value c)" using pos by auto
      let ?s = "?eff\<lparr>ps_stakeLimit := Some (int_text x), ps_pendingLimit := None\<rparr>"
      obtain saved st1 where sv: "saveSettings (pe_room e) (pe_address e) ?s st = (saved, st1)" by fastforce
      have "play_step e st = st1" using Limit pos tight True x(1) sv by (simp add: play_step_def setStakeLimit_def Let_def)
      moreover have "settings_ok ?s" using isStroops_int_text x(2) by (simp add: settings_ok_def)
      moreover have "\<forall>c. ps_stakeLimit ?eff = Some c \<longrightarrow> text_value (int_text x) \<le> text_value c" using x by (auto simp: int_text_value)
      ultimately show ?thesis using that(2)[of ?s saved] sv by (simp add: effectiveSettings_def)
    next
      case False
      let ?s = "?eff\<lparr>ps_pendingLimit := Some (map_option int_text l, Fin (pe_now e + LIMIT_INCREASE_DELAY_MS))\<rparr>"
      obtain saved st1 where sv: "saveSettings (pe_room e) (pe_address e) ?s st = (saved, st1)" by fastforce
      have "play_step e st = st1" using Limit pos tight False sv by (simp add: play_step_def setStakeLimit_def Let_def)
      moreover have "settings_ok ?s" using ok pos isStroops_int_text by (auto simp: settings_ok_def not_le split: option.splits)
      ultimately show ?thesis using that(2)[of ?s saved] sv by (simp add: effectiveSettings_def)
    qed
  qed
qed

lemma excluded_to_step: "excluded_to until a st \<Longrightarrow> excluded_to until a (play_step e st)"
proof (cases rule: play_step_cases[of e st])
  case (2 s saved)
  assume ex: "excluded_to until a st"
  show ?thesis
  proof (cases "saved \<and> a = pe_address e")
    case True
    then show ?thesis using load_saved[OF 2(2,1), of a] 2(3) ex by (auto simp: excluded_to_def)
  next
    case False
    then have "loadSettings (play_step e st) a = loadSettings st a" using load_saved[OF 2(2,1), of a] by auto
    then show ?thesis using ex by (simp add: excluded_to_def)
  qed
qed simp

lemma excluded_to_run: "excluded_to until a st \<Longrightarrow> excluded_to until a (fold play_step es st)"
  by (induction es arbitrary: st) (simp_all add: excluded_to_step)

text \<open>C24. A self-exclusion is a commitment: once the page has an address excluded until some time, no sequence of
  the page's actions, for any addresses, at any times and with any failures to save, lets a wager of that address
  through before that time.\<close>
theorem exclusion_is_final:
  assumes "activeExclusion st a now = Some until" "now' < until"
  shows "\<exists>u. checkWagerAllowed (fold play_step es st) a stake now' = SelfExcluded u \<and> until \<le> u"
proof -
  have "excluded_to until a st" using assms(1) by (auto simp: activeExclusion_def excluded_to_def split: option.splits if_splits)
  then obtain u where "ps_excludedUntil (loadSettings (fold play_step es st) a) = Some u" "until \<le> u"
    using excluded_to_run by (fastforce simp: excluded_to_def)
  then show ?thesis using assms(2) by (simp add: checkWagerAllowed_def activeExclusion_def)
qed

definition week_ex :: browser_storage where
  "week_ex = snd (startSelfExclusion True ''GA'' Days7 1000 \<lparr>bs_available = True, bs_items = Map.empty\<rparr>)"

definition undo_ex :: "play_event list" where
  "undo_ex = [\<lparr>pe_address = ''GA'', pe_action = Exclude Hours24, pe_now = 2000, pe_room = True\<rparr>,
    \<lparr>pe_address = ''GA'', pe_action = Limit None, pe_now = 3000, pe_room = False\<rparr>]"

lemma week_ex_active: "activeExclusion week_ex ''GA'' 1500 = Some 604801000"
proof -
  let ?st = "\<lparr>bs_available = True, bs_items = Map.empty\<rparr>"
  let ?s = "no_settings\<lparr>ps_excludedUntil := Some 604801000\<rparr>"
  have eff: "effectiveSettings ?st ''GA'' 1000 = no_settings"
    by (simp add: effectiveSettings_def loadSettings_def apply_pending_def no_settings_def)
  have "saveSettings True ''GA'' ?s ?st = (True, week_ex)"
    by (simp add: week_ex_def startSelfExclusion_def eff Let_def SELF_EXCLUSION_PERIODS_def saveSettings_def no_settings_def)
  moreover have "settings_ok ?s" by (simp add: settings_ok_def no_settings_def)
  ultimately have "ps_excludedUntil (loadSettings week_ex ''GA'') = Some 604801000" using load_saved by fastforce
  then show ?thesis by (simp add: activeExclusion_def)
qed

theorem exclusion_is_final_witness:
  "\<exists>u. checkWagerAllowed (fold play_step undo_ex week_ex) ''GA'' 1 600000000 = SelfExcluded u \<and> 604801000 \<le> u"
  using exclusion_is_final[OF week_ex_active, of 600000000 undo_ex 1] by simp

text \<open>From now on the limit in force is at most \<open>cap\<close>, and nothing pending is due before \<open>until\<close>.\<close>

definition held_settings :: "rat \<Rightarrow> nat \<Rightarrow> play_settings \<Rightarrow> bool" where
  "held_settings until cap s \<longleftrightarrow>
    (\<exists>l. ps_stakeLimit s = Some l \<and> text_value l \<le> cap) \<and>
    (\<forall>v t. ps_pendingLimit s = Some (v, t) \<longrightarrow> (\<forall>now < until. \<not> js_at_most t now))"

definition limit_held :: "rat \<Rightarrow> rat \<Rightarrow> nat \<Rightarrow> string \<Rightarrow> browser_storage \<Rightarrow> bool" where
  "limit_held since until cap a st \<longleftrightarrow>
    (\<forall>now. since \<le> now \<and> now < until \<longrightarrow> held_settings until cap (effectiveSettings st a now))"

lemma held_apply: "held_settings until cap s \<Longrightarrow> now < until \<Longrightarrow> apply_pending now s = s"
  by (auto simp: held_settings_def apply_pending_def split: option.split prod.split)

lemma held_kept: "held_settings until cap s \<Longrightarrow> held_settings until cap (s\<lparr>ps_pendingLimit := kept_pending (ps_pendingLimit s)\<rparr>)"
proof -
  have kept: "kept_pending p = Some (v, t) \<Longrightarrow> p = Some (v, t)" for p v t
    by (auto simp: kept_pending_def split: option.splits js_num.splits)
  assume "held_settings until cap s"
  then show ?thesis by (auto simp: held_settings_def dest!: kept)
qed

lemma limit_held_step:
  assumes "limit_held since until cap a st" "since \<le> pe_now e" "pe_now e < until" "until \<le> pe_now e + LIMIT_INCREASE_DELAY_MS"
  shows "limit_held since until cap a (play_step e st)"
proof (cases rule: play_step_cases[of e st])
  case (2 s saved)
  show ?thesis
  proof (cases "saved \<and> a = pe_address e")
    case True
    let ?eff = "effectiveSettings st (pe_address e) (pe_now e)"
    have eff: "held_settings until cap ?eff" using assms True by (simp add: limit_held_def)
    obtain c where c: "ps_stakeLimit ?eff = Some c" "text_value c \<le> cap" using eff by (auto simp: held_settings_def)
    have "\<exists>l. ps_stakeLimit s = Some l \<and> text_value l \<le> cap" using 2(4) c by fastforce
    moreover have "\<not> js_at_most t now" if "ps_pendingLimit s = Some (v, t)" "now < until" for v t now
    proof -
      have "ps_pendingLimit ?eff = Some (v, t) \<or> t = Fin (pe_now e + LIMIT_INCREASE_DELAY_MS)" using 2(4) that(1) by auto
      then show ?thesis using eff that(2) assms(4) by (auto simp: held_settings_def js_at_most_def)
    qed
    ultimately have "held_settings until cap s" by (auto simp: held_settings_def)
    then have h: "held_settings until cap (s\<lparr>ps_pendingLimit := kept_pending (ps_pendingLimit s)\<rparr>)" by (rule held_kept)
    have "loadSettings (play_step e st) a = s\<lparr>ps_pendingLimit := kept_pending (ps_pendingLimit s)\<rparr>"
      using load_saved[OF 2(2,1), of a] True by simp
    then show ?thesis using h held_apply[OF h] by (simp add: limit_held_def effectiveSettings_def)
  next
    case False
    then have "loadSettings (play_step e st) a = loadSettings st a" using load_saved[OF 2(2,1), of a] by auto
    then show ?thesis using assms(1) by (simp add: limit_held_def effectiveSettings_def)
  qed
qed (use assms(1) in simp)

lemma limit_held_start:
  assumes "ps_stakeLimit (effectiveSettings st a now) = Some l" "ps_pendingLimit (effectiveSettings st a now) = None"
  shows "limit_held now until (text_value l) a st"
proof -
  have same: "effectiveSettings st a t = effectiveSettings st a now" if "now \<le> t" for t
  proof (cases "ps_pendingLimit (loadSettings st a)")
    case (Some p)
    obtain v x where p: "p = (v, x)" by (cases p)
    have "js_at_most x now" using assms(2) Some p by (auto simp: effectiveSettings_def apply_pending_def split: if_splits)
    moreover have "js_at_most x t" using calculation that by (cases x) (auto simp: js_at_most_def)
    ultimately show ?thesis using Some p by (simp add: effectiveSettings_def apply_pending_def)
  qed (simp add: effectiveSettings_def apply_pending_def)
  have "held_settings until (text_value l) (effectiveSettings st a now)" using assms by (simp add: held_settings_def)
  then show ?thesis unfolding limit_held_def by (intro allI impI, subst same, blast)
qed

text \<open>C25. A stake limit can be lowered at once but not raised: when an address has a limit and no change pending,
  then whatever the page's actions do in the following 24 hours, a stake above that limit is refused for all of
  that time.\<close>
theorem limit_raise_delayed:
  assumes "ps_stakeLimit (effectiveSettings st a now) = Some l" "ps_pendingLimit (effectiveSettings st a now) = None"
    "\<forall>e \<in> set es. now \<le> pe_now e \<and> pe_now e < now + LIMIT_INCREASE_DELAY_MS"
    "now \<le> now'" "now' < now + LIMIT_INCREASE_DELAY_MS" "text_value l < stake"
  shows "checkWagerAllowed (fold play_step es st) a stake now' \<noteq> WagerAllowed"
proof -
  let ?until = "now + LIMIT_INCREASE_DELAY_MS"
  have "limit_held now ?until (text_value l) a st" using limit_held_start assms(1,2) by blast
  then have "limit_held now ?until (text_value l) a (fold play_step es st)" using assms(3)
  proof (induction es arbitrary: st)
    case (Cons e es)
    then show ?case using limit_held_step[of now ?until "text_value l" a st e] by simp
  qed simp
  then have "held_settings ?until (text_value l) (effectiveSettings (fold play_step es st) a now')"
    using assms(4,5) by (simp add: limit_held_def)
  then show ?thesis using assms(6) by (auto simp: checkWagerAllowed_def held_settings_def split: option.split)
qed

definition limited_ex :: browser_storage where
  "limited_ex = \<lparr>bs_available = True, bs_items = [storageKey ''GA'' \<mapsto> Text (JsonObj [(''stakeLimit'', JsonStr ''500'')])]\<rparr>"

definition raise_ex :: "play_event list" where
  "raise_ex = [\<lparr>pe_address = ''GA'', pe_action = Limit (Some 9000), pe_now = 10, pe_room = True\<rparr>,
    \<lparr>pe_address = ''GA'', pe_action = Limit None, pe_now = 20, pe_room = True\<rparr>]"

theorem limit_raise_delayed_witness:
  "checkWagerAllowed (fold play_step raise_ex limited_ex) ''GA'' 501 86399999 \<noteq> WagerAllowed"
proof -
  have five: "text_value ''500'' = 500" "dec_digit CHR ''5''" "dec_digit CHR ''0''" by (simp add: text_value_def) code_simp+
  have load: "loadSettings limited_ex ''GA'' = no_settings\<lparr>ps_stakeLimit := Some ''500''\<rparr>"
    by (simp add: loadSettings_def limited_ex_def read_excluded_def read_limit_def read_pending_def isStroops_def five no_settings_def)
  then have "effectiveSettings limited_ex ''GA'' 0 = no_settings\<lparr>ps_stakeLimit := Some ''500''\<rparr>"
    by (simp add: effectiveSettings_def apply_pending_def no_settings_def)
  then show ?thesis
    using limit_raise_delayed[of limited_ex "''GA''" 0 "''500''" raise_ex 86399999 501]
    by (simp add: no_settings_def five raise_ex_def LIMIT_INCREASE_DELAY_MS_def)
qed

end
