(* ===== verification/CreateMatch.thy ===== *)
theory CreateMatch
  imports ResponsiblePlay
begin

text \<open>
  The create-match form of \<open>components/CreateMatch.tsx\<close>: its validation, the request to the backend, the
  review before the signature and the buttons, as a state machine of the handlers. The state is what the
  component keeps with \<open>useState\<close>; a handler that awaits is split where it awaits. Of the texts shown only
  those the state keeps are modelled. The review's summary is built by a function the repository does not
  contain, so whether it succeeds is an argument.
\<close>

section \<open>The form\<close>

datatype chess_site = SiteLichess | SiteChesscom
datatype stake_token = TokenXlm | TokenUsdc
datatype create_status = CreateIdle | CreateValidating | CreatePending | CreateSuccess | CreateError
datatype form_key = KeyPlayer2 | KeyStake | KeyStakeWarning | KeyGameId | KeyUsername | KeyGameValidation

record create_form =
  cf_player2 :: string
  cf_stake :: string
  cf_gameId :: string
  cf_platform :: chess_site
  cf_username :: string

definition empty_form :: create_form where
  "empty_form = \<lparr>cf_player2 = [], cf_stake = [], cf_gameId = [], cf_platform = SiteLichess, cf_username = []\<rparr>"

type_synonym form_errors = "form_key \<Rightarrow> string option"

definition MIN_STAKE_STROOPS :: nat where "MIN_STAKE_STROOPS = 1"
definition MAX_STAKE_STROOPS :: nat where "MAX_STAKE_STROOPS = 10000000000000"

text \<open>\<open>addr\<close> is the SDK's test of an address.\<close>

definition validate_player2 :: "(string \<Rightarrow> bool) \<Rightarrow> create_form \<Rightarrow> string option" where
  "validate_player2 addr d =
    (if js_trim (cf_player2 d) = [] then Some ''Player 2 address is required''
     else if \<not> addr (cf_player2 d) then Some ''Invalid Stellar address'' else None)"

definition validate_stake :: "create_form \<Rightarrow> string option" where
  "validate_stake d =
    (if js_trim (cf_stake d) = [] then Some ''Stake amount is required''
     else (let v = validateAndConvertXlmToStroops (js_trim (cf_stake d)) in
       if \<not> pr_valid v then (case pr_message v of Some m \<Rightarrow> if m = [] then Some ''Invalid stake amount'' else Some m
                                              | None \<Rightarrow> Some ''Invalid stake amount'')
       else (case pr_stroops v of
               None \<Rightarrow> None
             | Some n \<Rightarrow> if n < MIN_STAKE_STROOPS then Some ''Stake amount must be at least 1 stroop (0 XLM)''
                 else if MAX_STAKE_STROOPS < n then Some ''Stake amount must be at most 1000000 XLM'' else None)))"

definition stake_warning :: "create_form \<Rightarrow> string option" where
  "stake_warning d =
    (let v = validateAndConvertXlmToStroops (js_trim (cf_stake d)) in
     if js_trim (cf_stake d) \<noteq> [] \<and> pr_valid v \<and> pr_stroops v \<noteq> None \<and> pr_decimals v = Some 7
     then Some ''Precision capped at 7 decimal places (1 stroop minimum).'' else None)"

definition validate_gameId :: "string list \<Rightarrow> create_form \<Rightarrow> string option" where
  "validate_gameId known d =
    (if js_trim (cf_gameId d) = [] then Some ''Game ID is required''
     else if 64 < length (cf_gameId d) then Some ''Game ID must be 64 characters or fewer''
     else if js_trim (cf_gameId d) \<in> set known then Some ''A match with this game ID already exists'' else None)"

definition validateForm :: "(string \<Rightarrow> bool) \<Rightarrow> string list \<Rightarrow> create_form \<Rightarrow> form_errors" where
  "validateForm addr known d key =
    (case key of
       KeyPlayer2 \<Rightarrow> validate_player2 addr d
     | KeyStake \<Rightarrow> validate_stake d
     | KeyStakeWarning \<Rightarrow> stake_warning d
     | KeyGameId \<Rightarrow> validate_gameId known d
     | KeyUsername \<Rightarrow> (if cf_platform d = SiteChesscom \<and> js_trim (cf_username d) = []
         then Some ''Chess.com username is required to validate the game exists in player archives'' else None)
     | KeyGameValidation \<Rightarrow> None)"

definition form_keys :: "form_key list" where
  "form_keys = [KeyPlayer2, KeyStake, KeyStakeWarning, KeyGameId, KeyUsername, KeyGameValidation]"

definition has_errors :: "form_errors \<Rightarrow> bool" where
  "has_errors e = list_ex (\<lambda>k. e k \<noteq> None) form_keys"

section \<open>Asking the backend\<close>

text \<open>The address and the body of the request.\<close>

definition validate_request :: "string \<Rightarrow> create_form \<Rightarrow> string \<times> (string \<times> string) list" where
  "validate_request apiBaseUrl d =
    ((if apiBaseUrl \<noteq> [] \<and> last apiBaseUrl = CHR ''/'' then butlast apiBaseUrl else apiBaseUrl) @ ''/api/validate-game'',
     [(''gameId'', cf_gameId d), (''platform'', case cf_platform d of SiteChesscom \<Rightarrow> ''chessdotcom'' | SiteLichess \<Rightarrow> ''lichess'')] @
     (if cf_platform d = SiteChesscom \<and> cf_username d \<noteq> [] then [(''username'', cf_username d)] else []))"

record validate_answer =
  va_ok :: bool
  va_status :: nat
  va_valid :: bool
  va_message :: "string option"
  va_error :: "string option"
  va_details :: "string option"

text \<open>\<open>None\<close> when the game is valid, otherwise the message.\<close>

definition first_text :: "string option list \<Rightarrow> string \<Rightarrow> string" where
  "first_text ts d = (case List.find (\<lambda>t. t \<noteq> None \<and> t \<noteq> Some []) ts of Some (Some t) \<Rightarrow> t | _ \<Rightarrow> d)"

definition validateGameOnPlatform :: "validate_answer \<Rightarrow> string option" where
  "validateGameOnPlatform a =
    (if va_ok a \<and> va_valid a then None
     else Some (first_text [va_message a, va_error a, va_details a] (''Game validation failed with status '' @ nat_text (va_status a))))"

section \<open>The component\<close>

record create_payload_data =
  cp_player2 :: string
  cp_stakeAmount :: string
  cp_token :: stake_token
  cp_gameId :: string
  cp_platform :: chess_site
  cp_username :: "string option"

record create_state =
  cs_form :: create_form
  cs_errors :: form_errors
  cs_status :: create_status
  cs_token :: stake_token
  cs_matchId :: "string option"
  cs_errorMsg :: string
  cs_review :: bool
  cs_payload :: "create_payload_data option"
  cs_submitting :: bool
  cs_reviewError :: "string option"

definition initial_create :: create_state where
  "initial_create = \<lparr>cs_form = empty_form, cs_errors = Map.empty, cs_status = CreateIdle, cs_token = TokenXlm, cs_matchId = None,
     cs_errorMsg = [], cs_review = False, cs_payload = None, cs_submitting = False, cs_reviewError = None\<rparr>"

definition set_field :: "form_key \<Rightarrow> string \<Rightarrow> create_form \<Rightarrow> create_form" where
  "set_field key v d =
    (case key of
       KeyPlayer2 \<Rightarrow> d\<lparr>cf_player2 := v\<rparr> | KeyStake \<Rightarrow> d\<lparr>cf_stake := v\<rparr>
     | KeyGameId \<Rightarrow> d\<lparr>cf_gameId := v\<rparr> | KeyUsername \<Rightarrow> d\<lparr>cf_username := v\<rparr> | _ \<Rightarrow> d)"

definition updateGameId :: "string \<Rightarrow> create_state \<Rightarrow> create_state" where
  "updateGameId v s = s\<lparr>cs_form := set_field KeyGameId v (cs_form s),
     cs_errors := (cs_errors s)(KeyGameId := None, KeyGameValidation := None)\<rparr>"

definition updatePlatform :: "chess_site \<Rightarrow> create_state \<Rightarrow> create_state" where
  "updatePlatform v s = s\<lparr>cs_form := (cs_form s)\<lparr>cf_platform := v\<rparr>, cs_errors := (cs_errors s)(KeyGameValidation := None)\<rparr>"

definition validateAndUpdate :: "(string \<Rightarrow> bool) \<Rightarrow> string list \<Rightarrow> form_key \<Rightarrow> string \<Rightarrow> create_state \<Rightarrow> create_state" where
  "validateAndUpdate addr known key v s =
    (let form = set_field key v (cs_form s) in
     s\<lparr>cs_form := form, cs_errors := (cs_errors s)(key := validateForm addr known form key)\<rparr>)"

text \<open>The form is shown while there is no match and no review; the inputs and the button are disabled while the
  game is being validated, and the button while there are errors.\<close>

definition form_shown :: "create_state \<Rightarrow> bool" where
  "form_shown s \<longleftrightarrow> cs_matchId s = None \<and> \<not> cs_review s"

definition is_busy :: "create_state \<Rightarrow> bool" where
  "is_busy s \<longleftrightarrow> cs_status s = CreateValidating \<or> cs_status s = CreatePending"

text \<open>\<open>handleSubmit\<close> up to the request. The second component says whether the request is made; it is made for
  the form and the token of that moment.\<close>

definition handleSubmit :: "(string \<Rightarrow> bool) \<Rightarrow> string list \<Rightarrow> string option \<Rightarrow> browser_storage \<Rightarrow> rat \<Rightarrow> create_state \<Rightarrow> create_state \<times> bool" where
  "handleSubmit addr known player1 storage now s =
    (let errors = validateForm addr known (cs_form s); s1 = s\<lparr>cs_errors := errors\<rparr> in
     if has_errors errors then (s1, False)
     else (case player1 of
        None \<Rightarrow> (s1\<lparr>cs_errorMsg := ''Please connect your wallet first'', cs_status := CreateError\<rparr>, False)
      | Some p1 \<Rightarrow>
         if p1 = [] then (s1\<lparr>cs_errorMsg := ''Please connect your wallet first'', cs_status := CreateError\<rparr>, False)
         else (case (case stakeFromXlmInput (cf_stake (cs_form s)) of
                       None \<Rightarrow> WagerAllowed
                     | Some n \<Rightarrow> checkWagerAllowed storage p1 n now) of
                 WagerAllowed \<Rightarrow> (s1\<lparr>cs_status := CreateValidating, cs_errorMsg := [], cs_errors := errors(KeyGameValidation := None)\<rparr>, True)
               | SelfExcluded _ \<Rightarrow> (s1\<lparr>cs_errorMsg := ''You have self-excluded from wagering'', cs_status := CreateError\<rparr>, False)
               | OverLimit _ \<Rightarrow> (s1\<lparr>cs_errorMsg := ''This stake is above your limit'', cs_status := CreateError\<rparr>, False))))"

definition make_payload :: "create_form \<Rightarrow> stake_token \<Rightarrow> nat \<Rightarrow> create_payload_data" where
  "make_payload f tok n = \<lparr>cp_player2 = cf_player2 f, cp_stakeAmount = nat_text n, cp_token = tok, cp_gameId = cf_gameId f,
     cp_platform = cf_platform f, cp_username = (if cf_username f = [] then None else Some (cf_username f))\<rparr>"

text \<open>The rest of \<open>handleSubmit\<close>: the answer is a failure of the request, or what the backend said; \<open>built\<close> is
  whether the summary could be built.\<close>

definition handle_answer :: "create_form \<Rightarrow> stake_token \<Rightarrow> string + validate_answer \<Rightarrow> bool \<Rightarrow> create_state \<Rightarrow> create_state" where
  "handle_answer f tok answer built s =
    (case answer of
       Inl m \<Rightarrow> s\<lparr>cs_status := CreateError, cs_errorMsg := ''Unable to validate game: '' @ m\<rparr>
     | Inr a \<Rightarrow>
        (case validateGameOnPlatform a of
           Some m \<Rightarrow> s\<lparr>cs_errors := (cs_errors s)(KeyGameValidation \<mapsto> m), cs_status := CreateError, cs_errorMsg := m\<rparr>
         | None \<Rightarrow>
            (let v = validateAndConvertXlmToStroops (js_trim (cf_stake f)) in
             case (if pr_valid v then pr_stroops v else None) of
               None \<Rightarrow> s\<lparr>cs_status := CreateError, cs_errorMsg := ''Invalid stake amount''\<rparr>
             | Some n \<Rightarrow>
                if built then s\<lparr>cs_payload := Some (make_payload f tok n), cs_review := True, cs_status := CreateIdle, cs_errorMsg := []\<rparr>
                else s\<lparr>cs_status := CreateError, cs_errorMsg := ''Unable to prepare transaction''\<rparr>)))"

text \<open>\<open>handleConfirmReview\<close>, split at the call of \<open>onCreateMatch\<close>: the payload handed over, if any, and the rest
  with the match's id or a failure.\<close>

definition handleConfirmReview :: "create_state \<Rightarrow> create_state \<times> create_payload_data option" where
  "handleConfirmReview s =
    (case cs_payload s of
       None \<Rightarrow> (s\<lparr>cs_submitting := False, cs_reviewError := None\<rparr>, None)
     | Some p \<Rightarrow> (s\<lparr>cs_submitting := True, cs_reviewError := None\<rparr>, Some p))"

definition confirm_result :: "string + string option \<Rightarrow> create_state \<Rightarrow> create_state" where
  "confirm_result r s =
    (case r of
       Inr (Some i) \<Rightarrow>
         if i = [] then s\<lparr>cs_reviewError := Some ''Failed to create match'', cs_submitting := False\<rparr>
         else s\<lparr>cs_matchId := Some i, cs_status := CreateSuccess, cs_review := False, cs_payload := None, cs_submitting := False\<rparr>
     | Inr None \<Rightarrow> s\<lparr>cs_reviewError := Some ''Failed to create match'', cs_submitting := False\<rparr>
     | Inl m \<Rightarrow> s\<lparr>cs_reviewError := Some m, cs_submitting := False\<rparr>)"

definition handleCancelReview :: "create_state \<Rightarrow> create_state" where
  "handleCancelReview s = s\<lparr>cs_review := False, cs_payload := None, cs_reviewError := None, cs_status := CreateIdle\<rparr>"

definition resetForm :: "create_state \<Rightarrow> create_state" where
  "resetForm s = s\<lparr>cs_form := empty_form, cs_errors := Map.empty, cs_status := CreateIdle, cs_matchId := None, cs_errorMsg := [],
     cs_review := False, cs_payload := None, cs_reviewError := None\<rparr>"

section \<open>Runs of the component\<close>

text \<open>What the component has under way: the questions to the backend, the calls of \<open>onCreateMatch\<close> not yet
  answered, and for the properties every use of the submit button and every payload ever handed over. A step is an
  event the page can produce in its state; the wallet, the stored settings and the time may differ from one event to
  the next.\<close>

record submit_event =
  se_form :: create_form
  se_token :: stake_token
  se_player :: "string option"
  se_storage :: browser_storage
  se_now :: rat

record create_world =
  cw_state :: create_state
  cw_checks :: "submit_event list"
  cw_flight :: "create_payload_data list"
  cw_submits :: "submit_event list"
  cw_sent :: "create_payload_data list"

definition submit_now :: "create_state \<Rightarrow> string option \<Rightarrow> browser_storage \<Rightarrow> rat \<Rightarrow> submit_event" where
  "submit_now s player1 storage now =
    \<lparr>se_form = cs_form s, se_token = cs_token s, se_player = player1, se_storage = storage, se_now = now\<rparr>"

definition create_start :: create_world where
  "create_start = \<lparr>cw_state = initial_create, cw_checks = [], cw_flight = [], cw_submits = [], cw_sent = []\<rparr>"

inductive create_run :: "(string \<Rightarrow> bool) \<Rightarrow> string list \<Rightarrow> create_world \<Rightarrow> bool" for addr known where
  run_start: "create_run addr known create_start"
| run_type: "create_run addr known w \<Longrightarrow> form_shown (cw_state w) \<Longrightarrow> \<not> is_busy (cw_state w) \<Longrightarrow>
    s \<in> {validateAndUpdate addr known KeyPlayer2 v (cw_state w), validateAndUpdate addr known KeyStake v (cw_state w),
         validateAndUpdate addr known KeyUsername v (cw_state w), updateGameId v (cw_state w), updatePlatform site (cw_state w)} \<Longrightarrow>
    create_run addr known (w\<lparr>cw_state := s\<rparr>)"
| run_token: "create_run addr known w \<Longrightarrow> form_shown (cw_state w) \<Longrightarrow> create_run addr known (w\<lparr>cw_state := (cw_state w)\<lparr>cs_token := tok\<rparr>\<rparr>)"
| run_submit: "create_run addr known w \<Longrightarrow> form_shown (cw_state w) \<Longrightarrow> \<not> is_busy (cw_state w) \<Longrightarrow> \<not> has_errors (cs_errors (cw_state w)) \<Longrightarrow>
    handleSubmit addr known player1 storage now (cw_state w) = (s, asked) \<Longrightarrow> e = submit_now (cw_state w) player1 storage now \<Longrightarrow>
    create_run addr known (w\<lparr>cw_state := s, cw_checks := (if asked then [e] else []) @ cw_checks w, cw_submits := e # cw_submits w\<rparr>)"
| run_answer: "create_run addr known w \<Longrightarrow> e \<in> set (cw_checks w) \<Longrightarrow>
    create_run addr known (w\<lparr>cw_state := handle_answer (se_form e) (se_token e) a built (cw_state w), cw_checks := remove1 e (cw_checks w)\<rparr>)"
| run_confirm: "create_run addr known w \<Longrightarrow> cs_review (cw_state w) \<Longrightarrow> cs_matchId (cw_state w) = None \<Longrightarrow> \<not> cs_submitting (cw_state w) \<Longrightarrow>
    handleConfirmReview (cw_state w) = (s, sent) \<Longrightarrow>
    create_run addr known (w\<lparr>cw_state := s, cw_flight := (case sent of None \<Rightarrow> [] | Some p \<Rightarrow> [p]) @ cw_flight w,
      cw_sent := (case sent of None \<Rightarrow> [] | Some p \<Rightarrow> [p]) @ cw_sent w\<rparr>)"
| run_result: "create_run addr known w \<Longrightarrow> p \<in> set (cw_flight w) \<Longrightarrow>
    create_run addr known (w\<lparr>cw_state := confirm_result r (cw_state w), cw_flight := remove1 p (cw_flight w)\<rparr>)"
| run_cancel: "create_run addr known w \<Longrightarrow> cs_review (cw_state w) \<Longrightarrow> cs_matchId (cw_state w) = None \<Longrightarrow>
    create_run addr known (w\<lparr>cw_state := handleCancelReview (cw_state w)\<rparr>)"
| run_reset: "create_run addr known w \<Longrightarrow> cs_matchId (cw_state w) \<noteq> None \<Longrightarrow>
    create_run addr known (w\<lparr>cw_state := resetForm (cw_state w)\<rparr>)"

text \<open>A submission that the form, the wallet and the controls let through.\<close>

definition let_through :: "(string \<Rightarrow> bool) \<Rightarrow> string list \<Rightarrow> submit_event \<Rightarrow> bool" where
  "let_through addr known e \<longleftrightarrow>
    \<not> has_errors (validateForm addr known (se_form e)) \<and>
    (\<exists>p1. se_player e = Some p1 \<and> p1 \<noteq> [] \<and>
      (\<forall>n. stakeFromXlmInput (cf_stake (se_form e)) = Some n \<longrightarrow> checkWagerAllowed (se_storage e) p1 n (se_now e) = WagerAllowed))"

definition payload_of :: "submit_event \<Rightarrow> create_payload_data \<Rightarrow> bool" where
  "payload_of e p \<longleftrightarrow> (\<exists>n. p = make_payload (se_form e) (se_token e) n \<and>
    pr_stroops (validateAndConvertXlmToStroops (js_trim (cf_stake (se_form e)))) = Some n)"

definition backed :: "(string \<Rightarrow> bool) \<Rightarrow> string list \<Rightarrow> submit_event list \<Rightarrow> create_payload_data \<Rightarrow> bool" where
  "backed addr known es p \<longleftrightarrow> (\<exists>e \<in> set es. let_through addr known e \<and> payload_of e p)"

definition create_inv :: "(string \<Rightarrow> bool) \<Rightarrow> string list \<Rightarrow> create_world \<Rightarrow> bool" where
  "create_inv addr known w \<longleftrightarrow>
    (\<forall>p. cs_payload (cw_state w) = Some p \<longrightarrow> backed addr known (cw_submits w) p) \<and>
    (\<forall>e \<in> set (cw_checks w). e \<in> set (cw_submits w) \<and> let_through addr known e) \<and>
    (\<forall>p \<in> set (cw_sent w). backed addr known (cw_submits w) p) \<and>
    (cs_submitting (cw_state w) \<longleftrightarrow> cw_flight w \<noteq> []) \<and> length (cw_flight w) \<le> 1"

lemma backed_more: "backed addr known es p \<Longrightarrow> backed addr known (e # es) p"
  by (auto simp: backed_def)

lemma submit_sel:
  assumes "handleSubmit addr known player1 storage now s = (s1, asked)"
  shows "cs_payload s1 = cs_payload s" "cs_submitting s1 = cs_submitting s" "asked \<Longrightarrow> let_through addr known (submit_now s player1 storage now)"
proof -
  show "cs_payload s1 = cs_payload s" "cs_submitting s1 = cs_submitting s"
    using assms by (auto simp: handleSubmit_def Let_def split: if_splits option.splits wager_check.splits)
  assume asked
  then obtain p1 where p1: "player1 = Some p1" "p1 \<noteq> []" "\<not> has_errors (validateForm addr known (cs_form s))"
    "(case stakeFromXlmInput (cf_stake (cs_form s)) of None \<Rightarrow> WagerAllowed | Some n \<Rightarrow> checkWagerAllowed storage p1 n now) = WagerAllowed"
    using assms by (auto simp: handleSubmit_def Let_def split: if_splits option.splits wager_check.splits)
  have "\<forall>n. stakeFromXlmInput (cf_stake (cs_form s)) = Some n \<longrightarrow> checkWagerAllowed storage p1 n now = WagerAllowed"
    using p1(4) by (cases "stakeFromXlmInput (cf_stake (cs_form s))") simp_all
  then show "let_through addr known (submit_now s player1 storage now)" using p1(1-3) by (simp add: let_through_def submit_now_def)
qed

lemma answer_sel:
  "cs_submitting (handle_answer f tok a built s) = cs_submitting s"
  "cs_payload (handle_answer f tok a built s) = cs_payload s \<or>
    (\<exists>n. cs_payload (handle_answer f tok a built s) = Some (make_payload f tok n) \<and>
      pr_stroops (validateAndConvertXlmToStroops (js_trim (cf_stake f))) = Some n)"
  by (auto simp: handle_answer_def Let_def split: sum.split option.split if_splits)

lemma result_sel:
  "cs_submitting (confirm_result r s) = False"
  "cs_payload (confirm_result r s) = None \<or> cs_payload (confirm_result r s) = cs_payload s"
  by (auto simp: confirm_result_def split: sum.split option.split)

lemma create_run_inv: "create_run addr known w \<Longrightarrow> create_inv addr known w"
proof (induction rule: create_run.induct)
  case run_start
  then show ?case by (simp add: create_inv_def create_start_def initial_create_def)
next
  case (run_type w s v site)
  have "cs_payload s = cs_payload (cw_state w)" "cs_submitting s = cs_submitting (cw_state w)"
    using run_type(4) by (auto simp: validateAndUpdate_def updateGameId_def updatePlatform_def Let_def)
  then show ?case using run_type(5) by (simp add: create_inv_def)
next
  case (run_submit w player1 storage now s asked e)
  note sel = submit_sel[OF run_submit(5)]
  have "asked \<Longrightarrow> let_through addr known e" using sel(3) run_submit(6) by simp
  then show ?case using run_submit(7) sel(1,2) by (auto simp: create_inv_def backed_more)
next
  case (run_answer w e a built)
  have e: "e \<in> set (cw_submits w)" "let_through addr known e" using run_answer(2,3) by (auto simp: create_inv_def)
  have "backed addr known (cw_submits w) p"
    if "cs_payload (handle_answer (se_form e) (se_token e) a built (cw_state w)) = Some p" for p
    using answer_sel(2)[of "se_form e" "se_token e" a built "cw_state w"]
  proof
    assume "cs_payload (handle_answer (se_form e) (se_token e) a built (cw_state w)) = cs_payload (cw_state w)"
    then show ?thesis using that run_answer(3) by (simp add: create_inv_def)
  next
    assume "\<exists>n. cs_payload (handle_answer (se_form e) (se_token e) a built (cw_state w)) = Some (make_payload (se_form e) (se_token e) n) \<and>
      pr_stroops (validateAndConvertXlmToStroops (js_trim (cf_stake (se_form e)))) = Some n"
    then have "payload_of e p" using that by (auto simp: payload_of_def)
    then show ?thesis using e by (auto simp: backed_def)
  qed
  moreover have "set (remove1 e (cw_checks w)) \<subseteq> set (cw_checks w)" by (rule set_remove1_subset)
  ultimately show ?case using run_answer(3) answer_sel(1) by (auto simp: create_inv_def)
next
  case (run_confirm w s sent)
  then have empty: "cw_flight w = []" by (simp add: create_inv_def)
  show ?case
  proof (cases "cs_payload (cw_state w)")
    case None
    then have "s = (cw_state w)\<lparr>cs_submitting := False, cs_reviewError := None\<rparr>" "sent = None"
      using run_confirm(5) by (simp_all add: handleConfirmReview_def)
    then show ?thesis using run_confirm(6) empty by (simp add: create_inv_def)
  next
    case (Some p)
    then have "s = (cw_state w)\<lparr>cs_submitting := True, cs_reviewError := None\<rparr>" "sent = Some p"
      using run_confirm(5) by (simp_all add: handleConfirmReview_def)
    then show ?thesis using run_confirm(6) empty Some by (simp add: create_inv_def)
  qed
next
  case (run_result w p r)
  have "cw_flight w = [p]" using run_result(2,3) by (cases "cw_flight w") (auto simp: create_inv_def)
  then show ?case using run_result(3) result_sel[of r "cw_state w"] by (auto simp: create_inv_def)
qed (simp_all add: create_inv_def handleCancelReview_def resetForm_def)

lemma no_errors:
  "\<not> has_errors (validateForm addr known f) \<longleftrightarrow>
    validate_player2 addr f = None \<and> validate_stake f = None \<and> stake_warning f = None \<and> validate_gameId known f = None \<and>
    (cf_platform f = SiteChesscom \<longrightarrow> js_trim (cf_username f) \<noteq> [])"
  by (auto simp: has_errors_def form_keys_def validateForm_def)

lemma valid_stake:
  assumes "validate_stake f = None" "pr_stroops (validateAndConvertXlmToStroops (js_trim (cf_stake f))) = Some n"
  shows "MIN_STAKE_STROOPS \<le> n \<and> n \<le> MAX_STAKE_STROOPS \<and> pr_valid (validateAndConvertXlmToStroops (js_trim (cf_stake f)))"
  using assms by (auto simp: validate_stake_def Let_def split: if_splits option.splits)

text \<open>C27. Only checked matches reach the wallet: in every run of the page, with any answers, cancellations, account
  changes and delays, each payload handed to \<open>onCreateMatch\<close> comes from a use of the submit button with a connected
  wallet, carries a valid opponent, a fresh game id of at most 64 characters and the stroops of the stake typed,
  between the bounds, and, where the stake reader reads the stake, the responsible-play controls of that wallet
  allowed it then; and at most one payload is waiting for its answer at a time.\<close>
theorem create_submits_checked:
  assumes "create_run addr known w" "p \<in> set (cw_sent w)"
  shows "length (cw_flight w) \<le> 1 \<and>
    (\<exists>e \<in> set (cw_submits w). \<exists>n p1. p = make_payload (se_form e) (se_token e) n \<and> addr (cp_player2 p) \<and>
      MIN_STAKE_STROOPS \<le> n \<and> n \<le> MAX_STAKE_STROOPS \<and>
      js_trim (cp_gameId p) \<noteq> [] \<and> length (cp_gameId p) \<le> 64 \<and> js_trim (cp_gameId p) \<notin> set known \<and>
      se_player e = Some p1 \<and> p1 \<noteq> [] \<and>
      (stakeFromXlmInput (cf_stake (se_form e)) \<noteq> None \<longrightarrow> checkWagerAllowed (se_storage e) p1 n (se_now e) = WagerAllowed))"
proof -
  have inv: "create_inv addr known w" by (rule create_run_inv[OF assms(1)])
  then obtain e where e: "e \<in> set (cw_submits w)" "let_through addr known e" "payload_of e p"
    using assms(2) unfolding create_inv_def backed_def by blast
  obtain n where n: "p = make_payload (se_form e) (se_token e) n"
    "pr_stroops (validateAndConvertXlmToStroops (js_trim (cf_stake (se_form e)))) = Some n"
    using e(3) by (auto simp: payload_of_def)
  obtain p1 where p1: "se_player e = Some p1" "p1 \<noteq> []"
    "\<forall>n. stakeFromXlmInput (cf_stake (se_form e)) = Some n \<longrightarrow> checkWagerAllowed (se_storage e) p1 n (se_now e) = WagerAllowed"
    using e(2) unfolding let_through_def by blast
  have v: "validate_stake (se_form e) = None" "validate_player2 addr (se_form e) = None" "validate_gameId known (se_form e) = None"
    using e(2) by (auto simp: let_through_def no_errors)
  have stake: "MIN_STAKE_STROOPS \<le> n" "n \<le> MAX_STAKE_STROOPS" using valid_stake[OF v(1) n(2)] by blast+
  have texts: "addr (cp_player2 p)" "js_trim (cp_gameId p) \<noteq> []" "length (cp_gameId p) \<le> 64" "js_trim (cp_gameId p) \<notin> set known"
    using v(2,3) n(1) by (auto simp: validate_player2_def validate_gameId_def make_payload_def split: if_splits)
  have "checkWagerAllowed (se_storage e) p1 n (se_now e) = WagerAllowed" if some: "stakeFromXlmInput (cf_stake (se_form e)) \<noteq> None"
  proof -
    obtain m where m: "stakeFromXlmInput (cf_stake (se_form e)) = Some m"
      using some by (cases "stakeFromXlmInput (cf_stake (se_form e))") simp_all
    then have "stakeFromXlmInput (js_trim (cf_stake (se_form e))) = Some m" by (simp add: stakeFromXlmInput_def)
    then have "m = n" using validator_accepts_stake n(2) by (metis option.inject)
    then show ?thesis using p1(3) m by blast
  qed
  moreover have "length (cw_flight w) \<le> 1" using inv by (simp add: create_inv_def)
  ultimately show ?thesis using e(1) n(1) p1(1,2) stake texts by blast
qed

text \<open>A run that hands over a payload: an opponent, five XLM and a game are typed, the backend knows the game, and
  the review is confirmed.\<close>

definition typed_form :: create_form where
  "typed_form = \<lparr>cf_player2 = ''GB'', cf_stake = ''5'', cf_gameId = ''abcd1234'', cf_platform = SiteLichess, cf_username = []\<rparr>"

definition no_storage :: browser_storage where
  "no_storage = \<lparr>bs_available = False, bs_items = Map.empty\<rparr>"

definition known_game :: validate_answer where
  "known_game = \<lparr>va_ok = True, va_status = 200, va_valid = True, va_message = None, va_error = None, va_details = None\<rparr>"

definition typed_state :: create_state where
  "typed_state = initial_create\<lparr>cs_form := typed_form\<rparr>"

lemma texts_ex:
  "js_trim ''5'' = ''5''" "before_point ''5'' = ''5''" "after_point ''5'' = None" "js_trim ''GB'' = ''GB''" "js_trim ''abcd1234'' = ''abcd1234''"
  "dec_digit CHR ''5''" "text_value ''5'' = 5" "text_value (padEnd 7 []) = 0"
  by code_simp+

lemma five_ex:
  "validateAndConvertXlmToStroops ''5'' = \<lparr>pr_valid = True, pr_stroops = Some 50000000, pr_decimals = Some 0, pr_message = None\<rparr>"
  "stakeFromXlmInput ''5'' = Some 50000000"
proof -
  have "xlm_number (js_trim ''5'')" "countDecimalPlaces ''5'' = 0" by (simp_all add: xlm_number_def countDecimalPlaces_def texts_ex)
  then show "validateAndConvertXlmToStroops ''5'' = \<lparr>pr_valid = True, pr_stroops = Some 50000000, pr_decimals = Some 0, pr_message = None\<rparr>"
    using validator_value[of "''5''"] by (simp add: texts_ex STROOPS_PER_XLM_def)
  show "stakeFromXlmInput ''5'' = Some 50000000"
    by (simp add: stakeFromXlmInput_Some stake_text_def texts_ex STROOPS_PER_XLM_def)
qed

lemma typed_form_ok: "validateForm (\<lambda>_. True) [] typed_form = Map.empty"
  by (rule ext) (auto simp: validateForm_def typed_form_def validate_player2_def validate_stake_def stake_warning_def validate_gameId_def
      texts_ex five_ex MIN_STAKE_STROOPS_def MAX_STAKE_STROOPS_def split: form_key.split)

lemma no_controls: "checkWagerAllowed no_storage a n now = WagerAllowed"
  by (simp add: checkWagerAllowed_def activeExclusion_def effectiveSettings_def loadSettings_def no_storage_def no_settings_def apply_pending_def)

lemma create_ex:
  "\<exists>w. create_run (\<lambda>_. True) [] w \<and> cw_sent w = [make_payload typed_form TokenXlm 50000000]"
proof -
  let ?run = "create_run (\<lambda>_. True) []"
  note st = create_start_def initial_create_def empty_form_def
  define s1 where "s1 = validateAndUpdate (\<lambda>_. True) [] KeyPlayer2 ''GB'' initial_create"
  define s2 where "s2 = validateAndUpdate (\<lambda>_. True) [] KeyStake ''5'' s1"
  define s3 where "s3 = updateGameId ''abcd1234'' s2"
  have shown: "form_shown initial_create \<and> \<not> is_busy initial_create" "form_shown s1 \<and> \<not> is_busy s1" "form_shown s2 \<and> \<not> is_busy s2"
    "form_shown s3 \<and> \<not> is_busy s3"
    by (simp_all add: s1_def s2_def s3_def validateAndUpdate_def updateGameId_def form_shown_def is_busy_def initial_create_def Let_def)
  have w1: "?run (create_start\<lparr>cw_state := s1\<rparr>)"
    using run_type[OF run_start, where v = "''GB''" and site = SiteLichess and s = s1] shown by (simp add: create_start_def s1_def)
  have w2: "?run (create_start\<lparr>cw_state := s2\<rparr>)"
    using run_type[OF w1, where v = "''5''" and site = SiteLichess and s = s2] shown by (simp add: s2_def)
  have w3: "?run (create_start\<lparr>cw_state := s3\<rparr>)"
    using run_type[OF w2, where v = "''abcd1234''" and site = SiteLichess and s = s3] shown by (simp add: s3_def)
  have form: "cs_form s3 = typed_form" "cs_token s3 = TokenXlm" "cs_matchId s3 = None" "cs_submitting s3 = False"
    by (simp_all add: s1_def s2_def s3_def validateAndUpdate_def updateGameId_def set_field_def typed_form_def Let_def initial_create_def empty_form_def)
  have errs: "\<not> has_errors (cs_errors s3)"
    by (simp add: has_errors_def form_keys_def s1_def s2_def s3_def validateAndUpdate_def updateGameId_def set_field_def Let_def initial_create_def
        empty_form_def validateForm_def validate_player2_def validate_stake_def texts_ex five_ex MIN_STAKE_STROOPS_def MAX_STAKE_STROOPS_def)
  define s4 where "s4 = s3\<lparr>cs_status := CreateValidating, cs_errorMsg := [], cs_errors := Map.empty\<rparr>"
  have sub: "handleSubmit (\<lambda>_. True) [] (Some ''GA'') no_storage 0 s3 = (s4, True)"
    using typed_form_ok five_ex(2) no_controls
    by (simp add: handleSubmit_def form has_errors_def form_keys_def s4_def typed_form_def Let_def fun_upd_def)
  define e where "e = submit_now s3 (Some ''GA'') no_storage 0"
  have w4: "?run (create_start\<lparr>cw_state := s4, cw_checks := [e], cw_submits := [e]\<rparr>)"
    using run_submit[OF w3, of "Some ''GA''" no_storage 0 s4 True e] sub shown(4) errs by (simp add: e_def create_start_def)
  define s5 where "s5 = handle_answer typed_form TokenXlm (Inr known_game) True s4"
  have w5: "?run (create_start\<lparr>cw_state := s5, cw_checks := [], cw_submits := [e]\<rparr>)"
    using run_answer[OF w4, of e "Inr known_game" True] by (simp add: e_def submit_now_def form s5_def create_start_def)
  have s5: "s5 = s4\<lparr>cs_payload := Some (make_payload typed_form TokenXlm 50000000), cs_review := True, cs_status := CreateIdle, cs_errorMsg := []\<rparr>"
    by (simp add: s5_def handle_answer_def validateGameOnPlatform_def known_game_def typed_form_def texts_ex five_ex Let_def)
  have "handleConfirmReview s5 = (s5\<lparr>cs_submitting := True, cs_reviewError := None\<rparr>, Some (make_payload typed_form TokenXlm 50000000))"
    by (simp add: handleConfirmReview_def s5)
  then have "?run (create_start\<lparr>cw_state := s5\<lparr>cs_submitting := True, cs_reviewError := None\<rparr>, cw_checks := [], cw_submits := [e],
      cw_flight := [make_payload typed_form TokenXlm 50000000], cw_sent := [make_payload typed_form TokenXlm 50000000]\<rparr>)"
    using run_confirm[OF w5, of "s5\<lparr>cs_submitting := True, cs_reviewError := None\<rparr>" "Some (make_payload typed_form TokenXlm 50000000)"]
    by (simp add: s5 s4_def form create_start_def)
  then show ?thesis by force
qed

theorem create_submits_checked_witness:
  "\<exists>w. create_run (\<lambda>_. True) [] w \<and> cw_sent w \<noteq> [] \<and> length (cw_flight w) \<le> 1"
proof -
  obtain w where w: "create_run (\<lambda>_. True) [] w" "cw_sent w = [make_payload typed_form TokenXlm 50000000]" using create_ex by blast
  then have "length (cw_flight w) \<le> 1" using create_submits_checked[OF w(1), of "make_payload typed_form TokenXlm 50000000"] by simp
  then show ?thesis using w by (intro exI[of _ w]) simp
qed

section \<open>What the form gets wrong\<close>

lemma stake_text_ends: "stake_text t \<Longrightarrow> hd t \<noteq> CHR ''.'' \<and> last t \<noteq> CHR ''.''"
proof -
  assume t: "stake_text t"
  have dot: "\<not> dec_digit CHR ''.''" by code_simp
  have b: "before_point t \<noteq> []" "\<forall>c \<in> set (before_point t). dec_digit c" using t by (auto simp: stake_text_def list_all_iff)
  show ?thesis
  proof (cases "after_point t")
    case None
    then have "t = before_point t" using point_split[of t] by simp
    then show ?thesis using b dot by (metis hd_in_set last_in_set)
  next
    case (Some u)
    then have s: "t = before_point t @ CHR ''.'' # u" using point_split[of t] by simp
    have "u \<noteq> []" "\<forall>c \<in> set u. dec_digit c" using t Some by (auto simp: stake_text_def list_all_iff)
    then have "last t \<noteq> CHR ''.''" using s dot by (metis last_ConsR last_appendR last_in_set list.discI)
    moreover have "hd t \<noteq> CHR ''.''" using s b dot by (metis hd_append2 hd_in_set)
    ultimately show ?thesis by blast
  qed
qed

text \<open>C28. A point at an end of the stake skips the responsible-play controls: for a form without errors whose stake
  starts or ends with a point, a connected wallet's submission goes on to the validation whatever exclusion or
  limit is stored, although the validator reads a stake of at least one stroop.\<close>
theorem point_skips_controls:
  assumes "\<not> has_errors (validateForm addr known (cs_form s))" "p1 \<noteq> []"
    "hd (js_trim (cf_stake (cs_form s))) = CHR ''.'' \<or> last (js_trim (cf_stake (cs_form s))) = CHR ''.''"
  shows "snd (handleSubmit addr known (Some p1) storage now s) \<and>
    (\<exists>n > 0. pr_stroops (validateAndConvertXlmToStroops (cf_stake (cs_form s))) = Some n)"
proof -
  let ?t = "js_trim (cf_stake (cs_form s))"
  have v: "validate_stake (cs_form s) = None" using assms(1) by (simp add: no_errors)
  then have valid: "pr_valid (validateAndConvertXlmToStroops (cf_stake (cs_form s)))"
    by (auto simp: validate_stake_def Let_def split: if_splits option.splits)
  obtain n where n: "pr_stroops (validateAndConvertXlmToStroops (cf_stake (cs_form s))) = Some n" using validator_valid(3)[OF valid] by blast
  have "0 < n" using valid_stake[OF v] n by (simp add: MIN_STAKE_STROOPS_def)
  have "\<not> stake_text ?t" using stake_text_ends assms(3) by blast
  then have "stakeFromXlmInput (cf_stake (cs_form s)) = None" by (simp add: stakeFromXlmInput_def Let_def)
  then have "snd (handleSubmit addr known (Some p1) storage now s)" using assms(1,2) by (simp add: handleSubmit_def Let_def)
  then show ?thesis using n \<open>0 < n\<close> by blast
qed

definition excluded_player_form :: create_state where
  "excluded_player_form = initial_create\<lparr>cs_form := typed_form\<lparr>cf_stake := ''5.''\<rparr>\<rparr>"

lemma js_trim_point: "js_trim ''5.'' = ''5.''"
  by code_simp

lemma excluded_player_form_ok: "\<not> has_errors (validateForm (\<lambda>_. True) [] (cs_form excluded_player_form))"
  using five_point js_trim_point by (simp add: no_errors excluded_player_form_def typed_form_def validate_player2_def validate_stake_def stake_warning_def
      validate_gameId_def texts_ex MIN_STAKE_STROOPS_def MAX_STAKE_STROOPS_def)

theorem point_skips_controls_witness:
  "activeExclusion week_ex ''GA'' 1500 = Some 604801000 \<and>
   snd (handleSubmit (\<lambda>_. True) [] (Some ''GA'') week_ex 1500 excluded_player_form)"
  using week_ex_active point_skips_controls[OF excluded_player_form_ok, of "''GA''" week_ex 1500] js_trim_point
  by (simp add: excluded_player_form_def typed_form_def)

text \<open>A stake typed with seven decimals, which the validator accepts, can never be submitted: the warning that
  the precision is capped counts as an error, so the submission ends before anything is asked or signed.\<close>
lemma seven_decimals_never_submitted:
  assumes "pr_valid (validateAndConvertXlmToStroops (cf_stake (cs_form s)))" "countDecimalPlaces (cf_stake (cs_form s)) = 7"
  shows "handleSubmit addr known player1 storage now s = (s\<lparr>cs_errors := validateForm addr known (cs_form s)\<rparr>, False)"
proof -
  have v: "pr_decimals (validateAndConvertXlmToStroops (cf_stake (cs_form s))) = Some 7"
    "pr_stroops (validateAndConvertXlmToStroops (cf_stake (cs_form s))) \<noteq> None"
    using validator_value[OF validator_valid(1,2)[OF assms(1)]] assms(2) by simp_all
  have "js_trim (cf_stake (cs_form s)) \<noteq> []" using validator_valid(1)[OF assms(1)]
    by (auto simp: xlm_number_def before_point_def after_point_def)
  then have "stake_warning (cs_form s) \<noteq> None" using v assms(1) by (simp add: stake_warning_def Let_def)
  then have "has_errors (validateForm addr known (cs_form s))"
    using no_errors[of addr known "cs_form s"] by (cases "has_errors (validateForm addr known (cs_form s))") simp_all
  then show ?thesis by (simp add: handleSubmit_def Let_def)
qed

definition seven_form :: create_state where
  "seven_form = initial_create\<lparr>cs_form := typed_form\<lparr>cf_stake := ''1.1234567''\<rparr>\<rparr>"

lemma seven_decimals_never_submitted_example:
  "\<not> snd (handleSubmit (\<lambda>_. True) [] (Some ''GA'') no_storage 0 seven_form)"
proof -
  have p: "js_trim ''1.1234567'' = ''1.1234567''" "before_point ''1.1234567'' = ''1''" "after_point ''1.1234567'' = Some ''1234567''"
    "list_all dec_digit ''1''" "list_all dec_digit ''1234567''"
    by code_simp+
  have x: "xlm_number (js_trim ''1.1234567'')" unfolding p(1) xlm_number_def p(2,3) using p(4,5) by simp
  have c: "countDecimalPlaces ''1.1234567'' = 7" unfolding countDecimalPlaces_def p(1,3) by simp
  have "pr_valid (validateAndConvertXlmToStroops ''1.1234567'')" using validator_value[OF x] c by (simp add: MAX_DECIMAL_PLACES_def)
  then show ?thesis using seven_decimals_never_submitted[of seven_form "\<lambda>_. True" "[]" "Some ''GA''" no_storage 0] c
    by (simp add: seven_form_def typed_form_def)
qed

end
