(* ===== verification/MatchViews.thy ===== *)
theory MatchViews
  imports ResponsiblePlay
begin

text \<open>
  What the frontend reads from the escrow contract and shows: the match record and its decoding
  (\<open>types.ts\<close>, \<open>services/escrow.ts\<close>, \<open>components/DepositStake.tsx\<close>), the deposit
  button, the countdowns, the status page with its polling (\<open>components/MatchStatus.tsx\<close>) and the pages of a
  wallet's wagers (\<open>pages/wager-history.ts\<close>). The Stellar SDK and the RPC server are parameters: the value a
  simulated call returns, as \<open>scValToNative\<close> gives it.
\<close>

section \<open>Native values\<close>

datatype scnative = ScUndef | ScBool bool | ScInt int | ScStr string | ScArr "scnative list" | ScOther

type_synonym screcord = "string \<Rightarrow> scnative"

datatype escrow_state = StPending | StActive | StPendingResult | StCompleted | StCancelled

definition STATE_NAMES :: "(string \<times> escrow_state) list" where
  "STATE_NAMES = [(''Pending'', StPending), (''Active'', StActive), (''PendingResult'', StPendingResult),
     (''Completed'', StCompleted), (''Cancelled'', StCancelled)]"

text \<open>\<open>None\<close> is the exception.\<close>

definition parseMatchState :: "scnative \<Rightarrow> escrow_state option" where
  "parseMatchState value =
    (case (case value of ScArr [x] \<Rightarrow> x | _ \<Rightarrow> value) of ScStr s \<Rightarrow> map_of STATE_NAMES s | _ \<Rightarrow> None)"

section \<open>Countdowns\<close>

definition SECONDS_PER_LEDGER :: int where "SECONDS_PER_LEDGER = 5"
definition DISPUTE_WINDOW_LEDGERS :: int where "DISPUTE_WINDOW_LEDGERS = 17280"
definition TIMEOUT_LEDGERS :: int where "TIMEOUT_LEDGERS = 120960"

definition computeDisputeSecondsRemaining :: "int \<Rightarrow> int \<Rightarrow> int \<Rightarrow> int" where
  "computeDisputeSecondsRemaining pendingResultLedger currentLedger elapsedSeconds =
    (let ledgersRemaining = pendingResultLedger + DISPUTE_WINDOW_LEDGERS - currentLedger
     in max 0 (ledgersRemaining * SECONDS_PER_LEDGER - elapsedSeconds))"

definition computeTimeoutSecondsRemaining :: "int \<Rightarrow> int \<Rightarrow> int \<Rightarrow> int \<Rightarrow> int" where
  "computeTimeoutSecondsRemaining createdLedger timeoutLedgers currentLedger elapsedSeconds =
    (let ledgersRemaining = createdLedger + timeoutLedgers - currentLedger
     in max 0 (ledgersRemaining * SECONDS_PER_LEDGER - elapsedSeconds))"

text \<open>Both components format a duration the same way but for the text of a time that is over.\<close>

definition formatDuration :: "string \<Rightarrow> int \<Rightarrow> string" where
  "formatDuration over totalSeconds =
    (if totalSeconds \<le> 0 then over
     else (let h = totalSeconds div 3600; m = (totalSeconds mod 3600) div 60; s = totalSeconds mod 60
       in (if 0 < h then int_text h @ ''h '' else []) @ (if 0 < m \<or> 0 < h then int_text m @ ''m '' else []) @ int_text s @ ''s''))"

section \<open>The deposit page\<close>

record match_details =
  md_state :: escrow_state
  md_stakeAmount :: int
  md_token :: string
  md_player1 :: string
  md_player2 :: string
  md_player1Deposited :: bool
  md_player2Deposited :: bool
  md_createdLedger :: int
  md_timeoutLedgers :: int
  md_currentLedger :: int

text \<open>\<open>deserializeMatch\<close>; \<open>native\<close> is the contract of the native asset, \<open>ledger\<close> the answer of \<open>getLatestLedger\<close>.\<close>

definition ledger_number :: "scnative \<Rightarrow> int \<Rightarrow> int" where
  "ledger_number v d = (case v of ScInt i \<Rightarrow> i | _ \<Rightarrow> d)"

definition deserializeMatch :: "string \<Rightarrow> int option \<Rightarrow> screcord \<Rightarrow> string + match_details" where
  "deserializeMatch native ledger raw =
    (case (raw ''stake_amount'', raw ''player1'', raw ''player2'', raw ''player1_deposited'', raw ''player2_deposited'') of
       (ScInt stake, ScStr p1, ScStr p2, ScBool d1, ScBool d2) \<Rightarrow>
         (case parseMatchState (raw ''state'') of
            None \<Rightarrow> Inl ''Unexpected match lifecycle state''
          | Some st \<Rightarrow>
             (case ledger of
                None \<Rightarrow> Inl ''Failed to fetch match details''
              | Some now \<Rightarrow>
                 (let token = (case raw ''token'' of ScStr t \<Rightarrow> t | _ \<Rightarrow> []) in
                  Inr \<lparr>md_state = st, md_stakeAmount = stake, md_token = (if token = native then ''xlm'' else token),
                    md_player1 = p1, md_player2 = p2, md_player1Deposited = d1, md_player2Deposited = d2,
                    md_createdLedger = ledger_number (raw ''created_ledger'') 0,
                    md_timeoutLedgers = ledger_number (raw ''timeout_ledgers'') TIMEOUT_LEDGERS,
                    md_currentLedger = now\<rparr>)))
     | _ \<Rightarrow> Inl ''Unexpected response from EscrowContract.get_match'')"

datatype deposit_status = DepIdle | DepLoading | DepPending | DepSuccess | DepError | DepApproving
datatype allowance_status = AllowUnknown | AllowChecking | AllowSufficient | AllowInsufficient

record deposit_state =
  ds_details :: "match_details option"
  ds_status :: deposit_status
  ds_errorMsg :: string
  ds_allowance :: allowance_status
  ds_elapsed :: int

definition initial_deposit :: deposit_state where
  "initial_deposit = \<lparr>ds_details = None, ds_status = DepIdle, ds_errorMsg = [], ds_allowance = AllowUnknown, ds_elapsed = 0\<rparr>"

definition hasDeposited :: "string option \<Rightarrow> match_details option \<Rightarrow> bool" where
  "hasDeposited player details =
    (case (player, details) of
       (Some p, Some d) \<Rightarrow> p \<noteq> [] \<and>
         (if md_player1 d = p then md_player1Deposited d else if md_player2 d = p then md_player2Deposited d else False)
     | _ \<Rightarrow> False)"

definition fetch_start :: "deposit_state \<Rightarrow> deposit_state" where
  "fetch_start s = s\<lparr>ds_status := DepLoading\<rparr>"

definition fetch_end :: "string + match_details \<Rightarrow> deposit_state \<Rightarrow> deposit_state" where
  "fetch_end r s =
    (case r of
       Inr d \<Rightarrow> s\<lparr>ds_details := Some d, ds_elapsed := 0, ds_status := DepIdle\<rparr>
     | Inl m \<Rightarrow> s\<lparr>ds_status := DepError, ds_errorMsg := m\<rparr>)"

text \<open>The allowance check: \<open>checker\<close> is absent, fails, or answers.\<close>

definition verifyAllowance :: "string option \<Rightarrow> bool option option \<Rightarrow> deposit_state \<Rightarrow> deposit_state" where
  "verifyAllowance player checker s =
    (case player of
       None \<Rightarrow> s
     | Some p \<Rightarrow> if p = [] then s
        else s\<lparr>ds_allowance := (case checker of Some (Some False) \<Rightarrow> AllowInsufficient | _ \<Rightarrow> AllowSufficient)\<rparr>)"

definition tick_second :: "deposit_state \<Rightarrow> deposit_state" where
  "tick_second s = (if ds_details s = None then s else s\<lparr>ds_elapsed := ds_elapsed s + 1\<rparr>)"

text \<open>A ledger of 0 counts as unknown, as in \<open>&&\<close> over numbers.\<close>

definition timeout_left :: "deposit_state \<Rightarrow> int option" where
  "timeout_left s =
    (case ds_details s of
       None \<Rightarrow> None
     | Some d \<Rightarrow> if md_createdLedger d = 0 \<or> md_timeoutLedgers d = 0 then None
        else Some (computeTimeoutSecondsRemaining (md_createdLedger d) (md_timeoutLedgers d) (md_currentLedger d) (ds_elapsed s)))"

definition deposit_disabled :: "string option \<Rightarrow> deposit_state \<Rightarrow> bool" where
  "deposit_disabled player s \<longleftrightarrow>
    (case ds_details s of
       None \<Rightarrow> True
     | Some d \<Rightarrow> md_state d \<noteq> StPending \<or> ds_status s = DepLoading \<or> ds_status s = DepPending \<or>
         hasDeposited player (Some d) \<or> ds_allowance s = AllowChecking \<or> ds_allowance s = AllowInsufficient \<or>
         timeout_left s = Some 0)"

text \<open>\<open>handleDeposit\<close> up to the call of \<open>onDeposit\<close>, and the rest; the second component says whether it is called.\<close>

definition handleDeposit :: "string option \<Rightarrow> browser_storage \<Rightarrow> rat \<Rightarrow> deposit_state \<Rightarrow> deposit_state \<times> bool" where
  "handleDeposit player storage now s =
    (let stake = (case ds_details s of None \<Rightarrow> 0 | Some d \<Rightarrow>
           (case stakeFromStroops (Some (int_text (md_stakeAmount d))) of None \<Rightarrow> 0 | Some n \<Rightarrow> n));
         check = (case player of None \<Rightarrow> WagerAllowed | Some p \<Rightarrow> if p = [] then WagerAllowed else checkWagerAllowed storage p stake now)
     in case check of
          WagerAllowed \<Rightarrow> (s\<lparr>ds_status := DepPending, ds_errorMsg := []\<rparr>, True)
        | SelfExcluded _ \<Rightarrow> (s\<lparr>ds_status := DepError, ds_errorMsg := ''You have self-excluded from wagering''\<rparr>, False)
        | OverLimit _ \<Rightarrow> (s\<lparr>ds_status := DepError, ds_errorMsg := ''This stake is above your limit''\<rparr>, False))"

definition deposit_result :: "string option \<Rightarrow> deposit_state \<Rightarrow> deposit_state" where
  "deposit_result failure s =
    (case failure of None \<Rightarrow> s\<lparr>ds_status := DepSuccess\<rparr> | Some m \<Rightarrow> s\<lparr>ds_status := DepError, ds_errorMsg := m\<rparr>)"

text \<open>\<open>handleApprove\<close>: the transaction fails, or the allowance is checked again.\<close>

definition handleApprove :: "string option \<Rightarrow> string option \<Rightarrow> bool option option \<Rightarrow> deposit_state \<Rightarrow> deposit_state" where
  "handleApprove failure player checker s =
    (case failure of
       Some m \<Rightarrow> s\<lparr>ds_status := DepError, ds_errorMsg := m\<rparr>
     | None \<Rightarrow> (verifyAllowance player checker (s\<lparr>ds_errorMsg := []\<rparr>))\<lparr>ds_status := DepIdle\<rparr>)"

section \<open>The status page\<close>

datatype reported_winner = WinnerPlayer1 | WinnerPlayer2 | WinnerDraw

record match_data =
  mx_state :: string
  mx_player1 :: string
  mx_player2 :: string
  mx_stakeAmount :: int
  mx_token :: string
  mx_platform :: string
  mx_winner :: "reported_winner option"
  mx_player1Deposited :: bool
  mx_player2Deposited :: bool
  mx_pendingResultLedger :: int
  mx_currentLedger :: int

text \<open>\<open>String(value)\<close>; the elements of an array are joined by commas, a missing one as the empty text.\<close>

fun comma_join :: "string list \<Rightarrow> string" where
  "comma_join [] = []"
| "comma_join [x] = x"
| "comma_join (x # y # xs) = x @ '','' @ comma_join (y # xs)"

fun sc_text :: "scnative \<Rightarrow> string" where
  "sc_text ScUndef = ''undefined''"
| "sc_text (ScBool b) = (if b then ''true'' else ''false'')"
| "sc_text (ScInt i) = int_text i"
| "sc_text (ScStr s) = s"
| "sc_text (ScArr xs) = comma_join (map (\<lambda>x. if x = ScUndef then [] else sc_text x) xs)"
| "sc_text ScOther = ''[object Object]''"

definition enum_name :: "scnative \<Rightarrow> string" where
  "enum_name v = (case v of ScArr [] \<Rightarrow> ''undefined'' | ScArr (x # _) \<Rightarrow> sc_text x | _ \<Rightarrow> sc_text v)"

definition read_winner :: "string option \<Rightarrow> reported_winner option" where
  "read_winner w = (case w of None \<Rightarrow> None
     | Some s \<Rightarrow> if s = ''Player1'' then Some WinnerPlayer1 else if s = ''Player2'' then Some WinnerPlayer2
         else if s = ''Draw'' then Some WinnerDraw else None)"

text \<open>\<open>raw.winner ?? pending_winner\<close>, the second as the pair of its name and its value.\<close>

definition winner_value :: "screcord \<Rightarrow> scnative option" where
  "winner_value raw =
    (case raw ''winner'' of
       ScUndef \<Rightarrow> (case raw ''pending_winner'' of
          ScArr (ScStr some # v # _) \<Rightarrow> if some = ''Some'' then Some v else None
        | _ \<Rightarrow> None)
     | w \<Rightarrow> Some w)"

definition fetchMatchStatus :: "int \<Rightarrow> screcord \<Rightarrow> match_data" where
  "fetchMatchStatus latestLedger raw =
    \<lparr>mx_state = enum_name (raw ''state''),
     mx_player1 = enum_name (raw ''player1''), mx_player2 = enum_name (raw ''player2''),
     mx_stakeAmount = ledger_number (raw ''stake_amount'') 0, mx_token = enum_name (raw ''token''),
     mx_platform = (if enum_name (raw ''platform'') = ''Lichess'' then ''lichess'' else ''chesscom''),
     mx_winner = read_winner (map_option enum_name (winner_value raw)),
     mx_player1Deposited = (raw ''player1_deposited'' = ScBool True), mx_player2Deposited = (raw ''player2_deposited'' = ScBool True),
     mx_pendingResultLedger = ledger_number (raw ''pending_result_ledger'') 0, mx_currentLedger = latestLedger\<rparr>"

datatype fetch_status = FetchIdle | FetchLoading | FetchError

record status_state =
  ss_data :: "match_data option"
  ss_fetch :: fetch_status
  ss_error :: string
  ss_elapsed :: int
  ss_polling :: bool

definition TERMINAL_STATES :: "string list" where "TERMINAL_STATES = [''Completed'', ''Cancelled'']"

text \<open>One answer of \<open>onFetchMatch\<close>: a failure, no match, or a match.\<close>

definition fetch_match :: "string + match_data option \<Rightarrow> status_state \<Rightarrow> status_state" where
  "fetch_match r s =
    (case r of
       Inl m \<Rightarrow> s\<lparr>ss_fetch := FetchError, ss_error := m\<rparr>
     | Inr None \<Rightarrow> s\<lparr>ss_data := None, ss_fetch := FetchIdle\<rparr>
     | Inr (Some d) \<Rightarrow> s\<lparr>ss_data := Some d, ss_elapsed := 0, ss_fetch := FetchIdle\<rparr>)"

text \<open>The ten-second interval: it ends once the match shown is in a terminal state, otherwise it fetches.\<close>

definition poll_interval :: "string + match_data option \<Rightarrow> status_state \<Rightarrow> status_state" where
  "poll_interval r s =
    (if \<not> ss_polling s then s
     else if (case ss_data s of Some d \<Rightarrow> mx_state d \<in> set TERMINAL_STATES | None \<Rightarrow> False) then s\<lparr>ss_polling := False\<rparr>
     else fetch_match r s)"

definition status_tick :: "status_state \<Rightarrow> status_state" where
  "status_tick s = (case ss_data s of
     Some d \<Rightarrow> if mx_state d = ''PendingResult'' then s\<lparr>ss_elapsed := ss_elapsed s + 1\<rparr> else s
   | None \<Rightarrow> s)"

text \<open>The countdown of the dispute window, when the data has both ledgers.\<close>

definition dispute_left :: "status_state \<Rightarrow> int option" where
  "dispute_left s = (case ss_data s of
     Some d \<Rightarrow> if mx_state d = ''PendingResult'' \<and> 0 < mx_pendingResultLedger d \<and> 0 < mx_currentLedger d
       then Some (computeDisputeSecondsRemaining (mx_pendingResultLedger d) (mx_currentLedger d) (ss_elapsed s)) else None
   | None \<Rightarrow> None)"

text \<open>The text of a completed match, and who is told of a refund of a cancelled one.\<close>

definition completed_text :: "match_data \<Rightarrow> string option" where
  "completed_text d =
    (case mx_winner d of
       None \<Rightarrow> None
     | Some WinnerDraw \<Rightarrow> Some ''The match ended in a draw. Stakes have been returned to both players.''
     | Some w \<Rightarrow> Some (''Winner: '' @ (if w = WinnerPlayer1 then ''Player 1'' else ''Player 2'') @ ''. Prize of '' @
         int_text (mx_stakeAmount d) @ '' '' @ js_upper (mx_token d) @ '' has been paid out.''))"

definition refunds_shown :: "match_data \<Rightarrow> bool \<times> bool" where
  "refunds_shown d = (mx_player1Deposited d, mx_player2Deposited d)"

section \<open>A wallet's wagers\<close>

record escrow_match =
  em_id :: nat
  em_player1 :: string
  em_player2 :: string
  em_stake_amount :: int
  em_token :: string
  em_state :: string
  em_pending_winner :: "string option"
  em_player1_deposited :: bool
  em_player2_deposited :: bool

record wager_row =
  wr_id :: nat
  wr_opponent :: string
  wr_result :: string
  wr_payout :: "int option"

text \<open>\<open>Inl\<close> is the exception. The amounts are kept as numbers; \<open>formatTokenAmount\<close> prints them.\<close>

definition wagerRow :: "escrow_match \<Rightarrow> string \<Rightarrow> string + wager_row option" where
  "wagerRow m wallet =
    (if wallet \<noteq> em_player1 m \<and> wallet \<noteq> em_player2 m then Inr None
     else (let first = (wallet = em_player1 m);
               deposited = (if first then em_player1_deposited m else em_player2_deposited m);
               winner = em_pending_winner m;
               row = (\<lambda>result payout. Inr (Some \<lparr>wr_id = em_id m, wr_opponent = (if first then em_player2 m else em_player1 m),
                        wr_result = result, wr_payout = payout\<rparr>)) in
       if em_state m = ''Completed'' then
         (case read_winner winner of
            None \<Rightarrow> Inl ''Completed match has no valid outcome''
          | Some w \<Rightarrow> (let result = (if w = WinnerDraw then ''Draw''
                                    else if w = (if first then WinnerPlayer1 else WinnerPlayer2) then ''Win'' else ''Loss'')
             in row result (Some (if w = WinnerDraw then em_stake_amount m else if result = ''Win'' then em_stake_amount m * 2 else 0))))
       else if em_state m = ''Cancelled'' then
         (if deposited then row ''Refund'' (Some (em_stake_amount m)) else row ''Cancelled (no deposit)'' (Some 0))
       else row (em_state m) None))"

text \<open>A page goes back over at most twenty records; \<open>get\<close> reads one, \<open>None\<close> when the read fails.\<close>

fun scan_records :: "(nat \<Rightarrow> escrow_match option) \<Rightarrow> string \<Rightarrow> nat \<Rightarrow> nat \<Rightarrow> wager_row list \<Rightarrow> string + wager_row list \<times> nat" where
  "scan_records get wallet 0 cursor rows = Inr (rows, cursor)"
| "scan_records get wallet (Suc left) cursor rows =
    (if cursor = 0 then Inr (rows, 0)
     else (case get (cursor - 1) of
             None \<Rightarrow> Inl ''Unable to read escrow records (records may have expired)''
           | Some m \<Rightarrow> (case wagerRow m wallet of
               Inl e \<Rightarrow> Inl e
             | Inr None \<Rightarrow> scan_records get wallet left (cursor - 1) rows
             | Inr (Some r) \<Rightarrow> scan_records get wallet left (cursor - 1) (rows @ [r]))))"

definition fetchWagerPage :: "(nat \<Rightarrow> escrow_match option) \<Rightarrow> nat option \<Rightarrow> string \<Rightarrow> nat option \<Rightarrow> string + wager_row list \<times> nat" where
  "fetchWagerPage get match_count wallet before =
    (case (case before of Some b \<Rightarrow> Some b | None \<Rightarrow> match_count) of
       None \<Rightarrow> Inl ''Unable to read escrow records (records may have expired)''
     | Some cursor \<Rightarrow> scan_records get wallet 20 cursor [])"

section \<open>The countdowns\<close>

lemma dispute_countdown:
  assumes "0 \<le> elapsed"
  shows "0 \<le> computeDisputeSecondsRemaining p c elapsed \<and>
    (computeDisputeSecondsRemaining p c elapsed = 0 \<longleftrightarrow> (p + DISPUTE_WINDOW_LEDGERS - c) * SECONDS_PER_LEDGER \<le> elapsed) \<and>
    (p \<le> c \<longrightarrow> computeDisputeSecondsRemaining p c elapsed \<le> 86400)"
  using assms by (auto simp: computeDisputeSecondsRemaining_def DISPUTE_WINDOW_LEDGERS_def SECONDS_PER_LEDGER_def Let_def)

lemma timeout_expired:
  "timeout_left s = Some 0 \<longleftrightarrow>
    (\<exists>d. ds_details s = Some d \<and> md_createdLedger d \<noteq> 0 \<and> md_timeoutLedgers d \<noteq> 0 \<and>
      (md_createdLedger d + md_timeoutLedgers d - md_currentLedger d) * SECONDS_PER_LEDGER \<le> ds_elapsed s)"
  by (auto simp: timeout_left_def computeTimeoutSecondsRemaining_def Let_def split: option.split)

lemma poll_ends_at_terminal:
  "ss_polling s \<Longrightarrow> ss_polling (poll_interval r s) = (\<forall>d. ss_data s = Some d \<longrightarrow> mx_state d \<notin> set TERMINAL_STATES)"
  by (auto simp: poll_interval_def fetch_match_def split: option.split sum.split)

lemma parse_state_type: "parseMatchState v = Some st \<longleftrightarrow> (\<exists>s. map_of STATE_NAMES s = Some st \<and> (v = ScStr s \<or> v = ScArr [ScStr s]))"
  by (auto simp: parseMatchState_def split: scnative.splits list.splits)

section \<open>The deposit button\<close>

lemma deposit_disabled_iff:
  "\<not> deposit_disabled player s \<longleftrightarrow>
    (\<exists>d. ds_details s = Some d \<and> md_state d = StPending \<and> ds_status s \<noteq> DepLoading \<and> ds_status s \<noteq> DepPending \<and>
      \<not> hasDeposited player (Some d) \<and> ds_allowance s \<noteq> AllowChecking \<and> ds_allowance s \<noteq> AllowInsufficient \<and> timeout_left s \<noteq> Some 0)"
  by (auto simp: deposit_disabled_def split: option.split)

lemma handleDeposit_sent:
  assumes "handleDeposit player storage now s = (s1, True)"
  shows "s1 = s\<lparr>ds_status := DepPending, ds_errorMsg := []\<rparr>"
  using assms by (auto simp: handleDeposit_def Let_def split: wager_check.splits)

lemma int_text_nat: "0 < i \<Longrightarrow> stakeFromStroops (Some (int_text i)) = Some (nat i)"
proof -
  assume i: "0 < i"
  then have t: "int_text i = nat_text (nat i)" by (simp add: int_text_def)
  have "js_trim (nat_text (nat i)) = nat_text (nat i)"
    using nat_text_digits[of "nat i"] dec_digit_facts by (intro no_ws_trim) (auto simp: list_all_iff)
  then show ?thesis using i nat_text_digits[of "nat i"] by (simp add: stakeFromStroops_def t nat_text_value)
qed


definition open_match :: match_details where
  "open_match = \<lparr>md_state = StPending, md_stakeAmount = 500, md_token = ''xlm'', md_player1 = ''GA'', md_player2 = ''GB'',
     md_player1Deposited = True, md_player2Deposited = False, md_createdLedger = 1000, md_timeoutLedgers = 120960, md_currentLedger = 2000\<rparr>"

definition open_page :: deposit_state where
  "open_page = initial_deposit\<lparr>ds_details := Some open_match, ds_allowance := AllowSufficient\<rparr>"

definition empty_browser :: browser_storage where
  "empty_browser = \<lparr>bs_available = True, bs_items = Map.empty\<rparr>"

lemma empty_browser_allows: "checkWagerAllowed empty_browser a n now = WagerAllowed"
  by (simp add: checkWagerAllowed_def activeExclusion_def effectiveSettings_def loadSettings_def empty_browser_def no_settings_def apply_pending_def)

lemma open_page_facts:
  "\<not> deposit_disabled (Some ''GB'') open_page"
  "handleDeposit (Some ''GB'') empty_browser 0 open_page = (open_page\<lparr>ds_status := DepPending, ds_errorMsg := []\<rparr>, True)"
proof -
  show "\<not> deposit_disabled (Some ''GB'') open_page"
    by (simp add: deposit_disabled_def open_page_def initial_deposit_def open_match_def hasDeposited_def timeout_left_def
        computeTimeoutSecondsRemaining_def SECONDS_PER_LEDGER_def)
  show "handleDeposit (Some ''GB'') empty_browser 0 open_page = (open_page\<lparr>ds_status := DepPending, ds_errorMsg := []\<rparr>, True)"
    by (simp add: handleDeposit_def empty_browser_allows Let_def)
qed


text \<open>A successful deposit does not close the button: the page does not read the match again, so once the deposit
  has ended the button is enabled as before, and another click is sent to the wallet again.\<close>
lemma deposit_offered_again:
  assumes "\<not> deposit_disabled player s" "handleDeposit player storage now s = (s1, True)"
  shows "\<not> deposit_disabled player (deposit_result None s1) \<and> snd (handleDeposit player storage now (deposit_result None s1))"
proof -
  have s1: "deposit_result None s1 = s\<lparr>ds_status := DepSuccess, ds_errorMsg := []\<rparr>"
    using handleDeposit_sent[OF assms(2)] by (simp add: deposit_result_def)
  have "\<not> deposit_disabled player (s\<lparr>ds_status := DepSuccess, ds_errorMsg := []\<rparr>)"
  proof -
    have "timeout_left (s\<lparr>ds_status := DepSuccess, ds_errorMsg := []\<rparr>) = timeout_left s"
      by (cases "ds_details s") (simp_all add: timeout_left_def)
    then show ?thesis using assms(1) by (auto simp: deposit_disabled_iff)
  qed
  moreover have "snd (handleDeposit player storage now (s\<lparr>ds_status := DepSuccess, ds_errorMsg := []\<rparr>))"
    using assms(2) by (simp add: handleDeposit_def Let_def split: wager_check.splits)
  ultimately show ?thesis by (simp add: s1)
qed

lemma deposit_offered_again_example:
  "\<not> deposit_disabled (Some ''GB'') (deposit_result None (open_page\<lparr>ds_status := DepPending, ds_errorMsg := []\<rparr>))"
  using deposit_offered_again[OF open_page_facts] by blast

section \<open>The wagers of a wallet\<close>

text \<open>The history shows what the contract pays: for a completed match between two players the two rows have the
  amounts of the payout breakdown for the stake, a winner and a loser or two draws, and together exactly the pot.\<close>
lemma wager_rows_settle:
  assumes "em_state m = ''Completed''" "em_player1 m \<noteq> em_player2 m" "read_winner (em_pending_winner m) = Some w"
    "computePayoutBreakdown (em_stake_amount m) action fee = Some b"
  shows "\<exists>r1 r2 a1 a2. wagerRow m (em_player1 m) = Inr (Some r1) \<and> wagerRow m (em_player2 m) = Inr (Some r2) \<and>
    wr_payout r1 = Some a1 \<and> wr_payout r2 = Some a2 \<and> a1 + a2 = 2 * em_stake_amount m \<and>
    a1 = (case w of WinnerPlayer1 \<Rightarrow> oa_gross (pb_win b) | WinnerPlayer2 \<Rightarrow> oa_gross (pb_loss b) | WinnerDraw \<Rightarrow> oa_gross (pb_draw b)) \<and>
    a2 = (case w of WinnerPlayer1 \<Rightarrow> oa_gross (pb_loss b) | WinnerPlayer2 \<Rightarrow> oa_gross (pb_win b) | WinnerDraw \<Rightarrow> oa_gross (pb_draw b))"
proof -
  have b: "oa_gross (pb_win b) = 2 * em_stake_amount m" "oa_gross (pb_loss b) = 0" "oa_gross (pb_draw b) = em_stake_amount m"
    using assms(4) by (auto simp: computePayoutBreakdown_def PLATFORM_FEE_BPS_def Let_def split: if_splits)
  show ?thesis using assms(1-3) b by (cases w) (auto simp: wagerRow_def Let_def)
qed

definition won_match :: escrow_match where
  "won_match = \<lparr>em_id = 3, em_player1 = ''GA'', em_player2 = ''GB'', em_stake_amount = 500, em_token = ''C'', em_state = ''Completed'',
     em_pending_winner = Some ''Player2'', em_player1_deposited = True, em_player2_deposited = True\<rparr>"

lemma wager_rows_settle_example:
  "\<exists>r1 r2. wagerRow won_match ''GA'' = Inr (Some r1) \<and> wagerRow won_match ''GB'' = Inr (Some r2) \<and> wr_payout r1 = Some 0 \<and> wr_payout r2 = Some 1000"
proof -
  obtain b where b: "computePayoutBreakdown 500 CreateAction 0 = Some b" by (simp add: computePayoutBreakdown_def Let_def)
  then have "oa_gross (pb_loss b) = 0" "oa_gross (pb_win b) = 1000"
    by (auto simp: computePayoutBreakdown_def PLATFORM_FEE_BPS_def Let_def)
  then show ?thesis using wager_rows_settle[of won_match WinnerPlayer2 CreateAction 0 b] b by (auto simp: won_match_def read_winner_def)
qed

lemma scan_records_rows:
  assumes "scan_records get wallet n cursor rows = Inr (rs, c)"
  shows "c = cursor - n \<and> rs = rows @ List.map_filter (\<lambda>i. case get i of None \<Rightarrow> None
      | Some m \<Rightarrow> (case wagerRow m wallet of Inr r \<Rightarrow> r | Inl _ \<Rightarrow> None)) (rev [c ..< cursor])"
  using assms
proof (induction n arbitrary: cursor rows)
  case 0
  then show ?case by (simp add: List.map_filter_simps)
next
  case (Suc n)
  show ?case
  proof (cases cursor)
    case 0
    then show ?thesis using Suc.prems by (simp add: List.map_filter_simps)
  next
    case (Suc k)
    obtain m where m: "get k = Some m" using Suc.prems \<open>cursor = Suc k\<close> by (auto split: option.splits)
    obtain q where q: "wagerRow m wallet = Inr q" using Suc.prems \<open>cursor = Suc k\<close> m by (auto split: sum.splits)
    have "scan_records get wallet n k (rows @ (case q of None \<Rightarrow> [] | Some r \<Rightarrow> [r])) = Inr (rs, c)"
      using Suc.prems \<open>cursor = Suc k\<close> m q by (cases q) simp_all
    note IH = Suc.IH[OF this]
    have c: "c \<le> k" using IH by simp
    then have "rev [c ..< Suc k] = k # rev [c ..< k]" by simp
    then show ?thesis using IH \<open>cursor = Suc k\<close> m q by (cases q) (simp_all add: List.map_filter_simps)
  qed
qed

text \<open>Paging loses no wager: a page that loads has, newest first, the row of every record of this wallet among the
  twenty before its start, skips only records of other wallets, and the next page starts exactly where it ended.\<close>
lemma wager_page_complete:
  assumes "fetchWagerPage get count wallet (Some start) = Inr (rows, next)"
  shows "next = start - 20 \<and>
    rows = List.map_filter (\<lambda>i. case get i of None \<Rightarrow> None
      | Some m \<Rightarrow> (case wagerRow m wallet of Inr r \<Rightarrow> r | Inl _ \<Rightarrow> None)) (rev [next ..< start])"
  using assms scan_records_rows[of get wallet 20 start "[]" rows "next"] by (simp add: fetchWagerPage_def)

lemma wager_page_complete_example:
  "\<exists>r. fetchWagerPage (\<lambda>_. Some won_match) None ''GA'' (Some 1) = Inr ([r], 0)"
proof -
  obtain r where r: "wagerRow won_match ''GA'' = Inr (Some r)" by (simp add: won_match_def wagerRow_def read_winner_def Let_def)
  have page: "fetchWagerPage (\<lambda>_. Some won_match) None ''GA'' (Some 1) = Inr ([r], 0)"
    by (simp add: fetchWagerPage_def numeral_eq_Suc r)
  then show ?thesis using wager_page_complete[OF page] by blast
qed

text \<open>The status page names the stake as the prize of a match, the history twice the stake.\<close>

lemma prize_text_is_stake:
  assumes "mx_winner d = Some WinnerPlayer1" "mx_stakeAmount d = 500" "mx_token d = ''xlm''"
  shows "completed_text d = Some ''Winner: Player 1. Prize of 500 XLM has been paid out.''"
proof -
  have "int_text 500 = ''500''"
    by (simp add: int_text_def nat_text.simps[of 500] nat_text.simps[of 50] nat_text.simps[of 5]) code_simp
  moreover have "js_upper ''xlm'' = ''XLM''" by code_simp
  ultimately show ?thesis using assms by (simp add: completed_text_def)
qed

end
