(* ===== verification/ClaimBurn.thy ===== *)
theory ClaimBurn
  imports Amounts
begin

text \<open>
  The claim and burn form of \<open>components/claim-burn.tsx\<close> as a machine of its events: the amount is simulated
  first, confirmed in an overlay and only then handed to the wallet. A handler that awaits is split where it awaits
  and keeps the values it closed over. Toasts, focus and the texts of the page are left out.
\<close>

section \<open>Amounts\<close>

definition isValidAmount :: "string \<Rightarrow> bool" where
  "isValidAmount value \<longleftrightarrow> js_trim value \<noteq> [] \<and> (case js_Number value of Fin r \<Rightarrow> 0 < r | PInf \<Rightarrow> True | _ \<Rightarrow> False)"

definition formatStroopsAsXlm :: "string \<Rightarrow> string" where
  "formatStroopsAsXlm stroops =
    (let k = length stroops - 7;
         wholeXlm = (if take k stroops = [] then ''0'' else take k stroops);
         fractionalXlm = drop_zeros (padStart 7 (drop k stroops))
     in if fractionalXlm = [] then wholeXlm else wholeXlm @ ''.'' @ fractionalXlm)"

section \<open>The component\<close>

datatype claim_mode = ClaimMode | BurnMode
datatype claim_status = ClaimIdle | ClaimSimulating | ClaimConfirm | ClaimPending | ClaimSuccess | ClaimError

record claim_state =
  cl_mode :: claim_mode
  cl_input :: string
  cl_confirmAmount :: string
  cl_estimatedFee :: "string option"
  cl_status :: claim_status
  cl_errorMsg :: string
  cl_txHash :: "string option"
  cl_account :: "string option"

definition initial_claim :: "string option \<Rightarrow> claim_state" where
  "initial_claim key = \<lparr>cl_mode = ClaimMode, cl_input = [], cl_confirmAmount = [], cl_estimatedFee = None, cl_status = ClaimIdle,
     cl_errorMsg = [], cl_txHash = None, cl_account = key\<rparr>"

definition claim_busy :: "claim_state \<Rightarrow> bool" where
  "claim_busy s \<longleftrightarrow> cl_status s = ClaimPending \<or> cl_status s = ClaimSimulating"

definition resetFeedback :: "claim_state \<Rightarrow> claim_state" where
  "resetFeedback s = s\<lparr>cl_status := ClaimIdle, cl_txHash := None, cl_errorMsg := [], cl_estimatedFee := None\<rparr>"

definition handleToggle :: "claim_mode \<Rightarrow> claim_state \<Rightarrow> claim_state" where
  "handleToggle m s = resetFeedback (s\<lparr>cl_mode := m\<rparr>)"

definition handleAmountChange :: "string \<Rightarrow> claim_state \<Rightarrow> claim_state" where
  "handleAmountChange v s =
    (if cl_status s = ClaimError \<or> cl_status s = ClaimSuccess then resetFeedback (s\<lparr>cl_input := v\<rparr>) else s\<lparr>cl_input := v\<rparr>)"

definition handleMax :: "string option \<Rightarrow> claim_state \<Rightarrow> claim_state" where
  "handleMax balance s = (case balance of None \<Rightarrow> s | Some b \<Rightarrow> resetFeedback (s\<lparr>cl_input := b\<rparr>))"

text \<open>\<open>handleRequestSubmit\<close> up to the simulation; the second component says whether it is asked for.\<close>

definition handleRequestSubmit :: "bool \<Rightarrow> bool \<Rightarrow> claim_state \<Rightarrow> claim_state \<times> bool" where
  "handleRequestSubmit online available s =
    (if claim_busy s then (s, False)
     else if \<not> isValidAmount (cl_input s)
     then (s\<lparr>cl_status := ClaimError, cl_errorMsg := ''Please enter a valid amount greater than 0.'', cl_txHash := None\<rparr>, False)
     else if \<not> online
     then (s\<lparr>cl_status := ClaimError, cl_errorMsg := ''Connect your wallet to continue.'', cl_txHash := None\<rparr>, False)
     else if \<not> available
     then (s\<lparr>cl_status := ClaimError, cl_errorMsg := ''Transaction simulation is unavailable.'', cl_estimatedFee := None\<rparr>, False)
     else (s\<lparr>cl_status := ClaimSimulating, cl_errorMsg := [], cl_estimatedFee := None\<rparr>, True))"

record simulation_answer =
  sa_minResourceFee :: "string option"
  sa_error :: "string option"

text \<open>The fee of an answer, or the message of the error thrown.\<close>

definition simulated_fee :: "string + simulation_answer \<Rightarrow> string + string" where
  "simulated_fee r =
    (case r of
       Inl m \<Rightarrow> Inl m
     | Inr a \<Rightarrow>
        (case sa_error a of
           Some m \<Rightarrow> if m \<noteq> [] then Inl m
             else (case sa_minResourceFee a of Some f \<Rightarrow> if f \<noteq> [] \<and> list_all dec_digit f then Inr f
                     else Inl ''The transaction fee could not be estimated.'' | None \<Rightarrow> Inl ''The transaction fee could not be estimated.'')
         | None \<Rightarrow> (case sa_minResourceFee a of Some f \<Rightarrow> if f \<noteq> [] \<and> list_all dec_digit f then Inr f
                     else Inl ''The transaction fee could not be estimated.'' | None \<Rightarrow> Inl ''The transaction fee could not be estimated.'')))"

text \<open>The rest of \<open>handleRequestSubmit\<close> for the amount it was called with.\<close>

definition simulation_result :: "string \<Rightarrow> string + simulation_answer \<Rightarrow> claim_state \<Rightarrow> claim_state" where
  "simulation_result amount r s =
    (case simulated_fee r of
       Inr f \<Rightarrow> s\<lparr>cl_confirmAmount := amount, cl_estimatedFee := Some f, cl_status := ClaimConfirm\<rparr>
     | Inl m \<Rightarrow> s\<lparr>cl_status := ClaimError, cl_errorMsg := m\<rparr>)"

definition handleConfirm :: "claim_state \<Rightarrow> claim_state" where
  "handleConfirm s = s\<lparr>cl_status := ClaimPending, cl_errorMsg := [], cl_txHash := None\<rparr>"

record claim_receipt =
  rc_hash :: string
  rc_confirmed :: bool

definition confirm_outcome :: "string + claim_receipt option \<Rightarrow> claim_state \<Rightarrow> claim_state" where
  "confirm_outcome r s =
    (case r of
       Inl m \<Rightarrow> s\<lparr>cl_status := ClaimError, cl_errorMsg := m\<rparr>
     | Inr None \<Rightarrow> s\<lparr>cl_status := ClaimError, cl_errorMsg := ''No confirmed transaction was returned.''\<rparr>
     | Inr (Some rc) \<Rightarrow>
        (if \<not> rc_confirmed rc \<or> rc_hash rc = []
         then s\<lparr>cl_status := ClaimError, cl_errorMsg := ''No confirmed transaction was returned.''\<rparr>
         else s\<lparr>cl_txHash := Some (rc_hash rc), cl_status := ClaimSuccess, cl_input := []\<rparr>))"

definition handleCancel :: "claim_state \<Rightarrow> claim_state" where
  "handleCancel s = s\<lparr>cl_status := ClaimIdle, cl_confirmAmount := []\<rparr>"

text \<open>The effect on a change of the account.\<close>

definition account_changed :: "string option \<Rightarrow> claim_state \<Rightarrow> claim_state" where
  "account_changed key s =
    (if cl_account s \<noteq> None \<and> cl_account s \<noteq> key \<and> cl_status s \<in> {ClaimConfirm, ClaimSimulating, ClaimPending}
     then s\<lparr>cl_status := ClaimError, cl_confirmAmount := [], cl_estimatedFee := None,
            cl_errorMsg := ''Active wallet account changed. Please re-confirm transaction with the new account.'', cl_account := key\<rparr>
     else s\<lparr>cl_account := key\<rparr>)"

section \<open>Events\<close>

text \<open>What is under way: the simulations asked for and the actions called, each with the mode and the amount it was
  started with; and for the properties, every simulation that gave a fee and every call of \<open>onClaim\<close> or
  \<open>onBurn\<close>.\<close>

record claim_world =
  cz_state :: claim_state
  cz_sims :: "(claim_mode \<times> string) list"
  cz_acts :: "(claim_mode \<times> string) list"
  cz_simulated :: "(claim_mode \<times> string) list"
  cz_called :: "(claim_mode \<times> string) list"

datatype claim_event =
    EvToggle claim_mode | EvInput string | EvMax "string option" | EvSubmit bool bool
  | EvSimulated "string + simulation_answer" | EvConfirm | EvOutcome "string + claim_receipt option" | EvCancel
  | EvAccount "string option" | EvDismiss

text \<open>An event the page cannot produce in its state leaves everything as it is. The answers arrive in the order of
  the questions.\<close>

definition claim_step :: "claim_event \<Rightarrow> claim_world \<Rightarrow> claim_world" where
  "claim_step e w =
    (let s = cz_state w in
     case e of
       EvToggle m \<Rightarrow> if claim_busy s then w else w\<lparr>cz_state := handleToggle m s\<rparr>
     | EvInput v \<Rightarrow> if claim_busy s then w else w\<lparr>cz_state := handleAmountChange v s\<rparr>
     | EvMax b \<Rightarrow> if claim_busy s then w else w\<lparr>cz_state := handleMax b s\<rparr>
     | EvSubmit online available \<Rightarrow>
        (let (s1, asked) = handleRequestSubmit online available s in
         w\<lparr>cz_state := s1, cz_sims := cz_sims w @ (if asked then [(cl_mode s, cl_input s)] else [])\<rparr>)
     | EvSimulated r \<Rightarrow>
        (case cz_sims w of
           [] \<Rightarrow> w
         | q # qs \<Rightarrow> w\<lparr>cz_state := simulation_result (snd q) r s, cz_sims := qs,
             cz_simulated := (case simulated_fee r of Inr _ \<Rightarrow> [q] | Inl _ \<Rightarrow> []) @ cz_simulated w\<rparr>)
     | EvConfirm \<Rightarrow> if cl_status s \<noteq> ClaimConfirm then w
        else w\<lparr>cz_state := handleConfirm s, cz_acts := cz_acts w @ [(cl_mode s, cl_confirmAmount s)],
               cz_called := (cl_mode s, cl_confirmAmount s) # cz_called w\<rparr>
     | EvOutcome r \<Rightarrow> (case cz_acts w of [] \<Rightarrow> w | _ # qs \<Rightarrow> w\<lparr>cz_state := confirm_outcome r s, cz_acts := qs\<rparr>)
     | EvCancel \<Rightarrow> if cl_status s \<noteq> ClaimConfirm then w else w\<lparr>cz_state := handleCancel s\<rparr>
     | EvAccount key \<Rightarrow> w\<lparr>cz_state := account_changed key s\<rparr>
     | EvDismiss \<Rightarrow> if cl_status s \<noteq> ClaimSuccess then w else w\<lparr>cz_state := s\<lparr>cl_status := ClaimIdle\<rparr>\<rparr>)"

definition claim_start :: "string option \<Rightarrow> claim_world" where
  "claim_start key = \<lparr>cz_state = initial_claim key, cz_sims = [], cz_acts = [], cz_simulated = [], cz_called = []\<rparr>"

section \<open>Only what was simulated is confirmed\<close>

definition keeps_account :: "claim_event \<Rightarrow> bool" where
  "keeps_account e \<longleftrightarrow> (\<forall>k. e \<noteq> EvAccount k)"

definition claim_inv :: "claim_world \<Rightarrow> bool" where
  "claim_inv w \<longleftrightarrow>
    (if cl_status (cz_state w) = ClaimSimulating then \<exists>a. cz_sims w = [(cl_mode (cz_state w), a)] else cz_sims w = []) \<and>
    (cl_status (cz_state w) = ClaimConfirm \<longrightarrow> (cl_mode (cz_state w), cl_confirmAmount (cz_state w)) \<in> set (cz_simulated w)) \<and>
    (if cl_status (cz_state w) = ClaimPending then length (cz_acts w) = 1 else cz_acts w = []) \<and>
    set (cz_called w) \<subseteq> set (cz_simulated w)"

lemmas claim_ops = claim_busy_def resetFeedback_def handleToggle_def handleAmountChange_def handleMax_def handleRequestSubmit_def
  handleConfirm_def handleCancel_def

lemma claim_inv_start: "claim_inv (claim_start key)"
  by (simp add: claim_inv_def claim_start_def initial_claim_def)

lemma claim_inv_step: "claim_inv w \<Longrightarrow> keeps_account e \<Longrightarrow> claim_inv (claim_step e w)"
proof (cases e)
  case (EvToggle m)
  assume "claim_inv w"
  then show ?thesis by (auto simp: EvToggle claim_step_def claim_inv_def claim_ops Let_def)
next
  case (EvInput v)
  assume "claim_inv w"
  then show ?thesis by (auto simp: EvInput claim_step_def claim_inv_def claim_ops Let_def)
next
  case (EvMax b)
  assume "claim_inv w"
  then show ?thesis by (auto simp: EvMax claim_step_def claim_inv_def claim_ops Let_def split: option.split)
next
  case (EvSubmit c a)
  assume "claim_inv w"
  then show ?thesis by (auto simp: EvSubmit claim_step_def claim_inv_def claim_ops Let_def)
next
  case (EvSimulated r)
  assume inv: "claim_inv w"
  show ?thesis
  proof (cases "cz_sims w")
    case Nil
    then show ?thesis using inv by (simp add: EvSimulated claim_step_def)
  next
    case (Cons q qs)
    then have "cl_status (cz_state w) = ClaimSimulating" "q = (cl_mode (cz_state w), snd q)" "qs = []"
      using inv by (auto simp: claim_inv_def split: if_splits)
    then show ?thesis using inv Cons
      by (cases "simulated_fee r") (auto simp: EvSimulated claim_step_def claim_inv_def simulation_result_def Let_def)
  qed
next
  case EvConfirm
  assume "claim_inv w"
  then show ?thesis by (auto simp: EvConfirm claim_step_def claim_inv_def claim_ops Let_def)
next
  case (EvOutcome r)
  assume inv: "claim_inv w"
  show ?thesis
  proof (cases "cz_acts w")
    case Nil
    then show ?thesis using inv by (simp add: EvOutcome claim_step_def)
  next
    case (Cons q qs)
    then have "cl_status (cz_state w) = ClaimPending" "qs = []" using inv by (auto simp: claim_inv_def split: if_splits)
    then show ?thesis using inv Cons
      by (auto simp: EvOutcome claim_step_def claim_inv_def confirm_outcome_def Let_def split: sum.split option.split)
  qed
next
  case EvCancel
  assume "claim_inv w"
  then show ?thesis by (auto simp: EvCancel claim_step_def claim_inv_def claim_ops Let_def)
next
  case EvDismiss
  assume "claim_inv w"
  then show ?thesis by (auto simp: EvDismiss claim_step_def claim_inv_def Let_def)
qed (simp add: keeps_account_def)

text \<open>C30. The wallet is asked only for what was simulated and confirmed: in every sequence of events in which the
  account stays the same, each call of \<open>onClaim\<close> or \<open>onBurn\<close> is for a mode and an amount whose simulation gave
  a fee before, and at most one call is waiting for its outcome at a time.\<close>
theorem claim_calls_simulated:
  assumes "\<forall>e \<in> set es. keeps_account e" "w = fold claim_step es (claim_start key)"
  shows "set (cz_called w) \<subseteq> set (cz_simulated w) \<and> length (cz_acts w) \<le> 1"
proof -
  have "claim_inv v \<Longrightarrow> \<forall>e \<in> set es. keeps_account e \<Longrightarrow> claim_inv (fold claim_step es v)" for v
    by (induction es arbitrary: v) (simp_all add: claim_inv_step)
  then have "claim_inv w" using claim_inv_start assms by blast
  then show ?thesis by (auto simp: claim_inv_def split: if_splits)
qed

definition good_answer :: simulation_answer where
  "good_answer = \<lparr>sa_minResourceFee = Some ''100'', sa_error = None\<rparr>"

definition claim_five :: "claim_event list" where
  "claim_five = [EvInput ''5'', EvSubmit True True, EvSimulated (Inr good_answer), EvConfirm]"

lemma five_valid: "isValidAmount ''5''"
proof -
  have t: "js_trim ''5'' = ''5''" "digit_val 10 CHR ''5'' = Some 5" by code_simp+
  have "js_Number ''5'' = Fin 5" by (simp add: js_Number_def t js_decimal_def read_exponent_def js_round_def)
  then show ?thesis by (simp add: isValidAmount_def t)
qed

lemma good_fee: "simulated_fee (Inr good_answer) = Inr ''100''"
proof -
  have "dec_digit CHR ''1''" "dec_digit CHR ''0''" by code_simp+
  then show ?thesis by (simp add: simulated_fee_def good_answer_def)
qed

theorem claim_calls_simulated_witness:
  "cz_called (fold claim_step claim_five (claim_start (Some ''GA''))) = [(ClaimMode, ''5'')] \<and>
   set [(ClaimMode, ''5'')] \<subseteq> set (cz_simulated (fold claim_step claim_five (claim_start (Some ''GA''))))"
proof -
  have "cz_called (fold claim_step claim_five (claim_start (Some ''GA''))) = [(ClaimMode, ''5'')]"
    using five_valid good_fee by (simp add: claim_five_def claim_step_def claim_start_def initial_claim_def claim_ops simulation_result_def Let_def)
  then show ?thesis
    using claim_calls_simulated[of claim_five "fold claim_step claim_five (claim_start (Some ''GA''))" "Some ''GA''"]
    by (simp add: claim_five_def keeps_account_def)
qed

text \<open>A change of the account while a simulation runs breaks this: the page reports the change, but when the old
  simulation answers it still opens the confirmation, and by then the mode can have been toggled, so the amount is
  burned on confirmation although only the claim was simulated.\<close>
lemma claim_stale_simulation:
  assumes "isValidAmount a" "simulated_fee r = Inr f" "old \<noteq> new"
  shows "(BurnMode, a) \<in> set (cz_called (fold claim_step
      [EvInput a, EvSubmit True True, EvAccount (Some new), EvToggle BurnMode, EvSimulated r, EvConfirm] (claim_start (Some old)))) \<and>
    cz_simulated (fold claim_step
      [EvInput a, EvSubmit True True, EvAccount (Some new), EvToggle BurnMode, EvSimulated r, EvConfirm] (claim_start (Some old))) = [(ClaimMode, a)]"
  using assms by (simp add: claim_step_def claim_start_def initial_claim_def claim_ops simulation_result_def account_changed_def Let_def)

lemma claim_stale_simulation_example:
  "(BurnMode, ''5'') \<in> set (cz_called (fold claim_step
      [EvInput ''5'', EvSubmit True True, EvAccount (Some ''GB''), EvToggle BurnMode, EvSimulated (Inr good_answer), EvConfirm] (claim_start (Some ''GA''))))"
  using claim_stale_simulation[OF five_valid good_fee, of "''GA''" "''GB''"] by simp

text \<open>The fee of the confirmation is shown in XLM as the number of stroops it is.\<close>

lemma fee_text_value:
  assumes "list_all dec_digit f" "7 \<le> length f"
  shows "formatStroopsAsXlm f =
    (let k = length f - 7 in (if k = 0 then ''0'' else take k f) @
      (if drop_zeros (drop k f) = [] then [] else ''.'' @ drop_zeros (drop k f)))"
  using assms by (auto simp: formatStroopsAsXlm_def padStart_def Let_def)

end
