(* ===== verification/Status.thy ===== *)
theory Status
  imports Tracing CircuitBreaker Json Settings
begin

text \<open>
  Public status and health of the backend: the incidents operators post and the status document
  (\<open>services/status-service.ts\<close>, \<open>routes/status.ts\<close>), the RPC calls behind the health check
  (\<open>services/stellar.ts\<close>) and the health check itself (\<open>services/health-service.ts\<close>,
  \<open>routes/health.ts\<close>). A date is the number of milliseconds it stands for; \<open>parse\<close> is \<open>Date.parse\<close>,
  and ISO texts of the years 0 to 9999 sort like their times.
\<close>

section \<open>Text safe to publish\<close>

definition is_word :: "char \<Rightarrow> bool" where
  "is_word c = (is_lower c \<or> is_upper c \<or> is_digit_char c \<or> c = CHR ''_'')"

text \<open>\<open>STRKEY\<close> needs a word boundary on both sides and matches word characters only, so a match is always a whole
  run of word characters.\<close>

definition strkey :: "string \<Rightarrow> bool" where
  "strkey w = ((length w = 56 \<or> length w = 69) \<and> hd w \<in> set ''GSCMT'' \<and> list_all base32_char (tl w))"

function redact :: "string \<Rightarrow> string" where
  "redact [] = []"
| "redact (c # s) =
    (if is_word c
     then (if strkey (takeWhile is_word (c # s)) then ''[redacted]'' else takeWhile is_word (c # s)) @ redact (dropWhile is_word s)
     else c # redact s)"
  by pat_completeness auto
termination by (relation "measure length") (auto simp: le_imp_less_Suc length_dropWhile_le)

definition MAX_TEXT :: nat where "MAX_TEXT = 500"

text \<open>The argument is \<open>String(value)\<close>, empty for a null or missing value.\<close>

definition publicText :: "string \<Rightarrow> string" where
  "publicText v = take MAX_TEXT (js_trim (redact v))"

text \<open>\<open>str\<close> is \<open>String\<close> for the values that are neither text nor null.\<close>

definition json_text :: "(json \<Rightarrow> string) \<Rightarrow> json option \<Rightarrow> string" where
  "json_text str v = (case v of None \<Rightarrow> [] | Some JsonNull \<Rightarrow> [] | Some (JsonStr s) \<Rightarrow> s | Some x \<Rightarrow> str x)"

section \<open>Incidents\<close>

datatype component_status = Operational | Degraded | Outage | UnknownStatus
datatype incident_stage = Investigating | Identified | Monitoring | Resolved

definition COMPONENTS :: "(string \<times> string) list" where
  "COMPONENTS = [(''stellar_rpc'', ''Stellar network (Soroban RPC)''), (''oracle_submissions'', ''Result submission (oracle)''),
     (''lichess'', ''Lichess game data''), (''chessdotcom'', ''Chess.com game data'')]"

text \<open>\<open>c in COMPONENTS\<close> also holds for the names every object inherits.\<close>

definition in_components :: "string \<Rightarrow> bool" where
  "in_components c = (c \<in> set (map fst COMPONENTS) \<or> c \<in> set INHERITED)"

record incident =
  in_id :: string
  in_title :: string
  in_stage :: incident_stage
  in_impact :: component_status
  in_comps :: "string list"
  in_startedAt :: int
  in_resolvedAt :: "int option"
  in_updates :: "(int \<times> string) list"

definition isoOrNull :: "(string \<Rightarrow> int option) \<Rightarrow> json option \<Rightarrow> int option" where
  "isoOrNull parse v = (case json_str v of Some s \<Rightarrow> parse s | None \<Rightarrow> None)"

definition read_stage :: "json option \<Rightarrow> incident_stage option" where
  "read_stage v = (case json_str v of
     Some s \<Rightarrow> map_of [(''investigating'', Investigating), (''identified'', Identified), (''monitoring'', Monitoring), (''resolved'', Resolved)] s
   | None \<Rightarrow> None)"

definition read_components :: "json option \<Rightarrow> string list" where
  "read_components v = (case json_list v of
     Some xs \<Rightarrow> List.map_filter (\<lambda>x. case x of JsonStr s \<Rightarrow> if in_components s then Some s else None | _ \<Rightarrow> None) xs
   | None \<Rightarrow> [])"

definition read_update :: "(string \<Rightarrow> int option) \<Rightarrow> (json \<Rightarrow> string) \<Rightarrow> json \<Rightarrow> (int \<times> string) option" where
  "read_update parse str u =
    (case isoOrNull parse (json_field ''at'' u) of
       None \<Rightarrow> None
     | Some t \<Rightarrow> Some (t, publicText (json_text str (json_field ''message'' u))))"

definition read_incident :: "(string \<Rightarrow> int option) \<Rightarrow> (json \<Rightarrow> string) \<Rightarrow> json \<Rightarrow> incident option" where
  "read_incident parse str i =
    (if \<not> json_object i then None
     else (case (isoOrNull parse (json_field ''startedAt'' i), read_stage (json_field ''stage'' i), json_str (json_field ''id'' i)) of
             (Some startedAt, Some stage, Some ident) \<Rightarrow>
               (let comps = read_components (json_field ''components'' i) in
                if comps = [] then None
                else Some \<lparr>in_id = take 64 (publicText ident), in_title = publicText (json_text str (json_field ''title'' i)),
                  in_stage = stage, in_impact = (if json_str (json_field ''impact'' i) = Some ''outage'' then Outage else Degraded),
                  in_comps = comps, in_startedAt = startedAt, in_resolvedAt = isoOrNull parse (json_field ''resolvedAt'' i),
                  in_updates = sort_key (\<lambda>u. - fst u) (case json_list (json_field ''updates'' i) of
                    None \<Rightarrow> [] | Some us \<Rightarrow> List.map_filter (read_update parse str) us)\<rparr>)
           | _ \<Rightarrow> None))"

definition parseIncidents :: "(string \<Rightarrow> int option) \<Rightarrow> (json \<Rightarrow> string) \<Rightarrow> json \<Rightarrow> incident list" where
  "parseIncidents parse str raw =
    (case json_list (json_field ''incidents'' raw) of
       None \<Rightarrow> []
     | Some xs \<Rightarrow> sort_key (\<lambda>i. - in_startedAt i) (List.map_filter (read_incident parse str) xs))"

text \<open>The file is missing, is no JSON, or is read.\<close>

definition loadIncidents :: "(string \<Rightarrow> int option) \<Rightarrow> (json \<Rightarrow> string) \<Rightarrow> json option \<Rightarrow> incident list" where
  "loadIncidents parse str file = (case file of None \<Rightarrow> [] | Some v \<Rightarrow> parseIncidents parse str v)"

section \<open>The status document\<close>

definition RANK :: "component_status \<Rightarrow> nat" where
  "RANK s = (case s of Operational \<Rightarrow> 0 | UnknownStatus \<Rightarrow> 1 | Degraded \<Rightarrow> 2 | Outage \<Rightarrow> 3)"

definition worst :: "component_status \<Rightarrow> component_status \<Rightarrow> component_status" where
  "worst a b = (if RANK b > RANK a then b else a)"

definition PENDING_DEGRADED_THRESHOLD :: nat where "PENDING_DEGRADED_THRESHOLD = 1"

definition RECENT_INCIDENT_WINDOW_MS :: int where "RECENT_INCIDENT_WINDOW_MS = 7 * 24 * 60 * 60 * 1000"

record status_signals =
  sg_rpcCircuit :: "circuit_state option"
  sg_pendingSubmissions :: "nat option"
  sg_incidents :: "incident list"
  sg_now :: int

record public_component =
  pc_id :: string
  pc_name :: string
  pc_status :: component_status
  pc_detail :: string

record public_status =
  pu_updatedAt :: int
  pu_overall :: component_status
  pu_components :: "public_component list"
  pu_active :: "incident list"
  pu_recent :: "incident list"

definition measured :: "status_signals \<Rightarrow> string \<Rightarrow> component_status \<times> string" where
  "measured s ident =
    (if ident = ''stellar_rpc'' then
       (case sg_rpcCircuit s of
          None \<Rightarrow> (UnknownStatus, ''No recent measurement.'')
        | Some OPEN \<Rightarrow> (Outage, ''Requests to the Stellar network are failing; retries are paused.'')
        | Some HALF_OPEN \<Rightarrow> (Degraded, ''Recovering from failed requests to the Stellar network.'')
        | Some CLOSED \<Rightarrow> (Operational, ''Requests to the Stellar network are succeeding.''))
     else if ident = ''oracle_submissions'' then
       (case sg_pendingSubmissions s of
          None \<Rightarrow> (UnknownStatus, ''Submission queue could not be read.'')
        | Some n \<Rightarrow> if PENDING_DEGRADED_THRESHOLD \<le> n
            then (Degraded, nat_text n @ '' result(s) waiting to be submitted. Funds stay in escrow until they settle.'')
            else (Operational, ''No results waiting.''))
     else (Operational, ''No known issues.''))"

fun apply_incidents :: "string \<Rightarrow> incident list \<Rightarrow> component_status \<times> string \<Rightarrow> component_status \<times> string" where
  "apply_incidents ident [] sd = sd"
| "apply_incidents ident (i # is) sd =
    (if ident \<notin> set (in_comps i) then apply_incidents ident is sd
     else apply_incidents ident is (worst (fst sd) (in_impact i), if in_title i = [] then snd sd else in_title i))"

definition buildStatus :: "status_signals \<Rightarrow> public_status" where
  "buildStatus s =
    (let active = filter (\<lambda>i. in_stage i \<noteq> Resolved) (sg_incidents s);
         recent = filter (\<lambda>i. in_stage i = Resolved \<and>
           sg_now s - (case in_resolvedAt i of Some t \<Rightarrow> t | None \<Rightarrow> in_startedAt i) \<le> RECENT_INCIDENT_WINDOW_MS) (sg_incidents s);
         comps = map (\<lambda>(ident, name). let (st, detail) = apply_incidents ident active (measured s ident)
                    in \<lparr>pc_id = ident, pc_name = name, pc_status = st, pc_detail = detail\<rparr>) COMPONENTS
     in \<lparr>pu_updatedAt = sg_now s, pu_overall = foldl worst Operational (map pc_status comps), pu_components = comps,
         pu_active = active, pu_recent = recent\<rparr>)"

text \<open>\<open>GET /status\<close>: a breaker or a queue that cannot be read is reported as unknown; the answer is always 200.\<close>

definition status_route :: "(string \<Rightarrow> int option) \<Rightarrow> (json \<Rightarrow> string) \<Rightarrow> circuit_state option \<Rightarrow> nat option \<Rightarrow> json option \<Rightarrow> int \<Rightarrow> nat \<times> public_status" where
  "status_route parse str circuit queued file now =
    (200, buildStatus \<lparr>sg_rpcCircuit = circuit, sg_pendingSubmissions = queued, sg_incidents = loadIncidents parse str file, sg_now = now\<rparr>)"

section \<open>The RPC behind the health check\<close>

text \<open>\<open>readPositiveInteger\<close> of \<open>stellar.ts\<close>: \<open>parseInt\<close>, so trailing text is ignored.\<close>

definition MAX_SAFE :: int where "MAX_SAFE = 2 ^ 53 - 1"

definition readPositiveInteger :: "string option \<Rightarrow> int \<Rightarrow> int" where
  "readPositiveInteger value fallback =
    (case js_parseInt (case value of None \<Rightarrow> [] | Some v \<Rightarrow> v) of
       Some i \<Rightarrow> if i \<le> MAX_SAFE \<and> 0 < i then i else fallback
     | None \<Rightarrow> fallback)"

record rpc_client_options =
  ro_poolSize :: int
  ro_keepAliveTimeoutMs :: int
  ro_timeoutMs :: int

definition getRpcClientOptions :: "env \<Rightarrow> rpc_client_options" where
  "getRpcClientOptions env =
    \<lparr>ro_poolSize = readPositiveInteger (env ''STELLAR_RPC_POOL_SIZE'') 10,
     ro_keepAliveTimeoutMs = readPositiveInteger (env ''STELLAR_RPC_KEEP_ALIVE_TIMEOUT_MS'') 5000,
     ro_timeoutMs = readPositiveInteger (env ''STELLAR_RPC_TIMEOUT_MS'') 10000\<rparr>"

definition HEALTH_CHECK_TIMEOUT_MS :: "env \<Rightarrow> int" where
  "HEALTH_CHECK_TIMEOUT_MS env = readPositiveInteger (env ''STELLAR_RPC_HEALTH_TIMEOUT_MS'') 3000"

text \<open>What a call of the RPC server comes to: axios's timeout, another failure, or a response with its status and the
  error and the ledger sequence of its data, if it has data.\<close>

datatype rpc_failure = RpcTimeoutError string int | RpcError string

record rpc_response =
  rr_status :: nat
  rr_data :: bool
  rr_error :: bool
  rr_sequence :: "int option"

datatype axios_outcome = AxiosAborted | AxiosFailed string | AxiosOk rpc_response

definition withRpcTimeoutTranslation :: "int \<Rightarrow> axios_outcome \<Rightarrow> rpc_failure + rpc_response" where
  "withRpcTimeoutTranslation timeoutMs r =
    (case r of
       AxiosAborted \<Rightarrow> Inl (RpcTimeoutError (''Stellar RPC request timed out after '' @ int_text timeoutMs @ ''ms'') timeoutMs)
     | AxiosFailed m \<Rightarrow> Inl (RpcError m)
     | AxiosOk resp \<Rightarrow> Inr resp)"

text \<open>\<open>rpc\<close> answers a method at a server.\<close>

definition checkStellarRpc :: "env \<Rightarrow> (string \<Rightarrow> string \<Rightarrow> axios_outcome) \<Rightarrow> rpc_failure option" where
  "checkStellarRpc env rpc =
    (case env ''STELLAR_RPC_URL'' of
       None \<Rightarrow> Some (RpcError ''STELLAR_RPC_URL not configured'')
     | Some url \<Rightarrow>
        (if url = [] then Some (RpcError ''STELLAR_RPC_URL not configured'')
         else (case withRpcTimeoutTranslation (HEALTH_CHECK_TIMEOUT_MS env) (rpc url ''get health'') of
                 Inl e \<Rightarrow> Some e
               | Inr resp \<Rightarrow> if rr_status resp \<noteq> 200 \<or> \<not> rr_data resp \<or> rr_error resp
                   then Some (RpcError ''Stellar RPC unavailable'') else None)))"

definition getCurrentLedger :: "env \<Rightarrow> (string \<Rightarrow> string \<Rightarrow> axios_outcome) \<Rightarrow> rpc_failure + int" where
  "getCurrentLedger env rpc =
    (case env ''STELLAR_RPC_URL'' of
       None \<Rightarrow> Inl (RpcError ''STELLAR_RPC_URL not configured'')
     | Some url \<Rightarrow>
        (if url = [] then Inl (RpcError ''STELLAR_RPC_URL not configured'')
         else (case withRpcTimeoutTranslation (ro_timeoutMs (getRpcClientOptions env)) (rpc url ''getLatestLedger'') of
                 Inl e \<Rightarrow> Inl e
               | Inr resp \<Rightarrow>
                  (case rr_sequence resp of
                     None \<Rightarrow> Inl (RpcError ''Failed to fetch current ledger from Stellar RPC'')
                   | Some n \<Rightarrow> if rr_status resp \<noteq> 200 \<or> \<not> rr_data resp \<or> rr_error resp
                       then Inl (RpcError ''Failed to fetch current ledger from Stellar RPC'') else Inr n))))"

definition failure_message :: "rpc_failure \<Rightarrow> string" where
  "failure_message f = (case f of RpcTimeoutError m _ \<Rightarrow> m | RpcError m \<Rightarrow> m)"

record health_payload =
  hp_status :: string
  hp_uptime :: int
  hp_version :: string
  hp_error :: "string option"
  hp_rpc :: "string option"
  hp_limiters :: bool
  hp_settlement :: bool

text \<open>The limiters and the settlement snapshot are attached as they are; here only whether they are.\<close>

definition runHealthCheck :: "rpc_failure option \<Rightarrow> bool \<Rightarrow> bool \<Rightarrow> bool \<Rightarrow> int \<Rightarrow> string \<Rightarrow> bool \<times> health_payload" where
  "runHealthCheck rpc deepCheck includeLimiters includeSettlement uptimeSeconds version =
    (case (if deepCheck then rpc else None) of
       Some f \<Rightarrow> (False, \<lparr>hp_status = ''error'', hp_uptime = uptimeSeconds, hp_version = version, hp_error = Some (failure_message f),
                   hp_rpc = Some ''unreachable'', hp_limiters = False, hp_settlement = False\<rparr>)
     | None \<Rightarrow> (True, \<lparr>hp_status = ''ok'', hp_uptime = uptimeSeconds, hp_version = version, hp_error = None,
                   hp_rpc = (if deepCheck then Some ''ok'' else None), hp_limiters = includeLimiters, hp_settlement = includeSettlement\<rparr>))"

definition health_route :: "env \<Rightarrow> (string \<Rightarrow> string \<Rightarrow> axios_outcome) \<Rightarrow> int \<Rightarrow> nat \<times> health_payload" where
  "health_route env rpc uptimeMs =
    (let version = (case env ''BACKEND_VERSION'' of Some v \<Rightarrow> v | None \<Rightarrow> (case env ''npm_package_version'' of Some v \<Rightarrow> v | None \<Rightarrow> ''unknown''));
         (ok, payload) = runHealthCheck (checkStellarRpc env rpc) (env ''DEEP_HEALTH'' = Some ''true'')
           (env ''HEALTH_INCLUDE_LIMITERS'' = Some ''true'') (env ''HEALTH_INCLUDE_SETTLEMENT'' = Some ''true'') (uptimeMs div 1000) version
     in (if ok then 200 else 503, payload))"

section \<open>No key is published\<close>

text \<open>The runs of word characters of a text.\<close>

function words_of :: "string \<Rightarrow> string list" where
  "words_of [] = []"
| "words_of (c # s) = (if is_word c then takeWhile is_word (c # s) # words_of (dropWhile is_word s) else words_of s)"
  by pat_completeness auto
termination by (relation "measure length") (auto simp: le_imp_less_Suc length_dropWhile_le)

definition ends_word :: "string \<Rightarrow> bool" where "ends_word u \<longleftrightarrow> u = [] \<or> \<not> is_word (last u)"
definition starts_word :: "string \<Rightarrow> bool" where "starts_word v \<longleftrightarrow> v = [] \<or> \<not> is_word (hd v)"

lemma words_of_run:
  assumes "w \<noteq> []" "list_all is_word w" "starts_word r"
  shows "words_of (w @ r) = w # words_of r"
proof -
  obtain c s where w: "w = c # s" using assms(1) by (cases w) auto
  have all: "\<And>x. x \<in> set s \<Longrightarrow> is_word x" "is_word c" using assms(2) by (auto simp: w list_all_iff)
  have "takeWhile is_word r = []" "dropWhile is_word r = r" using assms(3) by (cases r; simp add: starts_word_def)+
  then have "takeWhile is_word (s @ r) = s" "dropWhile is_word (s @ r) = r" using all(1) by (simp_all add: takeWhile_append2 dropWhile_append2)
  then show ?thesis using all(2) by (simp add: w)
qed

lemma starts_word_drop: "starts_word (dropWhile is_word s)"
  using hd_dropWhile[of is_word s] by (auto simp: starts_word_def)

lemma words_of_append: "ends_word u \<Longrightarrow> words_of (u @ x) = words_of u @ words_of x"
proof (induction u rule: words_of.induct)
  case (2 c s)
  show ?case
  proof (cases "is_word c")
    case True
    have l: "\<not> is_word (last (c # s))" using 2(3) by (simp add: ends_word_def)
    then have s: "s \<noteq> []" using True by auto
    then have "\<exists>y \<in> set s. \<not> is_word y" using l by (metis last_ConsR last_in_set)
    then obtain y where y: "y \<in> set s" "\<not> is_word y" by blast
    have d: "dropWhile is_word (s @ x) = dropWhile is_word s @ x" "takeWhile is_word (s @ x) = takeWhile is_word s"
      using y by (simp_all add: dropWhile_append1 takeWhile_append1)
    have "dropWhile is_word s \<noteq> []" using y by (metis dropWhile_eq_Nil_conv)
    then have "last (dropWhile is_word s) = last s" by (metis last_appendR takeWhile_dropWhile_id)
    then have "ends_word (dropWhile is_word s)" using l s by (simp add: ends_word_def)
    then show ?thesis using 2(1)[OF True] True d by simp
  next
    case False
    have "ends_word s" using 2(3) by (auto simp: ends_word_def split: if_splits)
    then show ?thesis using 2(2)[OF False] False by simp
  qed
qed simp

lemma strkey_word: "strkey k \<Longrightarrow> k \<noteq> [] \<and> list_all is_word k"
proof -
  assume k: "strkey k"
  then obtain c s where c: "k = c # s" by (cases k) (auto simp: strkey_def)
  have "is_word x" if "base32_char x" for x using that by (auto simp: base32_char_def is_word_def is_upper_def is_digit_char_def char_in_def)
  moreover have "list_all is_word ''GSCMT''" by code_simp
  ultimately show ?thesis using k c by (auto simp: strkey_def list_all_iff)
qed

lemma key_is_word: "strkey k \<Longrightarrow> ends_word u \<Longrightarrow> starts_word v \<Longrightarrow> k \<in> set (words_of (u @ k @ v))"
  using words_of_append[of u "k @ v"] words_of_run[of k v] strkey_word by simp

lemma redact_starts: "starts_word s \<Longrightarrow> starts_word (redact s)"
  by (cases s) (simp_all add: starts_word_def)

lemma words_of_redacted: "words_of (''[redacted]'' @ x) = ''redacted'' # words_of x"
proof -
  have e: "ends_word ''[redacted]''" and w: "words_of ''[redacted]'' = [''redacted'']" by code_simp+
  have "words_of (''[redacted]'' @ x) = [''redacted''] @ words_of x" unfolding words_of_append[OF e] w ..
  then show ?thesis by (simp only: append_Cons append_Nil)
qed

lemma redact_no_key: "\<forall>w \<in> set (words_of (redact s)). \<not> strkey w"
proof (induction s rule: redact.induct)
  case (2 c s)
  show ?case
  proof (cases "is_word c")
    case True
    let ?w = "takeWhile is_word (c # s)" and ?r = "redact (dropWhile is_word s)"
    have IH: "\<forall>w \<in> set (words_of ?r). \<not> strkey w" using 2(1)[OF True] .
    show ?thesis
    proof (cases "strkey ?w")
      case True
      have e: "redact (c # s) = ''[redacted]'' @ ?r" using True \<open>is_word c\<close> by (simp only: redact.simps if_True)
      have n: "\<not> strkey ''redacted''" by (simp add: strkey_def)
      show ?thesis unfolding e words_of_redacted using IH n by (simp only: list.set ball_simps simp_thms)
    next
      case False
      have "list_all is_word ?w" by (auto simp: list_all_iff dest: set_takeWhileD)
      then have "words_of (?w @ ?r) = ?w # words_of ?r"
        using True by (intro words_of_run redact_starts starts_word_drop) simp_all
      moreover have "redact (c # s) = ?w @ ?r" using True False by simp
      ultimately show ?thesis using IH False by simp
    qed
  next
    case False
    then show ?thesis using 2(2)[OF False] by simp
  qed
qed simp

lemma trim_parts: "\<exists>pre post. s = pre @ js_trim s @ post \<and> (\<forall>c \<in> set pre. js_ws c) \<and> (\<forall>c \<in> set post. js_ws c)"
proof -
  define u where "u = dropWhile js_ws s"
  have "s = takeWhile js_ws s @ u" by (simp add: u_def)
  moreover have "rev u = takeWhile js_ws (rev u) @ dropWhile js_ws (rev u)" by simp
  then have "u = rev (dropWhile js_ws (rev u)) @ rev (takeWhile js_ws (rev u))" by (metis rev_append rev_rev_ident)
  ultimately have "s = takeWhile js_ws s @ js_trim s @ rev (takeWhile js_ws (rev u))"
    by (metis js_trim_def u_def)
  moreover have "\<forall>c \<in> set (takeWhile js_ws s). js_ws c" "\<forall>c \<in> set (rev (takeWhile js_ws (rev u))). js_ws c"
    by (auto dest: set_takeWhileD)
  ultimately show ?thesis by blast
qed

lemma ws_no_word: "js_ws c \<Longrightarrow> \<not> is_word c"
  by (auto simp: js_ws_def is_word_def is_lower_def is_upper_def is_digit_char_def char_in_def Let_def)

lemma trimmed_no_key:
  assumes "js_trim (redact x) = u @ k @ v" "ends_word u" "starts_word v"
  shows "\<not> strkey k"
proof
  assume k: "strkey k"
  obtain pre post where p: "redact x = pre @ js_trim (redact x) @ post" "\<forall>c \<in> set pre. js_ws c" "\<forall>c \<in> set post. js_ws c"
    using trim_parts by blast
  have "ends_word (pre @ u)" using assms(2) p(2) ws_no_word by (cases "u = []"; cases "pre = []") (auto simp: ends_word_def)
  moreover have "starts_word (v @ post)" using assms(3) p(3) ws_no_word by (cases v; cases post) (auto simp: starts_word_def)
  ultimately have "k \<in> set (words_of ((pre @ u) @ k @ (v @ post)))" using k by (intro key_is_word)
  moreover have "redact x = (pre @ u) @ k @ (v @ post)" using p(1) assms(1) by simp
  ultimately show False using redact_no_key[of x] k by metis
qed

lemma publicText_no_key:
  assumes "length (publicText x) < MAX_TEXT" "publicText x = u @ k @ v" "ends_word u" "starts_word v"
  shows "\<not> strkey k"
proof -
  have "publicText x = js_trim (redact x)" using assms(1) by (auto simp: publicText_def min_def split: if_splits)
  then show ?thesis using trimmed_no_key assms(2-4) by metis
qed

lemma parsed_texts:
  assumes "i \<in> set (parseIncidents parse str raw)"
  shows "in_title i \<in> range publicText" "\<forall>u \<in> set (in_updates i). snd u \<in> range publicText" "in_comps i \<noteq> []"
proof -
  have mf: "List.map_filter f xs = map (\<lambda>x. the (f x)) (filter (\<lambda>x. f x \<noteq> None) xs)" for f :: "json \<Rightarrow> 'b option" and xs
    by (simp add: List.map_filter_def)
  obtain xs x where x: "read_incident parse str x = Some i"
    using assms by (auto simp: parseIncidents_def mf split: option.splits)
  then show "in_title i \<in> range publicText" "in_comps i \<noteq> []"
    by (auto simp: read_incident_def Let_def split: if_splits option.splits)
  have "\<forall>u \<in> set (case json_list (json_field ''updates'' x) of None \<Rightarrow> [] | Some us \<Rightarrow> List.map_filter (read_update parse str) us). snd u \<in> range publicText"
    by (auto simp: List.map_filter_def read_update_def split: option.splits)
  then show "\<forall>u \<in> set (in_updates i). snd u \<in> range publicText"
    using x by (auto simp: read_incident_def Let_def split: if_splits option.splits)
qed


definition key_ex :: string where "key_ex = CHR ''G'' # replicate 55 CHR ''A''"

definition title_ex :: string where "title_ex = ''Account '' @ key_ex"

definition incident_file :: json where
  "incident_file = JsonObj [(''incidents'', JsonArr [JsonObj [(''id'', JsonStr ''i1''), (''startedAt'', JsonStr ''d''),
     (''stage'', JsonStr ''monitoring''), (''components'', JsonArr [JsonStr ''lichess'']), (''title'', JsonStr title_ex)]])]"

lemma redact_ex: "publicText title_ex = ''Account [redacted]''"
  by code_simp

lemma incident_ex:
  "parseIncidents (\<lambda>_. Some 0) (\<lambda>_. []) incident_file = [\<lparr>in_id = ''i1'', in_title = ''Account [redacted]'', in_stage = Monitoring,
     in_impact = Degraded, in_comps = [''lichess''], in_startedAt = 0, in_resolvedAt = None, in_updates = []\<rparr>]"
proof -
  have i: "publicText ''i1'' = ''i1''" "in_components ''lichess''" by code_simp+
  show ?thesis
    by (simp add: incident_file_def parseIncidents_def read_incident_def List.map_filter_simps isoOrNull_def read_stage_def read_components_def
        json_object_def json_text_def redact_ex i Let_def)
qed


text \<open>A key next to another word character is published as it is, and the cut at the length limit can end a longer
  run of letters where it has the form of a key.\<close>

lemma glued_key_published: "publicText (''_'' @ key_ex) = ''_'' @ key_ex"
  by code_simp

section \<open>The worst signal decides\<close>

lemma RANK_worst: "RANK (worst a b) = max (RANK a) (RANK b)"
  by (simp add: worst_def max_def)

lemma RANK_foldl: "RANK (foldl worst a xs) = foldl max (RANK a) (map RANK xs)"
  by (induction xs arbitrary: a) (simp_all add: RANK_worst)

lemma apply_incidents_rank:
  "RANK (fst (apply_incidents ident is sd)) = foldl max (RANK (fst sd)) (map (\<lambda>i. RANK (in_impact i)) (filter (\<lambda>i. ident \<in> set (in_comps i)) is))"
  by (induction "is" arbitrary: sd) (simp_all add: RANK_worst)

lemma foldl_max_Max: "foldl max (a :: nat) xs = Max (insert a (set xs))"
proof (induction xs arbitrary: a)
  case (Cons x xs)
  have "Max (insert (max a x) (set xs)) = Max (insert a (insert x (set xs)))"
    by (cases "set xs = {}") (simp_all add: max.assoc)
  then show ?case using Cons by simp
qed simp

text \<open>The status is never better than its signals: the rank of every component is the greatest of its measurement
  and of the impacts of the open incidents that name it, and the overall rank is the greatest of the components.\<close>
lemma status_is_worst_signal:
  "map (\<lambda>c. RANK (pc_status c)) (pu_components (buildStatus s)) =
     map (\<lambda>(ident, name). Max (insert (RANK (fst (measured s ident)))
        ((\<lambda>i. RANK (in_impact i)) ` {i \<in> set (sg_incidents s). in_stage i \<noteq> Resolved \<and> ident \<in> set (in_comps i)}))) COMPONENTS \<and>
   RANK (pu_overall (buildStatus s)) = Max (insert 0 ((\<lambda>c. RANK (pc_status c)) ` set (pu_components (buildStatus s))))"
proof -
  let ?act = "filter (\<lambda>i. in_stage i \<noteq> Resolved) (sg_incidents s)"
  have set_act: "set (filter (\<lambda>i. ident \<in> set (in_comps i)) ?act) = {i \<in> set (sg_incidents s). in_stage i \<noteq> Resolved \<and> ident \<in> set (in_comps i)}" for ident
    by auto
  have one: "RANK (fst (apply_incidents ident ?act (measured s ident))) = Max (insert (RANK (fst (measured s ident)))
        ((\<lambda>i. RANK (in_impact i)) ` {i \<in> set (sg_incidents s). in_stage i \<noteq> Resolved \<and> ident \<in> set (in_comps i)}))" for ident
    using foldl_max_Max[of "RANK (fst (measured s ident))" "map (\<lambda>i. RANK (in_impact i)) (filter (\<lambda>i. ident \<in> set (in_comps i)) ?act)"]
    by (simp only: apply_incidents_rank set_map set_act)
  have comps: "pu_components (buildStatus s) = map (\<lambda>(ident, name). let (st, detail) = apply_incidents ident ?act (measured s ident)
                    in \<lparr>pc_id = ident, pc_name = name, pc_status = st, pc_detail = detail\<rparr>) COMPONENTS"
    by (simp add: buildStatus_def Let_def)
  have "map (\<lambda>c. RANK (pc_status c)) (pu_components (buildStatus s)) =
     map (\<lambda>(ident, name). RANK (fst (apply_incidents ident ?act (measured s ident)))) COMPONENTS"
    unfolding comps by (simp add: case_prod_unfold Let_def)
  moreover have "RANK (pu_overall (buildStatus s)) = foldl max 0 (map RANK (map pc_status (pu_components (buildStatus s))))"
    using RANK_foldl[of Operational] by (simp add: buildStatus_def Let_def RANK_def)
  then have "RANK (pu_overall (buildStatus s)) = Max (insert 0 ((\<lambda>c. RANK (pc_status c)) ` set (pu_components (buildStatus s))))"
    by (simp add: foldl_max_Max image_image)
  ultimately show ?thesis by (simp add: one)
qed

section \<open>The health check\<close>

text \<open>With the deep health check on, the service never reports itself healthy: the check asks the RPC server for a
  method of a name with a space, and a server that answers an unknown method with an error, as JSON-RPC prescribes,
  makes every answer a 503 with the RPC server unreachable, however healthy it is.\<close>
lemma deep_health_always_unreachable:
  assumes "env ''DEEP_HEALTH'' = Some ''true''"
    "\<And>url method resp. method \<notin> known_methods \<Longrightarrow> rpc url method = AxiosOk resp \<Longrightarrow> rr_error resp" "''get health'' \<notin> known_methods"
  shows "fst (health_route env rpc uptime) = 503 \<and> hp_rpc (snd (health_route env rpc uptime)) = Some ''unreachable''"
proof -
  have "checkStellarRpc env rpc \<noteq> None"
    using assms(2)[OF assms(3)] by (auto simp: checkStellarRpc_def withRpcTimeoutTranslation_def split: option.split axios_outcome.split)
  then show ?thesis using assms(1) by (auto simp: health_route_def runHealthCheck_def Let_def split: option.split)
qed

definition rpc_ex :: "string \<Rightarrow> string \<Rightarrow> axios_outcome" where
  "rpc_ex url method =
    (if method = ''getHealth'' then AxiosOk \<lparr>rr_status = 200, rr_data = True, rr_error = False, rr_sequence = None\<rparr>
     else AxiosOk \<lparr>rr_status = 200, rr_data = True, rr_error = True, rr_sequence = None\<rparr>)"

lemma deep_health_always_unreachable_example:
  "fst (health_route [''DEEP_HEALTH'' \<mapsto> ''true'', ''STELLAR_RPC_URL'' \<mapsto> ''http://rpc''] rpc_ex 0) = 503"
proof -
  have "\<And>url method resp. method \<notin> {''getHealth''} \<Longrightarrow> rpc_ex url method = AxiosOk resp \<Longrightarrow> rr_error resp"
    by (auto simp: rpc_ex_def split: if_splits)
  then show ?thesis
    using deep_health_always_unreachable[of "[''DEEP_HEALTH'' \<mapsto> ''true'', ''STELLAR_RPC_URL'' \<mapsto> ''http://rpc'']" "{''getHealth''}" rpc_ex 0] by simp
qed

lemma current_ledger_sound:
  "getCurrentLedger env rpc = Inr n \<Longrightarrow> \<exists>url resp. env ''STELLAR_RPC_URL'' = Some url \<and> rpc url ''getLatestLedger'' = AxiosOk resp \<and>
    rr_status resp = 200 \<and> \<not> rr_error resp \<and> rr_sequence resp = Some n"
  by (auto simp: getCurrentLedger_def withRpcTimeoutTranslation_def split: option.splits if_splits sum.splits axios_outcome.splits)

lemma rpc_options_positive:
  "0 < ro_poolSize (getRpcClientOptions env) \<and> 0 < ro_keepAliveTimeoutMs (getRpcClientOptions env) \<and> 0 < ro_timeoutMs (getRpcClientOptions env)"
  by (auto simp: getRpcClientOptions_def readPositiveInteger_def split: option.split)

end
