(* ===== verification/Leaderboard.thy ===== *)
theory Leaderboard
  imports MatchViews
begin

text \<open>
  The leaderboard page (\<open>pages/Leaderboard.tsx\<close>): the rows a simulated \<open>get_leaderboard\<close> call returns,
  the keyed results the page keeps, and its paging. A run interleaves the buttons, changes of the configuration
  and the answers of all requests still under way, in any order.
\<close>

section \<open>Decoding\<close>

definition PAGE_SIZE :: nat where "PAGE_SIZE = 25"

record leaderboard_stats =
  lb_wins :: js_num
  lb_losses :: js_num
  lb_draws :: js_num
  lb_earnings :: string
  lb_token :: string

record leaderboard_entry =
  le_player :: string
  le_stats :: leaderboard_stats

text \<open>An element of the native listing: its \<open>player\<close> and, when it has any, its \<open>stats\<close>.\<close>

record native_entry =
  ne_player :: scnative
  ne_stats :: "screcord option"

definition sc_truthy :: "scnative \<Rightarrow> bool" where
  "sc_truthy v = (case v of ScUndef \<Rightarrow> False | ScBool b \<Rightarrow> b | ScInt i \<Rightarrow> i \<noteq> 0 | ScStr s \<Rightarrow> s \<noteq> [] | _ \<Rightarrow> True)"

text \<open>\<open>Number(value ?? 0)\<close> and \<open>String(value ?? d)\<close>.\<close>

definition count_of :: "scnative \<Rightarrow> js_num" where
  "count_of v = (case v of ScUndef \<Rightarrow> Fin 0 | ScInt i \<Rightarrow> Fin (of_int i) | ScBool b \<Rightarrow> Fin (if b then 1 else 0) | _ \<Rightarrow> js_Number (sc_text v))"

definition text_or :: "string \<Rightarrow> scnative \<Rightarrow> string" where
  "text_or d v = (if v = ScUndef then d else sc_text v)"

definition decode_entry :: "native_entry \<Rightarrow> string + leaderboard_entry" where
  "decode_entry e =
    (if \<not> sc_truthy (ne_player e) then Inl ''Unexpected leaderboard entry shape''
     else (case ne_stats e of
        None \<Rightarrow> Inl ''Unexpected leaderboard entry shape''
      | Some stats \<Rightarrow>
          Inr \<lparr>le_player = sc_text (ne_player e),
            le_stats = \<lparr>lb_wins = count_of (stats ''wins''), lb_losses = count_of (stats ''losses''), lb_draws = count_of (stats ''draws''),
              lb_earnings = text_or ''0'' (stats ''earnings''), lb_token = text_or [] (stats ''token'')\<rparr>\<rparr>))"

fun decode_all :: "native_entry list \<Rightarrow> string + leaderboard_entry list" where
  "decode_all [] = Inr []"
| "decode_all (e # es) =
    (case decode_entry e of
       Inl m \<Rightarrow> Inl m
     | Inr x \<Rightarrow> (case decode_all es of Inl m \<Rightarrow> Inl m | Inr xs \<Rightarrow> Inr (x # xs)))"

text \<open>\<open>None\<close> is a return value that is no array.\<close>

definition decodeEntries :: "native_entry list option \<Rightarrow> string + leaderboard_entry list" where
  "decodeEntries raw =
    (case raw of
       None \<Rightarrow> Inl ''Unexpected response from LeaderboardContract.get_leaderboard''
     | Some es \<Rightarrow> decode_all es)"

text \<open>What a simulation gives: an error, no result, or a return value.\<close>

datatype lb_simulation = SimError string | SimNoResult | SimValue "native_entry list option"

definition fetchLeaderboardPage :: "lb_simulation \<Rightarrow> string + leaderboard_entry list" where
  "fetchLeaderboardPage sim =
    (case sim of
       SimError e \<Rightarrow> Inl (''Could not load the leaderboard: '' @ e)
     | SimNoResult \<Rightarrow> Inl ''Could not load the leaderboard: the RPC server returned no result''
     | SimValue v \<Rightarrow> decodeEntries v)"

section \<open>The page\<close>

record lb_props =
  lp_contractId :: string
  lp_rpcUrl :: string
  lp_passphrase :: string

definition lb_offset :: "nat \<Rightarrow> nat" where "lb_offset page = page * PAGE_SIZE"

definition requestKey :: "lb_props \<Rightarrow> nat \<Rightarrow> string" where
  "requestKey p page = lp_contractId p @ ''|'' @ lp_rpcUrl p @ ''|'' @ lp_passphrase p @ ''|'' @ nat_text (lb_offset page)"

record lb_state =
  ls_page :: nat
  ls_loaded :: "(string \<times> leaderboard_entry list) option"
  ls_failed :: "(string \<times> string) option"

datatype load_status = LoadIdle | LoadLoading | LoadReady | LoadError

definition lb_status :: "lb_props \<Rightarrow> lb_state \<Rightarrow> load_status" where
  "lb_status p s =
    (let key = requestKey p (ls_page s) in
     if lp_contractId p = [] then LoadIdle
     else if map_option fst (ls_failed s) = Some key then LoadError
     else if map_option fst (ls_loaded s) = Some key then LoadReady
     else LoadLoading)"

definition lb_entries :: "lb_props \<Rightarrow> lb_state \<Rightarrow> leaderboard_entry list" where
  "lb_entries p s = (case ls_loaded s of Some (k, rows) \<Rightarrow> if k = requestKey p (ls_page s) then rows else [] | None \<Rightarrow> [])"

definition isLastPage :: "lb_props \<Rightarrow> lb_state \<Rightarrow> bool" where
  "isLastPage p s \<longleftrightarrow> length (lb_entries p s) < PAGE_SIZE"

text \<open>The number shown in front of a row, and the buttons, which are only there below a table.\<close>

definition row_rank :: "lb_state \<Rightarrow> nat \<Rightarrow> nat" where
  "row_rank s index = ls_page s * PAGE_SIZE + index + 1"

definition next_enabled :: "lb_props \<Rightarrow> lb_state \<Rightarrow> bool" where
  "next_enabled p s \<longleftrightarrow> lb_entries p s \<noteq> [] \<and> \<not> isLastPage p s"

definition prev_enabled :: "lb_props \<Rightarrow> lb_state \<Rightarrow> bool" where
  "prev_enabled p s \<longleftrightarrow> lb_entries p s \<noteq> [] \<and> ls_page s \<noteq> 0"

text \<open>A request under way, with what it asks for and the \<open>active\<close> flag its cleanup clears.\<close>

record lb_load =
  ld_props :: lb_props
  ld_page :: nat
  ld_active :: bool

record lb_world =
  lw_props :: lb_props
  lw_state :: lb_state
  lw_loads :: "lb_load list"
  lw_answers :: "(lb_props \<times> nat \<times> leaderboard_entry list) list"

text \<open>The effect runs when the request key changes: the cleanup of the previous run, then the new request.\<close>

definition lb_effect :: "lb_world \<Rightarrow> lb_world" where
  "lb_effect w =
    (let old = map (\<lambda>l. l\<lparr>ld_active := False\<rparr>) (lw_loads w) in
     w\<lparr>lw_loads := (if lp_contractId (lw_props w) = [] then old
        else old @ [\<lparr>ld_props = lw_props w, ld_page = ls_page (lw_state w), ld_active = True\<rparr>])\<rparr>)"

definition lb_start :: "lb_props \<Rightarrow> lb_world" where
  "lb_start p = lb_effect \<lparr>lw_props = p, lw_state = \<lparr>ls_page = 0, ls_loaded = None, ls_failed = None\<rparr>, lw_loads = [], lw_answers = []\<rparr>"

datatype lb_event = LbNext | LbPrev | LbProps lb_props | LbAnswer nat "string + leaderboard_entry list"

text \<open>The answer is stored under the key of the request that asked for it; an inactive one is dropped.\<close>

definition lb_answer :: "lb_load \<Rightarrow> string + leaderboard_entry list \<Rightarrow> lb_state \<Rightarrow> lb_state" where
  "lb_answer l r s =
    (if \<not> ld_active l then s
     else (case r of
        Inr rows \<Rightarrow> s\<lparr>ls_loaded := Some (requestKey (ld_props l) (ld_page l), rows)\<rparr>
      | Inl m \<Rightarrow> s\<lparr>ls_failed := Some (requestKey (ld_props l) (ld_page l), m)\<rparr>))"

definition lb_step :: "lb_event \<Rightarrow> lb_world \<Rightarrow> lb_world" where
  "lb_step e w =
    (case e of
       LbNext \<Rightarrow> if next_enabled (lw_props w) (lw_state w) then lb_effect (w\<lparr>lw_state := (lw_state w)\<lparr>ls_page := ls_page (lw_state w) + 1\<rparr>\<rparr>) else w
     | LbPrev \<Rightarrow> if prev_enabled (lw_props w) (lw_state w) then lb_effect (w\<lparr>lw_state := (lw_state w)\<lparr>ls_page := ls_page (lw_state w) - 1\<rparr>\<rparr>) else w
     | LbProps p \<Rightarrow> if p = lw_props w then w else lb_effect (w\<lparr>lw_props := p\<rparr>)
     | LbAnswer i r \<Rightarrow>
         if i < length (lw_loads w)
         then w\<lparr>lw_state := lb_answer (lw_loads w ! i) r (lw_state w),
           lw_loads := take i (lw_loads w) @ drop (Suc i) (lw_loads w),
           lw_answers := (case r of Inr rows \<Rightarrow> [(ld_props (lw_loads w ! i), ld_page (lw_loads w ! i), rows)] | Inl _ \<Rightarrow> []) @ lw_answers w\<rparr>
         else w)"

section \<open>Keys of requests\<close>

definition props_ok :: "lb_props \<Rightarrow> bool" where
  "props_ok p \<longleftrightarrow> CHR ''|'' \<notin> set (lp_contractId p) \<and> CHR ''|'' \<notin> set (lp_rpcUrl p)"

lemma cut_first:
  assumes "u @ x # v = u' @ x # v'" "x \<notin> set u" "x \<notin> set u'"
  shows "u = u' \<and> v = v'"
  using assms by (induction u arbitrary: u') (auto simp: Cons_eq_append_conv append_eq_Cons_conv)

lemma cut_last:
  assumes "u @ x # v = u' @ x # v'" "x \<notin> set v" "x \<notin> set v'"
  shows "u = u' \<and> v = v'"
  using cut_first[of "rev v" x "rev u" "rev v'" "rev u'"] assms by (metis append.assoc append_Cons append_Nil rev.simps(2) rev_append rev_rev_ident set_rev)

lemma nat_text_no_bar: "CHR ''|'' \<notin> set (nat_text n)"
proof -
  have "list_all dec_digit (nat_text n)" by (rule nat_text_digits)
  moreover have "\<not> dec_digit (CHR ''|'')" by code_simp
  ultimately show ?thesis by (auto simp: list_all_iff)
qed

lemma nat_text_inj: "nat_text m = nat_text n \<Longrightarrow> m = n"
  using nat_text_value by metis

lemma requestKey_inj:
  assumes "requestKey p m = requestKey q n" "props_ok p" "props_ok q"
  shows "p = q \<and> m = n"
proof -
  have a: "lp_contractId p @ CHR ''|'' # (lp_rpcUrl p @ CHR ''|'' # (lp_passphrase p @ CHR ''|'' # nat_text (lb_offset m))) =
      lp_contractId q @ CHR ''|'' # (lp_rpcUrl q @ CHR ''|'' # (lp_passphrase q @ CHR ''|'' # nat_text (lb_offset n)))"
    using assms(1) by (simp add: requestKey_def)
  have b: "lp_contractId p = lp_contractId q"
    "lp_rpcUrl p @ CHR ''|'' # (lp_passphrase p @ CHR ''|'' # nat_text (lb_offset m)) = lp_rpcUrl q @ CHR ''|'' # (lp_passphrase q @ CHR ''|'' # nat_text (lb_offset n))"
    using cut_first[OF a] assms(2,3) by (simp_all add: props_ok_def)
  have c: "lp_rpcUrl p = lp_rpcUrl q" "lp_passphrase p @ CHR ''|'' # nat_text (lb_offset m) = lp_passphrase q @ CHR ''|'' # nat_text (lb_offset n)"
    using cut_first[OF b(2)] assms(2,3) by (simp_all add: props_ok_def)
  have "lp_passphrase p = lp_passphrase q" "lb_offset m = lb_offset n"
    using cut_last[OF c(2) nat_text_no_bar nat_text_no_bar] nat_text_inj by auto
  then show ?thesis using b(1) c(1) by (simp add: lb_offset_def PAGE_SIZE_def)
qed

section \<open>The rows belong to the page shown\<close>

definition lb_inv :: "lb_world \<Rightarrow> bool" where
  "lb_inv w \<longleftrightarrow> props_ok (lw_props w) \<and>
    (\<forall>l \<in> set (lw_loads w). props_ok (ld_props l) \<and> (ld_active l \<longrightarrow> ld_props l = lw_props w \<and> ld_page l = ls_page (lw_state w))) \<and>
    (\<forall>(p, n, rows) \<in> set (lw_answers w). props_ok p) \<and>
    (\<forall>k rows. ls_loaded (lw_state w) = Some (k, rows) \<longrightarrow> (\<exists>p n. k = requestKey p n \<and> (p, n, rows) \<in> set (lw_answers w)))"

lemma lb_inv_effect:
  assumes "props_ok (lw_props w)" "\<forall>l \<in> set (lw_loads w). props_ok (ld_props l)" "\<forall>(p, n, rows) \<in> set (lw_answers w). props_ok p"
    "\<forall>k rows. ls_loaded (lw_state w) = Some (k, rows) \<longrightarrow> (\<exists>p n. k = requestKey p n \<and> (p, n, rows) \<in> set (lw_answers w))"
  shows "lb_inv (lb_effect w)"
  using assms by (auto simp: lb_inv_def lb_effect_def Let_def)

lemma lb_inv_start: "props_ok p \<Longrightarrow> lb_inv (lb_start p)"
  unfolding lb_start_def by (rule lb_inv_effect) auto

lemma lb_inv_step:
  assumes "lb_inv w" "\<And>p. e = LbProps p \<Longrightarrow> props_ok p"
  shows "lb_inv (lb_step e w)"
proof (cases e)
  case LbNext
  then show ?thesis using assms(1) by (auto simp: lb_step_def lb_inv_def[of w] intro!: lb_inv_effect)
next
  case LbPrev
  then show ?thesis using assms(1) by (auto simp: lb_step_def lb_inv_def[of w] intro!: lb_inv_effect)
next
  case (LbProps p)
  then show ?thesis using assms by (auto simp: lb_step_def lb_inv_def[of w] intro!: lb_inv_effect)
next
  case (LbAnswer i r)
  have sub: "set (take i (lw_loads w) @ drop (Suc i) (lw_loads w)) \<subseteq> set (lw_loads w)"
    using set_take_subset[of i "lw_loads w"] set_drop_subset[of "Suc i" "lw_loads w"] by auto
  show ?thesis
  proof (cases "i < length (lw_loads w)")
    case True
    let ?l = "lw_loads w ! i"
    have l: "props_ok (ld_props ?l)" using assms(1) True by (auto simp: lb_inv_def)
    have page: "ls_page (lb_answer ?l r (lw_state w)) = ls_page (lw_state w)"
      by (auto simp: lb_answer_def split: sum.split)
    have loads: "\<forall>l \<in> set (take i (lw_loads w) @ drop (Suc i) (lw_loads w)). props_ok (ld_props l) \<and> (ld_active l \<longrightarrow> ld_props l = lw_props w \<and> ld_page l = ls_page (lw_state w))"
      using assms(1) sub by (auto simp: lb_inv_def)
    have loaded: "\<exists>p n. k = requestKey p n \<and> (p, n, rows) \<in> set ((case r of Inr rows \<Rightarrow> [(ld_props ?l, ld_page ?l, rows)] | Inl _ \<Rightarrow> []) @ lw_answers w)"
      if "ls_loaded (lb_answer ?l r (lw_state w)) = Some (k, rows)" for k rows
      using that assms(1) by (cases r) (auto simp: lb_answer_def lb_inv_def split: if_splits; blast)+
    show ?thesis
      using LbAnswer True assms(1) l page loads loaded
      by (auto simp: lb_step_def lb_inv_def split: sum.splits)
  qed (use LbAnswer assms(1) in \<open>simp add: lb_step_def\<close>)
qed

lemma lb_inv_run: "lb_inv w \<Longrightarrow> \<forall>e \<in> set es. \<forall>p. e = LbProps p \<longrightarrow> props_ok p \<Longrightarrow> lb_inv (fold lb_step es w)"
  by (induction es arbitrary: w) (simp_all add: lb_inv_step)

text \<open>C32. A late answer never shows under another page: whatever the order of clicks, configuration changes and
  answers, the rows on the page are what a request for exactly the contract, the server, the network and the page
  shown was answered, and a request still allowed to store its answer is for that page.\<close>
theorem leaderboard_rows_of_page:
  assumes "props_ok p" "\<forall>e \<in> set es. \<forall>q. e = LbProps q \<longrightarrow> props_ok q" "w = fold lb_step es (lb_start p)"
    "lb_entries (lw_props w) (lw_state w) \<noteq> []"
  shows "(lw_props w, ls_page (lw_state w), lb_entries (lw_props w) (lw_state w)) \<in> set (lw_answers w) \<and>
    (\<forall>l \<in> set (lw_loads w). ld_active l \<longrightarrow> ld_props l = lw_props w \<and> ld_page l = ls_page (lw_state w))"
proof -
  have inv: "lb_inv w" using assms(1-3) lb_inv_run lb_inv_start by simp
  obtain k rows where k: "ls_loaded (lw_state w) = Some (k, rows)" "k = requestKey (lw_props w) (ls_page (lw_state w))"
    "lb_entries (lw_props w) (lw_state w) = rows"
    using assms(4) by (auto simp: lb_entries_def split: option.splits if_splits)
  obtain q n where q: "k = requestKey q n" "(q, n, rows) \<in> set (lw_answers w)" using inv k(1) by (auto simp: lb_inv_def)
  have "q = lw_props w \<and> n = ls_page (lw_state w)"
    by (rule requestKey_inj) (use q k(2) inv in \<open>auto simp: lb_inv_def\<close>)
  then show ?thesis using q k(3) inv by (auto simp: lb_inv_def)
qed

definition props_ex :: lb_props where "props_ex = \<lparr>lp_contractId = ''C'', lp_rpcUrl = ''u'', lp_passphrase = ''p''\<rparr>"

definition row_ex :: leaderboard_entry where
  "row_ex = \<lparr>le_player = ''G'', le_stats = \<lparr>lb_wins = Fin 1, lb_losses = Fin 0, lb_draws = Fin 0, lb_earnings = ''5'', lb_token = ''T''\<rparr>\<rparr>"

definition late_ex :: "lb_event list" where
  "late_ex = [LbAnswer 0 (Inr (replicate 25 row_ex)), LbNext, LbAnswer 0 (Inr [row_ex])]"

lemma late_ex_run:
  "fold lb_step late_ex (lb_start props_ex) =
    \<lparr>lw_props = props_ex, lw_state = \<lparr>ls_page = 1, ls_loaded = Some (requestKey props_ex 1, [row_ex]), ls_failed = None\<rparr>,
     lw_loads = [], lw_answers = [(props_ex, 1, [row_ex]), (props_ex, 0, replicate 25 row_ex)]\<rparr>"
  by (simp add: late_ex_def lb_step_def lb_start_def lb_effect_def lb_answer_def next_enabled_def isLastPage_def lb_entries_def PAGE_SIZE_def props_ex_def Let_def)

theorem leaderboard_rows_of_page_witness: "(props_ex, 1, [row_ex]) \<in> set (lw_answers (fold lb_step late_ex (lb_start props_ex)))"
proof -
  have p: "props_ok props_ex" by (simp add: props_ok_def props_ex_def)
  show ?thesis
    using leaderboard_rows_of_page[OF p _ refl, of late_ex] unfolding late_ex_run by (simp add: late_ex_def lb_entries_def)
qed

section \<open>A dead end\<close>

lemma no_buttons_kept:
  assumes "lb_entries (lw_props w) (lw_state w) = []" "\<forall>l \<in> set (lw_loads w). \<not> ld_active l" "\<And>p. e \<noteq> LbProps p"
  shows "lw_props (lb_step e w) = lw_props w \<and> lw_state (lb_step e w) = lw_state w \<and> (\<forall>l \<in> set (lw_loads (lb_step e w)). \<not> ld_active l)"
  using assms by (cases e) (auto simp: lb_step_def next_enabled_def prev_enabled_def lb_answer_def dest: in_set_takeD in_set_dropD)

lemma no_buttons_run:
  assumes "lb_entries (lw_props w) (lw_state w) = []" "\<forall>l \<in> set (lw_loads w). \<not> ld_active l" "\<forall>e \<in> set es. \<forall>p. e \<noteq> LbProps p"
  shows "lw_props (fold lb_step es w) = lw_props w \<and> lw_state (fold lb_step es w) = lw_state w"
  using assms
proof (induction es arbitrary: w)
  case (Cons e es)
  have "lw_props (lb_step e w) = lw_props w \<and> lw_state (lb_step e w) = lw_state w \<and> (\<forall>l \<in> set (lw_loads (lb_step e w)). \<not> ld_active l)"
    by (rule no_buttons_kept) (use Cons.prems in auto)
  then show ?case using Cons.IH[of "lb_step e w"] Cons.prems by simp
qed simp

text \<open>A full last page leads into a dead end: after a page of exactly the page size the next one is offered, and
  when that comes back empty or refused the page has no buttons left, so that no click and no answer ever shows a row
  again.\<close>
lemma leaderboard_dead_end:
  assumes "lp_contractId p \<noteq> []" "length rows = PAGE_SIZE" "r = Inl m \<or> r = Inr []" "\<forall>e \<in> set es. \<forall>q. e \<noteq> LbProps q"
    "w = fold lb_step es (fold lb_step [LbAnswer 0 (Inr rows), LbNext, LbAnswer 0 r] (lb_start p))"
  shows "ls_page (lw_state w) = 1 \<and> lb_entries (lw_props w) (lw_state w) = []"
proof -
  let ?w = "fold lb_step [LbAnswer 0 (Inr rows), LbNext, LbAnswer 0 r] (lb_start p)"
  have n: "requestKey p 1 \<noteq> requestKey p 0"
    using nat_text_inj[of "lb_offset 1" "lb_offset 0"] by (auto simp: requestKey_def lb_offset_def PAGE_SIZE_def)
  have "rows \<noteq> []" using assms(2) by (auto simp: PAGE_SIZE_def)
  then have e: "lw_props ?w = p" "ls_page (lw_state ?w) = 1" "lb_entries (lw_props ?w) (lw_state ?w) = []" "lw_loads ?w = []"
    using assms(1-3) n by (auto simp: lb_step_def lb_start_def lb_effect_def lb_answer_def next_enabled_def isLastPage_def lb_entries_def Let_def)
  have f: "lw_props w = lw_props ?w \<and> lw_state w = lw_state ?w"
    unfolding assms(5) by (rule no_buttons_run[OF e(3) _ assms(4)]) (simp only: e(4) list.set ball_empty)
  show ?thesis using e(2,3) f by simp
qed

lemma leaderboard_dead_end_example:
  "ls_page (lw_state (fold lb_step [LbPrev, LbNext] (fold lb_step [LbAnswer 0 (Inr (replicate 25 row_ex)), LbNext, LbAnswer 0 (Inr [])] (lb_start props_ex)))) = 1"
  using leaderboard_dead_end[of props_ex "replicate 25 row_ex" "Inr []" _ "[LbPrev, LbNext]", OF _ _ _ _ refl] by (simp add: props_ex_def PAGE_SIZE_def)

text \<open>A failure is remembered under its key and takes precedence, so a page that failed stays failed although a
  later request for it succeeds.\<close>

lemma failed_page_stuck:
  assumes "lp_contractId p \<noteq> []" "ls_failed s = Some (requestKey p (ls_page s), m)"
  shows "lb_status p (lb_answer \<lparr>ld_props = p, ld_page = ls_page s, ld_active = True\<rparr> (Inr rows) s) = LoadError"
  using assms by (simp add: lb_status_def lb_answer_def)

lemma decode_all_Inr: "decode_all es = Inr xs \<Longrightarrow> length xs = length es \<and> (\<forall>e \<in> set es. \<exists>x. decode_entry e = Inr x)"
  by (induction es arbitrary: xs) (auto split: sum.splits)

text \<open>Every row shown has a player, and the counts are numbers when the contract's are.\<close>

lemma decode_players: "decodeEntries raw = Inr xs \<Longrightarrow> \<exists>es. raw = Some es \<and> length xs = length es \<and> (\<forall>e \<in> set es. sc_truthy (ne_player e) \<and> ne_stats e \<noteq> None)"
proof -
  assume "decodeEntries raw = Inr xs"
  then obtain es where es: "raw = Some es" "decode_all es = Inr xs" by (auto simp: decodeEntries_def split: option.splits)
  have "sc_truthy (ne_player e) \<and> ne_stats e \<noteq> None" if "decode_entry e = Inr x" for e x
    using that by (auto simp: decode_entry_def split: if_splits option.splits)
  then have "\<forall>e \<in> set es. sc_truthy (ne_player e) \<and> ne_stats e \<noteq> None" using decode_all_Inr[OF es(2)] by fast
  then show ?thesis using es(1) decode_all_Inr[OF es(2)] by simp
qed

end
