(* ===== verification/Wallet.thy ===== *)
theory Wallet
  imports ClaimBurn MatchViews
begin

text \<open>
  The wallet of the frontend: the hook that talks to the Freighter extension (\<open>hooks/useStellarWallet.ts\<close>) as a
  machine whose handlers wait for answers and can overlap in any order, the comparison of networks
  (\<open>hooks/useNetworkStatus.ts\<close>), the deployment settings (\<open>deployment.ts\<close>) and the transactions the pages
  hand to the wallet (\<open>hooks/useTransactions.ts\<close>). The extension, Horizon, the RPC server and the network passphrases
  of the Stellar SDK are parameters.
\<close>

section \<open>The networks\<close>

datatype wallet_network = NetTestnet | NetMainnet | NetUnknown

record sdk_networks =
  sdk_TESTNET :: string
  sdk_PUBLIC :: string
  sdk_FUTURENET :: string
  sdk_STANDALONE :: string

definition detectNetwork :: "sdk_networks \<Rightarrow> string option \<Rightarrow> wallet_network" where
  "detectNetwork sdk passphrase =
    (case passphrase of
       None \<Rightarrow> NetUnknown
     | Some p \<Rightarrow> if p = [] then NetUnknown else if p = sdk_TESTNET sdk then NetTestnet else if p = sdk_PUBLIC sdk then NetMainnet else NetUnknown)"

section \<open>The wallet hook\<close>

datatype wallet_status = WalChecking | WalNotInstalled | WalDisconnected | WalConnecting | WalConnected | WalWrongNetwork | WalError

record wallet_state =
  wl_status :: wallet_status
  wl_address :: "string option"
  wl_error :: "string option"
  wl_balance :: "string option"
  wl_network :: wallet_network

definition initial_wallet :: wallet_state where
  "initial_wallet = \<lparr>wl_status = WalChecking, wl_address = None, wl_error = None, wl_balance = None, wl_network = NetUnknown\<rparr>"

text \<open>An await the hook is in: which handler waits, for what. A balance request knows the account and the network it
  asks for and whether it was aborted.\<close>

datatype wallet_caller = ByConnect | ByChange

datatype wallet_task =
  AwaitConnected wallet_caller
| AwaitKey wallet_caller
| AwaitNetwork wallet_caller string
| AwaitBalance string wallet_network bool

datatype wallet_answer = AnsConnected bool | AnsKey string | AnsNetwork "string option" | AnsBalance string | AnsFail string

text \<open>What the page is built and loaded with: the network expected and whether the extension has \<open>getNetwork\<close>.\<close>

record wallet_setup =
  wp_sdk :: sdk_networks
  wp_expected :: wallet_network
  wp_getNetwork :: bool

definition abort_balances :: "wallet_task list \<Rightarrow> wallet_task list" where
  "abort_balances ts = map (\<lambda>t. case t of AwaitBalance a n _ \<Rightarrow> AwaitBalance a n True | _ \<Rightarrow> t) ts"

text \<open>The end of \<open>connect\<close> and of \<open>handleWalletChange\<close>: the status for the network detected, and the balance request.\<close>

definition wallet_settled :: "wallet_setup \<Rightarrow> wallet_network \<Rightarrow> wallet_state \<Rightarrow> wallet_state" where
  "wallet_settled cfg detected s =
    s\<lparr>wl_status := (if detected \<noteq> NetUnknown \<and> detected \<noteq> wp_expected cfg then WalWrongNetwork else WalConnected)\<rparr>"

definition start_balance :: "string \<Rightarrow> wallet_network \<Rightarrow> wallet_task list \<Rightarrow> wallet_task list" where
  "start_balance key detected ts = abort_balances ts @ [AwaitBalance key detected False]"

text \<open>The extension gone, or no longer connected, as \<open>handleWalletChange\<close> records it.\<close>

definition wallet_cleared :: "wallet_status \<Rightarrow> wallet_state \<Rightarrow> wallet_state" where
  "wallet_cleared st s = s\<lparr>wl_address := None, wl_balance := None, wl_network := NetUnknown, wl_status := st\<rparr>"

definition wallet_failed :: "wallet_caller \<Rightarrow> string \<Rightarrow> wallet_state \<Rightarrow> wallet_state" where
  "wallet_failed c m s =
    (case c of
       ByConnect \<Rightarrow> s\<lparr>wl_status := WalError, wl_error := Some m\<rparr>
     | ByChange \<Rightarrow> wallet_cleared WalDisconnected s)"

text \<open>One await ends: the new state and the awaits that follow.\<close>

definition wallet_answered :: "wallet_setup \<Rightarrow> wallet_task \<Rightarrow> wallet_answer \<Rightarrow> wallet_task list \<Rightarrow> wallet_state \<Rightarrow> wallet_state \<times> wallet_task list" where
  "wallet_answered cfg t ans ts s =
    (case t of
       AwaitConnected c \<Rightarrow>
         (case ans of
            AnsConnected True \<Rightarrow> (s, ts @ [AwaitKey c])
          | AnsConnected False \<Rightarrow>
              ((case c of ByConnect \<Rightarrow> s\<lparr>wl_status := WalDisconnected\<rparr> | ByChange \<Rightarrow> wallet_cleared WalDisconnected s), ts)
          | AnsFail m \<Rightarrow> (wallet_failed c m s, ts)
          | _ \<Rightarrow> (s, ts))
     | AwaitKey c \<Rightarrow>
         (case ans of
            AnsKey key \<Rightarrow>
              (let s1 = s\<lparr>wl_address := Some key\<rparr> in
               if wp_getNetwork cfg then (s1, ts @ [AwaitNetwork c key])
               else (wallet_settled cfg NetUnknown s1, start_balance key NetUnknown ts))
          | AnsFail m \<Rightarrow> (wallet_failed c m s, ts)
          | _ \<Rightarrow> (s, ts))
     | AwaitNetwork c key \<Rightarrow>
         (case ans of
            AnsNetwork p \<Rightarrow>
              (let detected = detectNetwork (wp_sdk cfg) p in
               (wallet_settled cfg detected (s\<lparr>wl_network := detected\<rparr>), start_balance key detected ts))
          | AnsFail m \<Rightarrow> (wallet_failed c m s, ts)
          | _ \<Rightarrow> (s, ts))
     | AwaitBalance a n aborted \<Rightarrow>
         (case ans of
            AnsBalance b \<Rightarrow> (if aborted then s\<lparr>wl_balance := None\<rparr> else s\<lparr>wl_balance := Some b\<rparr>, ts)
          | _ \<Rightarrow> (s\<lparr>wl_balance := None\<rparr>, ts)))"

datatype wallet_event =
  WalMount bool
| WalConnect bool
| WalChange bool
| WalDisconnect bool
| WalRefresh
| WalAnswer nat wallet_answer

text \<open>The flag of an event says whether the extension is there.\<close>

definition wallet_connect :: "bool \<Rightarrow> wallet_state \<Rightarrow> wallet_state \<times> wallet_task list" where
  "wallet_connect installed s =
    (if \<not> installed then (s\<lparr>wl_status := WalNotInstalled\<rparr>, [])
     else (s\<lparr>wl_status := WalConnecting, wl_error := None\<rparr>, [AwaitConnected ByConnect]))"

definition handleWalletChange :: "bool \<Rightarrow> wallet_state \<Rightarrow> wallet_state \<times> wallet_task list" where
  "handleWalletChange installed s =
    (if \<not> installed then (wallet_cleared WalNotInstalled s, []) else (s, [AwaitConnected ByChange]))"

definition wallet_disconnect :: "bool \<Rightarrow> wallet_state \<Rightarrow> wallet_state" where
  "wallet_disconnect installed s =
    s\<lparr>wl_address := None, wl_balance := None, wl_status := (if installed then WalDisconnected else WalNotInstalled),
      wl_error := None, wl_network := NetUnknown\<rparr>"

definition refreshBalance :: "wallet_state \<Rightarrow> wallet_task list \<Rightarrow> wallet_task list" where
  "refreshBalance s ts =
    (case wl_address s of
       Some a \<Rightarrow> if a = [] then ts else start_balance a (wl_network s) ts
     | None \<Rightarrow> ts)"

definition wallet_step :: "wallet_setup \<Rightarrow> wallet_event \<Rightarrow> wallet_state \<times> wallet_task list \<Rightarrow> wallet_state \<times> wallet_task list" where
  "wallet_step cfg e w =
    (case w of (s, ts) \<Rightarrow>
     (case e of
       WalMount installed \<Rightarrow> (s\<lparr>wl_status := (if installed then WalDisconnected else WalNotInstalled)\<rparr>, ts)
     | WalConnect installed \<Rightarrow> (let (s1, new) = wallet_connect installed s in (s1, ts @ new))
     | WalChange installed \<Rightarrow> (let (s1, new) = handleWalletChange installed s in (s1, ts @ new))
     | WalDisconnect installed \<Rightarrow> (wallet_disconnect installed s, ts)
     | WalRefresh \<Rightarrow> (s, refreshBalance s ts)
     | WalAnswer i ans \<Rightarrow>
         if i < length ts then wallet_answered cfg (ts ! i) ans (take i ts @ drop (Suc i) ts) s else (s, ts)))"

text \<open>The balance a Horizon account answer holds: the native one, or zero.\<close>

definition native_balance :: "(string \<times> string) list \<Rightarrow> string" where
  "native_balance balances = (case find (\<lambda>b. fst b = ''native'') balances of Some b \<Rightarrow> snd b | None \<Rightarrow> ''0'')"

section \<open>Deployment\<close>

datatype setup_state = SetupDisconnected | SetupUnconfigured | SetupUnsupported | SetupReady

record deployment_settings =
  de_network :: wallet_network
  de_rpcUrl :: string
  de_escrowId :: string
  de_horizonUrl :: string
  de_networkPassphrase :: string

definition deployment :: "sdk_networks \<Rightarrow> (string \<Rightarrow> string option) \<Rightarrow> deployment_settings" where
  "deployment sdk env =
    (let configured = (case env ''VITE_STELLAR_NETWORK'' of Some n \<Rightarrow> n | None \<Rightarrow> ''testnet'') in
     \<lparr>de_network = (if configured = ''testnet'' then NetTestnet else if configured = ''mainnet'' then NetMainnet else NetUnknown),
      de_rpcUrl = (case env ''VITE_STELLAR_RPC_URL'' of Some u \<Rightarrow> u
        | None \<Rightarrow> if configured = ''testnet'' then ''https://soroban-testnet.stellar.org'' else []),
      de_escrowId = (case env ''VITE_ESCROW_CONTRACT_ID'' of Some c \<Rightarrow> c | None \<Rightarrow> []),
      de_horizonUrl = (if configured = ''mainnet'' then ''https://horizon.stellar.org'' else ''https://horizon-testnet.stellar.org''),
      de_networkPassphrase = (if configured = ''mainnet'' then sdk_PUBLIC sdk else sdk_TESTNET sdk)\<rparr>)"

definition deploymentReady :: "(string \<Rightarrow> bool) \<Rightarrow> deployment_settings \<Rightarrow> bool" where
  "deploymentReady isContract d \<longleftrightarrow> de_network d \<noteq> NetUnknown \<and> de_rpcUrl d \<noteq> [] \<and> isContract (de_escrowId d)"

definition setupState :: "wallet_status \<Rightarrow> wallet_network \<Rightarrow> bool \<Rightarrow> wallet_network \<Rightarrow> setup_state" where
  "setupState status network configured expected =
    (if status \<noteq> WalConnected \<and> status \<noteq> WalWrongNetwork then SetupDisconnected
     else if \<not> configured then SetupUnconfigured
     else if network = NetUnknown \<or> network \<noteq> expected then SetupUnsupported
     else SetupReady)"

text \<open>\<open>WalletProvider\<close>: the status the pages see.\<close>

definition walletState :: "wallet_network \<Rightarrow> wallet_state \<Rightarrow> wallet_status" where
  "walletState deployed s =
    (if wl_status s = WalConnected \<and> (wl_network s = NetUnknown \<or> wl_network s \<noteq> deployed) then WalWrongNetwork else wl_status s)"

section \<open>Comparing networks\<close>

definition NETWORK_PASSPHRASES :: "sdk_networks \<Rightarrow> (string \<times> string) list" where
  "NETWORK_PASSPHRASES sdk = [(''testnet'', sdk_TESTNET sdk), (''mainnet'', sdk_PUBLIC sdk), (''public'', sdk_PUBLIC sdk),
     (''futurenet'', sdk_FUTURENET sdk), (''standalone'', sdk_STANDALONE sdk)]"

definition NETWORK_LABELS :: "(string \<times> string) list" where
  "NETWORK_LABELS = [(''mainnet'', ''Mainnet''), (''public'', ''Mainnet''), (''testnet'', ''Testnet''), (''futurenet'', ''Futurenet''),
     (''standalone'', ''Standalone'')]"

definition NETWORK_COLORS :: "(string \<times> string) list" where
  "NETWORK_COLORS = [(''mainnet'', ''bg-green-600''), (''public'', ''bg-green-600''), (''testnet'', ''bg-amber-500''), (''futurenet'', ''bg-orange-500''),
     (''standalone'', ''bg-gray-400'')]"

text \<open>\<open>table[key] ?? d\<close>.\<close>

definition look :: "(string \<times> string) list \<Rightarrow> string \<Rightarrow> string \<Rightarrow> string" where
  "look t k d = (case map_of t k of Some v \<Rightarrow> v | None \<Rightarrow> d)"

definition normalizeNetworkName :: "string option \<Rightarrow> string" where
  "normalizeNetworkName raw =
    (case raw of None \<Rightarrow> ''unknown''
     | Some r \<Rightarrow>
        if r = [] then ''unknown''
        else (let lower = js_lower (js_trim r) in
          if lower = ''public'' \<or> lower = ''pubnet'' \<or> lower = ''mainnet'' then ''mainnet''
          else if js_includes lower ''testnet'' \<or> lower = ''test'' then ''testnet''
          else if js_includes lower ''futurenet'' \<or> lower = ''future'' then ''futurenet''
          else if js_includes lower ''standalone'' \<or> lower = ''local'' then ''standalone''
          else lower))"

text \<open>The argument is \<open>VITE_STELLAR_NETWORK\<close>.\<close>

definition getExpectedNetwork :: "string option \<Rightarrow> string" where
  "getExpectedNetwork envVal = normalizeNetworkName (case envVal of Some v \<Rightarrow> if v = [] then Some ''testnet'' else Some v | None \<Rightarrow> Some ''testnet'')"

definition getExpectedPassphrase :: "sdk_networks \<Rightarrow> string option \<Rightarrow> string" where
  "getExpectedPassphrase sdk envVal = look (NETWORK_PASSPHRASES sdk) (getExpectedNetwork envVal) (sdk_TESTNET sdk)"

definition getNetworkPassphrase :: "sdk_networks \<Rightarrow> string option \<Rightarrow> string option \<Rightarrow> string" where
  "getNetworkPassphrase sdk envVal networkName =
    (case networkName of None \<Rightarrow> getExpectedPassphrase sdk envVal
     | Some n \<Rightarrow> if n = [] then getExpectedPassphrase sdk envVal
         else look (NETWORK_PASSPHRASES sdk) (normalizeNetworkName (Some n)) (sdk_TESTNET sdk))"

text \<open>What a wallet says of its network: nothing, a text, or a name and a passphrase.\<close>

datatype network_identity = NoIdentity | NameOnly string | Identity "string option" "string option"

definition name_match :: "string option \<Rightarrow> string \<Rightarrow> bool" where
  "name_match envVal name =
    (let normalized = normalizeNetworkName (Some name) in normalized \<noteq> ''unknown'' \<and> normalized = getExpectedNetwork envVal)"

text \<open>The verdict of the passphrase, \<open>None\<close> when it decides nothing.\<close>

definition says_testnet :: "string \<Rightarrow> bool" where
  "says_testnet p \<longleftrightarrow> js_includes p ''testnet'' \<or> js_includes p ''test sdf network''"

definition says_mainnet :: "string \<Rightarrow> bool" where
  "says_mainnet p \<longleftrightarrow> js_includes p ''pubnet'' \<or> js_includes p ''public global stellar''"

definition passphrase_verdict :: "sdk_networks \<Rightarrow> string option \<Rightarrow> string \<Rightarrow> bool option" where
  "passphrase_verdict sdk envVal p =
    (let expectedName = getExpectedNetwork envVal; trimmed = js_trim p; lower = js_lower trimmed in
     if trimmed = getExpectedPassphrase sdk envVal then Some True
     else if expectedName = ''testnet''
     then (if says_testnet lower then Some True else if says_mainnet lower then Some False else None)
     else if expectedName = ''mainnet''
     then (if says_mainnet lower then Some True else if says_testnet lower then Some False else None)
     else None)"

definition isNetworkMatch :: "sdk_networks \<Rightarrow> string option \<Rightarrow> network_identity \<Rightarrow> bool" where
  "isNetworkMatch sdk envVal ident =
    (case ident of
       NoIdentity \<Rightarrow> False
     | NameOnly n \<Rightarrow>
         if n = [] then False
         else if js_trim n = getExpectedPassphrase sdk envVal then True
         else (let normalized = normalizeNetworkName (Some (js_trim n)) in
           if normalized = ''unknown'' then False else normalized = getExpectedNetwork envVal)
     | Identity network passphrase \<Rightarrow>
         (case (case passphrase of Some p \<Rightarrow> if p = [] then None else passphrase_verdict sdk envVal p | None \<Rightarrow> None) of
            Some b \<Rightarrow> b
          | None \<Rightarrow>
             (case network of Some n \<Rightarrow> if n = [] then False else name_match envVal n | None \<Rightarrow> False)))"

definition validateNetworkMatch :: "sdk_networks \<Rightarrow> string option \<Rightarrow> network_identity \<Rightarrow> string option" where
  "validateNetworkMatch sdk envVal ident =
    (let expectedName = getExpectedNetwork envVal; expectedLabel = look NETWORK_LABELS expectedName expectedName in
     if ident = NoIdentity \<or> ident = NameOnly []
     then Some (''Wallet network is unavailable or unknown. Please ensure your wallet is connected to '' @ expectedLabel @ ''.'')
     else (let rawName = (case ident of NameOnly n \<Rightarrow> n | Identity (Some n) _ \<Rightarrow> if n = [] then ''unknown'' else n | _ \<Rightarrow> ''unknown'');
               normalized = normalizeNetworkName (Some rawName);
               passphraseGiven = (case ident of Identity _ (Some p) \<Rightarrow> p \<noteq> [] | _ \<Rightarrow> False) in
       if normalized = ''unknown'' \<and> \<not> passphraseGiven
       then Some (''Wallet network is unknown or still loading. Please ensure your wallet is connected to '' @ expectedLabel @ ''.'')
       else if \<not> isNetworkMatch sdk envVal ident
       then Some (''Wrong network detected: expected '' @ expectedLabel @ '', but wallet is on '' @ look NETWORK_LABELS normalized rawName @
         ''. Please switch your wallet network to '' @ expectedLabel @ ''.'')
       else None))"

record network_status =
  ns_expectedNetwork :: string
  ns_walletNetwork :: "string option"
  ns_isMismatch :: bool
  ns_expectedLabel :: string
  ns_expectedColor :: string
  ns_walletLabel :: "string option"

definition useNetworkStatus :: "sdk_networks \<Rightarrow> string option \<Rightarrow> string option \<Rightarrow> network_status" where
  "useNetworkStatus sdk envVal walletNetwork =
    (let expected = getExpectedNetwork envVal;
         given = (case walletNetwork of Some w \<Rightarrow> if w = [] then None else Some w | None \<Rightarrow> None) in
     \<lparr>ns_expectedNetwork = expected, ns_walletNetwork = walletNetwork,
      ns_isMismatch = (case given of Some w \<Rightarrow> \<not> isNetworkMatch sdk envVal (NameOnly w) | None \<Rightarrow> False),
      ns_expectedLabel = look NETWORK_LABELS expected expected,
      ns_expectedColor = look NETWORK_COLORS expected ''bg-gray-400'',
      ns_walletLabel = map_option (\<lambda>w. let normalized = normalizeNetworkName (Some w) in
        look NETWORK_LABELS (if normalized = [] then w else normalized) w) given\<rparr>)"

section \<open>Transactions\<close>

text \<open>\<open>sign\<close> is the extension for a transaction and a passphrase, \<open>Inl\<close> when it refuses.\<close>

datatype sponsor_answer = SponsorOk string | SponsorFailed "string option"

record send_answer =
  sd_status :: string
  sd_hash :: string

definition passphrase_of :: "sdk_networks \<Rightarrow> wallet_network \<Rightarrow> string" where
  "passphrase_of sdk n = (case n of NetTestnet \<Rightarrow> sdk_TESTNET sdk | NetMainnet \<Rightarrow> sdk_PUBLIC sdk | NetUnknown \<Rightarrow> sdk_TESTNET sdk)"

record tx_world =
  tw_sign :: "(string \<Rightarrow> string \<Rightarrow> string + string) option"
  tw_sponsor :: "string \<Rightarrow> sponsor_answer"
  tw_send :: "string \<Rightarrow> string \<Rightarrow> send_answer"

definition signAndSubmitTransaction :: "sdk_networks \<Rightarrow> tx_world \<Rightarrow> string \<Rightarrow> wallet_network \<Rightarrow> bool \<Rightarrow> string + string" where
  "signAndSubmitTransaction sdk w tx network sponsored =
    (let networkPassphrase = passphrase_of sdk network in
     case tw_sign w of
       None \<Rightarrow> Inl ''Freighter wallet does not support signTransaction''
     | Some sign \<Rightarrow>
        (case sign tx networkPassphrase of
           Inl m \<Rightarrow> Inl m
         | Inr signed \<Rightarrow>
            if sponsored
            then (if network \<noteq> NetTestnet then Inl ''Sponsorship is testnet only''
                  else (case tw_sponsor w signed of SponsorOk h \<Rightarrow> Inr h
                        | SponsorFailed e \<Rightarrow> Inl (case e of Some m \<Rightarrow> m | None \<Rightarrow> ''Fee sponsorship failed'')))
            else (let r = tw_send w networkPassphrase signed in
              if sd_status r \<noteq> ''PENDING'' \<and> sd_status r \<noteq> ''DUPLICATE'' then Inl ''Transaction submission failed'' else Inr (sd_hash r))))"

definition requireWallet :: "string option \<Rightarrow> (string + 'a) \<Rightarrow> string + 'a" where
  "requireWallet address r = (case address of None \<Rightarrow> Inl ''Wallet not connected'' | Some a \<Rightarrow> if a = [] then Inl ''Wallet not connected'' else r)"

text \<open>\<open>build\<close> prepares the escrow call with a source account and a passphrase; \<open>poll\<close> gives the final status
  of a hash and, on success, the value returned.\<close>

record escrow_world = tx_world +
  ew_build :: "string \<Rightarrow> string \<Rightarrow> string \<Rightarrow> string list \<Rightarrow> string + string"
  ew_poll :: "string \<Rightarrow> string \<Rightarrow> string \<times> scnative option"

definition txHandleDeposit :: "sdk_networks \<Rightarrow> escrow_world \<Rightarrow> string option \<Rightarrow> wallet_network \<Rightarrow> bool \<Rightarrow> string \<Rightarrow> string + unit" where
  "txHandleDeposit sdk w address network sponsored matchId =
    requireWallet address
      (if matchId = [] \<or> \<not> list_all dec_digit matchId then Inl ''Invalid match ID''
       else (let p = passphrase_of sdk network in
         case ew_build w (the address) p ''deposit'' [matchId, the address] of
           Inl m \<Rightarrow> Inl m
         | Inr tx \<Rightarrow>
            (case signAndSubmitTransaction sdk (tx_world.truncate w) tx network sponsored of
               Inl m \<Rightarrow> Inl m
             | Inr hash \<Rightarrow> if fst (ew_poll w p hash) \<noteq> ''SUCCESS'' then Inl ''Deposit failed'' else Inr ())))"

text \<open>The arguments of \<open>create_match\<close> in the order of the call: player, opponent, stake, token contract, game, platform.\<close>

definition txHandleCreateMatch :: "sdk_networks \<Rightarrow> escrow_world \<Rightarrow> (string \<Rightarrow> string) \<Rightarrow> string option \<Rightarrow> string option \<Rightarrow> wallet_network \<Rightarrow> bool \<Rightarrow>
    string \<Rightarrow> string \<Rightarrow> bool \<Rightarrow> string \<Rightarrow> bool \<Rightarrow> string + string" where
  "txHandleCreateMatch sdk w nativeContract usdc address network sponsored player2 stakeAmount isXlm gameId isLichess =
    requireWallet address
      (let p = passphrase_of sdk network in
         case ew_build w (the address) p ''create_match''
           [the address, player2, stakeAmount, if isXlm then nativeContract p else (case usdc of Some u \<Rightarrow> u | None \<Rightarrow> []), gameId,
            if isLichess then ''Lichess'' else ''ChessDotCom''] of
           Inl m \<Rightarrow> Inl m
         | Inr tx \<Rightarrow>
            (case signAndSubmitTransaction sdk (tx_world.truncate w) tx network sponsored of
               Inl m \<Rightarrow> Inl m
             | Inr hash \<Rightarrow>
                (case ew_poll w p hash of
                   (status, v) \<Rightarrow>
                     if status \<noteq> ''SUCCESS'' then Inl ''Match creation failed''
                     else (case v of None \<Rightarrow> Inl ''Match creation failed'' | Some x \<Rightarrow> Inr (sc_text x)))))"

text \<open>Claim is a placeholder transaction; burn logs and returns nothing.\<close>

definition txHandleClaim :: "sdk_networks \<Rightarrow> tx_world \<Rightarrow> string option \<Rightarrow> wallet_network \<Rightarrow> string \<Rightarrow> string + string" where
  "txHandleClaim sdk w address network amount =
    requireWallet address (signAndSubmitTransaction sdk w (''AAAA...claim.'' @ amount) network False)"

definition txHandleBurn :: "string option \<Rightarrow> string \<Rightarrow> string + unit" where
  "txHandleBurn address amount = requireWallet address (Inr ())"

section \<open>The wallet is never connected to another network\<close>

definition wallet_inv :: "wallet_setup \<Rightarrow> wallet_state \<times> wallet_task list \<Rightarrow> bool" where
  "wallet_inv cfg w \<longleftrightarrow>
    (wl_status (fst w) = WalConnected \<longrightarrow> wl_network (fst w) = NetUnknown \<or> wl_network (fst w) = wp_expected cfg) \<and>
    (wl_status (fst w) = WalWrongNetwork \<longrightarrow> wl_network (fst w) \<noteq> NetUnknown \<and> wl_network (fst w) \<noteq> wp_expected cfg) \<and>
    (\<not> wp_getNetwork cfg \<longrightarrow> wl_network (fst w) = NetUnknown \<and> (\<forall>c k. AwaitNetwork c k \<notin> set (snd w)))"

lemmas wallet_ops = wallet_settled_def wallet_cleared_def wallet_failed_def wallet_disconnect_def wallet_connect_def handleWalletChange_def
  refreshBalance_def start_balance_def

lemma no_await_network [simp]: "AwaitNetwork c k \<in> set (abort_balances ts) \<longleftrightarrow> AwaitNetwork c k \<in> set ts"
  by (induction ts) (auto simp: abort_balances_def split: wallet_task.split)

lemma wallet_inv_answered:
  assumes "wallet_inv cfg (s, ts)" "\<not> wp_getNetwork cfg \<Longrightarrow> \<forall>c k. t \<noteq> AwaitNetwork c k"
  shows "wallet_inv cfg (wallet_answered cfg t ans ts s)"
  using assms
  by (cases t; cases ans)
    (auto simp: wallet_answered_def wallet_inv_def wallet_ops Let_def split: bool.split wallet_caller.split if_splits)

lemma wallet_inv_step: "wallet_inv cfg w \<Longrightarrow> wallet_inv cfg (wallet_step cfg e w)"
proof -
  assume inv: "wallet_inv cfg w"
  obtain s ts where w: "w = (s, ts)" by (cases w)
  show ?thesis
  proof (cases e)
    case (WalAnswer i ans)
    show ?thesis
    proof (cases "i < length ts")
      case True
      have "wallet_inv cfg (s, take i ts @ drop (Suc i) ts)"
        using inv w by (auto simp: wallet_inv_def dest: in_set_takeD in_set_dropD)
      moreover have "\<not> wp_getNetwork cfg \<Longrightarrow> \<forall>c k. ts ! i \<noteq> AwaitNetwork c k"
        using inv w nth_mem[OF True] by (auto simp: wallet_inv_def)
      ultimately show ?thesis using WalAnswer True w by (simp add: wallet_step_def wallet_inv_answered)
    qed (use WalAnswer inv w in \<open>simp add: wallet_step_def\<close>)
  qed (use inv w in \<open>auto simp: wallet_step_def wallet_inv_def wallet_ops Let_def split: option.splits if_splits\<close>)
qed

lemma wallet_inv_run: "wallet_inv cfg w \<Longrightarrow> wallet_inv cfg (fold (wallet_step cfg) es w)"
  by (induction es arbitrary: w) (simp_all add: wallet_inv_step)


text \<open>A disconnection during a connection is undone: when the user disconnects while the page waits for the
  network, the answer still connects the wallet, with no address and no way to sign.\<close>
lemma connect_overtakes_disconnect:
  assumes "detectNetwork (wp_sdk cfg) p = wp_expected cfg" "wp_getNetwork cfg"
    "s = fst (fold (wallet_step cfg) [WalMount True, WalConnect True, WalAnswer 0 (AnsConnected True), WalAnswer 0 (AnsKey k), WalDisconnect True,
      WalAnswer 0 (AnsNetwork p)] (initial_wallet, []))"
  shows "wl_status s = WalConnected \<and> wl_address s = None"
  using assms by (simp add: wallet_step_def wallet_answered_def wallet_ops Let_def)

definition sdk_ex :: sdk_networks where
  "sdk_ex = \<lparr>sdk_TESTNET = ''Test SDF Network ; September 2015'', sdk_PUBLIC = ''Public Global Stellar Network ; September 2015'',
     sdk_FUTURENET = ''Test SDF Future Network ; October 2022'', sdk_STANDALONE = ''Standalone Network ; February 2017''\<rparr>"

definition setup_ex :: wallet_setup where "setup_ex = \<lparr>wp_sdk = sdk_ex, wp_expected = NetTestnet, wp_getNetwork = True\<rparr>"

lemma connect_overtakes_disconnect_example:
  "wl_address (fst (fold (wallet_step setup_ex) [WalMount True, WalConnect True, WalAnswer 0 (AnsConnected True), WalAnswer 0 (AnsKey ''G''), WalDisconnect True,
      WalAnswer 0 (AnsNetwork (Some ''Test SDF Network ; September 2015''))] (initial_wallet, []))) = None"
proof -
  have d: "detectNetwork (wp_sdk setup_ex) (Some ''Test SDF Network ; September 2015'') = wp_expected setup_ex" "wp_getNetwork setup_ex"
    by (simp_all add: setup_ex_def sdk_ex_def detectNetwork_def)
  show ?thesis using connect_overtakes_disconnect[OF d refl, of "''G''"] by (rule conjunct2)
qed

text \<open>Until a new balance arrives the page shows the balance of the account before.\<close>

lemma balance_of_old_account:
  "wl_balance (fst (wallet_answered cfg (AwaitKey c) (AnsKey new) ts s)) = wl_balance s \<and>
   wl_address (fst (wallet_answered cfg (AwaitKey c) (AnsKey new) ts s)) = Some new"
  by (simp add: wallet_answered_def wallet_settled_def Let_def)

section \<open>A passphrase decides\<close>

lemma expected_networks [simp]:
  "getExpectedNetwork (Some ''testnet'') = ''testnet''" "getExpectedNetwork None = ''testnet''" "getExpectedNetwork (Some ''mainnet'') = ''mainnet''"
  "getExpectedNetwork (Some ''public'') = ''mainnet''"
  by code_simp+

lemma verdicts:
  "passphrase_verdict sdk_ex (Some ''testnet'') (sdk_TESTNET sdk_ex) = Some True" "passphrase_verdict sdk_ex (Some ''testnet'') (sdk_PUBLIC sdk_ex) = Some False"
  "passphrase_verdict sdk_ex (Some ''mainnet'') (sdk_PUBLIC sdk_ex) = Some True" "passphrase_verdict sdk_ex (Some ''mainnet'') (sdk_TESTNET sdk_ex) = Some False"
  "passphrase_verdict sdk_ex (Some ''testnet'') (sdk_FUTURENET sdk_ex) = None"
  by code_simp+

text \<open>With the passphrases of the SDK, the wallet of the other public network is refused and the right one accepted,
  whatever name it gives.\<close>

lemma network_by_passphrase:
  "isNetworkMatch sdk_ex (Some ''testnet'') (Identity n (Some (sdk_TESTNET sdk_ex)))" "\<not> isNetworkMatch sdk_ex (Some ''testnet'') (Identity n (Some (sdk_PUBLIC sdk_ex)))"
  "isNetworkMatch sdk_ex (Some ''mainnet'') (Identity n (Some (sdk_PUBLIC sdk_ex)))" "\<not> isNetworkMatch sdk_ex (Some ''mainnet'') (Identity n (Some (sdk_TESTNET sdk_ex)))"
proof -
  have "sdk_TESTNET sdk_ex \<noteq> []" "sdk_PUBLIC sdk_ex \<noteq> []" by (simp_all add: sdk_ex_def)
  then show "isNetworkMatch sdk_ex (Some ''testnet'') (Identity n (Some (sdk_TESTNET sdk_ex)))" "\<not> isNetworkMatch sdk_ex (Some ''testnet'') (Identity n (Some (sdk_PUBLIC sdk_ex)))"
    "isNetworkMatch sdk_ex (Some ''mainnet'') (Identity n (Some (sdk_PUBLIC sdk_ex)))" "\<not> isNetworkMatch sdk_ex (Some ''mainnet'') (Identity n (Some (sdk_TESTNET sdk_ex)))"
    by (simp_all add: isNetworkMatch_def verdicts)
qed

text \<open>A passphrase of any other network decides nothing and the name is believed.\<close>

lemma passphrase_overridden:
  "isNetworkMatch sdk_ex (Some ''testnet'') (Identity (Some ''TESTNET'') (Some (sdk_FUTURENET sdk_ex)))"
proof -
  have "name_match (Some ''testnet'') ''TESTNET''" by code_simp
  moreover have "sdk_FUTURENET sdk_ex \<noteq> []" by (simp add: sdk_ex_def)
  ultimately show ?thesis by (simp add: isNetworkMatch_def verdicts)
qed

lemma validate_sound: "validateNetworkMatch sdk env ident = None \<Longrightarrow> isNetworkMatch sdk env ident"
  by (auto simp: validateNetworkMatch_def Let_def split: if_splits)

section \<open>What a deposit reports\<close>

lemma signed_and_sent:
  assumes "signAndSubmitTransaction sdk w tx network sponsored = Inr hash"
  shows "\<exists>sign signed. tw_sign w = Some sign \<and> sign tx (passphrase_of sdk network) = Inr signed \<and>
    (if sponsored then network = NetTestnet \<and> tw_sponsor w signed = SponsorOk hash
     else sd_status (tw_send w (passphrase_of sdk network) signed) \<in> {''PENDING'', ''DUPLICATE''} \<and>
       sd_hash (tw_send w (passphrase_of sdk network) signed) = hash)"
  using assms by (auto simp: signAndSubmitTransaction_def Let_def split: option.splits sum.splits if_splits sponsor_answer.splits)

text \<open>A deposit is reported only when it is on the ledger: a successful \<open>handleDeposit\<close> means that the call of
  \<open>deposit\<close> for this match and this player was prepared and signed for the wallet's network, taken by the network or, on
  the test network, by the sponsor, and that the transaction of that hash was found to have succeeded.\<close>
lemma deposit_reported_final:
  assumes "txHandleDeposit sdk w address network sponsored matchId = Inr ()"
  shows "\<exists>a tx sign signed hash. address = Some a \<and> a \<noteq> [] \<and> matchId \<noteq> [] \<and> list_all dec_digit matchId \<and>
    ew_build w a (passphrase_of sdk network) ''deposit'' [matchId, a] = Inr tx \<and>
    tw_sign w = Some sign \<and> sign tx (passphrase_of sdk network) = Inr signed \<and>
    (if sponsored then network = NetTestnet \<and> tw_sponsor w signed = SponsorOk hash
     else sd_status (tw_send w (passphrase_of sdk network) signed) \<in> {''PENDING'', ''DUPLICATE''} \<and>
       sd_hash (tw_send w (passphrase_of sdk network) signed) = hash) \<and>
    fst (ew_poll w (passphrase_of sdk network) hash) = ''SUCCESS''"
proof -
  obtain a where a: "address = Some a" "a \<noteq> []" using assms by (auto simp: txHandleDeposit_def requireWallet_def split: option.splits if_splits)
  obtain tx hash where h: "matchId \<noteq> []" "list_all dec_digit matchId" "ew_build w a (passphrase_of sdk network) ''deposit'' [matchId, a] = Inr tx"
    "signAndSubmitTransaction sdk (tx_world.truncate w) tx network sponsored = Inr hash" "fst (ew_poll w (passphrase_of sdk network) hash) = ''SUCCESS''"
    using assms a by (auto simp: txHandleDeposit_def requireWallet_def Let_def split: sum.splits if_splits)
  show ?thesis using signed_and_sent[OF h(4)] a h by (force simp: tx_world.truncate_def)
qed

definition chain_ex :: escrow_world where
  "chain_ex = \<lparr>tw_sign = Some (\<lambda>tx p. Inr (tx @ ''!'')), tw_sponsor = (\<lambda>_. SponsorFailed None), tw_send = (\<lambda>_ _. \<lparr>sd_status = ''PENDING'', sd_hash = ''h''\<rparr>),
     ew_build = (\<lambda>a p f xs. Inr f), ew_poll = (\<lambda>_ _. (''SUCCESS'', None))\<rparr>"

lemma deposit_reported_final_example: "fst (ew_poll chain_ex (passphrase_of sdk_ex NetTestnet) ''h'') = ''SUCCESS''"
proof -
  have "txHandleDeposit sdk_ex chain_ex (Some ''G'') NetTestnet False ''7'' = Inr ()"
    by (simp add: txHandleDeposit_def requireWallet_def chain_ex_def signAndSubmitTransaction_def tx_world.truncate_def dec_digit_def Let_def)
  from deposit_reported_final[OF this] show ?thesis by (auto simp: chain_ex_def)
qed

end
