(* ===== verification/OpenApi.thy ===== *)
theory OpenApi
  imports Amounts Json
begin

text \<open>
  The check of the backend's published contract (\<open>contract/openapi-compat.ts\<close>): the differences between two
  OpenAPI documents that can break a client. The documents are JSON values whose schemas are objects;
  \<open>stringify\<close> is \<open>JSON.stringify\<close> and \<open>str\<close> is \<open>String\<close> of the values that are no text.
\<close>

section \<open>Schemas\<close>

definition METHODS :: "string list" where
  "METHODS = [''get'', ''put'', ''post'', ''delete'', ''patch'', ''head'', ''options'']"

definition isObject :: "json option \<Rightarrow> bool" where
  "isObject v = (case v of Some (JsonObj _) \<Rightarrow> True | _ \<Rightarrow> False)"

definition js_string :: "(json \<Rightarrow> string) \<Rightarrow> json \<Rightarrow> string" where
  "js_string str v = (case v of JsonStr s \<Rightarrow> s | _ \<Rightarrow> str v)"

definition walk_ref :: "json \<Rightarrow> string \<Rightarrow> json option" where
  "walk_ref spec ref =
    foldl (\<lambda>node part. case node of Some (JsonObj ms) \<Rightarrow> map_of ms part | _ \<Rightarrow> None) (Some spec) (js_split (CHR ''/'') (drop 2 ref))"

function resolve :: "json \<Rightarrow> json option \<Rightarrow> nat \<Rightarrow> json" where
  "resolve spec schema depth =
    (if \<not> isObject schema \<or> depth > 20 then JsonObj []
     else (case json_str (json_field ''$ref'' (the schema)) of
        Some ref \<Rightarrow> if take 2 ref = ''#/'' then resolve spec (walk_ref spec ref) (Suc depth) else the schema
      | None \<Rightarrow> the schema))"
  by pat_completeness auto
termination by (relation "measure (\<lambda>(spec, schema, depth). 21 - depth)") auto

declare resolve.simps [simp del]

text \<open>The sorted texts of a list, by code units.\<close>

fun text_le :: "string \<Rightarrow> string \<Rightarrow> bool" where
  "text_le [] t = True"
| "text_le (c # s) [] = False"
| "text_le (c # s) (d # t) = (if c = d then text_le s t else (of_char c :: nat) < of_char d)"

fun insert_text :: "string \<Rightarrow> string list \<Rightarrow> string list" where
  "insert_text x [] = [x]"
| "insert_text x (y # ys) = (if text_le x y then x # y # ys else y # insert_text x ys)"

definition schema_types :: "(json \<Rightarrow> string) \<Rightarrow> json \<Rightarrow> string list" where
  "schema_types str schema =
    foldr insert_text (map (js_string str) (case json_field ''type'' schema of None \<Rightarrow> [] | Some (JsonArr ts) \<Rightarrow> ts | Some t \<Rightarrow> [t])) []"

definition enumValues :: "json \<Rightarrow> json list option" where
  "enumValues schema = json_list (json_field ''enum'' schema)"

definition required_names :: "(json \<Rightarrow> string) \<Rightarrow> json \<Rightarrow> string list" where
  "required_names str schema =
    (case json_list (json_field ''required'' schema) of Some xs \<Rightarrow> remdups (map (js_string str) xs) | None \<Rightarrow> [])"

definition schema_properties :: "json \<Rightarrow> (string \<times> json) list" where
  "schema_properties schema = (case json_field ''properties'' schema of Some (JsonObj ms) \<Rightarrow> ms | _ \<Rightarrow> [])"

text \<open>\<open>name in object\<close>.\<close>

definition in_members :: "string \<Rightarrow> (string \<times> json) list \<Rightarrow> bool" where
  "in_members name ms \<longleftrightarrow> name \<in> set (map fst ms) \<or> name \<in> set INHERITED"

definition bar_join :: "string list \<Rightarrow> string" where
  "bar_join xs = (case xs of [] \<Rightarrow> [] | y # ys \<Rightarrow> y @ concat (map (\<lambda>x. ''|'' @ x) ys))"

definition lacks :: "(json \<Rightarrow> string) \<Rightarrow> json list \<Rightarrow> json \<Rightarrow> bool" where
  "lacks stringify xs v \<longleftrightarrow> \<not> list_ex (\<lambda>x. stringify x = stringify v) xs"

section \<open>Comparing schemas\<close>

definition is_error_code :: "json option \<Rightarrow> bool" where
  "is_error_code base =
    (case json_str (case base of Some b \<Rightarrow> json_field ''$ref'' b | None \<Rightarrow> None) of
       Some ref \<Rightarrow> (let n = length ref in 10 \<le> n \<and> drop (n - 10) ref = ''/ErrorCode'') | None \<Rightarrow> False)"

definition response_here :: "(json \<Rightarrow> string) \<Rightarrow> (json \<Rightarrow> string) \<Rightarrow> bool \<Rightarrow> json \<Rightarrow> json \<Rightarrow> string \<Rightarrow> string list" where
  "response_here str stringify errorCode b h loc =
    (let bt = schema_types str b; ht = schema_types str h in
     if bt \<noteq> [] \<and> ht \<noteq> [] \<and> list_ex (\<lambda>t. t \<notin> set bt) ht
     then [loc @ '': type changed from '' @ bar_join bt @ '' to '' @ bar_join ht] else []) @
    (case (enumValues b, enumValues h) of
       (Some be, Some he) \<Rightarrow>
         (if errorCode then []
          else (let added = filter (lacks stringify be) he in
            if added \<noteq> [] then [loc @ '': response enum gained '' @ stringify (JsonArr added) @ '' that existing clients don't handle''] else []))
     | _ \<Rightarrow> [])"

function compareResponse :: "(json \<Rightarrow> string) \<Rightarrow> (json \<Rightarrow> string) \<Rightarrow> json \<Rightarrow> json \<Rightarrow> json option \<Rightarrow> json option \<Rightarrow> string \<Rightarrow> nat \<Rightarrow> string list" where
  "compareResponse str stringify baseSpec headSpec base head loc depth =
    (let b = resolve baseSpec base 0; h = resolve headSpec head 0 in
     if depth > 10 then []
     else response_here str stringify (is_error_code base) b h loc @
       concat (map (\<lambda>(name, schema).
           if \<not> in_members name (schema_properties h) then [loc @ ''.'' @ name @ '': response property removed'']
           else (if name \<in> set (required_names str b) \<and> name \<notin> set (required_names str h)
                 then [loc @ ''.'' @ name @ '': response property no longer always present''] else []) @
             compareResponse str stringify baseSpec headSpec (Some schema) (map_of (schema_properties h) name) (loc @ ''.'' @ name) (Suc depth))
         (schema_properties b)))"
  by pat_completeness auto
termination by (relation "measure (\<lambda>(str, stringify, bs, hs, b, h, loc, depth). 11 - depth)") auto

declare compareResponse.simps [simp del]

definition request_here :: "(json \<Rightarrow> string) \<Rightarrow> (json \<Rightarrow> string) \<Rightarrow> json \<Rightarrow> json \<Rightarrow> string \<Rightarrow> string list" where
  "request_here str stringify b h loc =
    (let bt = schema_types str b; ht = schema_types str h in
     if bt \<noteq> [] \<and> ht \<noteq> [] \<and> list_ex (\<lambda>t. t \<notin> set ht) bt
     then [loc @ '': accepted type narrowed from '' @ bar_join bt @ '' to '' @ bar_join ht] else []) @
    (case (enumValues b, enumValues h) of
       (Some be, Some he) \<Rightarrow>
         (let removed = filter (lacks stringify he) be in
          if removed \<noteq> [] then [loc @ '': request enum no longer accepts '' @ stringify (JsonArr removed)] else [])
     | _ \<Rightarrow> []) @
    concat (map (\<lambda>name. if name \<notin> set (required_names str b) then [loc @ ''.'' @ name @ '': request property is newly required''] else [])
      (required_names str h))"

function compareRequest :: "(json \<Rightarrow> string) \<Rightarrow> (json \<Rightarrow> string) \<Rightarrow> json \<Rightarrow> json \<Rightarrow> json option \<Rightarrow> json option \<Rightarrow> string \<Rightarrow> nat \<Rightarrow> string list" where
  "compareRequest str stringify baseSpec headSpec base head loc depth =
    (let b = resolve baseSpec base 0; h = resolve headSpec head 0 in
     if depth > 10 then []
     else request_here str stringify b h loc @
       concat (map (\<lambda>(name, schema).
           if in_members name (schema_properties h)
           then compareRequest str stringify baseSpec headSpec (Some schema) (map_of (schema_properties h) name) (loc @ ''.'' @ name) (Suc depth)
           else [])
         (schema_properties b)))"
  by pat_completeness auto
termination by (relation "measure (\<lambda>(str, stringify, bs, hs, b, h, loc, depth). 11 - depth)") auto

declare compareRequest.simps [simp del]

section \<open>Comparing contracts\<close>

definition jsonSchema :: "json option \<Rightarrow> json option" where
  "jsonSchema container =
    (case container of
       Some (JsonObj ms) \<Rightarrow>
        (case map_of ms ''content'' of
           Some (JsonObj cs) \<Rightarrow>
            (case map_of cs ''application/json'' of
               Some (JsonObj js) \<Rightarrow> (case map_of js ''schema'' of Some (JsonObj xs) \<Rightarrow> Some (JsonObj xs) | _ \<Rightarrow> None)
             | _ \<Rightarrow> None)
         | _ \<Rightarrow> None)
     | _ \<Rightarrow> None)"

text \<open>The number at the start of a version.\<close>

definition major :: "string \<Rightarrow> nat" where
  "major version = text_value (takeWhile dec_digit version)"

definition object_members :: "json option \<Rightarrow> (string \<times> json) list" where
  "object_members v = (case v of Some (JsonObj ms) \<Rightarrow> ms | _ \<Rightarrow> [])"

definition object_field :: "string \<Rightarrow> json option \<Rightarrow> json option" where
  "object_field name v = map_of (object_members v) name"

definition operation_changes :: "(json \<Rightarrow> string) \<Rightarrow> (json \<Rightarrow> string) \<Rightarrow> json \<Rightarrow> json \<Rightarrow> string \<Rightarrow> json option \<Rightarrow> json option \<Rightarrow> string list" where
  "operation_changes str stringify base head loc bOp hOp =
    (if json_truthy (object_field ''security'' hOp) \<and> \<not> json_truthy (object_field ''security'' bOp)
     then [loc @ '': now requires authentication''] else []) @
    (case (jsonSchema (object_field ''requestBody'' bOp), jsonSchema (object_field ''requestBody'' hOp)) of
       (Some b, Some h) \<Rightarrow> compareRequest str stringify base head (Some b) (Some h) (loc @ '' request'') 0
     | (None, Some h) \<Rightarrow>
         (if isObject (object_field ''requestBody'' hOp) \<and> json_truthy (object_field ''required'' (object_field ''requestBody'' hOp))
          then [loc @ '': now requires a request body''] else [])
     | _ \<Rightarrow> []) @
    concat (map (\<lambda>(status, bResp).
        if \<not> json_truthy (object_field status (object_field ''responses'' hOp)) then [loc @ '': response '' @ status @ '' removed'']
        else (case (jsonSchema (Some bResp), jsonSchema (object_field status (object_field ''responses'' hOp))) of
                (Some b, Some h) \<Rightarrow> compareResponse str stringify base head (Some b) (Some h) (loc @ '' '' @ status) 0
              | _ \<Rightarrow> []))
      (object_members (object_field ''responses'' bOp)))"

definition route_changes :: "(json \<Rightarrow> string) \<Rightarrow> (json \<Rightarrow> string) \<Rightarrow> json \<Rightarrow> json \<Rightarrow> string \<Rightarrow> json option \<Rightarrow> json option \<Rightarrow> string list" where
  "route_changes str stringify base head route bItem hItem =
    concat (map (\<lambda>method.
        (let bOp = object_field method bItem; hOp = object_field method hItem; loc = js_upper method @ '' '' @ route in
         if \<not> isObject bOp then []
         else if \<not> isObject hOp then [loc @ '': operation removed'']
         else operation_changes str stringify base head loc bOp hOp))
      METHODS)"

text \<open>\<open>codes.includes(code)\<close> compares values, and objects by identity.\<close>

definition includes_code :: "json list \<Rightarrow> json \<Rightarrow> bool" where
  "includes_code xs v = (case v of JsonArr _ \<Rightarrow> False | JsonObj _ \<Rightarrow> False | _ \<Rightarrow> v \<in> set xs)"

definition error_codes :: "json \<Rightarrow> json list" where
  "error_codes spec =
    (case enumValues (resolve spec (Some (JsonObj [(''$ref'', JsonStr ''#/components/schemas/ErrorCode'')])) 0) of Some xs \<Rightarrow> xs | None \<Rightarrow> [])"

definition findBreakingChanges :: "(json \<Rightarrow> string) \<Rightarrow> (json \<Rightarrow> string) \<Rightarrow> json \<Rightarrow> json \<Rightarrow> string list" where
  "findBreakingChanges str stringify base head =
    concat (map (\<lambda>(route, bItem). route_changes str stringify base head route (Some bItem) (object_field route (object_field ''paths'' (Some head))))
      (object_members (object_field ''paths'' (Some base)))) @
    concat (map (\<lambda>code. if includes_code (error_codes head) code then [] else [''ErrorCode '' @ js_string str code @ '': error code removed'']) (error_codes base))"

record compat_result =
  co_breaking :: "string list"
  co_baseVersion :: string
  co_headVersion :: string
  co_failed :: bool

definition spec_version :: "(json \<Rightarrow> string) \<Rightarrow> json \<Rightarrow> string" where
  "spec_version str spec =
    (case object_field ''version'' (object_field ''info'' (Some spec)) of
       None \<Rightarrow> ''0.0.0'' | Some JsonNull \<Rightarrow> ''0.0.0'' | Some v \<Rightarrow> js_string str v)"

definition checkCompatibility :: "(json \<Rightarrow> string) \<Rightarrow> (json \<Rightarrow> string) \<Rightarrow> json \<Rightarrow> json \<Rightarrow> compat_result" where
  "checkCompatibility str stringify base head =
    (let breaking = findBreakingChanges str stringify base head; bv = spec_version str base; hv = spec_version str head in
     \<lparr>co_breaking = breaking, co_baseVersion = bv, co_headVersion = hv, co_failed = (breaking \<noteq> [] \<and> major hv \<le> major bv)\<rparr>)"

section \<open>What the check keeps\<close>

lemma concat_map_Nil: "concat (map f xs) = [] \<longleftrightarrow> (\<forall>x \<in> set xs. f x = [])"
  by simp

lemma if_Nil: "(if c then [x] else []) = [] \<longleftrightarrow> \<not> c" "(if c then [] else [x]) = [] \<longleftrightarrow> c" "(if c then [x] else ys) = [] \<longleftrightarrow> \<not> c \<and> ys = []"
  by simp_all

lemma operation_kept:
  assumes "operation_changes str stringify base head loc bOp hOp = []"
  shows "json_truthy (object_field ''security'' hOp) \<longrightarrow> json_truthy (object_field ''security'' bOp)"
    "\<forall>(status, bResp) \<in> set (object_members (object_field ''responses'' bOp)). json_truthy (object_field status (object_field ''responses'' hOp))"
proof -
  note parts = assms[unfolded operation_changes_def append_is_Nil_conv concat_map_Nil if_Nil]
  show "json_truthy (object_field ''security'' hOp) \<longrightarrow> json_truthy (object_field ''security'' bOp)" using parts by blast
  show "\<forall>(status, bResp) \<in> set (object_members (object_field ''responses'' bOp)). json_truthy (object_field status (object_field ''responses'' hOp))"
    using parts by (simp only: case_prod_unfold if_Nil simp_thms) blast
qed

lemma breaking_parts:
  assumes "findBreakingChanges str stringify base head = []"
  shows "\<forall>(route, bItem) \<in> set (object_members (object_field ''paths'' (Some base))).
      route_changes str stringify base head route (Some bItem) (object_field route (object_field ''paths'' (Some head))) = []"
    "\<forall>code \<in> set (error_codes base). includes_code (error_codes head) code"
  using assms[unfolded findBreakingChanges_def append_is_Nil_conv concat_map_Nil if_Nil] unfolding case_prod_unfold by blast+

lemma route_kept:
  assumes "route_changes str stringify base head route bItem hItem = []" "method \<in> set METHODS" "isObject (object_field method bItem)"
  shows "isObject (object_field method hItem) \<and>
    operation_changes str stringify base head (js_upper method @ '' '' @ route) (object_field method bItem) (object_field method hItem) = []"
proof -
  have "(if \<not> isObject (object_field method bItem) then []
       else if \<not> isObject (object_field method hItem) then [(js_upper method @ '' '' @ route) @ '': operation removed'']
       else operation_changes str stringify base head (js_upper method @ '' '' @ route) (object_field method bItem) (object_field method hItem)) = []"
    using bspec[OF assms(1)[unfolded route_changes_def concat_map_Nil Let_def] assms(2)] by simp
  then show ?thesis using assms(3) by (cases "isObject (object_field method hItem)") (simp_all only: if_True if_False simp_thms list.distinct not_Cons_self2)
qed

text \<open>A contract that passes keeps what its clients call: every operation of the old contract is in the new one, needs
  no authentication it did not need, and still has every documented answer; and every error code that is a text is
  still listed.\<close>
lemma compatible_keeps_operations:
  assumes "findBreakingChanges str stringify base head = []"
  shows "(\<forall>(route, bItem) \<in> set (object_members (object_field ''paths'' (Some base))). \<forall>method \<in> set METHODS.
      isObject (object_field method (Some bItem)) \<longrightarrow>
      (let bOp = object_field method (Some bItem); hOp = object_field method (object_field route (object_field ''paths'' (Some head))) in
       isObject hOp \<and> (json_truthy (object_field ''security'' hOp) \<longrightarrow> json_truthy (object_field ''security'' bOp)) \<and>
       (\<forall>(status, bResp) \<in> set (object_members (object_field ''responses'' bOp)). json_truthy (object_field status (object_field ''responses'' hOp))))) \<and>
    (\<forall>s. JsonStr s \<in> set (error_codes base) \<longrightarrow> JsonStr s \<in> set (error_codes head))"
proof (intro conjI ballI allI impI)
  fix x assume x: "x \<in> set (object_members (object_field ''paths'' (Some base)))"
  obtain route bItem where rb: "x = (route, bItem)" by (cases x)
  let ?hItem = "object_field route (object_field ''paths'' (Some head))"
  have "route_changes str stringify base head route (Some bItem) ?hItem = []"
    using breaking_parts(1)[OF assms] x unfolding rb by fast
  note kept = route_kept[OF this]
  show "case x of (route, bItem) \<Rightarrow> \<forall>method \<in> set METHODS. isObject (object_field method (Some bItem)) \<longrightarrow>
      (let bOp = object_field method (Some bItem); hOp = object_field method (object_field route (object_field ''paths'' (Some head))) in
       isObject hOp \<and> (json_truthy (object_field ''security'' hOp) \<longrightarrow> json_truthy (object_field ''security'' bOp)) \<and>
       (\<forall>(status, bResp) \<in> set (object_members (object_field ''responses'' bOp)). json_truthy (object_field status (object_field ''responses'' hOp))))"
    unfolding rb Let_def prod.case
  proof (intro ballI impI)
    fix mt assume m: "mt \<in> set METHODS" "isObject (object_field mt (Some bItem))"
    show "isObject (object_field mt ?hItem) \<and>
       (json_truthy (object_field ''security'' (object_field mt ?hItem)) \<longrightarrow> json_truthy (object_field ''security'' (object_field mt (Some bItem)))) \<and>
       (\<forall>(status, bResp) \<in> set (object_members (object_field ''responses'' (object_field mt (Some bItem)))).
         json_truthy (object_field status (object_field ''responses'' (object_field mt ?hItem))))"
      using kept[OF m] operation_kept by blast
  qed
next
  fix s assume "JsonStr s \<in> set (error_codes base)"
  then show "JsonStr s \<in> set (error_codes head)"
    using breaking_parts(2)[OF assms] by (auto simp: includes_code_def)
qed

definition contract_ex :: json where
  "contract_ex = JsonObj [(''paths'', JsonObj [(''/health'', JsonObj [(''get'', JsonObj [(''responses'', JsonObj [(''200'', JsonObj [])])])])])]"

lemma contract_ex_compatible: "findBreakingChanges (\<lambda>_. []) (\<lambda>_. []) contract_ex contract_ex = []"
  by code_simp

lemma compatible_keeps_operations_example: "isObject (object_field ''get'' (object_field ''/health'' (object_field ''paths'' (Some contract_ex))))"
  using compatible_keeps_operations[OF contract_ex_compatible] by (simp add: contract_ex_def object_field_def object_members_def METHODS_def isObject_def)

section \<open>Requests stay valid\<close>

text \<open>A value is valid for a schema, down to some depth, as far as types, enumerations, required members and members go;
  \<open>ok\<close> says which values have a type of some name. A closed schema allows no other members.\<close>

fun conforms :: "(json \<Rightarrow> string \<Rightarrow> bool) \<Rightarrow> (json \<Rightarrow> string) \<Rightarrow> (json \<Rightarrow> string) \<Rightarrow> bool \<Rightarrow> json \<Rightarrow> nat \<Rightarrow> json option \<Rightarrow> json \<Rightarrow> bool" where
  "conforms ok str stringify strict spec 0 schema v = True"
| "conforms ok str stringify strict spec (Suc n) schema v =
    (let s = resolve spec schema 0 in
     (schema_types str s = [] \<or> list_ex (ok v) (schema_types str s)) \<and>
     (case enumValues s of Some vs \<Rightarrow> \<not> lacks stringify vs v | None \<Rightarrow> True) \<and>
     (case v of
        JsonObj ms \<Rightarrow>
          list_all (\<lambda>name. name \<in> set (map fst ms)) (required_names str s) \<and>
          (strict \<longrightarrow> list_all (\<lambda>m. fst m \<in> set (map fst (schema_properties s))) ms) \<and>
          (\<forall>m \<in> set ms. case map_of (schema_properties s) (fst m) of Some sub \<Rightarrow> conforms ok str stringify strict spec n (Some sub) (snd m) | None \<Rightarrow> True)
      | _ \<Rightarrow> True))"

text \<open>The new schema limits a type or an enumeration only where the old one did.\<close>

fun limits_kept :: "(json \<Rightarrow> string) \<Rightarrow> json \<Rightarrow> json \<Rightarrow> nat \<Rightarrow> json option \<Rightarrow> json option \<Rightarrow> bool" where
  "limits_kept str bs hs 0 base head = True"
| "limits_kept str bs hs (Suc n) base head =
    (let b = resolve bs base 0; h = resolve hs head 0 in
     (schema_types str b = [] \<longrightarrow> schema_types str h = []) \<and> (enumValues b = None \<longrightarrow> enumValues h = None) \<and>
     (\<forall>m \<in> set (schema_properties b). case map_of (schema_properties h) (fst m) of Some sub \<Rightarrow> limits_kept str bs hs n (Some (snd m)) (Some sub) | None \<Rightarrow> True))"

lemma request_here_Nil:
  assumes "request_here str stringify b h loc = []"
  shows "schema_types str b \<noteq> [] \<Longrightarrow> schema_types str h \<noteq> [] \<Longrightarrow> set (schema_types str b) \<subseteq> set (schema_types str h)"
    "enumValues b = Some be \<Longrightarrow> enumValues h = Some he \<Longrightarrow> \<forall>v \<in> set be. \<not> lacks stringify he v"
    "set (required_names str h) \<subseteq> set (required_names str b)"
proof -
  note parts = assms[unfolded request_here_def Let_def append_is_Nil_conv concat_map_Nil if_Nil]
  show "set (required_names str h) \<subseteq> set (required_names str b)" using parts by blast
  show "schema_types str b \<noteq> [] \<Longrightarrow> schema_types str h \<noteq> [] \<Longrightarrow> set (schema_types str b) \<subseteq> set (schema_types str h)"
    using conjunct1[OF parts] by (auto simp: list_ex_iff)
  show "enumValues b = Some be \<Longrightarrow> enumValues h = Some he \<Longrightarrow> \<forall>v \<in> set be. \<not> lacks stringify he v"
    using conjunct1[OF conjunct2[OF parts]] by (simp add: filter_empty_conv split: if_splits)
qed

lemma not_lacks_trans: "\<not> lacks stringify be v \<Longrightarrow> \<forall>x \<in> set be. \<not> lacks stringify he x \<Longrightarrow> \<not> lacks stringify he v"
  unfolding lacks_def list_ex_iff by metis

lemma compareRequest_sound:
  assumes "compareRequest str stringify bs hs base head loc depth = []" "depth + n = 11" "limits_kept str bs hs n base head"
    "conforms ok str stringify True bs n base v"
  shows "conforms ok str stringify False hs n head v"
  using assms
proof (induction n arbitrary: base head loc depth v)
  case (Suc n)
  let ?b = "resolve bs base 0" and ?h = "resolve hs head 0"
  have here: "request_here str stringify ?b ?h loc = []"
    and subs: "\<And>name schema. (name, schema) \<in> set (schema_properties ?b) \<Longrightarrow> in_members name (schema_properties ?h) \<Longrightarrow>
      compareRequest str stringify bs hs (Some schema) (map_of (schema_properties ?h) name) (loc @ ''.'' @ name) (Suc depth) = []"
    using Suc.prems(1,2) by (subst (asm) compareRequest.simps; auto simp: Let_def split: if_splits)+
  note kept = Suc.prems(3)[unfolded limits_kept.simps Let_def]
  note valid = Suc.prems(4)[unfolded conforms.simps Let_def]
  have types: "schema_types str ?h = [] \<or> list_ex (ok v) (schema_types str ?h)"
    using conjunct1[OF valid] conjunct1[OF kept] request_here_Nil(1)[OF here] by (auto simp: list_ex_iff)
  have enum: "case enumValues ?h of Some vs \<Rightarrow> \<not> lacks stringify vs v | None \<Rightarrow> True"
  proof (cases "enumValues ?h")
    case (Some he)
    then obtain be where be: "enumValues ?b = Some be" using kept by auto
    then show ?thesis using Some valid request_here_Nil(2)[OF here be Some] not_lacks_trans[of stringify be v he] by simp
  qed simp
  have members: "list_all (\<lambda>name. name \<in> set (map fst ms)) (required_names str ?h) \<and>
      (\<forall>m \<in> set ms. case map_of (schema_properties ?h) (fst m) of Some sub \<Rightarrow> conforms ok str stringify False hs n (Some sub) (snd m) | None \<Rightarrow> True)"
    if v: "v = JsonObj ms" for ms
  proof
    note vms = valid[unfolded v json.case]
    show "list_all (\<lambda>name. name \<in> set (map fst ms)) (required_names str ?h)"
      using vms request_here_Nil(3)[OF here] unfolding list_all_iff by blast
    show "\<forall>m \<in> set ms. case map_of (schema_properties ?h) (fst m) of Some sub \<Rightarrow> conforms ok str stringify False hs n (Some sub) (snd m) | None \<Rightarrow> True"
    proof
      fix m assume m: "m \<in> set ms"
      have "fst m \<in> set (map fst (schema_properties ?b))" using vms m unfolding list_all_iff by blast
      then obtain sub where sub: "map_of (schema_properties ?b) (fst m) = Some sub" by (metis map_of_eq_None_iff not_None_eq set_map)
      then have subin: "(fst m, sub) \<in> set (schema_properties ?b)" by (rule map_of_SomeD)
      have cm: "conforms ok str stringify True bs n (Some sub) (snd m)" using vms m sub by fastforce
      show "case map_of (schema_properties ?h) (fst m) of Some sub \<Rightarrow> conforms ok str stringify False hs n (Some sub) (snd m) | None \<Rightarrow> True"
      proof (cases "map_of (schema_properties ?h) (fst m)")
        case (Some sub')
        have "in_members (fst m) (schema_properties ?h)" unfolding in_members_def set_map
          using image_eqI[OF _ map_of_SomeD[OF Some], of "fst m" fst] by simp
        then have c: "compareRequest str stringify bs hs (Some sub) (Some sub') (loc @ ''.'' @ fst m) (Suc depth) = []" using subs[OF subin] Some by simp
        have "limits_kept str bs hs n (Some sub) (Some sub')" using kept subin Some by fastforce
        then show ?thesis using Suc.IH[OF c _ _ cm] Suc.prems(2) Some by simp
      qed simp
    qed
  qed
  show ?case unfolding conforms.simps Let_def using types enum members by (cases v) simp_all
qed simp


definition old_schema :: "json option" where
  "old_schema = Some (JsonObj [(''required'', JsonArr [JsonStr ''a'']), (''properties'', JsonObj [(''a'', JsonObj [(''type'', JsonStr ''string'')])])])"

definition new_schema :: "json option" where
  "new_schema = Some (JsonObj [(''properties'', JsonObj [(''a'', JsonObj [(''type'', JsonArr [JsonStr ''string'', JsonStr ''null''])]), (''b'', JsonObj [])])])"

definition request_ex :: json where "request_ex = JsonObj [(''a'', JsonStr ''x'')]"

definition is_text :: "json \<Rightarrow> string \<Rightarrow> bool" where "is_text v t \<longleftrightarrow> (case v of JsonStr _ \<Rightarrow> t = ''string'' | _ \<Rightarrow> False)"

lemma schemas_compatible:
  "compareRequest (\<lambda>_. []) (\<lambda>_. []) JsonNull JsonNull old_schema new_schema [] 0 = []" "limits_kept (\<lambda>_. []) JsonNull JsonNull 11 old_schema new_schema"
  "conforms is_text (\<lambda>_. []) (\<lambda>_. []) True JsonNull 11 old_schema request_ex"
  by code_simp+


text \<open>A limit where there was none is not reported: a request schema that begins to list the texts it accepts passes the
  comparison, and every other text, valid before, is refused.\<close>

lemma enum_introduced_unseen:
  fixes vs :: "json list"
  defines "b \<equiv> Some (JsonObj [(''type'', JsonStr ''string'')])" and "h \<equiv> Some (JsonObj [(''type'', JsonStr ''string''), (''enum'', JsonArr vs)])"
  assumes "lacks stringify vs v"
  shows "compareRequest str stringify bs hs b h loc 0 = [] \<and> \<not> conforms ok str stringify False hs 11 h v"
proof -
  have r: "resolve s b 0 = the b" "resolve s h 0 = the h" for s
    by (subst resolve.simps, simp add: b_def h_def isObject_def json_str_def)+
  have "11 = Suc 10" by simp
  have p: "schema_properties (the b) = []" "schema_types str (the b) = schema_types str (the h)" "enumValues (the b) = None"
    "enumValues (the h) = Some vs" "required_names str (the h) = []"
    by (simp_all add: b_def h_def schema_properties_def schema_types_def enumValues_def json_list_def required_names_def)
  have "compareRequest str stringify bs hs b h loc 0 = []"
    by (subst compareRequest.simps) (simp add: r p request_here_def Let_def list_ex_iff)
  moreover have "\<not> conforms ok str stringify False hs 11 h v"
    unfolding \<open>11 = Suc 10\<close> conforms.simps using assms(3) by (simp add: r p Let_def)
  ultimately show ?thesis by simp
qed

text \<open>Nor is a new need of authentication, when the old operation had an empty list there.\<close>

lemma authentication_unseen:
  "operation_changes str stringify base head loc (Some (JsonObj [(''security'', JsonArr [])])) (Some (JsonObj [(''security'', JsonArr (x # xs))])) = []"
  by (simp add: operation_changes_def object_field_def object_members_def json_truthy_def jsonSchema_def)

text \<open>The versioning rule.\<close>

lemma compatibility_rule:
  "co_failed (checkCompatibility str stringify base head) \<longleftrightarrow>
    findBreakingChanges str stringify base head \<noteq> [] \<and> major (spec_version str head) \<le> major (spec_version str base)"
  by (simp add: checkCompatibility_def Let_def)

end
