(* ===== verification/Shutdown.thy ===== *)
theory Shutdown
  imports Prelude
begin

text \<open>
  Graceful shutdown (\<open>shutdown.ts\<close>): the handler that drains the server and the workers, closes the stores and exits,
  with its watchdog. The dependencies answer in any order; the end of the process is the state it leaves.
\<close>

datatype drain_task = DrainServer | DrainPolling | DrainOutbox
datatype close_task = CloseQueueStore | CloseBreakerStore | CloseMatchStore

text \<open>Which optional dependencies there are. Stopping the retry worker and the eviction task is immediate.\<close>

record shutdown_deps =
  sh_outbox :: bool
  sh_match :: bool
  sh_timeoutMs :: int

definition SHUTDOWN_TIMEOUT_MS :: int where "SHUTDOWN_TIMEOUT_MS = 30000"

definition shutdownTimeout :: "int option \<Rightarrow> int" where
  "shutdownTimeout t = (case t of Some ms \<Rightarrow> ms | None \<Rightarrow> SHUTDOWN_TIMEOUT_MS)"

definition drains :: "shutdown_deps \<Rightarrow> drain_task list" where
  "drains d = [DrainServer, DrainPolling] @ (if sh_outbox d then [DrainOutbox] else [])"

definition closes :: "shutdown_deps \<Rightarrow> close_task list" where
  "closes d = [CloseQueueStore, CloseBreakerStore] @ (if sh_match d then [CloseMatchStore] else [])"

datatype shutdown_phase = Serving | Draining "drain_task list" | Closing "close_task list" | Exited nat

datatype shutdown_call = CallStop drain_task | StoppedOk drain_task | StopWorkers | CallClose close_task | ClosedOk close_task | CallExit nat

text \<open>What was called and what ended, the last first; \<open>sd_deadline\<close> is when the watchdog fires.\<close>

record shutdown_state =
  sd_phase :: shutdown_phase
  sd_deadline :: "int option"
  sd_log :: "shutdown_call list"

definition shutdown_start :: shutdown_state where
  "shutdown_start = \<lparr>sd_phase = Serving, sd_deadline = None, sd_log = []\<rparr>"

definition shutdown_exit :: "nat \<Rightarrow> shutdown_state \<Rightarrow> shutdown_state" where
  "shutdown_exit code s = s\<lparr>sd_phase := Exited code, sd_deadline := None, sd_log := CallExit code # sd_log s\<rparr>"

text \<open>A signal at a time; the flag says whether the immediate stops succeed.\<close>

datatype shutdown_event = Signal int bool | DrainEnds drain_task bool | CloseEnds close_task bool | Watchdog

definition on_shutdown_signal :: "shutdown_deps \<Rightarrow> int \<Rightarrow> bool \<Rightarrow> shutdown_state \<Rightarrow> shutdown_state" where
  "on_shutdown_signal d now ok s =
    (if sd_phase s \<noteq> Serving then s
     else (let s1 = s\<lparr>sd_deadline := Some (now + sh_timeoutMs d), sd_log := StopWorkers # rev (map CallStop (drains d)) @ sd_log s\<rparr> in
       if ok then s1\<lparr>sd_phase := Draining (drains d)\<rparr> else shutdown_exit 1 s1))"

definition on_drain :: "shutdown_deps \<Rightarrow> drain_task \<Rightarrow> bool \<Rightarrow> shutdown_state \<Rightarrow> shutdown_state" where
  "on_drain d t ok s =
    (case sd_phase s of
       Draining ts \<Rightarrow>
         if t \<notin> set ts then s
         else if \<not> ok then shutdown_exit 1 s
         else (let s1 = s\<lparr>sd_log := StoppedOk t # sd_log s\<rparr>; rest = remove1 t ts in
           if rest = [] then s1\<lparr>sd_phase := Closing (closes d), sd_log := rev (map CallClose (closes d)) @ sd_log s1\<rparr>
           else s1\<lparr>sd_phase := Draining rest\<rparr>)
     | _ \<Rightarrow> s)"

definition on_close :: "close_task \<Rightarrow> bool \<Rightarrow> shutdown_state \<Rightarrow> shutdown_state" where
  "on_close c ok s =
    (case sd_phase s of
       Closing cs \<Rightarrow>
         if c \<notin> set cs then s
         else if \<not> ok then shutdown_exit 1 s
         else (let s1 = s\<lparr>sd_log := ClosedOk c # sd_log s\<rparr>; rest = remove1 c cs in
           if rest = [] then shutdown_exit 0 s1 else s1\<lparr>sd_phase := Closing rest\<rparr>)
     | _ \<Rightarrow> s)"

definition on_watchdog :: "shutdown_state \<Rightarrow> shutdown_state" where
  "on_watchdog s = (if sd_deadline s = None then s else shutdown_exit 1 s)"

definition shutdown_step :: "shutdown_deps \<Rightarrow> shutdown_event \<Rightarrow> shutdown_state \<Rightarrow> shutdown_state" where
  "shutdown_step d e s =
    (case e of
       Signal now ok \<Rightarrow> on_shutdown_signal d now ok s
     | DrainEnds t ok \<Rightarrow> on_drain d t ok s
     | CloseEnds c ok \<Rightarrow> on_close c ok s
     | Watchdog \<Rightarrow> on_watchdog s)"

section \<open>The order of a shutdown\<close>

definition shutdown_inv :: "shutdown_deps \<Rightarrow> shutdown_state \<Rightarrow> bool" where
  "shutdown_inv d s \<longleftrightarrow>
    (\<forall>u c v. sd_log s = u @ CallClose c # v \<longrightarrow> StoppedOk ` set (drains d) \<subseteq> set v) \<and>
    (case sd_phase s of
       Serving \<Rightarrow> sd_log s = [] \<and> sd_deadline s = None
     | Draining ts \<Rightarrow> ts \<noteq> [] \<and> distinct ts \<and> sd_deadline s \<noteq> None \<and> (\<forall>c. CallClose c \<notin> set (sd_log s)) \<and> (\<forall>n. CallExit n \<notin> set (sd_log s)) \<and>
         StoppedOk ` (set (drains d) - set ts) \<subseteq> set (sd_log s)
     | Closing cs \<Rightarrow> cs \<noteq> [] \<and> distinct cs \<and> sd_deadline s \<noteq> None \<and> StoppedOk ` set (drains d) \<subseteq> set (sd_log s) \<and> (\<forall>n. CallExit n \<notin> set (sd_log s)) \<and>
         ClosedOk ` (set (closes d) - set cs) \<subseteq> set (sd_log s)
     | Exited n \<Rightarrow> sd_deadline s = None \<and> length (filter (\<lambda>c. \<exists>n. c = CallExit n) (sd_log s)) = 1 \<and>
         (n = 0 \<longrightarrow> StoppedOk ` set (drains d) \<subseteq> set (sd_log s) \<and> ClosedOk ` set (closes d) \<subseteq> set (sd_log s)))"

lemma drains_facts: "distinct (drains d)" "drains d \<noteq> []" "distinct (closes d)" "closes d \<noteq> []"
  by (simp_all add: drains_def closes_def)

lemma exit_once: "\<forall>n. CallExit n \<notin> set xs \<Longrightarrow> filter (\<lambda>c. \<exists>n. c = CallExit n) xs = []"
  by (auto simp: filter_empty_conv)

text \<open>Calls that are no close keep the order of the log.\<close>

lemma order_kept:
  assumes "\<forall>u c v. xs = u @ CallClose c # v \<longrightarrow> A \<subseteq> set v" "\<forall>c. CallClose c \<notin> set ys" "ys @ xs = u @ CallClose c # v"
  shows "A \<subseteq> set v"
proof -
  have "length ys \<le> length u"
  proof (rule ccontr)
    assume "\<not> length ys \<le> length u"
    then have l: "length u < length ys" by simp
    then have "(ys @ xs) ! length u = ys ! length u" by (simp add: nth_append)
    moreover have "(ys @ xs) ! length u = CallClose c" unfolding assms(3) by simp
    ultimately show False using assms(2) nth_mem[OF l] by metis
  qed
  then have "xs = drop (length ys) u @ CallClose c # v" using assms(3) by (metis append_eq_append_conv_if append_eq_conv_conj)
  then show ?thesis using assms(1) by blast
qed

lemma closes_after:
  assumes "\<forall>c. CallClose c \<notin> set xs" "A \<subseteq> set xs" "rev (map CallClose cs) @ xs = u @ CallClose c # v"
  shows "A \<subseteq> set v"
proof -
  have "set v = set xs \<union> set v" using assms
  proof (induction "rev cs" arbitrary: cs u)
    case Nil
    then have "CallClose c \<in> set xs" by (metis append_Nil in_set_conv_decomp list.simps(8) rev_is_Nil_conv rev_rev_ident)
    then show ?case using assms(1) by blast
  next
    case (Cons a as)
    have cs: "cs = rev as @ [a]" using Cons.hyps(2) by (metis rev.simps(2) rev_rev_ident)
    show ?case
    proof (cases u)
      case Nil
      then have "v = rev (map CallClose (rev as)) @ xs" using Cons.prems(3) by (simp add: cs)
      then show ?thesis by auto
    next
      case (Cons b bs)
      then have "rev (map CallClose (rev as)) @ xs = bs @ CallClose c # v" using Cons.prems(3) cs by simp
      then show ?thesis using Cons.hyps(1)[of "rev as" bs] assms(1,2) by simp
    qed
  qed
  then show ?thesis using assms(2) by blast
qed

lemma order_exit: "\<forall>u c v. xs = u @ CallClose c # v \<longrightarrow> A \<subseteq> set v \<Longrightarrow> \<forall>u c v. y # xs = u @ CallClose c # v \<longrightarrow> A \<subseteq> set v"
  if "\<forall>c. y \<noteq> CallClose c"
  using order_kept[of xs A "[y]"] that by (metis append_Cons append_Nil empty_iff list.set(1) set_ConsD)

lemma inv_exit:
  assumes "\<forall>u c v. sd_log s = u @ CallClose c # v \<longrightarrow> StoppedOk ` set (drains d) \<subseteq> set v" "\<forall>n. CallExit n \<notin> set (sd_log s)"
    "code = 0 \<Longrightarrow> StoppedOk ` set (drains d) \<subseteq> set (sd_log s) \<and> ClosedOk ` set (closes d) \<subseteq> set (sd_log s)"
  shows "shutdown_inv d (shutdown_exit code s)"
  using order_exit[OF _ assms(1), of "CallExit code"] exit_once[OF assms(2)] assms(3)
  by (auto simp: shutdown_inv_def shutdown_exit_def)

lemma inv_signal: "shutdown_inv d s \<Longrightarrow> shutdown_inv d (on_shutdown_signal d now ok s)"
proof (cases "sd_phase s = Serving")
  case True
  assume inv: "shutdown_inv d s"
  then have l: "sd_log s = []" using True by (simp add: shutdown_inv_def)
  have no: "\<forall>c. CallClose c \<notin> set (StopWorkers # rev (map CallStop (drains d)))" "\<forall>n. CallExit n \<notin> set (StopWorkers # rev (map CallStop (drains d)))" by auto
  have ord: "\<forall>u c v. StopWorkers # rev (map CallStop (drains d)) = u @ CallClose c # v \<longrightarrow> StoppedOk ` set (drains d) \<subseteq> set v"
    using no(1) by (metis in_set_conv_decomp)
  show ?thesis
  proof (cases ok)
    case ok: True
    then show ?thesis using True l ord no drains_facts
      by (auto simp: on_shutdown_signal_def shutdown_inv_def Let_def)
  next
    case False
    let ?s1 = "s\<lparr>sd_deadline := Some (now + sh_timeoutMs d), sd_log := StopWorkers # rev (map CallStop (drains d)) @ sd_log s\<rparr>"
    have "shutdown_inv d (shutdown_exit 1 ?s1)" by (rule inv_exit) (use l ord no in simp_all)
    then show ?thesis using True False by (simp add: on_shutdown_signal_def Let_def)
  qed
qed (simp add: on_shutdown_signal_def)

lemma inv_drain: "shutdown_inv d s \<Longrightarrow> shutdown_inv d (on_drain d t ok s)"
proof (cases "\<exists>ts. sd_phase s = Draining ts \<and> t \<in> set ts")
  case True
  assume inv: "shutdown_inv d s"
  obtain ts where ts: "sd_phase s = Draining ts" "t \<in> set ts" using True by blast
  have ord: "\<forall>u c v. sd_log s = u @ CallClose c # v \<longrightarrow> StoppedOk ` set (drains d) \<subseteq> set v" using inv by (simp add: shutdown_inv_def)
  have i: "ts \<noteq> []" "distinct ts" "sd_deadline s \<noteq> None" "\<forall>c. CallClose c \<notin> set (sd_log s)" "\<forall>n. CallExit n \<notin> set (sd_log s)"
    "StoppedOk ` (set (drains d) - set ts) \<subseteq> set (sd_log s)"
    using inv ts(1) by (simp_all add: shutdown_inv_def)
  show ?thesis
  proof (cases ok)
    case False
    have "shutdown_inv d (shutdown_exit 1 s)" by (rule inv_exit[OF ord i(5)]) simp
    then show ?thesis using ts False by (simp add: on_drain_def)
  next
    case True
    let ?rest = "remove1 t ts" and ?log = "StoppedOk t # sd_log s"
    have sub: "StoppedOk ` (set (drains d) - set ?rest) \<subseteq> set ?log" using i(2,6) by auto
    have no: "\<forall>c. CallClose c \<notin> set ?log" "\<forall>n. CallExit n \<notin> set ?log" using i(4,5) by auto
    show ?thesis
    proof (cases "?rest = []")
      case True
      have all: "StoppedOk ` set (drains d) \<subseteq> set ?log" using sub True by simp
      have "\<forall>u c v. rev (map CallClose (closes d)) @ ?log = u @ CallClose c # v \<longrightarrow> StoppedOk ` set (drains d) \<subseteq> set v"
        using closes_after[OF no(1) all] by blast
      then show ?thesis using ts \<open>ok\<close> True i(3) no all drains_facts by (auto simp: on_drain_def shutdown_inv_def Let_def)
    next
      case False
      have "\<forall>u c v. ?log = u @ CallClose c # v \<longrightarrow> StoppedOk ` set (drains d) \<subseteq> set v" using order_exit[OF _ ord] by blast
      then show ?thesis using ts \<open>ok\<close> False i(2,3) no sub by (simp add: on_drain_def shutdown_inv_def Let_def)
    qed
  qed
qed (auto simp: on_drain_def split: shutdown_phase.splits)

lemma inv_close: "shutdown_inv d s \<Longrightarrow> shutdown_inv d (on_close c ok s)"
proof (cases "\<exists>cs. sd_phase s = Closing cs \<and> c \<in> set cs")
  case True
  assume inv: "shutdown_inv d s"
  obtain cs where cs: "sd_phase s = Closing cs" "c \<in> set cs" using True by blast
  have ord: "\<forall>u c v. sd_log s = u @ CallClose c # v \<longrightarrow> StoppedOk ` set (drains d) \<subseteq> set v" using inv by (simp add: shutdown_inv_def)
  have i: "cs \<noteq> []" "distinct cs" "sd_deadline s \<noteq> None" "StoppedOk ` set (drains d) \<subseteq> set (sd_log s)" "\<forall>n. CallExit n \<notin> set (sd_log s)"
    "ClosedOk ` (set (closes d) - set cs) \<subseteq> set (sd_log s)"
    using inv cs(1) by (simp_all add: shutdown_inv_def)
  show ?thesis
  proof (cases ok)
    case False
    have "shutdown_inv d (shutdown_exit 1 s)" by (rule inv_exit[OF ord i(5)]) simp
    then show ?thesis using cs False by (simp add: on_close_def)
  next
    case True
    let ?rest = "remove1 c cs" and ?s1 = "s\<lparr>sd_log := ClosedOk c # sd_log s\<rparr>"
    have sub: "ClosedOk ` (set (closes d) - set ?rest) \<subseteq> set (sd_log ?s1)" using i(2,6) by auto
    have ord1: "\<forall>u c v. sd_log ?s1 = u @ CallClose c # v \<longrightarrow> StoppedOk ` set (drains d) \<subseteq> set v" using order_exit[OF _ ord, of "ClosedOk c"] by simp
    show ?thesis
    proof (cases "?rest = []")
      case True
      have "shutdown_inv d (shutdown_exit 0 ?s1)" by (rule inv_exit[OF ord1]) (use i(4,5) sub True in auto)
      then show ?thesis using cs \<open>ok\<close> True by (simp add: on_close_def Let_def)
    next
      case False
      then show ?thesis using cs \<open>ok\<close> ord1 i sub by (auto simp: on_close_def shutdown_inv_def Let_def)
    qed
  qed
qed (auto simp: on_close_def split: shutdown_phase.splits)

lemma inv_watchdog: "shutdown_inv d s \<Longrightarrow> shutdown_inv d (on_watchdog s)"
proof (cases "sd_deadline s = None")
  case False
  assume inv: "shutdown_inv d s"
  then have "\<forall>n. CallExit n \<notin> set (sd_log s)" using False by (auto simp: shutdown_inv_def split: shutdown_phase.splits)
  moreover have "\<forall>u c v. sd_log s = u @ CallClose c # v \<longrightarrow> StoppedOk ` set (drains d) \<subseteq> set v" using inv by (simp add: shutdown_inv_def)
  ultimately have "shutdown_inv d (shutdown_exit 1 s)" by (intro inv_exit) simp_all
  then show ?thesis using False by (simp only: on_watchdog_def if_False)
qed (simp add: on_watchdog_def)

lemma inv_shutdown_step: "shutdown_inv d s \<Longrightarrow> shutdown_inv d (shutdown_step d e s)"
  by (cases e) (simp_all add: shutdown_step_def inv_signal inv_drain inv_close inv_watchdog)

lemma inv_shutdown_run: "shutdown_inv d s \<Longrightarrow> shutdown_inv d (fold (shutdown_step d) es s)"
  by (induction es arbitrary: s) (simp_all add: inv_shutdown_step)

lemma inv_shutdown_start: "shutdown_inv d shutdown_start"
  by (simp add: shutdown_inv_def shutdown_start_def)


definition stop_ex :: "shutdown_event list" where
  "stop_ex = [Signal 0 True, DrainEnds DrainPolling True, Signal 5 True, DrainEnds DrainServer True, CloseEnds CloseBreakerStore True, CloseEnds CloseQueueStore True]"

definition deps_ex :: shutdown_deps where "deps_ex = \<lparr>sh_outbox = False, sh_match = False, sh_timeoutMs = 30000\<rparr>"


text \<open>A second signal changes nothing, and after an exit nothing does.\<close>

lemma second_signal: "sd_phase s \<noteq> Serving \<Longrightarrow> shutdown_step d (Signal now ok) s = s"
  by (simp add: shutdown_step_def on_shutdown_signal_def)

lemma exit_is_final: "shutdown_inv d s \<Longrightarrow> sd_phase s = Exited n \<Longrightarrow> shutdown_step d e s = s"
  by (cases e) (simp_all add: shutdown_step_def on_shutdown_signal_def on_drain_def on_close_def on_watchdog_def shutdown_inv_def)

end
