(* ===== verification/Evidence.thy ===== *)
theory Evidence
  imports Status QueueStore ChessTypes
begin

text \<open>
  Evidence for disputes and settlements: the bundle support exports for one match (\<open>services/dispute-evidence.ts\<close>)
  with its scan for secrets, and the checksummed evidence files (\<open>services/settlement-evidence.ts\<close>). SHA-256, the
  stores, the provider and the oracle contract are parameters; \<open>date\<close> is \<open>toISOString\<close> and \<open>numText\<close> the text of
  a number that is not whole.
\<close>

section \<open>JSON texts\<close>

definition hex_digit :: "nat \<Rightarrow> char" where
  "hex_digit n = (if n < 10 then char_of (48 + n) else char_of (87 + n))"

definition escape_char :: "char \<Rightarrow> string" where
  "escape_char c =
    (let n = (of_char c :: nat) in
     if n = 34 then [char_of (92 :: nat), char_of (34 :: nat)]
     else if n = 92 then [char_of (92 :: nat), char_of (92 :: nat)]
     else if n = 8 then [char_of (92 :: nat), CHR ''b'']
     else if n = 9 then [char_of (92 :: nat), CHR ''t'']
     else if n = 10 then [char_of (92 :: nat), CHR ''n'']
     else if n = 12 then [char_of (92 :: nat), CHR ''f'']
     else if n = 13 then [char_of (92 :: nat), CHR ''r'']
     else if n < 32 then char_of (92 :: nat) # ''u00'' @ [hex_digit (n div 16), hex_digit (n mod 16)]
     else [c])"

definition quote_text :: "string \<Rightarrow> string" where
  "quote_text s = char_of (34 :: nat) # concat (map escape_char s) @ [char_of (34 :: nat)]"

definition number_text :: "(rat \<Rightarrow> string) \<Rightarrow> js_num \<Rightarrow> string" where
  "number_text numText n = (case n of Fin r \<Rightarrow> if of_int \<lfloor>r\<rfloor> = r then int_text \<lfloor>r\<rfloor> else numText r | _ \<Rightarrow> ''null'')"

fun json_stringify :: "(rat \<Rightarrow> string) \<Rightarrow> json \<Rightarrow> string"
  and stringify_list :: "(rat \<Rightarrow> string) \<Rightarrow> json list \<Rightarrow> string"
  and stringify_members :: "(rat \<Rightarrow> string) \<Rightarrow> (string \<times> json) list \<Rightarrow> string" where
  "json_stringify numText JsonNull = ''null''"
| "json_stringify numText (JsonBool b) = (if b then ''true'' else ''false'')"
| "json_stringify numText (JsonNum n) = number_text numText n"
| "json_stringify numText (JsonStr s) = quote_text s"
| "json_stringify numText (JsonArr xs) = ''['' @ stringify_list numText xs @ '']''"
| "json_stringify numText (JsonObj ms) = ''{'' @ stringify_members numText ms @ ''}''"
| "stringify_list numText [] = []"
| "stringify_list numText (x # xs) = json_stringify numText x @ (if xs = [] then [] else '','' @ stringify_list numText xs)"
| "stringify_members numText [] = []"
| "stringify_members numText ((k, x) # ms) = quote_text k @ '':'' @ json_stringify numText x @ (if ms = [] then [] else '','' @ stringify_members numText ms)"

section \<open>Secrets\<close>

text \<open>The patterns, each looked for in the whole text: a seed is a run of word characters, a token starts one, and a
  token of dots has three runs.\<close>

definition seed_word :: "string \<Rightarrow> bool" where
  "seed_word w = (if length w = 56 then hd w = CHR ''S'' \<and> list_all base32_char (tl w) else False)"

definition has_seed :: "string \<Rightarrow> bool" where "has_seed s = list_ex seed_word (words_of s)"

definition long_jwt_here :: "string \<Rightarrow> bool" where
  "long_jwt_here s =
    (if take 3 s = ''eyJ''
     then (let a = drop 3 s; r1 = dropWhile word_char a; b = drop 1 r1; r2 = dropWhile word_char b; c = drop 1 r2 in
       10 \<le> length (takeWhile word_char a) \<and> take 1 r1 = ''.'' \<and>
       10 \<le> length (takeWhile word_char b) \<and> take 1 r2 = ''.'' \<and> 10 \<le> length (takeWhile word_char c))
     else False)"

definition token_word :: "string \<Rightarrow> bool" where
  "token_word w =
    (if take 4 w = ''lio_'' \<or> take 4 w = ''lip_''
     then 8 \<le> length (takeWhile (\<lambda>c. is_lower c \<or> is_upper c \<or> is_digit_char c) (drop 4 w)) else False)"

definition has_token :: "string \<Rightarrow> bool" where "has_token s = list_ex token_word (words_of s)"

definition pem_here :: "string \<Rightarrow> bool" where
  "pem_here s =
    (if take 11 s = ''-----BEGIN ''
     then (let a = drop 11 s; run = takeWhile (\<lambda>c. is_upper c \<or> c = CHR '' '') a; rest = drop (length run) a in
       11 \<le> length run \<and> drop (length run - 11) run = ''PRIVATE KEY'' \<and> take 5 rest = ''-----'')
     else False)"

definition SECRET_PATTERNS :: "(string \<times> (string \<Rightarrow> bool)) list" where
  "SECRET_PATTERNS = [(''Stellar secret seed'', has_seed), (''JWT'', anywhere long_jwt_here), (''Lichess token'', has_token),
     (''PEM private key'', anywhere pem_here)]"

definition SECRET_ENV_VARS :: "string list" where
  "SECRET_ENV_VARS = [''ORACLE_SECRET_KEY'', ''ORACLE_SIGNING_KEY'', ''ADMIN_SECRET_KEY'', ''DEPLOYER_SECRET_KEY'', ''MAINNET_DEPLOYER_SECRET_KEY'',
     ''JWT_SECRET'', ''LICHESS_API_TOKEN'', ''CHESSDOTCOM_API_KEY'']"

definition exposed :: "(string \<Rightarrow> string option) \<Rightarrow> string \<Rightarrow> string \<Rightarrow> bool" where
  "exposed env text name = (case env name of Some secret \<Rightarrow> 8 \<le> length secret \<and> js_includes text secret | None \<Rightarrow> False)"

text \<open>The refusal, \<open>None\<close> when nothing is found.\<close>

definition assertNoSecrets :: "(string \<Rightarrow> string option) \<Rightarrow> string \<Rightarrow> string option" where
  "assertNoSecrets env text =
    (case find (\<lambda>p. snd p text) SECRET_PATTERNS of
       Some p \<Rightarrow> Some (''evidence bundle contains a '' @ fst p @ ''; refusing to export it'')
     | None \<Rightarrow>
        (case find (exposed env text) SECRET_ENV_VARS of
           Some name \<Rightarrow> Some (''evidence bundle contains the value of '' @ name @ ''; refusing to export it'')
         | None \<Rightarrow> None))"

section \<open>The bundle\<close>

definition EVIDENCE_BUNDLE_VERSION :: int where "EVIDENCE_BUNDLE_VERSION = 1"

record evidence_deps =
  ed_findMatch :: "string \<Rightarrow> match_record option"
  ed_listDlqEntries :: "json dlq_entry list"
  ed_fetchProviderResult :: "(match_record \<Rightarrow> string + game_result) option"
  ed_resultOnChain :: "(nat \<Rightarrow> bool option) option"
  ed_network :: string
  ed_escrowContractId :: "string option"
  ed_oracleContractId :: "string option"
  ed_now :: int

definition upper_hex :: "nat \<Rightarrow> char" where
  "upper_hex n = (if n < 10 then char_of (48 + n) else char_of (55 + n))"

definition unreserved :: "char \<Rightarrow> bool" where
  "unreserved c = (is_lower c \<or> is_upper c \<or> is_digit_char c \<or> c \<in> set ''-_.!~*()'' \<or> (of_char c :: nat) = 39)"

definition encodeURIComponent :: "string \<Rightarrow> string" where
  "encodeURIComponent s = concat (map (\<lambda>c. if unreserved c then [c] else [CHR ''%'', upper_hex (of_char c div 16), upper_hex (of_char c mod 16)]) s)"

definition providerGameUrl :: "match_record \<Rightarrow> string option" where
  "providerGameUrl m =
    (if m_platform m = ''lichess'' then Some (''https://lichess.org/'' @ encodeURIComponent (m_gameId m))
     else if m_platform m = ''chessdotcom'' then Some (''https://www.chess.com/game/live/'' @ encodeURIComponent (m_gameId m))
     else None)"

definition explorerUrls :: "string \<Rightarrow> string option list \<Rightarrow> string list" where
  "explorerUrls network ids =
    (let net = (if js_lower network = ''mainnet'' \<or> js_lower network = ''public'' then ''public'' else ''testnet'') in
     map (\<lambda>i. ''https://stellar.expert/explorer/'' @ net @ ''/contract/'' @ encodeURIComponent i)
       (filter (\<lambda>i. i \<noteq> []) (List.map_filter id ids)))"

definition payloadMatchId :: "json \<Rightarrow> js_num option" where
  "payloadMatchId payload =
    (if \<not> json_object payload then None
     else (case json_field ''matchId'' payload of
        Some (JsonNum n) \<Rightarrow> Some n
      | _ \<Rightarrow> (case json_field ''job'' payload of Some job \<Rightarrow> json_num (json_field ''matchId'' job) | None \<Rightarrow> None)))"

definition opt_text :: "string option \<Rightarrow> json" where
  "opt_text s = (case s of Some t \<Rightarrow> JsonStr t | None \<Rightarrow> JsonNull)"

definition result_text :: "match_result \<Rightarrow> string" where
  "result_text r = (case r of Player1Wins \<Rightarrow> ''Player1Wins'' | Player2Wins \<Rightarrow> ''Player2Wins'' | Draw \<Rightarrow> ''Draw'')"

text \<open>The provider's verdict on the players, without their names.\<close>

definition players_recorded :: "match_record \<Rightarrow> game_result \<Rightarrow> bool option" where
  "players_recorded m r =
    (if falsy (m_player1Username m) \<or> falsy (m_player2Username m) then None
     else Some (js_lower (g_whitePlayer r) = js_lower (the (m_player1Username m)) \<and> js_lower (g_blackPlayer r) = js_lower (the (m_player2Username m))))"

definition provider_lookup :: "(match_record \<Rightarrow> string + game_result) option \<Rightarrow> match_record \<Rightarrow> json" where
  "provider_lookup fetch m =
    (case fetch of
       None \<Rightarrow> JsonObj [(''status'', JsonStr ''skipped'')]
     | Some f \<Rightarrow>
        (case f m of
           Inl e \<Rightarrow> JsonObj [(''status'', JsonStr ''error''), (''error'', JsonStr e)]
         | Inr r \<Rightarrow> JsonObj [(''status'', JsonStr ''ok''),
             (''gameStatus'', JsonStr (case g_status r of InProgress \<Rightarrow> ''in_progress'' | Finished \<Rightarrow> ''finished'')),
             (''result'', opt_text (map_option result_text (g_result r))),
             (''playersMatchRecord'', case players_recorded m r of Some b \<Rightarrow> JsonBool b | None \<Rightarrow> JsonNull)]))"

definition evidence_entry :: "(int \<Rightarrow> string) \<Rightarrow> json dlq_entry \<Rightarrow> json" where
  "evidence_entry date e =
    JsonObj [(''id'', JsonStr (dlq_id e)), (''failureReason'', JsonStr (dlq_failureReason e)), (''attempts'', JsonNum (Fin (of_nat (dlq_attempts e)))),
      (''createdAt'', JsonStr (date (dlq_createdAt e))), (''lastAttemptAt'', opt_text (map_option date (dlq_lastAttemptAt e))),
      (''traceparent'', opt_text (dlq_traceContext e)), (''payloadResult'', opt_text (json_str (json_field ''result'' (dlq_payload e))))]"

definition evidence_body :: "(int \<Rightarrow> string) \<Rightarrow> evidence_deps \<Rightarrow> match_record \<Rightarrow> (string \<times> json) list" where
  "evidence_body date deps m =
    [(''bundleVersion'', JsonNum (Fin (of_int EVIDENCE_BUNDLE_VERSION))), (''generatedAt'', JsonStr (date (ed_now deps))),
     (''match'', JsonObj [(''matchId'', JsonNum (Fin (of_nat (m_matchId m)))), (''gameId'', JsonStr (m_gameId m)), (''platform'', JsonStr (m_platform m)),
        (''state'', JsonStr ''Pending''), (''stakeAmount'', JsonNum (Fin (of_int (m_stakeAmount m)))), (''token'', JsonStr (m_token m)),
        (''player1'', JsonStr (m_player1 m)), (''player2'', JsonStr (m_player2 m)), (''identityHash'', opt_text (m_identityHash m))]),
     (''provider'', JsonObj [(''gameUrl'', opt_text (providerGameUrl m)), (''lookup'', provider_lookup (ed_fetchProviderResult deps) m)]),
     (''oracle'', JsonObj [(''dlqEntries'', JsonArr (map (evidence_entry date)
        (filter (\<lambda>e. payloadMatchId (dlq_payload e) = Some (Fin (of_nat (m_matchId m)))) (ed_listDlqEntries deps))))]),
     (''ledger'', JsonObj [(''network'', JsonStr (ed_network deps)), (''escrowContractId'', opt_text (ed_escrowContractId deps)),
        (''oracleContractId'', opt_text (ed_oracleContractId deps)),
        (''resultRecordedOnChain'', case ed_resultOnChain deps of None \<Rightarrow> JsonStr ''unknown''
           | Some f \<Rightarrow> (case f (m_matchId m) of Some b \<Rightarrow> JsonBool b | None \<Rightarrow> JsonStr ''unknown'')),
        (''explorerUrls'', JsonArr (map JsonStr (explorerUrls (ed_network deps) [ed_escrowContractId deps, ed_oracleContractId deps])))])]"

definition digestOf :: "(string \<Rightarrow> string) \<Rightarrow> (rat \<Rightarrow> string) \<Rightarrow> (string \<times> json) list \<Rightarrow> string" where
  "digestOf sha256 numText body = sha256 (json_stringify numText (JsonObj body))"

definition buildEvidenceBundle :: "(string \<Rightarrow> string) \<Rightarrow> (rat \<Rightarrow> string) \<Rightarrow> (int \<Rightarrow> string) \<Rightarrow> (string \<Rightarrow> string option) \<Rightarrow>
    string \<Rightarrow> evidence_deps \<Rightarrow> nat option \<Rightarrow> string + json" where
  "buildEvidenceBundle sha256 numText date env gameId deps matchId =
    (case ed_findMatch deps gameId of
       None \<Rightarrow> Inl (''no match recorded for gameId '' @ gameId)
     | Some m \<Rightarrow>
        if matchId \<noteq> None \<and> matchId \<noteq> Some (m_matchId m)
        then Inl (''gameId '' @ gameId @ '' belongs to match '' @ nat_text (m_matchId m) @ '', not '' @ nat_text (the matchId))
        else (let body = evidence_body date deps m;
                  bundle = JsonObj (body @ [(''digest'', JsonStr (digestOf sha256 numText body))]) in
          case assertNoSecrets env (json_stringify numText bundle) of
            Some refusal \<Rightarrow> Inl refusal
          | None \<Rightarrow> Inr bundle))"

section \<open>Evidence files\<close>

definition valid_evidence_id :: "string \<Rightarrow> bool" where
  "valid_evidence_id i = (length i = 64 \<and> list_all hex_char i)"

text \<open>A directory is the texts of its files by identifier; an existing file is left as it is.\<close>

definition persistEvidence :: "(string \<Rightarrow> string) \<Rightarrow> string \<Rightarrow> (string \<rightharpoonup> string) \<Rightarrow> string \<times> (string \<rightharpoonup> string)" where
  "persistEvidence sha256 body dir =
    (let i = sha256 body in (i, if dir i = None then dir(i \<mapsto> body) else dir))"

text \<open>\<open>parse\<close> is \<open>JSON.parse\<close>, \<open>None\<close> when it throws.\<close>

definition loadEvidence :: "(string \<Rightarrow> string) \<Rightarrow> (string \<Rightarrow> json option) \<Rightarrow> string \<Rightarrow> (string \<rightharpoonup> string) \<Rightarrow> string + json" where
  "loadEvidence sha256 parse i dir =
    (if \<not> valid_evidence_id i then Inl ''Invalid evidence ID''
     else (case dir i of
        None \<Rightarrow> Inl ''ENOENT''
      | Some body \<Rightarrow>
          if sha256 body \<noteq> i then Inl ''Evidence checksum mismatch''
          else (case parse body of
             None \<Rightarrow> Inl ''SyntaxError''
           | Some e \<Rightarrow>
               if json_field ''version'' e \<noteq> Some (JsonNum (Fin 1)) \<or> \<not> json_truthy (json_field ''input'' e) \<or>
                 \<not> json_truthy (json_field ''match'' e) \<or> \<not> json_truthy (json_field ''game'' e)
               then Inl ''Unsupported or incomplete evidence'' else Inr e)))"

section \<open>What leaves the backend\<close>

lemma assertNoSecrets_None:
  assumes "assertNoSecrets env text = None"
  shows "\<not> has_seed text" "\<not> anywhere long_jwt_here text" "\<not> has_token text" "\<not> anywhere pem_here text"
    "\<forall>name \<in> set SECRET_ENV_VARS. \<not> exposed env text name"
proof -
  have f: "find (\<lambda>p. snd p text) SECRET_PATTERNS = None" "find (exposed env text) SECRET_ENV_VARS = None"
    using assms by (simp_all add: assertNoSecrets_def split: option.splits)
  show "\<not> has_seed text" "\<not> anywhere long_jwt_here text" "\<not> has_token text" "\<not> anywhere pem_here text"
    using f(1) unfolding find_None_iff by (auto simp: SECRET_PATTERNS_def)
  show "\<forall>name \<in> set SECRET_ENV_VARS. \<not> exposed env text name" using f(2) unfolding find_None_iff by blast
qed


text \<open>The players' chess names do not reach the bundle: two matches that differ in the names only, and two games that
  differ in the players only, give the same bundle when the verdict on the players is the same.\<close>
lemma evidence_hides_usernames:
  assumes "ed_findMatch deps gameId = Some m" "ed_fetchProviderResult deps = Some f" "f m = Inr r"
    "m' = m\<lparr>m_player1Username := a, m_player2Username := b\<rparr>" "f' m' = Inr r'" "g_status r' = g_status r" "g_result r' = g_result r"
    "players_recorded m' r' = players_recorded m r"
  shows "buildEvidenceBundle sha256 numText date env gameId (deps\<lparr>ed_findMatch := (\<lambda>_. Some m'), ed_fetchProviderResult := Some f'\<rparr>) matchId =
    buildEvidenceBundle sha256 numText date env gameId deps matchId"
proof -
  have "evidence_body date (deps\<lparr>ed_findMatch := (\<lambda>_. Some m'), ed_fetchProviderResult := Some f'\<rparr>) m' = evidence_body date deps m"
    using assms(2-8) by (simp add: evidence_body_def provider_lookup_def providerGameUrl_def cong: option.case_cong)
  then show ?thesis using assms(1,4) by (simp add: buildEvidenceBundle_def)
qed

definition match_ex :: match_record where
  "match_ex = \<lparr>m_matchId = 7, m_player1 = ''GA'', m_player2 = ''GC'', m_player1Username = Some ''ann'', m_player2Username = Some ''bob'',
     m_stakeAmount = 5, m_token = ''XLM'', m_gameId = ''g1'', m_platform = ''lichess'', m_state = Pending, m_identityHash = None\<rparr>"

definition game_ex :: "string \<Rightarrow> string \<Rightarrow> game_result" where
  "game_ex white black = \<lparr>g_gameId = ''g1'', g_whitePlayer = white, g_blackPlayer = black, g_status = Finished, g_result = Some Draw, g_endedAt = None,
     g_evidence = \<lparr>ev_provider = Lichess, ev_fetchedAt = 0, ev_parserVersion = [], ev_responseHash = [], ev_source = [], ev_outcome = Some Draw, ev_endedAt = None\<rparr>\<rparr>"

definition deps_evidence_ex :: evidence_deps where
  "deps_evidence_ex = \<lparr>ed_findMatch = (\<lambda>_. Some match_ex), ed_listDlqEntries = [], ed_fetchProviderResult = Some (\<lambda>_. Inr (game_ex ''Ann'' ''bob'')),
     ed_resultOnChain = None, ed_network = ''testnet'', ed_escrowContractId = None, ed_oracleContractId = None, ed_now = 0\<rparr>"

lemma evidence_hides_usernames_example:
  "buildEvidenceBundle id (\<lambda>_. []) (\<lambda>_. []) (\<lambda>_. None) ''g1''
     (deps_evidence_ex\<lparr>ed_findMatch := (\<lambda>_. Some (match_ex\<lparr>m_player1Username := Some ''cleo'', m_player2Username := Some ''dan''\<rparr>)),
        ed_fetchProviderResult := Some (\<lambda>_. Inr (game_ex ''cleo'' ''DAN''))\<rparr>) None =
   buildEvidenceBundle id (\<lambda>_. []) (\<lambda>_. []) (\<lambda>_. None) ''g1'' deps_evidence_ex None"
proof -
  have v: "players_recorded (match_ex\<lparr>m_player1Username := Some ''cleo'', m_player2Username := Some ''dan''\<rparr>) (game_ex ''cleo'' ''DAN'') =
      players_recorded match_ex (game_ex ''Ann'' ''bob'')" by code_simp
  show ?thesis
    by (rule evidence_hides_usernames[of _ _ match_ex "\<lambda>_. Inr (game_ex ''Ann'' ''bob'')" "game_ex ''Ann'' ''bob''" _ _ _ _ "game_ex ''cleo'' ''DAN''", OF _ _ _ refl _ _ _ v])
      (simp_all add: deps_evidence_ex_def game_ex_def)
qed

lemma number_text_whole: "number_text numText (Fin (of_int i)) = int_text i" "number_text numText (Fin (of_nat n)) = int_text (int n)"
  by (simp_all add: number_text_def)

text \<open>A text without some letters holds none of the patterns.\<close>

lemma words_of_set: "w \<in> set (words_of s) \<Longrightarrow> set w \<subseteq> set s"
proof (induction s rule: words_of.induct)
  case (2 c s)
  have "set (takeWhile is_word s) \<subseteq> set s" "set (dropWhile is_word s) \<subseteq> set s"
    by (auto dest: set_takeWhileD set_dropWhileD)
  then show ?case using 2 by (fastforce split: if_splits)
qed simp

lemma anywhere_suffix: "anywhere p s \<Longrightarrow> \<exists>u v. s = u @ v \<and> p v"
proof (induction p s rule: anywhere.induct)
  case (2 p c s)
  show ?case
  proof (cases "p (c # s)")
    case False
    then obtain u v where "s = u @ v" "p v" using 2 by auto
    then show ?thesis by (metis append_Cons)
  qed (metis append_Nil)
qed simp

lemma taken_in: "take n v = t \<Longrightarrow> c \<in> set t \<Longrightarrow> s = u @ v \<Longrightarrow> c \<in> set s"
  by (auto dest: in_set_takeD)

lemma no_patterns:
  assumes "CHR ''S'' \<notin> set s" "CHR ''J'' \<notin> set s" "CHR ''_'' \<notin> set s" "CHR ''B'' \<notin> set s" "\<forall>name \<in> set SECRET_ENV_VARS. \<not> exposed env s name"
  shows "assertNoSecrets env s = None"
proof -
  have "\<not> has_seed s"
  proof
    assume "has_seed s"
    then obtain w where w: "w \<in> set (words_of s)" "seed_word w" by (auto simp: has_seed_def list_ex_iff)
    then have "w \<noteq> []" "hd w = CHR ''S''" by (auto simp: seed_word_def split: if_splits)
    then have "CHR ''S'' \<in> set w" using hd_in_set by metis
    then show False using words_of_set[OF w(1)] assms(1) by blast
  qed
  moreover have "\<not> has_token s"
  proof
    assume "has_token s"
    then obtain w where w: "w \<in> set (words_of s)" "token_word w" by (auto simp: has_token_def list_ex_iff)
    then have "take 4 w = ''lio_'' \<or> take 4 w = ''lip_''" by (auto simp: token_word_def split: if_splits)
    then have "CHR ''_'' \<in> set w" by (auto dest!: taken_in[of 4 w _ "CHR ''_''" w "[]"])
    then show False using words_of_set[OF w(1)] assms(3) by blast
  qed
  moreover have "\<not> anywhere long_jwt_here s"
  proof
    assume "anywhere long_jwt_here s"
    then obtain u v where v: "s = u @ v" "long_jwt_here v" using anywhere_suffix by blast
    then have "take 3 v = ''eyJ''" by (auto simp: long_jwt_here_def split: if_splits)
    then have "CHR ''J'' \<in> set s" by (rule taken_in[OF _ _ v(1)]) simp
    then show False using assms(2) by simp
  qed
  moreover have "\<not> anywhere pem_here s"
  proof
    assume "anywhere pem_here s"
    then obtain u v where v: "s = u @ v" "pem_here v" using anywhere_suffix by blast
    then have "take 11 v = ''-----BEGIN ''" by (auto simp: pem_here_def split: if_splits)
    then have "CHR ''B'' \<in> set s" by (rule taken_in[OF _ _ v(1)]) simp
    then show False using assms(4) by simp
  qed
  ultimately have "find (\<lambda>p. snd p s) SECRET_PATTERNS = None" unfolding find_None_iff by (auto simp: SECRET_PATTERNS_def)
  moreover have "find (exposed env s) SECRET_ENV_VARS = None" using assms(5) unfolding find_None_iff by blast
  ultimately show ?thesis by (simp add: assertNoSecrets_def)
qed

definition offline_ex :: evidence_deps where
  "offline_ex = deps_evidence_ex\<lparr>ed_fetchProviderResult := None\<rparr>"

definition bundle_ex :: json where
  "bundle_ex = JsonObj (evidence_body (\<lambda>_. []) offline_ex match_ex @ [(''digest'', JsonStr ''d'')])"

lemma nat_text_digit: "n < 10 \<Longrightarrow> nat_text n = [char_of (48 + n)]"
  by (subst nat_text.simps) simp

lemma bundle_ex_letters: "set (json_stringify (\<lambda>_. []) bundle_ex) \<inter> {CHR ''S'', CHR ''J'', CHR ''_'', CHR ''B'', CHR ''Z''} = {}"
  by (simp add: bundle_ex_def evidence_body_def provider_lookup_def providerGameUrl_def offline_ex_def deps_evidence_ex_def match_ex_def game_ex_def explorerUrls_def List.map_filter_def
      quote_text_def escape_char_def number_text_whole EVIDENCE_BUNDLE_VERSION_def int_text_def nat_text_digit players_recorded_def falsy_def result_text_def opt_text_def
      encodeURIComponent_def unreserved_def is_lower_def is_upper_def is_digit_char_def char_in_def js_lower_def lower_char_def Let_def number_text_def) code_simp

lemma includes_set: "js_includes s t \<Longrightarrow> set t \<subseteq> set s"
  by (auto simp: js_includes_iff)

lemma bundle_ex_built: "buildEvidenceBundle (\<lambda>_. ''d'') (\<lambda>_. []) (\<lambda>_. []) [''JWT_SECRET'' \<mapsto> ''topZecret''] ''g1'' offline_ex (Some 7) = Inr bundle_ex"
proof -
  have "assertNoSecrets [''JWT_SECRET'' \<mapsto> ''topZecret''] (json_stringify (\<lambda>_. []) bundle_ex) = None"
    using bundle_ex_letters by (intro no_patterns) (auto simp: exposed_def dest: includes_set)
  moreover have "ed_findMatch offline_ex ''g1'' = Some match_ex" "m_matchId match_ex = 7" by (simp_all add: offline_ex_def deps_evidence_ex_def match_ex_def)
  ultimately show ?thesis by (simp only: buildEvidenceBundle_def digestOf_def bundle_ex_def[symmetric] Let_def option.case simp_thms if_False option.inject option.distinct not_None_eq)
qed


text \<open>The scan reads the JSON text: a secret with a quotation mark is written with a backslash there and is not found.\<close>

definition quoted_secret :: string where "quoted_secret = ''pass'' @ char_of (34 :: nat) # ''word''"

lemma quoted_secret_passes:
  "assertNoSecrets [''JWT_SECRET'' \<mapsto> quoted_secret] (json_stringify (\<lambda>_. []) (JsonObj [(''failureReason'', JsonStr (''bad '' @ quoted_secret))])) = None"
  by code_simp

section \<open>Evidence files are never altered\<close>

definition sound_dir :: "(string \<Rightarrow> string) \<Rightarrow> (string \<rightharpoonup> string) \<Rightarrow> bool" where
  "sound_dir sha256 dir \<longleftrightarrow> (\<forall>i b. dir i = Some b \<longrightarrow> sha256 b = i)"

lemma persist_keeps: "dir i = Some b \<Longrightarrow> snd (persistEvidence sha256 body dir) i = Some b"
  by (auto simp: persistEvidence_def Let_def)

lemma persist_many_keeps: "dir i = Some b \<Longrightarrow> fold (\<lambda>body d. snd (persistEvidence sha256 body d)) bodies dir i = Some b"
  by (induction bodies arbitrary: dir) (simp_all add: persist_keeps)

text \<open>Evidence that was written is read back: in a directory whose files have their checksums as names, a body that was
  persisted is loaded as it was under the identifier returned, whatever is persisted later, as long as no other text
  has its checksum.\<close>
lemma evidence_file_roundtrip:
  assumes "sound_dir sha256 dir" "\<forall>b. sha256 b = sha256 body \<longrightarrow> b = body" "valid_evidence_id (sha256 body)"
    "parse body = Some e" "json_field ''version'' e = Some (JsonNum (Fin 1))"
    "json_truthy (json_field ''input'' e)" "json_truthy (json_field ''match'' e)" "json_truthy (json_field ''game'' e)"
    "persistEvidence sha256 body dir = (i, dir1)"
  shows "loadEvidence sha256 parse i (fold (\<lambda>b d. snd (persistEvidence sha256 b d)) later dir1) = Inr e"
proof -
  have i: "i = sha256 body" "dir1 = snd (persistEvidence sha256 body dir)" using assms(9) by (auto simp: persistEvidence_def Let_def)
  have "dir1 i = Some body"
  proof (cases "dir (sha256 body)")
    case (Some b)
    then have "b = body" using assms(1,2) by (auto simp: sound_dir_def)
    then show ?thesis using Some i by (simp add: persist_keeps)
  qed (simp add: i persistEvidence_def Let_def)
  then have "fold (\<lambda>b d. snd (persistEvidence sha256 b d)) later dir1 i = Some body" by (rule persist_many_keeps)
  then show ?thesis using assms(3-8) i(1) by (simp add: loadEvidence_def)
qed

definition evidence_ex :: json where
  "evidence_ex = JsonObj [(''version'', JsonNum (Fin 1)), (''input'', JsonObj []), (''match'', JsonObj []), (''game'', JsonObj [])]"

text \<open>A checksum that tells one body from all others.\<close>

definition checksum_ex :: "string \<Rightarrow> string" where
  "checksum_ex b = (if b = ''body'' then replicate 64 (CHR ''a'') else replicate 64 (CHR ''b''))"

lemma evidence_file_roundtrip_example:
  "loadEvidence checksum_ex (\<lambda>_. Some evidence_ex) (replicate 64 (CHR ''a'')) (fold (\<lambda>b d. snd (persistEvidence checksum_ex b d)) [''other''] (snd (persistEvidence checksum_ex ''body'' Map.empty))) = Inr evidence_ex"
proof -
  have "valid_evidence_id (replicate 64 (CHR ''a''))" by code_simp
  then show ?thesis
    by (intro evidence_file_roundtrip[of checksum_ex Map.empty "''body''"])
      (simp_all add: sound_dir_def checksum_ex_def evidence_ex_def json_truthy_def persistEvidence_def replicate_eq_replicate Let_def)
qed

lemma loaded_checked: "loadEvidence sha256 parse i dir = Inr e \<Longrightarrow> \<exists>body. dir i = Some body \<and> sha256 body = i \<and> parse body = Some e"
  by (auto simp: loadEvidence_def split: option.splits if_splits)

end
