(* ===== verification/ContractId.thy ===== *)
theory ContractId
  imports Prelude "HOL-Library.Word"
begin

text \<open>
  Contract identifiers and assets of the frontend (\<open>config/assets.ts\<close>). The decoder works on JavaScript's 32-bit
  integers, whose shifts and bitwise operations are those of \<open>32 word\<close>: \<open><<\<close> drops the bits above, and
  \<open>>>\<close> is the signed shift. The passphrases of the Stellar SDK and the build environment are parameters.
\<close>

unbundle bit_operations_syntax

section \<open>Decoding\<close>

definition ALPHABET :: string where "ALPHABET = ''ABCDEFGHIJKLMNOPQRSTUVWXYZ234567''"

fun index_of :: "char \<Rightarrow> string \<Rightarrow> nat option" where
  "index_of c [] = None"
| "index_of c (x # xs) = (if c = x then Some 0 else map_option Suc (index_of c xs))"

record decoder =
  dc_buffer :: "32 word"
  dc_bits :: nat
  dc_bytes :: "32 word list"

definition decode_digit :: "nat \<Rightarrow> decoder \<Rightarrow> decoder" where
  "decode_digit digit s =
    (let buffer = push_bit 5 (dc_buffer s) OR word_of_nat digit; bits = dc_bits s + 5 in
     if 8 \<le> bits
     then s\<lparr>dc_buffer := buffer, dc_bits := bits - 8, dc_bytes := dc_bytes s @ [signed_drop_bit (bits - 8) buffer AND 0xff]\<rparr>
     else s\<lparr>dc_buffer := buffer, dc_bits := bits\<rparr>)"

text \<open>The loop over the characters, \<open>None\<close> at a character outside the alphabet.\<close>

fun decode_loop :: "string \<Rightarrow> decoder \<Rightarrow> decoder option" where
  "decode_loop [] s = Some s"
| "decode_loop (c # cs) s = (case index_of c ALPHABET of None \<Rightarrow> None | Some digit \<Rightarrow> decode_loop cs (decode_digit digit s))"

section \<open>The checksum\<close>

definition crc_bit :: "32 word \<Rightarrow> 32 word" where
  "crc_bit checksum = (if checksum AND 0x8000 \<noteq> 0 then push_bit 1 checksum XOR 0x1021 else push_bit 1 checksum) AND 0xffff"

definition crc_byte :: "32 word \<Rightarrow> 32 word \<Rightarrow> 32 word" where
  "crc_byte byte checksum = (crc_bit ^^ 8) (checksum XOR push_bit 8 byte)"

definition crc16 :: "32 word list \<Rightarrow> 32 word" where
  "crc16 bytes = fold crc_byte bytes 0"

definition isValidContractId :: "string option \<Rightarrow> bool" where
  "isValidContractId v =
    (case v of
       None \<Rightarrow> False
     | Some text \<Rightarrow>
        if text = [] then False
        else (case decode_loop text \<lparr>dc_buffer = 0, dc_bits = 0, dc_bytes = []\<rparr> of
           None \<Rightarrow> False
         | Some s \<Rightarrow>
            (let bytes = dc_bytes s in
             if length bytes \<noteq> 35 \<or> bytes ! 0 \<noteq> 16 then False
             else (let checksum = crc16 (take 33 bytes) in
               bytes ! 33 = checksum AND 0xff \<and> bytes ! 34 = signed_drop_bit 8 checksum))))"

section \<open>Assets\<close>

record network_assets =
  na_passphrase :: string
  na_nativeContract :: string
  na_usdc :: "string option"

record asset_metadata =
  am_id :: string
  am_contractId :: string
  am_symbol :: string
  am_decimals :: nat

definition ASSET_NETWORKS :: "string \<Rightarrow> string \<Rightarrow> (string \<Rightarrow> string option) \<Rightarrow> network_assets list" where
  "ASSET_NETWORKS testnet public env =
    [\<lparr>na_passphrase = testnet, na_nativeContract = ''CDLZFC3SYJYDZT7K67VZ75HPJVIEUVNIXF47ZG2FB2RMQQVU2HHGCYSC'', na_usdc = env ''VITE_TESTNET_USDC_CONTRACT_ID''\<rparr>,
     \<lparr>na_passphrase = public, na_nativeContract = ''CAS3J7GYLGXMF6TDJBBYYSE3HQ6BBSMLNUQ34T6TZMYMW2EVH34XOWMA'', na_usdc = env ''VITE_MAINNET_USDC_CONTRACT_ID''\<rparr>]"

definition getNetworkAssets :: "network_assets list \<Rightarrow> string \<Rightarrow> asset_metadata list" where
  "getNetworkAssets networks networkPassphrase =
    (case find (\<lambda>n. na_passphrase n = networkPassphrase) networks of
       None \<Rightarrow> []
     | Some n \<Rightarrow>
        if \<not> isValidContractId (Some (na_nativeContract n)) then []
        else \<lparr>am_id = ''xlm'', am_contractId = na_nativeContract n, am_symbol = ''XLM'', am_decimals = 7\<rparr> #
          (if isValidContractId (na_usdc n) then [\<lparr>am_id = ''usdc'', am_contractId = the (na_usdc n), am_symbol = ''USDC'', am_decimals = 6\<rparr>] else []))"

section \<open>The decoder against numbers\<close>

text \<open>The text as a number in base 32, and the bytes of a number, the highest first.\<close>

definition base32_value :: "string \<Rightarrow> nat" where
  "base32_value text = foldl (\<lambda>n c. n * 32 + the (index_of c ALPHABET)) 0 text"

fun be_bytes :: "nat \<Rightarrow> nat \<Rightarrow> nat list" where
  "be_bytes 0 x = []"
| "be_bytes (Suc n) x = be_bytes n (x div 256) @ [x mod 256]"

definition decoder_inv :: "nat \<Rightarrow> nat \<Rightarrow> decoder \<Rightarrow> bool" where
  "decoder_inv k n s \<longleftrightarrow>
    dc_bits s = 5 * k mod 8 \<and> dc_buffer s = word_of_nat n \<and>
    dc_bytes s = map word_of_nat (be_bytes (5 * k div 8) (n div 2 ^ dc_bits s))"

lemma index_of_less: "index_of c xs = Some i \<Longrightarrow> i < length xs"
  by (induction xs arbitrary: i) (auto split: if_splits)

lemma index_of_None: "index_of c xs = None \<longleftrightarrow> c \<notin> set xs"
  by (induction xs) auto

lemma alphabet_less: "index_of c ALPHABET = Some i \<Longrightarrow> i < 32"
  using index_of_less[of c ALPHABET i] by (simp add: ALPHABET_def)

lemma push_or: "i < 32 \<Longrightarrow> push_bit 5 (word_of_nat n :: 32 word) OR word_of_nat i = word_of_nat (n * 32 + i)"
proof -
  assume i: "i < 32"
  have "push_bit 5 (word_of_nat n :: 32 word) AND word_of_nat i = 0"
  proof (rule bit_word_eqI)
    fix m :: nat assume "m < LENGTH(32)"
    have "\<not> bit i m" if "5 \<le> m"
    proof -
      have "i < 2 ^ m" using i power_increasing[OF that, of "2 :: nat"] by simp
      then show ?thesis by (simp add: bit_iff_odd)
    qed
    then show "bit (push_bit 5 (word_of_nat n) AND word_of_nat i :: 32 word) m = bit (0 :: 32 word) m"
      by (auto simp: bit_simps)
  qed
  then have "push_bit 5 (word_of_nat n :: 32 word) OR word_of_nat i = push_bit 5 (word_of_nat n) + word_of_nat i"
    by (simp add: disjunctive_add_eq_or)
  then show ?thesis by (simp add: push_bit_eq_mult mult.commute)
qed

lemma low_byte: "(w :: 32 word) AND 0xff = take_bit 8 w"
proof -
  have "(0xff :: 32 word) = mask 8" by (simp add: mask_eq_exp_minus_1)
  then show ?thesis by (simp only: take_bit_eq_mask)
qed

lemma taken_byte: "b \<le> 4 \<Longrightarrow> signed_drop_bit b (word_of_nat n :: 32 word) AND 0xff = word_of_nat (n div 2 ^ b mod 256)"
proof (rule bit_word_eqI)
  fix m :: nat assume b: "b \<le> 4" and m: "m < LENGTH(32)"
  have r: "n div 2 ^ b mod 256 = take_bit 8 (drop_bit b n)" by (simp add: take_bit_eq_mod drop_bit_eq_div)
  show "bit (signed_drop_bit b (word_of_nat n :: 32 word) AND 0xff) m = bit (word_of_nat (n div 2 ^ b mod 256) :: 32 word) m"
    unfolding low_byte r using b m by (auto simp: bit_simps)
qed

lemma digit_shift: "i < 32 \<Longrightarrow> (n * 32 + i) div 2 ^ (b + 5) = n div 2 ^ b" for n i b :: nat
proof -
  assume "i < 32"
  then have "(n * 32 + i) div 32 = n" by simp
  moreover have "(2 :: nat) ^ (b + 5) = 32 * 2 ^ b" by (simp add: power_add)
  ultimately show ?thesis by (simp add: div_mult2_eq)
qed

lemma five_more_wrap:
  "8 \<le> m mod 8 + 5 \<Longrightarrow> (5 + m) mod 8 = m mod 8 + 5 - 8 \<and> (5 + m) div 8 = Suc (m div 8)" for m :: nat
  by arith

lemma five_more: "\<not> 8 \<le> m mod 8 + 5 \<Longrightarrow> (5 + m) mod 8 = m mod 8 + 5 \<and> (5 + m) div 8 = m div 8" for m :: nat
  by arith

lemma decode_digit_inv:
  assumes "decoder_inv k n s" "i < 32"
  shows "decoder_inv (Suc k) (n * 32 + i) (decode_digit i s)"
proof -
  let ?b = "5 * k mod 8" and ?n = "n * 32 + i"
  have buf: "push_bit 5 (dc_buffer s) OR word_of_nat i = word_of_nat ?n"
    using assms push_or[of i n] by (simp add: decoder_inv_def)
  have shift: "?n div 2 ^ (?b + 5) = n div 2 ^ ?b" using assms(2) by (rule digit_shift)
  show ?thesis
  proof (cases "8 \<le> ?b + 5")
    case True
    define c where "c = ?b + 5 - 8"
    have c: "c \<le> 4" "5 * Suc k mod 8 = c" "5 * Suc k div 8 = Suc (5 * k div 8)" "c + 8 = ?b + 5"
      using five_more_wrap[OF True] True by (simp_all add: c_def)
    have "?n div 2 ^ c div 256 = ?n div 2 ^ (c + 8)" by (simp add: power_add div_mult2_eq)
    then have "?n div 2 ^ c div 256 = n div 2 ^ ?b" using shift c(4) by simp
    then show ?thesis
      using assms(1) True c buf taken_byte[OF c(1), of ?n]
      by (simp add: decoder_inv_def decode_digit_def Let_def c_def[symmetric])
  next
    case False
    then have "5 * Suc k mod 8 = ?b + 5" "5 * Suc k div 8 = 5 * k div 8" using five_more[of "5 * k"] by simp_all
    then show ?thesis
      using assms(1) False buf shift by (simp add: decoder_inv_def decode_digit_def Let_def)
  qed
qed

lemma decode_loop_inv:
  "decoder_inv k n s \<Longrightarrow>
   (\<exists>t. decode_loop cs s = Some t) = (set cs \<subseteq> set ALPHABET) \<and>
   (\<forall>t. decode_loop cs s = Some t \<longrightarrow> decoder_inv (k + length cs) (foldl (\<lambda>n c. n * 32 + the (index_of c ALPHABET)) n cs) t)"
proof (induction cs arbitrary: k n s)
  case Nil
  then show ?case by simp
next
  case (Cons c cs)
  show ?case
  proof (cases "index_of c ALPHABET")
    case None
    then have "c \<notin> set ALPHABET" by (simp add: index_of_None)
    then show ?thesis by (simp add: None)
  next
    case (Some i)
    then have "c \<in> set ALPHABET" using index_of_None[of c ALPHABET] by auto
    moreover have "decoder_inv (Suc k) (n * 32 + i) (decode_digit i s)"
      using Cons.prems decode_digit_inv alphabet_less[OF Some] by blast
    ultimately show ?thesis using Cons.IH[of "Suc k" "n * 32 + i" "decode_digit i s"] Some by simp
  qed
qed

lemma decode_start:
  "map_option dc_bytes (decode_loop cs \<lparr>dc_buffer = 0, dc_bits = 0, dc_bytes = []\<rparr>) =
    (if list_all (\<lambda>c. c \<in> set ALPHABET) cs
     then Some (map word_of_nat (be_bytes (5 * length cs div 8) (base32_value cs div 2 ^ (5 * length cs mod 8))))
     else None)"
proof -
  have "decoder_inv 0 0 \<lparr>dc_buffer = 0, dc_bits = 0, dc_bytes = []\<rparr>" by (simp add: decoder_inv_def)
  from decode_loop_inv[OF this, of cs] show ?thesis
    by (cases "decode_loop cs \<lparr>dc_buffer = 0, dc_bits = 0, dc_bytes = []\<rparr>")
      (auto simp: decoder_inv_def base32_value_def list_all_iff)
qed

section \<open>Identifiers\<close>

lemma decode_loop_append:
  "decode_loop (xs @ ys) s = (case decode_loop xs s of None \<Rightarrow> None | Some t \<Rightarrow> decode_loop ys t)"
  by (induction xs arbitrary: s) (auto split: option.splits)

lemma decode_loop_length:
  "decode_loop cs s = Some t \<Longrightarrow> dc_bits s + 5 * length cs + 8 * length (dc_bytes s) = dc_bits t + 8 * length (dc_bytes t)"
proof (induction cs arbitrary: s)
  case (Cons c cs)
  then obtain i where i: "index_of c ALPHABET = Some i" "decode_loop cs (decode_digit i s) = Some t"
    by (auto split: option.splits)
  from Cons.IH[OF i(2)] show ?case by (auto simp: decode_digit_def Let_def split: if_splits)
qed simp

section \<open>The shipped contracts\<close>

text \<open>The checksum on numbers below 65536, so that a concrete identifier is evaluated by the simplifier.\<close>

definition crc_nat_bit :: "nat \<Rightarrow> nat" where
  "crc_nat_bit n = (if n < 32768 then 2 * n else (2 * n - 65536) XOR 0x1021)"

definition crc_nat_byte :: "nat \<Rightarrow> nat \<Rightarrow> nat" where
  "crc_nat_byte b c = (crc_nat_bit ^^ 8) (c XOR (b * 256))"

fun crc_nat :: "nat list \<Rightarrow> nat \<Rightarrow> nat" where
  "crc_nat [] c = c"
| "crc_nat (b # bs) c = crc_nat bs (crc_nat_byte b c)"

lemma xor_less: "(a :: nat) < 65536 \<Longrightarrow> b < 65536 \<Longrightarrow> a XOR b < 65536"
proof -
  assume "a < 65536" "b < 65536"
  then have "take_bit 16 a = a" "take_bit 16 b = b" by (simp_all add: take_bit_nat_eq_self_iff)
  then have "take_bit 16 (a XOR b) = a XOR b" by (simp add: take_bit_xor)
  then show ?thesis using take_bit_nat_less_exp[of 16 "a XOR b"] by simp
qed

lemma crc_nat_bit_less: "n < 65536 \<Longrightarrow> crc_nat_bit n < 65536"
proof -
  assume n: "n < 65536"
  then have "(2 * n - 65536) XOR 0x1021 < 65536" by (intro xor_less) simp_all
  then show ?thesis by (simp add: crc_nat_bit_def)
qed

lemma low_half: "(w :: 32 word) AND 0xffff = take_bit 16 w"
proof -
  have "(0xffff :: 32 word) = mask 16" by (simp add: mask_eq_exp_minus_1)
  then show ?thesis by (simp only: take_bit_eq_mask)
qed

lemma high_bit: "n < 65536 \<Longrightarrow> (word_of_nat n :: 32 word) AND 0x8000 = 0 \<longleftrightarrow> n < 32768"
proof -
  assume n: "n < 65536"
  have "(0x8000 :: 32 word) = 2 ^ 15" by simp
  then have "(word_of_nat n :: 32 word) AND 0x8000 = 0 \<longleftrightarrow> \<not> bit (word_of_nat n :: 32 word) 15"
    by (simp only: and_exp_eq_0_iff_not_bit)
  also have "\<dots> \<longleftrightarrow> \<not> odd (n div 32768)" by (simp add: bit_simps) (simp add: bit_iff_odd)
  also have "\<dots> \<longleftrightarrow> n < 32768"
  proof (cases "n < 32768")
    case False
    then have "n div 32768 = 1" using n by simp
    then show ?thesis using False by simp
  qed simp
  finally show ?thesis .
qed

lemma crc_bit_of_nat:
  assumes "n < 65536"
  shows "crc_bit (word_of_nat n) = word_of_nat (crc_nat_bit n)"
proof -
  have push: "push_bit 1 (word_of_nat n :: 32 word) = word_of_nat (2 * n)" by (simp add: push_bit_eq_mult)
  have poly: "(0x1021 :: 32 word) = word_of_nat 0x1021" by simp
  have "crc_bit (word_of_nat n) = word_of_nat (take_bit 16 (if n < 32768 then 2 * n else (2 * n) XOR 0x1021))"
    unfolding crc_bit_def low_half push poly of_nat_xor_eq[symmetric] of_nat_take_bit high_bit[OF assms] by simp
  moreover have "take_bit 16 (if n < 32768 then 2 * n else (2 * n) XOR 0x1021) = crc_nat_bit n"
  proof (cases "n < 32768")
    case True
    then show ?thesis by (simp add: crc_nat_bit_def take_bit_nat_eq_self_iff)
  next
    case False
    have "take_bit 16 (2 * n) = 2 * n mod 65536" by (simp only: take_bit_eq_mod) simp
    also have "\<dots> = 2 * n - 65536" using False assms by (simp add: mod_if)
    finally have "take_bit 16 (2 * n XOR 0x1021) = (2 * n - 65536) XOR 0x1021" by (simp add: take_bit_xor)
    then show ?thesis using False by (simp add: crc_nat_bit_def)
  qed
  ultimately show ?thesis by simp
qed

lemma crc_bits_of_nat:
  "n < 65536 \<Longrightarrow> (crc_bit ^^ k) (word_of_nat n) = word_of_nat ((crc_nat_bit ^^ k) n) \<and> (crc_nat_bit ^^ k) n < 65536"
  by (induction k) (simp_all add: crc_bit_of_nat crc_nat_bit_less)

lemma crc_byte_of_nat:
  assumes "b < 256" "c < 65536"
  shows "crc_byte (word_of_nat b) (word_of_nat c) = word_of_nat (crc_nat_byte b c) \<and> crc_nat_byte b c < 65536"
proof -
  have "push_bit 8 (word_of_nat b :: 32 word) = word_of_nat (b * 256)" by (simp add: push_bit_eq_mult)
  then have "word_of_nat c XOR push_bit 8 (word_of_nat b) = (word_of_nat (c XOR (b * 256)) :: 32 word)" by (simp only: of_nat_xor_eq)
  moreover have "c XOR (b * 256) < 65536" using assms by (intro xor_less) simp_all
  ultimately show ?thesis using crc_bits_of_nat[of "c XOR (b * 256)" 8] by (simp only: crc_byte_def crc_nat_byte_def)
qed

lemma crc16_of_nat:
  assumes "list_all (\<lambda>b. b < 256) bs"
  shows "crc16 (map word_of_nat bs) = word_of_nat (crc_nat bs 0)"
proof -
  have "c < 65536 \<Longrightarrow> fold crc_byte (map word_of_nat bs) (word_of_nat c) = word_of_nat (crc_nat bs c)" for c
    using assms by (induction bs arbitrary: c) (simp_all add: crc_byte_of_nat)
  from this[of 0] show ?thesis by (simp add: crc16_def)
qed

definition native_testnet :: string where "native_testnet = ''CDLZFC3SYJYDZT7K67VZ75HPJVIEUVNIXF47ZG2FB2RMQQVU2HHGCYSC''"

definition native_mainnet :: string where "native_mainnet = ''CAS3J7GYLGXMF6TDJBBYYSE3HQ6BBSMLNUQ34T6TZMYMW2EVH34XOWMA''"

lemma native_testnet_value:
  "base32_value native_testnet = 127806971075007081661449385944925817274489716737364670989737190608644772880334283330"
  by (simp add: base32_value_def native_testnet_def ALPHABET_def)

lemma be_bytes_numeral: "be_bytes (numeral m) x = be_bytes (pred_numeral m) (x div 256) @ [x mod 256]"
  by (simp only: numeral_eq_Suc[of m] be_bytes.simps)

lemma crc_nat_byte_unfold:
  "crc_nat_byte b c = crc_nat_bit (crc_nat_bit (crc_nat_bit (crc_nat_bit
    (crc_nat_bit (crc_nat_bit (crc_nat_bit (crc_nat_bit (c XOR (b * 256)))))))))"
proof -
  have "(8 :: nat) = Suc (Suc (Suc (Suc (Suc (Suc (Suc (Suc 0)))))))" by simp
  then show ?thesis by (simp only: crc_nat_byte_def funpow.simps o_apply id_apply)
qed

lemma native_testnet_bytes:
  "be_bytes 35 127806971075007081661449385944925817274489716737364670989737190608644772880334283330 =
    [16, 215, 146, 139, 114, 194, 112, 60, 207, 234, 247, 235, 159, 244, 239, 77, 80, 74, 85, 168, 185, 121, 252, 155, 69, 14, 162, 200,
     66, 180, 209, 206, 97, 98, 66]"
  by (simp add: be_bytes_numeral)

lemma native_mainnet_value:
  "base32_value native_mainnet = 122534545374522418815128164986508286746445679964339449572762269800649564708165605760"
  by (simp add: base32_value_def native_mainnet_def ALPHABET_def)

lemma native_mainnet_bytes:
  "be_bytes 35 122534545374522418815128164986508286746445679964339449572762269800649564708165605760 =
    [16, 37, 180, 252, 216, 89, 174, 194, 250, 99, 72, 67, 140, 72, 155, 60, 60, 16, 201, 139, 109, 33, 190, 79, 211, 203, 48, 203, 104,
     149, 62, 249, 119, 89, 128]"
  by (simp add: be_bytes_numeral)

section \<open>Identifiers as numbers\<close>

lemma be_bytes_length [simp]: "length (be_bytes n x) = n"
  by (induction n x rule: be_bytes.induct) auto

lemma be_bytes_less: "b \<in> set (be_bytes n x) \<Longrightarrow> b < 256"
  by (induction n x rule: be_bytes.induct) auto

lemma base32_value_snoc: "base32_value (cs @ [c]) = base32_value cs * 32 + the (index_of c ALPHABET)"
  by (simp add: base32_value_def)

lemma crc_nat_less: "list_all (\<lambda>b. b < 256) bs \<Longrightarrow> c < 65536 \<Longrightarrow> crc_nat bs c < 65536"
  by (induction bs arbitrary: c) (simp_all add: crc_byte_of_nat)

lemma high_byte: "n < 65536 \<Longrightarrow> signed_drop_bit 8 (word_of_nat n :: 32 word) = word_of_nat (n div 256)"
proof (rule bit_word_eqI)
  fix m :: nat assume n: "n < 65536" and m: "m < LENGTH(32)"
  have "\<not> bit n 31" using n by (simp add: bit_iff_odd)
  moreover have "\<not> bit n (8 + m)" if "24 \<le> m"
  proof -
    have "n < 2 ^ (8 + m)" using n power_increasing[of 16 "8 + m" "2 :: nat"] that by simp
    then show ?thesis by (simp add: bit_iff_odd)
  qed
  moreover have "n div 256 = drop_bit 8 n" by (simp add: drop_bit_eq_div)
  ultimately show "bit (signed_drop_bit 8 (word_of_nat n :: 32 word)) m = bit (word_of_nat (n div 256) :: 32 word) m"
    using m by (auto simp: bit_simps)
qed

lemma small_eq: "x < 65536 \<Longrightarrow> y < 65536 \<Longrightarrow> (word_of_nat x :: 32 word) = word_of_nat y \<longleftrightarrow> x = y"
proof -
  assume a: "x < 65536" "y < 65536"
  have "take_bit 32 x = x" "take_bit 32 y = y" using a by (simp_all add: take_bit_nat_eq_self_iff)
  then show ?thesis by (simp add: word_of_nat_eq_iff)
qed

text \<open>The bytes of an accepted text: those of its first 56 characters.\<close>

lemma whole_bytes:
  assumes "list_all (\<lambda>c. c \<in> set ALPHABET) cs" "5 * length cs div 8 = 35"
  shows "base32_value cs div 2 ^ (5 * length cs mod 8) = base32_value (take 56 cs) \<and> length cs \<in> {56, 57}"
proof -
  have "length cs = 56 \<or> length cs = 57" using assms(2) by presburger
  then show ?thesis
  proof
    assume l: "length cs = 57"
    then have "take 57 cs = take 56 cs @ [cs ! 56]" using take_Suc_conv_app_nth[of 56 cs] by simp
    then have e: "cs = take 56 cs @ [cs ! 56]" using l by simp
    have "cs ! 56 \<in> set ALPHABET" using assms(1) l by (simp add: list_all_length)
    then obtain i where i: "index_of (cs ! 56) ALPHABET = Some i" using index_of_None[of "cs ! 56" ALPHABET] by auto
    have "base32_value cs = base32_value (take 56 cs) * 32 + i" by (subst e) (simp add: base32_value_snoc i)
    then show ?thesis using l alphabet_less[OF i] by simp
  qed simp
qed

text \<open>The checks on bytes, as checks on numbers.\<close>

lemma checked_bytes:
  assumes "length bs = 35" "\<And>b. b \<in> set bs \<Longrightarrow> b < 256"
  shows "(let bytes = map word_of_nat bs :: 32 word list in
      if length bytes \<noteq> 35 \<or> bytes ! 0 \<noteq> 16 then False
      else (let checksum = crc16 (take 33 bytes) in
        bytes ! 33 = checksum AND 0xff \<and> bytes ! 34 = signed_drop_bit 8 checksum)) =
    (bs ! 0 = 16 \<and> crc_nat (take 33 bs) 0 = bs ! 34 * 256 + bs ! 33)"
proof -
  have small: "bs ! k < 256" if "k < 35" for k using assms that by simp
  define c where "c = crc_nat (take 33 bs) 0"
  have all: "list_all (\<lambda>b. b < 256) (take 33 bs)" using assms(2) by (auto simp: list_all_iff dest: in_set_takeD)
  have c: "c < 65536" "crc16 (take 33 (map word_of_nat bs)) = word_of_nat c"
    using crc16_of_nat[OF all] crc_nat_less[OF all, of 0] by (simp_all add: c_def take_map)
  have first: "(word_of_nat (bs ! 0) :: 32 word) = 16 \<longleftrightarrow> bs ! 0 = 16"
    using small_eq[of "bs ! 0" 16] small[of 0] by simp
  have low: "(word_of_nat (bs ! 33) :: 32 word) = word_of_nat c AND 0xff \<longleftrightarrow> bs ! 33 = c mod 256"
    using small[of 33] c(1) taken_byte[of 0 c] small_eq[of "bs ! 33" "c mod 256"] by simp
  have high: "(word_of_nat (bs ! 34) :: 32 word) = signed_drop_bit 8 (word_of_nat c) \<longleftrightarrow> bs ! 34 = c div 256"
    using small[of 34] c(1) high_byte[OF c(1)] small_eq[of "bs ! 34" "c div 256"] by (simp add: div_less_iff_less_mult)
  have "c = bs ! 34 * 256 + bs ! 33 \<longleftrightarrow> bs ! 33 = c mod 256 \<and> bs ! 34 = c div 256"
    using small[of 33] by auto
  then show ?thesis
    using assms(1) c(2) by (simp add: Let_def first low high) (simp add: c_def)
qed

lemma valid_bytes:
  assumes "list_all (\<lambda>c. c \<in> set ALPHABET) cs" "5 * length cs div 8 = 35"
  shows "isValidContractId (Some cs) =
    (let bs = be_bytes 35 (base32_value (take 56 cs))
     in bs ! 0 = 16 \<and> crc_nat (take 33 bs) 0 = bs ! 34 * 256 + bs ! 33)"
proof -
  define bs where "bs = be_bytes 35 (base32_value (take 56 cs))"
  obtain s where s: "decode_loop cs \<lparr>dc_buffer = 0, dc_bits = 0, dc_bytes = []\<rparr> = Some s"
    "dc_bytes s = map word_of_nat (be_bytes (5 * length cs div 8) (base32_value cs div 2 ^ (5 * length cs mod 8)))"
    using decode_start[of cs] assms(1) by auto
  have b: "length bs = 35" "\<And>b. b \<in> set bs \<Longrightarrow> b < 256" by (auto simp: bs_def be_bytes_less)
  have "dc_bytes s = map word_of_nat bs" using s(2) whole_bytes[OF assms] assms(2) by (simp add: bs_def)
  then show ?thesis using checked_bytes[OF b] s(1) whole_bytes[OF assms]
    by (auto simp: isValidContractId_def bs_def)
qed

text \<open>C37. What a valid identifier is, in numbers: a text of 56 characters of the alphabet whose 35 bytes, read from the
  highest, begin with the version byte of a contract and end with the checksum of the first 33, the lower byte first.
  A 57th character is accepted whatever it is: its five bits fill no byte and nothing looks at them.
\<close>

theorem contract_id_exact:
  "isValidContractId (Some cs) =
    (length cs \<in> {56, 57} \<and> list_all (\<lambda>c. c \<in> set ALPHABET) cs \<and>
     (let bs = be_bytes 35 (base32_value (take 56 cs))
      in bs ! 0 = 16 \<and> crc_nat (take 33 bs) 0 = bs ! 34 * 256 + bs ! 33))"
proof (cases "list_all (\<lambda>c. c \<in> set ALPHABET) cs")
  case False
  then have "decode_loop cs \<lparr>dc_buffer = 0, dc_bits = 0, dc_bytes = []\<rparr> = None" using decode_start[of cs] by simp
  then show ?thesis using False by (simp add: isValidContractId_def)
next
  case True
  show ?thesis
  proof (cases "5 * length cs div 8 = 35")
    case False
    then show ?thesis using decode_start[of cs] True by (auto simp: isValidContractId_def)
  next
    case len: True
    show ?thesis using valid_bytes[OF True len] whole_bytes[OF True len] True by auto
  qed
qed

lemma native_testnet_valid: "isValidContractId (Some native_testnet)"
proof -
  have "length native_testnet = 56" "list_all (\<lambda>c. c \<in> set ALPHABET) native_testnet"
    by (simp_all add: native_testnet_def ALPHABET_def)
  then show ?thesis
    by (simp add: valid_bytes native_testnet_value native_testnet_bytes crc_nat_byte_unfold crc_nat_bit_def)
qed

lemma native_mainnet_valid: "isValidContractId (Some native_mainnet)"
proof -
  have "length native_mainnet = 56" "list_all (\<lambda>c. c \<in> set ALPHABET) native_mainnet"
    by (simp_all add: native_mainnet_def ALPHABET_def)
  then show ?thesis
    by (simp add: valid_bytes native_mainnet_value native_mainnet_bytes crc_nat_byte_unfold crc_nat_bit_def)
qed

text \<open>
  An identifier is not decided by its own text alone: every accepted text of 56 characters stays accepted when any
  one character of the alphabet is written after it, since the five bits left over fill no byte and nothing looks at
  the length of the text or at the bits that remain.
\<close>

lemma trailing_character_accepted:
  assumes "isValidContractId (Some cs)" "length cs = 56" "c \<in> set ALPHABET"
  shows "isValidContractId (Some (cs @ [c]))"
proof -
  obtain s where s: "decode_loop cs \<lparr>dc_buffer = 0, dc_bits = 0, dc_bytes = []\<rparr> = Some s" "length (dc_bytes s) = 35"
    using assms(1) by (auto simp: isValidContractId_def Let_def split: option.splits if_splits)
  have "dc_bits s = 0" using decode_loop_length[OF s(1)] s(2) assms(2) by simp
  moreover obtain i where "index_of c ALPHABET = Some i" using assms(3) index_of_None[of c ALPHABET] by auto
  ultimately obtain t where "decode_loop (cs @ [c]) \<lparr>dc_buffer = 0, dc_bits = 0, dc_bytes = []\<rparr> = Some t" "dc_bytes t = dc_bytes s"
    using s(1) by (simp add: decode_loop_append decode_digit_def)
  then show ?thesis using assms(1) s(1) by (simp add: isValidContractId_def Let_def split: if_splits)
qed

lemma native_with_a_letter:
  "isValidContractId (Some (native_testnet @ ''A''))"
proof -
  have "length native_testnet = 56" "CHR ''A'' \<in> set ALPHABET" by (simp_all add: native_testnet_def ALPHABET_def)
  then show ?thesis by (rule trailing_character_accepted[OF native_testnet_valid])
qed

text \<open>With its native contract valid, a network always offers XLM first, and USDC exactly when its identifier is valid.\<close>

lemma network_assets_offered:
  assumes "find (\<lambda>n. na_passphrase n = p) networks = Some n" "isValidContractId (Some (na_nativeContract n))"
  shows "map am_symbol (getNetworkAssets networks p) = ''XLM'' # (if isValidContractId (na_usdc n) then [''USDC''] else [])"
  using assms by (simp add: getNetworkAssets_def)

lemma offered_valid: "a \<in> set (getNetworkAssets networks p) \<Longrightarrow> isValidContractId (Some (am_contractId a))"
proof -
  have "isValidContractId v \<Longrightarrow> v = Some (the v)" for v by (cases v) (simp_all add: isValidContractId_def)
  then show "a \<in> set (getNetworkAssets networks p) \<Longrightarrow> isValidContractId (Some (am_contractId a))"
    by (auto simp: getNetworkAssets_def split: option.splits if_splits)
qed

lemma shipped_networks_offer_xlm:
  "pub \<noteq> test \<Longrightarrow> map am_symbol (take 1 (getNetworkAssets (ASSET_NETWORKS test pub env) pub)) = [''XLM'']"
  using native_mainnet_valid by (simp add: getNetworkAssets_def ASSET_NETWORKS_def native_mainnet_def)

end
