(* ===== verification/Logging.thy ===== *)
theory Logging
  imports Json
begin

text \<open>
  What the backend logs: the sink with its approved events and fields (\<open>logger.ts\<close>, \<open>log-events.ts\<close>) and the line per
  request (\<open>middleware/request-logging.ts\<close>). A line is the list of its members in their order, before
  \<open>JSON.stringify\<close>.
\<close>

section \<open>The sink\<close>

text \<open>What callers pass: JSON values, and values of other kinds (errors, functions, \<open>undefined\<close>) with the text they carry.\<close>

datatype log_value = LvJson json | LvOther string

type_synonym log_context = "(string \<times> log_value) list"

definition LOG_EVENTS :: "string list" where
  "LOG_EVENTS = [
     ''Chess.com API archive fetch failed'',
     ''Circuit breaker initialized'',
     ''Failed to start server'',
     ''Lichess API request failed'',
     ''Lichess ELO lookup failed; falling back'',
     ''Lichess user has no rated games; using fallback rating'',
     ''Match store initialized'',
     ''Queue store initialized'',
     ''circuit_breaker: RPC circuit opened, pausing job processing'',
     ''circuit_breaker: failed to persist state'',
     ''circuit_breaker: job processing paused'',
     ''circuit_breaker: no persisted state found, starting CLOSED'',
     ''circuit_breaker: restored persisted state on startup'',
     ''circuit_breaker: state changed'',
     ''game_completed'',
     ''game_not_found'',
     ''game_poll_api_error'',
     ''game_poll_rate_limited_will_retry'',
     ''game_still_in_progress'',
     ''http_request'',
     ''http_server_listening'',
     ''oracle_dlq: QUEUE_STORE=memory is not safe in production (DLQ entries are lost on restart); auto-falling back to sqlite. See docs/oracle.md#queue-store-persistence.'',
     ''oracle_dlq: QUEUE_STORE=mongodb requested but the mongoose dependency is not installed; falling back to sqlite'',
     ''oracle_dlq: TTL eviction run complete'',
     ''oracle_dlq: TTL eviction run failed'',
     ''oracle_dlq: entry resolved'',
     ''oracle_dlq: entry written'',
     ''oracle_dlq: invalid DLQ_TTL_DAYS, falling back to default of 7 days'',
     ''oracle_dlq: queue store initialized'',
     ''oracle_dlq: retry failed'',
     ''oracle_dlq: retry worker error'',
     ''oracle_dlq: retry worker running'',
     ''oracle_dlq: retrying oracle submission'',
     ''oracle_dlq: submission failed, entry will remain in DLQ'',
     ''oracle_dlq: using in-memory queue store -- DLQ entries will NOT survive a process restart. Not recommended outside local development; see docs/oracle.md#queue-store-persistence.'',
     ''oracle_dlq_depth'',
     ''oracle_match_not_found'',
     ''oracle_match_not_found_empty_store'',
     ''oracle_pending_submissions_loaded'',
     ''oracle_submit: DLQ entry resolved'',
     ''oracle_submit: DLQ retry failed'',
     ''oracle_submit: exhausted retries, written to DLQ'',
     ''oracle_submit: existence check failed, proceeding with submission'',
     ''oracle_submit: result already exists on-chain, skipping'',
     ''oracle_submit: success after retries'',
     ''oracle_submit: transient failure, will retry'',
     ''polling_job_completed'',
     ''polling_job_created'',
     ''polling_job_error'',
     ''polling_job_failed_will_retry'',
     ''polling_job_game_completed'',
     ''polling_job_game_completed_submitting_to_oracle'',
     ''polling_job_game_in_progress_re_enqueuing'',
     ''polling_job_ledger_fetch_failed'',
     ''polling_job_max_attempts_exceeded_moving_to_dlq'',
     ''polling_job_max_attempts_exceeded_writing_to_dlq'',
     ''polling_job_on_game_completed_callback_failed'',
     ''polling_job_on_max_attempts_callback_failed'',
     ''polling_job_requeue_failed'',
     ''polling_job_timed_out_moving_to_dlq'',
     ''polling_worker_cycle_error'',
     ''polling_worker_polling_all_jobs'',
     ''polling_worker_started'',
     ''polling_worker_stopped'',
     ''rate_limit: RATE_LIMIT_STORE=redis requested but no Redis client is installed; falling back to sqlite'',
     ''rate_limit: store initialized'',
     ''rate_limit_backend_error_failing_open'',
     ''sqlite_operation_retrying'']"

definition NUMERIC_FIELDS :: "string list" where
  "NUMERIC_FIELDS = [''status'', ''duration_ms'', ''count'', ''store_count'', ''attempt'', ''attempts'', ''max_retries'', ''retry_delay_ms'',
     ''nextRetryDelayMs'', ''totalAttempts'', ''port'', ''value'', ''remaining'', ''cooldown'', ''failureCount'', ''durationMs'']"

definition ENUM_FIELDS :: "(string \<times> string list) list" where
  "ENUM_FIELDS =
    [(''method'', [''GET'', ''POST'', ''PUT'', ''PATCH'', ''DELETE'', ''OPTIONS'', ''HEAD'']),
     (''platform'', [''lichess'', ''chessdotcom'']),
     (''state'', [''CLOSED'', ''OPEN'', ''HALF_OPEN'']),
     (''store'', [''sqlite'', ''memory'', ''mongodb'']),
     (''sqlite_error_code'', [''SQLITE_BUSY'', ''SQLITE_LOCKED'']),
     (''metric'', [''oracle_dlq_depth''])]"

definition log_field_known :: "string \<Rightarrow> bool" where
  "log_field_known key \<longleftrightarrow> key \<in> set NUMERIC_FIELDS \<or> key \<in> fst ` set ENUM_FIELDS"

definition log_field_value :: "string \<Rightarrow> log_value \<Rightarrow> json" where
  "log_field_value key value =
    (case value of
       LvJson (JsonNum n) \<Rightarrow> if key \<in> set NUMERIC_FIELDS \<and> js_finite n then JsonNum n else JsonStr ''[REDACTED]''
     | LvJson (JsonStr s) \<Rightarrow>
        (case map_of ENUM_FIELDS key of
           Some vs \<Rightarrow> if s \<in> set vs then JsonStr s else JsonStr ''[REDACTED]''
         | None \<Rightarrow> JsonStr ''[REDACTED]'')
     | _ \<Rightarrow> JsonStr ''[REDACTED]'')"

definition safeLogContext :: "log_context \<Rightarrow> (string \<times> json) list" where
  "safeLogContext context = map (\<lambda>(key, value). (key, log_field_value key value)) (filter (\<lambda>(key, _). log_field_known key) context)"

datatype log_level = LogDebug | LogInfo | LogWarn | LogError

fun LEVEL_ORDER :: "log_level \<Rightarrow> nat" where
  "LEVEL_ORDER LogDebug = 0"
| "LEVEL_ORDER LogInfo = 1"
| "LEVEL_ORDER LogWarn = 2"
| "LEVEL_ORDER LogError = 3"

fun log_level_name :: "log_level \<Rightarrow> string" where
  "log_level_name LogDebug = ''debug''"
| "log_level_name LogInfo = ''info''"
| "log_level_name LogWarn = ''warn''"
| "log_level_name LogError = ''error''"

type_synonym log_env = "string \<Rightarrow> string option"

definition configuredLevel :: "log_env \<Rightarrow> log_level" where
  "configuredLevel env =
    (let raw = js_lower (case env ''LOG_LEVEL'' of None \<Rightarrow> [] | Some v \<Rightarrow> v) in
     if raw = ''debug'' then LogDebug else if raw = ''info'' then LogInfo
     else if raw = ''warn'' then LogWarn else if raw = ''error'' then LogError
     else if env ''NODE_ENV'' = Some ''production'' then LogInfo else LogDebug)"

definition isLevelEnabled :: "log_env \<Rightarrow> log_level \<Rightarrow> bool" where
  "isLevelEnabled env level \<longleftrightarrow> LEVEL_ORDER (configuredLevel env) \<le> LEVEL_ORDER level"

type_synonym log_line = "(string \<times> json) list"

text \<open>The lines written: none below the configured level.\<close>

definition log_write :: "log_env \<Rightarrow> string \<Rightarrow> log_level \<Rightarrow> log_context \<Rightarrow> string \<Rightarrow> log_line list" where
  "log_write env timestamp level context message =
    (if \<not> isLevelEnabled env level then []
     else [[(''timestamp'', JsonStr timestamp), (''level'', JsonStr (log_level_name level)),
            (''service'', JsonStr ''smile4money-backend''),
            (''message'', JsonStr (if message \<in> set LOG_EVENTS then message else ''log_event''))] @ safeLogContext context])"

text \<open>The four operations of the logger differ in the level only; the context can be left out.\<close>

datatype log_argument = LogText string | LogContext log_context "string option"

definition log_call :: "log_env \<Rightarrow> string \<Rightarrow> log_level \<Rightarrow> log_argument \<Rightarrow> log_line list" where
  "log_call env timestamp level arg =
    (case arg of
       LogText message \<Rightarrow> log_write env timestamp level [] message
     | LogContext context message \<Rightarrow> log_write env timestamp level context (case message of None \<Rightarrow> [] | Some m \<Rightarrow> m))"

section \<open>The request log\<close>

definition SENSITIVE_FIELDS :: "string list" where
  "SENSITIVE_FIELDS = [''player1'', ''player2'', ''address'', ''walletaddress'', ''stellaraddress'', ''username'', ''password'', ''secret'',
     ''apikey'', ''privatekey'', ''signedtxxdr'']"

definition REDACTED :: string where "REDACTED = ''[REDACTED]''"

text \<open>
  Writing the member \<open>__proto__\<close> of the copy sets its prototype, so the copy has no member of that name.
\<close>

definition redactSensitiveFields :: "json \<Rightarrow> json" where
  "redactSensitiveFields body =
    (case body of
       JsonObj ms \<Rightarrow> JsonObj (map (\<lambda>(key, value). (key, if js_lower key \<in> set SENSITIVE_FIELDS then JsonStr REDACTED else value))
         (filter (\<lambda>(key, _). key \<noteq> ''__proto__'') ms))
     | _ \<Rightarrow> body)"

record http_seen =
  hs_method :: string
  hs_path :: string
  hs_body :: json

text \<open>\<open>req.body && Object.keys(req.body).length > 0\<close>; the body parser leaves objects and arrays only.\<close>

definition body_has_keys :: "json \<Rightarrow> bool" where
  "body_has_keys body = (case body of JsonObj ms \<Rightarrow> ms \<noteq> [] | JsonArr xs \<Rightarrow> xs \<noteq> [] | JsonStr s \<Rightarrow> s \<noteq> [] | _ \<Rightarrow> False)"

definition requestLogging :: "log_env \<Rightarrow> string \<Rightarrow> http_seen \<Rightarrow> int \<Rightarrow> int \<Rightarrow> int \<Rightarrow> log_line list" where
  "requestLogging env timestamp req startedAt status now =
    (let durationMs = now - startedAt in
     log_call env timestamp LogInfo (LogContext
       [(''method'', LvJson (JsonStr (hs_method req))), (''path'', LvJson (JsonStr (hs_path req))),
        (''status'', LvJson (JsonNum (Fin (of_int status)))), (''duration_ms'', LvJson (JsonNum (Fin (of_int durationMs))))]
       (Some ''http_request'')) @
     (if isLevelEnabled env LogDebug \<and> body_has_keys (hs_body req)
      then log_call env timestamp LogDebug (LogContext
        [(''method'', LvJson (JsonStr (hs_method req))), (''path'', LvJson (JsonStr (hs_path req))),
         (''body'', LvJson (redactSensitiveFields (hs_body req)))]
        (Some ''http_request_body''))
      else []))"

section \<open>The texts of a line\<close>

text \<open>The texts that can stand in a member of a line, by its name; the time is the clock's.\<close>

definition approved_texts :: "string \<Rightarrow> string list" where
  "approved_texts key =
    (if key = ''level'' then map log_level_name [LogDebug, LogInfo, LogWarn, LogError]
     else if key = ''service'' then [''smile4money-backend'']
     else if key = ''message'' then ''log_event'' # LOG_EVENTS
     else ''[REDACTED]'' # (case map_of ENUM_FIELDS key of None \<Rightarrow> [] | Some vs \<Rightarrow> vs))"

definition approved_member :: "string \<Rightarrow> string \<times> json \<Rightarrow> bool" where
  "approved_member timestamp m =
    (case m of (key, v) \<Rightarrow>
       (key \<in> {''timestamp'', ''level'', ''service'', ''message''} \<or> log_field_known key) \<and>
       (case v of
          JsonStr s \<Rightarrow> if key = ''timestamp'' then s = timestamp else s \<in> set (approved_texts key)
        | JsonNum n \<Rightarrow> js_finite n \<and> key \<in> set NUMERIC_FIELDS
        | _ \<Rightarrow> False))"

lemma field_names: "log_field_known key \<Longrightarrow> key \<notin> {''timestamp'', ''level'', ''service'', ''message''}"
  by (auto simp: log_field_known_def NUMERIC_FIELDS_def ENUM_FIELDS_def)

lemma field_value_approved: "log_field_known key \<Longrightarrow> approved_member ts (key, log_field_value key v)"
  using field_names[of key]
  by (auto simp: approved_member_def log_field_value_def approved_texts_def split: log_value.split json.split option.split)

lemma level_approved: "approved_member ts (''level'', JsonStr (log_level_name level))"
  by (cases level) (simp_all add: approved_member_def approved_texts_def)

text \<open>C38. Whatever a caller passes, a line holds no text of its own: every member is the time, one of the fixed texts
  of its name (an approved event, a level, an enumerated value, the mark of a redaction) or a finite number of a
  numeric field.\<close>

theorem log_line_fixed:
  "list_all (list_all (approved_member timestamp)) (log_call env timestamp level arg)"
proof -
  have "list_all (approved_member timestamp) (safeLogContext ctx)" for ctx
    by (auto simp: safeLogContext_def list_all_iff field_value_approved)
  moreover have "approved_member timestamp (''message'', JsonStr (if m \<in> set LOG_EVENTS then m else ''log_event''))" for m
    by (simp add: approved_member_def approved_texts_def)
  ultimately have "list_all (list_all (approved_member timestamp)) (log_write env timestamp level ctx m)" for ctx m
    using level_approved[of timestamp level]
    by (simp add: log_write_def) (simp add: approved_member_def approved_texts_def)
  then show ?thesis by (simp add: log_call_def split: log_argument.split)
qed

section \<open>Requests\<close>

lemma path_dropped: "safeLogContext ((''path'', v) # c) = safeLogContext c"
  by (simp add: safeLogContext_def log_field_known_def NUMERIC_FIELDS_def ENUM_FIELDS_def)

lemma body_dropped: "safeLogContext ((''body'', v) # c) = safeLogContext c"
  by (simp add: safeLogContext_def log_field_known_def NUMERIC_FIELDS_def ENUM_FIELDS_def)

lemma safe_cons: "safeLogContext (x # c) = safeLogContext [x] @ safeLogContext c"
  by (simp add: safeLogContext_def)

text \<open>
  The path and the body of a request leave no trace in the log, at any level: the sink drops both members, although
  the middleware documents that it logs the path and, in debugging, the redacted body.
\<close>

lemma request_leaves_no_trace:
  assumes "hs_method r = hs_method r'" "body_has_keys (hs_body r) = body_has_keys (hs_body r')"
  shows "requestLogging env ts r t0 status t = requestLogging env ts r' t0 status t"
proof -
  have "safeLogContext (m # (''path'', v) # c) = safeLogContext (m # (''path'', v') # c)" for m c and v v' :: log_value
    by (subst (1 2) safe_cons) (simp add: path_dropped)
  moreover have "safeLogContext [m, (''path'', v), (''body'', b)] = safeLogContext [m]" for m v b
    by (subst safe_cons) (simp add: path_dropped body_dropped, simp add: safeLogContext_def)
  ultimately show ?thesis
    using assms by (simp add: requestLogging_def log_call_def log_write_def Let_def cong: if_cong)
qed

text \<open>In production one line per request, whatever its body.\<close>

lemma production_one_line:
  assumes "env ''LOG_LEVEL'' = None" "env ''NODE_ENV'' = Some ''production''"
  shows "length (requestLogging env ts r t0 status t) = 1"
  using assms by (simp add: requestLogging_def log_call_def log_write_def isLevelEnabled_def configuredLevel_def js_lower_def)

lemma redact_idempotent: "redactSensitiveFields (redactSensitiveFields b) = redactSensitiveFields b"
  by (cases b) (auto simp: redactSensitiveFields_def filter_map comp_def split_def intro!: map_cong)

lemma redact_hides:
  assumes "redactSensitiveFields b = JsonObj ms" "(key, v) \<in> set ms" "js_lower key \<in> set SENSITIVE_FIELDS"
  shows "v = JsonStr REDACTED"
  using assms by (cases b) (auto simp: redactSensitiveFields_def)

text \<open>The event of the debugging line is not an approved one.\<close>

lemma body_event_unapproved: "''http_request_body'' \<notin> set LOG_EVENTS"
  by (simp add: LOG_EVENTS_def)

end
