(* ===== verification/HttpApi.thy ===== *)
theory HttpApi
  imports Services Review Json
begin

text \<open>
  The HTTP surface of the backend: authentication with its answers (\<open>middleware/auth.ts\<close>), the routes of matches
  (\<open>routes/matches.ts\<close>), of results (\<open>routes/oracle.ts\<close>) and of identities (\<open>routes/player-identity.ts\<close>), the origins
  and the error fallback of \<open>app.ts\<close>, and the signer of the oracle (\<open>services/oracle-signer.ts\<close>). The routes compose
  the services of \<open>Services\<close> and \<open>PlayerIdentity\<close> with the errors of \<open>Errors\<close>. The verification of a token, the key
  pairs and the contract's storage are parameters.
\<close>

section \<open>Answers\<close>

text \<open>The bodies the routes answer with; \<open>BodyEnvelope\<close> says whether the hint of a lost store is given.\<close>

datatype http_body =
    BodyEnvelope error_code string bool
  | BodyError string "string option"
  | BodyMatch match_record
  | BodyVerified verified_result
  | BodyChallenge challenge
  | BodyLinked
  | BodyEmpty

type_synonym http_answer = "nat \<times> http_body"

section \<open>Authentication\<close>

text \<open>What \<open>jwt.verify\<close> does: it throws one of its errors or gives the payload's \<open>address\<close>.\<close>

datatype token_check = TokenExpired | TokenRejected | TokenFailed | TokenAddress js_val

definition http_authenticate :: "(string \<Rightarrow> token_check) \<Rightarrow> string option \<Rightarrow> http_answer + string" where
  "http_authenticate jwt header =
    (case header of
       None \<Rightarrow> Inl (401, BodyEnvelope UNAUTHORIZED ''Missing or invalid Authorization header'' False)
     | Some auth \<Rightarrow>
        if take 7 auth \<noteq> ''Bearer ''
        then Inl (401, BodyEnvelope UNAUTHORIZED ''Missing or invalid Authorization header'' False)
        else (case jwt (drop 7 auth) of
            TokenAddress (JStr address) \<Rightarrow> Inr address
          | TokenAddress _ \<Rightarrow> Inl (401, BodyEnvelope UNAUTHORIZED ''Invalid token payload'' False)
          | TokenExpired \<Rightarrow> Inl (401, BodyEnvelope UNAUTHORIZED ''Token has expired'' False)
          | TokenRejected \<Rightarrow> Inl (401, BodyEnvelope UNAUTHORIZED ''Invalid token'' False)
          | TokenFailed \<Rightarrow> Inl (401, BodyEnvelope UNAUTHORIZED ''Authentication failed'' False)))"

text \<open>The secret the module loads with, \<open>None\<close> when it refuses to load.\<close>

definition DEFAULT_SECRET :: string where "DEFAULT_SECRET = ''test-secret''"

definition jwt_secret :: "string option \<Rightarrow> string option \<Rightarrow> string option" where
  "jwt_secret nodeEnv configured =
    (let secret = (if falsy configured then DEFAULT_SECRET else the configured) in
     if nodeEnv = Some ''production'' \<and> secret = DEFAULT_SECRET then None else Some secret)"

section \<open>Bodies of requests\<close>

text \<open>The body is a JSON value; the parser leaves objects and arrays, and no body is an empty object.\<close>

definition js_of_json :: "json option \<Rightarrow> js_val" where
  "js_of_json v = (case v of None \<Rightarrow> JUndef | Some JsonNull \<Rightarrow> JNull | Some (JsonNum n) \<Rightarrow> JNum n | Some (JsonStr s) \<Rightarrow> JStr s | Some _ \<Rightarrow> JOther)"

definition body_is_object :: "json \<Rightarrow> bool" where
  "body_is_object payload = (case payload of JsonObj _ \<Rightarrow> True | JsonArr _ \<Rightarrow> True | _ \<Rightarrow> False)"

definition body_val :: "json \<Rightarrow> string \<Rightarrow> js_val" where
  "body_val payload name = js_of_json (json_field name payload)"

definition body_text :: "json \<Rightarrow> string \<Rightarrow> string option" where
  "body_text payload name = json_str (json_field name payload)"

section \<open>Matches\<close>

definition create_body :: "json \<Rightarrow> create_input" where
  "create_body payload = \<lparr>ci_player2 = body_val payload ''player2'', ci_stakeAmount = body_val payload ''stakeAmount'',
     ci_token = body_val payload ''token'', ci_gameId = body_val payload ''gameId'',
     ci_platform = body_val payload ''platform'', ci_username = body_text payload ''username''\<rparr>"

definition failure_text :: "service_failure \<Rightarrow> string" where
  "failure_text f = (if falsy (sf_details f) then sf_error f else sf_error f @ '': '' @ the (sf_details f))"

definition post_match :: "'s match_ops \<Rightarrow> fetchers \<Rightarrow> (string \<Rightarrow> token_check) \<Rightarrow> string option \<Rightarrow> json \<Rightarrow> 's \<Rightarrow> http_answer \<times> 's" where
  "post_match ops ft jwt header payload s =
    (case http_authenticate jwt header of
       Inl a \<Rightarrow> (a, s)
     | Inr player1 \<Rightarrow>
        if player1 = [] then ((401, BodyEnvelope UNAUTHORIZED ''Authentication required'' False), s)
        else if \<not> body_is_object payload then ((400, BodyEnvelope VALIDATION_ERROR ''Request body must be JSON'' False), s)
        else (case validateCreateMatchInput (Some player1) (create_body payload) of
            Some e \<Rightarrow> ((400, BodyEnvelope VALIDATION_ERROR e False), s)
          | None \<Rightarrow>
             (case createMatchForPlayer ops ft player1 (create_body payload) s of
                (Inl f, s') \<Rightarrow> ((sf_status f, BodyEnvelope (statusToErrorCode (sf_status f)) (failure_text f) False), s')
              | (Inr m, s') \<Rightarrow> ((201, BodyMatch m), s'))))"

text \<open>
  The fallback every error that reaches Express goes through. \<open>unlink\<close> is the store's \<open>unlinkIdentities\<close>, \<open>None\<close> when it
  has none: the call is a \<open>TypeError\<close>.
\<close>

definition error_fallback :: "backend_error \<Rightarrow> http_answer" where
  "error_fallback err = (errorToHttpStatus err, BodyError (error_message err) None)"

definition delete_identities :: "(string \<Rightarrow> 's \<Rightarrow> nat \<times> 's) option \<Rightarrow> (string \<Rightarrow> token_check) \<Rightarrow> string option \<Rightarrow> 's \<Rightarrow> http_answer \<times> 's" where
  "delete_identities unlink jwt header s =
    (case http_authenticate jwt header of
       Inl a \<Rightarrow> (a, s)
     | Inr address \<Rightarrow>
        if address = [] then (error_fallback (OtherError ''Authenticated wallet required''), s)
        else (case unlink of
            None \<Rightarrow> (error_fallback (OtherError ''store.unlinkIdentities is not a function''), s)
          | Some f \<Rightarrow> ((204, BodyEmpty), snd (f address s))))"

section \<open>Results\<close>

definition submit_body :: "json \<Rightarrow> submit_input" where
  "submit_body payload = \<lparr>si_matchId = body_val payload ''matchId'', si_gameId = body_val payload ''gameId'',
     si_platform = body_val payload ''platform'', si_username = body_text payload ''username''\<rparr>"

text \<open>The details behind the text of a refusal are left out, as in \<open>verifyGameResult\<close>.\<close>

definition post_result ::
  "(string \<Rightarrow> string) \<Rightarrow> 's match_ops \<Rightarrow> fetchers \<Rightarrow> (string \<Rightarrow> token_check) \<Rightarrow> string option \<Rightarrow> json \<Rightarrow> int \<Rightarrow> 's \<Rightarrow> http_answer \<times> 's" where
  "post_result sha256 ops ft jwt header payload now s =
    (case http_authenticate jwt header of
       Inl a \<Rightarrow> (a, s)
     | Inr _ \<Rightarrow>
        if \<not> body_is_object payload then ((400, BodyEnvelope VALIDATION_ERROR ''Request body must be JSON'' False), s)
        else (let i = submit_body payload in
          case validateSubmitResultInput i of
            Some e \<Rightarrow> ((400, BodyEnvelope VALIDATION_ERROR e False), s)
          | None \<Rightarrow>
             (case verifyGameResult sha256 ops ft now (the (whole_number (si_matchId i))) (val_text (si_gameId i))
                 (val_text (si_platform i)) (si_username i) s of
                (Refused status e hint, s') \<Rightarrow> ((status, BodyEnvelope (statusToErrorCode status) e hint), s')
              | (Threw err, s') \<Rightarrow> ((errorToHttpStatus err, BodyError ''Result verification failed'' (Some (error_message err))), s')
              | (VerifiedOk v, s') \<Rightarrow> ((200, BodyVerified v), s'))))"

section \<open>Identities\<close>

text \<open>The runtime's text for \<open>username.trim()\<close> on a value that is no text, which the route passes on.\<close>

definition trim_type_error :: "js_val \<Rightarrow> string" where
  "trim_type_error v = (case v of
      JUndef \<Rightarrow> ''Cannot read properties of undefined (reading '' @ [CHR 39] @ ''trim'' @ [CHR 39] @ '')''
    | JNull \<Rightarrow> ''Cannot read properties of null (reading '' @ [CHR 39] @ ''trim'' @ [CHR 39] @ '')''
    | _ \<Rightarrow> ''username.trim is not a function'')"

definition post_challenge :: "(string \<Rightarrow> token_check) \<Rightarrow> string option \<Rightarrow> json \<Rightarrow> int \<Rightarrow> string \<Rightarrow> link_state \<Rightarrow> http_answer \<times> link_state" where
  "post_challenge jwt header payload now nonce st =
    (case http_authenticate jwt header of
       Inl a \<Rightarrow> (a, st)
     | Inr address \<Rightarrow>
        if address = [] then ((401, BodyError ''Authenticated wallet address is required'' None), st)
        else (case body_text payload ''username'' of
            None \<Rightarrow>
              ((400, BodyError
                 (if \<not> stellar_address address \<or> body_val payload ''platform'' \<notin> {JStr ''lichess'', JStr ''chessdotcom''}
                  then ''A valid Stellar address, platform, and username are required''
                  else trim_type_error (body_val payload ''username'')) None), st)
          | Some username \<Rightarrow>
              (case createIdentityLinkChallenge now nonce address (val_text (body_val payload ''platform'')) username st of
                 None \<Rightarrow> ((400, BodyError ''A valid Stellar address, platform, and username are required'' None), st)
               | Some (c, st') \<Rightarrow> ((200, BodyChallenge c), st'))))"

definition post_confirm ::
  "(string \<Rightarrow> string \<Rightarrow> string \<Rightarrow> bool) \<Rightarrow> (string \<Rightarrow> string \<Rightarrow> string \<Rightarrow> bool option) \<Rightarrow> (string \<Rightarrow> token_check) \<Rightarrow>
    string option \<Rightarrow> json \<Rightarrow> int \<Rightarrow> link_state \<Rightarrow> http_answer \<times> link_state" where
  "post_confirm verify profile jwt header payload now st =
    (case http_authenticate jwt header of
       Inl a \<Rightarrow> (a, st)
     | Inr address \<Rightarrow>
        (case (body_text payload ''nonce'', body_text payload ''signature'') of
           (Some nonce, Some signature) \<Rightarrow>
             if address = [] then ((401, BodyError ''Authenticated wallet address is required'' None), st)
             else (case confirmIdentityLink verify profile now nonce address signature st of
                 (False, st') \<Rightarrow> ((400, BodyError ''Invalid, expired, replayed, or wrong-wallet identity proof'' None), st')
               | (True, st') \<Rightarrow> ((200, BodyLinked), st'))
         | _ \<Rightarrow> ((400, BodyError ''nonce and signature are required'' None), st)))"

section \<open>Origins\<close>

definition getAllowedOrigins :: "(string \<Rightarrow> string option) \<Rightarrow> string list" where
  "getAllowedOrigins env =
    (if \<not> falsy (env ''ALLOWED_ORIGINS'')
     then filter (\<lambda>o'. o' \<noteq> []) (map js_trim (js_split CHR '','' (the (env ''ALLOWED_ORIGINS''))))
     else if \<not> falsy (env ''FRONTEND_URL'') then [the (env ''FRONTEND_URL'')]
     else [''http://localhost:5173''])"

text \<open>The answer of the origin check: nothing, or the error that goes to the fallback.\<close>

definition cors_check :: "(string \<Rightarrow> string option) \<Rightarrow> string option \<Rightarrow> http_answer option" where
  "cors_check env origin =
    (let allowed = getAllowedOrigins env in
     if falsy origin \<or> the origin \<in> set allowed then None
     else Some (error_fallback (OtherError (''CORS: origin '' @ [CHR 39] @ the origin @ [CHR 39] @ '' is not allowed''))))"

section \<open>The signer of the oracle\<close>

text \<open>
  \<open>fromSecret\<close> gives a key pair or throws; the instance storage is the list of its native keys and values, \<open>None\<close> when
  the contract has none.
\<close>

definition getAuthorizedSigner ::
  "(string \<Rightarrow> 'k option) \<Rightarrow> ('k \<Rightarrow> string) \<Rightarrow> string + string \<Rightarrow> string + string \<Rightarrow> string + 'k" where
  "getAuthorizedSigner fromSecret publicKey secret admin =
    (case secret of
       Inl e \<Rightarrow> Inl e
     | Inr text' \<Rightarrow>
        (case fromSecret (js_trim text') of
           None \<Rightarrow> Inl ''invalid secret''
         | Some signer \<Rightarrow>
            (case admin of
               Inl e \<Rightarrow> Inl e
             | Inr a \<Rightarrow>
                if publicKey signer \<noteq> a then Inl ''Current oracle signer does not hold the on-chain admin role''
                else Inr signer)))"

definition readOracleAdmin :: "(json \<times> json) list option \<Rightarrow> string + string" where
  "readOracleAdmin instance_storage =
    (let storage = (case instance_storage of None \<Rightarrow> [] | Some kvs \<Rightarrow> kvs) in
     case find (\<lambda>(key, _). key = JsonArr [JsonStr ''InstanceState'']) storage of
       None \<Rightarrow> Inl ''Oracle contract is not initialized''
     | Some (_, state) \<Rightarrow>
        (case json_str (json_field ''admin'' state) of
           None \<Rightarrow> Inl ''Oracle admin role is unavailable''
         | Some admin \<Rightarrow> Inr admin))"

definition signer_secret :: "(string \<Rightarrow> string option) \<Rightarrow> (string \<Rightarrow> string + string) \<Rightarrow> string + string" where
  "signer_secret env readFile =
    (if falsy (env ''ORACLE_SIGNER_SECRET_FILE'') then Inl ''ORACLE_SIGNER_SECRET_FILE is required''
     else readFile (the (env ''ORACLE_SIGNER_SECRET_FILE'')))"

definition managed_signer ::
  "(string \<Rightarrow> 'k option) \<Rightarrow> ('k \<Rightarrow> string) \<Rightarrow> (string \<Rightarrow> string option) \<Rightarrow> (string \<Rightarrow> string + string) \<Rightarrow>
    (json \<times> json) list option \<Rightarrow> string + 'k" where
  "managed_signer fromSecret publicKey env readFile storage =
    getAuthorizedSigner fromSecret publicKey (signer_secret env readFile) (readOracleAdmin storage)"

text \<open>The submission, when a signer is there: what is handed to \<open>submit\<close>.\<close>

definition managedSubmission :: "string + 'k \<Rightarrow> 'w \<Rightarrow> string + 'w \<times> 'k" where
  "managedSubmission signer submission = (case signer of Inl e \<Rightarrow> Inl e | Inr k \<Rightarrow> Inr (submission, k))"

section \<open>Lemmas\<close>

lemma http_authenticate_401: "http_authenticate jwt header = Inl a \<Longrightarrow> fst a = 401"
  by (auto simp: http_authenticate_def split: option.splits if_splits token_check.splits js_val.splits)

text \<open>The routes of reviews and of matches let the same requests in.\<close>

lemma same_authentication:
  "http_authenticate jwt header = Inr address \<longleftrightarrow>
   authenticate (\<lambda>t. case jwt t of TokenAddress v \<Rightarrow> Some v | _ \<Rightarrow> None) header = Some address"
  by (auto simp: http_authenticate_def authenticate_def split: option.splits if_splits token_check.splits js_val.splits)

lemma production_secret: "jwt_secret (Some ''production'') configured = Some secret \<Longrightarrow> configured = Some secret \<and> secret \<noteq> DEFAULT_SECRET"
  by (cases configured) (auto simp: jwt_secret_def falsy_def Let_def split: if_splits)

lemma failure_status: "createMatchForPlayer ops ft player1 i s = (Inl f, s') \<Longrightarrow> sf_status f \<in> {400, 409, 500}"
  by (auto simp: createMatchForPlayer_def errorToHttpStatus_def Let_def split: option.splits if_splits prod.splits sum.splits)

lemma sql_create_effect:
  assumes "sm_inv s" "sm_createMatch sha256 p s = (r, s')"
  shows "sm_inv s' \<and> (case r of Inl _ \<Rightarrow> sm_rows s' = sm_rows s
    | Inr m \<Rightarrow> m_player1 m = p_player1 p \<and> sm_rows s' = sm_rows s @ [m])"
  using assms by (auto simp: sm_createMatch_def sm_inv_def payload_record_def Let_def less_Suc_eq split: if_splits)

lemma create_effect:
  assumes "sm_inv s" "createMatchForPlayer (sm_ops sha256) ft player1 i s = (r, s')"
  shows "sm_inv s' \<and> (case r of Inl _ \<Rightarrow> sm_rows s' = sm_rows s
    | Inr m \<Rightarrow> m_player1 m = player1 \<and> sm_rows s' = sm_rows s @ [m])"
  using assms sql_create_effect[OF assms(1), of sha256]
  by (fastforce simp: createMatchForPlayer_def input_payload_def Let_def split: option.splits if_splits prod.splits sum.splits)

text \<open>C39. A match is only ever stored by an answer 201, for the wallet of a valid token and by exactly one row; every
  other answer, whatever the body and the platforms say, is an error of the documented shape and leaves the stored
  matches as they were.\<close>

theorem match_created_exactly:
  assumes "sm_inv s" "post_match (sm_ops sha256) ft jwt header payload s = ((status, body), s')"
  shows "if status = 201
    then \<exists>m. body = BodyMatch m \<and> sm_rows s' = sm_rows s @ [m] \<and> m_player1 m \<noteq> [] \<and>
      http_authenticate jwt header = Inr (m_player1 m)
    else sm_rows s' = sm_rows s \<and> status \<in> {400, 401, 409, 500} \<and> (\<exists>msg. body = BodyEnvelope (statusToErrorCode status) msg False)"
proof (cases "http_authenticate jwt header")
  case (Inl a)
  then show ?thesis using assms
    by (auto simp: post_match_def http_authenticate_def statusToErrorCode_def split: option.splits if_splits token_check.splits js_val.splits)
next
  case (Inr player1)
  show ?thesis
  proof (cases "player1 = [] \<or> \<not> body_is_object payload \<or> validateCreateMatchInput (Some player1) (create_body payload) \<noteq> None")
    case True
    then show ?thesis using assms Inr by (auto simp: post_match_def statusToErrorCode_def split: if_splits option.splits)
  next
    case False
    obtain r s1 where c: "createMatchForPlayer (sm_ops sha256) ft player1 (create_body payload) s = (r, s1)" by force
    note e = create_effect[OF assms(1) c]
    show ?thesis
    proof (cases r)
      case (Inl f)
      then show ?thesis using assms \<open>http_authenticate jwt header = Inr player1\<close> False c e failure_status[of "sm_ops sha256" ft player1 "create_body payload" s f s1]
        by (auto simp: post_match_def)
    next
      case m: (Inr m)
      then show ?thesis using assms \<open>http_authenticate jwt header = Inr player1\<close> False c e by (auto simp: post_match_def)
    qed
  qed
qed

definition body_ex :: json where
  "body_ex = JsonObj [(''player2'', JsonStr ''GB''), (''stakeAmount'', JsonNum (Fin 5)), (''token'', JsonStr ''XLM''),
     (''gameId'', JsonStr ''abcd1234''), (''platform'', JsonStr ''lichess'')]"

lemma created_ex:
  "\<exists>m s'. post_match (sm_ops (\<lambda>x. x)) ft_ex (\<lambda>t. TokenAddress (JStr ''GA'')) (Some ''Bearer t'') body_ex sm_empty = ((201, BodyMatch m), s')"
proof -
  have b: "create_body body_ex = input_ex"
    by (simp add: create_body_def body_ex_def input_ex_def body_val_def body_text_def js_of_json_def)
  have v: "val_text (ci_platform input_ex) = ''lichess''" "val_text (ci_gameId input_ex) = ''abcd1234''"
    by (simp_all add: input_ex_def val_text_def)
  obtain m s' where "createMatchForPlayer (sm_ops (\<lambda>x. x)) ft_ex ''GA'' input_ex sm_empty = (Inr m, s')"
    using create_for_player[OF input_ok_ex, of ft_ex fetched_ex "sm_ops (\<lambda>x. x)" sm_empty] v fetch_ex
    by (simp add: sm_createMatch_def sm_empty_def Let_def)
  moreover have "validateCreateMatchInput (Some ''GA'') input_ex = None"
    using input_ok_ex by (simp only: validate_create_iff)
  moreover have "body_is_object body_ex" by (simp add: body_is_object_def body_ex_def)
  ultimately show ?thesis by (simp add: post_match_def http_authenticate_def b)
qed

theorem match_created_exactly_witness:
  "\<exists>m s'. post_match (sm_ops (\<lambda>x. x)) ft_ex (\<lambda>t. TokenAddress (JStr ''GA'')) (Some ''Bearer t'') body_ex sm_empty = ((201, BodyMatch m), s') \<and>
    sm_rows s' = [m] \<and> m_player1 m = ''GA''"
proof -
  have i: "sm_inv sm_empty" "sm_rows sm_empty = []" by (simp_all add: sm_inv_def sm_empty_def)
  have a: "http_authenticate (\<lambda>t. TokenAddress (JStr ''GA'')) (Some ''Bearer t'') = Inr ''GA''" by (simp add: http_authenticate_def)
  obtain m s' where p: "post_match (sm_ops (\<lambda>x. x)) ft_ex (\<lambda>t. TokenAddress (JStr ''GA'')) (Some ''Bearer t'') body_ex sm_empty = ((201, BodyMatch m), s')"
    using created_ex by blast
  from match_created_exactly[OF i(1) p] show ?thesis using p i(2) a by auto
qed

section \<open>The other routes\<close>

text \<open>A result is answered with 200 only when it was verified; no answer changes the stored matches.\<close>

lemma saved_rows: "sm_rows (sm_saveEvidence ev s) = sm_rows s"
  by (simp add: sm_saveEvidence_def)

lemma verify_keeps_rows: "verifyGameResult sha256 (sm_ops sha256) ft now i g p u s = (r, s') \<Longrightarrow> sm_rows s' = sm_rows s"
  by (auto simp: verifyGameResult_def saved_rows split: option.splits if_splits sum.splits backend_error.splits)

lemma result_answers:
  assumes "post_result sha256 (sm_ops sha256) ft jwt header payload now s = ((status, body), s')"
  shows "sm_rows s' = sm_rows s \<and>
    (status = 200 \<longrightarrow> (\<exists>address v i. http_authenticate jwt header = Inr address \<and> body = BodyVerified v \<and>
      verifyGameResult sha256 (sm_ops sha256) ft now i (val_text (body_val payload ''gameId''))
        (val_text (body_val payload ''platform'')) (body_text payload ''username'') s = (VerifiedOk v, s')))"
proof (cases "http_authenticate jwt header")
  case (Inl a)
  then show ?thesis using assms http_authenticate_401[OF Inl] by (auto simp: post_result_def)
next
  case (Inr address)
  show ?thesis
  proof (cases "body_is_object payload \<and> validateSubmitResultInput (submit_body payload) = None")
    case False
    then show ?thesis using assms Inr by (auto simp: post_result_def Let_def split: if_splits option.splits)
  next
    case True
    obtain r s1 where v: "verifyGameResult sha256 (sm_ops sha256) ft now (the (whole_number (si_matchId (submit_body payload))))
      (val_text (si_gameId (submit_body payload))) (val_text (si_platform (submit_body payload))) (si_username (submit_body payload)) s = (r, s1)"
      by force
    note k = verify_keeps_rows[OF v]
    show ?thesis
    proof (cases r)
      case (Refused n e h)
      then have "n \<noteq> 200" using v
        by (auto simp: verifyGameResult_def errorToHttpStatus_def split: option.splits if_splits sum.splits backend_error.splits)
      then show ?thesis using assms Inr True v k Refused by (simp add: post_result_def Let_def)
    next
      case (Threw e)
      moreover have "errorToHttpStatus e \<noteq> 200" by (cases e) (simp_all add: errorToHttpStatus_def)
      ultimately show ?thesis using assms Inr True v k by (auto simp: post_result_def Let_def)
    next
      case (VerifiedOk x)
      then show ?thesis using assms Inr True v k by (auto simp: post_result_def submit_body_def Let_def)
    qed
  qed
qed

text \<open>Both ways to prove the ownership of an account go through the wallet of the token.\<close>

lemma confirm_answers:
  "post_confirm verify profile jwt header payload now st = ((200, body), st') \<Longrightarrow>
    \<exists>address nonce signature. http_authenticate jwt header = Inr address \<and> address \<noteq> [] \<and>
      confirmIdentityLink verify profile now nonce address signature st = (True, st')"
  using http_authenticate_401[of jwt header]
  by (auto simp: post_confirm_def split: sum.splits option.splits prod.splits if_splits bool.splits)

lemma challenge_answers:
  "post_challenge jwt header payload now nonce st = ((200, body), st') \<Longrightarrow>
    \<exists>address platform username c. http_authenticate jwt header = Inr address \<and> body = BodyChallenge c \<and>
      createIdentityLinkChallenge now nonce address platform username st = Some (c, st')"
  using http_authenticate_401[of jwt header]
  by (auto simp: post_challenge_def split: sum.splits option.splits prod.splits if_splits)

text \<open>
  With the store in use, which has no \<open>unlinkIdentities\<close>, no request removes an identity: every authenticated one is
  answered 500.
\<close>

lemma unlink_always_fails:
  "http_authenticate jwt header = Inr address \<Longrightarrow> \<exists>b. delete_identities None jwt header s = ((500, b), s)"
  by (simp add: delete_identities_def error_fallback_def errorToHttpStatus_def)

text \<open>An origin that is not listed is answered as a failure of the server.\<close>

lemma foreign_origin_500:
  "\<not> falsy origin \<Longrightarrow> the origin \<notin> set (getAllowedOrigins env) \<Longrightarrow> \<exists>b. cors_check env origin = Some (500, b)"
  by (simp add: cors_check_def error_fallback_def errorToHttpStatus_def)

text \<open>The error shape of the fallback and of a thrown verification is not the envelope.\<close>

lemma fallback_shape: "snd (error_fallback e) \<noteq> BodyEnvelope c m h"
  by (simp add: error_fallback_def)

section \<open>The signer\<close>

text \<open>A transaction is only ever handed to \<open>submit\<close> with a signer that holds the admin role written in the contract's
  instance storage at that attempt.\<close>

lemma find_Some_set: "find P xs = Some x \<Longrightarrow> x \<in> set xs \<and> P x"
  by (induction xs) (auto split: if_splits)

lemma managed_submission_by_admin:
  assumes "managedSubmission (managed_signer fromSecret publicKey env readFile storage) submission = Inr (w, k)"
  shows "w = submission \<and> (\<exists>kvs state. storage = Some kvs \<and> (JsonArr [JsonStr ''InstanceState''], state) \<in> set kvs \<and>
      json_str (json_field ''admin'' state) = Some (publicKey k)) \<and>
    (\<exists>file secret. env ''ORACLE_SIGNER_SECRET_FILE'' = Some file \<and> readFile file = Inr secret \<and> fromSecret (js_trim secret) = Some k)"
proof -
  obtain secret a where k: "w = submission" "signer_secret env readFile = Inr secret" "fromSecret (js_trim secret) = Some k"
    "readOracleAdmin storage = Inr a" "publicKey k = a"
    using assms by (auto simp: managedSubmission_def managed_signer_def getAuthorizedSigner_def split: sum.splits option.splits if_splits)
  have f: "\<exists>file. env ''ORACLE_SIGNER_SECRET_FILE'' = Some file \<and> readFile file = Inr secret"
    using k(2) by (auto simp: signer_secret_def not_falsy_iff split: if_splits)
  obtain kvs where "storage = Some kvs" using k(4) by (cases storage) (auto simp: readOracleAdmin_def)
  moreover obtain key state where "find (\<lambda>(key, _). key = JsonArr [JsonStr ''InstanceState'']) kvs = Some (key, state)"
    "json_str (json_field ''admin'' state) = Some a"
    using k(4) calculation by (auto simp: readOracleAdmin_def split: option.splits)
  ultimately show ?thesis using k f find_Some_set by fastforce
qed

end
