(* ===== verification/ContractInterface.thy ===== *)
theory ContractInterface
  imports ChessTypes
begin

text \<open>
  The interface of the deployed contracts: the generator of the fixture both clients are tested against
  (\<open>scripts/generate-contract-interface.mjs\<close>) and the clients' own tables and serializers
  (\<open>contract/contract-interface.ts\<close> of the backend and of the frontend). A regular expression is the function that
  returns what it captures and the text behind the match; \<open>localeCompare\<close>, hashing and the SDK's addresses are
  parameters.
\<close>

section \<open>Characters and searches\<close>

text \<open>\<open>\w\<close> of a regular expression.\<close>

definition rust_word_char :: "char \<Rightarrow> bool" where
  "rust_word_char c = (let n = (of_char c :: nat) in (48 \<le> n \<and> n \<le> 57) \<or> (65 \<le> n \<and> n \<le> 90) \<or> n = 95 \<or> (97 \<le> n \<and> n \<le> 122))"

text \<open>The text behind the first occurrence of a pattern, with what stands before it.\<close>

fun find_text :: "string \<Rightarrow> string \<Rightarrow> (string \<times> string) option" where
  "find_text p [] = (if p = [] then Some ([], []) else None)"
| "find_text p (c # s) =
    (if take (length p) (c # s) = p then Some ([], drop (length p) (c # s))
     else map_option (apfst (Cons c)) (find_text p s))"

definition starts :: "string \<Rightarrow> string \<Rightarrow> string option" where
  "starts p s = (if take (length p) s = p then Some (drop (length p) s) else None)"

section \<open>Reading Rust\<close>

function stripLineComments :: "string \<Rightarrow> string" where
  "stripLineComments s =
    (case s of
       [] \<Rightarrow> []
     | c # r \<Rightarrow>
        (case starts ''//'' s of
           Some r' \<Rightarrow> stripLineComments (dropWhile (\<lambda>x. x \<noteq> CHR 0x0A) r')
         | None \<Rightarrow> c # stripLineComments r))"
  by auto
termination
proof (relation "measure length")
  fix s :: string and c r r'
  assume "s = c # r" "starts ''//'' s = Some r'"
  then have "length r' < length s" by (auto simp: starts_def split: if_splits)
  then show "(dropWhile (\<lambda>x. x \<noteq> CHR 0x0A) r', s) \<in> measure length"
    using length_dropWhile_le[of "\<lambda>x. x \<noteq> CHR 0x0A" r'] by simp
qed auto

text \<open>
  The text up to the brace that closes the one the text starts with, and the text behind it; \<open>None\<close> when the code
  throws.
\<close>

fun brace_loop :: "int \<Rightarrow> string \<Rightarrow> (string \<times> string) option" where
  "brace_loop depth [] = None"
| "brace_loop depth (c # s) =
    (if c = CHR ''{'' then map_option (apfst (Cons c)) (brace_loop (depth + 1) s)
     else if c = CHR ''}'' then
       (if depth - 1 = 0 then Some ([c], s) else map_option (apfst (Cons c)) (brace_loop (depth - 1) s))
     else map_option (apfst (Cons c)) (brace_loop depth s))"

definition matchingBrace :: "string \<Rightarrow> (string \<times> string) option" where
  "matchingBrace s = brace_loop 0 s"

text \<open>\<open>source.slice(open + 1, matchingBrace(source, open) - 1)\<close>, where \<open>open\<close> is the brace before the text.\<close>

definition brace_body :: "string \<Rightarrow> string option" where
  "brace_body s = map_option (\<lambda>(b, _). butlast b) (brace_loop 1 s)"

text \<open>\<open>p.replace(/\s+/g, ' ')\<close>.\<close>

function collapse :: "string \<Rightarrow> string" where
  "collapse [] = []"
| "collapse (c # s) = (if js_ws c then CHR '' '' # collapse (dropWhile js_ws s) else c # collapse s)"
  by pat_completeness auto
termination
proof (relation "measure length")
  fix c and s :: string
  show "(dropWhile js_ws s, c # s) \<in> measure length" using length_dropWhile_le[of js_ws s] by simp
qed auto

definition tidy :: "string \<Rightarrow> string" where
  "tidy p = js_trim (collapse p)"

text \<open>The loop over the characters: what \<open>parts\<close> gets, and \<open>current\<close> at the end.\<close>

fun split_loop :: "int \<Rightarrow> string \<Rightarrow> string \<Rightarrow> string list" where
  "split_loop depth current [] = [current]"
| "split_loop depth current (c # s) =
    (let d1 = (if c = CHR ''<'' \<or> c = CHR ''('' then depth + 1 else depth);
         d2 = (if c = CHR ''>'' \<or> c = CHR '')'' then d1 - 1 else d1) in
     if c = CHR '','' \<and> d2 = 0 then current # split_loop d2 [] s
     else split_loop d2 (current @ [c]) s)"

definition splitTopLevel :: "string \<Rightarrow> string list" where
  "splitTopLevel xs = filter (\<lambda>p. p \<noteq> []) (map tidy (split_loop 0 [] xs))"

section \<open>Methods\<close>

record interface_arg =
  ia_name :: string
  ia_type :: string

record interface_method =
  im_name :: string
  im_args :: "interface_arg list"
  im_returns :: string

text \<open>
  \<open>pub fn (\w+)\s*\(([^)]*)\)\s*(?:->\s*([^{]+?))?\s*\{\<close> at the start of a text. A return type must have a character:
  when only white space stands before the brace, the last of it is captured.
\<close>

definition return_capture :: "string \<Rightarrow> (string \<times> string) option" where
  "return_capture s =
    (let t = dropWhile js_ws s; body = takeWhile (\<lambda>c. c \<noteq> CHR ''{'') s; rest = dropWhile (\<lambda>c. c \<noteq> CHR ''{'') s in
     if rest = [] \<or> body = [] then None
     else if list_all js_ws body then Some ([last body], tl rest)
     else Some (rev (dropWhile js_ws (rev (dropWhile js_ws body))), tl rest))"

definition fn_match :: "string \<Rightarrow> (string \<times> string \<times> string option \<times> string) option" where
  "fn_match s =
    (case starts ''pub fn '' s of
       None \<Rightarrow> None
     | Some s1 \<Rightarrow>
        (let name = takeWhile rust_word_char s1; s2 = dropWhile js_ws (dropWhile rust_word_char s1) in
         if name = [] then None
         else (case starts ''('' s2 of
            None \<Rightarrow> None
          | Some s3 \<Rightarrow>
             (let params = takeWhile (\<lambda>c. c \<noteq> CHR '')'') s3 in
              case starts '')'' (dropWhile (\<lambda>c. c \<noteq> CHR '')'') s3) of
                None \<Rightarrow> None
              | Some s4 \<Rightarrow>
                 (let s5 = dropWhile js_ws s4 in
                  case starts ''->'' s5 of
                    Some s6 \<Rightarrow> map_option (\<lambda>(r, rest). (name, params, Some r, rest)) (return_capture s6)
                  | None \<Rightarrow> map_option (\<lambda>rest. (name, params, None, rest)) (starts ''{'' s5))))))"

lemma starts_length: "starts p s = Some r \<Longrightarrow> length s = length p + length r"
proof -
  assume "starts p s = Some r"
  then have "take (length p) s = p" "r = drop (length p) s" by (simp_all add: starts_def split: if_splits)
  then have "s = p @ r" using append_take_drop_id[of "length p" s] by simp
  then show ?thesis by simp
qed

lemma return_capture_shorter: "return_capture s = Some (r, rest) \<Longrightarrow> length rest \<le> length s"
  using length_dropWhile_le[of "\<lambda>c. c \<noteq> CHR ''{''" s] by (auto simp: return_capture_def Let_def split: if_splits)

lemma fn_match_shorter: "fn_match s = Some (n, p, r, rest) \<Longrightarrow> length rest < length s"
proof -
  assume "fn_match s = Some (n, p, r, rest)"
  then obtain s1 s3 s4 where s: "starts ''pub fn '' s = Some s1"
    "starts ''('' (dropWhile js_ws (dropWhile rust_word_char s1)) = Some s3"
    "starts '')'' (dropWhile (\<lambda>c. c \<noteq> CHR '')'') s3) = Some s4"
    "(\<exists>s6 r'. starts ''->'' (dropWhile js_ws s4) = Some s6 \<and> return_capture s6 = Some (r', rest)) \<or> starts ''{'' (dropWhile js_ws s4) = Some rest"
    by (auto simp: fn_match_def Let_def split: option.splits if_splits)
  have "length rest \<le> length s4"
    using s(4) length_dropWhile_le[of js_ws s4] by (auto dest!: starts_length return_capture_shorter)
  also have "\<dots> \<le> length s3" using starts_length[OF s(3)] length_dropWhile_le[of "\<lambda>c. c \<noteq> CHR '')''" s3] by simp
  also have "\<dots> \<le> length s1"
    using starts_length[OF s(2)] length_dropWhile_le[of js_ws "dropWhile rust_word_char s1"] length_dropWhile_le[of rust_word_char s1] by simp
  also have "\<dots> < length s" using starts_length[OF s(1)] by simp
  finally show ?thesis .
qed

text \<open>All matches from left to right; \<open>prev\<close> says whether the character before is one of a word.\<close>

function scan_fns :: "bool \<Rightarrow> string \<Rightarrow> (string \<times> string \<times> string option) list" where
  "scan_fns prev s =
    (case s of
       [] \<Rightarrow> []
     | c # r \<Rightarrow>
        (case (if prev then None else fn_match s) of
           Some (n, p, ret, rest) \<Rightarrow> (n, p, ret) # scan_fns False rest
         | None \<Rightarrow> scan_fns (rust_word_char c) r))"
  by auto
termination
  by (relation "measure (length \<circ> snd)") (auto split: if_splits dest: fn_match_shorter)

fun rust_join_with :: "string \<Rightarrow> string list \<Rightarrow> string" where
  "rust_join_with sep [] = []"
| "rust_join_with sep [x] = x"
| "rust_join_with sep (x # y # xs) = x @ sep @ rust_join_with sep (y # xs)"

definition parse_arg :: "string \<Rightarrow> interface_arg" where
  "parse_arg param =
    (case js_split CHR '':'' param of
       [] \<Rightarrow> \<lparr>ia_name = [], ia_type = []\<rparr>
     | n # rest \<Rightarrow> \<lparr>ia_name = js_trim n, ia_type = js_trim (rust_join_with '':'' rest)\<rparr>)"

text \<open>A method of the contract takes \<open>env: Env\<close> first; any other function is a helper.\<close>

definition read_method :: "string \<times> string \<times> string option \<Rightarrow> interface_method option" where
  "read_method m =
    (case m of (name, rawParams, rawReturn) \<Rightarrow>
       (case map parse_arg (splitTopLevel rawParams) of
          [] \<Rightarrow> None
        | p # ps \<Rightarrow>
           if ia_name p \<noteq> ''env'' \<or> ia_type p \<noteq> ''Env'' then None
           else Some \<lparr>im_name = name, im_args = ps, im_returns = (case rawReturn of None \<Rightarrow> ''()'' | Some r \<Rightarrow> tidy r)\<rparr>))"

fun add_methods :: "interface_method list \<Rightarrow> string list \<Rightarrow> interface_method list \<Rightarrow> interface_method list \<times> string list" where
  "add_methods methods duplicates [] = (methods, duplicates)"
| "add_methods methods duplicates (m # ms) =
    (if im_name m \<in> im_name ` set methods then add_methods methods (duplicates @ [im_name m]) ms
     else add_methods (methods @ [m]) duplicates ms)"

text \<open>\<open>sort\<close> by \<open>localeCompare\<close> of the names, whose order is \<open>le\<close>.\<close>

fun insert_named :: "(string \<Rightarrow> string \<Rightarrow> bool) \<Rightarrow> ('a \<Rightarrow> string) \<Rightarrow> 'a \<Rightarrow> 'a list \<Rightarrow> 'a list" where
  "insert_named le f x [] = [x]"
| "insert_named le f x (y # ys) = (if le (f x) (f y) then x # y # ys else y # insert_named le f x ys)"

definition sort_named :: "(string \<Rightarrow> string \<Rightarrow> bool) \<Rightarrow> ('a \<Rightarrow> string) \<Rightarrow> 'a list \<Rightarrow> 'a list" where
  "sort_named le f xs = foldr (insert_named le f) xs []"

definition parseMethods :: "(string \<Rightarrow> string \<Rightarrow> bool) \<Rightarrow> string \<Rightarrow> string + interface_method list \<times> string list" where
  "parseMethods le libSource =
    (let source = stripLineComments libSource in
     case find_text ''#[contractimpl]'' source of
       None \<Rightarrow> Inl ''no #[contractimpl] block''
     | Some (_, behind) \<Rightarrow>
        (case (case find_text ''{'' behind of
                 Some (_, s) \<Rightarrow> brace_body s
               | None \<Rightarrow> map_option (\<lambda>(b, _). butlast b) (matchingBrace source)) of
           None \<Rightarrow> Inl ''unbalanced braces''
         | Some body \<Rightarrow>
            (case add_methods [] [] (List.map_filter read_method (scan_fns False body)) of
               (methods, duplicates) \<Rightarrow> Inr (sort_named le im_name methods, duplicates))))"

section \<open>Enumerations\<close>

text \<open>\<open>pub enum (\w+)\s*\{\<close> at the start of a text.\<close>

definition enum_match :: "string \<Rightarrow> (string \<times> string) option" where
  "enum_match s =
    (case starts ''pub enum '' s of
       None \<Rightarrow> None
     | Some s1 \<Rightarrow>
        (let name = takeWhile rust_word_char s1 in
         if name = [] then None
         else map_option (Pair name) (starts ''{'' (dropWhile js_ws (dropWhile rust_word_char s1)))))"

lemma enum_match_shorter: "enum_match s = Some (n, rest) \<Longrightarrow> length rest < length s"
proof -
  assume "enum_match s = Some (n, rest)"
  then obtain s1 where s: "starts ''pub enum '' s = Some s1" "starts ''{'' (dropWhile js_ws (dropWhile rust_word_char s1)) = Some rest"
    by (auto simp: enum_match_def Let_def split: option.splits if_splits)
  have "length rest \<le> length s1"
    using starts_length[OF s(2)] length_dropWhile_le[of js_ws "dropWhile rust_word_char s1"] length_dropWhile_le[of rust_word_char s1] by simp
  then show ?thesis using starts_length[OF s(1)] by simp
qed

text \<open>The first enumeration of a text: what stands before it, its name, and the text behind its brace.\<close>

fun next_enum :: "string \<Rightarrow> (string \<times> string \<times> string) option" where
  "next_enum [] = None"
| "next_enum (c # s) =
    (case enum_match (c # s) of
       Some (n, rest) \<Rightarrow> Some ([], n, rest)
     | None \<Rightarrow> map_option (apfst (Cons c)) (next_enum s))"

lemma next_enum_shorter: "next_enum s = Some (b, n, rest) \<Longrightarrow> length rest < length s"
  by (induction s arbitrary: b) (auto split: option.splits dest: enum_match_shorter)

lemma find_text_shorter: "find_text p s = Some (b, rest) \<Longrightarrow> length rest \<le> length s"
  by (induction s arbitrary: b) (auto split: if_splits)

text \<open>The words of a text, in order.\<close>

function words_in :: "string \<Rightarrow> string list" where
  "words_in [] = []"
| "words_in (c # s) = (if rust_word_char c then takeWhile rust_word_char (c # s) # words_in (dropWhile rust_word_char s) else words_in s)"
  by pat_completeness auto
termination
proof (relation "measure length")
  fix c and s :: string
  show "(dropWhile rust_word_char s, c # s) \<in> measure length" using length_dropWhile_le[of rust_word_char s] by simp
qed auto

definition other_item :: "string \<Rightarrow> bool" where
  "other_item between = list_ex (\<lambda>w. w \<in> {''struct'', ''enum'', ''fn'', ''impl''}) (words_in between)"

text \<open>Name and body of each enumeration of an attribute; \<open>None\<close> when a brace is not closed.\<close>

function enumBody :: "string \<Rightarrow> string \<Rightarrow> (string \<times> string) list option" where
  "enumBody attribute source =
    (case find_text (''#['' @ attribute @ '']'') source of
       None \<Rightarrow> Some []
     | Some (_, behind) \<Rightarrow>
        (case next_enum behind of
           None \<Rightarrow> Some []
         | Some (between, name, rest) \<Rightarrow>
            if other_item between then enumBody attribute rest
            else (case brace_body rest of
                None \<Rightarrow> None
              | Some body \<Rightarrow> map_option (Cons (name, body)) (enumBody attribute rest))))"
  by auto
termination
  by (relation "measure (length \<circ> snd)") (auto dest!: next_enum_shorter find_text_shorter)

section \<open>Errors and unit enumerations\<close>

definition rust_is_digit :: "char \<Rightarrow> bool" where
  "rust_is_digit c = (let n = (of_char c :: nat) in 48 \<le> n \<and> n \<le> 57)"

text \<open>\<open>(\w+)\s*=\s*(\d+)\<close> at the start of a text.\<close>

definition code_match :: "string \<Rightarrow> (string \<times> nat \<times> string) option" where
  "code_match s =
    (let name = takeWhile rust_word_char s in
     if name = [] then None
     else (case starts ''='' (dropWhile js_ws (dropWhile rust_word_char s)) of
        None \<Rightarrow> None
      | Some s1 \<Rightarrow>
         (let s2 = dropWhile js_ws s1; digits = takeWhile rust_is_digit s2 in
          if digits = [] then None else Some (name, text_value digits, dropWhile rust_is_digit s2))))"

lemma code_match_shorter: "code_match s = Some (n, k, rest) \<Longrightarrow> length rest < length s"
proof -
  assume "code_match s = Some (n, k, rest)"
  then obtain s1 where s: "starts ''='' (dropWhile js_ws (dropWhile rust_word_char s)) = Some s1" "rest = dropWhile rust_is_digit (dropWhile js_ws s1)"
    by (auto simp: code_match_def Let_def split: option.splits if_splits)
  have "length s1 < length s"
    using starts_length[OF s(1)] length_dropWhile_le[of js_ws "dropWhile rust_word_char s"] length_dropWhile_le[of rust_word_char s] by simp
  then show ?thesis
    using s(2) length_dropWhile_le[of rust_is_digit "dropWhile js_ws s1"] length_dropWhile_le[of js_ws s1] by simp
qed

function scan_codes :: "string \<Rightarrow> (string \<times> nat) list" where
  "scan_codes s =
    (case s of
       [] \<Rightarrow> []
     | c # r \<Rightarrow> (case code_match s of Some (n, k, rest) \<Rightarrow> (n, k) # scan_codes rest | None \<Rightarrow> scan_codes r))"
  by auto
termination
  by (relation "measure length") (auto dest: code_match_shorter)

fun parseErrors :: "string list \<Rightarrow> (string \<times> nat) list option" where
  "parseErrors [] = Some []"
| "parseErrors (source # sources) =
    (case enumBody ''contracterror'' (stripLineComments source) of
       None \<Rightarrow> None
     | Some [] \<Rightarrow> parseErrors sources
     | Some ((_, body) # _) \<Rightarrow> Some (scan_codes body))"

text \<open>\<open>body.replace(/#\[[^\]]*\]/g, '')\<close>: attributes taken out.\<close>

function drop_attributes :: "string \<Rightarrow> string" where
  "drop_attributes s =
    (case s of
       [] \<Rightarrow> []
     | c # r \<Rightarrow>
        (case starts ''#['' s of
           None \<Rightarrow> c # drop_attributes r
         | Some s1 \<Rightarrow>
            (case dropWhile (\<lambda>x. x \<noteq> CHR '']'') s1 of
               [] \<Rightarrow> c # drop_attributes r
             | _ # rest \<Rightarrow> drop_attributes rest)))"
  by auto
termination
proof (relation "measure length")
  fix s :: string and c r s1 x rest
  assume a: "s = c # r" "starts ''#['' s = Some s1" "dropWhile (\<lambda>x. x \<noteq> CHR '']'') s1 = x # rest"
  have "length (x # rest) \<le> length s1" using length_dropWhile_le[of "\<lambda>x. x \<noteq> CHR '']''" s1] a(3) by simp
  then show "(rest, s) \<in> measure length" using starts_length[OF a(2)] by simp
qed auto

record unit_enum =
  ue_name :: string
  ue_variants :: "string list"

definition read_unit_enum :: "string \<times> string \<Rightarrow> unit_enum option" where
  "read_unit_enum e =
    (case e of (name, body) \<Rightarrow>
       (let variants = splitTopLevel (drop_attributes body) in
        if variants = [] \<or> \<not> list_all (\<lambda>v. v \<noteq> [] \<and> list_all rust_word_char v) variants then None
        else Some \<lparr>ue_name = name, ue_variants = variants\<rparr>))"

fun unit_enums :: "string list \<Rightarrow> unit_enum list option" where
  "unit_enums [] = Some []"
| "unit_enums (source # sources) =
    (case enumBody ''contracttype'' (stripLineComments source) of
       None \<Rightarrow> None
     | Some bodies \<Rightarrow> map_option (append (List.map_filter read_unit_enum bodies)) (unit_enums sources))"

definition parseUnitEnums :: "(string \<Rightarrow> string \<Rightarrow> bool) \<Rightarrow> string list \<Rightarrow> unit_enum list option" where
  "parseUnitEnums le sources = map_option (sort_named le ue_name) (unit_enums sources)"

section \<open>The fixture\<close>

text \<open>Texts in the order of their code units, as \<open>sort()\<close> has them.\<close>

fun rust_text_le :: "string \<Rightarrow> string \<Rightarrow> bool" where
  "rust_text_le [] t = True"
| "rust_text_le (c # s) [] = False"
| "rust_text_le (c # s) (d # t) = ((of_char c :: nat) < of_char d \<or> (c = d \<and> rust_text_le s t))"

definition rustSources :: "(string \<times> string) list \<Rightarrow> string list" where
  "rustSources files = map snd (sort_named rust_text_le fst
     (filter (\<lambda>(f, _). take 3 (rev f) = ''sr.'' \<and> take 5 f \<noteq> ''tests'') files))"

record contract_interface =
  cx_methods :: "interface_method list"
  cx_errors :: "(string \<times> nat) list"
  cx_enums :: "unit_enum list"

text \<open>The warnings of shared codes: each names the first error of the code.\<close>

fun code_warnings :: "string \<Rightarrow> (nat, string) jsmap \<Rightarrow> (string \<times> nat) list \<Rightarrow> string list" where
  "code_warnings contract seen [] = []"
| "code_warnings contract seen ((n, code) # es) =
    (case map_of seen code of
       Some first \<Rightarrow> (contract @ '': error code '' @ nat_text code @ '' is used by '' @ first @ '' and '' @ n) # code_warnings contract seen es
     | None \<Rightarrow> code_warnings contract (AList.update code n seen) es)"

definition read_contract :: "(string \<Rightarrow> string \<Rightarrow> bool) \<Rightarrow> string \<Rightarrow> (string \<times> string) list \<Rightarrow> string \<Rightarrow> string + contract_interface \<times> string list" where
  "read_contract le contract files lib =
    (let sources = rustSources files in
     case parseMethods le lib of
       Inl e \<Rightarrow> Inl e
     | Inr (methods, duplicates) \<Rightarrow>
        (case (parseErrors sources, parseUnitEnums le sources) of
           (Some errors, Some enums) \<Rightarrow>
             Inr (\<lparr>cx_methods = methods, cx_errors = errors, cx_enums = enums\<rparr>,
               map (\<lambda>d. contract @ '': method '' @ d @ '' is defined more than once'') duplicates @ code_warnings contract [] errors)
         | _ \<Rightarrow> Inl ''unbalanced braces''))"

fun read_contracts ::
  "(string \<Rightarrow> string \<Rightarrow> bool) \<Rightarrow> (string \<times> (string \<times> string) list \<times> string) list \<Rightarrow> string + (string \<times> contract_interface) list \<times> string list" where
  "read_contracts le [] = Inr ([], [])"
| "read_contracts le ((contract, files, lib) # cs) =
    (case read_contract le contract files lib of
       Inl e \<Rightarrow> Inl e
     | Inr (c, ws) \<Rightarrow>
        (case read_contracts le cs of
           Inl e \<Rightarrow> Inl e
         | Inr (rest, ws') \<Rightarrow> Inr ((contract, c) # rest, ws @ ws')))"

record interface_fixture =
  if_schemaVersion :: nat
  if_specHash :: string
  if_generatedBy :: string
  if_contracts :: "(string \<times> contract_interface) list"

definition buildInterface ::
  "(string \<Rightarrow> string \<Rightarrow> bool) \<Rightarrow> ((string \<times> contract_interface) list \<Rightarrow> string) \<Rightarrow>
    (string \<times> (string \<times> string) list \<times> string) list \<Rightarrow> string + interface_fixture \<times> string list" where
  "buildInterface le sha256 contracts =
    (case read_contracts le contracts of
       Inl e \<Rightarrow> Inl e
     | Inr (cs, ws) \<Rightarrow>
        Inr (\<lparr>if_schemaVersion = 1, if_specHash = take 16 (sha256 cs), if_generatedBy = ''scripts/generate-contract-interface.mjs'',
              if_contracts = cs\<rparr>, ws))"

text \<open>\<open>--check\<close>: the exit code, for the text on disk (absent when it cannot be read).\<close>

definition check_fixture :: "(interface_fixture \<Rightarrow> string) \<Rightarrow> interface_fixture \<Rightarrow> string option \<Rightarrow> nat" where
  "check_fixture serialize fixture current =
    (if (case current of None \<Rightarrow> [] | Some t \<Rightarrow> t) \<noteq> serialize fixture then 1 else 0)"

section \<open>The clients\<close>

definition CONTRACT_INTERFACE_SPEC_HASH :: string where "CONTRACT_INTERFACE_SPEC_HASH = ''40b1543545c2d06c''"

definition ESCROW_ERRORS :: "(string \<times> nat) list" where
  "ESCROW_ERRORS =
    [(''MatchNotFound'', 1), (''AlreadyFunded'', 2), (''NotFunded'', 3), (''Unauthorized'', 4), (''InvalidState'', 5),
     (''AlreadyExists'', 6), (''AlreadyInitialized'', 7), (''Overflow'', 8), (''ContractPaused'', 9), (''InvalidAmount'', 10),
     (''InvalidGameId'', 11), (''InvalidPlayers'', 12), (''GameIdMismatch'', 13), (''DuplicateGameId'', 14), (''TransferFailed'', 15),
     (''MatchCancelled'', 16), (''MatchCompleted'', 17), (''NotPaused'', 18), (''InsufficientAllowance'', 19),
     (''DisputeWindowActive'', 20), (''MatchTimedOut'', 21), (''InvalidToken'', 22), (''InvalidAdmin'', 23), (''StakeTooLow'', 24),
     (''StakeTooHigh'', 25), (''InsufficientReserve'', 26), (''InvalidAddress'', 27), (''TokenNotAllowlisted'', 28),
     (''TokenAlreadyListed'', 29), (''TokenNotListed'', 30), (''CannotRemoveDefault'', 31), (''InvalidStakeAmount'', 32),
     (''ActiveMatchExists'', 33), (''DisputeWindowExpired'', 28)]"

definition LEADERBOARD_ERRORS :: "(string \<times> nat) list" where
  "LEADERBOARD_ERRORS =
    [(''AlreadyInitialized'', 1), (''Unauthorized'', 2), (''NotInitialized'', 3), (''InvalidResult'', 4), (''InvalidRange'', 5),
     (''ContractPaused'', 6)]"

fun nameByCode_loop :: "(nat, string) jsmap \<Rightarrow> (string \<times> nat) list \<Rightarrow> (nat, string) jsmap" where
  "nameByCode_loop names [] = names"
| "nameByCode_loop names ((n, code) # es) =
    nameByCode_loop (if map_of names code = None then AList.update code n names else names) es"

definition nameByCode :: "(string \<times> nat) list \<Rightarrow> (nat, string) jsmap" where
  "nameByCode errors = nameByCode_loop [] errors"

definition escrowErrorName :: "nat \<Rightarrow> string option" where
  "escrowErrorName code = map_of (nameByCode ESCROW_ERRORS) code"

definition leaderboardErrorName :: "nat \<Rightarrow> string option" where
  "leaderboardErrorName code = map_of (nameByCode LEADERBOARD_ERRORS) code"

definition ESCROW_WINNERS :: "string list" where "ESCROW_WINNERS = [''Player1'', ''Player2'', ''Draw'']"

definition toEscrowWinner :: "match_result \<Rightarrow> string" where
  "toEscrowWinner result = (case result of Player1Wins \<Rightarrow> ''Player1'' | Player2Wins \<Rightarrow> ''Player2'' | Draw \<Rightarrow> ''Draw'')"

text \<open>
  The values of the contract's calls; numbers outside their type are refused by the SDK, as are numbers that are no
  integers by \<open>BigInt\<close>.
\<close>

datatype sc_val = ScU64 nat | ScU32 nat | ScString string | ScSymbol string | ScVec "sc_val list" | ScAddress string

definition sc_u64 :: "rat \<Rightarrow> sc_val option" where
  "sc_u64 x = (if x \<in> \<int> \<and> 0 \<le> x \<and> x < 2 ^ 64 then Some (ScU64 (nat \<lfloor>x\<rfloor>)) else None)"

definition sc_u32 :: "rat \<Rightarrow> sc_val option" where
  "sc_u32 x = (if x \<in> \<int> \<and> 0 \<le> x \<and> x < 2 ^ 32 then Some (ScU32 (nat \<lfloor>x\<rfloor>)) else None)"

definition unitEnumToScVal :: "string \<Rightarrow> sc_val" where
  "unitEnumToScVal variant = ScVec [ScSymbol variant]"

definition BACKEND_ESCROW_METHODS :: "(string \<times> string list) list" where
  "BACKEND_ESCROW_METHODS = [(''submit_result'', [''match_id'', ''game_id'', ''winner'', ''caller''])]"

definition FRONTEND_METHODS :: "(string \<times> (string \<times> string list) list) list" where
  "FRONTEND_METHODS = [(''escrow'', [(''get_match'', [''match_id''])]), (''leaderboard'', [(''get_leaderboard'', [''limit'', ''offset''])])]"

definition serializeSubmitResultArgs :: "(string \<Rightarrow> bool) \<Rightarrow> rat \<Rightarrow> string \<Rightarrow> match_result \<Rightarrow> string \<Rightarrow> sc_val list option" where
  "serializeSubmitResultArgs is_address matchId gameId result caller =
    (case sc_u64 matchId of
       None \<Rightarrow> None
     | Some i \<Rightarrow> if \<not> is_address caller then None
         else Some [i, ScString gameId, unitEnumToScVal (toEscrowWinner result), ScAddress caller])"

definition serializeGetMatchArgs :: "rat \<Rightarrow> sc_val list option" where
  "serializeGetMatchArgs matchId = map_option (\<lambda>v. [v]) (sc_u64 matchId)"

definition serializeGetLeaderboardArgs :: "rat \<Rightarrow> rat \<Rightarrow> sc_val list option" where
  "serializeGetLeaderboardArgs limit offset =
    (case (sc_u32 limit, sc_u32 offset) of (Some l, Some o') \<Rightarrow> Some [l, o'] | _ \<Rightarrow> None)"

section \<open>Tables\<close>

lemma nameByCode_loop_get:
  "map_of (nameByCode_loop names es) code =
    (case map_of names code of Some n \<Rightarrow> Some n | None \<Rightarrow> map_option fst (find (\<lambda>e. snd e = code) es))"
  by (induction names es rule: nameByCode_loop.induct) (auto simp: jsmap_simps split: option.splits)

text \<open>A code has the first name of the table that carries it.\<close>

lemma nameByCode_first: "map_of (nameByCode errors) code = map_option fst (find (\<lambda>e. snd e = code) errors)"
  by (simp add: nameByCode_def nameByCode_loop_get)

lemma shared_code: "escrowErrorName 28 = Some ''TokenNotAllowlisted''"
  by (simp add: escrowErrorName_def nameByCode_first ESCROW_ERRORS_def)

text \<open>Every name of the tables but one is the name of its code.\<close>

lemma escrow_names: "list_all (\<lambda>(n, c). n = ''DisputeWindowExpired'' \<or> escrowErrorName c = Some n) ESCROW_ERRORS"
  by (simp add: escrowErrorName_def nameByCode_first ESCROW_ERRORS_def)

lemma leaderboard_names: "list_all (\<lambda>(n, c). leaderboardErrorName c = Some n) LEADERBOARD_ERRORS"
  by (simp add: leaderboardErrorName_def nameByCode_first LEADERBOARD_ERRORS_def)

lemma escrow_warning:
  "code_warnings ''escrow'' [] ESCROW_ERRORS = [''escrow: error code 28 is used by TokenNotAllowlisted and DisputeWindowExpired'']"
  by (simp add: ESCROW_ERRORS_def nat_text.simps) code_simp

lemma winners_exact: "set ESCROW_WINNERS = range toEscrowWinner"
proof -
  have "(UNIV :: match_result set) = {Player1Wins, Player2Wins, Draw}" using match_result.exhaust by blast
  then have "range toEscrowWinner = toEscrowWinner ` {Player1Wins, Player2Wins, Draw}" by simp
  then show ?thesis by (simp add: ESCROW_WINNERS_def toEscrowWinner_def)
qed

text \<open>As many arguments as the method has, in its order.\<close>

lemma submit_arguments:
  "serializeSubmitResultArgs is_address matchId gameId result caller = Some vs \<Longrightarrow>
    map_of BACKEND_ESCROW_METHODS ''submit_result'' = Some ns \<Longrightarrow> length vs = length ns \<and> (\<exists>n. vs ! 0 = ScU64 n \<and> of_nat n = matchId)"
  by (auto simp: serializeSubmitResultArgs_def BACKEND_ESCROW_METHODS_def sc_u64_def Ints_def split: option.splits if_splits)

section \<open>Printing and reading methods\<close>

text \<open>The depth the splitting loop is at behind a text, \<open>None\<close> when it splits within.\<close>

fun level :: "int \<Rightarrow> string \<Rightarrow> int option" where
  "level d [] = Some d"
| "level d (c # s) =
    (let d1 = (if c = CHR ''<'' \<or> c = CHR ''('' then d + 1 else d);
         d2 = (if c = CHR ''>'' \<or> c = CHR '')'' then d1 - 1 else d1) in
     if c = CHR '','' \<and> d2 = 0 then None else level d2 s)"

definition arg_text :: "interface_arg \<Rightarrow> string" where
  "arg_text a = ia_name a @ '': '' @ ia_type a"

definition param_text :: "interface_method \<Rightarrow> string" where
  "param_text m = rust_join_with '', '' (''env: Env'' # map arg_text (im_args m))"

definition method_text :: "interface_method \<Rightarrow> string" where
  "method_text m = ''pub fn '' @ im_name m @ ''('' @ param_text m @ '') -> '' @ im_returns m @ '' {''"

definition lib_text :: "string \<Rightarrow> interface_method list \<Rightarrow> string" where
  "lib_text contract ms = ''#[contractimpl] impl '' @ contract @ '' {'' @ concat (map (\<lambda>m. method_text m @ ''}'') ms) @ ''}''"

definition plain :: "string \<Rightarrow> bool" where
  "plain s = list_all (\<lambda>c. c \<notin> {CHR ''{'', CHR ''}'', CHR ''/''}) s"

definition arg_ok :: "interface_arg \<Rightarrow> bool" where
  "arg_ok a = (ia_name a \<noteq> [] \<and> list_all rust_word_char (ia_name a) \<and> level 0 (arg_text a) = Some 0 \<and>
     tidy (arg_text a) = arg_text a \<and> js_trim (ia_type a) = ia_type a \<and> plain (ia_type a) \<and> CHR '')'' \<notin> set (ia_type a))"

definition method_ok :: "interface_method \<Rightarrow> bool" where
  "method_ok m = (im_name m \<noteq> [] \<and> list_all rust_word_char (im_name m) \<and> list_all arg_ok (im_args m) \<and>
     im_returns m \<noteq> [] \<and> tidy (im_returns m) = im_returns m \<and> plain (im_returns m))"

lemma word_plain: "list_all rust_word_char s \<Longrightarrow> plain s \<and> CHR '')'' \<notin> set s \<and> CHR '':'' \<notin> set s \<and> CHR ''('' \<notin> set s"
  by (auto simp: list_all_iff plain_def) (auto simp: rust_word_char_def)

lemma plain_append [simp]: "plain (s @ t) \<longleftrightarrow> plain s \<and> plain t"
  by (simp add: plain_def)

lemma no_comment: "CHR ''/'' \<notin> set s \<Longrightarrow> stripLineComments s = s"
proof (induction s)
  case (Cons c s)
  then have "starts ''//'' (c # s) = None" by (auto simp: starts_def)
  then show ?case using Cons by (subst stripLineComments.simps) simp
qed (subst stripLineComments.simps, simp)

lemma split_level: "level d p = Some d' \<Longrightarrow> split_loop d cur (p @ s) = split_loop d' (cur @ p) s"
  by (induction d p arbitrary: cur rule: level.induct) (auto simp: Let_def split: if_splits)

lemma interface_split_join:
  "list_all (\<lambda>p. level 0 p = Some 0) ps \<Longrightarrow> ps \<noteq> [] \<Longrightarrow>
    split_loop 0 cur (rust_join_with '', '' ps) = (cur @ hd ps) # map (Cons CHR '' '') (tl ps)"
proof (induction "'', ''" ps arbitrary: cur rule: rust_join_with.induct)
  case (2 x)
  then show ?case using split_level[of 0 x 0 cur "[]"] by simp
next
  case (3 x y xs)
  then have "split_loop 0 cur (x @ '', '' @ rust_join_with '', '' (y # xs)) = split_loop 0 (cur @ x) ('', '' @ rust_join_with '', '' (y # xs))"
    by (intro split_level) simp
  also have "\<dots> = (cur @ x) # split_loop 0 '' '' (rust_join_with '', '' (y # xs))" by simp
  finally show ?case using 3 by simp
qed simp

lemma trimmed_start: "js_trim p = p \<Longrightarrow> dropWhile js_ws p = p"
proof -
  assume "js_trim p = p"
  then have "length p \<le> length (dropWhile js_ws p)"
    using length_dropWhile_le[of js_ws "rev (dropWhile js_ws p)"] by (simp add: js_trim_def) (metis length_rev)
  then show ?thesis using takeWhile_dropWhile_id[of js_ws p] by (metis append_eq_conv_conj append_self_conv2 diff_is_0_eq drop_eq_Nil2 length_append le_add2 le_antisym add_cancel_left_left length_0_conv)
qed

lemma tidy_space: "tidy p = p \<Longrightarrow> tidy (CHR '' '' # p) = p"
proof -
  assume t: "tidy p = p"
  then have "js_trim p = p" by (metis js_trim_idem tidy_def)
  then have "dropWhile js_ws p = p" by (rule trimmed_start)
  moreover have "js_ws CHR '' ''" by (simp add: js_ws_def)
  ultimately show ?thesis using t by (simp add: tidy_def js_trim_def)
qed

lemma trim_space: "js_trim p = p \<Longrightarrow> js_trim (CHR '' '' # p) = p"
  by (simp add: js_trim_def js_ws_def)

lemma splitTopLevel_join:
  assumes "list_all (\<lambda>p. level 0 p = Some 0 \<and> tidy p = p \<and> p \<noteq> []) ps" "ps \<noteq> []"
  shows "splitTopLevel (rust_join_with '', '' ps) = ps"
proof -
  have "list_all (\<lambda>p. level 0 p = Some 0) ps" using assms(1) by (simp add: list_all_iff)
  then have "split_loop 0 [] (rust_join_with '', '' ps) = hd ps # map (Cons CHR '' '') (tl ps)"
    using interface_split_join[of ps "[]"] assms(2) by simp
  moreover have "map tidy (map (Cons CHR '' '') (tl ps)) = tl ps"
    using assms by (cases ps) (auto simp: list_all_iff tidy_space intro: map_idI)
  moreover have "tidy (hd ps) = hd ps" using assms by (cases ps) simp_all
  ultimately have "map tidy (split_loop 0 [] (rust_join_with '', '' ps)) = ps" using assms(2) by simp
  then show ?thesis using assms(1) by (simp add: splitTopLevel_def filter_id_conv list_all_iff)
qed

lemma js_split_first: "c \<notin> set n \<Longrightarrow> js_split c (n @ c # s) = n # js_split c s"
  by (induction n) (auto split: list.split)

lemma js_split_join: "rust_join_with [c] (js_split c s) = s"
proof (induction s)
  case (Cons x s)
  show ?case
  proof (cases "js_split c s")
    case Nil
    then show ?thesis using Cons by (cases s) (auto split: if_splits list.splits)
  next
    case (Cons w ws)
    then show ?thesis using \<open>rust_join_with [c] (js_split c s) = s\<close> by (cases ws) auto
  qed
qed simp

lemma parse_arg_text: "arg_ok a \<Longrightarrow> parse_arg (arg_text a) = a"
proof -
  assume a: "arg_ok a"
  then have n: "CHR '':'' \<notin> set (ia_name a)" "list_all rust_word_char (ia_name a)" using word_plain by (auto simp: arg_ok_def)
  have "\<not> js_ws c" if "rust_word_char c" for c using that by (auto simp: rust_word_char_def js_ws_def Let_def)
  then have "dropWhile js_ws s = s" if "list_all rust_word_char s" for s using that by (cases s) auto
  then have "js_trim (ia_name a) = ia_name a" using n(2) by (simp add: js_trim_def list_all_iff)
  then show ?thesis
    using a js_split_first[OF n(1), of "CHR '' '' # ia_type a"] js_split_join[of "CHR '':''" "CHR '' '' # ia_type a"]
    by (simp add: parse_arg_def arg_text_def arg_ok_def trim_space)
qed

lemma env_level: "level 0 ''env: Env'' = Some 0 \<and> tidy ''env: Env'' = ''env: Env''"
  by (simp add: tidy_def js_trim_def js_ws_def)

lemma env_parsed: "parse_arg ''env: Env'' = \<lparr>ia_name = ''env'', ia_type = ''Env''\<rparr>"
  by (simp add: parse_arg_def js_trim_def js_ws_def)

lemma read_method_text: "method_ok m \<Longrightarrow> read_method (im_name m, param_text m, Some (im_returns m)) = Some m"
proof -
  assume m: "method_ok m"
  then have a: "list_all arg_ok (im_args m)" by (simp add: method_ok_def)
  have "splitTopLevel (param_text m) = ''env: Env'' # map arg_text (im_args m)"
    unfolding param_text_def using a env_level
    by (intro splitTopLevel_join) (auto simp: list_all_iff arg_ok_def arg_text_def)
  moreover have "map parse_arg (map arg_text (im_args m)) = im_args m"
    using a by (auto simp: list_all_iff parse_arg_text intro: map_idI)
  ultimately show ?thesis using m by (simp add: read_method_def env_parsed method_ok_def)
qed

lemma params_plain: "method_ok m \<Longrightarrow> plain (param_text m) \<and> CHR '')'' \<notin> set (param_text m)"
proof -
  assume m: "method_ok m"
  have "plain (arg_text a) \<and> CHR '')'' \<notin> set (arg_text a)" if "a \<in> set (im_args m)" for a
    using that m word_plain[of "ia_name a"] by (auto simp: method_ok_def list_all_iff arg_ok_def arg_text_def) (auto simp: plain_def)
  then have "list_all (\<lambda>p. plain p \<and> CHR '')'' \<notin> set p) (''env: Env'' # map arg_text (im_args m))"
    by (auto simp: list_all_iff) (auto simp: plain_def)
  moreover have "list_all (\<lambda>p. plain p \<and> CHR '')'' \<notin> set p) ps \<Longrightarrow> plain (rust_join_with '', '' ps) \<and> CHR '')'' \<notin> set (rust_join_with '', '' ps)" for ps
    by (induction "'', ''" ps rule: rust_join_with.induct) (auto simp: plain_def)
  ultimately show ?thesis unfolding param_text_def by blast
qed

lemma cut_at:
  "c \<notin> set p \<Longrightarrow> takeWhile (\<lambda>x. x \<noteq> c) (p @ c # s) = p"
  "c \<notin> set p \<Longrightarrow> dropWhile (\<lambda>x. x \<noteq> c) (p @ c # s) = c # s"
  by (induction p) auto

lemma returns_captured:
  assumes "r \<noteq> []" "tidy r = r" "plain r"
  shows "return_capture ('' '' @ r @ '' {'' @ s) = Some (r, s)"
proof -
  have t: "js_trim r = r" using assms(2) by (metis js_trim_idem tidy_def)
  have d: "dropWhile js_ws r = r" using trimmed_start[OF t] .
  then have e: "dropWhile js_ws (rev r) = rev r" using t by (simp add: js_trim_def) (metis rev_rev_ident)
  have ws: "js_ws CHR '' ''" by (simp add: js_ws_def)
  have brace: "CHR ''{'' \<notin> set r" using assms(3) by (auto simp: plain_def list_all_iff)
  have body: "takeWhile (\<lambda>c. c \<noteq> CHR ''{'') ('' '' @ r @ '' {'' @ s) = '' '' @ r @ '' ''"
    "dropWhile (\<lambda>c. c \<noteq> CHR ''{'') ('' '' @ r @ '' {'' @ s) = CHR ''{'' # s"
    using brace cut_at[of "CHR ''{''" "'' '' @ r @ '' ''" s] by auto
  have h: "\<not> js_ws (hd r)" using d assms(1) by (cases r) (auto split: if_splits, metis dropWhile_eq_Cons_conv)
  then have "\<not> list_all js_ws ('' '' @ r @ '' '')" using assms(1) by (cases r) auto
  moreover have "dropWhile js_ws ('' '' @ r @ '' '') = r @ '' ''" using h ws assms(1) by (cases r) auto
  ultimately show ?thesis using body e ws by (simp add: return_capture_def Let_def)
qed

lemma fn_match_text:
  assumes "method_ok m"
  shows "fn_match (method_text m @ s) = Some (im_name m, param_text m, Some (im_returns m), s)"
proof -
  have n: "list_all rust_word_char (im_name m)" "im_name m \<noteq> []" using assms by (simp_all add: method_ok_def)
  have w: "\<not> rust_word_char CHR ''(''" "\<not> js_ws CHR ''(''" "js_ws CHR '' ''" "\<not> js_ws CHR ''-''" by (simp_all add: rust_word_char_def js_ws_def)
  have t: "takeWhile rust_word_char (im_name m @ CHR ''('' # u) = im_name m" "dropWhile rust_word_char (im_name m @ CHR ''('' # u) = CHR ''('' # u" for u
    using n(1) w by (simp_all add: takeWhile_append2 dropWhile_append2 list_all_iff)
  have p: "takeWhile (\<lambda>c. c \<noteq> CHR '')'') (param_text m @ CHR '')'' # u) = param_text m"
    "dropWhile (\<lambda>c. c \<noteq> CHR '')'') (param_text m @ CHR '')'' # u) = CHR '')'' # u" for u
    using params_plain[OF assms] by (simp_all add: cut_at)
  have r: "return_capture (CHR '' '' # im_returns m @ CHR '' '' # CHR ''{'' # s) = Some (im_returns m, s)"
    using returns_captured[of "im_returns m" s] assms by (simp add: method_ok_def)
  show ?thesis using n w by (simp add: fn_match_def method_text_def starts_def t p r Let_def)
qed

lemma scan_text:
  "list_all method_ok ms \<Longrightarrow>
    scan_fns False (concat (map (\<lambda>m. method_text m @ ''}'') ms)) = map (\<lambda>m. (im_name m, param_text m, Some (im_returns m))) ms"
proof (induction ms)
  case Nil
  then show ?case by (subst scan_fns.simps) simp
next
  case (Cons m ms)
  let ?rest = "concat (map (\<lambda>m. method_text m @ ''}'') ms)"
  have m: "fn_match (method_text m @ ''}'' @ ?rest) = Some (im_name m, param_text m, Some (im_returns m), ''}'' @ ?rest)"
    using Cons.prems by (intro fn_match_text) simp
  obtain c r where cr: "method_text m @ ''}'' @ ?rest = c # r" by (simp add: method_text_def)
  have brace: "scan_fns False (''}'' @ ?rest) = scan_fns False ?rest"
    by (subst scan_fns.simps) (simp add: fn_match_def starts_def rust_word_char_def)
  have "scan_fns False (method_text m @ ''}'' @ ?rest) = (im_name m, param_text m, Some (im_returns m)) # scan_fns False (''}'' @ ?rest)"
    by (subst scan_fns.simps) (use m cr in simp)
  then show ?case using Cons brace by simp
qed

lemma add_distinct:
  "distinct (map im_name (ms @ ns)) \<Longrightarrow> add_methods ms ds ns = (ms @ ns, ds)"
  by (induction ms ds ns rule: add_methods.induct) (auto simp: image_iff)

lemma brace_plain: "plain p \<Longrightarrow> brace_loop d (p @ s) = map_option (apfst (append p)) (brace_loop d s)"
  by (induction p) (cases "brace_loop d s"; auto simp: plain_def)+

lemma method_text_parts:
  "method_ok m \<Longrightarrow> \<exists>p. method_text m = p @ ''{'' \<and> plain p"
  using params_plain[of m] word_plain[of "im_name m"]
  by (intro exI[of _ "''pub fn '' @ im_name m @ ''('' @ param_text m @ '') -> '' @ im_returns m @ '' ''"])
    (auto simp: method_text_def method_ok_def, simp_all add: plain_def)

lemma brace_methods:
  "list_all method_ok ms \<Longrightarrow>
    brace_loop 1 (concat (map (\<lambda>m. method_text m @ ''}'') ms) @ ''}'') = Some (concat (map (\<lambda>m. method_text m @ ''}'') ms) @ ''}'', [])"
proof (induction ms)
  case (Cons m ms)
  then have "method_ok m" by simp
  then obtain p where "method_text m = p @ ''{''" "plain p" using method_text_parts by blast
  then show ?case using Cons by (simp add: brace_plain)
qed simp


definition deposit_ex :: interface_method where
  "deposit_ex = \<lparr>im_name = ''deposit'', im_args = [\<lparr>ia_name = ''id'', ia_type = ''Map<u32, u8>''\<rparr>], im_returns = ''u64''\<rparr>"


section \<open>Braces and enumerations\<close>

text \<open>The brace found closes the one the text starts with: the depth is back at zero there and nowhere before.\<close>

definition depth_of :: "string \<Rightarrow> int" where
  "depth_of s = int (length (filter (\<lambda>c. c = CHR ''{'') s)) - int (length (filter (\<lambda>c. c = CHR ''}'') s))"

lemma depth_Cons: "depth_of (c # s) = (if c = CHR ''{'' then 1 else 0) - (if c = CHR ''}'' then 1 else 0) + depth_of s"
  by (simp add: depth_of_def)

lemma depth_Nil [simp]: "depth_of [] = 0"
  by (simp add: depth_of_def)

lemma brace_exact:
  "0 < d \<Longrightarrow> brace_loop d s = Some (b, r) \<longleftrightarrow>
    s = b @ r \<and> d + depth_of b = 0 \<and> (\<forall>k < length b. 0 < d + depth_of (take k b))"
proof (induction d s arbitrary: b rule: brace_loop.induct)
  case (1 depth)
  then show ?case by (auto simp: depth_of_def)
next
  case (2 d c s)
  show ?case
  proof (cases b)
    case Nil
    then show ?thesis using 2 by (auto simp: depth_of_def)
  next
    case (Cons x b')
    show ?thesis
    proof (cases "c = CHR ''}'' \<and> d = 1")
      case True
      then show ?thesis using Cons by (auto simp: All_less_Suc2 depth_Cons dest!: spec[of _ "0 :: nat"])
    next
      case False
      then show ?thesis
        using 2(1)[of b'] 2(2)[of b'] 2(3)[of b'] 2(4) Cons
        by (cases "c = CHR ''{''"; cases "c = CHR ''}''"; cases "x = c") (auto simp: All_less_Suc2 depth_Cons algebra_simps)
    qed
  qed
qed

text \<open>
  An enumeration is lost when a structure with the same attribute stands before it: the match begins at the structure's
  attribute, is refused for the word in between, and the search goes on behind the enumeration.
\<close>

lemma enum_after_struct_lost:
  "enumBody ''contracttype'' ''#[contracttype] pub struct S { a: u32 } #[contracttype] pub enum E { A, B }'' = Some []"
  by code_simp

lemma enum_alone_found:
  "enumBody ''contracttype'' ''#[contracttype] pub enum E { A, B }'' = Some [(''E'', '' A, B '')]"
  by code_simp

end
