(* ===== verification/SettlementClient.thy ===== *)
theory SettlementClient
  imports Settlement ContractInterface Settings
begin

text \<open>
  What the settlement talks to the network through: the client of the escrow contract
  (\<open>SorobanSettlementClient\<close> of \<open>services/oracle-submit.ts\<close>) and the lookups of the registry transport
  (\<open>services/oracle-contract.ts\<close>). The Stellar SDK is a parameter: key pairs, the test of a contract identifier, URL
  parsing, and the answers of the RPC server, one record per conversation.
\<close>

section \<open>The client\<close>

record client_config =
  cc_rpcUrl :: string
  cc_networkPassphrase :: string
  cc_secretKey :: string
  cc_escrowContract :: string

record 'k settlement_client =
  sc_signer :: 'k
  sc_config :: client_config
  sc_allowHttp :: bool
  sc_timeout :: nat

text \<open>\<open>fromSecret\<close>, \<open>is_contract\<close> and \<open>url\<close> (protocol and host name) are the SDK's and the platform's; they throw where they
  give nothing.\<close>

definition newSettlementClient ::
  "(string \<Rightarrow> 'k option) \<Rightarrow> (string \<Rightarrow> bool) \<Rightarrow> (string \<Rightarrow> (string \<times> string) option) \<Rightarrow> client_config \<Rightarrow> string + 'k settlement_client" where
  "newSettlementClient fromSecret is_contract url config =
    (case fromSecret (cc_secretKey config) of
       None \<Rightarrow> Inl ''invalid secret key''
     | Some signer \<Rightarrow>
        if \<not> is_contract (cc_escrowContract config) then Inl ''invalid contract''
        else (case url (cc_rpcUrl config) of
            None \<Rightarrow> Inl ''Invalid URL''
          | Some (protocol, hostname) \<Rightarrow>
             (let local = hostname \<in> {''localhost'', ''127.0.0.1'', ''[::1]''} in
              if protocol \<noteq> ''https:'' \<and> \<not> local then Inl ''Insecure RPC is only allowed on loopback''
              else Inr \<lparr>sc_signer = signer, sc_config = config, sc_allowHttp = local, sc_timeout = 10000\<rparr>)))"

definition required_env :: "(string \<Rightarrow> string option) \<Rightarrow> string \<Rightarrow> string + string" where
  "required_env env name =
    (if falsy (env name) then Inl (name @ '' is required for oracle settlement'') else Inr (the (env name)))"

definition client_fromEnvironment :: "(string \<Rightarrow> string option) \<Rightarrow> string + client_config" where
  "client_fromEnvironment env =
    (case required_env env ''STELLAR_RPC_URL'' of Inl e \<Rightarrow> Inl e | Inr rpcUrl \<Rightarrow>
     (case required_env env ''STELLAR_NETWORK_PASSPHRASE'' of Inl e \<Rightarrow> Inl e | Inr passphrase \<Rightarrow>
      (case required_env env ''ORACLE_SECRET_KEY'' of Inl e \<Rightarrow> Inl e | Inr secret \<Rightarrow>
       (case required_env env ''CONTRACT_ESCROW'' of Inl e \<Rightarrow> Inl e | Inr escrow \<Rightarrow>
          Inr \<lparr>cc_rpcUrl = rpcUrl, cc_networkPassphrase = passphrase, cc_secretKey = secret, cc_escrowContract = escrow\<rparr>))))"

section \<open>Its calls\<close>

text \<open>A simulation fails, succeeds without a result, or returns a native value.\<close>

datatype 'v simulation = SimFailed | SimEmpty | SimReturned 'v

definition client_getMatch :: "rat \<Rightarrow> bool \<Rightarrow> 'v simulation option \<Rightarrow> string + 'v" where
  "client_getMatch matchId account sim =
    (if sc_u64 matchId = None then Inl ''invalid match id''
     else if \<not> account then Inl ''account not found''
     else (case sim of
        None \<Rightarrow> Inl ''RPC failed''
      | Some (SimReturned v) \<Rightarrow> Inr v
      | Some _ \<Rightarrow> Inl ''Unable to read escrow match''))"

text \<open>The call a settlement makes, by the signer's public key.\<close>

definition settle_call :: "string \<Rightarrow> submission \<Rightarrow> (string \<times> sc_val list) option" where
  "settle_call publicKey sub =
    (let winner = (case sub_result sub of Player1Wins \<Rightarrow> ''Player1'' | Player2Wins \<Rightarrow> ''Player2'' | Draw \<Rightarrow> ''Draw'') in
     case sc_u64 (of_int (sub_matchId sub)) of
       None \<Rightarrow> None
     | Some i \<Rightarrow> Some (''submit_result'', [i, ScString (sub_gameId sub), ScVec [ScSymbol winner], ScAddress publicKey]))"

text \<open>What the SDK makes of a call: the signed transaction, without time bounds when it has none.\<close>

record sdk_transaction =
  sdk_hash :: string
  sdk_xdr :: string
  sdk_maxTime :: "nat option"

definition client_prepare ::
  "string \<Rightarrow> submission \<Rightarrow> bool \<Rightarrow> (string \<times> sc_val list \<Rightarrow> sdk_transaction option) \<Rightarrow> settlement_tx option" where
  "client_prepare publicKey sub account build =
    (case settle_call publicKey sub of
       None \<Rightarrow> None
     | Some call \<Rightarrow>
        if \<not> account then None
        else (case build call of
            None \<Rightarrow> None
          | Some t \<Rightarrow>
             (case sdk_maxTime t of
                None \<Rightarrow> None
              | Some m \<Rightarrow> Some \<lparr>tx_hash = sdk_hash t, tx_envelope = sdk_xdr t, tx_expiresAt = int m * 1000\<rparr>)))"

definition client_send :: "string option \<Rightarrow> bool" where
  "client_send status = (case status of None \<Rightarrow> False | Some s \<Rightarrow> s \<noteq> ''ERROR'')"

text \<open>One step of the outbox over this client: the answers of the server and of the store as the step sees them.\<close>

record rpc_answers =
  ra_account :: bool
  ra_build :: "string \<times> sc_val list \<Rightarrow> sdk_transaction option"
  ra_status :: "chain_status option"
  ra_sent :: "string option"
  ra_status2 :: "chain_status option"
  ra_saved :: "bool \<times> bool \<times> bool"

definition client_io :: "string \<Rightarrow> submission option \<Rightarrow> rpc_answers \<Rightarrow> settlement_io" where
  "client_io publicKey sub a =
    \<lparr>io_prepare = (case sub of None \<Rightarrow> None | Some s \<Rightarrow> client_prepare publicKey s (ra_account a) (ra_build a)),
     io_save_tx = fst (ra_saved a), io_status = ra_status a, io_save_status = fst (snd (ra_saved a)),
     io_send = client_send (ra_sent a), io_status2 = ra_status2 a, io_save_last = snd (snd (ra_saved a))\<rparr>"

definition client_advance :: "string \<Rightarrow> string \<Rightarrow> int \<Rightarrow> rpc_answers \<Rightarrow> settlement \<Rightarrow> outbox \<Rightarrow> advance_result" where
  "client_advance publicKey scope now a r rows = advanceSettlement scope now (client_io publicKey (st_submission r) a) r rows"

section \<open>The registry\<close>

text \<open>The native value returned: a boolean, or \<open>None\<close> for a value of another type.\<close>

definition hasResult :: "rat \<Rightarrow> bool option simulation option \<Rightarrow> string + bool" where
  "hasResult matchId sim =
    (if sc_u64 matchId = None then Inl ''invalid match id''
     else (case sim of
        None \<Rightarrow> Inl ''RPC failed''
      | Some (SimReturned v) \<Rightarrow>
         (case v of None \<Rightarrow> Inl ''Oracle result lookup returned an invalid value'' | Some b \<Rightarrow> Inr b)
      | Some _ \<Rightarrow> Inl ''Oracle result lookup failed''))"

definition oracleNetworkPassphrase :: "string \<Rightarrow> string \<Rightarrow> (string \<Rightarrow> string option) \<Rightarrow> string + string" where
  "oracleNetworkPassphrase testnet public env =
    (if \<not> falsy (env ''STELLAR_NETWORK_PASSPHRASE'') then Inr (the (env ''STELLAR_NETWORK_PASSPHRASE''))
     else (let network = (case env ''STELLAR_NETWORK'' of None \<Rightarrow> ''testnet'' | Some n \<Rightarrow> n) in
       if network = ''testnet'' then Inr testnet
       else if network = ''mainnet'' then Inr public
       else Inl ''Set STELLAR_NETWORK_PASSPHRASE for a custom Stellar network''))"

section \<open>Lemmas\<close>

text \<open>No key is used over an unencrypted connection to another machine.\<close>

lemma client_encrypted:
  assumes "newSettlementClient fromSecret is_contract url config = Inr c"
  shows "\<exists>protocol host. url (cc_rpcUrl config) = Some (protocol, host) \<and>
    (protocol = ''https:'' \<or> host \<in> {''localhost'', ''127.0.0.1'', ''[::1]''}) \<and>
    (sc_allowHttp c \<longrightarrow> host \<in> {''localhost'', ''127.0.0.1'', ''[::1]''})"
  using assms by (auto simp: newSettlementClient_def Let_def split: option.splits if_splits)

lemma environment_complete:
  assumes "client_fromEnvironment env = Inr c"
  shows "env ''STELLAR_RPC_URL'' = Some (cc_rpcUrl c) \<and> env ''STELLAR_NETWORK_PASSPHRASE'' = Some (cc_networkPassphrase c) \<and>
    env ''ORACLE_SECRET_KEY'' = Some (cc_secretKey c) \<and> env ''CONTRACT_ESCROW'' = Some (cc_escrowContract c) \<and>
    [] \<notin> {cc_rpcUrl c, cc_networkPassphrase c, cc_secretKey c, cc_escrowContract c}"
  using assms by (auto simp: client_fromEnvironment_def required_env_def falsy_def split: sum.splits if_splits)

text \<open>The client writes its arguments out; they are those of the shared serializer.\<close>

lemma settle_call_serialized:
  assumes "is_address publicKey"
  shows "settle_call publicKey sub = map_option (Pair ''submit_result'')
    (serializeSubmitResultArgs is_address (of_int (sub_matchId sub)) (sub_gameId sub) (sub_result sub) publicKey)"
  using assms by (simp add: settle_call_def serializeSubmitResultArgs_def unitEnumToScVal_def toEscrowWinner_def split: option.split)

text \<open>A match whose identifier is no unsigned integer is never broadcast: the step stops before it saved anything.\<close>

lemma negative_match_stops:
  assumes "st_submission r = Some sub" "sub_matchId sub < 0" "st_transaction r = None" "st_state r = PendingSt"
  shows "client_advance publicKey scope now a r rows = advance_stop r rows []"
  using assms by (simp add: client_advance_def advanceSettlement_def client_io_def client_prepare_def settle_call_def sc_u64_def)

text \<open>What a step broadcasts is the transaction of the record: the one it had, or the one just built for its submission
  and saved.\<close>

lemma client_broadcasts_own:
  assumes "client_advance publicKey scope now a r rows = res" "(e, table) \<in> set (ar_sent res)"
  shows "\<exists>t. tx_envelope t = e \<and> (st_transaction r = Some t \<or>
    (st_transaction r = None \<and> (\<exists>sub call d. st_submission r = Some sub \<and> settle_call publicKey sub = Some call \<and>
       ra_build a call = Some d \<and> sdk_xdr d = e)))"
proof (cases "st_transaction r")
  case (Some t)
  then show ?thesis using assms
    by (auto simp: client_advance_def advanceSettlement_def advance_status_def advance_stop_def advance_finish_def Let_def
        split: if_splits option.splits)
next
  case None
  show ?thesis
  proof (cases "io_prepare (client_io publicKey (st_submission r) a)")
    case None
    then show ?thesis using assms \<open>st_transaction r = None\<close>
      by (auto simp: client_advance_def advanceSettlement_def advance_stop_def split: if_splits)
  next
    case (Some t)
    then have e: "tx_envelope t = e" using assms \<open>st_transaction r = None\<close>
      by (auto simp: client_advance_def advanceSettlement_def advance_status_def advance_stop_def advance_finish_def Let_def
          split: if_splits option.splits)
    obtain sub call d where "st_submission r = Some sub" "settle_call publicKey sub = Some call" "ra_build a call = Some d" "sdk_xdr d = tx_envelope t"
      using Some by (auto simp: client_io_def client_prepare_def split: option.splits if_splits)
    then show ?thesis using e \<open>st_transaction r = None\<close> by (cases call) auto
  qed
qed

end
