(* ===== verification/History.thy ===== *)
theory History
  imports Wallet ChessTypes
begin

text \<open>
  The history page: the cache of the network history (\<open>pages/history-cache.ts\<close>), the page around it
  (\<open>pages/History.tsx\<close>) and the pager of a wallet's wagers (\<open>pages/WagerHistory.tsx\<close>). Horizon, the parser of
  query texts, \<open>toLocaleString\<close> and the clock are parameters; a run interleaves the props, the buttons and the
  answers of all requests under way.
\<close>

section \<open>The cache\<close>

record history_row =
  hr_id :: string
  hr_hash :: string
  hr_source :: string
  hr_fee :: string
  hr_status :: string
  hr_date :: string

record history_entry =
  he_history :: "history_row list"
  he_nextCursor :: "string option"
  he_fetchedAt :: int

text \<open>The fields of the object passed as scope; \<open>None\<close> is a field it does not have.\<close>

record history_scope =
  hs_network :: "string option"
  hs_contractId :: "string option"

text \<open>The key is the array that the code writes out with \<open>JSON.stringify\<close> and reads back with \<open>JSON.parse\<close>; a
  missing field becomes \<open>null\<close>. The value \<open>None\<close> is an entry that is undefined.\<close>

type_synonym history_key = "string \<times> string option \<times> string option"
type_synonym history_cache = "(history_key, history_entry option) jsmap"

definition DEFAULT_HISTORY_CACHE_TTL_MS :: int where "DEFAULT_HISTORY_CACHE_TTL_MS = 30000"

text \<open>Without a scope, reading its fields throws.\<close>

definition cacheKey :: "string \<Rightarrow> history_scope option \<Rightarrow> string + history_key" where
  "cacheKey wallet scope = (case scope of
      None \<Rightarrow> Inl ''TypeError''
    | Some s \<Rightarrow> Inr (wallet, hs_network s, hs_contractId s))"

definition getHistoryCacheEntry :: "history_cache \<Rightarrow> string \<Rightarrow> history_scope option \<Rightarrow> string + history_entry option" where
  "getHistoryCacheEntry cache wallet scope = (case cacheKey wallet scope of
      Inl e \<Rightarrow> Inl e
    | Inr k \<Rightarrow> Inr (case map_of cache k of None \<Rightarrow> None | Some v \<Rightarrow> v))"

definition setHistoryCacheEntry :: "string \<Rightarrow> history_scope option \<Rightarrow> history_entry option \<Rightarrow> history_cache \<Rightarrow> string + history_cache" where
  "setHistoryCacheEntry wallet scope entry cache = (case cacheKey wallet scope of
      Inl e \<Rightarrow> Inl e
    | Inr k \<Rightarrow> Inr (AList.update k entry cache))"

definition invalidateHistoryCache :: "string option \<Rightarrow> history_cache \<Rightarrow> history_cache" where
  "invalidateHistoryCache wallet cache = (if falsy wallet then [] else filter (\<lambda>(k, _). fst k \<noteq> the wallet) cache)"

section \<open>The page\<close>

definition HISTORY_PAGE_SIZE :: nat where "HISTORY_PAGE_SIZE = 20"

record horizon_tx =
  hx_hash :: string
  hx_source_account :: string
  hx_successful :: bool
  hx_fee_charged :: string
  hx_created_at :: string

definition parseCursor :: "(string \<Rightarrow> (string \<times> string) list option) \<Rightarrow> string \<Rightarrow> string option" where
  "parseCursor params href = (case params href of None \<Rightarrow> None | Some ps \<Rightarrow> map_of ps ''cursor'')"

definition mapRecord :: "(string \<Rightarrow> string) \<Rightarrow> horizon_tx \<Rightarrow> history_row" where
  "mapRecord local r =
    \<lparr>hr_id = hx_hash r, hr_hash = hx_hash r, hr_source = hx_source_account r, hr_fee = hx_fee_charged r @ '' stroops'',
     hr_status = (if hx_successful r then ''Success'' else ''Failed''), hr_date = local (hx_created_at r)\<rparr>"

record history_page =
  hy_history :: "history_row list"
  hy_loading :: bool
  hy_loadingMore :: bool
  hy_error :: "string option"
  hy_nextCursor :: "string option"

definition initial_history :: history_page where
  "initial_history = \<lparr>hy_history = [], hy_loading = False, hy_loadingMore = False, hy_error = None, hy_nextCursor = None\<rparr>"

record history_request =
  hq_publicKey :: string
  hq_append :: bool
  hq_path :: string
  hq_params :: "(string \<times> string) list"

record history_world =
  hw_status :: wallet_status
  hw_publicKey :: "string option"
  hw_ttl :: int
  hw_page :: history_page
  hw_requests :: "history_request list"
  hw_cache :: history_cache

text \<open>\<open>fetchPage\<close> up to the request, and from its answer on.\<close>

definition fetchPage_start :: "string \<Rightarrow> string option \<Rightarrow> bool \<Rightarrow> bool \<Rightarrow> history_world \<Rightarrow> history_world" where
  "fetchPage_start horizonUrl cursor appending background w =
    (if falsy (hw_publicKey w) then w
     else (let p = hw_page w;
               p' = (if appending then p\<lparr>hy_loadingMore := True\<rparr> else if \<not> background then p\<lparr>hy_loading := True\<rparr> else p);
               key = the (hw_publicKey w) in
       w\<lparr>hw_page := p'\<lparr>hy_error := None\<rparr>,
         hw_requests := hw_requests w @
           [\<lparr>hq_publicKey = key, hq_append = appending, hq_path = horizonUrl @ ''/accounts/'' @ key @ ''/transactions'',
             hq_params = [(''limit'', nat_text HISTORY_PAGE_SIZE), (''order'', ''desc'')] @
               (if falsy cursor then [] else [(''cursor'', the cursor)])\<rparr>]\<rparr>))"

text \<open>The fetch or the reading of its body fails (with the message of an \<open>Error\<close>), the status is not ok, or the
  document gives its records and the link to the next page.\<close>

datatype history_answer =
    HistoryFailed "string option"
  | HistoryNotOk
  | HistoryData "horizon_tx list option" "string option"

text \<open>The entry is passed where the scope is expected: it has neither field, and the entry itself is missing.\<close>

definition entry_as_scope :: "history_entry \<Rightarrow> history_scope" where
  "entry_as_scope e = \<lparr>hs_network = None, hs_contractId = None\<rparr>"

definition fetchPage_answered ::
  "(string \<Rightarrow> (string \<times> string) list option) \<Rightarrow> (string \<Rightarrow> string) \<Rightarrow> int \<Rightarrow> history_request \<Rightarrow> history_answer \<Rightarrow> history_world \<Rightarrow> history_world" where
  "fetchPage_answered params local now q a w =
    (let finish = (\<lambda>w'. w'\<lparr>hw_page := (if hq_append q then (hw_page w')\<lparr>hy_loadingMore := False\<rparr> else (hw_page w')\<lparr>hy_loading := False\<rparr>)\<rparr>);
         fail = (\<lambda>m w'. w'\<lparr>hw_page := (hw_page w')\<lparr>hy_error := Some m\<rparr>\<rparr>) in
     case a of
       HistoryFailed m \<Rightarrow> finish (fail (case m of Some t \<Rightarrow> t | None \<Rightarrow> ''Failed to load history'') w)
     | HistoryNotOk \<Rightarrow> finish (fail ''Unable to load transaction history'' w)
     | HistoryData found nextHref \<Rightarrow>
         (let records = (case found of None \<Rightarrow> [] | Some rs \<Rightarrow> rs);
              rows = map (mapRecord local) records;
              derived = (if falsy nextHref then None else parseCursor params (the nextHref));
              nextCursor = (if length records < HISTORY_PAGE_SIZE then None else derived);
              w1 = w\<lparr>hw_page := (hw_page w)\<lparr>hy_history := (if hq_append q then hy_history (hw_page w) @ rows else rows),
                hy_nextCursor := nextCursor\<rparr>\<rparr> in
          if hq_append q then finish w1
          else (case setHistoryCacheEntry (hq_publicKey q)
                  (Some (entry_as_scope \<lparr>he_history = rows, he_nextCursor = nextCursor, he_fetchedAt = now\<rparr>)) None (hw_cache w) of
              Inl m \<Rightarrow> finish (fail m w1)
            | Inr c \<Rightarrow> finish (w1\<lparr>hw_cache := c\<rparr>))))"

text \<open>The effect: \<open>None\<close> is an exception, which unmounts the page.\<close>

definition history_cached :: "string \<Rightarrow> int \<Rightarrow> history_entry option \<Rightarrow> history_world \<Rightarrow> history_world" where
  "history_cached horizonUrl now cached w =
    (let fresh = (case cached of None \<Rightarrow> False | Some e \<Rightarrow> now - he_fetchedAt e < hw_ttl w);
         w1 = w\<lparr>hw_page := (case cached of
            Some e \<Rightarrow> (hw_page w)\<lparr>hy_history := he_history e, hy_nextCursor := he_nextCursor e\<rparr>
          | None \<Rightarrow> (hw_page w)\<lparr>hy_nextCursor := None\<rparr>)\<rparr> in
     if cached = None \<or> \<not> fresh then fetchPage_start horizonUrl None False (cached \<noteq> None) w1 else w1)"

definition history_effect :: "string \<Rightarrow> int \<Rightarrow> history_world \<Rightarrow> history_world option" where
  "history_effect horizonUrl now w =
    (if hw_status w \<noteq> WalConnected \<or> falsy (hw_publicKey w) then
       Some (w\<lparr>hw_page := (hw_page w)\<lparr>hy_history := [], hy_nextCursor := None, hy_error := None, hy_loading := False\<rparr>\<rparr>)
     else (case getHistoryCacheEntry (hw_cache w) (the (hw_publicKey w)) None of
        Inl _ \<Rightarrow> None
      | Inr cached \<Rightarrow> Some (history_cached horizonUrl now cached w)))"

definition handleLoadMore :: "string \<Rightarrow> history_world \<Rightarrow> history_world" where
  "handleLoadMore horizonUrl w =
    (if \<not> falsy (hy_nextCursor (hw_page w)) \<and> \<not> hy_loadingMore (hw_page w)
     then fetchPage_start horizonUrl (hy_nextCursor (hw_page w)) True False w else w)"

datatype history_event =
    HistoryProps wallet_status "string option" int
  | HistoryMore
  | HistoryAnswer nat history_answer

definition history_step ::
  "string \<Rightarrow> (string \<Rightarrow> (string \<times> string) list option) \<Rightarrow> (string \<Rightarrow> string) \<Rightarrow> int \<times> history_event \<Rightarrow> history_world \<Rightarrow> history_world option" where
  "history_step horizonUrl params local e w =
    (let now = fst e in case snd e of
       HistoryProps st key ttl \<Rightarrow>
         (let w' = w\<lparr>hw_status := st, hw_publicKey := key, hw_ttl := ttl\<rparr> in
          if w' = w then Some w else history_effect horizonUrl now w')
     | HistoryMore \<Rightarrow> Some (handleLoadMore horizonUrl w)
     | HistoryAnswer i a \<Rightarrow>
         if i < length (hw_requests w) then
           Some (fetchPage_answered params local now (hw_requests w ! i) a
             (w\<lparr>hw_requests := take i (hw_requests w) @ drop (Suc i) (hw_requests w)\<rparr>))
         else Some w)"

definition history_mount :: "string \<Rightarrow> int \<Rightarrow> wallet_status \<Rightarrow> string option \<Rightarrow> int \<Rightarrow> history_cache \<Rightarrow> history_world option" where
  "history_mount horizonUrl now st key ttl cache =
    history_effect horizonUrl now
      \<lparr>hw_status = st, hw_publicKey = key, hw_ttl = ttl, hw_page = initial_history, hw_requests = [], hw_cache = cache\<rparr>"

text \<open>What is drawn: the request to connect, or the wallet of the wagers above, the loading line, the error, the empty
  line, the rows and the button.\<close>

record history_drawing =
  hd_wagers :: "string option"
  hd_loading :: bool
  hd_error :: "string option"
  hd_empty :: bool
  hd_rows :: "history_row list"
  hd_more :: bool

definition history_view :: "history_world \<Rightarrow> history_drawing option" where
  "history_view w =
    (if hw_status w \<noteq> WalConnected then None
     else (let p = hw_page w; shown = (\<not> hy_loading p \<and> hy_history p \<noteq> []) in
       Some \<lparr>hd_wagers = (if falsy (hw_publicKey w) then None else hw_publicKey w), hd_loading = hy_loading p,
         hd_error = (if falsy (hy_error p) then None else hy_error p),
         hd_empty = (\<not> hy_loading p \<and> falsy (hy_error p) \<and> hy_history p = []),
         hd_rows = (if shown then hy_history p else []), hd_more = (shown \<and> \<not> falsy (hy_nextCursor p))\<rparr>))"

section \<open>The wagers\<close>

type_synonym wager_page = "wager_row list \<times> nat"

record wager_view =
  wh_page :: "wager_page option"
  wh_before :: "nat option"
  wh_error :: string

text \<open>The requests under way: where each starts and whether its effect is still the current one.\<close>

type_synonym wager_world = "wager_view \<times> (nat option \<times> bool) list"

definition wager_mount :: "bool \<Rightarrow> wager_world" where
  "wager_mount ready = (\<lparr>wh_page = None, wh_before = None, wh_error = []\<rparr>, if ready then [(None, True)] else [])"

datatype wager_event = WagerOlder | WagerAnswer nat "string + wager_page"

definition wager_older :: "bool \<Rightarrow> wager_world \<Rightarrow> wager_world" where
  "wager_older ready w =
    (let (v, qs) = w in
     case wh_page v of None \<Rightarrow> w
     | Some (rows, cursor) \<Rightarrow>
        if \<not> ready \<or> wh_error v \<noteq> [] \<or> cursor = 0 then w
        else (v\<lparr>wh_page := None, wh_before := Some cursor\<rparr>,
          if wh_before v = Some cursor then qs else map (\<lambda>(b, _). (b, False)) qs @ [(Some cursor, True)]))"

definition wager_answered :: "nat \<Rightarrow> string + wager_page \<Rightarrow> wager_world \<Rightarrow> wager_world" where
  "wager_answered i r w =
    (let (v, qs) = w in
     if length qs \<le> i then w
     else (let qs' = take i qs @ drop (Suc i) qs in
       if \<not> snd (qs ! i) then (v, qs')
       else (case r of Inl m \<Rightarrow> (v\<lparr>wh_error := m\<rparr>, qs') | Inr p \<Rightarrow> (v\<lparr>wh_page := Some p\<rparr>, qs'))))"

definition wager_step :: "bool \<Rightarrow> wager_event \<Rightarrow> wager_world \<Rightarrow> wager_world" where
  "wager_step ready e w = (case e of WagerOlder \<Rightarrow> wager_older ready w | WagerAnswer i r \<Rightarrow> wager_answered i r w)"

datatype wager_drawing = WagersUnconfigured | WagersFailed string | WagersLoading | WagersShown "wager_row list" bool

definition wager_drawn :: "bool \<Rightarrow> wager_view \<Rightarrow> wager_drawing" where
  "wager_drawn ready v =
    (if \<not> ready then WagersUnconfigured
     else if wh_error v \<noteq> [] then WagersFailed (wh_error v)
     else (case wh_page v of None \<Rightarrow> WagersLoading | Some (rows, cursor) \<Rightarrow> WagersShown rows (0 < cursor)))"

text \<open>Runs in which each answer is what the escrow records give for the request that is answered.\<close>

inductive wager_run :: "(nat option \<Rightarrow> string + wager_page) \<Rightarrow> bool \<Rightarrow> wager_world \<Rightarrow> bool" for ask ready where
  wager_start: "wager_run ask ready (wager_mount ready)"
| wager_click: "wager_run ask ready w \<Longrightarrow> wager_run ask ready (wager_step ready WagerOlder w)"
| wager_reply: "wager_run ask ready w \<Longrightarrow> i < length (snd w) \<Longrightarrow> ask (fst (snd w ! i)) = r \<Longrightarrow>
    wager_run ask ready (wager_step ready (WagerAnswer i r) w)"

section \<open>Lemmas\<close>

lemma fold_bind_None: "fold (\<lambda>e w. Option.bind w (f e)) es None = None"
  by (induction es) auto

text \<open>Entries are kept apart by wallet, network and contract, and one wallet's entries go without touching another's.\<close>

lemma cache_lookup:
  assumes "setHistoryCacheEntry wallet (Some s) entry cache = Inr c"
  shows "getHistoryCacheEntry c wallet' (Some s') =
    (if (wallet', hs_network s', hs_contractId s') = (wallet, hs_network s, hs_contractId s) then Inr entry
     else getHistoryCacheEntry cache wallet' (Some s'))"
  using assms by (auto simp: setHistoryCacheEntry_def getHistoryCacheEntry_def cacheKey_def jsmap_simps split: option.splits)

lemma map_of_filter_fst: "map_of (filter (\<lambda>(k, _). P k) xs) k = (if P k then map_of xs k else None)"
  by (induction xs) auto

lemma cache_invalidated:
  "getHistoryCacheEntry (invalidateHistoryCache (Some w) cache) wallet (Some s) =
    (if w = [] \<or> wallet = w then Inr None else getHistoryCacheEntry cache wallet (Some s))"
  by (auto simp: invalidateHistoryCache_def getHistoryCacheEntry_def cacheKey_def falsy_def
      map_of_filter_fst[where P = "\<lambda>k. fst k \<noteq> w"] split: option.splits)

text \<open>A page answered after \<open>Load more\<close> is added below the rows, and the button goes away with a short page.\<close>

lemma more_appends:
  assumes "hq_append q" "a = HistoryData (Some records) (Some href)"
  shows "hy_history (hw_page (fetchPage_answered params local now q a w)) = hy_history (hw_page w) @ map (mapRecord local) records \<and>
    (length records < 20 \<longrightarrow> hy_nextCursor (hw_page (fetchPage_answered params local now q a w)) = None)"
  using assms by (simp add: fetchPage_answered_def Let_def HISTORY_PAGE_SIZE_def)

text \<open>The history of a connected wallet never appears: the effect reads the cache without a scope and throws.\<close>

lemma history_effect_crashes:
  "history_effect horizonUrl now w = None \<longleftrightarrow> hw_status w = WalConnected \<and> \<not> falsy (hw_publicKey w)"
  by (simp add: history_effect_def getHistoryCacheEntry_def cacheKey_def)

definition history_idle :: "history_world \<Rightarrow> bool" where
  "history_idle w \<longleftrightarrow> hw_requests w = [] \<and> hy_history (hw_page w) = [] \<and> hy_nextCursor (hw_page w) = None \<and>
    \<not> (hw_status w = WalConnected \<and> \<not> falsy (hw_publicKey w))"

lemma history_effect_idle:
  "history_effect horizonUrl now w = Some w' \<Longrightarrow> hw_requests w = [] \<Longrightarrow> history_idle w' \<and> hw_cache w' = hw_cache w"
  by (auto simp: history_effect_def getHistoryCacheEntry_def cacheKey_def history_idle_def split: if_splits)

lemma history_step_idle:
  assumes "history_step horizonUrl params local e w = Some w'" "history_idle w"
  shows "history_idle w' \<and> hw_cache w' = hw_cache w"
proof (cases "snd e")
  case (HistoryProps st key ttl)
  show ?thesis
  proof (cases "w\<lparr>hw_status := st, hw_publicKey := key, hw_ttl := ttl\<rparr> = w")
    case True
    then show ?thesis using assms HistoryProps by (simp add: history_step_def)
  next
    case False
    then have "history_effect horizonUrl (fst e) (w\<lparr>hw_status := st, hw_publicKey := key, hw_ttl := ttl\<rparr>) = Some w'"
      using assms(1) HistoryProps by (simp add: history_step_def Let_def)
    from history_effect_idle[OF this] show ?thesis using assms(2) by (simp add: history_idle_def)
  qed
next
  case HistoryMore
  then show ?thesis using assms by (auto simp: history_step_def handleLoadMore_def falsy_def history_idle_def)
next
  case (HistoryAnswer i a)
  then show ?thesis using assms by (auto simp: history_step_def history_idle_def)
qed

lemma history_run_idle:
  assumes "history_idle w" "fold (\<lambda>e w. Option.bind w (history_step horizonUrl params local e)) es (Some w) = Some w'"
  shows "history_idle w' \<and> hw_cache w' = hw_cache w"
  using assms
proof (induction es arbitrary: w)
  case (Cons e es)
  then obtain v where v: "history_step horizonUrl params local e w = Some v"
    by (cases "history_step horizonUrl params local e w") (simp_all add: fold_bind_None)
  with Cons.prems history_step_idle[OF v] Cons.IH[of v] show ?case by simp
qed simp

text \<open>The network history never loads. Mounting the page, or giving it new props, throws exactly when a wallet is
  connected, because the cache is read without its scope; in every run of the page that has not thrown, no request was
  ever sent, no row is drawn, and the cache is as it was.\<close>
lemma history_never_loads:
  assumes "history_mount horizonUrl now st key ttl cache = Some w0"
    and "fold (\<lambda>e w. Option.bind w (history_step horizonUrl params local e)) es (Some w0) = Some w"
  shows "\<not> (st = WalConnected \<and> \<not> falsy key) \<and> hw_requests w = [] \<and> hw_cache w = cache \<and>
    (case history_view w of None \<Rightarrow> True | Some d \<Rightarrow> hd_wagers d = None \<and> hd_rows d = [])"
proof -
  have "history_idle w0 \<and> hw_cache w0 = cache"
    using history_effect_idle[OF assms(1)[unfolded history_mount_def]] by simp
  moreover have "\<not> (st = WalConnected \<and> \<not> falsy key)"
    using assms(1) history_effect_crashes[of horizonUrl now] by (auto simp: history_mount_def history_effect_def getHistoryCacheEntry_def cacheKey_def split: if_splits)
  ultimately show ?thesis using history_run_idle[OF _ assms(2)]
    by (auto simp: history_idle_def history_view_def Let_def split: option.splits)
qed

lemma history_never_loads_example:
  "\<exists>w. history_mount ''H'' 0 WalDisconnected None 30000 [] = Some w \<and> hw_requests w = []"
proof -
  obtain w where w: "history_mount ''H'' 0 WalDisconnected None 30000 [] = Some w"
    by (simp add: history_mount_def history_effect_def)
  then show ?thesis using history_never_loads[OF w, of "\<lambda>_. None" id "[]" w] by simp
qed

text \<open>The pager of wagers: what is shown is the page of the place it stands at, at most one request counts, and an
  error stays.\<close>

definition wager_inv :: "(nat option \<Rightarrow> string + wager_page) \<Rightarrow> bool \<Rightarrow> wager_world \<Rightarrow> bool" where
  "wager_inv ask ready w \<longleftrightarrow>
    (\<forall>p. wh_page (fst w) = Some p \<longrightarrow> ask (wh_before (fst w)) = Inr p) \<and>
    (\<forall>q \<in> set (snd w). snd q \<longrightarrow> fst q = wh_before (fst w))"

lemma wager_older_inv: "wager_inv ask ready w \<Longrightarrow> wager_inv ask ready (wager_older ready w)"
  by (cases w) (auto simp: wager_inv_def wager_older_def Let_def split: option.splits)

lemma wager_answered_inv:
  assumes "wager_inv ask ready w" "i < length (snd w)" "ask (fst (snd w ! i)) = r"
  shows "wager_inv ask ready (wager_answered i r w)"
proof -
  obtain v qs where w: "w = (v, qs)" by (cases w)
  have "qs ! i \<in> set qs" using assms(2) w by simp
  then have "snd (qs ! i) \<longrightarrow> fst (qs ! i) = wh_before v" using assms(1) w by (simp add: wager_inv_def)
  then show ?thesis using assms w
    by (auto simp: wager_inv_def wager_answered_def Let_def dest: in_set_takeD in_set_dropD split: sum.splits)
qed

lemma wager_mount_inv: "wager_inv ask ready (wager_mount ready)"
  by (simp add: wager_inv_def wager_mount_def)

lemma wager_run_inv: "wager_run ask ready w \<Longrightarrow> wager_inv ask ready w"
  by (induction rule: wager_run.induct)
    (simp_all add: wager_step_def wager_mount_inv wager_older_inv wager_answered_inv)

text \<open>Whatever the order of clicks and answers, the wagers drawn are those of the twenty escrow records before the
  place of the pager, and no other page's.\<close>

lemma wagers_drawn_complete:
  assumes "wager_run (fetchWagerPage get count wallet) ready w" "wager_drawn ready (fst w) = WagersShown rows older"
    "wh_before (fst w) = Some start"
  shows "rows = List.map_filter (\<lambda>i. case get i of None \<Rightarrow> None
      | Some m \<Rightarrow> (case wagerRow m wallet of Inr r \<Rightarrow> r | Inl _ \<Rightarrow> None)) (rev [start - 20 ..< start]) \<and> (older \<longleftrightarrow> 20 < start)"
proof -
  obtain c where "wh_page (fst w) = Some (rows, c)" "older = (0 < c)"
    using assms(2) by (auto simp: wager_drawn_def split: if_splits option.splits)
  then have "fetchWagerPage get count wallet (Some start) = Inr (rows, c)"
    using wager_run_inv[OF assms(1)] assms(3) by (simp add: wager_inv_def)
  then show ?thesis using wager_page_complete[of get count wallet start rows c] \<open>older = (0 < c)\<close> by auto
qed

text \<open>No answer and no click takes an error away again.\<close>

lemma wager_error_stays: "wh_error (fst w) \<noteq> [] \<Longrightarrow> e = WagerOlder \<or> e = WagerAnswer i (Inr p) \<Longrightarrow> wh_error (fst (wager_step ready e w)) = wh_error (fst w)"
  by (cases w) (auto simp: wager_step_def wager_older_def wager_answered_def Let_def split: option.splits)

end
