(* ===== verification/FrontConfig.thy ===== *)
theory FrontConfig
  imports Evidence Settings Errors Maintenance
begin

text \<open>
  The frontend's checks of what others configure: links to games (\<open>utils/chess-url.ts\<close>,
  \<open>components/ChessGameLink.tsx\<close>), the answers of a deployment registry (\<open>utils/registry-deployment.ts\<close>), the
  eligibility notice (\<open>config/eligibility.ts\<close>, \<open>components/EligibilityNotice.tsx\<close>), and the network of the build
  (\<open>config/network.ts\<close>, \<open>config/public-env.ts\<close>). The URL parser of the browser is a parameter: the parts of a
  URL, or nothing where it throws.
\<close>

section \<open>Links to games\<close>

datatype chess_platform = LichessSite | ChesscomSite

record web_url =
  wu_protocol :: string
  wu_username :: string
  wu_password :: string
  wu_port :: string
  wu_hostname :: string
  wu_href :: string

definition SUPPORTED_CHESS_HOSTS :: "chess_platform \<Rightarrow> string list" where
  "SUPPORTED_CHESS_HOSTS p = (case p of
      LichessSite \<Rightarrow> [''lichess.org'', ''www.lichess.org'']
    | ChesscomSite \<Rightarrow> [''chess.com'', ''www.chess.com''])"

definition ALL_ALLOWED_HOSTS :: "string list" where
  "ALL_ALLOWED_HOSTS = SUPPORTED_CHESS_HOSTS LichessSite @ SUPPORTED_CHESS_HOSTS ChesscomSite"

definition isValidChessGameUrl :: "(string \<Rightarrow> web_url option) \<Rightarrow> string option \<Rightarrow> chess_platform option \<Rightarrow> bool" where
  "isValidChessGameUrl url urlString platform =
    (case urlString of None \<Rightarrow> False
     | Some s \<Rightarrow>
        if s = [] \<or> js_trim s = [] then False
        else (case url (js_trim s) of None \<Rightarrow> False
          | Some u \<Rightarrow>
             if wu_protocol u \<noteq> ''https:'' then False
             else if wu_username u \<noteq> [] \<or> wu_password u \<noteq> [] then False
             else if wu_port u \<noteq> [] \<and> wu_port u \<noteq> ''443'' then False
             else (let hostname = js_lower (wu_hostname u) in
               case platform of
                 Some p \<Rightarrow> hostname \<in> set (SUPPORTED_CHESS_HOSTS p)
               | None \<Rightarrow> hostname \<in> set ALL_ALLOWED_HOSTS)))"

definition sanitizeChessGameUrl :: "(string \<Rightarrow> web_url option) \<Rightarrow> string option \<Rightarrow> chess_platform option \<Rightarrow> string option" where
  "sanitizeChessGameUrl url urlString platform =
    (if \<not> isValidChessGameUrl url urlString platform then None
     else map_option wu_href (url (js_trim (the urlString))))"

definition buildChessGameUrl :: "chess_platform \<Rightarrow> string \<Rightarrow> string" where
  "buildChessGameUrl platform gameId =
    (let sanitizedId = encodeURIComponent (js_trim gameId) in
     if platform = LichessSite then ''https://lichess.org/'' @ sanitizedId
     else ''https://www.chess.com/game/live/'' @ sanitizedId)"

datatype game_link = LinkAbsent | LinkFallback string | LinkShown string string

definition ChessGameLink ::
  "(string \<Rightarrow> web_url option) \<Rightarrow> string option \<Rightarrow> chess_platform option \<Rightarrow> string option \<Rightarrow> string option \<Rightarrow> string option \<Rightarrow> game_link" where
  "ChessGameLink parser url platform gameId fallbackText children =
    (let safeUrl = sanitizeChessGameUrl parser url platform;
         displayText = (case children of Some c \<Rightarrow> c
           | None \<Rightarrow> if falsy gameId then ''View game'' else ''View game '' @ the gameId) in
     if falsy safeUrl then (case fallbackText of Some t \<Rightarrow> LinkFallback t | None \<Rightarrow> LinkAbsent)
     else LinkShown (the safeUrl) displayText)"

section \<open>Registry lookups\<close>

record registry_deployment =
  rd_registryId :: string
  rd_networkId :: string
  rd_address :: string
  rd_revision :: js_num
  rd_effectiveLedger :: js_num

record expected_deployment =
  xd_registryId :: string
  xd_networkId :: string
  xd_minimumRevision :: "rat option"
  xd_latestLedger :: "rat option"

definition isExpectedDeployment :: "registry_deployment \<Rightarrow> expected_deployment \<Rightarrow> bool" where
  "isExpectedDeployment d x =
    (rd_registryId d = xd_registryId x \<and> rd_networkId d = xd_networkId x \<and>
     (case safe_integer (JNum (rd_revision d)) of None \<Rightarrow> False
      | Some r \<Rightarrow> 0 < r \<and> (case xd_minimumRevision x of None \<Rightarrow> 1 | Some m \<Rightarrow> m) \<le> r) \<and>
     (case safe_integer (JNum (rd_effectiveLedger d)) of None \<Rightarrow> False
      | Some l \<Rightarrow> 0 \<le> l \<and> (case xd_latestLedger x of None \<Rightarrow> True | Some m \<Rightarrow> l \<le> m)))"

definition resolveRegistryAddress :: "registry_deployment \<Rightarrow> expected_deployment \<Rightarrow> string option" where
  "resolveRegistryAddress d x = (if isExpectedDeployment d x \<and> rd_address d \<noteq> [] then Some (rd_address d) else None)"

section \<open>Eligibility\<close>

definition POLICY_MIN_AGE :: int where "POLICY_MIN_AGE = 18"

record vite_env =
  ve_minAge :: "string option"
  ve_jurisdictions :: "string option"
  ve_termsUrl :: "string option"

record eligibility_config =
  el_minAge :: int
  el_jurisdictions :: "string list"
  el_termsUrl :: "string option"

text \<open>The elements of a \<open>Set\<close> made from a list: the first occurrence of each.\<close>

definition js_set :: "'a list \<Rightarrow> 'a list" where
  "js_set xs = rev (remdups (rev xs))"

definition parseEligibilityConfig :: "vite_env \<Rightarrow> eligibility_config" where
  "parseEligibilityConfig env =
    (let age = js_parseInt (case ve_minAge env of None \<Rightarrow> [] | Some s \<Rightarrow> s);
         jurisdictions = filter (\<lambda>j. j \<noteq> []) (map js_trim (js_split (CHR '','') (case ve_jurisdictions env of None \<Rightarrow> [] | Some s \<Rightarrow> s)));
         terms = js_trim (case ve_termsUrl env of None \<Rightarrow> [] | Some s \<Rightarrow> s) in
     \<lparr>el_minAge = (case age of None \<Rightarrow> POLICY_MIN_AGE
        | Some a \<Rightarrow> if js_finite (js_round (of_int a)) \<and> POLICY_MIN_AGE \<le> a then a else POLICY_MIN_AGE),
      el_jurisdictions = js_set jurisdictions,
      el_termsUrl = (if take 8 terms = ''https://'' then Some terms else None)\<rparr>)"

text \<open>What the notice says: the age, the list or the warning, the link, and the line about test networks.\<close>

datatype jurisdiction_line = SupportedIn string | NotPublished

definition EligibilityNotice :: "eligibility_config \<Rightarrow> string \<Rightarrow> int \<times> jurisdiction_line \<times> string option \<times> bool" where
  "EligibilityNotice config network =
    (el_minAge config,
     (if el_jurisdictions config \<noteq> [] then SupportedIn (join_with '', '' (el_jurisdictions config)) else NotPublished),
     (if falsy (el_termsUrl config) then None else el_termsUrl config),
     network \<noteq> ''mainnet'')"

section \<open>The network of the build\<close>

definition configuredNetwork :: "network_config list \<Rightarrow> string option \<Rightarrow> string option" where
  "configuredNetwork nets raw =
    (if raw = None \<or> raw = Some [] then Some ''testnet'' else map_option nc_network (networkConfig nets (the raw)))"

definition configForWallet :: "network_config list \<Rightarrow> network_config \<Rightarrow> string \<Rightarrow> network_config" where
  "configForWallet nets app network = (case networkConfig nets network of Some n \<Rightarrow> n | None \<Rightarrow> app)"

record public_env =
  pe_stellarNetwork :: string
  pe_stellarRpcUrl :: string
  pe_leaderboardContractId :: string

definition publicEnv :: "(string \<Rightarrow> string option) \<Rightarrow> public_env" where
  "publicEnv raw =
    \<lparr>pe_stellarNetwork = (case raw ''VITE_STELLAR_NETWORK'' of None \<Rightarrow> ''testnet'' | Some n \<Rightarrow> n),
     pe_stellarRpcUrl = (case raw ''VITE_STELLAR_RPC_URL'' of None \<Rightarrow> ''https://soroban-testnet.stellar.org'' | Some u \<Rightarrow> u),
     pe_leaderboardContractId = (case raw ''VITE_LEADERBOARD_CONTRACT_ID'' of None \<Rightarrow> [] | Some i \<Rightarrow> i)\<rparr>"

section \<open>Lemmas\<close>

text \<open>A link is shown for exactly the https addresses of the platform's own hosts, without credentials and on the
  usual port; nothing else is ever clickable.\<close>

lemma link_shown_safe:
  assumes "ChessGameLink parser url platform gameId fallbackText children = LinkShown href label"
  shows "\<exists>s u. url = Some s \<and> parser (js_trim s) = Some u \<and> wu_href u = href \<and> wu_protocol u = ''https:'' \<and>
    wu_username u = [] \<and> wu_password u = [] \<and> wu_port u \<in> {[], ''443''} \<and>
    js_lower (wu_hostname u) \<in> set (case platform of Some p \<Rightarrow> SUPPORTED_CHESS_HOSTS p | None \<Rightarrow> ALL_ALLOWED_HOSTS)"
  using assms by (auto simp: ChessGameLink_def sanitizeChessGameUrl_def isValidChessGameUrl_def Let_def falsy_def
      split: option.splits if_splits)

lemma every_host_has_a_platform:
  "isValidChessGameUrl url s None \<longleftrightarrow> isValidChessGameUrl url s (Some LichessSite) \<or> isValidChessGameUrl url s (Some ChesscomSite)"
  by (auto simp: isValidChessGameUrl_def ALL_ALLOWED_HOSTS_def Let_def split: option.splits)

text \<open>No address is a game of both platforms.\<close>

lemma one_platform_each:
  "\<not> (isValidChessGameUrl url s (Some LichessSite) \<and> isValidChessGameUrl url s (Some ChesscomSite))"
  by (auto simp: isValidChessGameUrl_def SUPPORTED_CHESS_HOSTS_def Let_def split: option.splits)

text \<open>A registry answer for another registry or network, from before the minimum revision or from a later ledger than
  the latest one is never an address.\<close>

lemma registry_address_checked:
  assumes "resolveRegistryAddress d x = Some a"
  shows "a = rd_address d \<and> a \<noteq> [] \<and> rd_registryId d = xd_registryId x \<and> rd_networkId d = xd_networkId x \<and>
    (\<exists>r l. rd_revision d = Fin r \<and> rd_effectiveLedger d = Fin l \<and> r \<in> \<int> \<and> l \<in> \<int> \<and> 0 < r \<and> 0 \<le> l \<and>
      (\<forall>m. xd_minimumRevision x = Some m \<longrightarrow> m \<le> r) \<and> (\<forall>m. xd_latestLedger x = Some m \<longrightarrow> l \<le> m))"
  using assms by (auto simp: resolveRegistryAddress_def isExpectedDeployment_def safe_integer_def
      split: if_splits option.splits js_num.splits)

text \<open>Whatever is configured, the stated age is at least the policy's, jurisdictions are named once and the link is
  https.\<close>

lemma js_set_props [simp]: "set (js_set xs) = set xs" "distinct (js_set xs)"
  by (simp_all add: js_set_def)

lemma eligibility_policy_floor:
  "18 \<le> el_minAge (parseEligibilityConfig env)" "distinct (el_jurisdictions (parseEligibilityConfig env))"
  "[] \<notin> set (el_jurisdictions (parseEligibilityConfig env))"
  "el_termsUrl (parseEligibilityConfig env) = Some u \<Longrightarrow> take 8 u = ''https://''"
  by (auto simp: parseEligibilityConfig_def POLICY_MIN_AGE_def Let_def split: option.splits if_splits)

lemma configured_network_known: "configuredNetwork NETWORKS raw = Some n \<Longrightarrow> networkConfig NETWORKS n \<noteq> None"
  by (auto simp: configuredNetwork_def networkConfig_def NETWORKS_def split: if_splits)

text \<open>Endpoint and passphrase always come from one record of the table.\<close>

lemma wallet_config_from_table:
  assumes "app \<in> set nets"
  shows "configForWallet nets app network \<in> set nets"
  using assms by (auto simp: configForWallet_def networkConfig_def find_Some_iff split: option.splits)

end
