(* ===== verification/Limiters.thy ===== *)
theory Limiters
  imports ChessTypes
begin

text \<open>
  The limiters in front of the two platforms (\<open>services/bottleneck-limiters.ts\<close>): how they are configured from the
  environment, and which callers share one. The Bottleneck library is a parameter; a limiter is its configuration and
  the number of its construction, which is what callers that share a reservoir have in common.
\<close>

record limiter_config =
  lc_minTime :: nat
  lc_maxConcurrent :: nat
  lc_reservoir :: js_num
  lc_reservoirRefreshAmount :: js_num
  lc_reservoirRefreshInterval :: js_num

record limiter_options =
  lo_name :: string
  lo_maxRequests :: js_num
  lo_periodMs :: js_num
  lo_maxConcurrent :: "nat option"

record bottleneck =
  bn_number :: nat
  bn_name :: string
  bn_config :: limiter_config

record limiters =
  lm_lichess :: "bottleneck option"
  lm_chessDotCom :: "bottleneck option"
  lm_created :: "bottleneck list"

definition no_limiters :: limiters where
  "no_limiters = \<lparr>lm_lichess = None, lm_chessDotCom = None, lm_created = []\<rparr>"

definition limiter_config_of :: "limiter_options \<Rightarrow> limiter_config" where
  "limiter_config_of options =
    \<lparr>lc_minTime = 0,
     lc_maxConcurrent = (case lo_maxConcurrent options of None \<Rightarrow> 1 | Some n \<Rightarrow> if n = 0 then 1 else n),
     lc_reservoir = lo_maxRequests options, lc_reservoirRefreshAmount = lo_maxRequests options,
     lc_reservoirRefreshInterval = lo_periodMs options\<rparr>"

definition createLimiter :: "limiter_options \<Rightarrow> limiters \<Rightarrow> limiters \<times> bottleneck" where
  "createLimiter options w =
    (let limiter = \<lparr>bn_number = length (lm_created w), bn_name = lo_name options, bn_config = limiter_config_of options\<rparr> in
     (w\<lparr>lm_created := lm_created w @ [limiter]\<rparr>, limiter))"

text \<open>\<open>parseInt(process.env[name] || fallback, 10)\<close>.\<close>

definition env_int :: "(string \<Rightarrow> string option) \<Rightarrow> string \<Rightarrow> string \<Rightarrow> js_num" where
  "env_int env name fallback =
    (case js_parseInt (if falsy (env name) then fallback else the (env name)) of
       None \<Rightarrow> NaN | Some i \<Rightarrow> js_round (of_int i))"

definition lichess_options :: "(string \<Rightarrow> string option) \<Rightarrow> limiter_options" where
  "lichess_options env =
    \<lparr>lo_name = ''Lichess'', lo_maxRequests = env_int env ''LICHESS_RATE_LIMIT'' ''30'',
     lo_periodMs = env_int env ''LICHESS_RATE_PERIOD_MS'' ''60000'', lo_maxConcurrent = Some 1\<rparr>"

definition chessDotCom_options :: "(string \<Rightarrow> string option) \<Rightarrow> limiter_options" where
  "chessDotCom_options env =
    \<lparr>lo_name = ''Chess.com'', lo_maxRequests = env_int env ''CHESSDOTCOM_RATE_LIMIT'' ''20'',
     lo_periodMs = env_int env ''CHESSDOTCOM_RATE_PERIOD_MS'' ''60000'', lo_maxConcurrent = Some 1\<rparr>"

definition getLichessLimiter :: "(string \<Rightarrow> string option) \<Rightarrow> limiters \<Rightarrow> limiters \<times> bottleneck" where
  "getLichessLimiter env w = createLimiter (lichess_options env) w"

definition getChessDotComLimiter :: "(string \<Rightarrow> string option) \<Rightarrow> limiters \<Rightarrow> limiters \<times> bottleneck" where
  "getChessDotComLimiter env w = createLimiter (chessDotCom_options env) w"

definition getLichessLimiterSingleton :: "(string \<Rightarrow> string option) \<Rightarrow> limiters \<Rightarrow> limiters \<times> bottleneck" where
  "getLichessLimiterSingleton env w =
    (case lm_lichess w of Some l \<Rightarrow> (w, l)
     | None \<Rightarrow> (let (w', l) = createLimiter (lichess_options env) w in (w'\<lparr>lm_lichess := Some l\<rparr>, l)))"

definition getChessDotComLimiterSingleton :: "(string \<Rightarrow> string option) \<Rightarrow> limiters \<Rightarrow> limiters \<times> bottleneck" where
  "getChessDotComLimiterSingleton env w =
    (case lm_chessDotCom w of Some l \<Rightarrow> (w, l)
     | None \<Rightarrow> (let (w', l) = createLimiter (chessDotCom_options env) w in (w'\<lparr>lm_chessDotCom := Some l\<rparr>, l)))"

text \<open>The counts (queued, executing) of a limiter are the library's.\<close>

definition getAllLimiterStats :: "(bottleneck \<Rightarrow> nat \<times> nat) \<Rightarrow> limiters \<Rightarrow> (string \<times> nat \<times> nat) list" where
  "getAllLimiterStats counts w =
    (case lm_lichess w of None \<Rightarrow> [] | Some l \<Rightarrow> [(''lichess'', counts l)]) @
    (case lm_chessDotCom w of None \<Rightarrow> [] | Some l \<Rightarrow> [(''chessdotcom'', counts l)])"

section \<open>Calls in any order\<close>

datatype limiter_call = LichessFresh | ChessFresh | LichessShared | ChessShared

definition limiter_call :: "(string \<Rightarrow> string option) \<times> limiter_call \<Rightarrow> limiters \<Rightarrow> limiters \<times> bottleneck" where
  "limiter_call c w = (case snd c of
      LichessFresh \<Rightarrow> getLichessLimiter (fst c) w
    | ChessFresh \<Rightarrow> getChessDotComLimiter (fst c) w
    | LichessShared \<Rightarrow> getLichessLimiterSingleton (fst c) w
    | ChessShared \<Rightarrow> getChessDotComLimiterSingleton (fst c) w)"

primrec limiter_calls :: "((string \<Rightarrow> string option) \<times> limiter_call) list \<Rightarrow> limiters \<Rightarrow> limiters \<times> bottleneck list" where
  "limiter_calls [] w = (w, [])"
| "limiter_calls (c # cs) w =
    (let (w1, l) = limiter_call c w; (w2, ls) = limiter_calls cs w1 in (w2, l # ls))"

lemmas limiter_defs = limiter_call_def getLichessLimiter_def getChessDotComLimiter_def getLichessLimiterSingleton_def
  getChessDotComLimiterSingleton_def createLimiter_def

lemma shared_kept:
  assumes "limiter_call c w = (w', l)"
  shows "lm_lichess w = Some x \<Longrightarrow> lm_lichess w' = Some x" "snd c = LichessShared \<Longrightarrow> lm_lichess w' = Some l"
    "lm_chessDotCom w = Some x \<Longrightarrow> lm_chessDotCom w' = Some x" "snd c = ChessShared \<Longrightarrow> lm_chessDotCom w' = Some l"
  using assms by (auto simp: limiter_defs Let_def split: limiter_call.splits option.splits)

lemma shared_lichess:
  assumes "limiter_calls cs w = (w', ls)" "lm_lichess w = Some x" "i < length cs" "snd (cs ! i) = LichessShared"
  shows "ls ! i = x"
  using assms
proof (induction cs arbitrary: w ls i)
  case (Cons c cs)
  obtain w1 l where 1: "limiter_call c w = (w1, l)" by (cases "limiter_call c w")
  obtain ls' where 2: "limiter_calls cs w1 = (w', ls')" "ls = l # ls'" using Cons.prems(1) 1 by (auto split: prod.splits)
  have "lm_lichess w1 = Some x" using shared_kept(1)[OF 1] Cons.prems(2) by simp
  then show ?case using Cons.IH[OF 2(1)] 2(2) Cons.prems(3,4) shared_kept(2)[OF 1]
    by (cases i) auto
qed simp

text \<open>All callers of the shared Lichess limiter get one limiter, with the settings in force at the first call; the other
  calls, with whatever environment, do not change it.\<close>

lemma lichess_singleton:
  assumes "limiter_calls ((env, LichessShared) # cs) no_limiters = (w', l # ls)" "i < length cs" "snd (cs ! i) = LichessShared"
  shows "ls ! i = l \<and> bn_config l = limiter_config_of (lichess_options env)"
proof -
  obtain w1 where 1: "limiter_call (env, LichessShared) no_limiters = (w1, l)" "limiter_calls cs w1 = (w', ls)"
    using assms(1) by (auto split: prod.splits)
  have "bn_config l = limiter_config_of (lichess_options env)"
    using 1(1) by (auto simp: limiter_defs no_limiters_def Let_def)
  then show ?thesis using shared_lichess[OF 1(2) shared_kept(2)[OF 1(1)] assms(2,3)] by simp
qed

text \<open>Every call of the deprecated functions makes a reservoir of its own.\<close>

lemma fresh_separate: "snd c \<in> {LichessFresh, ChessFresh} \<Longrightarrow> length (lm_created (fst (limiter_call c w))) = Suc (length (lm_created w))
    \<and> bn_number (snd (limiter_call c w)) = length (lm_created w)"
  by (auto simp: limiter_defs Let_def)

lemma limiters_at_rest: "getAllLimiterStats counts no_limiters = []"
  by (simp add: getAllLimiterStats_def no_limiters_def)

text \<open>A setting that is no number is passed on as such.\<close>

lemma bad_setting: "env ''LICHESS_RATE_LIMIT'' = Some ''many'' \<Longrightarrow> lc_reservoir (limiter_config_of (lichess_options env)) = NaN"
  by (simp add: limiter_config_of_def lichess_options_def env_int_def falsy_def js_parseInt_def digit_val_def js_ws_def)

end
