(* ===== verification/Widgets.thy ===== *)
theory Widgets
  imports ChessTypes
begin

text \<open>
  The shared widgets of the frontend: toasts with their timers (\<open>components/Toast.tsx\<close>), the focus trap and the review
  dialog that uses it (\<open>hooks/useFocusTrap.ts\<close>, \<open>components/TransactionReview.tsx\<close>), the error boundary
  (\<open>components/ErrorBoundary.tsx\<close>), and the widgets that show a transaction (\<open>components/TxHash.tsx\<close>,
  \<open>components/TransactionStatus.tsx\<close>). Class names and labels are left out.
\<close>

section \<open>Toasts\<close>

datatype toast_variant = ToastSuccess | ToastError | ToastInfo

record toast_message =
  tm_id :: string
  tm_variant :: toast_variant
  tm_title :: string
  tm_description :: "string option"
  tm_duration :: "nat option"

text \<open>The messages shown, the timers the provider knows by message, and the timers of the browser that are pending with
  the message they were set for. Timers are numbered as they are set.\<close>

record toast_state =
  to_toasts :: "toast_message list"
  to_timers :: "(string, nat) jsmap"
  to_pending :: "(nat \<times> string) list"
  to_set :: nat

definition initial_toasts :: toast_state where
  "initial_toasts = \<lparr>to_toasts = [], to_timers = [], to_pending = [], to_set = 0\<rparr>"

definition toast_clear_timer :: "nat \<Rightarrow> toast_state \<Rightarrow> toast_state" where
  "toast_clear_timer t s = s\<lparr>to_pending := filter (\<lambda>p. fst p \<noteq> t) (to_pending s)\<rparr>"

definition dismissToast :: "string \<Rightarrow> toast_state \<Rightarrow> toast_state" where
  "dismissToast i s =
    (let s1 = (case map_of (to_timers s) i of
         None \<Rightarrow> s
       | Some t \<Rightarrow> (toast_clear_timer t s)\<lparr>to_timers := AList.delete i (to_timers s)\<rparr>) in
     s1\<lparr>to_toasts := filter (\<lambda>m. tm_id m \<noteq> i) (to_toasts s1)\<rparr>)"

text \<open>The identifier is drawn from the clock and from random digits.\<close>

definition notify_toast :: "string \<Rightarrow> toast_variant \<Rightarrow> string \<Rightarrow> string option \<Rightarrow> toast_state \<Rightarrow> toast_state" where
  "notify_toast i variant title description s =
    (let duration = (case variant of ToastError \<Rightarrow> None | ToastSuccess \<Rightarrow> Some 5000 | ToastInfo \<Rightarrow> Some 3000);
         s1 = s\<lparr>to_toasts := to_toasts s @ [\<lparr>tm_id = i, tm_variant = variant, tm_title = title, tm_description = description, tm_duration = duration\<rparr>]\<rparr> in
     case duration of
       None \<Rightarrow> s1
     | Some _ \<Rightarrow> s1\<lparr>to_pending := to_pending s1 @ [(to_set s1, i)], to_timers := AList.update i (to_set s1) (to_timers s1), to_set := Suc (to_set s1)\<rparr>)"

definition toast_fires :: "nat \<Rightarrow> toast_state \<Rightarrow> toast_state" where
  "toast_fires t s =
    (case map_of (to_pending s) t of
       None \<Rightarrow> s
     | Some i \<Rightarrow> (let s1 = toast_clear_timer t s in dismissToast i (s1\<lparr>to_timers := AList.delete i (to_timers s1)\<rparr>)))"

text \<open>The provider unmounts.\<close>

definition toast_unmount :: "toast_state \<Rightarrow> toast_state" where
  "toast_unmount s = (fold (\<lambda>(_, t). toast_clear_timer t) (to_timers s) s)\<lparr>to_timers := []\<rparr>"

datatype toast_event = ToastNotify string toast_variant string "string option" | ToastDismiss string | ToastTimer nat

definition toast_step :: "toast_event \<Rightarrow> toast_state \<Rightarrow> toast_state" where
  "toast_step e s = (case e of
     ToastNotify i v t d \<Rightarrow> notify_toast i v t d s
   | ToastDismiss i \<Rightarrow> dismissToast i s
   | ToastTimer t \<Rightarrow> toast_fires t s)"

definition toast_role :: "toast_message \<Rightarrow> string" where
  "toast_role m = (if tm_variant m = ToastError then ''alert'' else ''status'')"

definition useToast :: "'a option \<Rightarrow> string + 'a" where
  "useToast provided = (case provided of None \<Rightarrow> Inl ''useToast must be used within a ToastProvider'' | Some c \<Rightarrow> Inr c)"

section \<open>The focus trap\<close>

text \<open>What is focusable in the container when the trap is set, and the element that had the focus before.\<close>

record 'e focus_trap =
  ft_focusable :: "'e list"
  ft_previous :: "'e option"

definition trap_focus :: "'e list \<Rightarrow> 'e option \<Rightarrow> 'e focus_trap \<times> 'e option" where
  "trap_focus focusable active =
    (\<lparr>ft_focusable = focusable, ft_previous = active\<rparr>, case focusable of [] \<Rightarrow> active | e # _ \<Rightarrow> Some e)"

text \<open>Whether the browser's own handling of the key is prevented, and the focus after the handler.\<close>

definition trap_keydown :: "'e focus_trap \<Rightarrow> string \<Rightarrow> bool \<Rightarrow> 'e option \<Rightarrow> bool \<times> 'e option" where
  "trap_keydown t key shift active =
    (if key \<noteq> ''Tab'' then (False, active)
     else if ft_focusable t = [] then (False, active)
     else (let first = hd (ft_focusable t); final = last (ft_focusable t) in
       (True,
        if shift then (if active = Some first then Some final else active)
        else if active = Some final then Some first else active)))"

definition release_focus :: "'e focus_trap \<Rightarrow> 'e option \<Rightarrow> 'e option" where
  "release_focus t active = (case ft_previous t of Some e \<Rightarrow> Some e | None \<Rightarrow> active)"

section \<open>The review dialog\<close>

datatype review_button = ReviewCancel | ReviewConfirm

record review_dialog =
  rv_trap :: "review_button focus_trap"
  rv_focus :: "review_button option"
  rv_confirming :: bool

text \<open>Mounting sets the trap over the enabled buttons, then moves the focus to the confirm button, which a browser
  ignores while it is disabled. The focus before the dialog is outside of it.\<close>

definition review_open :: "bool \<Rightarrow> review_dialog" where
  "review_open isConfirming =
    (let (t, f) = trap_focus (ReviewCancel # (if isConfirming then [] else [ReviewConfirm])) None in
     \<lparr>rv_trap = t, rv_focus = (if isConfirming then f else Some ReviewConfirm), rv_confirming = isConfirming\<rparr>)"

datatype review_call = CallCancel | CallConfirm

text \<open>A key goes through the trap, then through the dialog's own handler.\<close>

definition review_key :: "string \<Rightarrow> bool \<Rightarrow> review_dialog \<Rightarrow> review_dialog \<times> review_call option" where
  "review_key key shift d =
    (d\<lparr>rv_focus := snd (trap_keydown (rv_trap d) key shift (rv_focus d))\<rparr>, if key = ''Escape'' then Some CallCancel else None)"

definition review_click :: "review_button \<Rightarrow> review_dialog \<Rightarrow> review_call option" where
  "review_click b d = (case b of ReviewCancel \<Rightarrow> Some CallCancel | ReviewConfirm \<Rightarrow> if rv_confirming d then None else Some CallConfirm)"

definition confirm_label :: "bool \<Rightarrow> string" where
  "confirm_label isConfirming = (if isConfirming then ''Signing...'' else ''Confirm &amp; Sign'')"

section \<open>The error boundary\<close>

record boundary_state =
  eb_hasError :: bool
  eb_error :: "string option"

definition initial_boundary :: boundary_state where
  "initial_boundary = \<lparr>eb_hasError = False, eb_error = None\<rparr>"

definition getDerivedStateFromError :: "string \<Rightarrow> boundary_state" where
  "getDerivedStateFromError e = \<lparr>eb_hasError = True, eb_error = Some e\<rparr>"

text \<open>\<open>handleReload\<close>, where drawing the children again throws \<open>again\<close> or succeeds; the second component says whether the
  whole page is loaded again.\<close>

definition handleReload :: "string option \<Rightarrow> boundary_state \<times> bool" where
  "handleReload again =
    (let s = (case again of None \<Rightarrow> initial_boundary | Some e \<Rightarrow> getDerivedStateFromError e) in (s, eb_hasError s))"

datatype boundary_drawing = DrawChildren | DrawFallback | DrawDefault "string option"

definition boundary_render :: "bool \<Rightarrow> boundary_state \<Rightarrow> boundary_drawing" where
  "boundary_render custom s =
    (if \<not> eb_hasError s then DrawChildren else if custom then DrawFallback else DrawDefault (eb_error s))"

section \<open>Transactions\<close>

record txhash_state =
  xh_copied :: bool
  xh_error :: "string option"

definition initial_txhash :: txhash_state where "initial_txhash = \<lparr>xh_copied = False, xh_error = None\<rparr>"

text \<open>\<open>handleCopy\<close> up to the clipboard, and its answer; the second component says whether a text was handed over.\<close>

definition handleCopy :: "bool \<Rightarrow> string \<Rightarrow> txhash_state \<Rightarrow> txhash_state \<times> string option" where
  "handleCopy clipboard hash s =
    (if hash = [] then (s, None)
     else if \<not> clipboard then (s\<lparr>xh_error := Some ''Clipboard unavailable''\<rparr>, None)
     else (s, Some hash))"

definition copy_answered :: "string option option \<Rightarrow> txhash_state \<Rightarrow> txhash_state" where
  "copy_answered failure s = (case failure of
     None \<Rightarrow> s\<lparr>xh_error := None, xh_copied := True\<rparr>
   | Some m \<Rightarrow> s\<lparr>xh_copied := False, xh_error := Some (case m of Some t \<Rightarrow> t | None \<Rightarrow> ''Unable to copy'')\<rparr>)"

definition COPIED_MS :: nat where "COPIED_MS = 1500"

definition copied_fades :: "txhash_state \<Rightarrow> txhash_state" where
  "copied_fades s = s\<lparr>xh_copied := False\<rparr>"

definition txhash_href :: "string \<Rightarrow> string \<Rightarrow> string" where
  "txhash_href network hash = ''https://stellar.expert/explorer/'' @ network @ ''/tx/'' @ hash"

definition txhash_ends :: "string \<Rightarrow> string \<times> string" where
  "txhash_ends hash = (take 8 hash, take_last 8 hash)"

datatype transaction_status = TxIdle | TxPending | TxSuccess | TxError

record status_texts =
  sx_success :: "string option"
  sx_error :: "string option"
  sx_pending :: "string option"

definition status_message :: "status_texts \<Rightarrow> transaction_status \<Rightarrow> string" where
  "status_message t st = (case st of
     TxPending \<Rightarrow> (case sx_pending t of Some m \<Rightarrow> m | None \<Rightarrow> ''Processing transaction...'')
   | TxSuccess \<Rightarrow> (case sx_success t of Some m \<Rightarrow> m | None \<Rightarrow> ''Transaction successful!'')
   | TxError \<Rightarrow> (case sx_error t of Some m \<Rightarrow> m | None \<Rightarrow> ''Transaction failed'')
   | TxIdle \<Rightarrow> [])"

text \<open>Nothing while idle; else the message, the link (the caller's, or the default one), and whether there is a button
  to dismiss.\<close>

definition TransactionStatus ::
  "status_texts \<Rightarrow> (string \<Rightarrow> string) option \<Rightarrow> bool \<Rightarrow> transaction_status \<Rightarrow> string option \<Rightarrow> (string \<times> string option \<times> bool) option" where
  "TransactionStatus texts renderTxHashLink dismissable st txHash =
    (if st = TxIdle then None
     else Some (status_message texts st,
       (if falsy txHash then None
        else Some (case renderTxHashLink of Some r \<Rightarrow> r (the txHash) | None \<Rightarrow> ''https://stellar.expert/explorer/testnet/tx/'' @ the txHash)),
       dismissable))"

section \<open>Lemmas: toasts\<close>

text \<open>An error stays until somebody dismisses it: timers only take the messages they were set for.\<close>

definition error_kept :: "string \<Rightarrow> toast_state \<Rightarrow> bool" where
  "error_kept i s \<longleftrightarrow> (\<exists>m \<in> set (to_toasts s). tm_id m = i) \<and> i \<notin> snd ` set (to_pending s)"

lemma toast_clear_timer_props [simp]:
  "to_toasts (toast_clear_timer t s) = to_toasts s" "set (to_pending (toast_clear_timer t s)) \<subseteq> set (to_pending s)"
  "to_timers (toast_clear_timer t s) = to_timers s" "to_set (toast_clear_timer t s) = to_set s"
  by (auto simp: toast_clear_timer_def)

lemma dismiss_props:
  "to_toasts (dismissToast i s) = filter (\<lambda>m. tm_id m \<noteq> i) (to_toasts s)" "set (to_pending (dismissToast i s)) \<subseteq> set (to_pending s)"
  by (auto simp: dismissToast_def Let_def toast_clear_timer_def split: option.splits)

lemma toast_fires_kept: "error_kept i s \<Longrightarrow> error_kept i (toast_fires t s)"
proof (cases "map_of (to_pending s) t")
  case (Some j)
  assume k: "error_kept i s"
  let ?s1 = "(toast_clear_timer t s)\<lparr>to_timers := AList.delete j (to_timers (toast_clear_timer t s))\<rparr>"
  have f: "toast_fires t s = dismissToast j ?s1" using Some by (simp add: toast_fires_def Let_def)
  have "j \<in> snd ` set (to_pending s)" using map_of_SomeD[OF Some] by force
  then have "j \<noteq> i" using k unfolding error_kept_def by blast
  moreover have "set (to_pending (dismissToast j ?s1)) \<subseteq> set (to_pending s)"
    using dismiss_props(2)[of j ?s1] by (rule order_trans) simp
  ultimately show ?thesis using k unfolding f by (auto simp: error_kept_def dismiss_props(1))
qed (simp add: toast_fires_def)

lemma toast_step_kept:
  assumes "error_kept i s" "e \<noteq> ToastDismiss i" "\<And>v t d. e \<noteq> ToastNotify i v t d"
  shows "error_kept i (toast_step e s)"
proof (cases e)
  case (ToastNotify j v t d)
  then show ?thesis using assms by (cases v) (auto simp: toast_step_def notify_toast_def error_kept_def Let_def)
next
  case (ToastDismiss j)
  then show ?thesis using assms dismiss_props(2)[of j s] by (auto simp: toast_step_def error_kept_def dismiss_props(1))
next
  case (ToastTimer t)
  then show ?thesis using toast_fires_kept[OF assms(1)] by (simp add: toast_step_def)
qed

lemma fold_toast_kept:
  assumes "error_kept i s" "\<And>e. e \<in> set es \<Longrightarrow> e \<noteq> ToastDismiss i \<and> (\<forall>v t d. e \<noteq> ToastNotify i v t d)"
  shows "error_kept i (fold toast_step es s)"
  using assms
proof (induction es arbitrary: s)
  case (Cons e es)
  have "error_kept i (toast_step e s)"
    using Cons.prems(2)[of e] by (intro toast_step_kept[OF Cons.prems(1)]) auto
  then show ?case using Cons.IH Cons.prems(2) by simp
qed simp

lemma error_toast_stays:
  assumes "i \<notin> snd ` set (to_pending s)"
    and "\<And>e. e \<in> set es \<Longrightarrow> e \<noteq> ToastDismiss i \<and> (\<forall>v t d. e \<noteq> ToastNotify i v t d)"
  shows "\<exists>m \<in> set (to_toasts (fold toast_step es (notify_toast i ToastError title description s))). tm_id m = i"
proof -
  have "error_kept i (notify_toast i ToastError title description s)"
    using assms(1) by (auto simp: notify_toast_def error_kept_def Let_def)
  then have "error_kept i (fold toast_step es (notify_toast i ToastError title description s))"
    using assms(2) by (rule fold_toast_kept)
  then show ?thesis by (simp add: error_kept_def)
qed

text \<open>A success goes when its timer fires, and its timer is then gone as well.\<close>

lemma success_toast_goes:
  assumes "to_set s \<notin> fst ` set (to_pending s)"
  shows "\<forall>m \<in> set (to_toasts (toast_fires (to_set s) (notify_toast i ToastSuccess title description s))). tm_id m \<noteq> i"
proof -
  have "map_of (to_pending (notify_toast i ToastSuccess title description s)) (to_set s) = Some i"
    using assms map_of_SomeD[of "to_pending s" "to_set s"]
    by (force simp: notify_toast_def Let_def map_add_def split: option.splits)
  then show ?thesis by (simp add: toast_fires_def Let_def dismiss_props(1))
qed

section \<open>Lemmas: focus\<close>

text \<open>The trap moves the focus only from the last element to the first and back, and always stops the browser from moving
  it: with two or more elements, Tab does nothing on the first one, and elements between are never reached.\<close>

lemma trap_reaches_ends:
  assumes "trap_keydown t ''Tab'' shift active = (prevented, active')" "ft_focusable t \<noteq> []"
  shows "prevented \<and> (active' = active \<or> active' = Some (hd (ft_focusable t)) \<or> active' = Some (last (ft_focusable t)))"
  using assms by (auto simp: trap_keydown_def Let_def split: if_splits)

lemma tab_stuck_on_first:
  assumes "hd (ft_focusable t) \<noteq> last (ft_focusable t)"
  shows "trap_keydown t ''Tab'' False (Some (hd (ft_focusable t))) = (ft_focusable t \<noteq> [], Some (hd (ft_focusable t)))"
  using assms by (simp add: trap_keydown_def Let_def)

text \<open>In the review dialog: Tab leaves the confirm button for the cancel button and never comes back.\<close>

lemma review_tab_one_way:
  "map (\<lambda>n. rv_focus (((\<lambda>d. fst (review_key ''Tab'' False d)) ^^ n) (review_open False))) [0, 1, 2, 3] =
    [Some ReviewConfirm, Some ReviewCancel, Some ReviewCancel, Some ReviewCancel]"
  by (simp add: review_open_def review_key_def trap_focus_def trap_keydown_def Let_def numeral_eq_Suc)

lemma review_confirms_once: "rv_confirming d \<Longrightarrow> review_click b d \<noteq> Some CallConfirm"
  by (cases b) (simp_all add: review_click_def)

section \<open>Lemmas: errors and transactions\<close>

text \<open>A reload of the page happens exactly when the children fail again.\<close>

lemma reload_exact: "snd (handleReload again) \<longleftrightarrow> again \<noteq> None" "boundary_render c (fst (handleReload None)) = DrawChildren"
  by (auto simp: handleReload_def boundary_render_def initial_boundary_def getDerivedStateFromError_def Let_def split: option.splits)

text \<open>The default link names the test network whatever network the transaction is on.\<close>

lemma default_link_testnet:
  "network \<noteq> ''testnet'' \<Longrightarrow> hash \<noteq> [] \<Longrightarrow>
    TransactionStatus texts None dismissable TxSuccess (Some hash) =
      Some (status_message texts TxSuccess, Some (txhash_href ''testnet'' hash), dismissable) \<and>
    txhash_href network hash \<noteq> txhash_href ''testnet'' hash"
  by (auto simp: TransactionStatus_def falsy_def txhash_href_def)

lemma copy_outcome:
  "handleCopy True hash s = (s', Some h) \<Longrightarrow> h = hash \<and> xh_copied (copy_answered None s') \<and> \<not> xh_copied (copy_answered (Some m) s')"
  by (auto simp: handleCopy_def copy_answered_def split: if_splits)

end
