(* ===== verification/Forms.thy ===== *)
theory Forms
  imports Wallet ResponsiblePlay Tracing ChessTypes
begin

text \<open>
  The smaller forms of the frontend: the registration form (\<open>components/forms/RegistrationForm.tsx\<close>), the panel of the
  responsible-play controls (\<open>components/ResponsiblePlay.tsx\<close>), the payout table (\<open>components/PayoutBreakdown.tsx\<close>), and
  the page that puts the wager components together (\<open>pages/Wager.tsx\<close>) with the endpoint it gives them
  (\<open>services/escrow.ts\<close>). Local dates are a parameter.
\<close>

section \<open>Registration\<close>

datatype reg_field = RegEmail | RegPassword | RegConfirm

record reg_fields =
  rf_email :: string
  rf_password :: string
  rf_confirmPassword :: string

text \<open>\<open>/^[^\s@]+@[^\s@]+\.[^\s@]+$/\<close> and \<open>/(?=.*[A-Z])(?=.*\d)/\<close>; the second looks at one line at a time.\<close>

definition mail_char :: "char \<Rightarrow> bool" where
  "mail_char c \<longleftrightarrow> \<not> js_ws c \<and> c \<noteq> CHR ''@''"

definition inner_point :: "string \<Rightarrow> bool" where
  "inner_point d \<longleftrightarrow> (\<exists>i \<in> set [1 ..< length d - 1]. d ! i = CHR ''.'')"

definition valid_email :: "string \<Rightarrow> bool" where
  "valid_email s = (let user = takeWhile mail_char s; rest = dropWhile mail_char s in
     user \<noteq> [] \<and> take 1 rest = ''@'' \<and> list_all mail_char (drop 1 rest) \<and> inner_point (drop 1 rest))"

definition password_lines :: "string \<Rightarrow> string list" where
  "password_lines s = concat (map (js_split (CHR 0x0D)) (js_split (CHR 0x0A) s))"

definition strong_password :: "string \<Rightarrow> bool" where
  "strong_password s = list_ex (\<lambda>l. list_ex is_upper l \<and> list_ex dec_digit l) (password_lines s)"

text \<open>The errors object: the keys it has, with a message or undefined.\<close>

type_synonym reg_errors = "(reg_field, string option) jsmap"

definition validateFields :: "reg_fields \<Rightarrow> reg_errors" where
  "validateFields f =
    (if rf_email f = [] then [(RegEmail, Some ''Email is required'')]
     else if \<not> valid_email (rf_email f) then [(RegEmail, Some ''Invalid email address'')] else []) @
    (if rf_password f = [] then [(RegPassword, Some ''Password is required'')]
     else if length (rf_password f) < 8 then [(RegPassword, Some ''Password must be at least 8 characters'')]
     else if \<not> strong_password (rf_password f) then [(RegPassword, Some ''Password must contain uppercase and a number'')] else []) @
    (if rf_password f \<noteq> [] \<and> rf_confirmPassword f \<noteq> [] \<and> rf_password f \<noteq> rf_confirmPassword f
     then [(RegConfirm, Some ''Passwords do not match'')] else [])"

definition error_of :: "reg_errors \<Rightarrow> reg_field \<Rightarrow> string option" where
  "error_of errs k = (case map_of errs k of None \<Rightarrow> None | Some m \<Rightarrow> m)"

record reg_state =
  rg_fields :: reg_fields
  rg_errors :: reg_errors
  rg_submitting :: bool
  rg_submitted :: bool

definition initial_registration :: reg_state where
  "initial_registration = \<lparr>rg_fields = \<lparr>rf_email = [], rf_password = [], rf_confirmPassword = []\<rparr>, rg_errors = [],
     rg_submitting = False, rg_submitted = False\<rparr>"

definition reg_set :: "reg_field \<Rightarrow> string \<Rightarrow> reg_fields \<Rightarrow> reg_fields" where
  "reg_set k v f = (case k of RegEmail \<Rightarrow> f\<lparr>rf_email := v\<rparr> | RegPassword \<Rightarrow> f\<lparr>rf_password := v\<rparr> | RegConfirm \<Rightarrow> f\<lparr>rf_confirmPassword := v\<rparr>)"

definition reg_update :: "reg_field \<Rightarrow> string \<Rightarrow> reg_state \<Rightarrow> reg_state" where
  "reg_update k v s =
    (let f = reg_set k v (rg_fields s); errs = validateFields f in
     s\<lparr>rg_fields := f, rg_errors := AList.update RegConfirm (error_of errs RegConfirm) (AList.update k (error_of errs k) (rg_errors s))\<rparr>)"

definition reg_blur :: "reg_field \<Rightarrow> reg_state \<Rightarrow> reg_state" where
  "reg_blur k s = s\<lparr>rg_errors := AList.update k (error_of (validateFields (rg_fields s)) k) (rg_errors s)\<rparr>"

text \<open>\<open>handleSubmit\<close> up to the call of \<open>onSubmit\<close> with the email and the password, and from its answer on; an
  exception of \<open>onSubmit\<close> leaves the handler.\<close>

definition reg_submit :: "reg_state \<Rightarrow> reg_state \<times> (string \<times> string) option" where
  "reg_submit s =
    (let errs = validateFields (rg_fields s); s1 = s\<lparr>rg_errors := errs\<rparr> in
     if errs \<noteq> [] then (s1, None)
     else if rg_submitted s then (s1, None)
     else (s1\<lparr>rg_submitting := True, rg_submitted := True\<rparr>, Some (rf_email (rg_fields s), rf_password (rg_fields s))))"

definition reg_answered :: "bool \<Rightarrow> reg_state \<Rightarrow> reg_state" where
  "reg_answered ok s = (if ok then s\<lparr>rg_submitting := False\<rparr> else s)"

definition reg_success_shown :: "reg_state \<Rightarrow> bool" where
  "reg_success_shown s \<longleftrightarrow> rg_submitted s \<and> \<not> rg_submitting s \<and> rg_errors s = []"

datatype reg_event = RegType reg_field string | RegBlur reg_field | RegSubmit | RegAnswer bool

definition reg_step :: "reg_event \<Rightarrow> reg_state \<times> (string \<times> string) list \<Rightarrow> reg_state \<times> (string \<times> string) list" where
  "reg_step e w = (let (s, calls) = w in case e of
      RegType k v \<Rightarrow> (reg_update k v s, calls)
    | RegBlur k \<Rightarrow> (reg_blur k s, calls)
    | RegSubmit \<Rightarrow> if rg_submitting s then w
        else (case reg_submit s of (s', None) \<Rightarrow> (s', calls) | (s', Some c) \<Rightarrow> (s', calls @ [c]))
    | RegAnswer ok \<Rightarrow> if rg_submitting s then (reg_answered ok s, calls) else w)"

section \<open>The responsible-play panel\<close>

record play_panel =
  rp_confirming :: "exclusion_period option"
  rp_limitInput :: string
  rp_message :: "string option"

definition initial_panel :: play_panel where
  "initial_panel = \<lparr>rp_confirming = None, rp_limitInput = [], rp_message = None\<rparr>"

definition PERIOD_LABELS :: "exclusion_period \<Rightarrow> string" where
  "PERIOD_LABELS p = (case p of Hours24 \<Rightarrow> ''24 hours'' | Days7 \<Rightarrow> ''7 days'' | Days30 \<Rightarrow> ''30 days'' | Months6 \<Rightarrow> ''6 months'')"

definition panel_exclude ::
  "bool \<Rightarrow> (rat \<Rightarrow> string) \<Rightarrow> string \<Rightarrow> rat \<Rightarrow> exclusion_period \<Rightarrow> play_panel \<times> browser_storage \<Rightarrow> play_panel \<times> browser_storage" where
  "panel_exclude room local address now p w =
    (let ((saved, until), st) = startSelfExclusion room address p now (snd w) in
     ((fst w)\<lparr>rp_confirming := None, rp_message := Some
        (if saved then ''Self-excluded until '' @ local until @ ''.''
         else ''Couldn't save the self-exclusion: this browser's storage is unavailable.'')\<rparr>, st))"

text \<open>The limit that is asked for: none is entered, or it is removed, or a positive amount.\<close>

definition typed_limit :: "bool \<Rightarrow> string \<Rightarrow> int option option" where
  "typed_limit remove limitInput =
    (if remove then Some None
     else (let parsed = validateAndConvertXlmToStroops (js_trim limitInput) in
       case pr_stroops parsed of
         None \<Rightarrow> None
       | Some n \<Rightarrow> if \<not> pr_valid parsed \<or> n = 0 then None else Some (Some (int n))))"

definition limit_message :: "(rat \<Rightarrow> string) \<Rightarrow> rat \<Rightarrow> bool \<Rightarrow> rat \<Rightarrow> string" where
  "limit_message local now saved effectiveAt =
    (if \<not> saved then ''Couldn't save the stake limit: this browser's storage is unavailable.''
     else if now < effectiveAt then ''Your change takes effect on '' @ local effectiveAt @ ''. Raising or removing a limit waits 24 hours.''
     else ''Stake limit updated.'')"

text \<open>The clock is read once in \<open>setStakeLimit\<close> and once more for the message.\<close>

definition applyLimit ::
  "bool \<Rightarrow> (rat \<Rightarrow> string) \<Rightarrow> string \<Rightarrow> rat \<Rightarrow> rat \<Rightarrow> bool \<Rightarrow> play_panel \<times> browser_storage \<Rightarrow> play_panel \<times> browser_storage" where
  "applyLimit room local address now now' remove w =
    (case typed_limit remove (rp_limitInput (fst w)) of
       None \<Rightarrow> ((fst w)\<lparr>rp_message := Some ''Enter a positive stake limit.''\<rparr>, snd w)
     | Some l \<Rightarrow>
        (let (result, st) = setStakeLimit room address l now (snd w) in
         ((case result of
             None \<Rightarrow> fst w
           | Some (saved, effectiveAt) \<Rightarrow> (fst w)\<lparr>rp_message := Some (limit_message local now' saved effectiveAt)\<rparr>), st)))"

datatype panel_event =
    PanelChoose exclusion_period
  | PanelCancel
  | PanelConfirm rat bool
  | PanelType string
  | PanelApply bool rat rat bool

text \<open>The buttons to choose and to confirm are drawn by what the storage held when the panel was last drawn, so that they
  can be clicked whatever it holds now.\<close>

definition panel_step :: "(rat \<Rightarrow> string) \<Rightarrow> string \<Rightarrow> panel_event \<Rightarrow> play_panel \<times> browser_storage \<Rightarrow> play_panel \<times> browser_storage" where
  "panel_step local address e w = (case e of
      PanelChoose p \<Rightarrow> ((fst w)\<lparr>rp_confirming := Some p\<rparr>, snd w)
    | PanelCancel \<Rightarrow> ((fst w)\<lparr>rp_confirming := None\<rparr>, snd w)
    | PanelConfirm now room \<Rightarrow> (case rp_confirming (fst w) of None \<Rightarrow> w | Some p \<Rightarrow> panel_exclude room local address now p w)
    | PanelType v \<Rightarrow> ((fst w)\<lparr>rp_limitInput := v\<rparr>, snd w)
    | PanelApply remove now now' room \<Rightarrow> applyLimit room local address now now' remove w)"

text \<open>What is drawn: the end of an exclusion, or the periods, or the question whether to start one; the limit in force
  and when it changes; whether it can be removed; the message. Nothing without an address.\<close>

datatype panel_exclusion = ShownExcluded string | ShownPeriods "string list" | ShownConfirm string

definition panel_drawn :: "(rat \<Rightarrow> string) \<Rightarrow> (js_num \<Rightarrow> string) \<Rightarrow> string option \<Rightarrow> rat \<Rightarrow> play_panel \<times> browser_storage \<Rightarrow>
    (panel_exclusion \<times> string \<times> bool \<times> string option) option" where
  "panel_drawn local local_num address now w =
    (if falsy address then None
     else (let (s, st) = w; settings = effectiveSettings st (the address) now in Some
       ((case activeExclusion st (the address) now of
           Some u \<Rightarrow> ShownExcluded (local u)
         | None \<Rightarrow> (case rp_confirming s of None \<Rightarrow> ShownPeriods (map PERIOD_LABELS [Hours24, Days7, Days30, Months6])
                   | Some p \<Rightarrow> ShownConfirm (PERIOD_LABELS p))),
        (case ps_stakeLimit settings of Some l \<Rightarrow> ''Current limit: '' @ formatStroops (int (text_value l)) @ ''.'' | None \<Rightarrow> ''No limit set.'') @
        (case ps_pendingLimit settings of Some (_, t) \<Rightarrow> '' Pending change on '' @ local_num t @ ''.'' | None \<Rightarrow> []),
        ps_stakeLimit settings \<noteq> None,
        (if falsy (rp_message s) then None else rp_message s))))"

section \<open>The payout table\<close>

definition PayoutBreakdown :: "int option \<Rightarrow> string \<Rightarrow> wager_action \<Rightarrow> int \<Rightarrow> string list option" where
  "PayoutBreakdown stake token action feeConfig =
    (case stake of None \<Rightarrow> None
     | Some n \<Rightarrow>
        if n \<le> 0 then None
        else map_option (\<lambda>b. let unit = '' '' @ js_upper token in
          [formatStroops (pb_stake b) @ unit,
           formatStroops (pb_platformFee b) @ unit @ '' (the escrow contract takes no cut)'',
           formatStroops (oa_gross (pb_win b)) @ unit, formatSigned (oa_net (pb_win b)) @ unit,
           formatStroops (oa_gross (pb_draw b)) @ unit, formatSigned (oa_net (pb_draw b)) @ unit,
           formatStroops (oa_gross (pb_loss b)) @ unit, formatSigned (oa_net (pb_loss b)) @ unit,
           formatStroops (pb_estimatedNetworkFee b) @ '' XLM''])
          (computePayoutBreakdown n action feeConfig))"

section \<open>The wager page\<close>

definition escrowRpcUrl :: "sdk_networks \<Rightarrow> string \<Rightarrow> string + string" where
  "escrowRpcUrl sdk passphrase =
    (if passphrase = sdk_TESTNET sdk then Inr ''https://soroban-testnet.stellar.org''
     else if passphrase = sdk_PUBLIC sdk then Inr ''https://soroban-mainnet.stellar.org''
     else Inl ''Unsupported Stellar network'')"

datatype wager_route = RouteCreate | RouteDeposit | RouteDetails | RouteHistory

datatype wager_body =
    BodyCreate
  | BodyLookup
  | BodyInvalid
  | BodyDeposit string
  | BodyDetails string

definition digits_only :: "string \<Rightarrow> bool" where
  "digits_only s \<longleftrightarrow> s \<noteq> [] \<and> list_all dec_digit s"

record wager_drawn_page =
  wd_title :: string
  wd_connect :: bool
  wd_unconfigured :: bool
  wd_passphrase :: string
  wd_rpcUrl :: string
  wd_body :: wager_body

text \<open>\<open>Inl\<close> is an exception while drawing; \<open>None\<close> is the history page.\<close>

definition Wager :: "sdk_networks \<Rightarrow> string \<Rightarrow> wager_route \<Rightarrow> string option \<Rightarrow> wallet_network \<Rightarrow> string \<Rightarrow> string + wager_drawn_page option" where
  "Wager sdk contractId page address network matchId =
    (let passphrase = (if network = NetMainnet then sdk_PUBLIC sdk else sdk_TESTNET sdk) in
     case escrowRpcUrl sdk passphrase of
       Inl e \<Rightarrow> Inl e
     | Inr rpcUrl \<Rightarrow>
        if page = RouteHistory then Inr None
        else Inr (Some \<lparr>wd_title = (if page = RouteCreate then ''Create match'' else if page = RouteDeposit then ''Deposit stake'' else ''Match details''),
          wd_connect = falsy address, wd_unconfigured = (contractId = []), wd_passphrase = passphrase, wd_rpcUrl = rpcUrl,
          wd_body = (if page = RouteCreate then BodyCreate
            else if matchId = [] then BodyLookup
            else if \<not> digits_only matchId then BodyInvalid
            else if page = RouteDeposit then BodyDeposit matchId else BodyDetails matchId)\<rparr>))"

definition wager_lookup :: "wager_route \<Rightarrow> string \<Rightarrow> string option" where
  "wager_lookup page lookup =
    (if digits_only lookup then Some (if page = RouteDeposit then ''/matches/'' @ lookup @ ''/deposit'' else ''/matches/'' @ lookup) else None)"

text \<open>\<open>onCreateMatch\<close>: the answer of the transaction, and where the page goes.\<close>

definition wager_created :: "string + string \<Rightarrow> (string + string) \<times> string option" where
  "wager_created r = (r, case r of Inl _ \<Rightarrow> None | Inr i \<Rightarrow> Some (''/matches/'' @ i))"

section \<open>Lemmas\<close>

text \<open>However the form is typed in and submitted, its data is handed over at most once, with an email and a password that
  pass the rules.\<close>

lemma validateFields_Nil:
  "validateFields f = [] \<Longrightarrow> valid_email (rf_email f) \<and> 8 \<le> length (rf_password f) \<and> strong_password (rf_password f) \<and>
    (rf_confirmPassword f = [] \<or> rf_confirmPassword f = rf_password f)"
  by (auto simp: validateFields_def split: if_splits)

definition reg_inv :: "reg_state \<times> (string \<times> string) list \<Rightarrow> bool" where
  "reg_inv w \<longleftrightarrow> length (snd w) = (if rg_submitted (fst w) then 1 else 0) \<and>
    (\<forall>(e, p) \<in> set (snd w). valid_email e \<and> 8 \<le> length p \<and> strong_password p)"

lemma reg_step_inv: "reg_inv w \<Longrightarrow> reg_inv (reg_step e w)"
  by (cases w; cases e)
    (auto simp: reg_inv_def reg_step_def reg_update_def reg_blur_def reg_submit_def reg_answered_def Let_def validateFields_Nil
      split: if_splits)

lemma reg_run_inv: "reg_inv w \<Longrightarrow> reg_inv (fold reg_step es w)"
  by (induction es arbitrary: w) (simp_all add: reg_step_inv)

lemma registration_once:
  assumes "fold reg_step es (initial_registration, []) = (s, calls)"
  shows "length calls \<le> 1 \<and> (\<forall>(e, p) \<in> set calls. valid_email e \<and> 8 \<le> length p \<and> strong_password p)"
proof -
  have "reg_inv (initial_registration, [])" by (simp add: reg_inv_def initial_registration_def)
  from reg_run_inv[OF this, of es] show ?thesis by (simp add: assms reg_inv_def)
qed

text \<open>A form that was never confirmed is submitted as well: an empty confirmation is not compared.\<close>

lemma unconfirmed_submitted:
  assumes "rg_fields s = \<lparr>rf_email = ''a@b.c'', rf_password = ''Passw0rd'', rf_confirmPassword = []\<rparr>" "\<not> rg_submitted s"
  shows "snd (reg_submit s) = Some (''a@b.c'', ''Passw0rd'')"
  using assms by (simp add: reg_submit_def validateFields_def valid_email_def mail_char_def js_ws_def inner_point_def
      strong_password_def password_lines_def is_upper_def char_in_def dec_digit_def Let_def)

text \<open>When \<open>onSubmit\<close> fails, the form stays as it was while it waited, and every later submission is ignored.\<close>

lemma failure_blocks_form:
  "rg_submitting s \<Longrightarrow> reg_answered False s = s \<and> reg_step RegSubmit (s, calls) = (s, calls)"
  by (simp add: reg_answered_def reg_step_def)

lemma apply_limit_storage:
  "snd (applyLimit room local address now now' remove w) =
    (case typed_limit remove (rp_limitInput (fst w)) of None \<Rightarrow> snd w | Some l \<Rightarrow> snd (setStakeLimit room address l now (snd w)))"
  by (simp add: applyLimit_def Let_def split_def split: option.split)

text \<open>The exception of \<open>setStakeLimit\<close> for a limit that is not positive cannot happen here.\<close>

lemma typed_limit_positive: "typed_limit remove i = Some (Some l) \<Longrightarrow> 0 < l"
  by (auto simp: typed_limit_def Let_def split: if_splits option.splits)

text \<open>The panel does nothing to the storage that the actions of the controls do not.\<close>

lemma panel_is_play:
  obtains "snd (panel_step local address e w) = snd w"
  | a where "snd (panel_step local address e w) = play_step a (snd w)" "pe_address a = address"
proof (cases e)
  case (PanelConfirm now room)
  show ?thesis
  proof (cases "rp_confirming (fst w)")
    case (Some p)
    have "snd (panel_step local address e w) = play_step \<lparr>pe_address = address, pe_action = Exclude p, pe_now = now, pe_room = room\<rparr> (snd w)"
      using PanelConfirm Some by (auto simp: panel_step_def panel_exclude_def play_step_def split: prod.split)
    then show ?thesis using that(2) by simp
  next
    case None
    then show ?thesis using that(1) PanelConfirm by (simp add: panel_step_def)
  qed
next
  case (PanelApply remove now now' room)
  have "\<exists>l. snd (panel_step local address e w) = play_step \<lparr>pe_address = address, pe_action = Limit l, pe_now = now, pe_room = room\<rparr> (snd w)
      \<or> snd (panel_step local address e w) = snd w"
    using PanelApply by (auto simp: panel_step_def play_step_def apply_limit_storage split: option.split)
  then show ?thesis using that by force
qed (use that(1) in \<open>simp_all add: panel_step_def\<close>)

text \<open>So nothing done on the panel ends an exclusion early.\<close>

lemma panel_keeps_exclusion:
  "excluded_to until a (snd w) \<Longrightarrow> excluded_to until a (snd (fold (\<lambda>(address, e). panel_step local address e) es w))"
proof (induction es arbitrary: w)
  case (Cons x es)
  obtain address e where x: "x = (address, e)" by (cases x)
  have "excluded_to until a (snd (panel_step local address e w))"
    using Cons.prems excluded_to_step by (cases rule: panel_is_play[of local address e w]) auto
  then show ?case using Cons.IH x by simp
qed simp

lemma payout_table_rows: "PayoutBreakdown stake token action fee \<noteq> None \<longleftrightarrow> (\<exists>n. stake = Some n \<and> 0 < n)"
  by (auto simp: PayoutBreakdown_def computePayoutBreakdown_def Let_def split: option.splits)

text \<open>The wager page is always drawn with the endpoint of the network whose passphrase it uses.\<close>

lemma wager_page_draws:
  assumes "sdk_TESTNET sdk \<noteq> sdk_PUBLIC sdk"
  shows "\<exists>p. Wager sdk contractId page address network matchId = Inr p \<and>
    (\<forall>d. p = Some d \<longrightarrow> wd_rpcUrl d = (if network = NetMainnet then ''https://soroban-mainnet.stellar.org'' else ''https://soroban-testnet.stellar.org''))"
  using assms by (auto simp: Wager_def escrowRpcUrl_def Let_def)

text \<open>A looked-up match is one the page it leads to accepts.\<close>

lemma lookup_leads_to_match:
  assumes "wager_lookup page i = Some path" "Wager sdk contractId page address network i = Inr (Some d)" "page \<noteq> RouteCreate"
  shows "wd_body d = (if page = RouteDeposit then BodyDeposit i else BodyDetails i)"
  using assms by (auto simp: wager_lookup_def Wager_def digits_only_def Let_def split: if_splits sum.splits)

end
