(* ===== verification/Commands.thy ===== *)
theory Commands
  imports Services Evidence StorageOps OpenApi Maintenance
begin

text \<open>
  The operators' commands: database backups (\<open>cli/db-backup.ts\<close>), the export of dispute evidence
  (\<open>cli/dispute-evidence.ts\<close>), the check of two API documents (\<open>cli/openapi-compat.ts\<close>) and the replay of a
  settlement (\<open>commands/replay-settlement.ts\<close>). A command ends with an exit code, or throws, which its entry point
  reports as exit code 1. Files are texts by path; SQLite is what it says of a file. The JSON lines printed by the
  backup command are left out; directories are named without a slash at the end.
\<close>

datatype 'a command_end = CommandExit nat 'a | CommandThrew string

definition exit_code :: "'a command_end \<Rightarrow> nat" where
  "exit_code e = (case e of CommandExit n _ \<Rightarrow> n | CommandThrew _ \<Rightarrow> 1)"

section \<open>Backups\<close>

type_synonym 'f disk = "(string \<times> 'f) list"

text \<open>What SQLite does: the copy that \<open>VACUUM INTO\<close> writes of a file or its error, and the checks of a file.\<close>

record 'f sqlite_world =
  sw_vacuum :: "'f \<Rightarrow> string + 'f"
  sw_open :: "'f \<Rightarrow> string option"
  sw_integrity :: "'f \<Rightarrow> string + string list"
  sw_counts :: "'f \<Rightarrow> string + (string \<times> nat) list"

definition backupSqliteDatabase :: "'f sqlite_world \<Rightarrow> string \<Rightarrow> string \<Rightarrow> 'f disk \<Rightarrow> string + 'f disk" where
  "backupSqliteDatabase sw sourcePath backupPath disk =
    (case map_of disk sourcePath of
       None \<Rightarrow> Inl (''database not found: '' @ sourcePath)
     | Some f \<Rightarrow>
        if map_of disk backupPath \<noteq> None then Inl (''backup already exists: '' @ backupPath)
        else (case sw_open sw f of
            Some e \<Rightarrow> Inl e
          | None \<Rightarrow> (case sw_vacuum sw f of Inl e \<Rightarrow> Inl e | Inr copy \<Rightarrow> Inr (AList.update backupPath copy disk))))"

definition disk_verify :: "'f sqlite_world \<Rightarrow> string \<Rightarrow> 'f disk \<Rightarrow> backup_verification" where
  "disk_verify sw file disk = (case map_of disk file of
      None \<Rightarrow> verifySqliteBackup False None (Inr []) (Inr [])
    | Some f \<Rightarrow> verifySqliteBackup True (sw_open sw f) (sw_integrity sw f) (sw_counts sw f))"

text \<open>\<open>path.basename(p, path.extname(p))\<close>, and the names of the files in a directory.\<close>

definition path_stem :: "string \<Rightarrow> string" where
  "path_stem p =
    (let name = last (js_split (CHR ''/'') p); parts = js_split (CHR ''.'') name in
     if length parts < 2 \<or> butlast parts = [[]] then name else join_with ''.'' (butlast parts))"

definition disk_names :: "string \<Rightarrow> 'f disk \<Rightarrow> string list" where
  "disk_names dir disk = map (drop (length dir + 1))
    (filter (\<lambda>p. take (length dir + 1) p = dir @ ''/'' \<and> CHR ''/'' \<notin> set (drop (length dir + 1) p)) (map fst disk))"

definition disk_prune :: "(string \<Rightarrow> int option) \<Rightarrow> int \<Rightarrow> string \<Rightarrow> string \<Rightarrow> int \<Rightarrow> 'f disk \<Rightarrow> 'f disk" where
  "disk_prune parse now dir database retention disk =
    (let deleted = pruneBackups parse (Some (disk_names dir disk)) (path_stem database) retention now 1 in
     filter (\<lambda>f. fst f \<notin> (\<lambda>n. dir @ ''/'' @ n) ` set deleted) disk)"

definition DEFAULT_RETENTION_DAYS :: rat where "DEFAULT_RETENTION_DAYS = 35"

text \<open>A duration that is no whole number of milliseconds is compared as the whole number below it, which gives the same
  comparisons with whole ages.\<close>

definition retentionMs :: "string option \<Rightarrow> string + int" where
  "retentionMs raw =
    (case (case raw of None \<Rightarrow> Fin DEFAULT_RETENTION_DAYS | Some r \<Rightarrow> js_Number r) of
       Fin days \<Rightarrow> if days \<le> 0 then Inl ''invalid retention days'' else Inr \<lfloor>days * (24 * 60 * 60 * 1000)\<rfloor>
     | _ \<Rightarrow> Inl ''invalid retention days'')"

text \<open>The restore of the command: the target and its two companions, with the calls of the file system that fail.\<close>

definition disk_restore :: "'f sqlite_world \<Rightarrow> bool \<Rightarrow> bool \<Rightarrow> string \<Rightarrow> string \<Rightarrow> 'f disk \<Rightarrow> (string + unit) \<times> 'f disk" where
  "disk_restore sw copies renames backupPath targetPath disk =
    (let v = disk_verify sw backupPath disk; staging = targetPath @ ''.restoring'';
         without = filter (\<lambda>f. fst f \<notin> {targetPath @ ''-wal'', targetPath @ ''-shm''}) in
     if \<not> vf_ok v then (Inl (''refusing to restore an unhealthy backup ('' @ join_with ''; '' (vf_integrity v) @ '')''), disk)
     else if \<not> copies then (Inl ''copy failed'', disk)
     else if \<not> renames then (Inl ''rename failed'', without (AList.update staging (the (map_of disk backupPath)) disk))
     else (Inr (), AList.update targetPath (the (map_of disk backupPath)) (without (AList.delete staging disk))))"

definition nth_arg :: "nat \<Rightarrow> string list \<Rightarrow> string option" where
  "nth_arg n args = (if n < length args then Some (args ! n) else None)"

text \<open>The world of one run: SQLite, the clock as the text of a date and as a number, \<open>Date.parse\<close>, and whether copying
  and renaming succeed.\<close>

record 'f backup_world =
  bw_sqlite :: "'f sqlite_world"
  bw_isoText :: string
  bw_now :: int
  bw_parse :: "string \<Rightarrow> int option"
  bw_copies :: bool
  bw_renames :: bool

definition db_backup_main :: "'f backup_world \<Rightarrow> string list \<Rightarrow> 'f disk \<Rightarrow> string option command_end \<times> 'f disk" where
  "db_backup_main w argv disk =
    (let command = nth_arg 0 argv; a = nth_arg 1 argv; b = nth_arg 2 argv; c = nth_arg 3 argv;
         usage = (CommandExit 2 (Some ''usage''), disk) in
     if command = Some ''backup'' then
       (if falsy a \<or> falsy b then usage
        else (let target = the b @ ''/'' @ backupFileName (path_stem (the a)) (bw_isoText w) in
          case backupSqliteDatabase (bw_sqlite w) (the a) target disk of
            Inl e \<Rightarrow> (CommandThrew e, disk)
          | Inr disk1 \<Rightarrow>
             if \<not> vf_ok (disk_verify (bw_sqlite w) target disk1)
             then (CommandExit 1 (Some (''backup written but failed verification: '' @
                 join_with ''; '' (vf_integrity (disk_verify (bw_sqlite w) target disk1)))), disk1)
             else (case retentionMs c of
                 Inl e \<Rightarrow> (CommandThrew e, disk1)
               | Inr ms \<Rightarrow> (CommandExit 0 None, disk_prune (bw_parse w) (bw_now w) (the b) (the a) ms disk1))))
     else if command = Some ''verify'' then
       (if falsy a then usage
        else (CommandExit (if vf_ok (disk_verify (bw_sqlite w) (the a) disk) then 0 else 1) None, disk))
     else if command = Some ''restore'' then
       (if falsy a \<or> falsy b then usage
        else (case disk_restore (bw_sqlite w) (bw_copies w) (bw_renames w) (the a) (the b) disk of
            (Inl e, disk1) \<Rightarrow> (CommandThrew e, disk1)
          | (Inr _, disk1) \<Rightarrow> (CommandExit 0 None, disk1)))
     else if command = Some ''prune'' then
       (if falsy a \<or> falsy b then usage
        else (case retentionMs c of
            Inl e \<Rightarrow> (CommandThrew e, disk)
          | Inr ms \<Rightarrow> (CommandExit 0 None, disk_prune (bw_parse w) (bw_now w) (the b) (the a) ms disk)))
     else usage)"

section \<open>Dispute evidence\<close>

text \<open>\<open>arg\<close>: the argument after the first one of this name.\<close>

fun cli_arg :: "string \<Rightarrow> string list \<Rightarrow> string option" where
  "cli_arg name [] = None"
| "cli_arg name (x # xs) = (if x = ''--'' @ name then (case xs of [] \<Rightarrow> None | y # _ \<Rightarrow> Some y) else cli_arg name xs)"

definition cli_fetchProviderResult :: "fetchers \<Rightarrow> match_record \<Rightarrow> string + game_result" where
  "cli_fetchProviderResult ft m =
    (let answer = (\<lambda>r. case r of Inl e \<Rightarrow> Inl (error_message e) | Inr g \<Rightarrow> Inr g) in
     if m_platform m = ''lichess'' then answer (ft_lichess ft (m_gameId m))
     else if m_platform m = ''chessdotcom'' then
       (if falsy (m_player1Username m) then Inl ''match has no recorded Chess.com username to search archives with''
        else answer (ft_chessdotcom ft (m_player1Username m) (m_gameId m)))
     else Inl (''unknown platform '' @ m_platform m))"

text \<open>The world of one run: whether the stores open and the queue closes, what they hold, the fetchers, the environment
  and the functions of the bundle.\<close>

record 's evidence_world =
  vw_opens :: bool
  vw_closes :: bool
  vw_ops :: "'s match_ops"
  vw_store :: 's
  vw_dlq :: "json dlq_entry list"
  vw_fetchers :: fetchers
  vw_env :: "string \<Rightarrow> string option"
  vw_sha256 :: "string \<Rightarrow> string"
  vw_numText :: "rat \<Rightarrow> string"
  vw_date :: "int \<Rightarrow> string"
  vw_now :: int

definition cli_deps :: "'s evidence_world \<Rightarrow> string list \<Rightarrow> evidence_deps" where
  "cli_deps w argv =
    \<lparr>ed_findMatch = mo_find (vw_ops w) (vw_store w), ed_listDlqEntries = vw_dlq w,
     ed_fetchProviderResult = (if ''--offline'' \<in> set argv then None else Some (cli_fetchProviderResult (vw_fetchers w))),
     ed_resultOnChain = None, ed_network = (case vw_env w ''STELLAR_NETWORK'' of Some n \<Rightarrow> n | None \<Rightarrow> ''testnet''),
     ed_escrowContractId = vw_env w ''CONTRACT_ESCROW'', ed_oracleContractId = vw_env w ''CONTRACT_ORACLE'', ed_now = vw_now w\<rparr>"

text \<open>A negative number is no match's: the bundle's own comparison refuses it.\<close>

definition cli_bundle :: "'s evidence_world \<Rightarrow> string list \<Rightarrow> string \<Rightarrow> rat option \<Rightarrow> string + json" where
  "cli_bundle w argv gameId matchId =
    (let build = buildEvidenceBundle (vw_sha256 w) (vw_numText w) (vw_date w) (vw_env w) gameId (cli_deps w argv) in
     case matchId of
       None \<Rightarrow> build None
     | Some r \<Rightarrow>
        if 0 \<le> r then build (Some (nat \<lfloor>r\<rfloor>))
        else (case mo_find (vw_ops w) (vw_store w) gameId of
            None \<Rightarrow> build None
          | Some m \<Rightarrow> Inl (''gameId '' @ gameId @ '' belongs to match '' @ nat_text (m_matchId m) @ '', not '' @ int_text \<lfloor>r\<rfloor>)))"

datatype evidence_output = OutBundle json | OutError string

text \<open>What is written, and how the run ends; closing the queue comes last and can throw after the bundle is written.\<close>

definition evidence_main :: "'s evidence_world \<Rightarrow> string list \<Rightarrow> evidence_output option \<times> unit command_end" where
  "evidence_main w argv =
    (let gameId = cli_arg ''game-id'' argv; rawMatchId = cli_arg ''match-id'' argv;
         matchId = map_option js_Number rawMatchId in
     if falsy gameId then (Some (OutError ''usage''), CommandExit 2 ())
     else if matchId \<noteq> None \<and> \<not> js_integer (the matchId)
       then (Some (OutError (''--match-id must be an integer, got '' @ the rawMatchId)), CommandExit 2 ())
     else if \<not> vw_opens w then (None, CommandThrew ''store'')
     else (let (output, code) = (case cli_bundle w argv (the gameId) (case matchId of Some (Fin r) \<Rightarrow> Some r | _ \<Rightarrow> None) of
               Inr bundle \<Rightarrow> (OutBundle bundle, 0)
             | Inl e \<Rightarrow> (OutError e, 1)) in
       (Some output, if vw_closes w then CommandExit code () else CommandThrew ''queue'')))"

section \<open>API documents\<close>

text \<open>\<open>files\<close> is what the file system holds, \<open>parse\<close> is \<open>JSON.parse\<close>.\<close>

definition openapi_run ::
  "(json \<Rightarrow> string) \<Rightarrow> (json \<Rightarrow> string) \<Rightarrow> (string \<Rightarrow> json option) \<Rightarrow> (string \<Rightarrow> string option) \<Rightarrow> string option \<Rightarrow> string option \<Rightarrow> string list command_end" where
  "openapi_run str stringify parse files basePath headPath =
    (if falsy basePath \<or> falsy headPath then CommandExit 2 []
     else (case files (the basePath) of
         None \<Rightarrow> CommandExit 0 []
       | Some base \<Rightarrow>
          if base = [] then CommandExit 0 []
          else (case parse base of
              None \<Rightarrow> CommandThrew ''SyntaxError''
            | Some b \<Rightarrow>
               (case files (the headPath) of
                  None \<Rightarrow> CommandThrew ''ENOENT''
                | Some head \<Rightarrow>
                   (case parse head of
                      None \<Rightarrow> CommandThrew ''SyntaxError''
                    | Some h \<Rightarrow>
                       (let result = checkCompatibility str stringify b h in
                        if co_breaking result = [] then CommandExit 0 []
                        else if co_failed result then CommandExit 1 (co_breaking result)
                        else CommandExit 0 (co_breaking result)))))))"

section \<open>Replay\<close>

text \<open>\<open>evaluate\<close> is the function \<open>evaluateStoredResult\<close> that the command imports; the module it names does not export
  it, so it is a parameter.\<close>

definition replaySettlement ::
  "(json \<Rightarrow> 'd) \<Rightarrow> (string \<Rightarrow> string) \<Rightarrow> (string \<Rightarrow> json option) \<Rightarrow> (string \<rightharpoonup> string) \<Rightarrow> string option \<Rightarrow> string list \<Rightarrow> string + string \<times> 'd" where
  "replaySettlement evaluate sha256 parse dir enabled args =
    (if enabled \<noteq> Some ''true'' then Inl ''Operator replay is disabled; set SETTLEMENT_REPLAY_ENABLED=true''
     else if length args \<noteq> 2 \<or> args ! 0 \<noteq> ''--dry-run''
       then Inl ''Usage: npm run replay:settlement -- --dry-run <evidence-sha256>; submission is prohibited''
     else (case loadEvidence sha256 parse (args ! 1) dir of
         Inl e \<Rightarrow> Inl e
       | Inr evidence \<Rightarrow> Inr (args ! 1, evaluate evidence)))"

section \<open>Lemmas\<close>

text \<open>No command but a restore changes what a file holds; a backup goes to a name that was free.\<close>

lemma prune_subset: "set (disk_prune parse now dir database ms disk) \<subseteq> set disk"
  by (auto simp: disk_prune_def Let_def)

lemma backup_adds:
  assumes "backupSqliteDatabase sw a target disk = Inr disk1"
  shows "\<exists>f copy. map_of disk a = Some f \<and> sw_vacuum sw f = Inr copy \<and> map_of disk target = None \<and> disk1 = disk @ [(target, copy)]"
  using assms by (auto simp: backupSqliteDatabase_def jm_size_update_new split: option.splits sum.splits if_splits)

lemma files_kept:
  assumes "db_backup_main w argv disk = (e, disk')" "nth_arg 0 argv \<noteq> Some ''restore''" "(p, f) \<in> set disk'"
  shows "(p, f) \<in> set disk \<or>
    (nth_arg 0 argv = Some ''backup'' \<and> map_of disk p = None \<and>
      p = the (nth_arg 2 argv) @ ''/'' @ backupFileName (path_stem (the (nth_arg 1 argv))) (bw_isoText w))"
proof -
  let ?t = "the (nth_arg 2 argv) @ ''/'' @ backupFileName (path_stem (the (nth_arg 1 argv))) (bw_isoText w)"
  consider "set disk' \<subseteq> set disk"
    | d1 where "nth_arg 0 argv = Some ''backup''" "backupSqliteDatabase (bw_sqlite w) (the (nth_arg 1 argv)) ?t disk = Inr d1" "set disk' \<subseteq> set d1"
    using assms(1,2) prune_subset[of "bw_parse w" "bw_now w" "the (nth_arg 2 argv)" "the (nth_arg 1 argv)"]
    by (auto simp: db_backup_main_def Let_def split: if_splits sum.splits)
  then show ?thesis
  proof cases
    case (2 d1)
    then show ?thesis using backup_adds[OF 2(2)] assms(3) by auto
  qed (use assms(3) in auto)
qed

text \<open>A retention that is no positive number is only noticed after the backup is taken: the run is reported as failed
  although the backup is there and was verified.\<close>

lemma late_retention_error:
  assumes "retentionMs c = Inl m" "backupSqliteDatabase (bw_sqlite w) a (b @ ''/'' @ backupFileName (path_stem a) (bw_isoText w)) disk = Inr disk1"
    "vf_ok (disk_verify (bw_sqlite w) (b @ ''/'' @ backupFileName (path_stem a) (bw_isoText w)) disk1)" "a \<noteq> []" "b \<noteq> []" "c \<noteq> None"
  shows "exit_code (fst (db_backup_main w [''backup'', a, b, the c] disk)) = 1 \<and> snd (db_backup_main w [''backup'', a, b, the c] disk) = disk1"
proof -
  have args: "nth_arg 0 [''backup'', a, b, the c] = Some ''backup''" "nth_arg 1 [''backup'', a, b, the c] = Some a"
    "nth_arg 2 [''backup'', a, b, the c] = Some b" "nth_arg 3 [''backup'', a, b, the c] = c"
    using assms(6) by (simp_all add: nth_arg_def)
  show ?thesis unfolding db_backup_main_def Let_def args using assms(1-5) by (simp add: falsy_def exit_code_def)
qed

lemma retention_positive: "retentionMs raw = Inr ms \<Longrightarrow> 0 \<le> ms"
  by (auto simp: retentionMs_def split: js_num.splits if_splits)

lemma map_of_without: "map_of (filter (\<lambda>f. fst f \<noteq> a \<and> fst f \<noteq> b) xs) k = (if k = a \<or> k = b then None else map_of xs k)"
  by (induction xs) auto

text \<open>A restore that succeeds leaves a healthy backup in the place of the database and no companion of the old one.\<close>

lemma restore_replaces:
  assumes "disk_restore sw copies renames b t disk = (Inr (), disk')"
  shows "vf_ok (disk_verify sw b disk) \<and> map_of disk' t = map_of disk b \<and> map_of disk' (t @ ''-wal'') = None \<and> map_of disk' (t @ ''-shm'') = None"
proof -
  have v: "vf_ok (disk_verify sw b disk)" and d: "disk' = AList.update t (the (map_of disk b))
      (filter (\<lambda>f. fst f \<notin> {t @ ''-wal'', t @ ''-shm''}) (AList.delete (t @ ''.restoring'') disk))"
    using assms by (auto simp: disk_restore_def Let_def split: if_splits)
  have "map_of disk b \<noteq> None" using v by (auto simp: disk_verify_def verifySqliteBackup_def Let_def split: option.splits)
  then show ?thesis using v d by (auto simp: jsmap_simps map_of_without)
qed

text \<open>The export ends with 0 exactly when it printed a bundle, which the stores and the number asked for agree on.\<close>

lemma evidence_exit:
  assumes "evidence_main w argv = (out, CommandExit 0 ())"
  shows "\<exists>bundle gameId matchId. out = Some (OutBundle bundle) \<and> cli_arg ''game-id'' argv = Some gameId \<and>
    cli_bundle w argv gameId matchId = Inr bundle"
  using assms by (auto simp: evidence_main_def Let_def falsy_def split: if_splits sum.splits)

text \<open>The check fails a change exactly when the comparison does, and never for a document that is not there yet.\<close>

lemma openapi_exit:
  "openapi_run str stringify parse files base head = CommandExit 1 bs \<longleftrightarrow>
    (\<exists>p q t u b h. base = Some p \<and> head = Some q \<and> p \<noteq> [] \<and> q \<noteq> [] \<and> files p = Some t \<and> t \<noteq> [] \<and> parse t = Some b \<and> files q = Some u \<and>
      parse u = Some h \<and> co_failed (checkCompatibility str stringify b h) \<and> bs = co_breaking (checkCompatibility str stringify b h))"
  by (auto simp: openapi_run_def falsy_def Let_def checkCompatibility_def split: option.splits if_splits)

text \<open>A replay needs the operator's switch and reads evidence whose text has the checksum asked for.\<close>

lemma replay_guarded:
  assumes "replaySettlement evaluate sha256 parse dir enabled args = Inr (i, d)"
  shows "enabled = Some ''true'' \<and> args = [''--dry-run'', i] \<and> (\<exists>body. dir i = Some body \<and> sha256 body = i)"
proof -
  have a: "length args = 2" "args ! 0 = ''--dry-run''" "i = args ! 1"
    using assms by (auto simp: replaySettlement_def split: if_splits sum.splits)
  then have "args = [''--dry-run'', i]" by (auto simp: length_Suc_conv numeral_eq_Suc)
  then show ?thesis using assms by (auto simp: replaySettlement_def loadEvidence_def split: if_splits sum.splits option.splits)
qed

end
