(* ===== verification/Hooks.thy ===== *)
theory Hooks
  imports Wallet Tracing Evidence
begin

text \<open>
  The small hooks and widgets of the frontend around the network and the page: the trace header of a request
  (\<open>utils/trace-context.ts\<close>), the colour theme (\<open>hooks/useTheme.ts\<close>), the delayed value (\<open>hooks/useDebounce.ts\<close>), the
  network banner and badge (\<open>components/NetworkBanner.tsx\<close>, \<open>components/NetworkBadge.tsx\<close>), and the older wallet hook
  (\<open>hooks/useWallet.ts\<close>), whose calls are taken one at a time. The random bytes, the browser's storage and the wallet
  extension are parameters.
\<close>

section \<open>The trace of a request\<close>

text \<open>\<open>randomHex\<close> draws until some byte is not zero; the argument is what is drawn, and nothing comes of draws that are all
  zero.\<close>

definition byte_hex :: "nat \<Rightarrow> string" where
  "byte_hex b = [hex_digit (b div 16), hex_digit (b mod 16)]"

fun webRandomHex :: "nat list list \<Rightarrow> string option" where
  "webRandomHex [] = None"
| "webRandomHex (buf # draws) = (if list_ex (\<lambda>b. b \<noteq> 0) buf then Some (concat (map byte_hex buf)) else webRandomHex draws)"

definition createTraceparent :: "nat list list \<Rightarrow> nat list list \<Rightarrow> string option" where
  "createTraceparent draws16 draws8 =
    (case webRandomHex draws16 of None \<Rightarrow> None
     | Some t \<Rightarrow> (case webRandomHex draws8 of None \<Rightarrow> None | Some s \<Rightarrow> Some (''00-'' @ t @ ''-'' @ s @ ''-01'')))"

definition traceIdOf :: "string option \<Rightarrow> string option" where
  "traceIdOf traceparent =
    (let s = (case traceparent of None \<Rightarrow> [] | Some s \<Rightarrow> s) in
     if length s = 55 \<and> take 3 s = ''00-'' \<and> list_all hex_char (take 32 (drop 3 s)) \<and> s ! 35 = CHR ''-'' \<and>
       list_all hex_char (take 16 (drop 36 s)) \<and> s ! 52 = CHR ''-'' \<and> list_all hex_char (drop 53 s)
     then Some (take 32 (drop 3 s)) else None)"

section \<open>Theme and delayed values\<close>

datatype theme = LightTheme | DarkTheme

definition theme_text :: "theme \<Rightarrow> string" where
  "theme_text t = (case t of LightTheme \<Rightarrow> ''light'' | DarkTheme \<Rightarrow> ''dark'')"

text \<open>\<open>None\<close>: there is no window; else what is stored, and what the system prefers.\<close>

definition getInitialTheme :: "(string option \<times> bool) option \<Rightarrow> theme" where
  "getInitialTheme window =
    (case window of None \<Rightarrow> LightTheme
     | Some (stored, prefersDark) \<Rightarrow>
        if stored = Some ''dark'' then DarkTheme
        else if stored = Some ''light'' then LightTheme
        else if prefersDark then DarkTheme else LightTheme)"

text \<open>The effect: whether the document has the class, and what is stored.\<close>

definition theme_effect :: "theme \<Rightarrow> bool \<times> string" where
  "theme_effect t = (t = DarkTheme, theme_text t)"

definition toggle_theme :: "theme \<Rightarrow> theme" where
  "toggle_theme t = (if t = DarkTheme then LightTheme else DarkTheme)"

text \<open>The value shown, and the timer that is armed with its value.\<close>

record 'a debounce =
  db_shown :: 'a
  db_given :: 'a
  db_due :: "nat option"

definition debounce_start :: "nat \<Rightarrow> nat \<Rightarrow> 'a \<Rightarrow> 'a debounce" where
  "debounce_start now delay v = \<lparr>db_shown = v, db_given = v, db_due = Some (now + delay)\<rparr>"

definition debounce_given :: "nat \<Rightarrow> nat \<Rightarrow> 'a \<Rightarrow> 'a debounce \<Rightarrow> 'a debounce" where
  "debounce_given now delay v d = (if v = db_given d then d else d\<lparr>db_given := v, db_due := Some (now + delay)\<rparr>)"

definition debounce_fires :: "nat \<Rightarrow> 'a debounce \<Rightarrow> 'a debounce" where
  "debounce_fires now d = (case db_due d of
      Some t \<Rightarrow> if t \<le> now then d\<lparr>db_shown := db_given d, db_due := None\<rparr> else d
    | None \<Rightarrow> d)"

section \<open>Banner and badge\<close>

text \<open>The two networks the banner names.\<close>

definition NetworkBanner :: "sdk_networks \<Rightarrow> string option \<Rightarrow> string option \<Rightarrow> (string option \<times> string) option" where
  "NetworkBanner sdk envVal walletNetwork =
    (let s = useNetworkStatus sdk envVal walletNetwork in
     if \<not> ns_isMismatch s then None else Some (ns_walletNetwork s, ns_expectedNetwork s))"

record network_badge =
  bg_network :: string
  bg_label :: string
  bg_color :: string

definition NetworkBadge :: "sdk_networks \<Rightarrow> string option \<Rightarrow> string option \<Rightarrow> network_badge" where
  "NetworkBadge sdk envVal network =
    (let s = useNetworkStatus sdk envVal network in
     \<lparr>bg_network = (case ns_walletNetwork s of Some w \<Rightarrow> w | None \<Rightarrow> ns_expectedNetwork s),
      bg_label = (case ns_walletLabel s of Some l \<Rightarrow> l | None \<Rightarrow> ns_expectedLabel s),
      bg_color = (case ns_walletNetwork s of Some w \<Rightarrow> if w = [] then ns_expectedColor s else look NETWORK_COLORS w ''bg-gray-400''
        | None \<Rightarrow> ns_expectedColor s)\<rparr>)"

section \<open>The older wallet hook\<close>

record old_wallet =
  ow_state :: wallet_status
  ow_publicKey :: "string option"
  ow_network :: "string option"
  ow_error :: "string option"

definition initial_old_wallet :: old_wallet where
  "initial_old_wallet = \<lparr>ow_state = WalChecking, ow_publicKey = None, ow_network = None, ow_error = None\<rparr>"

text \<open>The extension's answers to one call; \<open>Inl\<close> is an exception with its message. \<open>None\<close> for the extension itself: it is
  not installed.\<close>

record extension_answers =
  ex_isConnected :: "string + bool"
  ex_publicKey :: "string + string"
  ex_network :: "string + string"
  ex_setAllowed :: "string + string option"

definition expected_network :: "string option \<Rightarrow> string" where
  "expected_network env = (case env of Some n \<Rightarrow> if n = [] then ''testnet'' else n | None \<Rightarrow> ''testnet'')"

definition checkConnection :: "string \<Rightarrow> extension_answers option \<Rightarrow> old_wallet \<Rightarrow> old_wallet" where
  "checkConnection expected ext s =
    (case ext of None \<Rightarrow> s\<lparr>ow_state := WalNotInstalled\<rparr>
     | Some x \<Rightarrow>
        (case ex_isConnected x of
           Inl _ \<Rightarrow> s\<lparr>ow_state := WalDisconnected\<rparr>
         | Inr isConnected \<Rightarrow>
            if \<not> isConnected then s\<lparr>ow_state := WalDisconnected\<rparr>
            else (case (ex_publicKey x, ex_network x) of
                (Inr pk, Inr net) \<Rightarrow> s\<lparr>ow_publicKey := Some pk, ow_network := Some net,
                   ow_state := (if net \<noteq> expected then WalWrongNetwork else WalConnected)\<rparr>
              | _ \<Rightarrow> s\<lparr>ow_state := WalDisconnected\<rparr>)))"

text \<open>The effect on mounting: \<open>preferred\<close> is whether the stored preference is \<open>true\<close>.\<close>

definition old_wallet_mount :: "string \<Rightarrow> bool \<Rightarrow> extension_answers option \<Rightarrow> old_wallet \<Rightarrow> old_wallet" where
  "old_wallet_mount expected preferred ext s =
    (if preferred then checkConnection expected ext s
     else if ext = None then s\<lparr>ow_state := WalNotInstalled\<rparr> else s\<lparr>ow_state := WalDisconnected\<rparr>)"

text \<open>The operations return the stored preference as well.\<close>

definition old_connect :: "string \<Rightarrow> extension_answers option \<Rightarrow> old_wallet \<times> bool \<Rightarrow> old_wallet \<times> bool" where
  "old_connect expected ext w =
    (let (s, preferred) = w in
     case ext of None \<Rightarrow> (s\<lparr>ow_state := WalNotInstalled\<rparr>, preferred)
     | Some x \<Rightarrow>
        (let s1 = s\<lparr>ow_state := WalConnecting, ow_error := None\<rparr>;
             fail = (\<lambda>m. (s1\<lparr>ow_state := WalDisconnected, ow_error := Some m\<rparr>, preferred)) in
         case ex_setAllowed x of
           Inl m \<Rightarrow> fail m
         | Inr (Some m) \<Rightarrow> fail m
         | Inr None \<Rightarrow>
            (case ex_publicKey x of Inl m \<Rightarrow> fail m
             | Inr pk \<Rightarrow>
                (case ex_network x of Inl m \<Rightarrow> fail m
                 | Inr net \<Rightarrow>
                    (let s2 = s1\<lparr>ow_publicKey := Some pk, ow_network := Some net\<rparr> in
                     if net \<noteq> expected
                     then (s2\<lparr>ow_state := WalWrongNetwork, ow_error := Some (''Wrong network: expected '' @ expected @ '', got '' @ net)\<rparr>, True)
                     else (s2\<lparr>ow_state := WalConnected\<rparr>, True))))))"

text \<open>An exception of \<open>getNetwork\<close> is not caught: the error is cleared and nothing else happens.\<close>

definition switchNetwork :: "string \<Rightarrow> extension_answers option \<Rightarrow> old_wallet \<Rightarrow> old_wallet" where
  "switchNetwork expected ext s =
    (let s1 = s\<lparr>ow_error := None\<rparr> in
     case ext of None \<Rightarrow> checkConnection expected ext s1
     | Some x \<Rightarrow>
        (case ex_network x of
           Inl _ \<Rightarrow> s1
         | Inr net \<Rightarrow>
            if net \<noteq> expected
            then s1\<lparr>ow_state := WalWrongNetwork, ow_error := Some (''Please switch your Freighter wallet to '' @ expected @ '' manually.'')\<rparr>
            else checkConnection expected ext s1))"

definition old_disconnect :: "old_wallet \<times> bool \<Rightarrow> old_wallet \<times> bool" where
  "old_disconnect w = ((fst w)\<lparr>ow_state := WalDisconnected, ow_publicKey := None, ow_network := None, ow_error := None\<rparr>, False)"

datatype old_call =
    OldMount "extension_answers option"
  | OldConnect "extension_answers option"
  | OldSwitch "extension_answers option"
  | OldDisconnect

definition old_wallet_step :: "string \<Rightarrow> old_call \<Rightarrow> old_wallet \<times> bool \<Rightarrow> old_wallet \<times> bool" where
  "old_wallet_step expected c w = (case c of
      OldMount ext \<Rightarrow> (old_wallet_mount expected (snd w) ext initial_old_wallet, snd w)
    | OldConnect ext \<Rightarrow> old_connect expected ext w
    | OldSwitch ext \<Rightarrow> (switchNetwork expected ext (fst w), snd w)
    | OldDisconnect \<Rightarrow> old_disconnect w)"

section \<open>Lemmas\<close>

text \<open>A drawn text has two lower-case digits for each byte, not all of them zero.\<close>

lemma hex_digit_char: "n < 16 \<Longrightarrow> hex_char (hex_digit n)"
  by (auto simp: hex_digit_def hex_char_def is_digit_char_def char_in_def)

lemma byte_hex_chars: "b < 256 \<Longrightarrow> list_all hex_char (byte_hex b)"
  using hex_digit_char[of "b div 16"] hex_digit_char[of "b mod 16"] by (simp add: byte_hex_def)

lemma webRandomHex_text:
  assumes "webRandomHex draws = Some t" "\<And>d. d \<in> set draws \<Longrightarrow> length d = n \<and> (\<forall>b \<in> set d. b < 256)"
  shows "length t = 2 * n \<and> list_all hex_char t"
  using assms
proof (induction draws)
  case (Cons d draws)
  have "length (concat (map byte_hex d)) = 2 * length d" by (induction d) (simp_all add: byte_hex_def)
  moreover have "list_all hex_char (concat (map byte_hex d))" if "\<forall>b \<in> set d. b < 256"
    using that byte_hex_chars by (induction d) (auto simp: list_all_append)
  ultimately show ?case using Cons by (auto split: if_splits)
qed simp

text \<open>The header of every request is one the frontend reads its own trace in.\<close>

lemma own_trace_read:
  assumes "createTraceparent draws16 draws8 = Some h" "\<And>d. d \<in> set draws16 \<Longrightarrow> length d = 16 \<and> (\<forall>b \<in> set d. b < 256)"
    "\<And>d. d \<in> set draws8 \<Longrightarrow> length d = 8 \<and> (\<forall>b \<in> set d. b < 256)"
  shows "\<exists>t. webRandomHex draws16 = Some t \<and> traceIdOf (Some h) = Some t"
proof -
  obtain t s where ts: "webRandomHex draws16 = Some t" "webRandomHex draws8 = Some s" "h = ''00-'' @ t @ ''-'' @ s @ ''-01''"
    using assms(1) by (auto simp: createTraceparent_def split: option.splits)
  have t: "length t = 32" "list_all hex_char t" using webRandomHex_text[OF ts(1), of 16] assms(2) by auto
  have s: "length s = 16" "list_all hex_char s" using webRandomHex_text[OF ts(2), of 8] assms(3) by auto
  have d: "drop 53 h = ''01''" "h ! 35 = CHR ''-''" "h ! 52 = CHR ''-''" "take 32 (drop 3 h) = t" "take 16 (drop 36 h) = s" "take 3 h = ''00-''" "length h = 55"
    unfolding ts(3) using t(1) s(1) by (simp_all add: nth_append)
  show ?thesis using ts(1) t(2) s(2) d by (simp add: traceIdOf_def hex_char_def is_digit_char_def char_in_def)
qed

text \<open>A theme survives a reload, and toggling twice gives it back.\<close>

lemma theme_kept: "getInitialTheme (Some (Some (snd (theme_effect t)), prefers)) = t" "toggle_theme (toggle_theme t) = t"
  by (cases t; simp add: getInitialTheme_def theme_effect_def theme_text_def toggle_theme_def)+

text \<open>A value is shown only after it was the last one given for the whole delay.\<close>

lemma debounce_waits: "debounce_fires now (debounce_given t delay v d) = d' \<Longrightarrow> v \<noteq> db_given d \<Longrightarrow> now < t + delay \<Longrightarrow> db_shown d' = db_shown d"
  by (auto simp: debounce_fires_def debounce_given_def)

lemma debounce_shows: "v \<noteq> db_given d \<Longrightarrow> t + delay \<le> now \<Longrightarrow> db_shown (debounce_fires now (debounce_given t delay v d)) = v"
  by (simp add: debounce_fires_def debounce_given_def)

text \<open>The banner appears exactly when the wallet names a network and it is not the expected one.\<close>

lemma banner_exact:
  "NetworkBanner sdk envVal walletNetwork \<noteq> None \<longleftrightarrow>
    (\<exists>w. walletNetwork = Some w \<and> w \<noteq> [] \<and> \<not> isNetworkMatch sdk envVal (NameOnly w))"
  by (auto simp: NetworkBanner_def useNetworkStatus_def Let_def split: option.splits)

text \<open>In every run the older hook reports a connection only with a key, on the expected network.\<close>

definition old_wallet_ok :: "string \<Rightarrow> old_wallet \<Rightarrow> bool" where
  "old_wallet_ok expected s \<longleftrightarrow> (ow_state s = WalConnected \<longrightarrow> ow_publicKey s \<noteq> None \<and> ow_network s = Some expected)"

lemma check_ok: "old_wallet_ok expected (checkConnection expected ext s)"
  by (auto simp: checkConnection_def old_wallet_ok_def split: option.splits sum.splits)

lemma old_connect_ok: "old_wallet_ok expected (fst (old_connect expected ext w))"
  by (cases w) (auto simp: old_connect_def old_wallet_ok_def Let_def split: option.splits sum.splits)

lemma old_switch_ok: "old_wallet_ok expected s \<Longrightarrow> old_wallet_ok expected (switchNetwork expected ext s)"
  using check_ok[of expected ext "s\<lparr>ow_error := None\<rparr>"]
  by (auto simp: switchNetwork_def old_wallet_ok_def Let_def split: option.splits sum.splits)

lemma old_wallet_step_ok: "old_wallet_ok expected (fst w) \<Longrightarrow> old_wallet_ok expected (fst (old_wallet_step expected c w))"
  using check_ok old_connect_ok old_switch_ok
  by (cases c) (auto simp: old_wallet_step_def old_wallet_mount_def old_disconnect_def old_wallet_ok_def[of _ "_\<lparr>ow_state := _\<rparr>"]
      old_wallet_ok_def[of _ "_\<lparr>ow_state := _, ow_publicKey := _, ow_network := _, ow_error := _\<rparr>"])

lemma old_wallet_run_ok: "old_wallet_ok expected (fst (fold (old_wallet_step expected) cs (initial_old_wallet, preferred)))"
proof -
  have "old_wallet_ok expected (fst (fold (old_wallet_step expected) cs w))" if "old_wallet_ok expected (fst w)" for w
    using that old_wallet_step_ok by (induction cs arbitrary: w) simp_all
  then show ?thesis by (simp add: old_wallet_ok_def initial_old_wallet_def)
qed

end
