(* ===== verification/Spec2Isabelle.thy ===== *)
theory Spec2Isabelle
  imports SqliteRetry CircuitBreaker QueueStore Dlq ChessTypes PlayerIdentity MatchStore Errors Fetchers Settlement Services Polling SettlementAge Settings RateLimit Disagreement Elo Eligibility Maintenance Sponsor Review Tracing StorageOps Amounts Json ResponsiblePlay CreateMatch MatchViews ClaimBurn Status Leaderboard Wallet OpenApi Shutdown Evidence ContractId Logging HttpApi ContractInterface SettlementClient History FrontConfig Limiters Widgets Forms Commands Hooks
begin

text \<open>
  A verification development for smile4money, a service on which two chess players stake money on a game played on
  Lichess or Chess.com. An escrow contract on Stellar holds the stakes; the backend (\<open>src/apps/backend/src\<close>) reads the
  game from the platform, decides the result and settles the match on chain; the frontend (\<open>src/apps/frontend/src\<close>)
  creates matches, takes deposits and shows states and payouts. The contracts themselves are Rust and are not part of
  this development. All paths below are relative to these two directories.

  \<^bold>\<open>How the parts interact.\<close> A player links a chess account to a wallet (\<open>services/player-identity.ts\<close>) and creates a
  match (\<open>services/match-service.ts\<close> over a match store). The polling worker (\<open>services/polling.ts\<close>) asks the
  platform fetchers for the game until it is finished. The oracle service (\<open>services/oracle-service.ts\<close>) verifies the
  result against the stored match and leaves evidence. The submission (\<open>services/oracle-submit.ts\<close>) carries it to the
  chain through an outbox, retries, and leaves what failed in the dead-letter queue (\<open>queue.ts\<close> over a queue store),
  which a retry worker behind the circuit breaker drains. Monitors watch the age of settlements and the disagreement of
  outcomes with independent evidence. Around them stand the HTTP routes with authentication and rate limits, the
  logger, the status document, the storage maintenance and the shutdown. The frontend's pages are state machines of
  clicks, effects and answers over the same contract.

  \<^bold>\<open>Conventions.\<close> A class or a hook is a \<open>record\<close> of its fields and one function per operation, which takes the state and
  returns it updated; \<open>throw\<close> and rejected promises are \<open>Inl\<close> of an error or a constructor of their own. A program
  that awaits is cut at its awaits: a machine of events, whose interleavings are an \<open>inductive\<close> relation or the
  \<open>fold\<close> of an arbitrary event list. A call of a store or of a poll is atomic where the code has no await inside that
  another operation could observe. JavaScript maps keep their insertion order and are lists of pairs (theory
  \<open>Prelude\<close>). Texts are ASCII strings. Numbers are \<open>int\<close>, \<open>nat\<close> or \<open>rat\<close> where the code computes exactly (integers
  below \<open>2 ^ 53\<close>, bigint); the stake multiplier rounds every operation with \<open>fl\<close> (theory \<open>Doubles\<close>); the contract
  identifier decoder works on \<open>32 word\<close>. Libraries and services outside the repository (the Stellar SDK, axios,
  SQLite, jsonwebtoken, hashing, the browser's wallet extension) are arguments of the definitions that use them.

  \<^bold>\<open>Backend: queue, matches, settlement.\<close>
  \<^item> \<open>SqliteRetry\<close>: the busy retry around each SQLite call of \<open>store/sqlite-queue-store.ts\<close>; it ends by a measure.
  \<^item> \<open>QueueStore\<close>: the interface \<open>store/persistent-queue-store.ts\<close> as record \<open>queue_ops\<close> and locale \<open>queue_store\<close>,
    interpreted for the memory store (\<open>memq\<close>) and the SQLite store (\<open>sqlq\<close>); \<open>Dlq\<close> has \<open>queue.ts\<close> over any such store, its retry cycle and its eviction.
  \<^item> \<open>CircuitBreaker\<close>: \<open>services/circuit-breaker.ts\<close> as a step machine, with its persisted snapshot.
  \<^item> \<open>ChessTypes\<close>, \<open>PlayerIdentity\<close>, \<open>MatchStore\<close>, \<open>Errors\<close>, \<open>Fetchers\<close>: the data, the identity challenges, both match
    stores behind locale \<open>match_store\<close> (\<open>mmem\<close>, \<open>msql\<close>), the error classes, and the fetchers with at most 3 retries
    (Lichess) and at most the configured months of archives (Chess.com).
  \<^item> \<open>Services\<close>: creation of a match and verification of a result over any match store and any fetchers that meet the
    locale \<open>game_source\<close>, which the model's own fetchers do (\<open>mf\<close>).
  \<^item> \<open>Settlement\<close>: submission with retries, the outbox of \<open>store/settlement-store.ts\<close> and its step, the registry
    transport, which polls a transaction 10 times; \<open>SettlementClient\<close>: the client
    of the escrow contract that a step of the outbox talks through, and the lookups of the registry.
  \<^item> \<open>Polling\<close>, \<open>SettlementAge\<close>, \<open>Disagreement\<close>: the worker with its timers, the two monitors, each against a
    specification of its whole history.
  \<^item> \<open>Elo\<close>, \<open>Eligibility\<close>: the price of a match by ratings, the rules for games and the validation route.

  \<^bold>\<open>Backend: service.\<close>
  \<^item> \<open>Settings\<close>: network resolution and numeric settings; \<open>RateLimit\<close>: both token buckets behind locale
    \<open>rate_backend\<close> (\<open>mem_rate\<close>, \<open>sql_rate\<close>), the middleware and the queueing limiter; \<open>Limiters\<close>: the configuration
    of the platform limiters.
  \<^item> \<open>Maintenance\<close>, \<open>StorageOps\<close>, \<open>Shutdown\<close>: the gate around the queue store, the live restore, migrations, backups,
    retention and the shutdown sequence.
  \<^item> \<open>Review\<close>: evidence ledgers behind locale \<open>evidence_ledger\<close> (\<open>mem_ledger\<close>, \<open>sql_ledger\<close>), the lock of a game,
    authentication and the review routes; \<open>Evidence\<close>: the exported dispute bundle and the checksummed files.
  \<^item> \<open>Sponsor\<close>, \<open>Tracing\<close>, \<open>Status\<close>, \<open>Json\<close>, \<open>OpenApi\<close>: sponsored transactions, trace propagation, the public status
    and health, JSON values, and the comparison of two API documents (schemas to the depth the code follows).
  \<^item> \<open>Logging\<close>: the log sink and the request log; \<open>HttpApi\<close>: the routes of matches, results and identities, CORS, and
    the signer of the oracle.
  \<^item> \<open>ContractInterface\<close>: the generator that reads the methods of the Rust contracts
    (\<open>scripts/generate-contract-interface.mjs\<close>) and the tables and serializers it keeps in step; \<open>Commands\<close>: the
    operators' commands for backups, dispute evidence, API documents and replays, with their exit codes.

  \<^bold>\<open>Frontend.\<close>
  \<^item> \<open>Amounts\<close>: amounts typed and shown, payouts; \<open>ContractId\<close>: contract identifiers and assets; \<open>FrontConfig\<close>: game
    links, registry lookups, the eligibility notice and the network of the build.
  \<^item> \<open>ResponsiblePlay\<close>: self-exclusion and stake limits over the browser's storage.
  \<^item> \<open>CreateMatch\<close>, \<open>MatchViews\<close>, \<open>ClaimBurn\<close>, \<open>Leaderboard\<close>, \<open>History\<close>, \<open>Wallet\<close>: the pages and hooks, each with its
    handlers and effects; the wager history pages by 20.
  \<^item> \<open>Forms\<close>, \<open>Widgets\<close>, \<open>Hooks\<close>: the smaller forms and the page around the wager components, the shared widgets
    (toasts, focus trap, review dialog, error boundary, transaction states), and the hooks for theme, delay, trace
    headers and the older wallet.

  \<^bold>\<open>What the lemmas show.\<close> Each theory states the invariant of its state and that every operation keeps it, the result of
  each operation on every branch, errors included, and the properties that the component is there for. The root of each
  group of proofs is a small set of lemmas about single operations; the properties over whole runs follow by rule
  induction or by induction on the events. Where a component promises something simpler than what it does, the promise
  is a definition of its own: the queue as the list of its live entries, the breaker as a counter of failures, the
  windows of the monitors as functions of the history, the meaning of a schema as a set of values, the decoded
  identifier as a number. Facts that contradict a comment or the intent of the code are lemmas or properties as well.

  \<^bold>\<open>Bounds.\<close> Loops that retry or page are functions whose termination is proved by the attempts left; no definition needs
  fuel that the code does not have. The schema comparison stops at the depth the code stops at; the schema semantics it
  is compared with is structural.

  \<^bold>\<open>Not modelled.\<close> Markup and styles, and the shell of the pages (routes, providers, the home page). The start of the
  server (\<open>server.ts\<close>): it imports a name that its module does not export and calls a function that it does not import,
  so it does not run. The MongoDB store, which nothing creates and whose library is not installed; the opening of SQLite
  connections and HTTP agents; the building of Stellar transactions. Generated tables beyond the entries the
  definitions read, settings of build tools, scripts that scan a build, compiled output. A second Lichess client that
  nothing uses (\<open>services/lichess.ts\<close>). The manifest gives the reason for each.
\<close>

end
